(* ===== verification/Prelude.thy ===== *)
theory Prelude
  imports Main "HOL-Library.Word" "HOL-Library.Sublist"
begin

text \<open>
  Shared vocabulary of the development: Go errors as values, the result type of fallible
  operations, the model of the environment (system calls and cancelled contexts that may fail at
  any point) with the atomic-replace discipline every store of the program uses, and the
  \<open>named_theorems\<close> collections the component theories fill.

  A Go \<open>string\<close> is a sequence of bytes and is modelled by \<^typ>\<open>string\<close> (a list of 8-bit
  characters). A \<open>time.Time\<close> is the number of nanoseconds since the zero time
  0001-01-01T00:00:00Z, so \<open>IsZero\<close> is being 0; a \<open>time.Duration\<close> is a number of nanoseconds.
\<close>

named_theorems go_simps "unfolding rules of the library functions of Go used by the program"
named_theorems disk_simps "effects of the disk operations"
named_theorems inv_intros "introduction rules of the component invariants"

subsection \<open>Errors and results\<close>

text \<open>
  \<open>ErrorNew\<close> is \<open>errors.New\<close> (or \<open>fmt.Errorf\<close> without a wrapped error) with its text,
  \<open>Wrapf\<close> is \<open>fmt.Errorf("text: %w", err)\<close>, \<open>Joined\<close> is \<open>errors.Join\<close>; \<open>EIO\<close> is an error that comes
  from outside the program (a failed system call, an undecodable file, a cancelled context); the remaining constructors are
  the sentinel errors that the program compares with \<open>errors.Is\<close>.
\<close>

datatype go_error =
    ErrorNew string
  | Wrapf string go_error
  | Joined "go_error list"
  | EIO
  | ErrNotExist
  | ErrNotFound
  | ErrTaskLeased
  | ErrLeaseConflict
  | ErrLeaseExpired
  | DeadlineExceeded

type_synonym 'a result = "go_error + 'a"
type_synonym timestamp = int
type_synonym duration = int
type_synonym uint64 = "64 word"
type_synonym uint32 = "32 word"

definition is_ok :: "'a result \<Rightarrow> bool" where
  "is_ok r = (case r of Inl _ \<Rightarrow> False | Inr _ \<Rightarrow> True)"

lemma is_ok_simps [simp]: "is_ok (Inr x)" "\<not> is_ok (Inl e)"
  by (simp_all add: is_ok_def)

lemma is_ok_iff: "is_ok r \<longleftrightarrow> (\<exists>x. r = Inr x)"
  by (cases r) simp_all

definition nanosecond :: duration where "nanosecond = 1"
definition second :: duration where "second = 1000000000"
definition minute :: duration where "minute = 60 * second"

lemmas duration_defs = nanosecond_def second_def minute_def

lemma minute_pos [simp]: "0 < minute" "0 < second"
  by (simp_all add: duration_defs)

subsection \<open>Lists\<close>

text \<open>The first value of a Go map literal or association list under a key.\<close>

lemma map_of_filter_key:
  "map_of (filter (\<lambda>(k, v). P k) xs) k = (if P k then map_of xs k else None)"
  by (induction xs) auto

lemma prefix_append_cancel: "prefix (xs @ ys) (xs @ zs) \<longleftrightarrow> prefix ys zs"
  by simp

lemma list_ex_map: "list_ex P (map f xs) = list_ex (P \<circ> f) xs"
  by (induction xs) auto

subsection \<open>The environment: system calls that may fail\<close>

text \<open>
  A directory of files is a map from file names to contents. Whatever the outside world decides
  (does this system call fail, is the context cancelled at this check) is read off the schedule
  \<open>io_fails\<close>, one entry per call in the order the program makes them. A theorem for every schedule
  covers every pattern of I/O failures; a crash after the \<open>n\<close>-th call is the schedule in which
  every later call fails, because a failed call changes no file.
\<close>

record 'd disk =
  files :: "string \<rightharpoonup> 'd"
  io_count :: nat
  io_fails :: "nat \<Rightarrow> bool"

definition reliable :: "(string \<rightharpoonup> 'd) \<Rightarrow> 'd disk" where
  "reliable fs = \<lparr>files = fs, io_count = 0, io_fails = (\<lambda>_. False)\<rparr>"

definition syscall :: "'d disk \<Rightarrow> bool \<times> 'd disk" where
  "syscall d = (\<not> io_fails d (io_count d), d\<lparr>io_count := Suc (io_count d)\<rparr>)"

text \<open>\<open>calls n\<close> makes \<open>n\<close> calls in a row and stops at the first one that fails.\<close>

fun calls :: "nat \<Rightarrow> 'd disk \<Rightarrow> bool \<times> 'd disk" where
  "calls 0 d = (True, d)"
| "calls (Suc n) d = (case syscall d of (ok, d') \<Rightarrow> if ok then calls n d' else (False, d'))"

definition put_file :: "string \<Rightarrow> 'd \<Rightarrow> 'd disk \<Rightarrow> 'd disk" where
  "put_file k v d = d\<lparr>files := (files d)(k \<mapsto> v)\<rparr>"

definition del_file :: "string \<Rightarrow> 'd disk \<Rightarrow> 'd disk" where
  "del_file k d = d\<lparr>files := (files d)(k := None)\<rparr>"

text \<open>
  The write discipline of every store: write a temporary file (\<open>pre\<close> calls: create, chmod, write,
  sync, close), rename it over the target, then \<open>post\<close> calls (open, sync and close the directory).
  The file changes at the rename and nowhere else; a failure after the rename is reported although
  the new content is in place.
\<close>

definition atomic_replace :: "nat \<Rightarrow> nat \<Rightarrow> string \<Rightarrow> 'd \<Rightarrow> 'd disk \<Rightarrow> unit result \<times> 'd disk" where
  "atomic_replace pre post k v d =
     (case calls pre d of (ok, d1) \<Rightarrow>
        if \<not> ok then (Inl EIO, d1)
        else (case syscall d1 of (ok, d2) \<Rightarrow>
          if \<not> ok then (Inl EIO, d2)
          else (case calls post (put_file k v d2) of (ok, d3) \<Rightarrow>
            if ok then (Inr (), d3) else (Inl EIO, d3))))"

text \<open>Reading a whole file: one call that may fail, \<open>ErrNotExist\<close> when there is no such file.\<close>

definition read_file :: "string \<Rightarrow> 'd disk \<Rightarrow> 'd result \<times> 'd disk" where
  "read_file k d =
     (case syscall d of (ok, d') \<Rightarrow>
        (if ok then (case files d k of None \<Rightarrow> Inl ErrNotExist | Some v \<Rightarrow> Inr v) else Inl EIO, d'))"

text \<open>Unlinking a file, then \<open>post\<close> calls to make the removal durable.\<close>

definition remove_file :: "nat \<Rightarrow> string \<Rightarrow> 'd disk \<Rightarrow> unit result \<times> 'd disk" where
  "remove_file post k d =
     (case syscall d of (ok, d1) \<Rightarrow>
        if \<not> ok then (Inl EIO, d1)
        else if files d k = None then (Inl ErrNotExist, d1)
        else (case calls post (del_file k d1) of (ok, d2) \<Rightarrow>
          if ok then (Inr (), d2) else (Inl EIO, d2)))"

lemma files_syscall [simp]: "files (snd (syscall d)) = files d"
  by (simp add: syscall_def)

lemma files_calls [simp]: "files (snd (calls n d)) = files d"
  by (induction n arbitrary: d) (auto simp: syscall_def)

lemma calls_files: "calls n d = (b, d') \<Longrightarrow> files d' = files d"
  using files_calls [of n d] by simp

lemma syscall_files: "syscall d = (b, d') \<Longrightarrow> files d' = files d"
  using files_syscall [of d] by simp

lemma files_put_file [simp]: "files (put_file k v d) = (files d)(k \<mapsto> v)"
  by (simp add: put_file_def)

lemma files_del_file [simp]: "files (del_file k d) = (files d)(k := None)"
  by (simp add: del_file_def)

text \<open>What a caller of \<open>atomic_replace\<close> may rely on: success means the new content is there; failure
  means the old content or the new one is there, and no other file is touched.\<close>

lemma atomic_replace_cases:
  assumes "atomic_replace pre post k v d = (r, d')"
  obtains (ok) "r = Inr ()" "files d' = (files d)(k \<mapsto> v)"
  | (unchanged) "r = Inl EIO" "files d' = files d"
  | (late) "r = Inl EIO" "files d' = (files d)(k \<mapsto> v)"
  using assms
  by (auto simp: atomic_replace_def split: prod.splits if_splits dest!: calls_files syscall_files)

lemma atomic_replace_Inr:
  "atomic_replace pre post k v d = (Inr u, d') \<Longrightarrow> files d' = (files d)(k \<mapsto> v)"
  by (erule atomic_replace_cases) auto

lemma atomic_replace_other:
  "atomic_replace pre post k v d = (r, d') \<Longrightarrow> k' \<noteq> k \<Longrightarrow> files d' k' = files d k'"
  by (erule atomic_replace_cases) auto

lemma read_file_files: "read_file k d = (r, d') \<Longrightarrow> files d' = files d"
  by (auto simp: read_file_def split: prod.splits dest: syscall_files)

lemma read_file_Inr: "read_file k d = (Inr v, d') \<Longrightarrow> files d k = Some v"
  by (auto simp: read_file_def split: prod.splits if_splits option.splits)

lemma read_file_NotExist: "read_file k d = (Inl ErrNotExist, d') \<Longrightarrow> files d k = None"
  by (auto simp: read_file_def split: prod.splits if_splits option.splits)

lemma remove_file_cases:
  assumes "remove_file post k d = (r, d')"
  obtains (ok) "r = Inr ()" "files d' = (files d)(k := None)"
  | (unchanged) "is_ok r = False" "files d' = files d"
  | (late) "r = Inl EIO" "files d' = (files d)(k := None)"
  using assms
  by (auto simp: remove_file_def split: prod.splits if_splits dest!: calls_files syscall_files)

lemmas disk_cases = atomic_replace_cases remove_file_cases

text \<open>On a reliable disk every call succeeds.\<close>

definition healthy :: "'d disk \<Rightarrow> bool" where
  "healthy d \<longleftrightarrow> (\<forall>n. \<not> io_fails d n)"

lemma healthy_reliable [simp]: "healthy (reliable fs)" "files (reliable fs) = fs"
  by (simp_all add: healthy_def reliable_def)

lemma healthy_syscall: "healthy d \<Longrightarrow> \<exists>d'. syscall d = (True, d') \<and> healthy d' \<and> files d' = files d"
  by (auto simp: healthy_def syscall_def)

lemma healthy_calls: "healthy d \<Longrightarrow> \<exists>d'. calls n d = (True, d') \<and> healthy d' \<and> files d' = files d"
proof (induction n arbitrary: d)
  case (Suc n)
  from healthy_syscall [OF Suc.prems] obtain d1
    where d1: "syscall d = (True, d1)" "healthy d1" "files d1 = files d" by blast
  with Suc.IH [OF d1(2)] show ?case by auto
qed simp

lemma healthy_put_file [simp]: "healthy (put_file k v d) = healthy d"
  by (simp add: healthy_def put_file_def)

lemma healthy_del_file [simp]: "healthy (del_file k d) = healthy d"
  by (simp add: healthy_def del_file_def)

lemma healthy_atomic_replace:
  assumes "healthy d"
  shows "\<exists>d'. atomic_replace pre post k v d = (Inr (), d') \<and> healthy d' \<and> files d' = (files d)(k \<mapsto> v)"
proof -
  from healthy_calls [OF assms, of pre] obtain d1
    where d1: "calls pre d = (True, d1)" "healthy d1" "files d1 = files d" by blast
  from healthy_syscall [OF d1(2)] obtain d2
    where d2: "syscall d1 = (True, d2)" "healthy d2" "files d2 = files d1" by blast
  from d2(2) have "healthy (put_file k v d2)" by simp
  from healthy_calls [OF this, of post] obtain d3
    where d3: "calls post (put_file k v d2) = (True, d3)" "healthy d3"
      "files d3 = files (put_file k v d2)" by blast
  from d1 d2 d3 show ?thesis by (simp add: atomic_replace_def)
qed

lemma healthy_read_file:
  assumes "healthy d"
  shows "\<exists>d'. read_file k d = ((case files d k of None \<Rightarrow> Inl ErrNotExist | Some v \<Rightarrow> Inr v), d')
    \<and> healthy d' \<and> files d' = files d"
  using healthy_syscall [OF assms] by (auto simp: read_file_def)

lemma healthy_remove_file:
  assumes "healthy d" and "files d k \<noteq> None"
  shows "\<exists>d'. remove_file post k d = (Inr (), d') \<and> healthy d' \<and> files d' = (files d)(k := None)"
proof -
  from healthy_syscall [OF assms(1)] obtain d1
    where d1: "syscall d = (True, d1)" "healthy d1" "files d1 = files d" by blast
  from d1(2) have "healthy (del_file k d1)" by simp
  from healthy_calls [OF this, of post] obtain d2
    where d2: "calls post (del_file k d1) = (True, d2)" "healthy d2"
      "files d2 = files (del_file k d1)" by blast
  from assms(2) d1 d2 show ?thesis by (simp add: remove_file_def)
qed

subsection \<open>Atomic document stores\<close>

text \<open>The content of a file a store reads back: a document the program (or an operator) wrote, or bytes
  that do not decode.\<close>

datatype 'a doc = Valid 'a | Corrupt

definition decode :: "'a doc result \<Rightarrow> 'a result" where
  "decode r = (case r of Inl e \<Rightarrow> Inl e | Inr (Valid x) \<Rightarrow> Inr x | Inr Corrupt \<Rightarrow> Inl EIO)"

lemma decode_simps [simp]:
  "decode (Inl e) = Inl e" "decode (Inr (Valid x)) = Inr x" "decode (Inr Corrupt) = Inl EIO"
  by (simp_all add: decode_def)

lemma decode_Inr: "decode r = Inr x \<longleftrightarrow> r = Inr (Valid x)"
  by (auto simp: decode_def split: sum.splits doc.splits)

text \<open>The contract between a store and its client: a successful \<open>save\<close> leaves exactly the new document under
  its key, a failed one leaves the old or the new document, never a partial one, and no other key
  changes; on a disk without failures a \<open>save\<close> succeeds.\<close>

locale document_store =
  fixes save :: "'r \<Rightarrow> 'd disk \<Rightarrow> unit result \<times> 'd disk"
    and key :: "'r \<Rightarrow> string"
    and content :: "'r \<Rightarrow> 'd"
  assumes save_done: "save r d = (Inr u, d') \<Longrightarrow> files d' = (files d)(key r \<mapsto> content r)"
    and save_failed: "save r d = (Inl e, d') \<Longrightarrow> files d' = files d \<or> files d' = (files d)(key r \<mapsto> content r)"
    and save_healthy: "healthy d \<Longrightarrow>
      \<exists>d'. save r d = (Inr (), d') \<and> healthy d' \<and> files d' = (files d)(key r \<mapsto> content r)"
begin

lemma save_old_or_new:
  assumes "save r d = (x, d')"
  shows "files d' = files d \<or> files d' = (files d)(key r \<mapsto> content r)"
  using assms save_done [of r d] save_failed [of r d] by (cases x) auto

lemma save_other:
  assumes "save r d = (x, d')" "k \<noteq> key r"
  shows "files d' k = files d k"
  using save_old_or_new [OF assms(1)] assms(2) by auto

lemma save_then_read:
  assumes "save r d = (Inr u, d')" "read_file (key r) d' = (Inr v, d'')"
  shows "v = content r"
  using save_done [OF assms(1)] read_file_Inr [OF assms(2)] by simp

lemma save_keeps:
  assumes "save r d = (x, d')" "\<And>k v. files d k = Some v \<Longrightarrow> P k v" "P (key r) (content r)"
  shows "files d' k = Some v \<Longrightarrow> P k v"
  using save_old_or_new [OF assms(1)] assms(2,3) by (auto split: if_splits)

end

lemma document_store_atomic:
  "document_store (\<lambda>r. atomic_replace pre post (key r) (content r)) key content"
proof
  fix r d d' e assume "atomic_replace pre post (key r) (content r) d = (Inl e, d')"
  then show "files d' = files d \<or> files d' = (files d)(key r \<mapsto> content r)"
    by (rule atomic_replace_cases) auto
qed (auto dest: atomic_replace_Inr intro: healthy_atomic_replace)

end
