(* ===== verification/GoLib.thy ===== *)
theory GoLib
  imports Prelude
begin

text \<open>
  The part of Go's standard library the program computes with: \<open>strings\<close> and \<open>path/filepath\<close> (on a
  Unix system). The functions keep their Go names. Strings are byte sequences; where Go decodes
  UTF-8 the model works on the encoded bytes of valid UTF-8 text. \<open>ToLower\<close> maps the ASCII letters
  and the two other characters whose lower case is an ASCII letter (U+0130 and U+212A), so a
  comparison of a lower-cased string with an ASCII literal is exact; cased letters outside ASCII are
  left as they are.
\<close>

subsection \<open>strings.ToLower, strings.EqualFold\<close>

definition lower_char :: "char \<Rightarrow> char" where
  "lower_char c = (let n = (of_char c :: nat) in if 65 \<le> n \<and> n \<le> 90 then char_of (n + 32) else c)"

fun ToLower :: "string \<Rightarrow> string" where
  "ToLower [] = []"
| "ToLower (c # cs) =
     (if c = CHR 0xC4 \<and> take 1 cs = [CHR 0xB0] then CHR ''i'' # ToLower (drop 1 cs)
      else if c = CHR 0xE2 \<and> take 2 cs = [CHR 0x84, CHR 0xAA] then CHR ''k'' # ToLower (drop 2 cs)
      else lower_char c # ToLower cs)"

text \<open>\<open>EqualFold\<close> is used only against the literals \<open>degraded\<close> and \<open>critical\<close>, whose letters fold to
  ASCII letters alone.\<close>

definition EqualFold :: "string \<Rightarrow> string \<Rightarrow> bool" where
  "EqualFold s t \<longleftrightarrow> map lower_char s = map lower_char t"

lemma of_char_less: "(of_char c :: nat) < 256"
  using char_of_char [of c] by (metis of_char_of mod_less_divisor zero_less_numeral)

lemma lower_char_idem [simp]: "lower_char (lower_char c) = lower_char c"
  by (auto simp: lower_char_def Let_def)

lemma lower_char_high [simp]: "128 \<le> (of_char c :: nat) \<Longrightarrow> lower_char c = c"
  by (simp add: lower_char_def)

lemma of_char_lower_high: "(128 \<le> (of_char (lower_char c) :: nat)) \<longleftrightarrow> 128 \<le> (of_char c :: nat)"
  by (auto simp: lower_char_def Let_def)

lemma lower_char_eq_high:
  assumes "lower_char c = d" and "128 \<le> (of_char d :: nat)"
  shows "c = d"
  using assms of_char_lower_high [of c] by auto

lemma EqualFold_refl [simp]: "EqualFold s s"
  by (simp add: EqualFold_def)

text \<open>A lower-cased string starts with a lead byte only where the original did.\<close>

lemma ToLower_take_high:
  assumes "take n (ToLower cs) = w" and "length w = n" and "\<forall>c \<in> set w. 128 \<le> (of_char c :: nat)"
  shows "take n cs = w"
  using assms
proof (induction cs arbitrary: n w rule: ToLower.induct)
  case 1
  then show ?case by simp
next
  case (2 c cs)
  show ?case
  proof (cases n)
    case 0
    with 2(5) show ?thesis by simp
  next
    case (Suc m)
    with 2(5) obtain x v where w: "w = x # v" and lv: "length v = m" by (cases w) auto
    have not_ascii: "x \<noteq> CHR ''i''" "x \<noteq> CHR ''k''" using 2(6) w by auto
    consider (dotted) "c = CHR 0xC4 \<and> take 1 cs = [CHR 0xB0]"
      | (kelvin) "\<not> (c = CHR 0xC4 \<and> take 1 cs = [CHR 0xB0])" "c = CHR 0xE2 \<and> take 2 cs = [CHR 0x84, CHR 0xAA]"
      | (plain) "\<not> (c = CHR 0xC4 \<and> take 1 cs = [CHR 0xB0])" "\<not> (c = CHR 0xE2 \<and> take 2 cs = [CHR 0x84, CHR 0xAA])"
      by blast
    then show ?thesis
    proof cases
      case dotted
      with 2(4) Suc w not_ascii show ?thesis by simp
    next
      case kelvin
      with 2(4) Suc w not_ascii show ?thesis by simp
    next
      case plain
      with 2(4) Suc w have x: "lower_char c = x" and v: "take m (ToLower cs) = v" by auto
      have "c = x" using lower_char_eq_high [OF x] 2(6) w by simp
      moreover have "take m cs = v" using 2(3) [OF plain v lv] 2(6) w by simp
      ultimately show ?thesis using Suc w by simp
    qed
  qed
qed

lemma ToLower_idem [simp]: "ToLower (ToLower s) = ToLower s"
proof (induction s rule: ToLower.induct)
  case 1
  then show ?case by simp
next
  case (2 c cs)
  consider (dotted) "c = CHR 0xC4 \<and> take 1 cs = [CHR 0xB0]"
    | (kelvin) "\<not> (c = CHR 0xC4 \<and> take 1 cs = [CHR 0xB0])" "c = CHR 0xE2 \<and> take 2 cs = [CHR 0x84, CHR 0xAA]"
    | (plain) "\<not> (c = CHR 0xC4 \<and> take 1 cs = [CHR 0xB0])" "\<not> (c = CHR 0xE2 \<and> take 2 cs = [CHR 0x84, CHR 0xAA])"
    by blast
  then show ?case
  proof cases
    case dotted
    with 2(1) show ?thesis by (simp add: lower_char_def)
  next
    case kelvin
    with 2(2) show ?thesis by (simp add: lower_char_def)
  next
    case plain
    have d: "\<not> (lower_char c = CHR 0xC4 \<and> take 1 (ToLower cs) = [CHR 0xB0])"
    proof
      assume a: "lower_char c = CHR 0xC4 \<and> take 1 (ToLower cs) = [CHR 0xB0]"
      from a have "c = CHR 0xC4" by (auto dest: lower_char_eq_high)
      moreover from a have "take 1 cs = [CHR 0xB0]"
        using ToLower_take_high [of 1 cs "[CHR 0xB0]"] by simp
      ultimately show False using plain(1) by simp
    qed
    have k: "\<not> (lower_char c = CHR 0xE2 \<and> take 2 (ToLower cs) = [CHR 0x84, CHR 0xAA])"
    proof
      assume a: "lower_char c = CHR 0xE2 \<and> take 2 (ToLower cs) = [CHR 0x84, CHR 0xAA]"
      from a have "c = CHR 0xE2" by (auto dest: lower_char_eq_high)
      moreover from a have "take 2 cs = [CHR 0x84, CHR 0xAA]"
        using ToLower_take_high [of 2 cs "[CHR 0x84, CHR 0xAA]"] by simp
      ultimately show False using plain(2) by simp
    qed
    from plain have "ToLower (c # cs) = lower_char c # ToLower cs" by auto
    moreover from d k 2(3) [OF plain]
    have "ToLower (lower_char c # ToLower cs) = lower_char c # ToLower cs" by auto
    ultimately show ?thesis by simp
  qed
qed

subsection \<open>strings.TrimSpace, TrimSuffix, Split, Join\<close>

definition ascii_spaces :: "char list" where
  "ascii_spaces = [CHR 0x09, CHR 0x0A, CHR 0x0B, CHR 0x0C, CHR 0x0D, CHR 0x20]"

text \<open>The white space of \<open>unicode.IsSpace\<close> outside ASCII, as encoded in UTF-8: U+0085, U+00A0 and
  U+1680, U+2000 to U+200A, U+2028, U+2029, U+202F, U+205F, U+3000.\<close>

definition wide_spaces :: "string list" where
  "wide_spaces =
     [[CHR 0xC2, CHR 0x85], [CHR 0xC2, CHR 0xA0], [CHR 0xE1, CHR 0x9A, CHR 0x80],
      [CHR 0xE2, CHR 0x80, CHR 0x80], [CHR 0xE2, CHR 0x80, CHR 0x81], [CHR 0xE2, CHR 0x80, CHR 0x82],
      [CHR 0xE2, CHR 0x80, CHR 0x83], [CHR 0xE2, CHR 0x80, CHR 0x84], [CHR 0xE2, CHR 0x80, CHR 0x85],
      [CHR 0xE2, CHR 0x80, CHR 0x86], [CHR 0xE2, CHR 0x80, CHR 0x87], [CHR 0xE2, CHR 0x80, CHR 0x88],
      [CHR 0xE2, CHR 0x80, CHR 0x89], [CHR 0xE2, CHR 0x80, CHR 0x8A], [CHR 0xE2, CHR 0x80, CHR 0xA8],
      [CHR 0xE2, CHR 0x80, CHR 0xA9], [CHR 0xE2, CHR 0x80, CHR 0xAF], [CHR 0xE2, CHR 0x81, CHR 0x9F],
      [CHR 0xE3, CHR 0x80, CHR 0x80]]"

text \<open>The number of bytes of the white-space character at the front, 0 if there is none; \<open>enc\<close> holds
  the encodings to look for (reversed ones when the string is scanned from its end).\<close>

definition space_width :: "string list \<Rightarrow> string \<Rightarrow> nat" where
  "space_width enc s =
     (case s of [] \<Rightarrow> 0
      | c # _ \<Rightarrow> if c \<in> set ascii_spaces then 1
                 else if take 2 s \<in> set enc then 2
                 else if take 3 s \<in> set enc then 3 else 0)"

function trim_with :: "string list \<Rightarrow> string \<Rightarrow> string" where
  "trim_with enc s = (if space_width enc s = 0 then s else trim_with enc (drop (space_width enc s) s))"
  by pat_completeness auto
termination
  by (relation "measure (\<lambda>(enc, s). length s)") (auto simp: space_width_def split: list.splits if_splits)

declare trim_with.simps [simp del]

definition TrimLeftSpace :: "string \<Rightarrow> string" where
  "TrimLeftSpace s = trim_with wide_spaces s"

definition TrimRightSpace :: "string \<Rightarrow> string" where
  "TrimRightSpace s = rev (trim_with (map rev wide_spaces) (rev s))"

definition TrimSpace :: "string \<Rightarrow> string" where
  "TrimSpace s = TrimRightSpace (TrimLeftSpace s)"

lemma trim_with_fix: "space_width enc (trim_with enc s) = 0"
proof (induction enc s rule: trim_with.induct)
  case (1 enc s)
  then show ?case by (cases "space_width enc s = 0") (simp_all add: trim_with.simps [of enc s])
qed

lemma trim_with_id: "space_width enc s = 0 \<Longrightarrow> trim_with enc s = s"
  by (simp add: trim_with.simps)

lemma trim_with_suffix: "suffix (trim_with enc s) s"
proof (induction enc s rule: trim_with.induct)
  case (1 enc s)
  show ?case
  proof (cases "space_width enc s = 0")
    case True
    then show ?thesis by (simp add: trim_with.simps [of enc s])
  next
    case False
    with 1 have "suffix (trim_with enc (drop (space_width enc s) s)) (drop (space_width enc s) s)" by simp
    with False show ?thesis
      by (simp add: trim_with.simps [of enc s]) (metis suffix_drop suffix_order.trans)
  qed
qed

lemma TrimSpace_Nil [simp]: "TrimSpace [] = []"
  by (simp add: TrimSpace_def TrimLeftSpace_def TrimRightSpace_def trim_with.simps space_width_def)

text \<open>Text whose first and last bytes are not white space is left alone; the two conditions are
  executable, so concrete strings are decided by evaluation.\<close>

definition trimmed :: "string \<Rightarrow> bool" where
  "trimmed s \<longleftrightarrow> space_width wide_spaces s = 0 \<and> space_width (map rev wide_spaces) (rev s) = 0"

lemma TrimSpace_trimmed: "trimmed s \<Longrightarrow> TrimSpace s = s"
  by (simp add: TrimSpace_def TrimLeftSpace_def TrimRightSpace_def trim_with_id trimmed_def)

definition TrimSuffix :: "string \<Rightarrow> string \<Rightarrow> string" where
  "TrimSuffix s suf = (if suffix suf s then take (length s - length suf) s else s)"

fun split_on :: "char \<Rightarrow> string \<Rightarrow> string list" where
  "split_on c [] = [[]]"
| "split_on c (x # xs) =
     (if x = c then [] # split_on c xs
      else (case split_on c xs of [] \<Rightarrow> [[x]] | y # ys \<Rightarrow> (x # y) # ys))"

fun join :: "string \<Rightarrow> string list \<Rightarrow> string" where
  "join sep [] = []"
| "join sep [x] = x"
| "join sep (x # y # zs) = x @ sep @ join sep (y # zs)"

lemma split_on_ne [simp]: "split_on c s \<noteq> []"
  by (induction s) (auto split: list.splits)

lemma split_on_no_sep: "x \<in> set (split_on c s) \<Longrightarrow> c \<notin> set x"
  by (induction s arbitrary: x) (auto split: list.splits if_splits)

lemma split_on_id: "c \<notin> set s \<Longrightarrow> split_on c s = [s]"
  by (induction s) auto

lemma split_on_append_sep: "c \<notin> set x \<Longrightarrow> split_on c (x @ c # r) = x # split_on c r"
  by (induction x) auto

lemma split_join:
  "xs \<noteq> [] \<Longrightarrow> \<forall>x \<in> set xs. c \<notin> set x \<Longrightarrow> split_on c (join [c] xs) = xs"
  by (induction "[c]" xs rule: join.induct) (auto simp: split_on_id split_on_append_sep)

lemma join_split: "join [c] (split_on c s) = s"
proof (induction s)
  case (Cons x xs)
  then show ?case
    by (cases "split_on c xs" rule: list.exhaust; cases "tl (split_on c xs)")
       (auto split: list.splits)
qed simp

subsection \<open>Decimal numbers (strconv, fmt)\<close>

fun itoa_nat :: "nat \<Rightarrow> string" where
  "itoa_nat n = (if n < 10 then [char_of (48 + n)] else itoa_nat (n div 10) @ [char_of (48 + n mod 10)])"

declare itoa_nat.simps [simp del]

definition itoa :: "int \<Rightarrow> string" where
  "itoa z = (if z < 0 then CHR ''-'' # itoa_nat (nat (- z)) else itoa_nat (nat z))"

text \<open>\<open>%02d\<close> and wider: left-padded with zeros.\<close>

definition pad_nat :: "nat \<Rightarrow> nat \<Rightarrow> string" where
  "pad_nat w n = replicate (w - length (itoa_nat n)) (CHR ''0'') @ itoa_nat n"

definition is_digit :: "char \<Rightarrow> bool" where
  "is_digit c \<longleftrightarrow> 48 \<le> (of_char c :: nat) \<and> (of_char c :: nat) \<le> 57"

definition atoi_nat :: "string \<Rightarrow> nat" where
  "atoi_nat s = foldl (\<lambda>n c. 10 * n + (of_char c - 48)) 0 s"

lemma atoi_itoa_nat [simp]: "atoi_nat (itoa_nat n) = n"
proof (induction n rule: itoa_nat.induct)
  case (1 n)
  show ?case
  proof (cases "n < 10")
    case True
    then show ?thesis by (subst itoa_nat.simps) (simp add: atoi_nat_def)
  next
    case False
    with 1 have "atoi_nat (itoa_nat (n div 10)) = n div 10" by simp
    with False show ?thesis
      by (subst itoa_nat.simps) (simp add: atoi_nat_def)
  qed
qed

lemma itoa_nat_inj: "itoa_nat m = itoa_nat n \<Longrightarrow> m = n"
  by (metis atoi_itoa_nat)

lemma itoa_nat_digits: "\<forall>c \<in> set (itoa_nat n). is_digit c"
proof (induction n rule: itoa_nat.induct)
  case (1 n)
  then show ?case
    by (cases "n < 10"; subst itoa_nat.simps) (auto simp: is_digit_def)
qed

lemma itoa_nat_ne [simp]: "itoa_nat n \<noteq> []"
  by (subst itoa_nat.simps) simp

end
