(* ===== verification/Crypto.thy ===== *)
theory Crypto
  imports GoLib
begin

text \<open>
  \<open>encoding/hex\<close>, \<open>crypto/sha256\<close> and \<open>crypto/hmac\<close> as the program calls them, computed on byte strings: SHA-256
  after FIPS 180-4 and HMAC after RFC 2104. No theorem assumes anything of SHA-256; where a property
  rests on collision resistance its statement exhibits the collision.
\<close>

unbundle bit_operations_syntax

subsection \<open>encoding/hex\<close>

definition hex_digit :: "nat \<Rightarrow> char" where
  "hex_digit n = (if n < 10 then char_of (48 + n) else char_of (87 + n))"

definition hex_byte :: "char \<Rightarrow> string" where
  "hex_byte c = [hex_digit (of_char c div 16), hex_digit (of_char c mod 16)]"

definition EncodeToString :: "string \<Rightarrow> string" where
  "EncodeToString s = concat (map hex_byte s)"

definition unhex :: "char \<Rightarrow> nat option" where
  "unhex c = (let n = (of_char c :: nat) in
     if 48 \<le> n \<and> n \<le> 57 then Some (n - 48)
     else if 97 \<le> n \<and> n \<le> 102 then Some (n - 87)
     else if 65 \<le> n \<and> n \<le> 70 then Some (n - 55) else None)"

fun DecodeString :: "string \<Rightarrow> string result" where
  "DecodeString [] = Inr []"
| "DecodeString [c] = Inl (ErrorNew ''encoding/hex: odd length hex string'')"
| "DecodeString (a # b # r) =
     (case (unhex a, unhex b) of
        (Some x, Some y) \<Rightarrow>
          (case DecodeString r of Inl e \<Rightarrow> Inl e | Inr s \<Rightarrow> Inr (char_of (16 * x + y) # s))
      | _ \<Rightarrow> Inl (ErrorNew ''encoding/hex: invalid byte''))"

text \<open>The bytes a hexadecimal literal stands for; used to write the program's UTF-8 texts.\<close>

definition nibble :: "char \<Rightarrow> bool \<times> bool \<times> bool \<times> bool" where
  "nibble c = (if digit6 c then (\<not> digit0 c, digit0 c \<noteq> digit1 c, (digit0 c \<and> digit1 c) \<noteq> digit2 c, True)
     else (digit0 c, digit1 c, digit2 c, digit3 c))"

fun hx :: "string \<Rightarrow> string" where
  "hx (a # b # r) = (case nibble a of (a0, a1, a2, a3) \<Rightarrow> case nibble b of (b0, b1, b2, b3) \<Rightarrow> Char b0 b1 b2 b3 a0 a1 a2 a3 # hx r)"
| "hx _ = []"

declare hx.simps [simp del]

lemma hx_digits: "hx ''00123456789abcdef0'' = [CHR 0x00, CHR 0x12, CHR 0x34, CHR 0x56, CHR 0x78, CHR 0x9A, CHR 0xBC, CHR 0xDE, CHR 0xF0]"
  by code_simp

lemma unhex_hex_digit: "n < 16 \<Longrightarrow> unhex (hex_digit n) = Some n"
  by (simp add: unhex_def hex_digit_def Let_def)

lemma Decode_Encode [simp]: "DecodeString (EncodeToString s) = Inr s"
proof (induction s)
  case (Cons c s)
  have lt: "(of_char c :: nat) div 16 < 16" "(of_char c :: nat) mod 16 < 16"
    using of_char_less [of c] by (simp_all add: less_mult_imp_div_less)
  have "(16 * (of_char c div 16) + of_char c mod 16 :: nat) = of_char c" by simp
  with Cons lt show ?case by (simp add: EncodeToString_def hex_byte_def unhex_hex_digit)
qed (simp add: EncodeToString_def)

lemma EncodeToString_inj: "EncodeToString s = EncodeToString t \<Longrightarrow> s = t"
  by (metis Decode_Encode sum.inject(2))

lemma length_EncodeToString [simp]: "length (EncodeToString s) = 2 * length s"
  by (induction s) (simp_all add: EncodeToString_def hex_byte_def)

lemma EncodeToString_empty [simp]: "EncodeToString s = [] \<longleftrightarrow> s = []"
  by (cases s) (simp_all add: EncodeToString_def hex_byte_def)

subsection \<open>crypto/sha256\<close>

definition rotr :: "nat \<Rightarrow> uint32 \<Rightarrow> uint32" where
  "rotr n x = drop_bit n x OR push_bit (32 - n) x"

definition sha_init :: "uint32 list" where
  "sha_init = [0x6a09e667, 0xbb67ae85, 0x3c6ef372, 0xa54ff53a, 0x510e527f, 0x9b05688c, 0x1f83d9ab, 0x5be0cd19]"

definition be32 :: "string \<Rightarrow> uint32" where
  "be32 bs = foldl (\<lambda>w c. push_bit 8 w OR of_char c) 0 bs"

definition be_bytes :: "nat \<Rightarrow> nat \<Rightarrow> string" where
  "be_bytes k n = rev (map (\<lambda>i. char_of (n div 256 ^ i)) [0..<k])"

definition sha_pad :: "string \<Rightarrow> string" where
  "sha_pad m = m @ CHR 0x80 # replicate ((119 - length m mod 64) mod 64) (CHR 0x00)
                 @ be_bytes 8 (8 * length m)"

fun chunks :: "nat \<Rightarrow> 'a list \<Rightarrow> 'a list list" where
  "chunks n [] = []"
| "chunks n (x # xs) = (if n = 0 then [] else take n (x # xs) # chunks n (drop n (x # xs)))"

text \<open>The round constants, big-endian words written in hexadecimal.\<close>

definition sha_k :: "uint32 list" where
  "sha_k = map be32 (chunks 4 (hx (
      ''428a2f9871374491b5c0fbcfe9b5dba53956c25b59f111f1923f82a4ab1c5ed5'' @
      ''d807aa9812835b01243185be550c7dc372be5d7480deb1fe9bdc06a7c19bf174'' @
      ''e49b69c1efbe47860fc19dc6240ca1cc2de92c6f4a7484aa5cb0a9dc76f988da'' @
      ''983e5152a831c66db00327c8bf597fc7c6e00bf3d5a7914706ca635114292967'' @
      ''27b70a852e1b21384d2c6dfc53380d13650a7354766a0abb81c2c92e92722c85'' @
      ''a2bfe8a1a81a664bc24b8b70c76c51a3d192e819d6990624f40e3585106aa070'' @
      ''19a4c1161e376c082748774c34b0bcb5391c0cb34ed8aa4a5b9cca4f682e6ff3'' @
      ''748f82ee78a5636f84c878148cc7020890befffaa4506cebbef9a3f7c67178f2'')))"

text \<open>The message schedule, latest word first.\<close>

fun sha_expand :: "nat \<Rightarrow> uint32 list \<Rightarrow> uint32 list" where
  "sha_expand 0 ws = ws"
| "sha_expand (Suc k) ws =
     (let s0 = rotr 7 (ws ! 14) XOR rotr 18 (ws ! 14) XOR drop_bit 3 (ws ! 14);
          s1 = rotr 17 (ws ! 1) XOR rotr 19 (ws ! 1) XOR drop_bit 10 (ws ! 1)
      in sha_expand k ((ws ! 15 + s0 + ws ! 6 + s1) # ws))"

definition sha_round :: "uint32 list \<Rightarrow> uint32 \<times> uint32 \<Rightarrow> uint32 list" where
  "sha_round st kw =
     (case st of
        [a, b, c, d, e, f, g, h] \<Rightarrow>
          (let s1 = rotr 6 e XOR rotr 11 e XOR rotr 25 e;
               ch = (e AND f) XOR (NOT e AND g);
               t1 = h + s1 + ch + fst kw + snd kw;
               s0 = rotr 2 a XOR rotr 13 a XOR rotr 22 a;
               maj = (a AND b) XOR (a AND c) XOR (b AND c)
           in [t1 + (s0 + maj), a, b, c, d + t1, e, f, g])
      | _ \<Rightarrow> st)"

definition sha_block :: "uint32 list \<Rightarrow> string \<Rightarrow> uint32 list" where
  "sha_block st blk =
     (let ws = rev (sha_expand 48 (rev (map be32 (chunks 4 blk))))
      in map2 (+) st (foldl sha_round st (zip sha_k ws)))"

definition sha256 :: "string \<Rightarrow> string" where
  "sha256 m = concat (map (\<lambda>w. be_bytes 4 (unat w)) (foldl sha_block sha_init (chunks 64 (sha_pad m))))"

text \<open>\<open>hex.EncodeToString(sum[:])\<close>, the form in which the program stores every digest.\<close>

definition sha256_hex :: "string \<Rightarrow> string" where
  "sha256_hex m = EncodeToString (sha256 m)"

lemma length_be_bytes [simp]: "length (be_bytes k n) = k"
  by (simp add: be_bytes_def)

lemma length_sha_round [simp]: "length (sha_round st kw) = length st"
  by (auto simp: sha_round_def Let_def split: list.splits)

lemma length_sha_rounds: "length (foldl sha_round st kws) = length st"
  by (induction kws arbitrary: st) simp_all

lemma length_sha_block [simp]: "length (sha_block st blk) = length st"
  by (simp add: sha_block_def Let_def length_sha_rounds)

lemma length_sha_blocks: "length (foldl sha_block st bs) = length st"
  by (induction bs arbitrary: st) simp_all

lemma length_sha256 [simp]: "length (sha256 m) = 32"
proof -
  have "length (concat (map (\<lambda>w. be_bytes 4 (unat w)) (ws :: uint32 list))) = 4 * length ws" for ws
    by (induction ws) simp_all
  then show ?thesis by (simp add: sha256_def length_sha_blocks sha_init_def)
qed

lemma length_sha256_hex [simp]: "length (sha256_hex m) = 64"
  by (simp add: sha256_hex_def)

lemma sha256_hex_ne [simp]: "sha256_hex m \<noteq> []"
  by (metis length_sha256_hex list.size(3) zero_neq_numeral)

text \<open>Two different messages with the same digest.\<close>

definition sha_collision :: "string \<Rightarrow> string \<Rightarrow> bool" where
  "sha_collision x y \<longleftrightarrow> x \<noteq> y \<and> sha256 x = sha256 y"

lemma sha256_hex_eq_cases: "sha256_hex x = sha256_hex y \<Longrightarrow> x = y \<or> sha_collision x y"
  by (auto simp: sha_collision_def sha256_hex_def dest: EncodeToString_inj)

subsection \<open>crypto/hmac with SHA-256\<close>

definition xor_byte :: "nat \<Rightarrow> char \<Rightarrow> char" where
  "xor_byte n c = char_of (n XOR of_char c)"

definition hmac_key :: "string \<Rightarrow> string" where
  "hmac_key key = (let k = (if 64 < length key then sha256 key else key) in k @ replicate (64 - length k) (CHR 0x00))"

definition hmac_sha256 :: "string \<Rightarrow> string \<Rightarrow> string" where
  "hmac_sha256 key m =
     sha256 (map (xor_byte 0x5c) (hmac_key key) @ sha256 (map (xor_byte 0x36) (hmac_key key) @ m))"

lemma length_hmac_sha256 [simp]: "length (hmac_sha256 key m) = 32"
  by (simp add: hmac_sha256_def)

end
