(* ===== verification/Json.thy ===== *)
theory Json
  imports GoLib "HOL-Library.Char_ord" "HOL-Library.List_Lexorder"
begin

text \<open>
  \<open>encoding/json\<close>: the values the program marshals and the bytes \<open>json.Marshal\<close> writes for them. A struct is
  an object with its fields in declaration order; a \<open>map[string]any\<close> is written with its keys in
  ascending byte order. A number is kept as the literal that is written for it. The encoding is shown to be
  injective, which is what lets a digest of the bytes stand for the value.
\<close>

datatype json =
    JNull
  | JBool bool
  | JNum string
  | JStr string
  | JArr "json list"
  | JObj "(string \<times> json) list"

type_synonym go_map = "(string \<times> json) list"

definition json_int :: "int \<Rightarrow> json" where "json_int z = JNum (itoa z)"

definition sort_keys :: "(string \<times> 'a) list \<Rightarrow> (string \<times> 'a) list" where
  "sort_keys m = sort_key fst m"

text \<open>A Go map inside a value: \<open>None\<close> is the nil map, written as \<open>null\<close>.\<close>

definition json_map :: "go_map option \<Rightarrow> json" where
  "json_map m = (case m of None \<Rightarrow> JNull | Some kvs \<Rightarrow> JObj (sort_keys kvs))"

text \<open>A slice without \<open>omitempty\<close>: the empty list is the nil slice, written as \<open>null\<close>.\<close>

definition json_slice :: "json list \<Rightarrow> json" where
  "json_slice xs = (if xs = [] then JNull else JArr xs)"

definition omit_str :: "string \<Rightarrow> string \<Rightarrow> (string \<times> json) list" where
  "omit_str k s = (if s = [] then [] else [(k, JStr s)])"

definition omit_int :: "string \<Rightarrow> int \<Rightarrow> (string \<times> json) list" where
  "omit_int k z = (if z = 0 then [] else [(k, json_int z)])"

definition omit_bool :: "string \<Rightarrow> bool \<Rightarrow> (string \<times> json) list" where
  "omit_bool k b = (if b then [(k, JBool True)] else [])"

definition omit_slice :: "string \<Rightarrow> json list \<Rightarrow> (string \<times> json) list" where
  "omit_slice k xs = (if xs = [] then [] else [(k, JArr xs)])"

subsection \<open>Strings\<close>

definition json_hex :: "nat \<Rightarrow> char" where
  "json_hex n = (if n < 10 then char_of (48 + n) else char_of (87 + n))"

text \<open>The escape of one byte below 0x80 (quotes, backslash, control characters and the three
  HTML characters); other bytes stand for themselves.\<close>

definition esc_char :: "char \<Rightarrow> string" where
  "esc_char c =
     (if c = CHR 0x22 \<or> c = CHR 0x5C then [CHR 0x5C, c]
      else if c = CHR 0x08 then [CHR 0x5C, CHR ''b'']
      else if c = CHR 0x0C then [CHR 0x5C, CHR ''f'']
      else if c = CHR 0x0A then [CHR 0x5C, CHR ''n'']
      else if c = CHR 0x0D then [CHR 0x5C, CHR ''r'']
      else if c = CHR 0x09 then [CHR 0x5C, CHR ''t'']
      else if (of_char c :: nat) < 32 \<or> c = CHR ''<'' \<or> c = CHR ''>'' \<or> c = CHR ''&''
        then [CHR 0x5C, CHR ''u'', CHR ''0'', CHR ''0'', json_hex (of_char c div 16), json_hex (of_char c mod 16)]
      else [c])"

fun json_esc :: "string \<Rightarrow> string" where
  "json_esc [] = []"
| "json_esc (c # cs) =
     (if c = CHR 0xE2 \<and> take 2 cs = [CHR 0x80, CHR 0xA8]
        then CHR 0x5C # ''u2028'' @ json_esc (drop 2 cs)
      else if c = CHR 0xE2 \<and> take 2 cs = [CHR 0x80, CHR 0xA9]
        then CHR 0x5C # ''u2029'' @ json_esc (drop 2 cs)
      else esc_char c @ json_esc cs)"

definition json_quote :: "string \<Rightarrow> string" where
  "json_quote s = CHR 0x22 # json_esc s @ [CHR 0x22]"

subsection \<open>json.Marshal\<close>

fun json_text :: "json \<Rightarrow> string"
and json_elems :: "json list \<Rightarrow> string"
and json_fields :: "(string \<times> json) list \<Rightarrow> string" where
  "json_text JNull = ''null''"
| "json_text (JBool b) = (if b then ''true'' else ''false'')"
| "json_text (JNum s) = s"
| "json_text (JStr s) = json_quote s"
| "json_text (JArr xs) = CHR ''['' # (case xs of [] \<Rightarrow> '']'' | x # ys \<Rightarrow> json_text x @ json_elems ys)"
| "json_text (JObj kvs) =
     CHR ''{'' # (case kvs of [] \<Rightarrow> ''}''
       | (k, v) # r \<Rightarrow> json_quote k @ CHR '':'' # json_text v @ json_fields r)"
| "json_elems [] = '']''"
| "json_elems (x # xs) = CHR '','' # json_text x @ json_elems xs"
| "json_fields [] = ''}''"
| "json_fields ((k, v) # r) = CHR '','' # json_quote k @ CHR '':'' # json_text v @ json_fields r"

subsection \<open>The encoding is injective\<close>

definition unhex4 :: "char \<Rightarrow> nat" where
  "unhex4 c = (if (of_char c :: nat) \<le> 57 then of_char c - 48 else of_char c - 87)"

text \<open>Reading a string body back, up to and including its closing quote.\<close>

function json_unesc :: "string \<Rightarrow> (string \<times> string) option" where
  "json_unesc s =
     (case s of [] \<Rightarrow> None
      | c # r \<Rightarrow>
        if c = CHR 0x22 then Some ([], r)
        else if c = CHR 0x5C then
          (case r of [] \<Rightarrow> None
           | e # r' \<Rightarrow>
             if e = CHR ''u'' then
               (let w = (if take 4 r' = ''2028'' then [CHR 0xE2, CHR 0x80, CHR 0xA8]
                         else if take 4 r' = ''2029'' then [CHR 0xE2, CHR 0x80, CHR 0xA9]
                         else [char_of (16 * unhex4 (r' ! 2) + unhex4 (r' ! 3))])
                in map_option (\<lambda>(x, y). (w @ x, y)) (json_unesc (drop 4 r')))
             else
               (let w = (if e = CHR ''b'' then CHR 0x08 else if e = CHR ''f'' then CHR 0x0C
                         else if e = CHR ''n'' then CHR 0x0A else if e = CHR ''r'' then CHR 0x0D
                         else if e = CHR ''t'' then CHR 0x09 else e)
                in map_option (\<lambda>(x, y). (w # x, y)) (json_unesc r')))
        else map_option (\<lambda>(x, y). (c # x, y)) (json_unesc r))"
  by pat_completeness auto
termination by (relation "measure length") auto

declare json_unesc.simps [simp del]

lemma json_unesc_quote: "json_unesc (CHR 0x22 # r) = Some ([], r)"
  by (subst json_unesc.simps) simp

lemma json_unesc_plain:
  "c \<noteq> CHR 0x22 \<Longrightarrow> c \<noteq> CHR 0x5C \<Longrightarrow> json_unesc (c # r) = map_option (\<lambda>(x, y). (c # x, y)) (json_unesc r)"
  by (subst json_unesc.simps) simp

lemma unhex4_json_hex: "n < 16 \<Longrightarrow> unhex4 (json_hex n) = n"
  by (simp add: unhex4_def json_hex_def)

lemma json_unesc_short:
  "e \<noteq> CHR ''u'' \<Longrightarrow> json_unesc (CHR 0x5C # e # r) =
     map_option (\<lambda>(x, y). ((if e = CHR ''b'' then CHR 0x08 else if e = CHR ''f'' then CHR 0x0C
                         else if e = CHR ''n'' then CHR 0x0A else if e = CHR ''r'' then CHR 0x0D
                         else if e = CHR ''t'' then CHR 0x09 else e) # x, y)) (json_unesc r)"
  by (subst json_unesc.simps) (simp add: Let_def)

lemma json_unesc_u00:
  "json_unesc (CHR 0x5C # CHR ''u'' # CHR ''0'' # CHR ''0'' # a # b # r) =
     map_option (\<lambda>(x, y). (char_of (16 * unhex4 a + unhex4 b) # x, y)) (json_unesc r)"
  by (subst json_unesc.simps) (simp add: Let_def)

lemma unesc_esc_char:
  "json_unesc (esc_char c @ r) = map_option (\<lambda>(x, y). (c # x, y)) (json_unesc r)"
proof -
  have lt: "(of_char c :: nat) div 16 < 16" "(of_char c :: nat) mod 16 < 16"
    using of_char_less [of c] by (simp_all add: less_mult_imp_div_less)
  have "16 * (of_char c div 16) + of_char c mod 16 = (of_char c :: nat)" by simp
  then have u: "json_unesc (CHR 0x5C # CHR ''u'' # CHR ''0'' # CHR ''0'' # json_hex (of_char c div 16)
      # json_hex (of_char c mod 16) # r) = map_option (\<lambda>(x, y). (c # x, y)) (json_unesc r)"
    using lt by (simp add: json_unesc_u00 unhex4_json_hex)
  show ?thesis
    unfolding esc_char_def by (simp add: json_unesc_short json_unesc_plain u)
qed

lemma json_unesc_esc: "json_unesc (json_esc s @ CHR 0x22 # r) = Some (s, r)"
proof (induction s rule: json_esc.induct)
  case 1
  then show ?case by (simp add: json_unesc_quote)
next
  case (2 c cs)
  consider (ls) "c = CHR 0xE2 \<and> take 2 cs = [CHR 0x80, CHR 0xA8]"
    | (ps) "\<not> (c = CHR 0xE2 \<and> take 2 cs = [CHR 0x80, CHR 0xA8])" "c = CHR 0xE2 \<and> take 2 cs = [CHR 0x80, CHR 0xA9]"
    | (plain) "\<not> (c = CHR 0xE2 \<and> take 2 cs = [CHR 0x80, CHR 0xA8])" "\<not> (c = CHR 0xE2 \<and> take 2 cs = [CHR 0x80, CHR 0xA9])"
    by blast
  then show ?case
  proof cases
    case ls
    have cs: "cs = [CHR 0x80, CHR 0xA8] @ drop 2 cs" using ls by (metis append_take_drop_id)
    from ls 2(1) [OF ls] show ?thesis
      by (subst json_unesc.simps) (simp, metis cs append_Cons append_Nil)
  next
    case ps
    have cs: "cs = [CHR 0x80, CHR 0xA9] @ drop 2 cs" using ps by (metis append_take_drop_id)
    from ps 2(2) [OF ps] show ?thesis
      by (subst json_unesc.simps) (simp, metis cs append_Cons append_Nil)
  next
    case plain
    with 2(3) [OF plain] show ?thesis by (auto simp: unesc_esc_char)
  qed
qed

lemma json_quote_cancel:
  assumes "json_quote s @ x = json_quote t @ y"
  shows "s = t \<and> x = y"
proof -
  from assms have "json_unesc (json_esc s @ CHR 0x22 # x) = json_unesc (json_esc t @ CHR 0x22 # y)"
    by (simp add: json_quote_def)
  then show ?thesis by (simp add: json_unesc_esc)
qed

text \<open>Number literals: not empty, and made of the characters a literal may contain.\<close>

definition num_char :: "char \<Rightarrow> bool" where
  "num_char c \<longleftrightarrow> is_digit c \<or> c \<in> set ''+-.eE''"

definition num_lit :: "string \<Rightarrow> bool" where
  "num_lit s \<longleftrightarrow> s \<noteq> [] \<and> list_all num_char s \<and> hd s \<noteq> CHR ''e''"

fun wf_json :: "json \<Rightarrow> bool" where
  "wf_json (JNum s) = num_lit s"
| "wf_json (JArr xs) = (\<forall>x \<in> set xs. wf_json x)"
| "wf_json (JObj kvs) = (\<forall>kv \<in> set kvs. wf_json (snd kv))"
| "wf_json j = True"

definition delim :: "string \<Rightarrow> bool" where
  "delim x \<longleftrightarrow> x = [] \<or> \<not> num_char (hd x)"

lemma num_span:
  assumes "s @ x = t @ y" and "list_all num_char s" "list_all num_char t" "delim x" "delim y"
  shows "s = t \<and> x = y"
proof -
  have "takeWhile num_char (s @ x) = s" if "list_all num_char s" "delim x" for s x
    using that by (cases x) (auto simp: delim_def list_all_iff takeWhile_append)
  with assms have "s = t" by metis
  with assms(1) show ?thesis by simp
qed

lemma delim_elems [simp]: "delim (json_elems xs @ y)"
  by (cases xs) (auto simp: delim_def num_char_def is_digit_def)

lemma delim_fields [simp]: "delim (json_fields xs @ y)"
  by (cases xs) (auto simp: delim_def num_char_def is_digit_def)

text \<open>The first character tells the kinds of values apart.\<close>

datatype json_kind = KNull | KTrue | KFalse | KNum | KStr | KArr | KObj

fun kind_of :: "json \<Rightarrow> json_kind" where
  "kind_of JNull = KNull"
| "kind_of (JBool b) = (if b then KTrue else KFalse)"
| "kind_of (JNum _) = KNum"
| "kind_of (JStr _) = KStr"
| "kind_of (JArr _) = KArr"
| "kind_of (JObj _) = KObj"

definition kind_char :: "char \<Rightarrow> json_kind" where
  "kind_char c = (if c = CHR ''n'' then KNull else if c = CHR ''t'' then KTrue
     else if c = CHR ''f'' then KFalse else if c = CHR 0x22 then KStr
     else if c = CHR ''['' then KArr else if c = CHR ''{'' then KObj else KNum)"

lemma kind_char_num: "num_char c \<Longrightarrow> kind_char c = KNum"
  by (auto simp: kind_char_def num_char_def is_digit_def)

lemma json_text_ne: "wf_json j \<Longrightarrow> json_text j \<noteq> []"
  by (cases j) (auto simp: json_quote_def num_lit_def)

lemma kind_char_text: "wf_json j \<Longrightarrow> kind_char (hd (json_text j)) = kind_of j"
proof (cases j)
  case (JNum s)
  assume "wf_json j"
  with JNum have "s \<noteq> []" "num_char (hd s)" by (auto simp: num_lit_def list_all_iff)
  with JNum show ?thesis by (simp add: kind_char_num)
qed (auto simp: kind_char_def json_quote_def)

lemma same_kind:
  assumes "wf_json a" "wf_json b" "json_text a @ x = json_text b @ y"
  shows "kind_of a = kind_of b"
  using assms json_text_ne [of a] json_text_ne [of b] kind_char_text [of a] kind_char_text [of b]
  by (metis hd_append2)

lemma json_text_no_bracket: "wf_json j \<Longrightarrow> json_text j @ z \<noteq> CHR '']'' # w"
proof
  assume wf: "wf_json j" and e: "json_text j @ z = CHR '']'' # w"
  then have h: "hd (json_text j) = CHR '']''" using json_text_ne [OF wf] by (metis hd_append2 list.sel(1))
  with kind_char_text [OF wf] have "kind_of j = KNum" by (simp add: kind_char_def)
  with wf h show False
    by (cases j) (auto simp: num_lit_def num_char_def is_digit_def list_all_iff neq_Nil_conv split: if_splits)
qed

lemma json_prefix_free:
  "wf_json a \<Longrightarrow> wf_json b \<Longrightarrow> delim x \<Longrightarrow> delim y \<Longrightarrow> json_text a @ x = json_text b @ y \<Longrightarrow> a = b \<and> x = y"
  "\<forall>j \<in> set as. wf_json j \<Longrightarrow> \<forall>j \<in> set bs. wf_json j \<Longrightarrow> json_elems as @ x = json_elems bs @ y \<Longrightarrow> as = bs \<and> x = y"
  "\<forall>kv \<in> set kvs. wf_json (snd kv) \<Longrightarrow> \<forall>kv \<in> set kws. wf_json (snd kv) \<Longrightarrow>
     json_fields kvs @ x = json_fields kws @ y \<Longrightarrow> kvs = kws \<and> x = y"
proof (induction a and as and kvs arbitrary: b x y and bs x y and kws x y
    rule: json_text_json_elems_json_fields.induct)
  case 1
  with same_kind [OF 1(1,2,5)] show ?case by (cases b) (auto split: if_splits)
next
  case (2 t)
  with same_kind [OF 2(1,2,5)] show ?case by (cases b) (auto split: if_splits)
next
  case (3 s)
  with same_kind [OF 3(1,2,5)] show ?case
    by (cases b) (auto split: if_splits simp: num_lit_def dest: num_span)
next
  case (4 s)
  with same_kind [OF 4(1,2,5)] show ?case
    by (cases b) (auto split: if_splits dest: json_quote_cancel)
next
  case (5 xs)
  from same_kind [OF 5(3,4,7)] obtain ys where b: "b = JArr ys" by (cases b) (auto split: if_splits)
  show ?case
  proof (cases xs)
    case Nil
    show ?thesis
    proof (cases ys)
      case (Cons y1 ys')
      from 5(7) b Nil Cons have "json_text y1 @ json_elems ys' @ y = CHR '']'' # x" by simp
      with json_text_no_bracket [of y1] 5(4) b Cons show ?thesis by simp
    qed (use 5(7) b Nil in simp)
  next
    case x1: (Cons x1 xs')
    show ?thesis
    proof (cases ys)
      case Nil
      from 5(7) b x1 Nil have "json_text x1 @ json_elems xs' @ x = CHR '']'' # y" by simp
      with json_text_no_bracket [of x1] 5(3) x1 show ?thesis by simp
    next
      case (Cons y1 ys')
      from 5(7) b x1 Cons have "json_text x1 @ json_elems xs' @ x = json_text y1 @ json_elems ys' @ y" by simp
      from 5(1) [OF x1 _ _ delim_elems delim_elems this] 5(3,4) b x1 Cons
      have "x1 = y1" "json_elems xs' @ x = json_elems ys' @ y" by auto
      with 5(2) [OF x1] 5(3,4) b x1 Cons show ?thesis by auto
    qed
  qed
next
  case (6 kvs)
  from same_kind [OF 6(3,4,7)] obtain kws where b: "b = JObj kws" by (cases b) (auto split: if_splits)
  show ?case
  proof (cases kvs)
    case Nil
    with 6(7) b show ?thesis by (cases kws) (auto simp: json_quote_def)
  next
    case kv: (Cons kv r)
    obtain k v where kv': "kv = (k, v)" by (cases kv)
    show ?thesis
    proof (cases kws)
      case Nil
      with 6(7) b kv kv' show ?thesis by (auto simp: json_quote_def)
    next
      case (Cons kw r')
      obtain k' v' where kw: "kw = (k', v')" by (cases kw)
      from 6(7) b kv kv' Cons kw
      have "json_quote k @ CHR '':'' # json_text v @ json_fields r @ x
          = json_quote k' @ CHR '':'' # json_text v' @ json_fields r' @ y" by simp
      from json_quote_cancel [OF this]
      have k: "k = k'" and e: "json_text v @ json_fields r @ x = json_text v' @ json_fields r' @ y" by auto
      from 6(1) [OF kv kv' [symmetric] _ _ delim_fields delim_fields e] 6(3,4) b kv kv' Cons kw
      have "v = v'" "json_fields r @ x = json_fields r' @ y" by auto
      with 6(2) [OF kv kv' [symmetric]] 6(3,4) b k kv kv' Cons kw show ?thesis by auto
    qed
  qed
next
  case 7
  then show ?case by (cases bs) auto
next
  case (8 x1 xs)
  show ?case
  proof (cases bs)
    case Nil
    with 8(5) show ?thesis by simp
  next
    case (Cons y1 ys)
    from 8(5) Cons have "json_text x1 @ json_elems xs @ x = json_text y1 @ json_elems ys @ y" by simp
    from 8(1) [OF _ _ delim_elems delim_elems this] 8(3,4) Cons
    have "x1 = y1" "json_elems xs @ x = json_elems ys @ y" by auto
    with 8(2) [of ys x y] 8(3,4) Cons show ?thesis by auto
  qed
next
  case 9
  then show ?case by (cases kws) auto
next
  case (10 k v r)
  show ?case
  proof (cases kws)
    case Nil
    with 10(5) show ?thesis by simp
  next
    case (Cons kw r')
    obtain k' v' where kw: "kw = (k', v')" by (cases kw)
    from 10(5) Cons kw
    have "json_quote k @ CHR '':'' # json_text v @ json_fields r @ x
        = json_quote k' @ CHR '':'' # json_text v' @ json_fields r' @ y" by simp
    from json_quote_cancel [OF this]
    have k: "k = k'" and e: "json_text v @ json_fields r @ x = json_text v' @ json_fields r' @ y" by auto
    from 10(1) [OF _ _ delim_fields delim_fields e] 10(3,4) Cons kw
    have "v = v'" "json_fields r @ x = json_fields r' @ y" by auto
    with 10(2) [of r' x y] 10(3,4) Cons k kw show ?thesis by auto
  qed
qed

lemma json_text_inj: "wf_json a \<Longrightarrow> wf_json b \<Longrightarrow> json_text a = json_text b \<Longrightarrow> a = b"
  using json_prefix_free(1) [of a b "[]" "[]"] by (simp add: delim_def)

end
