(* ===== verification/GoTime.thy ===== *)
theory GoTime
  imports Json
begin

text \<open>
  \<open>time.Time.MarshalJSON\<close>: RFC 3339 with nanoseconds in UTC. A time is the number of nanoseconds since
  0001-01-01T00:00:00Z (years 1 to 9999).
\<close>

definition day_ns :: int where "day_ns = 86400 * second"

text \<open>Year, month and day of a day number counted from 0001-01-01 in the proleptic Gregorian calendar
  (the day is shifted to a March-based year, in 400-year cycles of 146097 days).\<close>

definition civil_from_days :: "int \<Rightarrow> int \<times> int \<times> int" where
  "civil_from_days days =
     (let z = days + 306; era = z div 146097; doe = z mod 146097;
          yoe = (doe - doe div 1460 + doe div 36524 - doe div 146096) div 365;
          doy = doe - (365 * yoe + yoe div 4 - yoe div 100);
          mp = (5 * doy + 2) div 153;
          d = doy - (153 * mp + 2) div 5 + 1;
          m = (if mp < 10 then mp + 3 else mp - 9)
      in (yoe + era * 400 + (if m \<le> 2 then 1 else 0), m, d))"

definition pad_int :: "nat \<Rightarrow> int \<Rightarrow> string" where
  "pad_int w z = pad_nat w (nat z)"

text \<open>The fraction: nine digits without their trailing zeros, nothing for a whole second.\<close>

definition frac_text :: "int \<Rightarrow> string" where
  "frac_text ns = (if ns = 0 then [] else CHR ''.'' # rev (dropWhile (\<lambda>c. c = CHR ''0'') (rev (pad_int 9 ns))))"

definition rfc3339nano :: "timestamp \<Rightarrow> string" where
  "rfc3339nano t =
     (let rest = t mod day_ns; secs = rest div second in
      case civil_from_days (t div day_ns) of (y, m, d) \<Rightarrow>
        pad_int 4 y @ ''-'' @ pad_int 2 m @ ''-'' @ pad_int 2 d @ ''T''
        @ pad_int 2 (secs div 3600) @ '':'' @ pad_int 2 (secs div 60 mod 60) @ '':'' @ pad_int 2 (secs mod 60)
        @ frac_text (rest mod second) @ ''Z'')"

definition json_time :: "timestamp \<Rightarrow> json" where
  "json_time t = JStr (rfc3339nano t)"

end
