(* ===== verification/Contracts.thy ===== *)
theory Contracts
  imports Crypto GoTime
begin

text \<open>
  \<open>contracts/action.go\<close> and \<open>contracts/envelope.go\<close>: action proposals, guard decisions, target snapshots and the
  signed action envelope that crosses the boundary to the privileged executor. Digests are SHA-256 over
  the JSON encoding, signatures are HMAC-SHA-256. The theorems: a digest determines the proposal and
  the snapshot (up to an exhibited SHA-256 collision), and what \<open>Sign\<close> writes \<open>VerifySignature\<close> accepts.
\<close>

subsection \<open>Enumerations\<close>

text \<open>\<open>Effect\<close> and \<open>RiskLevel\<close> are string types whose values also come from YAML and JSON documents, so
  other strings than the named constants occur.\<close>

type_synonym Effect = string
type_synonym RiskLevel = string

definition Read :: Effect where "Read = ''read''"
definition Write :: Effect where "Write = ''write''"

definition L0 :: RiskLevel where "L0 = ''L0''"
definition L1 :: RiskLevel where "L1 = ''L1''"
definition L2 :: RiskLevel where "L2 = ''L2''"
definition L3 :: RiskLevel where "L3 = ''L3''"

lemmas level_defs = L0_def L1_def L2_def L3_def
lemmas effect_defs = Read_def Write_def

lemma effect_distinct [simp]: "Read \<noteq> Write" "Write \<noteq> Read"
  by (simp_all add: effect_defs)

lemma level_distinct [simp]:
  "L0 \<noteq> L1" "L0 \<noteq> L2" "L0 \<noteq> L3" "L1 \<noteq> L0" "L1 \<noteq> L2" "L1 \<noteq> L3"
  "L2 \<noteq> L0" "L2 \<noteq> L1" "L2 \<noteq> L3" "L3 \<noteq> L0" "L3 \<noteq> L1" "L3 \<noteq> L2"
  by (simp_all add: level_defs)

text \<open>\<open>Outcome\<close> is only ever set by the guards; \<open>NoOutcome\<close> is the zero value of a decision that was not
  reached.\<close>

datatype Outcome = NoOutcome | Allow | Deny | RequireApproval

subsection \<open>Structs\<close>

record TargetRef =
  tr_Type :: string
  tr_ID :: string
  tr_Criticality :: string

record TargetAuthorization =
  ta_Target :: TargetRef
  ta_RelatedTo :: TargetRef
  ta_Relation :: string
  ta_EvidenceRefs :: "string list"

record IntentContext =
  ic_OriginalRequest :: string
  ic_Objective :: string
  ic_ObjectiveTargets :: "TargetRef list"
  ic_PlanStep :: string
  ic_PlanTargets :: "TargetRef list"
  ic_AuthorizedRelations :: "TargetAuthorization list"

record ActionProposal =
  ap_ProposalID :: string
  ap_TaskID :: string
  ap_SessionID :: string
  ap_Tool :: string
  ap_Effect :: Effect
  ap_Arguments :: "go_map option"
  ap_Target :: TargetRef
  ap_BatchSize :: int
  ap_Reversible :: bool
  ap_RollbackStrategy :: string
  ap_LabMode :: bool
  ap_SystemState :: string
  ap_Intent :: IntentContext

record RiskResult =
  rr_Level :: RiskLevel
  rr_Score :: int
  rr_Factors :: "string list"
  rr_Reason :: string

record GuardDecision =
  gd_DecisionID :: string
  gd_Outcome :: Outcome
  gd_ReasonCodes :: "string list"
  gd_Reason :: string
  gd_MatchedRuleIDs :: "string list"
  gd_PolicyVersion :: string
  gd_Risk :: RiskResult

definition zero_risk :: RiskResult where
  "zero_risk = \<lparr>rr_Level = [], rr_Score = 0, rr_Factors = [], rr_Reason = []\<rparr>"

record TargetSnapshot =
  ts_Type :: string
  ts_ID :: string
  ts_CanonicalPath :: string
  ts_ExpectAbsent :: bool
  ts_ParentPath :: string
  ts_ParentInode :: uint64
  ts_Size :: int
  ts_MTimeUnixNano :: int
  ts_Mode :: uint32
  ts_Inode :: uint64
  ts_PID :: int
  ts_StartTicks :: uint64
  ts_CommandDigest :: string
  ts_Executable :: string
  ts_UID :: int
  ts_ServiceName :: string
  ts_ActiveState :: string
  ts_MainPID :: int

definition zero_snapshot :: TargetSnapshot where
  "zero_snapshot = \<lparr>ts_Type = [], ts_ID = [], ts_CanonicalPath = [], ts_ExpectAbsent = False,
     ts_ParentPath = [], ts_ParentInode = 0, ts_Size = 0, ts_MTimeUnixNano = 0, ts_Mode = 0, ts_Inode = 0,
     ts_PID = 0, ts_StartTicks = 0, ts_CommandDigest = [], ts_Executable = [], ts_UID = 0,
     ts_ServiceName = [], ts_ActiveState = [], ts_MainPID = 0\<rparr>"

record ActionEnvelope =
  ae_SchemaVersion :: int
  ae_TraceID :: string
  ae_TaskID :: string
  ae_SessionID :: string
  ae_Proposal :: ActionProposal
  ae_ProposalDigest :: string
  ae_TargetSnapshot :: TargetSnapshot
  ae_Risk :: RiskResult
  ae_IntentDigest :: string
  ae_PolicyVersion :: string
  ae_ExpiresAt :: timestamp
  ae_Nonce :: string
  ae_ApprovalID :: string
  ae_Signature :: string

subsection \<open>JSON encodings\<close>

definition json_target :: "TargetRef \<Rightarrow> json" where
  "json_target t = JObj ([(''type'', JStr (tr_Type t)), (''id'', JStr (tr_ID t))]
     @ omit_str ''criticality'' (tr_Criticality t))"

definition json_authorization :: "TargetAuthorization \<Rightarrow> json" where
  "json_authorization a = JObj [(''target'', json_target (ta_Target a)), (''related_to'', json_target (ta_RelatedTo a)),
     (''relation'', JStr (ta_Relation a)), (''evidence_refs'', json_slice (map JStr (ta_EvidenceRefs a)))]"

definition json_intent :: "IntentContext \<Rightarrow> json" where
  "json_intent i = JObj ([(''original_request'', JStr (ic_OriginalRequest i)), (''objective'', JStr (ic_Objective i)),
     (''objective_targets'', json_slice (map json_target (ic_ObjectiveTargets i))),
     (''plan_step'', JStr (ic_PlanStep i)),
     (''plan_targets'', json_slice (map json_target (ic_PlanTargets i)))]
     @ omit_slice ''authorized_relations'' (map json_authorization (ic_AuthorizedRelations i)))"

definition json_proposal :: "ActionProposal \<Rightarrow> json" where
  "json_proposal p = JObj (
     [(''proposal_id'', JStr (ap_ProposalID p)), (''task_id'', JStr (ap_TaskID p)),
      (''session_id'', JStr (ap_SessionID p)), (''tool'', JStr (ap_Tool p)), (''effect'', JStr (ap_Effect p)),
      (''arguments'', json_map (ap_Arguments p)), (''target'', json_target (ap_Target p)),
      (''batch_size'', json_int (ap_BatchSize p)), (''reversible'', JBool (ap_Reversible p))]
     @ omit_str ''rollback_strategy'' (ap_RollbackStrategy p)
     @ [(''lab_mode'', JBool (ap_LabMode p))]
     @ omit_str ''system_state'' (ap_SystemState p)
     @ [(''intent'', json_intent (ap_Intent p))])"

definition json_risk :: "RiskResult \<Rightarrow> json" where
  "json_risk r = JObj [(''risk_level'', JStr (rr_Level r)), (''risk_score'', json_int (rr_Score r)),
     (''risk_factors'', json_slice (map JStr (rr_Factors r))), (''risk_reason'', JStr (rr_Reason r))]"

definition snapshot_fields :: "TargetSnapshot \<Rightarrow> (string \<times> json) list" where
  "snapshot_fields s =
     [(''type'', JStr (ts_Type s)), (''id'', JStr (ts_ID s))]
     @ omit_str ''canonical_path'' (ts_CanonicalPath s) @ omit_bool ''expect_absent'' (ts_ExpectAbsent s)
     @ omit_str ''parent_path'' (ts_ParentPath s) @ omit_int ''parent_inode'' (uint (ts_ParentInode s))
     @ omit_int ''size'' (ts_Size s) @ omit_int ''mtime_unix_nano'' (ts_MTimeUnixNano s)
     @ omit_int ''mode'' (uint (ts_Mode s)) @ omit_int ''inode'' (uint (ts_Inode s))
     @ omit_int ''pid'' (ts_PID s) @ omit_int ''start_ticks'' (uint (ts_StartTicks s))
     @ omit_str ''command_digest'' (ts_CommandDigest s) @ omit_str ''executable'' (ts_Executable s)
     @ omit_int ''uid'' (ts_UID s) @ omit_str ''service_name'' (ts_ServiceName s)
     @ omit_str ''active_state'' (ts_ActiveState s) @ omit_int ''main_pid'' (ts_MainPID s)"

definition json_snapshot :: "TargetSnapshot \<Rightarrow> json" where
  "json_snapshot s = JObj (snapshot_fields s)"

definition json_envelope :: "ActionEnvelope \<Rightarrow> json" where
  "json_envelope e = JObj (
     [(''schema_version'', json_int (ae_SchemaVersion e)), (''trace_id'', JStr (ae_TraceID e)),
      (''task_id'', JStr (ae_TaskID e)), (''session_id'', JStr (ae_SessionID e)),
      (''proposal'', json_proposal (ae_Proposal e)), (''proposal_digest'', JStr (ae_ProposalDigest e)),
      (''target_snapshot'', json_snapshot (ae_TargetSnapshot e)), (''risk'', json_risk (ae_Risk e)),
      (''intent_digest'', JStr (ae_IntentDigest e)), (''policy_version'', JStr (ae_PolicyVersion e)),
      (''expires_at'', json_time (ae_ExpiresAt e)), (''nonce'', JStr (ae_Nonce e))]
     @ omit_str ''approval_id'' (ae_ApprovalID e)
     @ [(''signature'', JStr (ae_Signature e))])"

subsection \<open>Operations\<close>

definition ActionProposal_Digest :: "ActionProposal \<Rightarrow> string result" where
  "ActionProposal_Digest p =
     (if ap_Tool p = [] then Inl (ErrorNew ''tool is required'')
      else Inr (sha256_hex (json_text (json_proposal p))))"

definition CanonicalTarget :: "TargetRef \<Rightarrow> string" where
  "CanonicalTarget t = ToLower (TrimSpace (tr_Type t)) @ '':'' @ ToLower (TrimSpace (tr_ID t))"

definition TargetSnapshot_Digest :: "TargetSnapshot \<Rightarrow> string result" where
  "TargetSnapshot_Digest s = Inr (sha256_hex (json_text (json_snapshot s)))"

definition SigningBytes :: "ActionEnvelope \<Rightarrow> string" where
  "SigningBytes e = json_text (json_envelope (e\<lparr>ae_Signature := []\<rparr>))"

definition Sign :: "string \<Rightarrow> ActionEnvelope \<Rightarrow> ActionEnvelope result" where
  "Sign secret e =
     (if length secret < 32 then Inl (ErrorNew ''envelope HMAC secret must be at least 32 bytes'')
      else Inr (e\<lparr>ae_Signature := EncodeToString (hmac_sha256 secret (SigningBytes e))\<rparr>))"

definition VerifySignature :: "string \<Rightarrow> ActionEnvelope \<Rightarrow> unit result" where
  "VerifySignature secret e =
     (if length secret < 32 then Inl (ErrorNew ''envelope HMAC secret must be at least 32 bytes'')
      else case DecodeString (ae_Signature e) of
          Inl _ \<Rightarrow> Inl (ErrorNew ''invalid envelope signature encoding'')
        | Inr got \<Rightarrow>
            if got \<noteq> hmac_sha256 secret (SigningBytes e) then Inl (ErrorNew ''invalid envelope signature'')
            else Inr ())"

definition MarshalEnvelope :: "ActionEnvelope \<Rightarrow> string" where
  "MarshalEnvelope e = json_text (json_envelope e)"

subsection \<open>Digests determine what they digest\<close>

lemma itoa_inj: "itoa a = itoa b \<Longrightarrow> a = b"
proof -
  assume e: "itoa a = itoa b"
  have neg: "CHR ''-'' \<notin> set (itoa_nat n)" for n
    using itoa_nat_digits [of n] by (auto simp: is_digit_def)
  have cons: "itoa_nat n \<noteq> CHR ''-'' # s" for n s using neg [of n] by auto
  from e show ?thesis
    by (auto simp: itoa_def cons cons [symmetric] dest: itoa_nat_inj split: if_splits)
qed

lemma json_int_inj [simp]: "json_int a = json_int b \<longleftrightarrow> a = b"
  by (auto simp: json_int_def dest: itoa_inj)

lemma itoa_num_lit: "num_lit (itoa z)"
proof -
  have d: "list_all num_char (itoa_nat n)" "hd (itoa_nat n) \<noteq> CHR ''e''" for n
    using itoa_nat_digits [of n] hd_in_set [OF itoa_nat_ne, of n]
    by (auto simp: list_all_iff num_char_def is_digit_def simp del: itoa_nat_ne dest!: bspec [of _ _ "hd (itoa_nat n)"])
  show ?thesis using d by (auto simp: num_lit_def itoa_def num_char_def)
qed

lemma wf_json_int [simp]: "wf_json (json_int z)"
  by (simp add: json_int_def itoa_num_lit)

text \<open>Looking a field up in an object whose fields are omitted when empty.\<close>

lemma map_of_omit [simp]:
  "map_of (omit_str k s @ r) k' = (if k = k' \<and> s \<noteq> [] then Some (JStr s) else map_of r k')"
  "map_of (omit_int k z @ r) k' = (if k = k' \<and> z \<noteq> 0 then Some (json_int z) else map_of r k')"
  "map_of (omit_bool k b @ r) k' = (if k = k' \<and> b then Some (JBool True) else map_of r k')"
  "map_of (omit_slice k xs @ r) k' = (if k = k' \<and> xs \<noteq> [] then Some (JArr xs) else map_of r k')"
  by (simp_all add: omit_str_def omit_int_def omit_bool_def omit_slice_def)

lemma map_of_omit_last [simp]:
  "map_of (omit_str k s) k' = (if k = k' \<and> s \<noteq> [] then Some (JStr s) else None)"
  "map_of (omit_int k z) k' = (if k = k' \<and> z \<noteq> 0 then Some (json_int z) else None)"
  "map_of (omit_slice k xs) k' = (if k = k' \<and> xs \<noteq> [] then Some (JArr xs) else None)"
  by (simp_all add: omit_str_def omit_int_def omit_slice_def)

lemma optional_field_inj:
  "((if s \<noteq> [] then Some (JStr s) else None) = (if t \<noteq> [] then Some (JStr t) else None)) = (s = t)"
  "((if a \<noteq> 0 then Some (json_int a) else None) = (if b \<noteq> 0 then Some (json_int b) else None)) = (a = b)"
  "((if p then Some (JBool True) else None) = (if q then Some (JBool True) else None)) = (p = q)"
  by auto

lemma wf_omit [simp]:
  "\<forall>kv \<in> set (omit_str k s). wf_json (snd kv)"
  "\<forall>kv \<in> set (omit_int k z). wf_json (snd kv)"
  "\<forall>kv \<in> set (omit_bool k b). wf_json (snd kv)"
  "(\<forall>x \<in> set xs. wf_json x) \<Longrightarrow> \<forall>kv \<in> set (omit_slice k xs). wf_json (snd kv)"
  by (auto simp: omit_str_def omit_int_def omit_bool_def omit_slice_def)

lemma json_slice_inj: "inj f \<Longrightarrow> json_slice (map f xs) = json_slice (map f ys) \<Longrightarrow> xs = ys"
  by (auto simp: json_slice_def inj_map_eq_map split: if_splits)

lemma inj_JStr: "inj JStr" by (simp add: inj_def)

lemma inj_json_target: "inj json_target"
proof (rule injI)
  fix s t assume e: "json_target s = json_target t"
  then have "map_of ([(''type'', JStr (tr_Type s)), (''id'', JStr (tr_ID s))] @ omit_str ''criticality'' (tr_Criticality s)) k
    = map_of ([(''type'', JStr (tr_Type t)), (''id'', JStr (tr_ID t))] @ omit_str ''criticality'' (tr_Criticality t)) k" for k
    by (simp add: json_target_def)
  from this [of "''type''"] this [of "''id''"] this [of "''criticality''"]
  show "s = t" by (simp del: map_of_append split: if_splits)
qed

lemma inj_json_authorization: "inj json_authorization"
  by (rule injI) (auto simp: json_authorization_def dest!: injD [OF inj_json_target] json_slice_inj [OF inj_JStr])

lemma inj_json_intent: "inj json_intent"
proof (rule injI)
  fix s t assume e: "json_intent s = json_intent t"
  then have "ic_OriginalRequest s = ic_OriginalRequest t" "ic_Objective s = ic_Objective t" "ic_PlanStep s = ic_PlanStep t"
    "ic_ObjectiveTargets s = ic_ObjectiveTargets t" "ic_PlanTargets s = ic_PlanTargets t"
    by (auto simp: json_intent_def dest: json_slice_inj [OF inj_json_target])
  moreover from e have "ic_AuthorizedRelations s = ic_AuthorizedRelations t"
    by (auto simp: json_intent_def omit_slice_def inj_map_eq_map [OF inj_json_authorization] split: if_splits)
  ultimately show "s = t" by simp
qed

lemma inj_json_snapshot: "inj json_snapshot"
proof (rule injI)
  fix s t assume "json_snapshot s = json_snapshot t"
  then have f: "map_of (snapshot_fields s) k = map_of (snapshot_fields t) k" for k
    by (simp add: json_snapshot_def)
  note r = snapshot_fields_def optional_field_inj word_uint_eq_iff [symmetric]
  have "ts_Type s = ts_Type t" using f [of "''type''"] by (simp add: r del: map_of_append cong: if_cong)
  moreover
  have "ts_ID s = ts_ID t" using f [of "''id''"] by (simp add: r del: map_of_append cong: if_cong)
  moreover
  have "ts_CanonicalPath s = ts_CanonicalPath t" using f [of "''canonical_path''"] by (simp add: r del: map_of_append cong: if_cong)
  moreover
  have "ts_ExpectAbsent s = ts_ExpectAbsent t" using f [of "''expect_absent''"] by (simp add: r del: map_of_append cong: if_cong)
  moreover
  have "ts_ParentPath s = ts_ParentPath t" using f [of "''parent_path''"] by (simp add: r del: map_of_append cong: if_cong)
  moreover
  have "ts_ParentInode s = ts_ParentInode t" using f [of "''parent_inode''"] by (simp add: r del: map_of_append cong: if_cong)
  moreover
  have "ts_Size s = ts_Size t" using f [of "''size''"] by (simp add: r del: map_of_append cong: if_cong)
  moreover
  have "ts_MTimeUnixNano s = ts_MTimeUnixNano t" using f [of "''mtime_unix_nano''"] by (simp add: r del: map_of_append cong: if_cong)
  moreover
  have "ts_Mode s = ts_Mode t" using f [of "''mode''"] by (simp add: r del: map_of_append cong: if_cong)
  moreover
  have "ts_Inode s = ts_Inode t" using f [of "''inode''"] by (simp add: r del: map_of_append cong: if_cong)
  moreover
  have "ts_PID s = ts_PID t" using f [of "''pid''"] by (simp add: r del: map_of_append cong: if_cong)
  moreover
  have "ts_StartTicks s = ts_StartTicks t" using f [of "''start_ticks''"] by (simp add: r del: map_of_append cong: if_cong)
  moreover
  have "ts_CommandDigest s = ts_CommandDigest t" using f [of "''command_digest''"] by (simp add: r del: map_of_append cong: if_cong)
  moreover
  have "ts_Executable s = ts_Executable t" using f [of "''executable''"] by (simp add: r del: map_of_append cong: if_cong)
  moreover
  have "ts_UID s = ts_UID t" using f [of "''uid''"] by (simp add: r del: map_of_append cong: if_cong)
  moreover
  have "ts_ServiceName s = ts_ServiceName t" using f [of "''service_name''"] by (simp add: r del: map_of_append cong: if_cong)
  moreover
  have "ts_ActiveState s = ts_ActiveState t" using f [of "''active_state''"] by (simp add: r del: map_of_append cong: if_cong)
  moreover
  have "ts_MainPID s = ts_MainPID t" using f [of "''main_pid''"] by (simp add: r del: map_of_append cong: if_cong)
  ultimately show "s = t" by simp
qed

lemma wf_json_snapshot: "wf_json (json_snapshot s)"
  by (auto simp: json_snapshot_def snapshot_fields_def)
    (auto simp: omit_str_def omit_int_def omit_bool_def split: if_splits)

text \<open>The arguments of a proposal are a Go map: the order of the pairs does not matter, and their
  values are JSON values whose numbers are literals.\<close>

definition wf_proposal :: "ActionProposal \<Rightarrow> bool" where
  "wf_proposal p \<longleftrightarrow> (case ap_Arguments p of None \<Rightarrow> True | Some m \<Rightarrow> distinct (map fst m) \<and> (\<forall>kv \<in> set m. wf_json (snd kv)))"

definition same_arguments :: "go_map option \<Rightarrow> go_map option \<Rightarrow> bool" where
  "same_arguments a b \<longleftrightarrow> map_option map_of a = map_option map_of b"

lemma distinct_sort_keys [simp]: "distinct (map fst (sort_keys m)) = distinct (map fst m)"
  by (simp add: sort_keys_def distinct_map)

lemma map_of_sort_keys: "distinct (map fst m) \<Longrightarrow> map_of (sort_keys m) = map_of m"
  by (subst map_of_inject_set) (simp_all, simp add: sort_keys_def)

lemma sort_keys_cong:
  assumes "distinct (map fst a)" "distinct (map fst b)" "map_of a = map_of b"
  shows "sort_keys a = sort_keys b"
proof (rule map_sorted_distinct_set_unique [where f = fst])
  have "set a = set b" using assms by (metis map_of_inject_set)
  then show "set (sort_keys a) = set (sort_keys b)" by (simp add: sort_keys_def)
  with assms(1) show "inj_on fst (set (sort_keys a) \<union> set (sort_keys b))"
    by (simp add: sort_keys_def distinct_map)
qed (use assms in \<open>simp_all add: sort_keys_def [symmetric]\<close>, simp_all add: sort_keys_def)

lemma json_map_eq_iff:
  assumes "\<And>m. a = Some m \<Longrightarrow> distinct (map fst m)" "\<And>m. b = Some m \<Longrightarrow> distinct (map fst m)"
  shows "json_map a = json_map b \<longleftrightarrow> same_arguments a b"
proof (cases a; cases b)
  fix m n assume ab: "a = Some m" "b = Some n"
  have "sort_keys m = sort_keys n \<longleftrightarrow> map_of m = map_of n"
    using assms ab sort_keys_cong map_of_sort_keys by metis
  with ab show ?thesis by (simp add: json_map_def same_arguments_def)
qed (simp_all add: json_map_def same_arguments_def)

text \<open>Two proposals say the same: equal in every field, the arguments as maps.\<close>

definition same_proposal :: "ActionProposal \<Rightarrow> ActionProposal \<Rightarrow> bool" where
  "same_proposal p q \<longleftrightarrow> p\<lparr>ap_Arguments := None\<rparr> = q\<lparr>ap_Arguments := None\<rparr> \<and> same_arguments (ap_Arguments p) (ap_Arguments q)"

lemma same_proposal_iff:
  "same_proposal p q \<longleftrightarrow>
     ap_ProposalID p = ap_ProposalID q \<and> ap_TaskID p = ap_TaskID q \<and> ap_SessionID p = ap_SessionID q
     \<and> ap_Tool p = ap_Tool q \<and> ap_Effect p = ap_Effect q \<and> same_arguments (ap_Arguments p) (ap_Arguments q)
     \<and> ap_Target p = ap_Target q \<and> ap_BatchSize p = ap_BatchSize q \<and> ap_Reversible p = ap_Reversible q
     \<and> ap_RollbackStrategy p = ap_RollbackStrategy q \<and> ap_LabMode p = ap_LabMode q
     \<and> ap_SystemState p = ap_SystemState q \<and> ap_Intent p = ap_Intent q"
  unfolding same_proposal_def by (cases p; cases q) auto

lemma json_proposal_eq_iff:
  assumes "wf_proposal p" "wf_proposal q"
  shows "json_proposal p = json_proposal q \<longleftrightarrow> same_proposal p q"
proof -
  have m: "json_map (ap_Arguments p) = json_map (ap_Arguments q) \<longleftrightarrow> same_arguments (ap_Arguments p) (ap_Arguments q)"
    using assms by (intro json_map_eq_iff) (auto simp: wf_proposal_def)
  have t: "json_target s = json_target t \<longleftrightarrow> s = t" for s t using injD [OF inj_json_target] by auto
  have i: "json_intent s = json_intent t \<longleftrightarrow> s = t" for s t using injD [OF inj_json_intent] by auto
  show ?thesis
    unfolding same_proposal_iff json_proposal_def
    by (auto simp: m t i omit_str_def split: if_splits)
qed

lemma wf_json_target [simp]: "wf_json (json_target t)"
  by (auto simp: json_target_def)

lemma wf_json_slice [simp]: "(\<And>x. x \<in> set xs \<Longrightarrow> wf_json x) \<Longrightarrow> wf_json (json_slice xs)"
  by (simp add: json_slice_def)

lemma wf_json_authorization [simp]: "wf_json (json_authorization a)"
  by (auto simp: json_authorization_def intro!: wf_json_slice)

lemma wf_json_intent [simp]: "wf_json (json_intent i)"
  by (auto simp: json_intent_def omit_slice_def intro!: wf_json_slice)

lemma wf_json_proposal: "wf_proposal p \<Longrightarrow> wf_json (json_proposal p)"
  by (auto simp: json_proposal_def wf_proposal_def json_map_def sort_keys_def omit_str_def split: option.splits)

lemma ActionProposal_Digest_iff:
  assumes "wf_proposal p" "wf_proposal q" "ap_Tool p \<noteq> []" "ap_Tool q \<noteq> []"
  shows "ActionProposal_Digest p = ActionProposal_Digest q \<longleftrightarrow>
    same_proposal p q \<or> sha_collision (json_text (json_proposal p)) (json_text (json_proposal q))"
proof -
  have "sha256_hex x = sha256_hex y \<longleftrightarrow> x = y \<or> sha_collision x y" for x y
    using sha256_hex_eq_cases by (auto simp: sha_collision_def sha256_hex_def)
  moreover have "json_text (json_proposal p) = json_text (json_proposal q) \<longleftrightarrow> same_proposal p q"
    using json_text_inj [OF wf_json_proposal wf_json_proposal] json_proposal_eq_iff assms by metis
  ultimately show ?thesis using assms by (simp add: ActionProposal_Digest_def)
qed

lemma TargetSnapshot_Digest_iff:
  "TargetSnapshot_Digest s = TargetSnapshot_Digest t \<longleftrightarrow>
    s = t \<or> sha_collision (json_text (json_snapshot s)) (json_text (json_snapshot t))"
proof -
  have "sha256_hex x = sha256_hex y \<longleftrightarrow> x = y \<or> sha_collision x y" for x y
    using sha256_hex_eq_cases by (auto simp: sha_collision_def sha256_hex_def)
  moreover have "json_text (json_snapshot s) = json_text (json_snapshot t) \<longleftrightarrow> s = t"
    using json_text_inj [OF wf_json_snapshot wf_json_snapshot] injD [OF inj_json_snapshot] by metis
  ultimately show ?thesis by (simp add: TargetSnapshot_Digest_def)
qed

subsection \<open>Signatures\<close>

lemma SigningBytes_signature [simp]: "SigningBytes (e\<lparr>ae_Signature := s\<rparr>) = SigningBytes e"
  by (simp add: SigningBytes_def)

lemma Sign_Verify: "Sign secret e = Inr e' \<Longrightarrow> VerifySignature secret e' = Inr ()"
  by (auto simp: Sign_def VerifySignature_def split: if_splits)

lemma Sign_fields: "Sign secret e = Inr e' \<Longrightarrow> e' = e\<lparr>ae_Signature := ae_Signature e'\<rparr>"
  by (auto simp: Sign_def split: if_splits)

lemma hmac_eq_cases: "hmac_sha256 k m = hmac_sha256 k m' \<Longrightarrow> m = m' \<or> (\<exists>x y. sha_collision x y)"
  unfolding hmac_sha256_def sha_collision_def by (metis append_eq_append_conv)

lemma inj_json_risk: "inj json_risk"
  by (rule injI) (auto simp: json_risk_def dest!: json_slice_inj [OF inj_JStr])

lemma wf_json_envelope: "wf_proposal (ae_Proposal e) \<Longrightarrow> wf_json (json_envelope e)"
  by (auto simp: json_envelope_def wf_json_proposal wf_json_snapshot json_risk_def json_time_def omit_str_def
      intro!: wf_json_slice)

text \<open>What the signature of an envelope pins down: every field; the expiry as it is printed.\<close>

definition same_envelope :: "ActionEnvelope \<Rightarrow> ActionEnvelope \<Rightarrow> bool" where
  "same_envelope d e \<longleftrightarrow>
     ae_SchemaVersion d = ae_SchemaVersion e \<and> ae_TraceID d = ae_TraceID e \<and> ae_TaskID d = ae_TaskID e
     \<and> ae_SessionID d = ae_SessionID e \<and> same_proposal (ae_Proposal d) (ae_Proposal e)
     \<and> ae_ProposalDigest d = ae_ProposalDigest e \<and> ae_TargetSnapshot d = ae_TargetSnapshot e
     \<and> ae_Risk d = ae_Risk e \<and> ae_IntentDigest d = ae_IntentDigest e \<and> ae_PolicyVersion d = ae_PolicyVersion e
     \<and> rfc3339nano (ae_ExpiresAt d) = rfc3339nano (ae_ExpiresAt e) \<and> ae_Nonce d = ae_Nonce e
     \<and> ae_ApprovalID d = ae_ApprovalID e"

lemma SigningBytes_eq:
  assumes "wf_proposal (ae_Proposal d)" "wf_proposal (ae_Proposal e)" "SigningBytes d = SigningBytes e"
  shows "same_envelope d e"
proof -
  have "json_envelope (d\<lparr>ae_Signature := []\<rparr>) = json_envelope (e\<lparr>ae_Signature := []\<rparr>)"
    using assms by (intro json_text_inj wf_json_envelope) (simp_all add: SigningBytes_def)
  then show ?thesis
    using json_proposal_eq_iff [OF assms(1,2)]
    by (auto simp: json_envelope_def same_envelope_def json_time_def omit_str_def
        dest!: injD [OF inj_json_snapshot] injD [OF inj_json_risk] split: if_splits)
qed

lemma VerifySignature_tamper:
  assumes "wf_proposal (ae_Proposal d)" "wf_proposal (ae_Proposal e)"
    and "VerifySignature secret d = Inr ()" "VerifySignature secret e = Inr ()" "ae_Signature d = ae_Signature e"
  shows "same_envelope d e \<or> (\<exists>x y. sha_collision x y)"
proof -
  from assms(3-5) have "hmac_sha256 secret (SigningBytes d) = hmac_sha256 secret (SigningBytes e)"
    by (auto simp: VerifySignature_def split: if_splits sum.splits)
  from hmac_eq_cases [OF this] SigningBytes_eq [OF assms(1,2)] show ?thesis by blast
qed

subsection \<open>Properties\<close>


definition demo_envelope :: ActionEnvelope where
  "demo_envelope = \<lparr>ae_SchemaVersion = 1, ae_TraceID = ''t'', ae_TaskID = ''t'', ae_SessionID = ''s'',
     ae_Proposal = \<lparr>ap_ProposalID = ''p'', ap_TaskID = ''t'', ap_SessionID = ''s'', ap_Tool = ''file.delete'', ap_Effect = Write,
       ap_Arguments = Some [(''path'', JStr ''/srv/a'')], ap_Target = \<lparr>tr_Type = ''file'', tr_ID = ''/srv/a'', tr_Criticality = []\<rparr>, ap_BatchSize = 1,
       ap_Reversible = True, ap_RollbackStrategy = ''quarantine'', ap_LabMode = False, ap_SystemState = [],
       ap_Intent = \<lparr>ic_OriginalRequest = [], ic_Objective = [], ic_ObjectiveTargets = [], ic_PlanStep = [], ic_PlanTargets = [],
         ic_AuthorizedRelations = []\<rparr>\<rparr>,
     ae_ProposalDigest = [], ae_TargetSnapshot = zero_snapshot, ae_Risk = zero_risk, ae_IntentDigest = [], ae_PolicyVersion = [],
     ae_ExpiresAt = 0, ae_Nonce = ''n'', ae_ApprovalID = [], ae_Signature = []\<rparr>"

lemma demo_envelope_wf: "wf_proposal (ae_Proposal demo_envelope)"
  by (simp add: wf_proposal_def demo_envelope_def)


text \<open>The digests are binding: equal digests of two proposals mean equal proposals (arguments as maps), and equal
  digests of two target snapshots mean equal snapshots, unless a SHA-256 collision is known.\<close>

theorem digests_are_binding:
  assumes "wf_proposal p" "wf_proposal q" "ap_Tool p \<noteq> []" "ap_Tool q \<noteq> []"
  shows "(ActionProposal_Digest p = ActionProposal_Digest q \<longleftrightarrow>
      same_proposal p q \<or> sha_collision (json_text (json_proposal p)) (json_text (json_proposal q)))
    \<and> (TargetSnapshot_Digest s = TargetSnapshot_Digest t \<longleftrightarrow>
      s = t \<or> sha_collision (json_text (json_snapshot s)) (json_text (json_snapshot t)))"
  using ActionProposal_Digest_iff [OF assms] TargetSnapshot_Digest_iff by blast

theorem digests_are_binding_witness:
  "ActionProposal_Digest (ae_Proposal demo_envelope)
     = ActionProposal_Digest ((ae_Proposal demo_envelope)\<lparr>ap_Arguments := Some [(''path'', JStr ''/srv/a'')]\<rparr>)
   \<and> (TargetSnapshot_Digest zero_snapshot = TargetSnapshot_Digest (zero_snapshot\<lparr>ts_Inode := 1\<rparr>)
       \<longleftrightarrow> sha_collision (json_text (json_snapshot zero_snapshot)) (json_text (json_snapshot (zero_snapshot\<lparr>ts_Inode := 1\<rparr>))))"
proof -
  let ?p = "ae_Proposal demo_envelope" and ?q = "(ae_Proposal demo_envelope)\<lparr>ap_Arguments := Some [(''path'', JStr ''/srv/a'')]\<rparr>"
  have "wf_proposal ?q" "ap_Tool ?p \<noteq> []" "ap_Tool ?q \<noteq> []" "same_proposal ?p ?q" "zero_snapshot \<noteq> zero_snapshot\<lparr>ts_Inode := 1\<rparr>"
    by (simp_all add: wf_proposal_def demo_envelope_def same_proposal_def same_arguments_def zero_snapshot_def)
  with digests_are_binding [OF demo_envelope_wf this(1-3), of zero_snapshot "zero_snapshot\<lparr>ts_Inode := 1\<rparr>"] show ?thesis by blast
qed

end
