(* ===== verification/GoPath.thy ===== *)
theory GoPath
  imports GoLib
begin

text \<open>
  \<open>path/filepath\<close> on Unix: \<open>IsAbs\<close>, \<open>Clean\<close>, \<open>Rel\<close>, \<open>Join\<close>, \<open>Dir\<close>, \<open>Base\<close>, \<open>Ext\<close>. A cleaned path is its list of
  segments; the central fact is that the lexical containment test the program writes with \<open>Rel\<close>
  (four copies of it) is the prefix order on segments.
\<close>

definition IsAbs :: "string \<Rightarrow> bool" where
  "IsAbs p \<longleftrightarrow> (case p of c # _ \<Rightarrow> c = CHR ''/'' | [] \<Rightarrow> False)"

text \<open>One segment of the input of \<open>Clean\<close>, on the reversed list of segments kept so far: empty and
  \<open>.\<close> segments vanish, \<open>..\<close> removes the segment before it, and is dropped at the root.\<close>

definition clean_step :: "bool \<Rightarrow> string list \<Rightarrow> string \<Rightarrow> string list" where
  "clean_step rooted st seg =
     (if seg = [] \<or> seg = ''.'' then st
      else if seg = ''..'' then
        (case st of [] \<Rightarrow> if rooted then [] else [''..'']
         | t # ts \<Rightarrow> if t = ''..'' then ''..'' # st else ts)
      else seg # st)"

definition clean_segs :: "bool \<Rightarrow> string list \<Rightarrow> string list" where
  "clean_segs rooted xs = rev (foldl (clean_step rooted) [] xs)"

definition segs :: "string \<Rightarrow> string list" where
  "segs p = clean_segs (IsAbs p) (split_on (CHR ''/'') p)"

definition unsegs :: "bool \<Rightarrow> string list \<Rightarrow> string" where
  "unsegs rooted xs = (if rooted then CHR ''/'' # join ''/'' xs else if xs = [] then ''.'' else join ''/'' xs)"

definition Clean :: "string \<Rightarrow> string" where
  "Clean p = (if p = [] then ''.'' else unsegs (IsAbs p) (segs p))"

fun strip_common :: "string list \<Rightarrow> string list \<Rightarrow> string list \<times> string list" where
  "strip_common (x # xs) (y # ys) = (if x = y then strip_common xs ys else (x # xs, y # ys))"
| "strip_common xs ys = (xs, ys)"

text \<open>\<open>Rel\<close>: the common leading segments are removed; what is left of the base becomes \<open>..\<close> segments.
  It is an error when one path is absolute and the other is not, or when the rest of the base
  starts with \<open>..\<close>.\<close>

definition Rel :: "string \<Rightarrow> string \<Rightarrow> string result" where
  "Rel base targ =
     (let b = Clean base; t = Clean targ in
      if t = b then Inr ''.''
      else if IsAbs b \<noteq> IsAbs t then Inl (ErrorNew ''Rel: can't make path relative'')
      else (case strip_common (segs b) (if t = ''.'' then [''.''] else segs t) of
          (rb, rt) \<Rightarrow>
            if (case rb of x # _ \<Rightarrow> x = ''..'' | [] \<Rightarrow> False) then Inl (ErrorNew ''Rel: can't make path relative'')
            else Inr (join ''/'' (replicate (length rb) ''..'' @ rt))))"

definition pathJoin :: "string list \<Rightarrow> string" where
  "pathJoin xs = (case filter (\<lambda>x. x \<noteq> []) xs of [] \<Rightarrow> [] | ys \<Rightarrow> Clean (join ''/'' ys))"

definition Ext :: "string \<Rightarrow> string" where
  "Ext p = (let e = last (split_on (CHR ''/'') p) in if CHR ''.'' \<in> set e then CHR ''.'' # last (split_on (CHR ''.'') e) else [])"

definition Dir :: "string \<Rightarrow> string" where
  "Dir p = Clean (let parts = split_on (CHR ''/'') p in join ''/'' (butlast parts @ [[]]))"

definition Base :: "string \<Rightarrow> string" where
  "Base p = (if p = [] then ''.''
             else case rev (filter (\<lambda>x. x \<noteq> []) (split_on (CHR ''/'') p)) of [] \<Rightarrow> ''/'' | x # _ \<Rightarrow> x)"

text \<open>The test \<open>err == nil && rel != ".." && !strings.HasPrefix(rel, "../")\<close> that every package repeats.\<close>

definition rel_inside :: "string result \<Rightarrow> bool" where
  "rel_inside r = (case r of Inl _ \<Rightarrow> False | Inr rel \<Rightarrow> rel \<noteq> ''..'' \<and> \<not> prefix ''../'' rel)"

subsection \<open>Segments\<close>

definition plain_seg :: "string \<Rightarrow> bool" where
  "plain_seg x \<longleftrightarrow> x \<noteq> [] \<and> x \<noteq> ''.'' \<and> CHR ''/'' \<notin> set x"

definition ok_segs :: "bool \<Rightarrow> string list \<Rightarrow> bool" where
  "ok_segs rooted xs \<longleftrightarrow> (\<forall>x \<in> set xs. plain_seg x) \<and>
     (if rooted then ''..'' \<notin> set xs
      else (\<exists>n ys. xs = replicate n ''..'' @ ys \<and> ''..'' \<notin> set ys))"

lemma ok_segs_rooted: "ok_segs True xs \<longleftrightarrow> (\<forall>x \<in> set xs. plain_seg x) \<and> ''..'' \<notin> set xs"
  by (simp add: ok_segs_def)

lemma ok_segs_tl_rel:
  assumes "xs @ [t] = replicate n ''..'' @ ys" and "''..'' \<notin> set ys" and "t \<noteq> ''..''"
  shows "\<exists>n ys. xs = replicate n ''..'' @ ys \<and> ''..'' \<notin> set ys"
proof (cases ys rule: rev_cases)
  case Nil
  with assms(1) have "t \<in> set (replicate n ''..'')" by (metis append_Nil2 in_set_conv_decomp)
  with assms(3) show ?thesis by simp
next
  case (snoc zs z)
  with assms show ?thesis by auto
qed

lemma ok_segs_dotdot_rel:
  assumes "xs @ [''..''] = replicate n ''..'' @ ys" and "''..'' \<notin> set ys"
  shows "ys = []"
  using assms by (cases ys rule: rev_cases) auto

lemma clean_step_ok:
  assumes "ok_segs rooted (rev st)" and "CHR ''/'' \<notin> set seg"
  shows "ok_segs rooted (rev (clean_step rooted st seg))"
proof -
  consider "seg = [] \<or> seg = ''.''" | (up) "seg = ''..''" | (down) "seg \<noteq> []" "seg \<noteq> ''.''" "seg \<noteq> ''..''" by blast
  then show ?thesis
  proof cases
    case 1
    with assms show ?thesis by (simp add: clean_step_def)
  next
    case up
    show ?thesis
    proof (cases st)
      case Nil
      have "ok_segs False [''..'']"
        unfolding ok_segs_def by (auto simp: plain_seg_def intro!: exI [of _ 1])
      with up Nil show ?thesis by (simp add: clean_step_def ok_segs_rooted)
    next
      case (Cons t ts)
      show ?thesis
      proof (cases "t = ''..''")
        case True
        with assms(1) Cons have "\<not> rooted" by (auto simp: ok_segs_def)
        with assms(1) Cons True have p: "\<forall>x \<in> set (rev ts @ [''..'']). plain_seg x"
          and "\<exists>n ys. rev ts @ [''..''] = replicate n ''..'' @ ys \<and> ''..'' \<notin> set ys"
          by (simp_all add: ok_segs_def)
        then obtain n ys
          where e: "rev ts @ [''..''] = replicate n ''..'' @ ys" "''..'' \<notin> set ys" by blast
        from ok_segs_dotdot_rel [OF e] e have "rev ts @ [''..''] = replicate n ''..''" by simp
        then have "rev ts @ [''..'', ''..''] = replicate (Suc n) ''..''"
          by (simp add: replicate_append_same [symmetric])
        then have "\<exists>n ys. rev ts @ [''..'', ''..''] = replicate n ''..'' @ ys \<and> ''..'' \<notin> set ys"
          by (intro exI [of _ "Suc n"] exI [of _ "[]"]) simp
        with \<open>\<not> rooted\<close> up Cons True p show ?thesis by (simp add: clean_step_def ok_segs_def)
      next
        case False
        from assms(1) Cons have "\<forall>x \<in> set ts. plain_seg x" by (auto simp: ok_segs_def)
        moreover have "rooted \<Longrightarrow> ''..'' \<notin> set ts" using assms(1) Cons by (auto simp: ok_segs_def)
        moreover have "\<not> rooted \<Longrightarrow> \<exists>n ys. rev ts = replicate n ''..'' @ ys \<and> ''..'' \<notin> set ys"
          using assms(1) Cons False ok_segs_tl_rel [of "rev ts" t] by (auto simp: ok_segs_def)
        ultimately show ?thesis using up Cons False by (simp add: clean_step_def ok_segs_def)
      qed
    qed
  next
    case down
    then have "plain_seg seg" using assms(2) by (simp add: plain_seg_def)
    moreover have "\<not> rooted \<Longrightarrow> \<exists>n ys. rev st @ [seg] = replicate n ''..'' @ ys \<and> ''..'' \<notin> set ys"
    proof -
      assume "\<not> rooted"
      with assms(1) obtain n ys where "rev st = replicate n ''..'' @ ys" "''..'' \<notin> set ys"
        by (auto simp: ok_segs_def)
      with down(3) show ?thesis by (intro exI [of _ n] exI [of _ "ys @ [seg]"]) auto
    qed
    ultimately show ?thesis using assms(1) down by (auto simp: clean_step_def ok_segs_def)
  qed
qed

lemma clean_fold_ok:
  assumes "ok_segs rooted (rev st)" and "\<forall>x \<in> set xs. CHR ''/'' \<notin> set x"
  shows "ok_segs rooted (rev (foldl (clean_step rooted) st xs))"
  using assms by (induction xs arbitrary: st) (auto intro: clean_step_ok)

lemma ok_segs_Nil [simp]: "ok_segs rooted []"
  by (auto simp: ok_segs_def)

lemma ok_segs_segs: "ok_segs (IsAbs p) (segs p)"
  unfolding segs_def clean_segs_def
  by (rule clean_fold_ok) (auto dest: split_on_no_sep)

lemma clean_fold_id:
  assumes "ok_segs rooted (rev st @ xs)"
  shows "foldl (clean_step rooted) st xs = rev xs @ st"
  using assms
proof (induction xs arbitrary: st)
  case (Cons x xs)
  have "clean_step rooted st x = x # st"
  proof (cases "x = ''..''")
    case False
    with Cons.prems show ?thesis by (auto simp: clean_step_def ok_segs_def plain_seg_def)
  next
    case True
    with Cons.prems have r: "\<not> rooted" by (auto simp: ok_segs_def)
    with Cons.prems True obtain n ys
      where e: "rev st @ ''..'' # xs = replicate n ''..'' @ ys" "''..'' \<notin> set ys" by (auto simp: ok_segs_def)
    have "\<forall>t \<in> set st. t = ''..''"
    proof
      fix t assume t: "t \<in> set st"
      show "t = ''..''"
      proof (cases "length st < n")
        case True
        from e(1) have "rev st = take (length st) (replicate n ''..'' @ ys)"
          by (metis append_eq_conv_conj length_rev)
        also have "\<dots> = replicate (length st) ''..''" using True by simp
        finally have "rev st = replicate (length st) ''..''" .
        with t show ?thesis by (metis in_set_replicate set_rev)
      next
        case False
        have "''..'' = (rev st @ ''..'' # xs) ! length st" by (simp add: nth_append)
        also have "\<dots> = ys ! (length st - n)" using e(1) False by (simp add: nth_append)
        finally have d: "''..'' = ys ! (length st - n)" .
        have "length (rev st @ ''..'' # xs) = n + length ys" using e(1) by simp
        then have "length st - n < length ys" using False by simp
        with d e(2) show ?thesis by (metis nth_mem)
      qed
    qed
    with r True show ?thesis by (cases st) (simp_all add: clean_step_def)
  qed
  with Cons show ?case by simp
qed simp

lemma clean_segs_id: "ok_segs rooted xs \<Longrightarrow> clean_segs rooted xs = xs"
  using clean_fold_id [of rooted "[]" xs] by (simp add: clean_segs_def)

lemma IsAbs_join: "xs \<noteq> [] \<Longrightarrow> \<forall>x \<in> set xs. plain_seg x \<Longrightarrow> \<not> IsAbs (join ''/'' xs)"
  by (cases xs; cases "tl xs") (auto simp: IsAbs_def plain_seg_def neq_Nil_conv split: list.splits)

lemma IsAbs_unsegs: "ok_segs r xs \<Longrightarrow> IsAbs (unsegs r xs) = r"
  by (auto simp: unsegs_def IsAbs_join ok_segs_def) (auto simp: IsAbs_def)

lemma clean_segs_skip: "clean_segs r ([] # xs) = clean_segs r xs" "clean_segs r (''.'' # xs) = clean_segs r xs"
  by (simp_all add: clean_segs_def clean_step_def)

lemma segs_unsegs: "ok_segs r xs \<Longrightarrow> segs (unsegs r xs) = xs"
proof -
  assume ok: "ok_segs r xs"
  then have no: "\<forall>x \<in> set xs. CHR ''/'' \<notin> set x" by (auto simp: ok_segs_def plain_seg_def)
  show ?thesis
  proof (cases "xs = []")
    case True
    then show ?thesis
      by (cases r) (simp_all add: segs_def unsegs_def IsAbs_def clean_segs_skip, simp_all add: clean_segs_def)
  next
    case False
    have "split_on (CHR ''/'') (join ''/'' xs) = xs" by (rule split_join [OF False no])
    with False ok clean_segs_id [OF ok] IsAbs_unsegs [OF ok] show ?thesis
      by (cases r) (simp_all add: segs_def unsegs_def clean_segs_skip)
  qed
qed

lemma IsAbs_Clean [simp]: "IsAbs (Clean p) = IsAbs p"
  by (auto simp: Clean_def IsAbs_unsegs ok_segs_segs) (auto simp: IsAbs_def)

lemma segs_Clean [simp]: "segs (Clean p) = segs p"
proof (cases "p = []")
  case True
  then show ?thesis by (simp add: Clean_def segs_def IsAbs_def clean_segs_skip)
next
  case False
  then show ?thesis by (simp add: Clean_def segs_unsegs [OF ok_segs_segs])
qed

lemma Clean_eq_unsegs: "Clean p = unsegs (IsAbs p) (segs p)"
proof (cases "p = []")
  case True
  then show ?thesis by (simp add: Clean_def unsegs_def segs_def IsAbs_def clean_segs_def clean_step_def)
next
  case False
  then show ?thesis by (simp add: Clean_def)
qed

lemma Clean_eq_iff: "Clean p = Clean q \<longleftrightarrow> IsAbs p = IsAbs q \<and> segs p = segs q"
proof
  assume "Clean p = Clean q"
  then have "IsAbs (Clean p) = IsAbs (Clean q)" "segs (Clean p) = segs (Clean q)" by (rule arg_cong)+
  then show "IsAbs p = IsAbs q \<and> segs p = segs q" by simp
next
  assume "IsAbs p = IsAbs q \<and> segs p = segs q"
  then show "Clean p = Clean q" by (simp add: Clean_eq_unsegs)
qed

lemma Clean_Clean [simp]: "Clean (Clean p) = Clean p"
  by (simp add: Clean_eq_iff)

subsection \<open>Containment\<close>

lemma strip_common_prefix: "strip_common xs ys = (rb, rt) \<Longrightarrow> rb = [] \<longleftrightarrow> prefix xs ys"
  by (induction xs ys rule: strip_common.induct) (auto split: if_splits)

lemma strip_common_append: "strip_common xs (xs @ ys) = ([], ys)"
  by (induction xs) (cases ys, auto)

lemma strip_common_sub:
  "strip_common xs ys = (rb, rt) \<Longrightarrow> set rb \<subseteq> set xs \<and> set rt \<subseteq> set ys"
  by (induction xs ys rule: strip_common.induct) (auto split: if_splits)

lemma prefix_dotdot_join:
  assumes "\<forall>x \<in> set xs. plain_seg x" and "xs \<noteq> [] \<Longrightarrow> hd xs \<noteq> ''..''"
  shows "join ''/'' xs \<noteq> ''..'' \<and> \<not> prefix ''../'' (join ''/'' xs)"
proof (cases "xs = []")
  case False
  have split: "split_on (CHR ''/'') (join ''/'' xs) = xs"
    using False assms(1) by (intro split_join) (auto simp: plain_seg_def)
  have "hd (split_on (CHR ''/'') ''..'') = ''..''" by simp
  moreover have "hd (split_on (CHR ''/'') (''../'' @ z)) = ''..''" for z by simp
  ultimately show ?thesis using split assms(2) [OF False] by (metis prefix_def)
qed simp

lemma join_dotdots:
  "0 < n \<Longrightarrow> join ''/'' (replicate n ''..'' @ xs) = ''..'' \<or> prefix ''../'' (join ''/'' (replicate n ''..'' @ xs))"
  by (cases n; cases "replicate (n - 1) ''..'' @ xs") auto

lemma rel_inside_rooted:
  assumes "IsAbs root"
  shows "rel_inside (Rel root path) \<longleftrightarrow> IsAbs path \<and> prefix (segs root) (segs path)"
proof (cases "IsAbs path")
  case False
  with assms have "Clean path \<noteq> Clean root" by (simp add: Clean_eq_iff)
  with False assms show ?thesis by (simp add: Rel_def rel_inside_def)
next
  case abs: True
  have okr: "ok_segs True (segs root)" and okp: "ok_segs True (segs path)"
    using ok_segs_segs [of root] ok_segs_segs [of path] assms abs by simp_all
  show ?thesis
  proof (cases "Clean path = Clean root")
    case True
    with abs show ?thesis by (simp add: Rel_def rel_inside_def Clean_eq_iff)
  next
    case False
    have nd: "Clean path \<noteq> ''.''" using abs IsAbs_Clean [of path] by (auto simp: IsAbs_def)
    obtain rb rt where st: "strip_common (segs root) (segs path) = (rb, rt)" by fastforce
    from strip_common_sub [OF st] okr okp
    have plain: "\<forall>x \<in> set rt. plain_seg x" "''..'' \<notin> set rb" "''..'' \<notin> set rt"
      by (auto simp: ok_segs_rooted)
    have rel: "Rel root path = Inr (join ''/'' (replicate (length rb) ''..'' @ rt))"
      using False abs assms nd st plain(2) by (auto simp: Rel_def split: list.splits)
    show ?thesis
    proof (cases "rb = []")
      case True
      have "rt \<noteq> [] \<Longrightarrow> hd rt \<noteq> ''..''" using plain(3) by (metis hd_in_set)
      with prefix_dotdot_join [OF plain(1)] rel True strip_common_prefix [OF st] abs
      show ?thesis by (simp add: rel_inside_def)
    next
      case False
      with join_dotdots [of "length rb" rt] rel strip_common_prefix [OF st]
      show ?thesis by (auto simp: rel_inside_def)
    qed
  qed
qed

text \<open>The specification of containment: both absolute, and the segments of the root lead the path.\<close>

definition under :: "string \<Rightarrow> string \<Rightarrow> bool" where
  "under root path \<longleftrightarrow> IsAbs path \<and> prefix (segs root) (segs path)"

lemma under_refl: "IsAbs p \<Longrightarrow> under p p"
  by (simp add: under_def)

lemma under_trans: "under a b \<Longrightarrow> under b c \<Longrightarrow> under a c"
  by (auto simp: under_def)

lemma under_Clean [simp]: "under (Clean a) b = under a b" "under a (Clean b) = under a b"
  by (simp_all add: under_def)

subsection \<open>Joining a name to a directory\<close>

lemma split_on_append: "split_on c (xs @ c # ys) = split_on c xs @ split_on c ys"
proof (induction xs)
  case (Cons x xs)
  obtain h t where s: "split_on c xs = h # t" using split_on_ne [of c xs] by (cases "split_on c xs") auto
  show ?case using Cons s by auto
qed simp

lemma segs_snoc:
  assumes "IsAbs r" "plain_seg n" "n \<noteq> ''..''"
  shows "segs (r @ CHR ''/'' # n) = segs r @ [n]"
proof -
  have "split_on (CHR ''/'') n = [n]" using assms(2) by (intro split_on_id) (auto simp: plain_seg_def)
  moreover have "IsAbs (r @ CHR ''/'' # n)" using assms(1) by (cases r) (auto simp: IsAbs_def)
  moreover have "clean_step True st n = n # st" for st using assms(2,3) by (auto simp: clean_step_def plain_seg_def)
  ultimately show ?thesis using assms(1) by (simp add: segs_def split_on_append clean_segs_def)
qed

lemma pathJoin_segs:
  assumes "IsAbs r" "plain_seg n" "n \<noteq> ''..''"
  shows "segs (pathJoin [r, n]) = segs r @ [n]" "IsAbs (pathJoin [r, n])" "Clean (pathJoin [r, n]) = pathJoin [r, n]"
proof -
  have ne: "r \<noteq> []" "n \<noteq> []" using assms by (auto simp: IsAbs_def plain_seg_def)
  then have j: "pathJoin [r, n] = Clean (r @ CHR ''/'' # n)" by (simp add: pathJoin_def)
  have a: "IsAbs (r @ CHR ''/'' # n)" using assms(1) by (cases r) (auto simp: IsAbs_def)
  show "segs (pathJoin [r, n]) = segs r @ [n]" "IsAbs (pathJoin [r, n])" "Clean (pathJoin [r, n]) = pathJoin [r, n]"
    using segs_snoc [OF assms] a by (simp_all add: j)
qed

lemma under_pathJoin:
  assumes "IsAbs r" "plain_seg n" "n \<noteq> ''..''" "under a r"
  shows "under a (pathJoin [r, n])"
  using pathJoin_segs [OF assms(1-3)] assms(4) by (auto simp: under_def intro: prefix_order.order_trans)

lemma under_both: "IsAbs a \<Longrightarrow> IsAbs b \<Longrightarrow> under a p \<Longrightarrow> under b p \<Longrightarrow> under a b \<or> under b a"
  unfolding under_def using prefix_same_cases [of "segs a" "segs p" "segs b"] by blast

subsection \<open>The containment interface\<close>

text \<open>Every package has its own copy of the containment test. Its contract: for an absolute root it is the
  segment-wise order \<open>under\<close>, so that a list of roots bounds what passes, a narrower list passes less,
  and \<open>..\<close> segments or repeated slashes in the path change nothing.\<close>

locale path_containment =
  fixes inside :: "string \<Rightarrow> string \<Rightarrow> bool"
  assumes inside_iff: "IsAbs root \<Longrightarrow> inside root path \<longleftrightarrow> under root path"
begin

lemma inside_any:
  assumes "list_all IsAbs roots"
  shows "list_ex (\<lambda>r. inside r p) roots \<longleftrightarrow> (\<exists>r \<in> set roots. under r p)"
  using assms inside_iff by (fastforce simp: list_ex_iff list_all_iff)

lemma inside_narrow:
  assumes "list_all IsAbs roots" "list_all IsAbs maximum" "\<forall>r \<in> set roots. \<exists>m \<in> set maximum. inside m r"
    and "list_ex (\<lambda>r. inside r p) roots"
  shows "list_ex (\<lambda>r. inside r p) maximum"
proof -
  from assms(1,4) obtain r where r: "r \<in> set roots" "under r p" by (auto simp: inside_any)
  with assms(2,3) obtain m where "m \<in> set maximum" "under m r" by (force simp: inside_iff list_all_iff)
  with r(2) assms(2) show ?thesis by (auto simp: inside_any intro: under_trans)
qed

lemma inside_Clean: "IsAbs root \<Longrightarrow> inside root (Clean p) = inside root p"
  by (simp add: inside_iff)

end

end
