(* ===== verification/Guard.thy ===== *)
theory Guard
  imports Contracts GoPath
begin

text \<open>
  \<open>internal/guard\<close>: the versioned tool policy (\<open>catalog.go\<close>), the static guard (\<open>static.go\<close>), the intent guard
  (\<open>intent.go\<close>), the contextual risk engine (\<open>risk.go\<close>) and the pipeline that composes them (\<open>pipeline.go\<close>).
  Fresh decision identifiers (\<open>id.New\<close>) are arguments. YAML parsing is a third-party package, so the
  parser is an argument of \<open>LoadCatalog\<close>. The program's Chinese texts are written as UTF-8 bytes in
  hexadecimal.
\<close>

subsection \<open>Texts\<close>

definition txt_l3_denied :: string \<comment> \<open>L3 critical operations are denied by default\<close> where
  "txt_l3_denied = hx ''4c3320e585b3e994aee6938de4bd9ce9bb98e8aea4e68b92e7bb9d''"
definition txt_needs_approval :: string \<comment> \<open>local policy or contextual risk requires human approval\<close> where
  "txt_needs_approval = hx ''e69cace59cb0e7ad96e795a5e68896e4b88ae4b88be69687e9a38ee999a9e8a681e6b182e4babae5b7a5e5aea1e689b9''"
definition txt_forbidden :: string \<comment> \<open>arbitrary shell or command execution is forbidden\<close> where
  "txt_forbidden = hx ''e7a681e6ada2e4bbbbe6848f205368656c6c20e68896e591bde4bba4e689a7e8a18ce883bde58a9b''"
definition txt_unknown_tool :: string \<comment> \<open>the local safety policy has no such tool, denied by default\<close> where
  "txt_unknown_tool = hx ''e69cace59cb0e5ae89e585a8e7ad96e795a5e6b2a1e69c89e8afa520546f6f6cefbc8ce9bb98e8aea4e68b92e7bb9d''"
definition txt_effect_mismatch :: string \<comment> \<open>proposal effect differs from the local tool policy\<close> where
  "txt_effect_mismatch = hx ''416374696f6e2050726f706f73616c2065666665637420e4b88ee69cace59cb020546f6f6c20506f6c69637920e4b88de4b880e887b4''"
definition txt_target_type :: string \<comment> \<open>target type is not in the tool policy allowlist\<close> where
  "txt_target_type = hx ''e79baee6a087e7b1bbe59e8be4b88de59ca820546f6f6c20506f6c69637920616c6c6f776c697374''"
definition txt_known_read :: string \<comment> \<open>the local policy confirms a known read-only capability\<close> where
  "txt_known_read = hx ''e69cace59cb0e7ad96e795a5e7a1aee8aea4e8afa520546f6f6c20e4b8bae5b7b2e79fa5e58faae8afbbe883bde58a9b''"
definition txt_reversibility :: string \<comment> \<open>proposal reversibility differs from the local tool policy\<close> where
  "txt_reversibility = hx ''416374696f6e2050726f706f73616c20e79a84e58fafe98086e680a7e4b88ee69cace59cb020546f6f6c20506f6c69637920e4b88de4b880e887b4''"
definition txt_rollback :: string \<comment> \<open>a reversible write lacks an explicit rollback strategy\<close> where
  "txt_rollback = hx ''e58fafe98086e58699e6938de4bd9ce7bcbae5b091e6988ee7a1ae20526f6c6c6261636b205374726174656779''"
definition txt_policy_allow :: string \<comment> \<open>a known write satisfies the local static constraints\<close> where
  "txt_policy_allow = hx ''e5b7b2e79fa5e58699e883bde58a9be6bba1e8b6b3e69cace59cb0e99d99e68081e7baa6e69d9f''"
definition txt_risk_reason :: string \<comment> \<open>base risk, criticality, scope, batch, reversibility, lab and system state combine to score\<close> where
  "txt_risk_reason = hx ''e5b7a5e585b7e59fbae7a180e9a38ee999a9e38081e79baee6a087e585b3e994aee680a7e38081e88c83e59bb4e38081e689b9e9878fe38081e58fafe98086e680a7e380814c616220e5928ce7b3bbe7bb9fe78ab6e68081e59088e68890e5be97e5888620''"

subsection \<open>catalog.go\<close>

record ToolPolicy =
  tp_Name :: string
  tp_Effect :: Effect
  tp_BaseRisk :: RiskLevel
  tp_Approval :: bool
  tp_Reversible :: bool
  tp_AllowedTargetTypes :: "string list"
  tp_RuleID :: string

record catalogFile =
  cf_SchemaVersion :: int
  cf_Tools :: "ToolPolicy list"

record Catalog =
  cat_SchemaVersion :: int
  cat_Version :: string
  cat_tools :: "string \<rightharpoonup> ToolPolicy"

definition zero_policy :: ToolPolicy where
  "zero_policy = \<lparr>tp_Name = [], tp_Effect = [], tp_BaseRisk = [], tp_Approval = False,
     tp_Reversible = False, tp_AllowedTargetTypes = [], tp_RuleID = []\<rparr>"

fun add_policies :: "ToolPolicy list \<Rightarrow> (string \<rightharpoonup> ToolPolicy) \<Rightarrow> (string \<rightharpoonup> ToolPolicy) result" where
  "add_policies [] m = Inr m"
| "add_policies (p # ps) m =
     (if tp_Name p = [] \<or> tp_RuleID p = [] then Inl (ErrorNew ''tool policy requires name and rule_id'')
      else if tp_Effect p \<noteq> Read \<and> tp_Effect p \<noteq> Write
        then Inl (ErrorNew (''tool '' @ tp_Name p @ '' has invalid effect''))
      else if m (tp_Name p) \<noteq> None then Inl (ErrorNew (''duplicate tool policy '' @ tp_Name p))
      else add_policies ps (m(tp_Name p \<mapsto> p)))"

definition LoadCatalog :: "(string \<Rightarrow> catalogFile result) \<Rightarrow> string result \<Rightarrow> Catalog result" where
  "LoadCatalog yaml file =
     (case file of Inl e \<Rightarrow> Inl (Wrapf ''read tool policy'' e)
      | Inr b \<Rightarrow>
        (case yaml b of Inl e \<Rightarrow> Inl (Wrapf ''parse tool policy'' e)
         | Inr raw \<Rightarrow>
           if cf_SchemaVersion raw \<noteq> 1
             then Inl (ErrorNew (''unsupported policy schema version '' @ itoa (cf_SchemaVersion raw)))
           else (case add_policies (cf_Tools raw) Map.empty of Inl e \<Rightarrow> Inl e
             | Inr m \<Rightarrow> Inr \<lparr>cat_SchemaVersion = cf_SchemaVersion raw,
                             cat_Version = ''sha256:'' @ sha256_hex b, cat_tools = m\<rparr>)))"

definition Policy :: "Catalog \<Rightarrow> string \<Rightarrow> ToolPolicy option" where
  "Policy c tool = cat_tools c (TrimSpace tool)"

text \<open>\<open>policy, _ := Policy(tool)\<close>: the zero policy when the tool is unknown.\<close>

definition policy_or_zero :: "Catalog \<Rightarrow> string \<Rightarrow> ToolPolicy" where
  "policy_or_zero c tool = (case Policy c tool of None \<Rightarrow> zero_policy | Some p \<Rightarrow> p)"

definition VersionID :: "Catalog option \<Rightarrow> string" where
  "VersionID c = (case c of None \<Rightarrow> [] | Some k \<Rightarrow> cat_Version k)"

subsection \<open>risk.go\<close>

definition critical_services :: "string list" where
  "critical_services = [''sshd'', ''ssh.service'', ''sshd.service'', ''systemd'', ''dbus.service'', ''network.service'',
     ''networkmanager.service'', ''safeops-privexec.service'']"

definition critical_prefixes :: "string list" where
  "critical_prefixes = [''/boot'', ''/etc'', ''/usr'', ''/bin'', ''/sbin'', ''/root'']"

definition isCriticalTarget :: "TargetRef \<Rightarrow> bool" where
  "isCriticalTarget t =
     (if EqualFold (tr_Criticality t) ''critical'' then True
      else let i = ToLower (TrimSpace (tr_ID t)) in
        if tr_Type t = ''service'' \<and> i \<in> set critical_services then True
        else if tr_Type t = ''file'' then
          (let c = Clean i in list_ex (\<lambda>p. c = p \<or> prefix (p @ ''/'') c) critical_prefixes)
        else False)"

definition levelForScore :: "int \<Rightarrow> RiskLevel" where
  "levelForScore score = (if score < 20 then L0 else if score < 50 then L1 else if score < 80 then L2 else L3)"

definition base_score :: "RiskLevel \<Rightarrow> int" where
  "base_score b = (if b = L0 then 5 else if b = L1 then 20 else if b = L2 then 50 else 90)"

text \<open>The increments of \<open>RiskEngine.Evaluate\<close> in the order of the code, each with its factor.\<close>

definition risk_steps :: "Catalog \<Rightarrow> ActionProposal \<Rightarrow> (bool \<times> int \<times> string) list" where
  "risk_steps c p =
     (let critical = isCriticalTarget (ap_Target p);
          batch = (if ap_BatchSize p \<le> 0 then 1 else ap_BatchSize p)
      in [(Policy c (ap_Tool p) = None, 0, ''UNKNOWN_TOOL''),
          (ap_Effect p = Write, 10, ''WRITE_EFFECT''),
          (critical, 50, ''CRITICAL_TARGET''),
          (10 \<le> batch, 35, ''LARGE_BATCH''),
          (\<not> 10 \<le> batch \<and> 1 < batch, 10, ''MULTI_TARGET''),
          (ap_Effect p = Write \<and> \<not> ap_Reversible p, 15, ''NOT_REVERSIBLE''),
          (ap_Reversible p \<and> ap_RollbackStrategy p = [], 10, ''ROLLBACK_UNDECLARED''),
          (EqualFold (ap_SystemState p) ''degraded'' \<or> EqualFold (ap_SystemState p) ''critical'', 10, ''SYSTEM_UNSTABLE''),
          (ap_LabMode p \<and> \<not> critical, - 10, ''LAB_SCOPE'')])"

definition risk_base :: "Catalog \<Rightarrow> ActionProposal \<Rightarrow> RiskLevel" where
  "risk_base c p = (case Policy c (ap_Tool p) of None \<Rightarrow> L3 | Some q \<Rightarrow> tp_BaseRisk q)"

definition raw_score :: "Catalog \<Rightarrow> ActionProposal \<Rightarrow> int" where
  "raw_score c p = foldl (\<lambda>s (on, d, _). if on then s + d else s) (base_score (risk_base c p)) (risk_steps c p)"

definition RiskEngine_Evaluate :: "Catalog \<Rightarrow> ActionProposal \<Rightarrow> RiskResult" where
  "RiskEngine_Evaluate c p =
     (let s0 = raw_score c p; s1 = (if s0 < 0 then 0 else s0); score = (if s1 > 100 then 100 else s1)
      in \<lparr>rr_Level = levelForScore score, rr_Score = score,
          rr_Factors = (''BASE_'' @ risk_base c p) # map (\<lambda>(_, _, f). f) (filter fst (risk_steps c p)),
          rr_Reason = txt_risk_reason @ itoa score\<rparr>)"

subsection \<open>static.go\<close>

definition deny :: "GuardDecision \<Rightarrow> string \<Rightarrow> string \<Rightarrow> string \<Rightarrow> GuardDecision" where
  "deny d code rule reason =
     d\<lparr>gd_Outcome := Deny, gd_ReasonCodes := [code], gd_MatchedRuleIDs := [rule], gd_Reason := reason\<rparr>"

definition targetTypeAllowed :: "ToolPolicy \<Rightarrow> string \<Rightarrow> bool" where
  "targetTypeAllowed q typ =
     (if tp_AllowedTargetTypes q = [] then tp_Effect q = Read else typ \<in> set (tp_AllowedTargetTypes q))"

definition forbidden_tools :: "string list" where
  "forbidden_tools = [''shell.execute'', ''terminal.run'', ''command.execute'', ''bash.run'', ''execute_command'', ''run_shell'']"

definition forbiddenCapability :: "string \<Rightarrow> bool" where
  "forbiddenCapability tool \<longleftrightarrow> ToLower (TrimSpace tool) \<in> set forbidden_tools"

definition Precheck :: "Catalog \<Rightarrow> string \<Rightarrow> ActionProposal \<Rightarrow> GuardDecision" where
  "Precheck c decisionID p =
     (let d = \<lparr>gd_DecisionID = decisionID, gd_Outcome = NoOutcome, gd_ReasonCodes = [], gd_Reason = [],
               gd_MatchedRuleIDs = [], gd_PolicyVersion = VersionID (Some c), gd_Risk = zero_risk\<rparr> in
      if forbiddenCapability (ap_Tool p) then deny d ''FORBIDDEN_CAPABILITY'' ''forbidden-capability'' txt_forbidden
      else case Policy c (ap_Tool p) of
          None \<Rightarrow> deny d ''UNKNOWN_TOOL'' ''unknown-tool-deny'' txt_unknown_tool
        | Some q \<Rightarrow>
          if ap_Effect p \<noteq> tp_Effect q then deny d ''EFFECT_MISMATCH'' (tp_RuleID q) txt_effect_mismatch
          else if \<not> targetTypeAllowed q (tr_Type (ap_Target p)) then deny d ''TARGET_TYPE_DENIED'' (tp_RuleID q) txt_target_type
          else if tp_Effect q = Read then
            d\<lparr>gd_Outcome := Allow, gd_ReasonCodes := [''KNOWN_READ_TOOL''], gd_Reason := txt_known_read,
              gd_MatchedRuleIDs := [tp_RuleID q]\<rparr>
          else if tp_Reversible q \<noteq> ap_Reversible p then deny d ''REVERSIBILITY_MISMATCH'' (tp_RuleID q) txt_reversibility
          else if ap_Reversible p \<and> ap_RollbackStrategy p = [] then deny d ''ROLLBACK_REQUIRED'' (tp_RuleID q) txt_rollback
          else d\<lparr>gd_MatchedRuleIDs := [tp_RuleID q], gd_Outcome := Allow, gd_ReasonCodes := [''POLICY_ALLOW''],
                 gd_Reason := txt_policy_allow\<rparr>)"

definition StaticGuard_Evaluate :: "Catalog \<Rightarrow> string \<Rightarrow> ActionProposal \<Rightarrow> GuardDecision" where
  "StaticGuard_Evaluate c decisionID p =
     (let d = Precheck c decisionID p; risk = RiskEngine_Evaluate c p in
      if gd_Outcome d = Deny then d\<lparr>gd_Risk := risk\<rparr>
      else let d' = d\<lparr>gd_Risk := risk\<rparr>; q = policy_or_zero c (ap_Tool p) in
        if tp_Effect q = Read then d'
        else if rr_Level risk = L3 then deny d' ''L3_DEFAULT_DENY'' (tp_RuleID q) txt_l3_denied
        else if tp_Approval q \<or> rr_Level risk = L2 then
          d'\<lparr>gd_Outcome := RequireApproval, gd_ReasonCodes := [''WRITE_REQUIRES_APPROVAL''], gd_Reason := txt_needs_approval\<rparr>
        else d')"

subsection \<open>intent.go\<close>

record IntentDecision =
  id_DecisionID :: string
  id_Outcome :: Outcome
  id_ReasonCode :: string
  id_Reason :: string
  id_IntentDigest :: string
  id_EvidenceRefs :: "string list"
  id_PolicyVersion :: string

definition zero_intent_decision :: IntentDecision where
  "zero_intent_decision = \<lparr>id_DecisionID = [], id_Outcome = NoOutcome, id_ReasonCode = [], id_Reason = [],
     id_IntentDigest = [], id_EvidenceRefs = [], id_PolicyVersion = []\<rparr>"

definition containsTarget :: "TargetRef list \<Rightarrow> string \<Rightarrow> bool" where
  "containsTarget ts canonical = list_ex (\<lambda>t. CanonicalTarget t = canonical) ts"

definition intentDigest :: "IntentContext \<Rightarrow> string" where
  "intentDigest i = sha256_hex (json_text (json_intent i))"

definition authorizes :: "IntentContext \<Rightarrow> string \<Rightarrow> TargetAuthorization \<Rightarrow> bool" where
  "authorizes i target a \<longleftrightarrow>
     CanonicalTarget (ta_Target a) = target
     \<and> containsTarget (ic_ObjectiveTargets i) (CanonicalTarget (ta_RelatedTo a))
     \<and> ta_Relation a \<noteq> [] \<and> length (ta_EvidenceRefs a) > 0"

definition IntentGuard_Evaluate :: "string \<Rightarrow> string \<Rightarrow> ActionProposal \<Rightarrow> IntentDecision" where
  "IntentGuard_Evaluate policyVersion decisionID p =
     (let i = ap_Intent p;
          d = zero_intent_decision\<lparr>id_DecisionID := decisionID, id_PolicyVersion := policyVersion,
                id_IntentDigest := intentDigest i\<rparr>;
          target = CanonicalTarget (ap_Target p)
      in if target = '':'' then
           d\<lparr>id_Outcome := Deny, id_ReasonCode := ''INTENT_TARGET_MISSING'', id_Reason := ''Action target is missing''\<rparr>
         else if \<not> containsTarget (ic_PlanTargets i) target then
           d\<lparr>id_Outcome := Deny, id_ReasonCode := ''INTENT_PLAN_TARGET_MISMATCH'',
             id_Reason := ''Action target is not authorized by the current plan step''\<rparr>
         else if containsTarget (ic_ObjectiveTargets i) target then
           d\<lparr>id_Outcome := Allow, id_ReasonCode := ''INTENT_DIRECT_TARGET'',
             id_Reason := ''Action target directly matches the structured objective target''\<rparr>
         else case find (authorizes i target) (ic_AuthorizedRelations i) of
             Some a \<Rightarrow> d\<lparr>id_Outcome := Allow, id_ReasonCode := ''INTENT_EVIDENCE_RELATED_TARGET'',
               id_Reason := ''Action target is linked to an objective target by explicit evidence'',
               id_EvidenceRefs := ta_EvidenceRefs a\<rparr>
           | None \<Rightarrow> d\<lparr>id_Outcome := Deny, id_ReasonCode := ''INTENT_TARGET_MISMATCH'',
               id_Reason := ''Action target is neither an objective target nor an evidence-authorized related resource''\<rparr>)"

subsection \<open>pipeline.go\<close>

record PipelineResult =
  pr_Static :: GuardDecision
  pr_Intent :: IntentDecision
  pr_Risk :: RiskResult
  pr_Final :: GuardDecision

text \<open>The guards of \<open>NewSafetyPipeline\<close> share one catalog; \<open>id1\<close>, \<open>id2\<close> are the fresh decision ids of the
  static and the intent guard.\<close>

definition SafetyPipeline_Evaluate :: "Catalog \<Rightarrow> string \<Rightarrow> string \<Rightarrow> ActionProposal \<Rightarrow> PipelineResult" where
  "SafetyPipeline_Evaluate c id1 id2 p =
     (let static = Precheck c id1 p;
          result = \<lparr>pr_Static = static, pr_Intent = zero_intent_decision, pr_Risk = zero_risk, pr_Final = static\<rparr>
      in if gd_Outcome static = Deny then result
         else let intent = IntentGuard_Evaluate (VersionID (Some c)) id2 p;
                  result = result\<lparr>pr_Intent := intent\<rparr>
              in if id_Outcome intent = Deny then
                   result\<lparr>pr_Final := deny static (id_ReasonCode intent) ''intent-guard'' (id_Reason intent)\<rparr>
                 else let risk = RiskEngine_Evaluate c p;
                          final = static\<lparr>gd_Risk := risk\<rparr>;
                          q = policy_or_zero c (ap_Tool p);
                          final = (if rr_Level risk = L3 then deny final ''L3_DEFAULT_DENY'' (tp_RuleID q) txt_l3_denied
                                   else if ap_Effect p = Write \<and> (tp_Approval q \<or> rr_Level risk = L2) then
                                     final\<lparr>gd_Outcome := RequireApproval, gd_ReasonCodes := [''WRITE_REQUIRES_APPROVAL''],
                                           gd_Reason := txt_needs_approval\<rparr>
                                   else final)
                      in result\<lparr>pr_Risk := risk, pr_Final := final\<rparr>)"

subsection \<open>The catalog\<close>

definition valid_policy :: "ToolPolicy \<Rightarrow> bool" where
  "valid_policy q \<longleftrightarrow> tp_Name q \<noteq> [] \<and> tp_RuleID q \<noteq> [] \<and> (tp_Effect q = Read \<or> tp_Effect q = Write)"

definition by_name :: "ToolPolicy list \<Rightarrow> (string \<times> ToolPolicy) list" where
  "by_name ps = map (\<lambda>q. (tp_Name q, q)) ps"

lemma add_policies_iff:
  "add_policies ps m = Inr m' \<longleftrightarrow>
     list_all valid_policy ps \<and> distinct (map tp_Name ps) \<and> (\<forall>q \<in> set ps. m (tp_Name q) = None)
     \<and> m' = m ++ map_of (by_name ps)"
proof (induction ps arbitrary: m)
  case Nil
  then show ?case by (auto simp: by_name_def)
next
  case (Cons q ps)
  have upd: "m(tp_Name q \<mapsto> q) ++ map_of (by_name ps) = m ++ map_of (by_name (q # ps))"
    if "tp_Name q \<notin> set (map tp_Name ps)"
  proof -
    from that have "map_of (by_name ps) (tp_Name q) = None"
      by (auto simp: by_name_def map_of_eq_None_iff)
    then show ?thesis by (auto simp: by_name_def map_add_def fun_eq_iff split: option.splits)
  qed
  have step: "add_policies (q # ps) m = Inr m' \<longleftrightarrow>
      valid_policy q \<and> m (tp_Name q) = None \<and> add_policies ps (m(tp_Name q \<mapsto> q)) = Inr m'"
    by (auto simp: valid_policy_def)
  have fresh: "(\<forall>r \<in> set ps. (m(tp_Name q \<mapsto> q)) (tp_Name r) = None)
      \<longleftrightarrow> tp_Name q \<notin> set (map tp_Name ps) \<and> (\<forall>r \<in> set ps. m (tp_Name r) = None)"
    by (auto simp: image_iff split: if_splits)
  show ?case
    unfolding step Cons.IH fresh using upd by auto
qed

lemma LoadCatalog_iff:
  "LoadCatalog yaml (Inr b) = Inr c \<longleftrightarrow>
     (\<exists>raw. yaml b = Inr raw \<and> cf_SchemaVersion raw = 1
        \<and> list_all valid_policy (cf_Tools raw) \<and> distinct (map tp_Name (cf_Tools raw))
        \<and> c = \<lparr>cat_SchemaVersion = 1, cat_Version = ''sha256:'' @ sha256_hex b,
               cat_tools = map_of (by_name (cf_Tools raw))\<rparr>)"
proof (cases "yaml b")
  case (Inr raw)
  show ?thesis
  proof (cases "add_policies (cf_Tools raw) Map.empty")
    case (Inl e)
    then have "\<not> (list_all valid_policy (cf_Tools raw) \<and> distinct (map tp_Name (cf_Tools raw)))"
      using add_policies_iff [of "cf_Tools raw" Map.empty] by auto
    with Inl Inr show ?thesis by (auto simp: LoadCatalog_def)
  next
    case (Inr m)
    with add_policies_iff [of "cf_Tools raw" Map.empty m] \<open>yaml b = Inr raw\<close> show ?thesis
      by (auto simp: LoadCatalog_def)
  qed
qed (simp add: LoadCatalog_def)

subsection \<open>Risk\<close>

lemma raw_score_sum:
  "raw_score c p = base_score (risk_base c p)
     + (if ap_Effect p = Write then 10 else 0)
     + (if isCriticalTarget (ap_Target p) then 50 else 0)
     + (if 10 \<le> ap_BatchSize p then 35 else if 1 < ap_BatchSize p then 10 else 0)
     + (if ap_Effect p = Write \<and> \<not> ap_Reversible p then 15 else 0)
     + (if ap_Reversible p \<and> ap_RollbackStrategy p = [] then 10 else 0)
     + (if EqualFold (ap_SystemState p) ''degraded'' \<or> EqualFold (ap_SystemState p) ''critical'' then 10 else 0)
     - (if ap_LabMode p \<and> \<not> isCriticalTarget (ap_Target p) then 10 else 0)"
  by (simp add: raw_score_def risk_steps_def Let_def)

lemma risk_score: "rr_Score (RiskEngine_Evaluate c p) = max 0 (min 100 (raw_score c p))"
  by (simp add: RiskEngine_Evaluate_def Let_def)

lemma risk_level: "rr_Level (RiskEngine_Evaluate c p) = levelForScore (rr_Score (RiskEngine_Evaluate c p))"
  by (simp add: RiskEngine_Evaluate_def Let_def)

lemma level_L3_iff: "rr_Level (RiskEngine_Evaluate c p) = L3 \<longleftrightarrow> 80 \<le> raw_score c p"
  by (auto simp: risk_level risk_score levelForScore_def)

lemma base_score_bounds: "5 \<le> base_score b \<and> base_score b \<le> 90" "b \<noteq> L0 \<Longrightarrow> 20 \<le> base_score b"
  by (simp_all add: base_score_def)

lemma critical_write_L3:
  assumes "isCriticalTarget (ap_Target p)" "ap_Effect p = Write" "risk_base c p \<noteq> L0"
  shows "rr_Level (RiskEngine_Evaluate c p) = L3"
  using assms base_score_bounds(2) [OF assms(3)] unfolding level_L3_iff raw_score_sum by auto

subsection \<open>Criticality of paths\<close>

lemma join_eq_name: "\<forall>x \<in> set xs. plain_seg x \<Longrightarrow> plain_seg n \<Longrightarrow> join ''/'' xs = n \<longleftrightarrow> xs = [n]"
proof
  assume xs: "\<forall>x \<in> set xs. plain_seg x" and n: "plain_seg n" and e: "join ''/'' xs = n"
  from e n have "xs \<noteq> []" by (auto simp: plain_seg_def)
  with xs have "split_on (CHR ''/'') (join ''/'' xs) = xs" by (intro split_join) (auto simp: plain_seg_def)
  moreover have "split_on (CHR ''/'') n = [n]" using n by (intro split_on_id) (auto simp: plain_seg_def)
  ultimately show "xs = [n]" using e by simp
qed simp

lemma join_prefix_name:
  assumes xs: "\<forall>x \<in> set xs. plain_seg x" and n: "plain_seg n"
  shows "prefix (n @ ''/'') (join ''/'' xs) \<longleftrightarrow> (\<exists>y ys. xs = n # y # ys)"
proof
  assume "prefix (n @ ''/'') (join ''/'' xs)"
  then obtain z where z: "join ''/'' xs = n @ CHR ''/'' # z" by (auto simp: prefix_def)
  then have "xs \<noteq> []" by auto
  with xs have "split_on (CHR ''/'') (join ''/'' xs) = xs" by (intro split_join) (auto simp: plain_seg_def)
  moreover have "split_on (CHR ''/'') (n @ CHR ''/'' # z) = n # split_on (CHR ''/'') z"
    using n by (intro split_on_append_sep) (auto simp: plain_seg_def)
  ultimately show "\<exists>y ys. xs = n # y # ys" using z split_on_ne [of "CHR ''/''" z]
    by (cases "split_on (CHR ''/'') z") auto
qed auto

lemma clean_under_name:
  assumes "IsAbs p" "plain_seg n"
  shows "Clean p = CHR ''/'' # n \<or> prefix (CHR ''/'' # n @ ''/'') (Clean p) \<longleftrightarrow> (\<exists>ys. segs p = n # ys)"
proof -
  have pl: "\<forall>x \<in> set (segs p). plain_seg x" using ok_segs_segs [of p] by (simp add: ok_segs_def)
  have "Clean p = CHR ''/'' # join ''/'' (segs p)" using assms(1) by (simp add: Clean_eq_unsegs unsegs_def)
  with join_eq_name [OF pl assms(2)] join_prefix_name [OF pl assms(2)] show ?thesis
    by (auto simp: neq_Nil_conv)
qed

lemma isCriticalTarget_file:
  assumes "tr_Type t = ''file''" "IsAbs (ToLower (TrimSpace (tr_ID t)))"
  shows "isCriticalTarget t \<longleftrightarrow> EqualFold (tr_Criticality t) ''critical''
    \<or> (\<exists>r \<in> set critical_prefixes. under r (ToLower (TrimSpace (tr_ID t))))"
proof -
  let ?i = "ToLower (TrimSpace (tr_ID t))"
  have seg: "segs (CHR ''/'' # n) = [n]" if "plain_seg n" "n \<noteq> ''..''" for n
    using segs_unsegs [of True "[n]"] that by (simp add: ok_segs_rooted unsegs_def)
  have one: "Clean ?i = CHR ''/'' # n \<or> prefix (CHR ''/'' # n @ ''/'') (Clean ?i) \<longleftrightarrow> under (CHR ''/'' # n) ?i"
    if "plain_seg n" "n \<noteq> ''..''" for n
    using clean_under_name [OF assms(2) that(1)] seg [OF that] assms(2) by (auto simp: under_def prefix_def)
  have "list_ex (\<lambda>p. Clean ?i = p \<or> prefix (p @ ''/'') (Clean ?i)) critical_prefixes
    \<longleftrightarrow> (\<exists>r \<in> set critical_prefixes. under r ?i)"
    using one [of "''boot''"] one [of "''etc''"] one [of "''usr''"] one [of "''bin''"] one [of "''sbin''"] one [of "''root''"]
    by (simp add: critical_prefixes_def plain_seg_def)
  with assms(1) show ?thesis by (simp add: isCriticalTarget_def Let_def)
qed

subsection \<open>The pipeline decides as specified\<close>

text \<open>What a proposal must satisfy: the static policy, the alignment with plan and objective, and a
  contextual risk below L3.\<close>

definition static_ok :: "Catalog \<Rightarrow> ActionProposal \<Rightarrow> bool" where
  "static_ok c p \<longleftrightarrow> \<not> forbiddenCapability (ap_Tool p) \<and>
     (case Policy c (ap_Tool p) of None \<Rightarrow> False
      | Some q \<Rightarrow> ap_Effect p = tp_Effect q \<and> targetTypeAllowed q (tr_Type (ap_Target p))
        \<and> (tp_Effect q = Read \<or> tp_Reversible q = ap_Reversible p \<and> (ap_Reversible p \<longrightarrow> ap_RollbackStrategy p \<noteq> [])))"

definition aligned :: "ActionProposal \<Rightarrow> bool" where
  "aligned p \<longleftrightarrow> (let i = ap_Intent p; target = CanonicalTarget (ap_Target p) in
     target \<noteq> '':'' \<and> containsTarget (ic_PlanTargets i) target
     \<and> (containsTarget (ic_ObjectiveTargets i) target \<or> (\<exists>a \<in> set (ic_AuthorizedRelations i). authorizes i target a)))"

definition admissible :: "Catalog \<Rightarrow> ActionProposal \<Rightarrow> bool" where
  "admissible c p \<longleftrightarrow> static_ok c p \<and> aligned p \<and> rr_Level (RiskEngine_Evaluate c p) \<noteq> L3"

definition approval_needed :: "Catalog \<Rightarrow> ActionProposal \<Rightarrow> bool" where
  "approval_needed c p \<longleftrightarrow> ap_Effect p = Write
     \<and> (tp_Approval (policy_or_zero c (ap_Tool p)) \<or> rr_Level (RiskEngine_Evaluate c p) = L2)"

lemma deny_outcome [simp]: "gd_Outcome (deny d a b r) = Deny"
  by (simp add: deny_def)

lemma Precheck_outcome: "gd_Outcome (Precheck c i p) = (if static_ok c p then Allow else Deny)"
  by (auto simp: Precheck_def static_ok_def Let_def split: option.splits)

lemma IntentGuard_outcome: "id_Outcome (IntentGuard_Evaluate v i p) = (if aligned p then Allow else Deny)"
proof -
  let ?t = "CanonicalTarget (ap_Target p)"
  have "find (authorizes (ap_Intent p) ?t) (ic_AuthorizedRelations (ap_Intent p)) = None
    \<longleftrightarrow> \<not> (\<exists>a \<in> set (ic_AuthorizedRelations (ap_Intent p)). authorizes (ap_Intent p) ?t a)"
    by (auto simp: find_None_iff)
  then show ?thesis
    by (auto simp: IntentGuard_Evaluate_def aligned_def Let_def split: option.splits)
qed

lemma IntentGuard_digest [simp]: "id_IntentDigest (IntentGuard_Evaluate v i p) = intentDigest (ap_Intent p)"
  by (simp add: IntentGuard_Evaluate_def zero_intent_decision_def Let_def split: option.splits)

lemma pipeline_outcome:
  "gd_Outcome (pr_Final (SafetyPipeline_Evaluate c i j p)) =
     (if \<not> admissible c p then Deny else if approval_needed c p then RequireApproval else Allow)"
  by (auto simp: SafetyPipeline_Evaluate_def Precheck_outcome IntentGuard_outcome admissible_def approval_needed_def Let_def)

lemma pipeline_parts:
  assumes "static_ok c p" "aligned p"
  shows "pr_Risk (SafetyPipeline_Evaluate c i j p) = RiskEngine_Evaluate c p"
    and "id_Outcome (pr_Intent (SafetyPipeline_Evaluate c i j p)) = Allow"
    and "id_IntentDigest (pr_Intent (SafetyPipeline_Evaluate c i j p)) = intentDigest (ap_Intent p)"
  using assms by (simp_all add: SafetyPipeline_Evaluate_def Precheck_outcome IntentGuard_outcome Let_def)

lemma pipeline_static: "pr_Static (SafetyPipeline_Evaluate c i j p) = Precheck c i p"
  by (simp add: SafetyPipeline_Evaluate_def Let_def)

lemma pipeline_intent_outcome:
  "id_Outcome (pr_Intent (SafetyPipeline_Evaluate c i j p)) =
     (if \<not> static_ok c p then NoOutcome else if aligned p then Allow else Deny)"
  by (simp add: SafetyPipeline_Evaluate_def Precheck_outcome IntentGuard_outcome zero_intent_decision_def Let_def)

subsection \<open>A concrete catalog and proposal\<close>

definition sample_policy :: ToolPolicy where
  "sample_policy = \<lparr>tp_Name = ''file.delete'', tp_Effect = Write, tp_BaseRisk = L1, tp_Approval = True, tp_Reversible = True,
     tp_AllowedTargetTypes = [''file''], tp_RuleID = ''r1''\<rparr>"

definition sample_catalog :: Catalog where
  "sample_catalog = \<lparr>cat_SchemaVersion = 1, cat_Version = ''v1'', cat_tools = [''file.delete'' \<mapsto> sample_policy]\<rparr>"

definition sample_target :: "string \<Rightarrow> TargetRef" where
  "sample_target path = \<lparr>tr_Type = ''file'', tr_ID = path, tr_Criticality = []\<rparr>"

definition sample_proposal :: "string \<Rightarrow> ActionProposal" where
  "sample_proposal path = \<lparr>ap_ProposalID = ''p1'', ap_TaskID = ''t1'', ap_SessionID = ''s1'', ap_Tool = ''file.delete'',
     ap_Effect = Write, ap_Arguments = None, ap_Target = sample_target path, ap_BatchSize = 1, ap_Reversible = True,
     ap_RollbackStrategy = ''quarantine'', ap_LabMode = False, ap_SystemState = [],
     ap_Intent = \<lparr>ic_OriginalRequest = [], ic_Objective = [], ic_ObjectiveTargets = [sample_target path], ic_PlanStep = [],
       ic_PlanTargets = [sample_target path], ic_AuthorizedRelations = []\<rparr>\<rparr>"

lemmas sample_defs = sample_policy_def sample_catalog_def sample_target_def sample_proposal_def

lemma sample_static: "static_ok sample_catalog (sample_proposal p)"
proof -
  have "TrimSpace ''file.delete'' = ''file.delete''" "ToLower ''file.delete'' = ''file.delete''" by code_simp+
  then show ?thesis by (simp add: static_ok_def sample_defs Policy_def forbiddenCapability_def forbidden_tools_def targetTypeAllowed_def)
qed

lemma sample_aligned: "aligned (sample_proposal ''/srv/a'')"
  by code_simp

subsection \<open>Properties\<close>

text \<open>C2: the outcome of the safety pipeline is exactly the documented decision. A proposal is denied when
  the static policy rejects it, when its target is not aligned with plan and objective, or when its raw
  risk score reaches 80; among the others a write needs human approval iff the tool's policy asks for it or
  the score reaches 50; every other proposal is allowed.\<close>

theorem pipeline_decision:
  "gd_Outcome (pr_Final (SafetyPipeline_Evaluate c i j p)) =
     (if static_ok c p \<and> aligned p \<and> raw_score c p < 80
      then if ap_Effect p = Write \<and> (tp_Approval (policy_or_zero c (ap_Tool p)) \<or> 50 \<le> raw_score c p)
        then RequireApproval else Allow
      else Deny)"
proof -
  have "rr_Level (RiskEngine_Evaluate c p) = L2 \<longleftrightarrow> 50 \<le> raw_score c p" if "\<not> 80 \<le> raw_score c p"
    using that by (auto simp: risk_level risk_score levelForScore_def)
  then show ?thesis
    unfolding pipeline_outcome admissible_def approval_needed_def level_L3_iff by auto
qed

text \<open>No write to a file of the system directories \<open>/boot\<close>, \<open>/etc\<close>, \<open>/usr\<close>, \<open>/bin\<close>, \<open>/sbin\<close>, \<open>/root\<close> passes the
  pipeline, whatever \<open>..\<close> or repeated slashes the path contains, with or without an approval and also in
  lab mode, as long as the tool's policy does not give it the base risk L0.\<close>

theorem critical_file_write_denied:
  assumes "tr_Type (ap_Target p) = ''file''" "IsAbs (ToLower (TrimSpace (tr_ID (ap_Target p))))"
    and "r \<in> set critical_prefixes" "under r (ToLower (TrimSpace (tr_ID (ap_Target p))))"
    and "ap_Effect p = Write" "risk_base c p \<noteq> L0"
  shows "gd_Outcome (pr_Final (SafetyPipeline_Evaluate c i j p)) = Deny"
proof -
  have "isCriticalTarget (ap_Target p)" using assms by (auto simp: isCriticalTarget_file)
  then show ?thesis
    using critical_write_L3 assms(5,6) by (simp add: pipeline_outcome admissible_def)
qed

theorem critical_file_write_denied_witness:
  "gd_Outcome (pr_Final (SafetyPipeline_Evaluate sample_catalog ''a'' ''b'' (sample_proposal ''/srv/../etc//passwd''))) = Deny"
proof (rule critical_file_write_denied [where r = "''/etc''"])
  show "IsAbs (ToLower (TrimSpace (tr_ID (ap_Target (sample_proposal ''/srv/../etc//passwd'')))))" by code_simp
  show "under ''/etc'' (ToLower (TrimSpace (tr_ID (ap_Target (sample_proposal ''/srv/../etc//passwd'')))))" by code_simp
  show "risk_base sample_catalog (sample_proposal ''/srv/../etc//passwd'') \<noteq> L0" by code_simp
qed (simp_all add: sample_defs critical_prefixes_def)

text \<open>\<open>LoadCatalog\<close> accepts a policy file exactly when it decodes, has schema version 1 and its tools are
  valid and pairwise differently named; the catalog then maps every name to its entry and is
  identified by the SHA-256 of the file's bytes.\<close>

theorem LoadCatalog_exact:
  "LoadCatalog yaml (Inr b) = Inr c \<longleftrightarrow>
     (\<exists>raw. yaml b = Inr raw \<and> cf_SchemaVersion raw = 1
        \<and> list_all valid_policy (cf_Tools raw) \<and> distinct (map tp_Name (cf_Tools raw))
        \<and> c = \<lparr>cat_SchemaVersion = 1, cat_Version = ''sha256:'' @ sha256_hex b,
               cat_tools = map_of (by_name (cf_Tools raw))\<rparr>)"
  by (rule LoadCatalog_iff)

text \<open>For a write whose target is aligned with plan and objective, the standalone static guard and the
  pipeline reach the same outcome and attach the same risk.\<close>

theorem static_guard_agrees_on_writes:
  assumes "ap_Effect p = Write" "aligned p" "static_ok c p"
  shows "gd_Outcome (StaticGuard_Evaluate c i p) = gd_Outcome (pr_Final (SafetyPipeline_Evaluate c i j p))
    \<and> gd_Risk (StaticGuard_Evaluate c i p) = pr_Risk (SafetyPipeline_Evaluate c i j p)"
proof
  have q: "tp_Effect (policy_or_zero c (ap_Tool p)) = Write"
    using assms(1,3) by (auto simp: static_ok_def policy_or_zero_def split: option.splits)
  show "gd_Outcome (StaticGuard_Evaluate c i p) = gd_Outcome (pr_Final (SafetyPipeline_Evaluate c i j p))"
    using q assms
    by (auto simp: StaticGuard_Evaluate_def pipeline_outcome Precheck_outcome admissible_def approval_needed_def Let_def)
  show "gd_Risk (StaticGuard_Evaluate c i p) = pr_Risk (SafetyPipeline_Evaluate c i j p)"
    using assms by (simp add: StaticGuard_Evaluate_def pipeline_parts Precheck_outcome deny_def Let_def)
qed

theorem static_guard_agrees_on_writes_witness:
  "gd_Outcome (StaticGuard_Evaluate sample_catalog ''a'' (sample_proposal ''/srv/a''))
     = gd_Outcome (pr_Final (SafetyPipeline_Evaluate sample_catalog ''a'' ''b'' (sample_proposal ''/srv/a'')))"
  using static_guard_agrees_on_writes [OF _ sample_aligned sample_static]
  by (simp add: sample_proposal_def)

end
