(* ===== verification/Approval.thy ===== *)
theory Approval
  imports Contracts
begin

text \<open>
  \<open>internal/approval/store.go\<close>: the approval records shared by the API server, which creates and resolves
  them, and the privileged executor, which validates and consumes them. A store is a directory of JSON
  documents, one per record, replaced atomically; the file names are relative to the directory.
  The clock readings and the fresh record id are arguments. \<open>ctx.Err()\<close> is an entry of the schedule of
  the environment like a system call. A record returned beside an error is not modelled (no caller uses it).
\<close>

subsection \<open>Types\<close>

text \<open>\<open>Status\<close> is a string type; other values than the constants can be in a file the program did not write.\<close>

datatype Status = Pending | Approved | Rejected | Consumed | Expired | OtherStatus string

fun status_text :: "Status \<Rightarrow> string" where
  "status_text Pending = ''PENDING''"
| "status_text Approved = ''APPROVED''"
| "status_text Rejected = ''REJECTED''"
| "status_text Consumed = ''CONSUMED''"
| "status_text Expired = ''EXPIRED''"
| "status_text (OtherStatus s) = s"

record Binding =
  b_TaskID :: string
  b_ProposalDigest :: string
  b_TargetSnapshotDigest :: string
  b_IntentDigest :: string
  b_PolicyVersion :: string
  b_RiskLevel :: RiskLevel
  b_Tool :: string
  b_Nonce :: string

record Record =
  r_ID :: string
  r_Binding :: Binding
  r_Status :: Status
  r_Reason :: string
  r_CreatedAt :: timestamp
  r_ExpiresAt :: timestamp
  r_ResolvedAt :: timestamp
  r_ConsumedAt :: timestamp

type_synonym approvals = "Record doc disk"

subsection \<open>Loading and saving\<close>

definition approval_path :: "string \<Rightarrow> string" where
  "approval_path i = i @ ''.json''"

definition validID :: "string \<Rightarrow> unit result" where
  "validID value =
     (if value = [] \<or> CHR ''/'' \<in> set value \<or> CHR 0x5C \<in> set value \<or> value = ''.'' \<or> value = ''..''
      then Inl (ErrorNew ''invalid approval id'') else Inr ())"

definition load :: "string \<Rightarrow> approvals \<Rightarrow> Record result \<times> approvals" where
  "load i s =
     (case validID i of Inl e \<Rightarrow> (Inl e, s)
      | Inr _ \<Rightarrow> (case read_file (approval_path i) s of (f, s') \<Rightarrow> (decode f, s')))"

text \<open>Marshal, create, chmod, write, sync and close the temporary file; rename; open, sync and close the
  directory.\<close>

definition save :: "Record \<Rightarrow> approvals \<Rightarrow> unit result \<times> approvals" where
  "save r = atomic_replace 6 3 (approval_path (r_ID r)) (Valid r)"

interpretation store: document_store save "\<lambda>r. approval_path (r_ID r)" Valid
  unfolding save_def by (rule document_store_atomic)

subsection \<open>Operations\<close>

definition incomplete :: "Binding \<Rightarrow> bool" where
  "incomplete b \<longleftrightarrow> b_TaskID b = [] \<or> b_ProposalDigest b = [] \<or> b_TargetSnapshotDigest b = [] \<or> b_IntentDigest b = []
     \<or> b_PolicyVersion b = [] \<or> b_Tool b = []"

definition new_record :: "string \<Rightarrow> timestamp \<Rightarrow> Binding \<Rightarrow> duration \<Rightarrow> Record" where
  "new_record i now b ttl =
     \<lparr>r_ID = i, r_Binding = b, r_Status = Pending, r_Reason = [], r_CreatedAt = now,
      r_ExpiresAt = now + (if ttl \<le> 0 then 10 * minute else ttl), r_ResolvedAt = 0, r_ConsumedAt = 0\<rparr>"

definition Create :: "string \<Rightarrow> timestamp \<Rightarrow> Binding \<Rightarrow> duration \<Rightarrow> approvals \<Rightarrow> Record result \<times> approvals" where
  "Create i now b ttl s =
     (case syscall s of (ok, s) \<Rightarrow>
        if \<not> ok then (Inl EIO, s)
        else if incomplete b then (Inl (ErrorNew ''approval binding is incomplete''), s)
        else let r = new_record i now b ttl in
          (case save r s of (Inl e, s) \<Rightarrow> (Inl e, s) | (Inr _, s) \<Rightarrow> (Inr r, s)))"

definition expire :: "timestamp \<Rightarrow> timestamp \<Rightarrow> Record \<Rightarrow> approvals \<Rightarrow> Record result \<times> approvals" where
  "expire now now' r s =
     (if r_Status r \<noteq> Pending \<or> now < r_ExpiresAt r then (Inr r, s)
      else let r = r\<lparr>r_Status := Expired, r_ResolvedAt := now'\<rparr> in
        (case save r s of (Inl e, s) \<Rightarrow> (Inl e, s) | (Inr _, s) \<Rightarrow> (Inr r, s)))"

definition Get :: "string \<Rightarrow> timestamp \<Rightarrow> timestamp \<Rightarrow> approvals \<Rightarrow> Record result \<times> approvals" where
  "Get i now now' s =
     (case syscall s of (ok, s) \<Rightarrow>
        if \<not> ok then (Inl EIO, s)
        else case validID i of Inl e \<Rightarrow> (Inl e, s)
          | Inr _ \<Rightarrow> (case load i s of (Inl e, s) \<Rightarrow> (Inl e, s) | (Inr r, s) \<Rightarrow> expire now now' r s))"

text \<open>The body of the loop of \<open>List\<close> over the directory entries (name, is it a directory); \<open>clk\<close> gives the two
  clock readings made for an entry.\<close>

fun list_entries :: "(string \<Rightarrow> timestamp \<times> timestamp) \<Rightarrow> (string \<times> bool) list \<Rightarrow> Record list \<Rightarrow> approvals \<Rightarrow> Record list result \<times> approvals" where
  "list_entries clk [] out s = (Inr out, s)"
| "list_entries clk ((name, isDir) # es) out s =
     (if isDir \<or> \<not> suffix ''.json'' name then list_entries clk es out s
      else case syscall s of (ok, s) \<Rightarrow>
        if \<not> ok then (Inl EIO, s)
        else (case load (TrimSuffix name ''.json'') s of
            (Inl e, s) \<Rightarrow> (Inl e, s)
          | (Inr r, s) \<Rightarrow> (case expire (fst (clk name)) (snd (clk name)) r s of
                (Inl e, s) \<Rightarrow> (Inl e, s)
              | (Inr r, s) \<Rightarrow> list_entries clk es (out @ [r]) s)))"

definition List :: "(string \<Rightarrow> timestamp \<times> timestamp) \<Rightarrow> (string \<times> bool) list \<Rightarrow> approvals \<Rightarrow> Record list result \<times> approvals" where
  "List clk entries s =
     (case calls 2 s of (ok, s) \<Rightarrow>
        if \<not> ok then (Inl EIO, s)
        else (case list_entries clk entries [] s of
            (Inl e, s) \<Rightarrow> (Inl e, s)
          | (Inr out, s) \<Rightarrow> (Inr (sort_key (\<lambda>r. - r_CreatedAt r) out), s)))"

definition Resolve :: "string \<Rightarrow> timestamp \<Rightarrow> bool \<Rightarrow> string \<Rightarrow> approvals \<Rightarrow> Record result \<times> approvals" where
  "Resolve i now approve reason s =
     (case syscall s of (ok, s) \<Rightarrow>
        if \<not> ok then (Inl EIO, s)
        else (case load i s of
            (Inl e, s) \<Rightarrow> (Inl e, s)
          | (Inr r, s) \<Rightarrow>
              if \<not> now < r_ExpiresAt r then
                (case save (r\<lparr>r_Status := Expired, r_ResolvedAt := now\<rparr>) s of (_, s) \<Rightarrow>
                   (Inl (ErrorNew ''approval expired''), s))
              else let desired = (if approve then Approved else Rejected) in
                if r_Status r = desired then (Inr r, s)
                else if r_Status r \<noteq> Pending then
                  (Inl (ErrorNew (''approval is '' @ status_text (r_Status r))), s)
                else let r = r\<lparr>r_Status := desired, r_Reason := TrimSpace reason, r_ResolvedAt := now\<rparr> in
                  (case save r s of (Inl e, s) \<Rightarrow> (Inl e, s) | (Inr _, s) \<Rightarrow> (Inr r, s))))"

definition Validate :: "string \<Rightarrow> timestamp \<Rightarrow> Binding \<Rightarrow> approvals \<Rightarrow> unit result \<times> approvals" where
  "Validate i now b s =
     (case load i s of
        (Inl e, s) \<Rightarrow> (Inl e, s)
      | (Inr r, s) \<Rightarrow>
          if now > r_ExpiresAt r then (Inl (ErrorNew ''approval expired''), s)
          else if r_Status r \<noteq> Approved then (Inl (ErrorNew (''approval is '' @ status_text (r_Status r))), s)
          else if r_Binding r \<noteq> b then (Inl (ErrorNew ''approval binding mismatch''), s)
          else (Inr (), s))"

definition Consume :: "string \<Rightarrow> timestamp \<Rightarrow> timestamp \<Rightarrow> Binding \<Rightarrow> approvals \<Rightarrow> unit result \<times> approvals" where
  "Consume i now now' b s =
     (case load i s of
        (Inl e, s) \<Rightarrow> (Inl e, s)
      | (Inr r, s) \<Rightarrow>
          if now > r_ExpiresAt r then (Inl (ErrorNew ''approval expired''), s)
          else if r_Status r \<noteq> Approved then (Inl (ErrorNew (''approval is '' @ status_text (r_Status r))), s)
          else if r_Binding r \<noteq> b then (Inl (ErrorNew ''approval binding mismatch''), s)
          else save (r\<lparr>r_Status := Consumed, r_ConsumedAt := now'\<rparr>) s)"

subsection \<open>What each operation writes\<close>

text \<open>The document an operation puts in place of a loaded record, \<open>None\<close> when it writes nothing.\<close>

definition resolve_writes :: "timestamp \<Rightarrow> bool \<Rightarrow> string \<Rightarrow> Record \<Rightarrow> Record option" where
  "resolve_writes now approve reason r =
     (if \<not> now < r_ExpiresAt r then Some (r\<lparr>r_Status := Expired, r_ResolvedAt := now\<rparr>)
      else if r_Status r = Pending then
        Some (r\<lparr>r_Status := if approve then Approved else Rejected, r_Reason := TrimSpace reason, r_ResolvedAt := now\<rparr>)
      else None)"

definition expire_writes :: "timestamp \<Rightarrow> timestamp \<Rightarrow> Record \<Rightarrow> Record option" where
  "expire_writes now now' r =
     (if r_Status r = Pending \<and> \<not> now < r_ExpiresAt r then Some (r\<lparr>r_Status := Expired, r_ResolvedAt := now'\<rparr>) else None)"

definition consume_writes :: "timestamp \<Rightarrow> timestamp \<Rightarrow> Binding \<Rightarrow> Record \<Rightarrow> Record option" where
  "consume_writes now now' b r =
     (if now \<le> r_ExpiresAt r \<and> r_Status r = Approved \<and> r_Binding r = b
      then Some (r\<lparr>r_Status := Consumed, r_ConsumedAt := now'\<rparr>) else None)"

lemmas writes_defs = resolve_writes_def expire_writes_def consume_writes_def

text \<open>\<open>updates s i f s'\<close>: the files of \<open>s'\<close> are those of \<open>s\<close>, possibly with the record \<open>i\<close> replaced as \<open>f\<close> says.\<close>

definition updates :: "approvals \<Rightarrow> string \<Rightarrow> (Record \<Rightarrow> Record option) \<Rightarrow> approvals \<Rightarrow> bool" where
  "updates s i f s' \<longleftrightarrow> files s' = files s \<or>
     (\<exists>r r'. validID i = Inr () \<and> files s (approval_path i) = Some (Valid r) \<and> f r = Some r'
        \<and> files s' = (files s)(approval_path (r_ID r') \<mapsto> Valid r'))"

lemma load_cases:
  assumes "load i s = (x, s')"
  obtains (bad) e where "x = Inl e" "files s' = files s"
  | (found) r where "x = Inr r" "validID i = Inr ()" "files s (approval_path i) = Some (Valid r)" "files s' = files s"
proof (cases "validID i")
  case (Inl e)
  with assms bad show ?thesis by (auto simp: load_def)
next
  case (Inr u)
  from assms Inr obtain f where f: "read_file (approval_path i) s = (f, s')" "x = decode f"
    by (auto simp: load_def split: prod.splits)
  note fs = read_file_files [OF f(1)]
  show ?thesis
  proof (cases x)
    case (Inr r)
    with f have "files s (approval_path i) = Some (Valid r)" by (metis decode_Inr read_file_Inr)
    with Inr \<open>validID i = Inr u\<close> fs show ?thesis by (intro found) auto
  qed (use fs bad in auto)
qed

lemma updates_refl: "files s' = files s \<Longrightarrow> updates s i f s'"
  by (simp add: updates_def)

lemma save_updates:
  assumes "save r' s1 = (x, s')" "files s1 = files s" "validID i = Inr ()"
    and "files s (approval_path i) = Some (Valid r)" "f r = Some r'"
  shows "updates s i f s'"
  using store.save_old_or_new [OF assms(1)] assms(2-) unfolding updates_def by metis

lemma Resolve_updates:
  assumes "Resolve i now a rs s = (x, s')"
  shows "updates s i (resolve_writes now a rs) s'"
proof -
  obtain ok s1 where s1: "syscall s = (ok, s1)" "files s1 = files s" by (metis syscall_files surj_pair)
  obtain y s2 where l: "load i s1 = (y, s2)" by (metis surj_pair)
  show ?thesis
  proof (cases ok)
    case True
    from l show ?thesis
    proof (cases rule: load_cases)
      case (found r)
      with True s1 l assms show ?thesis
        by (auto simp: Resolve_def resolve_writes_def Let_def split: if_splits prod.splits sum.splits
            intro: updates_refl save_updates)
    qed (use True s1 l assms in \<open>auto simp: Resolve_def intro: updates_refl\<close>)
  qed (use s1 assms in \<open>auto simp: Resolve_def intro: updates_refl\<close>)
qed

lemma expire_updates:
  assumes "expire now now' r s1 = (x, s')" "files s1 = files s" "validID i = Inr ()" "files s (approval_path i) = Some (Valid r)"
  shows "updates s i (expire_writes now now') s'"
  using assms
  by (auto simp: expire_def expire_writes_def Let_def split: if_splits prod.splits sum.splits
      intro: updates_refl save_updates)

lemma Get_updates:
  assumes "Get i now now' s = (x, s')"
  shows "updates s i (expire_writes now now') s'"
proof -
  obtain ok s1 where s1: "syscall s = (ok, s1)" "files s1 = files s" by (metis syscall_files surj_pair)
  obtain y s2 where l: "load i s1 = (y, s2)" by (metis surj_pair)
  show ?thesis
  proof (cases "ok \<and> validID i = Inr ()")
    case True
    from l show ?thesis
    proof (cases rule: load_cases)
      case (found r)
      with True s1 l assms show ?thesis
        by (auto simp: Get_def intro: expire_updates)
    qed (use True s1 l assms in \<open>auto simp: Get_def intro: updates_refl\<close>)
  qed (use s1 assms in \<open>auto simp: Get_def split: if_splits sum.splits intro: updates_refl\<close>)
qed

lemma Consume_updates:
  assumes "Consume i now now' b s = (x, s')"
  shows "updates s i (consume_writes now now' b) s'"
proof -
  obtain y s2 where l: "load i s = (y, s2)" by (metis surj_pair)
  from l show ?thesis
  proof (cases rule: load_cases)
    case (found r)
    with l assms show ?thesis
      by (auto simp: Consume_def consume_writes_def split: if_splits
          intro: updates_refl save_updates)
  qed (use l assms in \<open>auto simp: Consume_def intro: updates_refl\<close>)
qed

lemma Consume_ok:
  assumes "Consume i now now' b s = (Inr u, s')"
  obtains r r' where "validID i = Inr ()" "files s (approval_path i) = Some (Valid r)"
    "consume_writes now now' b r = Some r'" "files s' = (files s)(approval_path (r_ID r') \<mapsto> Valid r')"
proof -
  obtain y s2 where l: "load i s = (y, s2)" by (metis surj_pair)
  from l show ?thesis
  proof (cases rule: load_cases)
    case (found r)
    with l assms have c: "now \<le> r_ExpiresAt r \<and> r_Status r = Approved \<and> r_Binding r = b"
      and sv: "save (r\<lparr>r_Status := Consumed, r_ConsumedAt := now'\<rparr>) s2 = (Inr u, s')"
      by (auto simp: Consume_def split: if_splits)
    from store.save_done [OF sv] c found show ?thesis
      by (intro that [of r "r\<lparr>r_Status := Consumed, r_ConsumedAt := now'\<rparr>"]) (auto simp: consume_writes_def)
  qed (use l assms in \<open>simp add: Consume_def\<close>)
qed

lemma Validate_reads: "Validate i now b s = (x, s') \<Longrightarrow> files s' = files s"
  by (cases "load i s") (auto simp: Validate_def elim!: load_cases split: if_splits sum.splits)

lemma Validate_ok:
  assumes "Validate i now b s = (Inr u, s')"
  shows "\<exists>r. validID i = Inr () \<and> files s (approval_path i) = Some (Valid r)
    \<and> now \<le> r_ExpiresAt r \<and> r_Status r = Approved \<and> r_Binding r = b"
proof -
  obtain y s2 where l: "load i s = (y, s2)" by (metis surj_pair)
  from l show ?thesis
  by (cases rule: load_cases) (use l assms in \<open>auto simp: Validate_def split: if_splits\<close>)
qed

lemma writes_keep:
  "resolve_writes now a rs r = Some r' \<Longrightarrow> r_ID r' = r_ID r \<and> r_Binding r' = r_Binding r \<and> r_ExpiresAt r' = r_ExpiresAt r \<and> r_Status r' \<noteq> Consumed"
  "expire_writes now now' r = Some r' \<Longrightarrow> r_ID r' = r_ID r \<and> r_Binding r' = r_Binding r \<and> r_ExpiresAt r' = r_ExpiresAt r \<and> r_Status r' = Expired"
  "consume_writes now now' b r = Some r' \<Longrightarrow> r_ID r' = r_ID r \<and> r_Binding r' = r_Binding r \<and> r_ExpiresAt r' = r_ExpiresAt r \<and> r_Status r' = Consumed"
  by (auto simp: writes_defs split: if_splits)

subsection \<open>Two processes on one directory\<close>

text \<open>
  The mutex of a \<open>Store\<close> serialises the operations of one process only. The API server and the privileged
  executor have a \<open>Store\<close> each on the same directory, so an operation of one process can run between the load
  and the rename of an operation of the other. A state has the files, for each process the document its current
  operation is about to rename into place, and the log of all documents written, newest first. An
  operation that fails before the rename (an I/O error, a crash) is an \<open>abort\<close>.
\<close>

record approval_world =
  w_files :: "string \<rightharpoonup> Record doc"
  w_server :: "Record option"
  w_exec :: "Record option"
  w_log :: "Record list"

definition init_world :: approval_world where
  "init_world = \<lparr>w_files = Map.empty, w_server = None, w_exec = None, w_log = []\<rparr>"

definition written :: "Record \<Rightarrow> approval_world \<Rightarrow> approval_world" where
  "written r w = w\<lparr>w_files := (w_files w)(approval_path (r_ID r) \<mapsto> Valid r), w_log := r # w_log w\<rparr>"

inductive approval_step :: "approval_world \<Rightarrow> approval_world \<Rightarrow> bool" where
  create: "w_server w = None \<Longrightarrow> w_files w (approval_path i) = None \<Longrightarrow> \<not> incomplete b
    \<Longrightarrow> approval_step w (w\<lparr>w_server := Some (new_record i now b ttl)\<rparr>)"
| resolve: "w_server w = None \<Longrightarrow> w_files w (approval_path i) = Some (Valid r) \<Longrightarrow> resolve_writes now a rs r = Some r'
    \<Longrightarrow> approval_step w (w\<lparr>w_server := Some r'\<rparr>)"
| expire: "w_server w = None \<Longrightarrow> w_files w (approval_path i) = Some (Valid r) \<Longrightarrow> expire_writes now now' r = Some r'
    \<Longrightarrow> approval_step w (w\<lparr>w_server := Some r'\<rparr>)"
| server_rename: "w_server w = Some r \<Longrightarrow> approval_step w ((written r w)\<lparr>w_server := None\<rparr>)"
| server_abort: "approval_step w (w\<lparr>w_server := None\<rparr>)"
| consume: "w_exec w = None \<Longrightarrow> w_files w (approval_path i) = Some (Valid r) \<Longrightarrow> consume_writes now now' b r = Some r'
    \<Longrightarrow> approval_step w (w\<lparr>w_exec := Some r'\<rparr>)"
| exec_rename: "w_exec w = Some r \<Longrightarrow> approval_step w ((written r w)\<lparr>w_exec := None\<rparr>)"
| exec_abort: "approval_step w (w\<lparr>w_exec := None\<rparr>)"

inductive_cases approval_stepE: "approval_step w w'"

definition approval_reachable :: "approval_world \<Rightarrow> bool" where
  "approval_reachable w \<longleftrightarrow> approval_step\<^sup>*\<^sup>* init_world w"

text \<open>The specification of the log: a record starts pending, is decided only while it is pending, is consumed
  at most once and only after it was approved, and never changes its binding or its expiry.\<close>

definition follows :: "Record list \<Rightarrow> Record \<Rightarrow> bool" where
  "follows l r \<longleftrightarrow> (let h = filter (\<lambda>x. r_ID x = r_ID r) l; st = map r_Status h in
     list_all (\<lambda>x. r_Binding x = r_Binding r \<and> r_ExpiresAt x = r_ExpiresAt r) h
     \<and> (case r_Status r of
          Pending \<Rightarrow> h = []
        | Approved \<Rightarrow> list_all (\<lambda>t. t = Pending) st
        | Rejected \<Rightarrow> list_all (\<lambda>t. t = Pending) st
        | Consumed \<Rightarrow> Approved \<in> set st \<and> Consumed \<notin> set st
        | Expired \<Rightarrow> h \<noteq> []
        | OtherStatus _ \<Rightarrow> False))"

fun lawful :: "Record list \<Rightarrow> bool" where
  "lawful [] = True"
| "lawful (r # l) \<longleftrightarrow> follows l r \<and> lawful l"

definition latest :: "string \<Rightarrow> Record list \<Rightarrow> Record option" where
  "latest i l = find (\<lambda>r. r_ID r = i) l"

definition approval_inv :: "approval_world \<Rightarrow> bool" where
  "approval_inv w \<longleftrightarrow> lawful (w_log w)
     \<and> (\<forall>r. w_server w = Some r \<longrightarrow> lawful (r # w_log w) \<and> r_Status r \<noteq> Consumed)
     \<and> (\<forall>r. w_exec w = Some r \<longrightarrow> lawful (r # w_log w) \<and> r_Status r = Consumed)
     \<and> (\<forall>i. w_files w (approval_path i) = map_option Valid (latest i (w_log w)))"

lemma latest_simps [simp]: "latest i [] = None" "latest i (r # l) = (if r_ID r = i then Some r else latest i l)"
  by (simp_all add: latest_def)

lemma latest_in: "latest i l = Some r \<Longrightarrow> r \<in> set l \<and> r_ID r = i"
  by (auto simp: latest_def find_Some_iff)

lemma latest_None: "latest i l = None \<longleftrightarrow> (\<forall>r \<in> set l. r_ID r \<noteq> i)"
  by (auto simp: latest_def find_None_iff)

abbreviation history :: "string \<Rightarrow> Record list \<Rightarrow> Record list" where
  "history i l \<equiv> filter (\<lambda>x. r_ID x = i) l"

lemma latest_history: "latest i l = (case history i l of [] \<Rightarrow> None | r # _ \<Rightarrow> Some r)"
  by (induction l) auto

lemma follows_same:
  "follows l r \<Longrightarrow> x \<in> set l \<Longrightarrow> r_ID x = r_ID r \<Longrightarrow> r_Binding x = r_Binding r \<and> r_ExpiresAt x = r_ExpiresAt r"
  by (auto simp: follows_def Let_def list_all_iff)

lemma follows_approved:
  assumes "follows l c" "r_Status c = Consumed"
  obtains a where "a \<in> set l" "r_ID a = r_ID c" "r_Status a = Approved"
  using assms by (auto simp: follows_def Let_def)

lemma lawful_same:
  "lawful l \<Longrightarrow> latest i l = Some r \<Longrightarrow> x \<in> set l \<Longrightarrow> r_ID x = i
    \<Longrightarrow> r_Binding x = r_Binding r \<and> r_ExpiresAt x = r_ExpiresAt r"
proof (induction l)
  case (Cons y l)
  then show ?case using follows_same [of l y x] by (auto split: if_splits)
qed simp

lemma lawful_pending:
  "lawful l \<Longrightarrow> latest i l = Some r \<Longrightarrow> r_Status r = Pending \<Longrightarrow> history i l = [r]"
  by (induction l) (auto simp: follows_def Let_def split: if_splits)

lemma lawful_approved:
  "lawful l \<Longrightarrow> latest i l = Some r \<Longrightarrow> r_Status r = Approved
    \<Longrightarrow> \<exists>h. history i l = r # h \<and> list_all (\<lambda>x. r_Status x = Pending) h"
proof (induction l)
  case (Cons y l)
  then show ?case
    by (cases "r_ID y = i") (auto simp: follows_def Let_def list_all_iff)
qed simp

lemma lawful_update:
  assumes l: "lawful l" "latest i l = Some r"
    and keep: "r_ID r' = r_ID r" "r_Binding r' = r_Binding r" "r_ExpiresAt r' = r_ExpiresAt r"
    and trans: "r_Status r' = Expired \<or> r_Status r' \<in> {Approved, Rejected} \<and> r_Status r = Pending
      \<or> r_Status r' = Consumed \<and> r_Status r = Approved"
  shows "lawful (r' # l)"
proof -
  have r: "r \<in> set l" "r_ID r = i" using latest_in [OF l(2)] by auto
  have same: "list_all (\<lambda>x. r_Binding x = r_Binding r' \<and> r_ExpiresAt x = r_ExpiresAt r') (history i l)"
    using lawful_same [OF l] keep by (auto simp: list_all_iff)
  have ne: "history i l \<noteq> []" using r by (auto simp: filter_empty_conv)
  have "follows l r'" unfolding follows_def Let_def
    using same ne lawful_approved [OF l] lawful_pending [OF l] keep r(2) trans
    by (auto simp: list_all_iff simp del: set_filter)
  with l show ?thesis by simp
qed

lemma consumed_not_open:
  assumes "follows l r" "follows l c" "r_Status c = Consumed" "r_Status r \<noteq> Consumed" "r_ID r = r_ID c"
  shows "r_Status r = Expired \<and> r_Binding r = r_Binding c \<and> r_ExpiresAt r = r_ExpiresAt c"
proof -
  from assms(2,3) obtain a where a: "a \<in> set l" "r_ID a = r_ID c" "r_Status a = Approved"
    by (rule follows_approved)
  from follows_same [OF assms(1) a(1)] follows_same [OF assms(2) a(1)] a(2) assms(5)
  have "r_Binding r = r_Binding c \<and> r_ExpiresAt r = r_ExpiresAt c" by simp
  moreover have "r_Status r = Expired"
    using assms(1,4,5) a by (auto simp: follows_def Let_def list_all_iff filter_empty_conv split: Status.splits)
  ultimately show ?thesis by simp
qed

lemma lawful_interleave:
  assumes "lawful (r # l)" "r_Status r \<noteq> Consumed" "lawful (c # l)" "r_Status c = Consumed"
  shows "lawful (c # r # l)" "lawful (r # c # l)"
proof -
  have f: "follows l r" "follows l c" "lawful l" using assms by auto
  have "follows (r # l) c \<and> follows (c # l) r"
  proof (cases "r_ID r = r_ID c")
    case True
    from consumed_not_open [OF f(1,2) assms(4,2) True] f True assms(4) show ?thesis
      by (auto simp: follows_def Let_def)
  next
    case False
    then have "follows (r # l) c = follows l c" "follows (c # l) r = follows l r"
      by (auto simp: follows_def Let_def)
    with f show ?thesis by simp
  qed
  with f show "lawful (c # r # l)" "lawful (r # c # l)" by auto
qed

lemma approval_path_inj [simp]: "approval_path i = approval_path j \<longleftrightarrow> i = j"
  by (simp add: approval_path_def)

lemma written_inv:
  assumes "w_files w (approval_path i) = map_option Valid (latest i (w_log w))"
  shows "w_files (written r w) (approval_path i) = map_option Valid (latest i (w_log (written r w)))"
  using assms by (simp add: written_def)

lemma approval_step_inv:
  assumes "approval_step w w'" "approval_inv w"
  shows "approval_inv w'"
  using assms(1)
proof cases
  case (create i b now ttl)
  with assms(2) have "latest i (w_log w) = None" by (auto simp: approval_inv_def)
  with create assms(2) show ?thesis by (auto simp: approval_inv_def follows_def Let_def new_record_def latest_None filter_empty_conv)
next
  case (resolve i r now a rs r')
  with assms(2) have l: "lawful (w_log w)" "latest i (w_log w) = Some r" by (auto simp: approval_inv_def)
  have "lawful (r' # w_log w)"
    using resolve writes_keep(1) [OF resolve(4)] by (intro lawful_update [OF l]) (auto simp: writes_defs split: if_splits)
  with resolve assms(2) writes_keep(1) [OF resolve(4)] show ?thesis by (simp add: approval_inv_def)
next
  case (expire i r now now' r')
  with assms(2) have l: "lawful (w_log w)" "latest i (w_log w) = Some r" by (auto simp: approval_inv_def)
  have "lawful (r' # w_log w)"
    using expire writes_keep(2) [OF expire(4)] by (intro lawful_update [OF l]) auto
  with expire assms(2) writes_keep(2) [OF expire(4)] show ?thesis by (simp add: approval_inv_def)
next
  case (consume i r now now' b r')
  with assms(2) have l: "lawful (w_log w)" "latest i (w_log w) = Some r" by (auto simp: approval_inv_def)
  have "lawful (r' # w_log w)"
    using consume writes_keep(3) [OF consume(4)] by (intro lawful_update [OF l]) (auto simp: writes_defs split: if_splits)
  with consume assms(2) writes_keep(3) [OF consume(4)] show ?thesis by (simp add: approval_inv_def)
next
  case (server_rename r)
  with assms(2) lawful_interleave(1) [of r "w_log w"] show ?thesis
    by (auto simp: approval_inv_def written_def)
next
  case (exec_rename r)
  with assms(2) lawful_interleave(2) [of _ "w_log w" r] show ?thesis
    by (auto simp: approval_inv_def written_def)
qed (use assms(2) in \<open>auto simp: approval_inv_def\<close>)

lemma approval_reachable_inv: "approval_reachable w \<Longrightarrow> approval_inv w"
  unfolding approval_reachable_def
proof (induction rule: rtranclp_induct)
  case base
  show ?case by (simp add: approval_inv_def init_world_def)
qed (rule approval_step_inv)

lemma lawful_append: "lawful (xs @ ys) \<Longrightarrow> lawful ys"
  by (induction xs) auto

lemma lawful_consumed_unique:
  "lawful l \<Longrightarrow> length (filter (\<lambda>r. r_Status r = Consumed) (history i l)) \<le> 1"
proof (induction l)
  case (Cons r l)
  have "filter (\<lambda>r. r_Status r = Consumed) (history i l) = []" if "r_ID r = i" "r_Status r = Consumed"
    using Cons.prems that by (auto simp: follows_def Let_def filter_empty_conv image_iff)
  with Cons show ?case by auto
qed simp

lemma lawful_consumed_closed:
  assumes "lawful l" "c \<in> set l" "r_Status c = Consumed" "latest (r_ID c) l = Some r"
  shows "r_Status r \<noteq> Pending \<and> r_Status r \<noteq> Approved"
proof -
  have c: "c \<in> set (history (r_ID c) l)" using assms(2) by simp
  show ?thesis
    using lawful_pending [OF assms(1,4)] lawful_approved [OF assms(1,4)] c assms(3)
    by (auto simp: list_all_iff simp del: set_filter)
qed

lemma approval_step_log: "approval_step w w' \<Longrightarrow> suffix (w_log w) (w_log w')"
  by (auto elim!: approval_stepE simp: written_def suffix_def)

lemma approval_steps_log: "approval_step\<^sup>*\<^sup>* w w' \<Longrightarrow> suffix (w_log w) (w_log w')"
  by (induction rule: rtranclp_induct) (auto dest: approval_step_log intro: suffix_order.order_trans)

subsection \<open>The operations are runs of the step relation\<close>

lemma Create_steps:
  assumes "Create i now b ttl s = (x, s')" "w_files w = files s" "files s (approval_path i) = None" "w_server w = None"
  shows "\<exists>w'. approval_step\<^sup>*\<^sup>* w w' \<and> w_files w' = files s' \<and> w_server w' = None \<and> w_exec w' = w_exec w"
proof -
  let ?r = "new_record i now b ttl"
  from assms(1) have "files s' = files s \<or> \<not> incomplete b \<and> files s' = (files s)(approval_path i \<mapsto> Valid ?r)"
    by (auto simp: Create_def new_record_def Let_def split: prod.splits if_splits sum.splits
        dest!: syscall_files store.save_old_or_new)
  then show ?thesis
  proof
    assume c: "\<not> incomplete b \<and> files s' = (files s)(approval_path i \<mapsto> Valid ?r)"
    let ?w1 = "w\<lparr>w_server := Some ?r\<rparr>" and ?w2 = "(written ?r (w\<lparr>w_server := Some ?r\<rparr>))\<lparr>w_server := None\<rparr>"
    have "approval_step w ?w1" using assms c by (intro create) auto
    moreover have "approval_step ?w1 ?w2" by (intro server_rename) simp
    ultimately have "approval_step\<^sup>*\<^sup>* w ?w2" by simp
    with c assms show ?thesis by (intro exI [of _ ?w2]) (simp add: written_def new_record_def)
  qed (use assms in auto)
qed

lemma server_update_steps:
  assumes "updates s i f s'" "w_files w = files s" "w_server w = None"
    and step: "\<And>r r'. files s (approval_path i) = Some (Valid r) \<Longrightarrow> f r = Some r' \<Longrightarrow> approval_step w (w\<lparr>w_server := Some r'\<rparr>)"
  shows "\<exists>w'. approval_step\<^sup>*\<^sup>* w w' \<and> w_files w' = files s' \<and> w_server w' = None \<and> w_exec w' = w_exec w"
  using assms(1) unfolding updates_def
proof (elim disjE exE conjE)
  fix r r' assume u: "files s (approval_path i) = Some (Valid r)" "f r = Some r'"
    "files s' = (files s)(approval_path (r_ID r') \<mapsto> Valid r')"
  let ?w2 = "(written r' (w\<lparr>w_server := Some r'\<rparr>))\<lparr>w_server := None\<rparr>"
  have "approval_step (w\<lparr>w_server := Some r'\<rparr>) ?w2" by (intro server_rename) simp
  with step [OF u(1,2)] have "approval_step\<^sup>*\<^sup>* w ?w2" by simp
  with u assms show ?thesis by (intro exI [of _ ?w2]) (simp add: written_def)
qed (use assms in auto)

lemma Resolve_steps:
  assumes "Resolve i now a rs s = (x, s')" "w_files w = files s" "w_server w = None"
  shows "\<exists>w'. approval_step\<^sup>*\<^sup>* w w' \<and> w_files w' = files s' \<and> w_server w' = None \<and> w_exec w' = w_exec w"
  using Resolve_updates [OF assms(1)] assms(2,3)
  by (rule server_update_steps) (use assms in \<open>auto intro: resolve\<close>)

lemma Get_steps:
  assumes "Get i now now' s = (x, s')" "w_files w = files s" "w_server w = None"
  shows "\<exists>w'. approval_step\<^sup>*\<^sup>* w w' \<and> w_files w' = files s' \<and> w_server w' = None \<and> w_exec w' = w_exec w"
  using Get_updates [OF assms(1)] assms(2,3)
  by (rule server_update_steps) (use assms in \<open>auto intro: approval_step.expire\<close>)

lemma list_entries_steps:
  assumes "list_entries clk es out s = (x, s')" "w_files w = files s" "w_server w = None"
  shows "\<exists>w'. approval_step\<^sup>*\<^sup>* w w' \<and> w_files w' = files s' \<and> w_server w' = None \<and> w_exec w' = w_exec w"
  using assms
proof (induction clk es out s arbitrary: w rule: list_entries.induct)
  case (2 clk name isDir es out s)
  let ?i = "TrimSuffix name ''.json''"
  obtain ok s1 where s1: "syscall s = (ok, s1)" "files s1 = files s" by (metis syscall_files surj_pair)
  obtain y s2 where l: "load ?i s1 = (y, s2)" by (metis surj_pair)
  show ?case
  proof (cases "isDir \<or> \<not> suffix ''.json'' name")
    case False
    note go = False
    from l show ?thesis
    proof (cases rule: load_cases)
      case (found r)
      obtain z s3 where e: "expire (fst (clk name)) (snd (clk name)) r s2 = (z, s3)" by (metis surj_pair)
      have "updates s ?i (expire_writes (fst (clk name)) (snd (clk name))) s3"
        using expire_updates [OF e] found s1 by simp
      then have "\<exists>w'. approval_step\<^sup>*\<^sup>* w w' \<and> w_files w' = files s3 \<and> w_server w' = None \<and> w_exec w' = w_exec w"
        using "2.prems"(2,3)
        by (rule server_update_steps) (use "2.prems" in \<open>auto intro: approval_step.expire\<close>)
      then obtain w1 where w1: "approval_step\<^sup>*\<^sup>* w w1" "w_files w1 = files s3" "w_server w1 = None" "w_exec w1 = w_exec w"
        by blast
      show ?thesis
      proof (cases "ok \<and> is_ok z")
        case True
        then obtain r' where z: "z = Inr r'" by (auto simp: is_ok_iff)
        with True go found l s1 e "2.prems"(1) have "list_entries clk es (out @ [r']) s3 = (x, s')" by simp
        from "2.IH"(2) [OF go s1(1) [symmetric] _ l [symmetric] found(1) e [symmetric] z this w1(2,3)] True w1
        show ?thesis by (metis rtranclp_trans)
      next
        case False
        with go found l s1 e "2.prems" w1 have "s' = s1 \<or> s' = s3"
          by (cases z) (auto split: if_splits)
        with s1 "2.prems" w1 show ?thesis by (metis rtranclp.rtrancl_refl)
      qed
    qed (use go s1 l "2.prems" in \<open>auto split: if_splits\<close>)
  qed (use "2.IH"(1) "2.prems" in auto)
qed auto

lemma List_steps:
  assumes "List clk es s = (x, s')" "w_files w = files s" "w_server w = None"
  shows "\<exists>w'. approval_step\<^sup>*\<^sup>* w w' \<and> w_files w' = files s' \<and> w_server w' = None \<and> w_exec w' = w_exec w"
proof -
  obtain ok s1 where s1: "calls 2 s = (ok, s1)" "files s1 = files s" by (metis calls_files surj_pair)
  obtain y s2 where l: "list_entries clk es [] s1 = (y, s2)" by (metis surj_pair)
  from s1 l assms(1) have "\<not> ok \<and> s' = s1 \<or> ok \<and> s' = s2"
    by (auto simp: List_def split: sum.splits if_splits)
  with list_entries_steps [OF l, of w] s1(2) assms(2,3) show ?thesis by auto
qed

lemma Consume_steps:
  assumes "Consume i now now' b s = (Inr u, s')" "w_files w = files s" "w_exec w = None"
  shows "\<exists>r'. approval_step\<^sup>*\<^sup>* w (written r' w) \<and> files s' = w_files (written r' w)
    \<and> r_Status r' = Consumed \<and> r_Binding r' = b \<and> (approval_inv w \<longrightarrow> r_ID r' = i)"
  using assms(1)
proof (rule Consume_ok)
  fix r r' assume c: "validID i = Inr ()" "files s (approval_path i) = Some (Valid r)"
    "consume_writes now now' b r = Some r'" "files s' = (files s)(approval_path (r_ID r') \<mapsto> Valid r')"
  let ?w1 = "w\<lparr>w_exec := Some r'\<rparr>"
  have "approval_step w ?w1" using assms c by (auto intro: consume)
  moreover have "approval_step ?w1 ((written r' ?w1)\<lparr>w_exec := None\<rparr>)" by (intro exec_rename) simp
  moreover have "(written r' ?w1)\<lparr>w_exec := None\<rparr> = written r' w" using assms(3) by (simp add: written_def)
  ultimately have "approval_step\<^sup>*\<^sup>* w (written r' w)" by simp
  moreover have "r_ID r = i" if "approval_inv w"
    using that c(2) assms(2) latest_in by (fastforce simp: approval_inv_def)
  ultimately show ?thesis using c assms(2) writes_keep(3) [OF c(3)]
    by (intro exI [of _ r']) (auto simp: written_def consume_writes_def split: if_splits)
qed

lemma consumed_closed:
  assumes "approval_inv w" "c \<in> set (w_log w)" "r_Status c = Consumed" "files s = w_files w"
  shows "\<not> is_ok (fst (Consume (r_ID c) t t' b s))"
proof
  assume "is_ok (fst (Consume (r_ID c) t t' b s))"
  then obtain u s' where "Consume (r_ID c) t t' b s = (Inr u, s')" by (auto simp: is_ok_iff prod_eq_iff)
  then show False
  proof (rule Consume_ok)
    fix r r' assume r: "files s (approval_path (r_ID c)) = Some (Valid r)" "consume_writes t t' b r = Some r'"
    with assms have "latest (r_ID c) (w_log w) = Some r" "lawful (w_log w)" by (auto simp: approval_inv_def)
    from lawful_consumed_closed [OF this(2) assms(2,3) this(1)] r(2) show False
      by (simp add: consume_writes_def split: if_splits)
  qed
qed

subsection \<open>Operations on a disk without failures\<close>

lemma healthy_load:
  assumes "healthy s" "validID i = Inr ()" "files s (approval_path i) = Some (Valid r)"
  shows "\<exists>s'. load i s = (Inr r, s') \<and> healthy s' \<and> files s' = files s"
  using healthy_read_file [OF assms(1), of "approval_path i"] assms by (auto simp: load_def)

lemma healthy_Resolve:
  assumes "healthy s" "validID i = Inr ()" "files s (approval_path i) = Some (Valid r)"
  shows "\<exists>x s'. Resolve i now a rs s = (x, s') \<and> healthy s'
    \<and> files s' = (case resolve_writes now a rs r of None \<Rightarrow> files s | Some r' \<Rightarrow> (files s)(approval_path (r_ID r) \<mapsto> Valid r'))
    \<and> (is_ok x \<longleftrightarrow> now < r_ExpiresAt r \<and> r_Status r \<in> {Pending, if a then Approved else Rejected})"
proof -
  obtain s1 where s1: "syscall s = (True, s1)" "healthy s1" "files s1 = files s" using healthy_syscall [OF assms(1)] by blast
  obtain s2 where s2: "load i s1 = (Inr r, s2)" "healthy s2" "files s2 = files s"
    using healthy_load [OF s1(2) assms(2)] s1(3) assms(3) by auto
  have sv: "\<exists>s3. save r' s2 = (Inr (), s3) \<and> healthy s3 \<and> files s3 = (files s)(approval_path (r_ID r') \<mapsto> Valid r')" for r'
    using store.save_healthy [OF s2(2), of r'] s2(3) by simp
  show ?thesis
    using s1 s2 sv [of "r\<lparr>r_Status := Expired, r_ResolvedAt := now\<rparr>"]
      sv [of "r\<lparr>r_Status := if a then Approved else Rejected, r_Reason := TrimSpace rs, r_ResolvedAt := now\<rparr>"]
    by (cases "r_Status r = Pending"; cases "now < r_ExpiresAt r"; cases a) (auto simp: Resolve_def resolve_writes_def Let_def)
qed

lemma healthy_Consume:
  assumes "healthy s" "validID i = Inr ()" "files s (approval_path i) = Some (Valid r)"
    and "now \<le> r_ExpiresAt r" "r_Status r = Approved" "r_Binding r = b"
  shows "\<exists>s'. Consume i now now' b s = (Inr (), s') \<and> healthy s'
    \<and> files s' = (files s)(approval_path (r_ID r) \<mapsto> Valid (r\<lparr>r_Status := Consumed, r_ConsumedAt := now'\<rparr>))"
proof -
  obtain s2 where s2: "load i s = (Inr r, s2)" "healthy s2" "files s2 = files s"
    using healthy_load [OF assms(1-3)] by auto
  from store.save_healthy [OF s2(2), of "r\<lparr>r_Status := Consumed, r_ConsumedAt := now'\<rparr>"] s2 assms(4-)
  show ?thesis by (auto simp: Consume_def)
qed

lemma healthy_Validate:
  assumes "healthy s" "validID i = Inr ()" "files s (approval_path i) = Some (Valid r)"
  shows "\<exists>x s'. Validate i now b s = (x, s') \<and> healthy s' \<and> files s' = files s
    \<and> (is_ok x \<longleftrightarrow> now \<le> r_ExpiresAt r \<and> r_Status r = Approved \<and> r_Binding r = b)"
  using healthy_load [OF assms] by (auto simp: Validate_def)

lemma healthy_Create:
  assumes "healthy s" "\<not> incomplete b"
  shows "\<exists>s'. Create i now b ttl s = (Inr (new_record i now b ttl), s') \<and> healthy s'
    \<and> files s' = (files s)(approval_path i \<mapsto> Valid (new_record i now b ttl))"
proof -
  obtain s1 where s1: "syscall s = (True, s1)" "healthy s1" "files s1 = files s" using healthy_syscall [OF assms(1)] by blast
  from store.save_healthy [OF s1(2), of "new_record i now b ttl"] s1 assms(2) show ?thesis
    by (auto simp: Create_def Let_def new_record_def)
qed

subsection \<open>A concrete run\<close>

definition demo_binding :: Binding where
  "demo_binding = \<lparr>b_TaskID = ''t'', b_ProposalDigest = ''p'', b_TargetSnapshotDigest = ''s'', b_IntentDigest = ''i'',
     b_PolicyVersion = ''v'', b_RiskLevel = L2, b_Tool = ''file.delete'', b_Nonce = ''n''\<rparr>"

definition demo_pending :: "Binding \<Rightarrow> Record" where "demo_pending b = new_record ''a1'' 0 b 10"
definition demo_approved :: "Binding \<Rightarrow> Record" where
  "demo_approved b = (demo_pending b)\<lparr>r_Status := Approved, r_Reason := [], r_ResolvedAt := 2\<rparr>"
definition demo_consumed :: "Binding \<Rightarrow> Record" where
  "demo_consumed b = (demo_approved b)\<lparr>r_Status := Consumed, r_ConsumedAt := 3\<rparr>"

lemmas demo_defs = demo_binding_def demo_pending_def demo_approved_def demo_consumed_def new_record_def

lemma demo_binding_complete: "\<not> incomplete demo_binding"
  by (simp add: incomplete_def demo_binding_def)

definition demo_before :: "Binding \<Rightarrow> approval_world" where
  "demo_before b = \<lparr>w_files = [approval_path ''a1'' \<mapsto> Valid (demo_approved b)], w_server = None, w_exec = None,
     w_log = [demo_approved b, demo_pending b]\<rparr>"
definition demo_world :: "Binding \<Rightarrow> approval_world" where
  "demo_world b = \<lparr>w_files = [approval_path ''a1'' \<mapsto> Valid (demo_consumed b)], w_server = None, w_exec = None,
     w_log = [demo_consumed b, demo_approved b, demo_pending b]\<rparr>"

lemma demo_before_reachable:
  assumes "\<not> incomplete b"
  shows "approval_reachable (demo_before b)"
proof -
  let ?w1 = "init_world\<lparr>w_server := Some (demo_pending b)\<rparr>" and ?w2 = "written (demo_pending b) init_world"
  let ?w3 = "?w2\<lparr>w_server := Some (demo_approved b)\<rparr>"
  have "approval_step init_world ?w1"
    unfolding demo_pending_def by (rule create) (use assms in \<open>auto simp: init_world_def\<close>)
  moreover have "approval_step ?w1 ?w2"
    using server_rename [of ?w1 "demo_pending b"] by (simp add: written_def init_world_def)
  moreover have "approval_step ?w2 ?w3"
    by (rule resolve [of _ "''a1''" "demo_pending b" 2 True "[]"])
      (simp_all add: written_def init_world_def demo_defs resolve_writes_def)
  moreover have "approval_step ?w3 (demo_before b)"
    using server_rename [of ?w3 "demo_approved b"] by (simp add: written_def init_world_def demo_before_def demo_defs)
  ultimately show ?thesis unfolding approval_reachable_def by (meson converse_rtranclp_into_rtranclp r_into_rtranclp)
qed

lemma demo_reachable:
  assumes "\<not> incomplete b"
  shows "approval_reachable (demo_world b)"
proof -
  let ?w1 = "(demo_before b)\<lparr>w_exec := Some (demo_consumed b)\<rparr>"
  have "approval_step (demo_before b) ?w1"
    by (rule consume [of _ "''a1''" "demo_approved b" 3 3 b])
      (simp_all add: demo_before_def demo_defs consume_writes_def)
  moreover have "approval_step ?w1 (demo_world b)"
    using exec_rename [of ?w1 "demo_consumed b"] by (simp add: written_def demo_before_def demo_world_def demo_defs)
  ultimately show ?thesis using demo_before_reachable [OF assms] unfolding approval_reachable_def by auto
qed

subsection \<open>Properties\<close>



text \<open>A successful \<open>Consume\<close> on the files of a reachable state presented the binding of an approved record, and
  from then on, whatever both processes do, every \<open>Consume\<close> of that approval fails, with any binding at any time.\<close>

theorem Consume_success_is_final:
  assumes "approval_reachable w" "files s = w_files w" "w_exec w = None" "Consume i now now' b s = (Inr u, s')"
  shows "\<exists>w'. approval_step\<^sup>*\<^sup>* w w' \<and> w_files w' = files s'
    \<and> (\<exists>a \<in> set (w_log w). r_ID a = i \<and> r_Status a = Approved \<and> r_Binding a = b)
    \<and> (\<forall>w2 s2 t t' b'. approval_step\<^sup>*\<^sup>* w' w2 \<longrightarrow> files s2 = w_files w2 \<longrightarrow> \<not> is_ok (fst (Consume i t t' b' s2)))"
proof -
  note inv = approval_reachable_inv [OF assms(1)]
  from Consume_steps [OF assms(4) assms(2) [symmetric] assms(3)] inv obtain r'
    where r': "approval_step\<^sup>*\<^sup>* w (written r' w)" "files s' = w_files (written r' w)"
      "r_Status r' = Consumed" "r_Binding r' = b" "r_ID r' = i" by blast
  let ?w = "written r' w"
  have reach: "approval_reachable w2" if "approval_step\<^sup>*\<^sup>* ?w w2" for w2
    using assms(1) r'(1) that unfolding approval_reachable_def by (meson rtranclp_trans)
  have "follows (w_log w) r'" using approval_reachable_inv [OF reach [of ?w]] by (simp add: approval_inv_def written_def)
  moreover from this r'(3) obtain a where "a \<in> set (w_log w)" "r_ID a = r_ID r'" "r_Status a = Approved" by (rule follows_approved)
  ultimately have app: "\<exists>a \<in> set (w_log w). r_ID a = i \<and> r_Status a = Approved \<and> r_Binding a = b"
    using follows_same [of "w_log w" r' a] r'(4,5) by auto
  have "\<not> is_ok (fst (Consume i t t' b' s2))" if "approval_step\<^sup>*\<^sup>* ?w w2" "files s2 = w_files w2" for w2 s2 t t' b'
  proof -
    have "r' \<in> set (w_log w2)" using approval_steps_log [OF that(1)] by (auto simp: written_def suffix_def)
    from consumed_closed [OF approval_reachable_inv [OF reach [OF that(1)]] this r'(3) that(2)] r'(5) show ?thesis by simp
  qed
  with r'(1,2) app show ?thesis by (intro exI [of _ ?w]) auto
qed

theorem Consume_success_is_final_witness:
  "\<exists>s'. Consume ''a1'' 3 3 demo_binding (reliable (w_files (demo_before demo_binding))) = (Inr (), s')
     \<and> (\<forall>t t' b'. \<not> is_ok (fst (Consume ''a1'' t t' b' (reliable (files s')))))"
proof -
  have f: "files (reliable (w_files (demo_before demo_binding))) (approval_path ''a1'') = Some (Valid (demo_approved demo_binding))"
    by (simp add: demo_before_def demo_defs)
  have "validID ''a1'' = Inr ()" by (simp add: validID_def)
  from healthy_Consume [OF healthy_reliable(1) this f, of 3 demo_binding 3] obtain s'
    where s': "Consume ''a1'' 3 3 demo_binding (reliable (w_files (demo_before demo_binding))) = (Inr (), s')"
    by (auto simp: demo_defs)
  from Consume_success_is_final [OF demo_before_reachable [OF demo_binding_complete] _ _ s'] obtain w'
    where "w_files w' = files s'"
      "\<forall>w2 s2 t t' b'. approval_step\<^sup>*\<^sup>* w' w2 \<longrightarrow> files s2 = w_files w2 \<longrightarrow> \<not> is_ok (fst (Consume ''a1'' t t' b' s2))"
    by (auto simp: demo_before_def)
  then have "\<not> is_ok (fst (Consume ''a1'' t t' b' (reliable (files s'))))" for t t' b'
    by (metis healthy_reliable(2) rtranclp.rtrancl_refl)
  with s' show ?thesis by blast
qed

text \<open>On a disk without failures an approval runs through its life cycle: created for a complete binding and
  approved before it expires, it validates for exactly that binding until its expiry and can then be
  consumed; afterwards it no longer validates.\<close>

theorem approval_lifecycle:
  assumes "healthy s" "validID i = Inr ()" "\<not> incomplete b" "0 < ttl" "t1 < t0 + ttl" "t2 \<le> t0 + ttl" "t3 \<le> t0 + ttl"
  shows "\<exists>s1 s2 r2 s3 s4. Create i t0 b ttl s = (Inr (new_record i t0 b ttl), s1)
    \<and> Resolve i t1 True rs s1 = (Inr r2, s2)
    \<and> (\<forall>b'. is_ok (fst (Validate i t2 b' s2)) \<longleftrightarrow> b' = b)
    \<and> Validate i t2 b s2 = (Inr (), s3)
    \<and> Consume i t3 t3' b s3 = (Inr (), s4)
    \<and> (\<forall>t b'. \<not> is_ok (fst (Validate i t b' s4)))"
proof -
  let ?r = "new_record i t0 b ttl"
  let ?r2 = "?r\<lparr>r_Status := Approved, r_Reason := TrimSpace rs, r_ResolvedAt := t1\<rparr>"
  obtain s1 where s1: "Create i t0 b ttl s = (Inr ?r, s1)" "healthy s1" "files s1 (approval_path i) = Some (Valid ?r)"
    using healthy_Create [OF assms(1,3)] by fastforce
  from healthy_Resolve [OF s1(2) assms(2) s1(3), of t1 True rs] assms(4,5) obtain r2 s2
    where s2: "Resolve i t1 True rs s1 = (Inr r2, s2)" "healthy s2" "files s2 (approval_path i) = Some (Valid ?r2)"
    by (auto simp: resolve_writes_def new_record_def is_ok_iff)
  note val = healthy_Validate [OF s2(2) assms(2) s2(3), of t2]
  have r2: "r_ExpiresAt ?r2 = t0 + ttl" "r_Status ?r2 = Approved" "r_Binding ?r2 = b" "r_ID ?r2 = i"
    using assms(4) by (simp_all add: new_record_def)
  have v: "is_ok (fst (Validate i t2 b' s2)) \<longleftrightarrow> b' = b" for b'
    using val [of b'] r2 assms(6) by auto
  from val [of b] v [of b] obtain s3 where s3: "Validate i t2 b s2 = (Inr (), s3)" "healthy s3" "files s3 = files s2"
    by (auto simp: is_ok_iff)
  from healthy_Consume [OF s3(2) assms(2), of ?r2 t3 b t3'] s3 s2 r2 assms(7) obtain s4
    where s4: "Consume i t3 t3' b s3 = (Inr (), s4)" "healthy s4"
      "files s4 (approval_path i) = Some (Valid (?r2\<lparr>r_Status := Consumed, r_ConsumedAt := t3'\<rparr>))" by auto
  have "\<not> is_ok (fst (Validate i t b' s4))" for t b'
    using healthy_Validate [OF s4(2) assms(2) s4(3), of t b'] by auto
  with s1 s2 v s3 s4 show ?thesis by blast
qed

theorem approval_lifecycle_witness:
  "\<exists>s2 s3 s4. Validate ''a1'' 5 demo_binding s2 = (Inr (), s3) \<and> Consume ''a1'' 6 6 demo_binding s3 = (Inr (), s4)
     \<and> \<not> is_ok (fst (Validate ''a1'' 6 demo_binding s4))"
proof -
  have "validID ''a1'' = Inr ()" "\<not> incomplete demo_binding"
    by (simp_all add: validID_def incomplete_def demo_binding_def)
  from approval_lifecycle [OF healthy_reliable(1) this, of 10 2 0 5 6 Map.empty "''ok''" 6] obtain s2 s3 s4
    where "Validate ''a1'' 5 demo_binding s2 = (Inr (), s3)" "Consume ''a1'' 6 6 demo_binding s3 = (Inr (), s4)"
      "\<forall>t b'. \<not> is_ok (fst (Validate ''a1'' t b' s4))" by auto
  then show ?thesis by blast
qed

text \<open>A resolve after the expiry rewrites any record as EXPIRED, also one that was already consumed or rejected:
  the terminal status, the fact that the action ran, is lost from the record.\<close>

theorem late_resolve_erases_consumed:
  assumes "healthy s" "validID i = Inr ()" "files s (approval_path i) = Some (Valid r)" "r_ID r = i"
    and "r_Status r = Consumed" "r_ExpiresAt r \<le> now"
  shows "\<exists>x s' r'. Resolve i now a rs s = (x, s') \<and> \<not> is_ok x
    \<and> files s' (approval_path i) = Some (Valid r') \<and> r_Status r' = Expired"
  using healthy_Resolve [OF assms(1-3), of now a rs] assms(4-) by (auto simp: resolve_writes_def)

theorem late_resolve_erases_consumed_witness:
  "\<exists>x s' r'. Resolve ''a1'' 10 True [] (reliable (w_files (demo_world demo_binding))) = (x, s') \<and> \<not> is_ok x
     \<and> files s' (approval_path ''a1'') = Some (Valid r') \<and> r_Status r' = Expired"
  by (rule late_resolve_erases_consumed [where r = "demo_consumed demo_binding"])
    (simp_all add: validID_def demo_world_def demo_defs)

end
