(* ===== verification/Nonce.thy ===== *)
theory Nonce
  imports Prelude
begin

text \<open>
  \<open>internal/executor/nonce.go\<close>: the executor's replay protection. A store has the map of used nonces with
  the expiry of their envelopes, in memory and in one JSON file that a restarted executor reads back.
  The theorems: a reserved nonce is not reserved again, over restarts and failed writes, as long as
  the clock of the store has not passed the expiry; after that it can be.
\<close>

type_synonym nonce_map = "string \<rightharpoonup> timestamp"

record NonceStore =
  ns_path :: string
  ns_used :: nonce_map

type_synonym nonce_disk = "nonce_map doc disk"

text \<open>Marshal, create, chmod, write, sync, close; rename; open, sync, close the directory (\<open>syncDirectory\<close>).\<close>

definition nonce_save :: "NonceStore \<Rightarrow> nonce_disk \<Rightarrow> unit result \<times> nonce_disk" where
  "nonce_save s = atomic_replace 6 3 (ns_path s) (Valid (ns_used s))"

interpretation nonce_file: document_store nonce_save ns_path "\<lambda>s. Valid (ns_used s)"
  unfolding nonce_save_def by (rule document_store_atomic)

definition NewNonceStore :: "string \<Rightarrow> nonce_disk \<Rightarrow> NonceStore result \<times> nonce_disk" where
  "NewNonceStore path d =
     (case syscall d of (ok, d) \<Rightarrow>
        if \<not> ok then (Inl EIO, d)
        else (case read_file path d of (f, d) \<Rightarrow>
          (case f of
             Inr (Valid m) \<Rightarrow> (Inr \<lparr>ns_path = path, ns_used = m\<rparr>, d)
           | Inr Corrupt \<Rightarrow> (Inl EIO, d)
           | Inl e \<Rightarrow> if e = ErrNotExist then (Inr \<lparr>ns_path = path, ns_used = Map.empty\<rparr>, d) else (Inl e, d))))"

definition prune :: "timestamp \<Rightarrow> nonce_map \<Rightarrow> nonce_map" where
  "prune now used = (\<lambda>v. case used v of None \<Rightarrow> None | Some expiry \<Rightarrow> if now > expiry then None else Some expiry)"

definition Reserve :: "string \<Rightarrow> timestamp \<Rightarrow> timestamp \<Rightarrow> NonceStore \<Rightarrow> nonce_disk \<Rightarrow> unit result \<times> NonceStore \<times> nonce_disk" where
  "Reserve nonce expiresAt now s d =
     (if nonce = [] then (Inl (ErrorNew ''nonce is required''), s, d)
      else let s = s\<lparr>ns_used := prune now (ns_used s)\<rparr> in
        if ns_used s nonce \<noteq> None then (Inl (ErrorNew ''envelope replay detected''), s, d)
        else let s = s\<lparr>ns_used := (ns_used s)(nonce \<mapsto> expiresAt)\<rparr> in
          (case nonce_save s d of
             (Inl e, d) \<Rightarrow> (Inl e, s\<lparr>ns_used := (ns_used s)(nonce := None)\<rparr>, d)
           | (Inr _, d) \<Rightarrow> (Inr (), s, d)))"

subsection \<open>Runs with restarts\<close>

text \<open>The executor process: its store while it runs. A restart drops the memory and reads the file; when that
  fails the process does not run and serves nothing.\<close>

datatype nonce_op = OpReserve string timestamp timestamp | OpRestart

type_synonym nonce_process = "NonceStore option \<times> nonce_disk"

fun nonce_do :: "string \<Rightarrow> nonce_op \<Rightarrow> nonce_process \<Rightarrow> bool \<times> nonce_process" where
  "nonce_do path (OpReserve n e now) (None, d) = (False, (None, d))"
| "nonce_do path (OpReserve n e now) (Some s, d) = (case Reserve n e now s d of (r, s', d') \<Rightarrow> (is_ok r, (Some s', d')))"
| "nonce_do path OpRestart (_, d) =
     (case NewNonceStore path d of (Inl _, d') \<Rightarrow> (False, (None, d')) | (Inr s, d') \<Rightarrow> (False, (Some s, d')))"

fun nonce_run :: "string \<Rightarrow> nonce_op list \<Rightarrow> nonce_process \<Rightarrow> bool list \<times> nonce_process" where
  "nonce_run path [] p = ([], p)"
| "nonce_run path (x # xs) p =
     (case nonce_do path x p of (ok, p') \<Rightarrow> (case nonce_run path xs p' of (oks, p'') \<Rightarrow> (ok # oks, p'')))"

definition nonce_held :: "string \<Rightarrow> string \<Rightarrow> timestamp \<Rightarrow> nonce_process \<Rightarrow> bool" where
  "nonce_held path n e p \<longleftrightarrow>
     (\<exists>m. files (snd p) path = Some (Valid m) \<and> m n = Some e)
     \<and> (\<forall>s. fst p = Some s \<longrightarrow> ns_path s = path \<and> ns_used s n = Some e)"

text \<open>No clock reading of a reservation is past \<open>e\<close>.\<close>

fun within_expiry :: "timestamp \<Rightarrow> nonce_op \<Rightarrow> bool" where
  "within_expiry e (OpReserve _ _ now) = (now \<le> e)"
| "within_expiry e OpRestart = True"

lemma prune_keeps: "prune now used n = Some e \<longleftrightarrow> used n = Some e \<and> now \<le> e"
  by (auto simp: prune_def split: option.splits)

lemma Reserve_path: "Reserve n e now s d = (r, s', d') \<Longrightarrow> ns_path s' = ns_path s"
  by (auto simp: Reserve_def Let_def split: if_splits prod.splits sum.splits)

lemma Reserve_ok:
  assumes "Reserve n e now s d = (Inr u, s', d')"
  shows "n \<noteq> [] \<and> prune now (ns_used s) n = None \<and> ns_used s' = (prune now (ns_used s))(n \<mapsto> e)
    \<and> ns_path s' = ns_path s \<and> files d' = (files d)(ns_path s \<mapsto> Valid (ns_used s'))"
  using assms by (auto simp: Reserve_def Let_def split: if_splits prod.splits sum.splits dest!: nonce_file.save_done)

lemma Reserve_held:
  assumes "Reserve k x now s d = (r, s', d')" "nonce_held path n e (Some s, d)" "now \<le> e"
  shows "nonce_held path n e (Some s', d')" and "k = n \<Longrightarrow> \<not> is_ok r"
proof -
  have h: "ns_path s = path" "prune now (ns_used s) n = Some e" using assms(2,3) by (auto simp: nonce_held_def prune_keeps)
  show "k = n \<Longrightarrow> \<not> is_ok r" using assms(1) h by (auto simp: Reserve_def Let_def split: if_splits)
  show "nonce_held path n e (Some s', d')"
  proof (cases "k = [] \<or> prune now (ns_used s) k \<noteq> None")
    case True
    with assms h show ?thesis by (auto simp: Reserve_def Let_def nonce_held_def split: if_splits)
  next
    case False
    let ?s1 = "s\<lparr>ns_used := (prune now (ns_used s))(k \<mapsto> x)\<rparr>"
    from False h have kn: "k \<noteq> n" by auto
    obtain y d1 where sv: "nonce_save ?s1 d = (y, d1)" by (metis surj_pair)
    from nonce_file.save_old_or_new [OF sv] assms(2) kn h
    have "\<exists>m. files d1 path = Some (Valid m) \<and> m n = Some e" by (auto simp: nonce_held_def)
    moreover from assms(1) False sv kn h have "d' = d1 \<and> ns_path s' = path \<and> ns_used s' n = Some e"
      by (cases y) (auto simp: Reserve_def Let_def)
    ultimately show ?thesis by (simp add: nonce_held_def)
  qed
qed

lemma NewNonceStore_reads:
  assumes "NewNonceStore path d = (r, d')"
  shows "files d' = files d"
    and "r = Inr s \<Longrightarrow> ns_path s = path \<and> ns_used s = (case files d path of Some (Valid m) \<Rightarrow> m | _ \<Rightarrow> Map.empty)"
proof -
  obtain ok d1 where d1: "syscall d = (ok, d1)" "files d1 = files d" by (metis syscall_files surj_pair)
  obtain f d2 where d2: "read_file path d1 = (f, d2)" "files d2 = files d1" by (metis read_file_files surj_pair)
  show "files d' = files d"
    using assms d1 d2 by (auto simp: NewNonceStore_def split: if_splits sum.splits doc.splits)
  show "ns_path s = path \<and> ns_used s = (case files d path of Some (Valid m) \<Rightarrow> m | _ \<Rightarrow> Map.empty)" if "r = Inr s"
    using assms that d1 d2 by (auto simp: NewNonceStore_def split: if_splits sum.splits doc.splits dest: read_file_Inr read_file_NotExist)
qed

lemma nonce_do_held:
  assumes "nonce_do path x p = (ok, p')" "nonce_held path n e p" "within_expiry e x"
  shows "nonce_held path n e p' \<and> (\<forall>e' now. x = OpReserve n e' now \<longrightarrow> \<not> ok)"
proof -
  obtain st d where p: "p = (st, d)" by (metis surj_pair)
  show ?thesis
  proof (cases x)
    case (OpReserve k y now)
    show ?thesis
    proof (cases st)
      case (Some s)
      obtain r s' d' where R: "Reserve k y now s d = (r, s', d')" by (metis prod_cases3)
      from Reserve_held [OF R] assms OpReserve p Some R show ?thesis by auto
    qed (use assms OpReserve p in auto)
  next
    case OpRestart
    obtain r d' where N: "NewNonceStore path d = (r, d')" by (metis surj_pair)
    show ?thesis
      using NewNonceStore_reads [OF N] assms OpRestart p N by (cases r) (auto simp: nonce_held_def)
  qed
qed

lemma nonce_run_held:
  assumes "nonce_run path xs p = (oks, p')" "nonce_held path n e p" "list_all (within_expiry e) xs"
  shows "nonce_held path n e p' \<and> list_all2 (\<lambda>x ok. \<forall>e' now. x = OpReserve n e' now \<longrightarrow> \<not> ok) xs oks"
  using assms
proof (induction xs arbitrary: p oks p')
  case (Cons x xs)
  obtain ok p1 where 1: "nonce_do path x p = (ok, p1)" by (metis surj_pair)
  obtain oks1 p2 where 2: "nonce_run path xs p1 = (oks1, p2)" by (metis surj_pair)
  from Cons.prems(3) have w: "within_expiry e x" "list_all (within_expiry e) xs" by auto
  note h = nonce_do_held [OF 1 Cons.prems(2) w(1)]
  from Cons.IH [OF 2 _ w(2)] h Cons.prems(1) 1 2 show ?case by auto
qed simp

lemma Reserve_establishes:
  assumes "Reserve n e now s d = (Inr u, s', d')"
  shows "nonce_held (ns_path s) n e (Some s', d')"
  using Reserve_ok [OF assms] by (auto simp: nonce_held_def)

lemma healthy_Reserve:
  assumes "healthy d" "n \<noteq> []" "prune now (ns_used s) n = None"
  shows "\<exists>s' d'. Reserve n e now s d = (Inr (), s', d') \<and> healthy d'"
proof -
  let ?s = "s\<lparr>ns_used := (prune now (ns_used s))(n \<mapsto> e)\<rparr>"
  from nonce_file.save_healthy [OF assms(1), of ?s] assms(2,3) show ?thesis
    by (auto simp: Reserve_def Let_def)
qed

subsection \<open>Properties\<close>

text \<open>Once a nonce is reserved, no reservation of it succeeds again in any run of reservations and restarts
  of the executor, whatever disk operations fail, as long as the clock readings do not pass the expiry
  the nonce was reserved with.\<close>

theorem nonce_not_reused:
  assumes "Reserve n e now s d = (Inr u, s', d')" "list_all (within_expiry e) xs"
    and "nonce_run (ns_path s) xs (Some s', d') = (oks, p')"
  shows "list_all2 (\<lambda>x ok. case x of OpReserve n' _ _ \<Rightarrow> n' = n \<longrightarrow> \<not> ok | OpRestart \<Rightarrow> True) xs oks"
  using nonce_run_held [OF assms(3) Reserve_establishes [OF assms(1)] assms(2)]
  by (auto elim!: list_all2_mono split: nonce_op.split)

definition demo_nonces :: NonceStore where "demo_nonces = \<lparr>ns_path = ''n.json'', ns_used = Map.empty\<rparr>"

lemma demo_reserve: "\<exists>s' d'. Reserve ''n1'' 100 5 demo_nonces (reliable Map.empty) = (Inr (), s', d') \<and> healthy d'"
  by (rule healthy_Reserve) (simp_all add: demo_nonces_def prune_def)

theorem nonce_not_reused_witness:
  "\<exists>s' d' oks p'. Reserve ''n1'' 100 5 demo_nonces (reliable Map.empty) = (Inr (), s', d')
     \<and> nonce_run ''n.json'' [OpRestart, OpReserve ''n1'' 100 50] (Some s', d') = (oks, p') \<and> \<not> oks ! 1"
proof -
  obtain s' d' where r: "Reserve ''n1'' 100 5 demo_nonces (reliable Map.empty) = (Inr (), s', d')" using demo_reserve by blast
  obtain oks p' where q: "nonce_run (ns_path demo_nonces) [OpRestart, OpReserve ''n1'' 100 50] (Some s', d') = (oks, p')"
    by (metis surj_pair)
  from nonce_not_reused [OF r _ q] have "\<not> oks ! 1" by (auto simp: list_all2_Cons1)
  with r q show ?thesis by (auto simp: demo_nonces_def)
qed

text \<open>Past its expiry a reserved nonce is dropped by the next reservation, so the same nonce can then be
  reserved again: replay protection beyond the expiry rests on the expiry check of the validator alone.\<close>

theorem nonce_reusable_after_expiry:
  assumes "Reserve n e now s d = (Inr u, s', d')" "e < now'" "healthy d'"
  shows "\<exists>s'' d''. Reserve n e now' s' d' = (Inr (), s'', d'')"
proof -
  have "n \<noteq> [] \<and> prune now' (ns_used s') n = None"
    using Reserve_ok [OF assms(1)] assms(2) by (auto simp: prune_def)
  with healthy_Reserve [OF assms(3), of n now' s' e] show ?thesis by auto
qed

theorem nonce_reusable_after_expiry_witness:
  "\<exists>s' d' s'' d''. Reserve ''n1'' 100 5 demo_nonces (reliable Map.empty) = (Inr (), s', d')
     \<and> Reserve ''n1'' 100 101 s' d' = (Inr (), s'', d'')"
proof -
  obtain s' d' where r: "Reserve ''n1'' 100 5 demo_nonces (reliable Map.empty) = (Inr (), s', d')" "healthy d'"
    using demo_reserve by blast
  from nonce_reusable_after_expiry [OF r(1) _ r(2), of 101] r(1) show ?thesis by auto
qed

end
