(* ===== verification/Host.thy ===== *)
theory Host
  imports GoPath
begin

text \<open>
  The answers of the operating system that the program reads without changing anything: \<open>os.FileInfo\<close> with
  the mode bits of Go's \<open>os.FileMode\<close>, and a \<open>host\<close>, the functions \<open>EvalSymlinks\<close>, \<open>Stat\<close>, \<open>Lstat\<close>, \<open>ReadDir\<close> and
  the operations of \<open>os.Root\<close> as they answer while an operation runs. The host is an argument of the
  operations, so the theorems hold for every state of the machine.
\<close>

unbundle bit_operations_syntax

record FileInfo =
  fi_Size :: int
  fi_ModTime :: timestamp
  fi_Mode :: uint32
  fi_Ino :: uint64

definition ModeDir :: uint32 where "ModeDir = 0x80000000"
definition ModeSymlink :: uint32 where "ModeSymlink = 0x08000000"

text \<open>\<open>ModeDir | ModeSymlink | ModeNamedPipe | ModeSocket | ModeDevice | ModeCharDevice | ModeIrregular\<close>\<close>

definition ModeType :: uint32 where "ModeType = 0x8F280000"

definition fi_IsDir :: "FileInfo \<Rightarrow> bool" where "fi_IsDir i \<longleftrightarrow> fi_Mode i AND ModeDir \<noteq> 0"
definition fi_IsSymlink :: "FileInfo \<Rightarrow> bool" where "fi_IsSymlink i \<longleftrightarrow> fi_Mode i AND ModeSymlink \<noteq> 0"
definition fi_IsRegular :: "FileInfo \<Rightarrow> bool" where "fi_IsRegular i \<longleftrightarrow> fi_Mode i AND ModeType = 0"
definition fi_Perm :: "FileInfo \<Rightarrow> uint32" where "fi_Perm i = fi_Mode i AND 0x1FF"

record DirEntry =
  de_Name :: string
  de_IsDir :: bool
  de_Info :: "FileInfo result"

record host =
  h_EvalSymlinks :: "string \<Rightarrow> string result"
  h_Stat :: "string \<Rightarrow> FileInfo result"
  h_Lstat :: "string \<Rightarrow> FileInfo result"
  h_ReadDir :: "string \<Rightarrow> DirEntry list result"
  h_OpenRoot :: "string \<Rightarrow> unit result"
  h_RootStat :: "string \<Rightarrow> string \<Rightarrow> FileInfo result"
  h_RootReadDir :: "string \<Rightarrow> string \<Rightarrow> int \<Rightarrow> DirEntry list result"

text \<open>The documented behaviour of \<open>filepath.EvalSymlinks\<close>: the result for an absolute path is absolute and clean.\<close>

definition resolves_absolute :: "host \<Rightarrow> bool" where
  "resolves_absolute h \<longleftrightarrow> (\<forall>p q. h_EvalSymlinks h p = Inr q \<longrightarrow> IsAbs p \<longrightarrow> IsAbs q \<and> Clean q = q)"

text \<open>\<open>os.IsNotExist\<close> and \<open>errors.Is(err, os.ErrNotExist)\<close> on an error of a system call.\<close>

definition IsNotExist :: "go_error \<Rightarrow> bool" where
  "IsNotExist e \<longleftrightarrow> e = ErrNotExist"

text \<open>A host without symbolic links and without files, for examples.\<close>

definition empty_host :: host where
  "empty_host = \<lparr>h_EvalSymlinks = (\<lambda>p. Inr (Clean p)), h_Stat = (\<lambda>_. Inl ErrNotExist), h_Lstat = (\<lambda>_. Inl ErrNotExist),
     h_ReadDir = (\<lambda>_. Inl ErrNotExist), h_OpenRoot = (\<lambda>_. Inr ()), h_RootStat = (\<lambda>_ _. Inl ErrNotExist),
     h_RootReadDir = (\<lambda>_ _ _. Inl ErrNotExist)\<rparr>"

lemma resolves_empty_host: "resolves_absolute empty_host"
  by (simp add: resolves_absolute_def empty_host_def)

end
