(* ===== verification/Config.thy ===== *)
theory Config
  imports Host
begin

text \<open>
  \<open>internal/executor/config.go\<close>: the executor's allowlist configuration, its normalisation, and the manager through
  which the managed roots are narrowed at run time and directories are browsed and created. YAML is a
  third-party package: the decoded documents are arguments. The in-memory state of a manager includes the
  roots of the \<open>MutableTargets\<close> it updates. Error texts are the format strings of the code.
\<close>

subsection \<open>Types\<close>

record Config =
  c_SchemaVersion :: int
  c_AllowedServices :: "string list"
  c_ReadFileRoots :: "string list"
  c_AllowedFileRoots :: "string list"
  c_LabFileRoots :: "string list"
  c_QuarantineRoot :: string
  c_AllowedProcessExecutables :: "string list"

record managedRootsConfig =
  mr_SchemaVersion :: int
  mr_ManagedRoots :: "string list"

type_synonym config_disk = "managedRootsConfig doc disk"

record FixedScope =
  fs_AllowedServices :: "string \<Rightarrow> bool"
  fs_AllowedFileRoots :: "string list"
  fs_AllowedProcessExecutables :: "string list"

record ConfigManager =
  cm_path :: string
  cm_config :: Config
  cm_maximumRoots :: "string list"
  cm_targets :: "string list option"

record AllowlistStatus =
  as_ConfigPath :: string
  as_ReadOnlyRoots :: "string list"
  as_ManagedRoots :: "string list"
  as_CandidateRoots :: "string list"
  as_AllowedFileRoots :: "string list"
  as_QuarantineRoot :: string
  as_MissingRoots :: "string list"
  as_RequiresExecutorRestart :: bool
  as_UpdatedAt :: timestamp

record PathBrowserEntry =
  be_Name :: string
  be_Path :: string
  be_SizeBytes :: int
  be_Mode :: uint32
  be_Modified :: timestamp
  be_SelectableRead :: bool
  be_SelectableWrite :: bool

record PathBrowser =
  pb_Path :: string
  pb_Parent :: string
  pb_Mode :: string
  pb_ReadOnlyRoots :: "string list"
  pb_ManagedRoots :: "string list"
  pb_CandidateRoots :: "string list"
  pb_Entries :: "PathBrowserEntry list"
  pb_Truncated :: bool
  pb_CanSelectRead :: bool
  pb_CanSelectWrite :: bool
  pb_CanCreateChild :: bool
  pb_WriteRootMissing :: bool

subsection \<open>Paths\<close>

definition sameOrInside :: "string \<Rightarrow> string \<Rightarrow> bool" where
  "sameOrInside path root = rel_inside (Rel (Clean root) (Clean path))"

interpretation config_paths: path_containment "\<lambda>root path. sameOrInside path root"
  by unfold_locales (simp add: sameOrInside_def rel_inside_rooted under_def)

definition withinAny :: "string \<Rightarrow> string list \<Rightarrow> bool" where
  "withinAny path roots = list_ex (\<lambda>root. sameOrInside path root) roots"

definition appendUniquePaths :: "string list \<Rightarrow> string \<Rightarrow> string list" where
  "appendUniquePaths vals nxt =
     (let n = Clean nxt in if list_ex (\<lambda>v. Clean v = n) vals then vals else vals @ [n])"

definition validateRootsWithin :: "string list \<Rightarrow> string list \<Rightarrow> unit result" where
  "validateRootsWithin roots maximumRoots =
     (if list_all (\<lambda>root. list_ex (\<lambda>m. sameOrInside root m) maximumRoots) roots then Inr ()
      else Inl (ErrorNew ''managed root %s is outside administrator-defined roots''))"

definition safeDirectoryName :: "string \<Rightarrow> bool" where
  "safeDirectoryName name \<longleftrightarrow>
     \<not> (name = [] \<or> name = ''.'' \<or> name = ''..'' \<or> length name > 128)
     \<and> \<not> (CHR ''/'' \<in> set name \<or> CHR 0x5C \<in> set name)"

definition normalizeAllowlistRoot :: "host \<Rightarrow> string \<Rightarrow> string result" where
  "normalizeAllowlistRoot h val =
     (let v = TrimSpace val in
      if v = [] then Inl (ErrorNew ''path is required'')
      else if \<not> IsAbs v then Inl (ErrorNew ''path %q must be absolute'')
      else let clean = Clean v in
        if clean = ''/'' then Inl (ErrorNew ''root filesystem is too broad for allowlist'')
        else (case h_EvalSymlinks h clean of
            Inr resolved \<Rightarrow> if resolved = ''/'' then Inl (ErrorNew ''root filesystem is too broad for allowlist'') else Inr resolved
          | Inl e \<Rightarrow> if \<not> IsNotExist e then Inl e
              else if clean = ''/'' then Inl (ErrorNew ''root filesystem is too broad for allowlist'') else Inr clean))"

fun normalize_loop :: "host \<Rightarrow> string \<Rightarrow> string list \<Rightarrow> string list \<Rightarrow> string list result" where
  "normalize_loop h quarantineRoot [] out = Inr out"
| "normalize_loop h quarantineRoot (v # vs) out =
     (case normalizeAllowlistRoot h v of Inl e \<Rightarrow> Inl e
      | Inr root \<Rightarrow>
          if quarantineRoot \<noteq> [] \<and> (sameOrInside root quarantineRoot \<or> sameOrInside quarantineRoot root)
          then Inl (ErrorNew ''managed root %s must not overlap quarantine root %s'')
          else normalize_loop h quarantineRoot vs (appendUniquePaths out root))"

definition normalizeAllowlistRoots :: "host \<Rightarrow> string list \<Rightarrow> string \<Rightarrow> string list result" where
  "normalizeAllowlistRoots h vals quarantineRoot =
     (if vals = [] then Inl (ErrorNew ''at least one managed root is required'')
      else normalize_loop h quarantineRoot vals [])"

fun readonly_loop :: "host \<Rightarrow> string list \<Rightarrow> string list \<Rightarrow> string list result" where
  "readonly_loop h [] out = Inr out"
| "readonly_loop h (v # vs) out =
     (let v = TrimSpace v in
      if v = [] then Inl (ErrorNew ''path is required'')
      else if \<not> IsAbs v then Inl (ErrorNew ''path %q must be absolute'')
      else (case h_EvalSymlinks h (Clean v) of
          Inr resolved \<Rightarrow> readonly_loop h vs (appendUniquePaths out resolved)
        | Inl e \<Rightarrow> if \<not> IsNotExist e then Inl e else readonly_loop h vs (appendUniquePaths out (Clean v))))"

definition normalizeReadOnlyRoots :: "host \<Rightarrow> string list \<Rightarrow> string list result" where
  "normalizeReadOnlyRoots h vals = readonly_loop h (if vals = [] then [''/''] else vals) []"

subsection \<open>Loading\<close>

definition LoadConfig :: "(string \<Rightarrow> Config result) \<Rightarrow> host \<Rightarrow> string result \<Rightarrow> Config result" where
  "LoadConfig yaml h file =
     (case file of Inl e \<Rightarrow> Inl (Wrapf ''read executor config'' e) | Inr b \<Rightarrow>
      (case yaml b of Inl e \<Rightarrow> Inl (Wrapf ''parse executor config'' e) | Inr c \<Rightarrow>
       if c_SchemaVersion c \<noteq> 1 then Inl (ErrorNew ''unsupported executor config schema %d'')
       else let c = c\<lparr>c_AllowedServices := map (\<lambda>v. ToLower (TrimSpace v)) (c_AllowedServices c)\<rparr> in
       if c_LabFileRoots c = [] \<or> c_QuarantineRoot c = [] then Inl (ErrorNew ''lab_file_roots and quarantine_root are required'')
       else
       (case normalizeAllowlistRoot h (c_QuarantineRoot c) of Inl e \<Rightarrow> Inl (Wrapf ''quarantine_root'' e) | Inr q \<Rightarrow>
       (case normalizeAllowlistRoots h (c_LabFileRoots c) q of Inl e \<Rightarrow> Inl (Wrapf ''lab_file_roots'' e) | Inr lab \<Rightarrow>
       (case normalizeReadOnlyRoots h (c_ReadFileRoots c) of Inl e \<Rightarrow> Inl (Wrapf ''read_file_roots'' e) | Inr rd \<Rightarrow>
       (case normalizeAllowlistRoots h (c_AllowedFileRoots c) [] of Inl e \<Rightarrow> Inl (Wrapf ''allowed_file_roots'' e) | Inr al \<Rightarrow>
       (case validateRootsWithin lab al of Inl e \<Rightarrow> Inl (Wrapf ''lab_file_roots'' e) | Inr _ \<Rightarrow>
       (case validateRootsWithin [q] al of Inl e \<Rightarrow> Inl (Wrapf ''quarantine_root'' e) | Inr _ \<Rightarrow>
         Inr (c\<lparr>c_QuarantineRoot := q, c_LabFileRoots := lab, c_ReadFileRoots := rd, c_AllowedFileRoots := al\<rparr>)))))))))"

definition loadManagedRoots :: "string \<Rightarrow> config_disk \<Rightarrow> string list result \<times> config_disk" where
  "loadManagedRoots path d =
     (case read_file path d of
        (Inl e, d) \<Rightarrow> (Inl e, d)
      | (Inr Corrupt, d) \<Rightarrow> (Inl (Wrapf ''parse managed roots config'' EIO), d)
      | (Inr (Valid m), d) \<Rightarrow>
          if mr_SchemaVersion m \<noteq> 1 then (Inl (ErrorNew ''unsupported managed roots schema %d''), d)
          else (Inr (mr_ManagedRoots m), d))"

text \<open>Marshal, \<open>MkdirAll\<close>, create, chmod, write, sync, close; rename; open, sync, close the directory
  (\<open>saveConfigBytes\<close>; the file mode it copies from the old file is not modelled).\<close>

definition saveConfigBytes :: "string \<Rightarrow> managedRootsConfig \<Rightarrow> config_disk \<Rightarrow> unit result \<times> config_disk" where
  "saveConfigBytes path b = atomic_replace 7 3 path (Valid b)"

definition saveManagedRoots :: "string \<Rightarrow> string list \<Rightarrow> config_disk \<Rightarrow> unit result \<times> config_disk" where
  "saveManagedRoots path roots = saveConfigBytes path \<lparr>mr_SchemaVersion = 1, mr_ManagedRoots = roots\<rparr>"

interpretation config_file: document_store "\<lambda>(path, b). saveConfigBytes path b" fst "\<lambda>(path, b). Valid b"
proof -
  have "(\<lambda>(path, b). saveConfigBytes path b) = (\<lambda>r. atomic_replace 7 3 (fst r) (case r of (path, b) \<Rightarrow> Valid b))"
    by (auto simp: saveConfigBytes_def)
  then show "document_store (\<lambda>(path, b). saveConfigBytes path b) fst (\<lambda>(path, b). Valid b)"
    by (simp add: document_store_atomic)
qed

definition Scope :: "Config \<Rightarrow> FixedScope" where
  "Scope c = \<lparr>fs_AllowedServices = (\<lambda>s. s \<noteq> [] \<and> s \<in> set (c_AllowedServices c)),
     fs_AllowedFileRoots = c_AllowedFileRoots c, fs_AllowedProcessExecutables = c_AllowedProcessExecutables c\<rparr>"

subsection \<open>The manager\<close>

definition NewConfigManager :: "host \<Rightarrow> string \<Rightarrow> Config \<Rightarrow> bool \<Rightarrow> config_disk \<Rightarrow> ConfigManager result \<times> config_disk" where
  "NewConfigManager h path config hasTargets d =
     (let path = Clean path; maximumRoots = c_LabFileRoots config in
      case loadManagedRoots path d of (loaded, d) \<Rightarrow>
      (case (case loaded of Inr v \<Rightarrow> Inr v | Inl e \<Rightarrow> if \<not> IsNotExist e then Inl e else Inr maximumRoots) of
         Inl e \<Rightarrow> (Inl e, d)
       | Inr managedRoots \<Rightarrow>
         (case normalizeAllowlistRoots h managedRoots (c_QuarantineRoot config) of
            Inl e \<Rightarrow> (Inl (Wrapf ''load managed roots'' e), d)
          | Inr normalized \<Rightarrow>
            (case validateRootsWithin normalized maximumRoots of
               Inl e \<Rightarrow> (Inl (Wrapf ''load managed roots'' e), d)
             | Inr _ \<Rightarrow>
               let allowed = appendUniquePaths normalized (c_QuarantineRoot config);
                   config = config\<lparr>c_LabFileRoots := normalized, c_AllowedFileRoots := allowed\<rparr>
               in (Inr \<lparr>cm_path = path, cm_config = config, cm_maximumRoots = maximumRoots,
                       cm_targets = (if hasTargets then Some allowed else None)\<rparr>, d)))))"

fun candidate_entries :: "string \<Rightarrow> DirEntry list \<Rightarrow> string list \<Rightarrow> bool \<times> string list" where
  "candidate_entries root [] out = (False, out)"
| "candidate_entries root (e # es) out =
     (if length out \<ge> 200 then (True, out)
      else if \<not> de_IsDir e then candidate_entries root es out
      else if de_Name e = ''.'' \<or> de_Name e = ''..'' then candidate_entries root es out
      else candidate_entries root es (appendUniquePaths out (pathJoin [root, de_Name e])))"

fun candidate_loop :: "host \<Rightarrow> string list \<Rightarrow> string list \<Rightarrow> string list" where
  "candidate_loop h [] out = out"
| "candidate_loop h (root # roots) out =
     (let root = Clean root; out = appendUniquePaths out root in
      case h_ReadDir h root of
        Inl _ \<Rightarrow> candidate_loop h roots out
      | Inr entries \<Rightarrow> (case candidate_entries root entries out of (full, out) \<Rightarrow>
          if full then out else candidate_loop h roots out))"

definition candidateManagedRoots :: "host \<Rightarrow> string list \<Rightarrow> string list" where
  "candidateManagedRoots h maximumRoots = candidate_loop h maximumRoots []"

definition statusLocked :: "host \<Rightarrow> ConfigManager \<Rightarrow> AllowlistStatus" where
  "statusLocked h m =
     \<lparr>as_ConfigPath = cm_path m, as_ReadOnlyRoots = c_ReadFileRoots (cm_config m),
      as_ManagedRoots = c_LabFileRoots (cm_config m), as_CandidateRoots = candidateManagedRoots h (cm_maximumRoots m),
      as_AllowedFileRoots = c_AllowedFileRoots (cm_config m), as_QuarantineRoot = c_QuarantineRoot (cm_config m),
      as_MissingRoots = filter (\<lambda>r. \<not> is_ok (h_Stat h r)) (c_LabFileRoots (cm_config m)),
      as_RequiresExecutorRestart = False,
      as_UpdatedAt = (case h_Stat h (cm_path m) of Inr i \<Rightarrow> fi_ModTime i | Inl _ \<Rightarrow> 0)\<rparr>"

definition UpdateManagedRoots :: "host \<Rightarrow> string list \<Rightarrow> ConfigManager \<Rightarrow> config_disk \<Rightarrow> AllowlistStatus result \<times> ConfigManager \<times> config_disk" where
  "UpdateManagedRoots h roots m d =
     (case normalizeAllowlistRoots h roots (c_QuarantineRoot (cm_config m)) of
        Inl e \<Rightarrow> (Inl (Wrapf ''invalid managed roots'' e), m, d)
      | Inr normalized \<Rightarrow>
        (case validateRootsWithin normalized (cm_maximumRoots m) of
           Inl e \<Rightarrow> (Inl (Wrapf ''invalid managed roots'' e), m, d)
         | Inr _ \<Rightarrow>
           let allowed = appendUniquePaths normalized (c_QuarantineRoot (cm_config m));
               nxt = (cm_config m)\<lparr>c_LabFileRoots := normalized, c_AllowedFileRoots := allowed\<rparr>
           in (case saveManagedRoots (cm_path m) normalized d of
                 (Inl e, d) \<Rightarrow> (Inl e, m, d)
               | (Inr _, d) \<Rightarrow>
                   let m = m\<lparr>cm_config := nxt, cm_targets := map_option (\<lambda>_. allowed) (cm_targets m)\<rparr>
                   in (Inr (statusLocked h m), m, d))))"

subsection \<open>Browsing\<close>

text \<open>\<open>openBoundedRoot\<close>: the longest configured root that contains the path; \<open>select_root\<close> is its loop.\<close>

fun select_root :: "string \<Rightarrow> string list \<Rightarrow> string \<Rightarrow> string" where
  "select_root clean [] selected = selected"
| "select_root clean (candidate # cs) selected =
     (let candidate = Clean candidate in
      if \<not> sameOrInside clean candidate \<or> length candidate \<le> length selected then select_root clean cs selected
      else select_root clean cs candidate)"

definition openBoundedRoot :: "host \<Rightarrow> string \<Rightarrow> string list \<Rightarrow> (string \<times> string) result" where
  "openBoundedRoot h path roots =
     (let clean = Clean path; selected = select_root clean roots [] in
      if selected = [] then Inl (ErrorNew ''path is outside configured roots'')
      else (case Rel selected clean of Inl e \<Rightarrow> Inl e
        | Inr relative \<Rightarrow> (case h_OpenRoot h selected of Inl e \<Rightarrow> Inl e | Inr _ \<Rightarrow> Inr (selected, relative))))"

fun missing_loop :: "host \<Rightarrow> string \<Rightarrow> string list \<Rightarrow> bool" where
  "missing_loop h current [] = False"
| "missing_loop h current (part # parts) =
     (if part = [] \<or> part = ''.'' \<or> part = ''..'' then False
      else let current = pathJoin [current, part] in
        (case h_Lstat h current of
           Inl e \<Rightarrow> IsNotExist e
         | Inr info \<Rightarrow> if fi_IsSymlink info then False
             else if parts \<noteq> [] \<and> \<not> fi_IsDir info then False
             else missing_loop h current parts))"

definition boundedPathMissing :: "host \<Rightarrow> string \<Rightarrow> string \<Rightarrow> bool" where
  "boundedPathMissing h rootPath relative =
     (let relative = Clean relative in
      if relative = ''.'' then False else missing_loop h (Clean rootPath) (split_on (CHR ''/'') relative))"

definition browse_entries :: "string \<Rightarrow> Config \<Rightarrow> string list \<Rightarrow> DirEntry list \<Rightarrow> PathBrowserEntry list" where
  "browse_entries clean config maximumRoots es =
     concat (map (\<lambda>e. if \<not> de_IsDir e then [] else (case de_Info e of Inl _ \<Rightarrow> [] | Inr info \<Rightarrow>
       let entryPath = pathJoin [clean, de_Name e] in
       [\<lparr>be_Name = de_Name e, be_Path = entryPath, be_SizeBytes = fi_Size info, be_Mode = fi_Mode info,
         be_Modified = fi_ModTime info, be_SelectableRead = withinAny entryPath (c_ReadFileRoots config),
         be_SelectableWrite = withinAny entryPath maximumRoots\<rparr>])) es)"

text \<open>\<open>BrowsePath\<close> from the point where mode, limit and path are fixed (\<open>browse_at\<close>). The browser value returned
  beside an error is dropped.\<close>

definition browse_at :: "host \<Rightarrow> string \<Rightarrow> string \<Rightarrow> int \<Rightarrow> ConfigManager \<Rightarrow> PathBrowser result" where
  "browse_at h clean mode limit m =
     (let config = cm_config m; maximumRoots = cm_maximumRoots m;
          roots = (if mode = ''write'' then maximumRoots else c_ReadFileRoots config) in
      case openBoundedRoot h clean roots of
         Inl _ \<Rightarrow> Inl (ErrorNew ''path %s is outside %s roots'')
       | Inr (rootPath, relative) \<Rightarrow>
         let parent = Dir clean;
             browser = \<lparr>pb_Path = clean, pb_Parent = (if parent \<noteq> clean \<and> withinAny parent roots then parent else []),
               pb_Mode = mode, pb_ReadOnlyRoots = c_ReadFileRoots config, pb_ManagedRoots = c_LabFileRoots config,
               pb_CandidateRoots = candidateManagedRoots h maximumRoots, pb_Entries = [], pb_Truncated = False,
               pb_CanSelectRead = withinAny clean (c_ReadFileRoots config),
               pb_CanSelectWrite = withinAny clean maximumRoots, pb_CanCreateChild = False, pb_WriteRootMissing = False\<rparr>
         in (case h_RootStat h rootPath relative of
               Inl e \<Rightarrow> if mode = ''write'' \<and> IsNotExist e \<and> boundedPathMissing h rootPath relative
                        then Inr (browser\<lparr>pb_WriteRootMissing := True\<rparr>) else Inl e
             | Inr info \<Rightarrow>
               if \<not> fi_IsDir info then Inl (ErrorNew ''path is not a directory'')
               else (case h_RootReadDir h rootPath relative (limit + 1) of Inl e \<Rightarrow> Inl e
                 | Inr entries \<Rightarrow>
                   let truncated = int (length entries) > limit;
                       entries = (if truncated then take (nat limit) entries else entries)
                   in Inr (browser\<lparr>pb_CanCreateChild := mode = ''write'' \<and> pb_CanSelectWrite browser, pb_Truncated := truncated,
                        pb_Entries := browse_entries clean config maximumRoots entries\<rparr>))))"

definition BrowsePath :: "host \<Rightarrow> string \<Rightarrow> string \<Rightarrow> int \<Rightarrow> ConfigManager \<Rightarrow> PathBrowser result" where
  "BrowsePath h path mode limit m =
     (let mode = ToLower (TrimSpace mode); mode = (if mode = [] then ''read'' else mode) in
      if mode \<noteq> ''read'' \<and> mode \<noteq> ''write'' then Inl (ErrorNew ''unsupported browser mode %q'')
      else let limit = (if limit \<le> 0 then 200 else limit) in
      if limit > 500 then Inl (ErrorNew ''limit must not exceed 500'')
      else let clean = Clean (TrimSpace path);
               clean = (if clean = ''.'' \<or> clean = [] then
                          (if mode = ''write'' \<and> cm_maximumRoots m \<noteq> [] then hd (cm_maximumRoots m) else ''/'') else clean) in
      if \<not> IsAbs clean then Inl (ErrorNew ''path must be absolute'')
      else browse_at h clean mode limit m)"

text \<open>\<open>CreateDirectory\<close> also returns the directory it made, as root and path relative to the root; \<open>mkdir\<close> and \<open>synced\<close>
  are the answers to \<open>root.Mkdir\<close> and \<open>syncRootDirectory\<close>, \<open>h'\<close> the host after the creation.\<close>

definition CreateDirectory :: "host \<Rightarrow> unit result \<Rightarrow> unit result \<Rightarrow> host \<Rightarrow> string \<Rightarrow> string \<Rightarrow> ConfigManager \<Rightarrow> PathBrowser result \<times> (string \<times> string) option" where
  "CreateDirectory h mkdir synced h' parent name m =
     (let maximumRoots = cm_maximumRoots m; parent = Clean (TrimSpace parent); name = TrimSpace name in
      if \<not> IsAbs parent then (Inl (ErrorNew ''parent path must be absolute''), None)
      else if \<not> safeDirectoryName name then (Inl (ErrorNew ''directory name is invalid''), None)
      else (case openBoundedRoot h parent maximumRoots of
          Inl _ \<Rightarrow> (Inl (ErrorNew ''parent %s is outside writable administrator-defined roots''), None)
        | Inr (root, relativeParent) \<Rightarrow>
          (case h_RootStat h root relativeParent of
             Inl e \<Rightarrow> (Inl e, None)
           | Inr info \<Rightarrow>
             if \<not> fi_IsDir info then (Inl (ErrorNew ''parent path is not a directory''), None)
             else let path = pathJoin [parent, name] in
             if \<not> withinAny path maximumRoots then (Inl (ErrorNew ''directory path escapes writable roots''), None)
             else let relativePath = pathJoin [relativeParent, name] in
             (case mkdir of Inl e \<Rightarrow> (Inl e, None)
              | Inr _ \<Rightarrow> (case synced of Inl e \<Rightarrow> (Inl e, Some (root, relativePath))
                 | Inr _ \<Rightarrow> (BrowsePath h' path ''write'' 200 m, Some (root, relativePath)))))))"

subsection \<open>Normalised roots\<close>

definition good_root :: "string \<Rightarrow> bool" where
  "good_root r \<longleftrightarrow> IsAbs r \<and> r \<noteq> ''/'' \<and> Clean r = r"

definition overlaps :: "string \<Rightarrow> string \<Rightarrow> bool" where
  "overlaps a b \<longleftrightarrow> under a b \<or> under b a"

lemma normalizeAllowlistRoot_good:
  assumes "resolves_absolute h" "normalizeAllowlistRoot h v = Inr r"
  shows "good_root r"
proof -
  let ?c = "Clean (TrimSpace v)"
  from assms(2) have a: "IsAbs ?c" "?c \<noteq> ''/''" by (auto simp: normalizeAllowlistRoot_def Let_def split: if_splits)
  show ?thesis
  proof (cases "h_EvalSymlinks h ?c")
    case (Inl e)
    with assms(2) a have "r = ?c" by (auto simp: normalizeAllowlistRoot_def Let_def split: if_splits)
    with a show ?thesis by (simp add: good_root_def)
  next
    case (Inr q)
    with assms a have "r = q" "r \<noteq> ''/''" by (auto simp: normalizeAllowlistRoot_def Let_def split: if_splits)
    with assms(1) Inr a show ?thesis unfolding good_root_def resolves_absolute_def by blast
  qed
qed

lemma appendUniquePaths_set:
  "\<forall>v \<in> set vs. Clean v = v \<Longrightarrow> Clean x = x \<Longrightarrow> set (appendUniquePaths vs x) = insert x (set vs)"
  by (auto simp: appendUniquePaths_def Let_def list_ex_iff)

lemma appendUniquePaths_distinct:
  "\<forall>v \<in> set vs. Clean v = v \<Longrightarrow> distinct vs \<Longrightarrow> distinct (appendUniquePaths vs x)"
  by (auto simp: appendUniquePaths_def Let_def list_ex_iff)

lemma normalize_loop_good:
  assumes "resolves_absolute h" "normalize_loop h q vs out = Inr roots"
    and "\<forall>r \<in> set out. good_root r \<and> (q \<noteq> [] \<longrightarrow> IsAbs q \<longrightarrow> \<not> overlaps r q)" "distinct out"
  shows "(\<forall>r \<in> set roots. good_root r \<and> (q \<noteq> [] \<longrightarrow> IsAbs q \<longrightarrow> \<not> overlaps r q)) \<and> distinct roots
    \<and> length roots \<ge> length out \<and> (vs \<noteq> [] \<longrightarrow> roots \<noteq> [])"
  using assms(2-)
proof (induction vs arbitrary: out)
  case (Cons v vs)
  from Cons.prems(1) obtain r where r: "normalizeAllowlistRoot h v = Inr r"
    "\<not> (q \<noteq> [] \<and> (sameOrInside r q \<or> sameOrInside q r))" "normalize_loop h q vs (appendUniquePaths out r) = Inr roots"
    by (auto split: sum.splits if_splits)
  note g = normalizeAllowlistRoot_good [OF assms(1) r(1)]
  from Cons.prems(2) have cl: "\<forall>x \<in> set out. Clean x = x" by (auto simp: good_root_def)
  have no: "q \<noteq> [] \<Longrightarrow> IsAbs q \<Longrightarrow> \<not> overlaps r q"
    using r(2) g config_paths.inside_iff by (auto simp: overlaps_def good_root_def)
  have st: "set (appendUniquePaths out r) = insert r (set out)"
    using appendUniquePaths_set [OF cl] g by (simp add: good_root_def)
  have "length (appendUniquePaths out r) \<ge> length out" by (simp add: appendUniquePaths_def Let_def)
  moreover have "appendUniquePaths out r \<noteq> []" using st by auto
  ultimately have ln: "length (appendUniquePaths out r) \<ge> max 1 (length out)"
    by (cases "appendUniquePaths out r") auto
  from Cons.IH [OF r(3)] st no g Cons.prems(2,3) appendUniquePaths_distinct [OF cl] ln
  show ?case by (cases roots) auto
qed simp

lemma normalizeAllowlistRoots_good:
  assumes "resolves_absolute h" "normalizeAllowlistRoots h vs q = Inr roots"
  shows "roots \<noteq> []" "distinct roots" "\<forall>r \<in> set roots. good_root r" "q \<noteq> [] \<Longrightarrow> IsAbs q \<Longrightarrow> \<forall>r \<in> set roots. \<not> overlaps r q"
  using normalize_loop_good [OF assms(1), of q vs "[]" roots] assms(2)
  by (auto simp: normalizeAllowlistRoots_def split: if_splits)

lemma validateRootsWithin_iff:
  assumes "\<forall>m \<in> set maximum. IsAbs m"
  shows "validateRootsWithin roots maximum = Inr () \<longleftrightarrow> (\<forall>r \<in> set roots. \<exists>m \<in> set maximum. under m r)"
  using assms by (auto simp: validateRootsWithin_def list_all_iff list_ex_iff config_paths.inside_iff)

subsection \<open>The invariant of the manager\<close>

text \<open>What the administrator's configuration gives: good roots, and a quarantine apart from the lab roots.\<close>

definition config_ok :: "Config \<Rightarrow> bool" where
  "config_ok c \<longleftrightarrow> c_LabFileRoots c \<noteq> [] \<and> (\<forall>r \<in> set (c_LabFileRoots c). good_root r \<and> \<not> overlaps r (c_QuarantineRoot c))
     \<and> good_root (c_QuarantineRoot c)"

text \<open>At run time: the managed roots stay below the administrator's maximum and apart from the quarantine, and
  the roots the targets check against are exactly the managed roots and the quarantine.\<close>

definition manager_inv :: "ConfigManager \<Rightarrow> bool" where
  "manager_inv m \<longleftrightarrow> config_ok (cm_config m)
     \<and> (\<forall>r \<in> set (cm_maximumRoots m). good_root r)
     \<and> (\<forall>r \<in> set (c_LabFileRoots (cm_config m)). \<exists>x \<in> set (cm_maximumRoots m). under x r)
     \<and> set (c_AllowedFileRoots (cm_config m)) = insert (c_QuarantineRoot (cm_config m)) (set (c_LabFileRoots (cm_config m)))
     \<and> cm_targets m \<in> {None, Some (c_AllowedFileRoots (cm_config m))}"

lemma good_root_simps: "good_root r \<Longrightarrow> IsAbs r \<and> Clean r = r \<and> r \<noteq> []"
  by (auto simp: good_root_def IsAbs_def)

lemma narrowed_inv:
  assumes "resolves_absolute h" "normalizeAllowlistRoots h vs (c_QuarantineRoot c) = Inr roots"
    and "validateRootsWithin roots maximum = Inr ()" "good_root (c_QuarantineRoot c)" "\<forall>r \<in> set maximum. good_root r"
    and "t \<in> {None, Some (appendUniquePaths roots (c_QuarantineRoot c))}"
  shows "manager_inv \<lparr>cm_path = p, cm_config = c\<lparr>c_LabFileRoots := roots, c_AllowedFileRoots := appendUniquePaths roots (c_QuarantineRoot c)\<rparr>,
      cm_maximumRoots = maximum, cm_targets = t\<rparr>"
proof -
  note n = normalizeAllowlistRoots_good [OF assms(1,2)]
  have q: "IsAbs (c_QuarantineRoot c)" "c_QuarantineRoot c \<noteq> []" "Clean (c_QuarantineRoot c) = c_QuarantineRoot c"
    using good_root_simps [OF assms(4)] by auto
  have "\<forall>r \<in> set maximum. IsAbs r" using assms(5) by (simp add: good_root_def)
  with assms(3) have w: "\<forall>r \<in> set roots. \<exists>x \<in> set maximum. under x r" by (simp add: validateRootsWithin_iff)
  have "set (appendUniquePaths roots (c_QuarantineRoot c)) = insert (c_QuarantineRoot c) (set roots)"
    using n(3) q(3) by (intro appendUniquePaths_set) (auto simp: good_root_def)
  with n(1,3) n(4) [OF q(2,1)] w assms(4-6) show ?thesis by (auto simp: manager_inv_def config_ok_def)
qed

lemma NewConfigManager_inv:
  assumes "resolves_absolute h" "config_ok c" "NewConfigManager h path c t d = (Inr m, d')"
  shows "manager_inv m"
proof -
  obtain l d1 where l: "loadManagedRoots (Clean path) d = (l, d1)" by (metis surj_pair)
  from assms(3) l obtain vs roots where r: "normalizeAllowlistRoots h vs (c_QuarantineRoot c) = Inr roots"
    "validateRootsWithin roots (c_LabFileRoots c) = Inr ()"
    "m = \<lparr>cm_path = Clean path, cm_config = c\<lparr>c_LabFileRoots := roots, c_AllowedFileRoots := appendUniquePaths roots (c_QuarantineRoot c)\<rparr>,
       cm_maximumRoots = c_LabFileRoots c, cm_targets = (if t then Some (appendUniquePaths roots (c_QuarantineRoot c)) else None)\<rparr>"
    by (auto simp: NewConfigManager_def Let_def split: sum.splits if_splits)
  show ?thesis unfolding r(3)
    by (rule narrowed_inv [OF assms(1) r(1,2)]) (use assms(2) in \<open>auto simp: config_ok_def\<close>)
qed

lemma UpdateManagedRoots_cases:
  assumes "UpdateManagedRoots h roots m d = (x, m', d')"
  obtains (failed) e where "x = Inl e" "m' = m"
  | (saved) n where "normalizeAllowlistRoots h roots (c_QuarantineRoot (cm_config m)) = Inr n"
      "validateRootsWithin n (cm_maximumRoots m) = Inr ()" "is_ok x"
      "m' = m\<lparr>cm_config := (cm_config m)\<lparr>c_LabFileRoots := n, c_AllowedFileRoots := appendUniquePaths n (c_QuarantineRoot (cm_config m))\<rparr>,
         cm_targets := map_option (\<lambda>_. appendUniquePaths n (c_QuarantineRoot (cm_config m))) (cm_targets m)\<rparr>"
      "files d' = (files d)(cm_path m \<mapsto> Valid \<lparr>mr_SchemaVersion = 1, mr_ManagedRoots = n\<rparr>)"
proof (cases x)
  case (Inl e)
  with assms have "m' = m"
    by (auto simp: UpdateManagedRoots_def Let_def split: sum.splits prod.splits)
  with Inl failed show ?thesis by blast
next
  case (Inr st)
  with assms obtain n where n: "normalizeAllowlistRoots h roots (c_QuarantineRoot (cm_config m)) = Inr n"
    "validateRootsWithin n (cm_maximumRoots m) = Inr ()"
    by (auto simp: UpdateManagedRoots_def Let_def split: sum.splits)
  obtain y d1 where sv: "saveManagedRoots (cm_path m) n d = (y, d1)" by (metis surj_pair)
  from assms Inr n sv obtain u where "y = Inr u" "d1 = d'"
    and m': "m' = m\<lparr>cm_config := (cm_config m)\<lparr>c_LabFileRoots := n, c_AllowedFileRoots := appendUniquePaths n (c_QuarantineRoot (cm_config m))\<rparr>,
         cm_targets := map_option (\<lambda>_. appendUniquePaths n (c_QuarantineRoot (cm_config m))) (cm_targets m)\<rparr>"
    by (auto simp: UpdateManagedRoots_def Let_def split: sum.splits)
  with sv config_file.save_done [of "(cm_path m, \<lparr>mr_SchemaVersion = 1, mr_ManagedRoots = n\<rparr>)" d u d']
  have "files d' = (files d)(cm_path m \<mapsto> Valid \<lparr>mr_SchemaVersion = 1, mr_ManagedRoots = n\<rparr>)"
    by (simp add: saveManagedRoots_def)
  with saved [OF n _ m'] Inr show ?thesis by simp
qed

lemma UpdateManagedRoots_inv:
  assumes "resolves_absolute h" "UpdateManagedRoots h roots m d = (x, m', d')" "manager_inv m"
  shows "manager_inv m'"
  using assms(2)
proof (cases rule: UpdateManagedRoots_cases)
  case (saved n)
  let ?a = "appendUniquePaths n (c_QuarantineRoot (cm_config m))"
  have "manager_inv \<lparr>cm_path = cm_path m, cm_config = (cm_config m)\<lparr>c_LabFileRoots := n, c_AllowedFileRoots := ?a\<rparr>,
      cm_maximumRoots = cm_maximumRoots m, cm_targets = map_option (\<lambda>_. ?a) (cm_targets m)\<rparr>"
    using assms(3) by (intro narrowed_inv [OF assms(1) saved(1,2)]) (auto simp: manager_inv_def config_ok_def)
  with saved(4) show ?thesis by (cases m) simp
qed (use assms(3) in simp)

lemma manager_inv_bound:
  assumes "manager_inv m" "withinAny p (c_LabFileRoots (cm_config m))"
  shows "withinAny p (cm_maximumRoots m)"
proof -
  have abs: "list_all IsAbs (c_LabFileRoots (cm_config m))" "list_all IsAbs (cm_maximumRoots m)"
    using assms(1) by (auto simp: manager_inv_def config_ok_def good_root_def list_all_iff)
  then show ?thesis
    using config_paths.inside_narrow [OF abs] assms
    unfolding withinAny_def manager_inv_def by (metis config_paths.inside_iff list_all_iff)
qed

subsection \<open>The browser stays below its roots\<close>

lemma select_root_spec:
  "select_root clean roots sel = sel \<or> (\<exists>c \<in> set roots. select_root clean roots sel = Clean c \<and> sameOrInside clean (Clean c))"
  by (induction roots arbitrary: sel) (fastforce simp: Let_def)+

lemma openBoundedRoot_ok:
  assumes "openBoundedRoot h path roots = Inr (sel, rel)"
  shows "\<exists>c \<in> set roots. sel = Clean c \<and> sameOrInside (Clean path) (Clean c)"
  using assms select_root_spec [of "Clean path" roots "[]"]
  by (auto simp: openBoundedRoot_def Let_def split: if_splits sum.splits)

lemma openBoundedRoot_under:
  assumes "openBoundedRoot h path roots = Inr (sel, rel)" "\<forall>r \<in> set roots. IsAbs r"
  shows "\<exists>c \<in> set roots. sel = Clean c \<and> under c path"
  using openBoundedRoot_ok [OF assms(1)] assms(2) config_paths.inside_iff [of "Clean _" "Clean path"] by force

lemma browse_at_path:
  assumes "browse_at h clean mode limit m = Inr b"
    and "\<forall>r \<in> set (cm_maximumRoots m). IsAbs r" "\<forall>r \<in> set (c_ReadFileRoots (cm_config m)). IsAbs r"
  shows "\<exists>r \<in> set (if pb_Mode b = ''write'' then cm_maximumRoots m else c_ReadFileRoots (cm_config m)). under r (pb_Path b)"
proof -
  let ?roots = "if mode = ''write'' then cm_maximumRoots m else c_ReadFileRoots (cm_config m)"
  obtain rp rel where o: "openBoundedRoot h clean ?roots = Inr (rp, rel)"
    using assms(1) by (cases "openBoundedRoot h clean ?roots") (auto simp: browse_at_def Let_def)
  moreover from o assms(1) have "pb_Mode b = mode" "pb_Path b = clean"
    by (auto simp: browse_at_def Let_def split: if_splits sum.splits)
  ultimately show ?thesis using openBoundedRoot_under [OF o] assms(2,3) by (auto split: if_splits)
qed

lemma BrowsePath_at:
  assumes "BrowsePath h path mode limit m = Inr b"
  shows "\<exists>clean mode' limit'. browse_at h clean mode' limit' m = Inr b"
  using assms unfolding BrowsePath_def Let_def by (meson Inl_Inr_False)

lemma CreateDirectory_made:
  assumes "CreateDirectory h mk sy h' parent name m = (x, Some (root, rel))"
  shows "safeDirectoryName (TrimSpace name) \<and> withinAny (pathJoin [Clean (TrimSpace parent), TrimSpace name]) (cm_maximumRoots m)
    \<and> (\<exists>relParent. openBoundedRoot h (Clean (TrimSpace parent)) (cm_maximumRoots m) = Inr (root, relParent)
         \<and> rel = pathJoin [relParent, TrimSpace name])"
  using assms by (auto simp: CreateDirectory_def Let_def split: if_splits sum.splits)

subsection \<open>Properties\<close>

text \<open>A run of updates of the managed roots, each against its own state of the host.\<close>

fun update_all :: "(host \<times> string list) list \<Rightarrow> ConfigManager \<Rightarrow> config_disk \<Rightarrow> ConfigManager \<times> config_disk" where
  "update_all [] m d = (m, d)"
| "update_all ((h, roots) # us) m d = (case UpdateManagedRoots h roots m d of (_, m', d') \<Rightarrow> update_all us m' d')"

lemma update_all_inv:
  assumes "list_all (\<lambda>(h, _). resolves_absolute h) us" "manager_inv m" "update_all us m d = (m', d')"
  shows "manager_inv m' \<and> cm_maximumRoots m' = cm_maximumRoots m
    \<and> c_QuarantineRoot (cm_config m') = c_QuarantineRoot (cm_config m)"
  using assms
proof (induction us arbitrary: m d)
  case (Cons u us)
  obtain h roots where u: "u = (h, roots)" by (metis surj_pair)
  obtain x m1 d1 where U: "UpdateManagedRoots h roots m d = (x, m1, d1)" by (metis prod_cases3)
  have inv: "manager_inv m1" using UpdateManagedRoots_inv [OF _ U] Cons.prems u by simp
  have "cm_maximumRoots m1 = cm_maximumRoots m \<and> c_QuarantineRoot (cm_config m1) = c_QuarantineRoot (cm_config m)"
    using U by (cases rule: UpdateManagedRoots_cases) auto
  with Cons.IH [OF _ inv] Cons.prems u U show ?case by simp
qed simp

text \<open>Whatever requests arrive to change the managed roots and whatever writes fail, the file roots in force
  never leave what the administrator configured: every path they contain is under a lab root of the configuration
  file or in the quarantine, and the target checks use exactly these roots.\<close>

theorem managed_roots_stay_bounded:
  assumes "config_ok c" "resolves_absolute h" "NewConfigManager h path c t d = (Inr m, d1)"
    and "list_all (\<lambda>(h, _). resolves_absolute h) us" "update_all us m d1 = (m', d2)"
    and "withinAny p (c_AllowedFileRoots (cm_config m'))"
  shows "(sameOrInside p (c_QuarantineRoot c) \<or> withinAny p (c_LabFileRoots c))
    \<and> cm_targets m' \<in> {None, Some (c_AllowedFileRoots (cm_config m'))}"
proof -
  have inv: "manager_inv m" using NewConfigManager_inv [OF assms(2,1,3)] .
  have mx: "cm_maximumRoots m = c_LabFileRoots c \<and> c_QuarantineRoot (cm_config m) = c_QuarantineRoot c"
    using assms(3) by (auto simp: NewConfigManager_def Let_def split: sum.splits prod.splits if_splits)
  note inv' = update_all_inv [OF assms(4) inv assms(5)]
  have "sameOrInside p (c_QuarantineRoot c) \<or> withinAny p (c_LabFileRoots (cm_config m'))"
    using assms(6) inv' mx by (auto simp: manager_inv_def withinAny_def list_ex_iff)
  with manager_inv_bound [of m' p] inv' mx show ?thesis by (auto simp: manager_inv_def)
qed


text \<open>An accepted update of the managed roots survives a restart: a manager built afterwards from the same base
  configuration has the updated roots, provided the host still resolves each of them to itself.\<close>

theorem managed_roots_survive_restart:
  assumes "UpdateManagedRoots h roots m d = (Inr st, m', d')" "manager_inv m" "resolves_absolute h"
    and "c_LabFileRoots c = cm_maximumRoots m" "c_QuarantineRoot c = c_QuarantineRoot (cm_config m)" "Clean (cm_path m) = cm_path m"
    and "\<forall>r \<in> set (c_LabFileRoots (cm_config m')). normalizeAllowlistRoot h' r = Inr r"
    and "files d2 = files d'" "healthy d2"
  shows "\<exists>m2 d3. NewConfigManager h' (cm_path m) c t d2 = (Inr m2, d3)
    \<and> c_LabFileRoots (cm_config m2) = c_LabFileRoots (cm_config m')
    \<and> c_AllowedFileRoots (cm_config m2) = c_AllowedFileRoots (cm_config m')"
  using assms(1)
proof (cases rule: UpdateManagedRoots_cases)
  case (saved n)
  let ?q = "c_QuarantineRoot (cm_config m)"
  from saved(4) have lab: "c_LabFileRoots (cm_config m') = n" "c_AllowedFileRoots (cm_config m') = appendUniquePaths n ?q"
    by simp_all
  from assms(2) have gq: "good_root ?q" by (simp add: manager_inv_def config_ok_def)
  note g = normalizeAllowlistRoots_good [OF assms(3) saved(1)]
  have apart: "\<not> sameOrInside r ?q \<and> \<not> sameOrInside ?q r" if "r \<in> set n" for r
    using g(3,4) that good_root_simps [OF gq] config_paths.inside_iff by (auto simp: overlaps_def good_root_def)
  have uniq: "\<forall>x \<in> set n. normalizeAllowlistRoot h' x = Inr x \<and> Clean x = x"
    using assms(7) lab g(3) by (auto simp: good_root_def)
  have "normalize_loop h' ?q ys xs = Inr (xs @ ys)" if "n = xs @ ys" for xs ys
    using that
  proof (induction ys arbitrary: xs)
    case (Cons y ys)
    have "appendUniquePaths xs y = xs @ [y]"
      using uniq g(2) Cons.prems by (auto simp: appendUniquePaths_def Let_def list_ex_iff)
    with Cons.IH [of "xs @ [y]"] Cons.prems apart uniq show ?case by auto
  qed simp
  then have nl: "normalizeAllowlistRoots h' n ?q = Inr n" using g(1) by (simp add: normalizeAllowlistRoots_def)
  obtain d3 where "loadManagedRoots (cm_path m) d2 = (Inr n, d3)"
    using healthy_read_file [OF assms(9), of "cm_path m"] saved(5) assms(8) by (auto simp: loadManagedRoots_def)
  with nl saved(2) assms(4-6) lab show ?thesis by (auto simp: NewConfigManager_def Let_def)
qed simp

text \<open>The path browser answers only for paths under the configured roots of its mode, and a directory is created
  only under an administrator-defined root, with a name that is a single path element.\<close>

theorem browser_stays_in_roots:
  assumes "\<forall>r \<in> set (cm_maximumRoots m). IsAbs r" "\<forall>r \<in> set (c_ReadFileRoots (cm_config m)). IsAbs r"
  shows "(\<forall>b. BrowsePath h path mode limit m = Inr b \<longrightarrow>
      (\<exists>r \<in> set (if pb_Mode b = ''write'' then cm_maximumRoots m else c_ReadFileRoots (cm_config m)). under r (pb_Path b)))
    \<and> (\<forall>x root rel. CreateDirectory h mk sy h' parent name m = (x, Some (root, rel)) \<longrightarrow>
      CHR ''/'' \<notin> set (TrimSpace name) \<and> TrimSpace name \<notin> {[], ''.'', ''..''}
      \<and> (\<exists>c \<in> set (cm_maximumRoots m). root = Clean c \<and> under c (TrimSpace parent))
      \<and> (\<exists>c \<in> set (cm_maximumRoots m). under c (pathJoin [Clean (TrimSpace parent), TrimSpace name])))"
proof (intro conjI allI impI)
  fix b assume "BrowsePath h path mode limit m = Inr b"
  then show "\<exists>r \<in> set (if pb_Mode b = ''write'' then cm_maximumRoots m else c_ReadFileRoots (cm_config m)). under r (pb_Path b)"
    using BrowsePath_at browse_at_path [OF _ assms] by blast
next
  fix x root rel assume "CreateDirectory h mk sy h' parent name m = (x, Some (root, rel))"
  note c = CreateDirectory_made [OF this]
  then show "CHR ''/'' \<notin> set (TrimSpace name)" "TrimSpace name \<notin> {[], ''.'', ''..''}"
    by (auto simp: safeDirectoryName_def)
  from c openBoundedRoot_under [OF _ assms(1)] show "\<exists>c \<in> set (cm_maximumRoots m). root = Clean c \<and> under c (TrimSpace parent)"
    by fastforce
  from c assms(1) show "\<exists>c \<in> set (cm_maximumRoots m). under c (pathJoin [Clean (TrimSpace parent), TrimSpace name])"
    by (auto simp: withinAny_def list_ex_iff config_paths.inside_iff)
qed

subsection \<open>A concrete configuration\<close>

definition sample_config :: Config where
  "sample_config = \<lparr>c_SchemaVersion = 1, c_AllowedServices = [''nginx.service''], c_ReadFileRoots = [''/''],
     c_AllowedFileRoots = [''/srv''], c_LabFileRoots = [''/srv/lab''], c_QuarantineRoot = ''/srv/q'',
     c_AllowedProcessExecutables = []\<rparr>"

definition sample_manager :: ConfigManager where
  "sample_manager = \<lparr>cm_path = ''/m.yaml'', cm_config = sample_config\<lparr>c_AllowedFileRoots := [''/srv/lab'', ''/srv/q'']\<rparr>,
     cm_maximumRoots = [''/srv/lab''], cm_targets = Some [''/srv/lab'', ''/srv/q'']\<rparr>"

lemma sample_config_ok: "config_ok sample_config"
  by code_simp

lemma sample_loads: "LoadConfig (\<lambda>_. Inr sample_config) empty_host (Inr []) = Inr sample_config"
  by code_simp

lemma sample_starts: "NewConfigManager empty_host ''/m.yaml'' sample_config True (reliable Map.empty)
    = (Inr sample_manager, (reliable Map.empty)\<lparr>io_count := 1\<rparr>)"
proof -
  have l: "loadManagedRoots ''/m.yaml'' (reliable Map.empty) = (Inl ErrNotExist, (reliable Map.empty)\<lparr>io_count := 1\<rparr>)"
    by (simp add: loadManagedRoots_def read_file_def syscall_def reliable_def)
  have n: "normalizeAllowlistRoots empty_host [''/srv/lab''] ''/srv/q'' = Inr [''/srv/lab'']"
    and v: "validateRootsWithin [''/srv/lab''] [''/srv/lab''] = Inr ()"
    and a: "appendUniquePaths [''/srv/lab''] ''/srv/q'' = [''/srv/lab'', ''/srv/q'']" and c: "Clean ''/m.yaml'' = ''/m.yaml''"
    by code_simp+
  show ?thesis
    by (simp add: NewConfigManager_def Let_def l n v a c sample_config_def sample_manager_def IsNotExist_def)
qed

lemma sample_inv: "manager_inv sample_manager"
  using NewConfigManager_inv [OF resolves_empty_host sample_config_ok sample_starts] .

lemma sample_update:
  assumes "healthy d"
  shows "\<exists>st m' d'. UpdateManagedRoots empty_host [''/srv/lab/a''] sample_manager d = (Inr st, m', d') \<and> healthy d'
    \<and> c_LabFileRoots (cm_config m') = [''/srv/lab/a''] \<and> c_AllowedFileRoots (cm_config m') = [''/srv/lab/a'', ''/srv/q'']"
proof -
  have n: "normalizeAllowlistRoots empty_host [''/srv/lab/a''] ''/srv/q'' = Inr [''/srv/lab/a'']"
    and v: "validateRootsWithin [''/srv/lab/a''] [''/srv/lab''] = Inr ()"
    and a: "appendUniquePaths [''/srv/lab/a''] ''/srv/q'' = [''/srv/lab/a'', ''/srv/q'']"
    by code_simp+
  from config_file.save_healthy [OF assms, of "(''/m.yaml'', \<lparr>mr_SchemaVersion = 1, mr_ManagedRoots = [''/srv/lab/a'']\<rparr>)"]
  show ?thesis
    by (auto simp: UpdateManagedRoots_def Let_def n v a sample_manager_def sample_config_def saveManagedRoots_def)
qed

theorem managed_roots_stay_bounded_witness:
  "\<exists>m' d2. update_all [(empty_host, [''/srv/lab/a''])] sample_manager (reliable Map.empty) = (m', d2)
     \<and> withinAny ''/srv/lab/a/f'' (c_AllowedFileRoots (cm_config m')) \<and> withinAny ''/srv/lab/a/f'' (c_LabFileRoots sample_config)"
proof -
  have h: "healthy (reliable Map.empty :: config_disk)" by simp
  let ?d = "(reliable Map.empty :: config_disk)\<lparr>io_count := 1\<rparr>"
  have hd: "healthy ?d" by (simp add: healthy_def reliable_def)
  have w: "withinAny ''/srv/lab/a/f'' [''/srv/lab/a'', ''/srv/q'']" "\<not> sameOrInside ''/srv/lab/a/f'' ''/srv/q''" by code_simp+
  obtain m1 d1 where 1: "update_all [(empty_host, [''/srv/lab/a''])] sample_manager ?d = (m1, d1)"
    "c_AllowedFileRoots (cm_config m1) = [''/srv/lab/a'', ''/srv/q'']" using sample_update [OF hd] by auto
  obtain m2 d2 where 2: "update_all [(empty_host, [''/srv/lab/a''])] sample_manager (reliable Map.empty) = (m2, d2)"
    "c_AllowedFileRoots (cm_config m2) = [''/srv/lab/a'', ''/srv/q'']" using sample_update [OF h] by auto
  from managed_roots_stay_bounded [OF sample_config_ok resolves_empty_host sample_starts _ 1(1), of "''/srv/lab/a/f''"] w 1(2)
  have "withinAny ''/srv/lab/a/f'' (c_LabFileRoots sample_config)" by (simp add: resolves_empty_host sample_config_def)
  with 2 w show ?thesis by auto
qed


theorem managed_roots_survive_restart_witness:
  "\<exists>st m' d' m2 d3. UpdateManagedRoots empty_host [''/srv/lab/a''] sample_manager (reliable Map.empty) = (Inr st, m', d')
     \<and> NewConfigManager empty_host ''/m.yaml'' sample_config True d' = (Inr m2, d3) \<and> c_LabFileRoots (cm_config m2) = [''/srv/lab/a'']"
proof -
  obtain st m' d' where u: "UpdateManagedRoots empty_host [''/srv/lab/a''] sample_manager (reliable Map.empty) = (Inr st, m', d')"
    "healthy d'" "c_LabFileRoots (cm_config m') = [''/srv/lab/a'']" using sample_update [OF healthy_reliable(1)] by blast
  have p: "cm_path sample_manager = ''/m.yaml''" "c_LabFileRoots sample_config = cm_maximumRoots sample_manager"
    "c_QuarantineRoot sample_config = c_QuarantineRoot (cm_config sample_manager)"
    by (simp_all add: sample_manager_def sample_config_def)
  have n: "normalizeAllowlistRoot empty_host ''/srv/lab/a'' = Inr ''/srv/lab/a''" "Clean ''/m.yaml'' = ''/m.yaml''" by code_simp+
  from managed_roots_survive_restart [OF u(1) sample_inv resolves_empty_host p(2,3) _ _ refl u(2), of empty_host True] p(1) n u(1,3)
  show ?thesis by auto
qed

theorem browser_stays_in_roots_witness:
  "\<exists>b. BrowsePath empty_host ''/srv/lab/../lab/x'' ''write'' 10 sample_manager = Inr b \<and> under ''/srv/lab'' (pb_Path b)"
proof -
  have r: "\<forall>r \<in> set (cm_maximumRoots sample_manager). IsAbs r" "\<forall>r \<in> set (c_ReadFileRoots (cm_config sample_manager)). IsAbs r"
    by code_simp+
  have "case BrowsePath empty_host ''/srv/lab/../lab/x'' ''write'' 10 sample_manager of Inr b \<Rightarrow> pb_Mode b = ''write'' | Inl _ \<Rightarrow> False"
    by code_simp
  then obtain b where b: "BrowsePath empty_host ''/srv/lab/../lab/x'' ''write'' 10 sample_manager = Inr b" "pb_Mode b = ''write''"
    by (auto split: sum.splits)
  with browser_stays_in_roots [OF r, of empty_host "''/srv/lab/../lab/x''" "''write''" 10]
  have "under ''/srv/lab'' (pb_Path b)" by (auto simp: sample_manager_def)
  with b show ?thesis by blast
qed

end
