(* ===== verification/Targets.thy ===== *)
theory Targets
  imports Config Contracts
begin

text \<open>
  \<open>internal/executor/target.go\<close>: snapshots of processes, services and files, their revalidation just before an
  action, and the executor's fixed scope. What \<open>internal/platform\<close> reports (process identities from \<open>/proc\<close>,
  service states from \<open>systemctl\<close>) and the answers of the file system are arguments.
\<close>

subsection \<open>The platform interface\<close>

record ProcessIdentity =
  pi_StartTicks :: uint64
  pi_CommandDigest :: string
  pi_UID :: int
  pi_Executable :: string

record ServiceStatus =
  ss_Name :: string
  ss_ActiveState :: string
  ss_SubState :: string
  ss_MainPID :: int

record platform =
  pf_ProcessIdentity :: "int \<Rightarrow> ProcessIdentity result"
  pf_Service :: "string \<Rightarrow> ServiceStatus result"

subsection \<open>Snapshots\<close>

definition withinRoots :: "string \<Rightarrow> string list \<Rightarrow> bool" where
  "withinRoots path roots = (let clean = Clean path in list_ex (\<lambda>root. rel_inside (Rel (Clean root) clean)) roots)"

interpretation executor_paths: path_containment "\<lambda>root path. withinRoots path [root]"
  by unfold_locales (simp add: withinRoots_def rel_inside_rooted under_def)

definition SnapshotProcess :: "platform \<Rightarrow> string \<Rightarrow> int \<Rightarrow> TargetSnapshot result" where
  "SnapshotProcess pf targetID pid =
     (case pf_ProcessIdentity pf pid of Inl e \<Rightarrow> Inl e
      | Inr i \<Rightarrow> Inr (zero_snapshot\<lparr>ts_Type := ''process'', ts_ID := targetID, ts_PID := pid, ts_StartTicks := pi_StartTicks i,
          ts_CommandDigest := pi_CommandDigest i, ts_UID := pi_UID i, ts_Executable := pi_Executable i\<rparr>))"

definition SnapshotService :: "platform \<Rightarrow> string \<Rightarrow> string \<Rightarrow> TargetSnapshot result" where
  "SnapshotService pf targetID unit =
     (case pf_Service pf unit of Inl e \<Rightarrow> Inl e
      | Inr s \<Rightarrow> Inr (zero_snapshot\<lparr>ts_Type := ''service'', ts_ID := targetID, ts_ServiceName := ss_Name s,
          ts_ActiveState := ss_ActiveState s, ts_MainPID := ss_MainPID s\<rparr>))"

definition SnapshotFile :: "host \<Rightarrow> string list \<Rightarrow> string \<Rightarrow> string \<Rightarrow> TargetSnapshot result" where
  "SnapshotFile h roots targetID path =
     (case h_EvalSymlinks h (Clean path) of Inl e \<Rightarrow> Inl e
      | Inr canonical \<Rightarrow>
          if \<not> withinRoots canonical roots then Inl (ErrorNew ''file path is outside allowed roots'')
          else (case h_Lstat h canonical of Inl e \<Rightarrow> Inl e
            | Inr info \<Rightarrow> Inr (zero_snapshot\<lparr>ts_Type := ''file'', ts_ID := targetID, ts_CanonicalPath := canonical,
                ts_Size := fi_Size info, ts_MTimeUnixNano := fi_ModTime info, ts_Mode := fi_Mode info, ts_Inode := fi_Ino info\<rparr>)))"

definition SnapshotNewFile :: "host \<Rightarrow> string list \<Rightarrow> string \<Rightarrow> string \<Rightarrow> TargetSnapshot result" where
  "SnapshotNewFile h roots targetID path =
     (let clean = Clean path in
      case h_EvalSymlinks h (Dir clean) of Inl e \<Rightarrow> Inl e
      | Inr parent \<Rightarrow>
        let name = Base clean in
        if name = ''.'' \<or> name = ''/'' \<or> name = [] then Inl (ErrorNew ''target file name is invalid'')
        else let canonical = pathJoin [parent, name] in
        if \<not> withinRoots canonical roots then Inl (ErrorNew ''file path is outside allowed roots'')
        else (case h_Lstat h canonical of
            Inr _ \<Rightarrow> Inl (ErrorNew ''target file already exists'')
          | Inl e \<Rightarrow> if \<not> IsNotExist e then Inl e
              else (case h_Lstat h parent of Inl e \<Rightarrow> Inl e
                | Inr info \<Rightarrow> if \<not> fi_IsDir info then Inl (ErrorNew ''target parent is not a directory'')
                    else Inr (zero_snapshot\<lparr>ts_Type := ''file'', ts_ID := targetID, ts_CanonicalPath := canonical,
                      ts_ExpectAbsent := True, ts_ParentPath := parent, ts_ParentInode := fi_Ino info\<rparr>))))"

definition current_snapshot :: "host \<Rightarrow> platform \<Rightarrow> string list \<Rightarrow> TargetSnapshot \<Rightarrow> TargetSnapshot result" where
  "current_snapshot h pf roots expected =
     (if ts_Type expected = ''process'' then SnapshotProcess pf (ts_ID expected) (ts_PID expected)
      else if ts_Type expected = ''service'' then SnapshotService pf (ts_ID expected) (ts_ServiceName expected)
      else if ts_Type expected = ''file'' then
        (if ts_ExpectAbsent expected then SnapshotNewFile h roots (ts_ID expected) (ts_CanonicalPath expected)
         else SnapshotFile h roots (ts_ID expected) (ts_CanonicalPath expected))
      else Inl (ErrorNew ''unsupported target snapshot type''))"

definition Revalidate :: "host \<Rightarrow> platform \<Rightarrow> string list \<Rightarrow> TargetSnapshot \<Rightarrow> unit result" where
  "Revalidate h pf roots expected =
     (case current_snapshot h pf roots expected of Inl e \<Rightarrow> Inl e
      | Inr current \<Rightarrow>
          if TargetSnapshot_Digest expected \<noteq> TargetSnapshot_Digest current
          then Inl (ErrorNew ''snapshot digest changed: expected %s got %s'') else Inr ())"

subsection \<open>Scope\<close>

definition Authorize :: "FixedScope \<Rightarrow> ActionEnvelope \<Rightarrow> unit result" where
  "Authorize s e =
     (let snapshot = ae_TargetSnapshot e in
      if ts_Type snapshot = ''service'' then
        (if \<not> fs_AllowedServices s (ToLower (ts_ServiceName snapshot)) then Inl (ErrorNew ''service is not allowlisted'') else Inr ())
      else if ts_Type snapshot = ''file'' then
        (if \<not> withinRoots (ts_CanonicalPath snapshot) (fs_AllowedFileRoots s) then Inl (ErrorNew ''file path is not allowlisted'') else Inr ())
      else if ts_Type snapshot = ''process'' then
        (if \<not> list_ex (\<lambda>p. ts_Executable snapshot = p \<or> prefix (p @ ''/'') (ts_Executable snapshot)) (fs_AllowedProcessExecutables s)
         then Inl (ErrorNew ''process executable is not allowlisted'') else Inr ())
      else Inl (ErrorNew ''unsupported target type''))"

text \<open>The specification of the scope: what a snapshot may name.\<close>

definition in_scope :: "FixedScope \<Rightarrow> TargetSnapshot \<Rightarrow> bool" where
  "in_scope s t \<longleftrightarrow>
     (ts_Type t = ''service'' \<and> fs_AllowedServices s (ToLower (ts_ServiceName t)))
     \<or> (ts_Type t = ''file'' \<and> (\<exists>r \<in> set (fs_AllowedFileRoots s). under r (ts_CanonicalPath t)))
     \<or> (ts_Type t = ''process'' \<and> (\<exists>p \<in> set (fs_AllowedProcessExecutables s).
          ts_Executable t = p \<or> (\<exists>rest. ts_Executable t = p @ ''/'' @ rest)))"

lemma withinRoots_iff:
  "list_all IsAbs roots \<Longrightarrow> withinRoots p roots \<longleftrightarrow> (\<exists>r \<in> set roots. under r p)"
  using executor_paths.inside_any [of roots p] by (simp add: withinRoots_def Let_def list_ex_iff)

lemma Authorize_iff:
  assumes "list_all IsAbs (fs_AllowedFileRoots s)"
  shows "Authorize s e = Inr () \<longleftrightarrow> in_scope s (ae_TargetSnapshot e)"
  using withinRoots_iff [OF assms]
  by (auto simp: Authorize_def in_scope_def Let_def list_ex_iff prefix_def split: if_splits)

text \<open>What a successful revalidation establishes: the target has, at this moment, exactly the attributes of the
  snapshot (or the two snapshots are a SHA-256 collision), and a file lies under the allowed roots.\<close>

lemma Revalidate_ok:
  assumes "Revalidate h pf roots s = Inr ()"
  obtains (same) "current_snapshot h pf roots s = Inr s"
  | (collision) t where "current_snapshot h pf roots s = Inr t" "sha_collision (json_text (json_snapshot s)) (json_text (json_snapshot t))"
proof -
  from assms obtain t where t: "current_snapshot h pf roots s = Inr t" "TargetSnapshot_Digest s = TargetSnapshot_Digest t"
    by (auto simp: Revalidate_def split: sum.splits if_splits)
  from t(2) have "s = t \<or> sha_collision (json_text (json_snapshot s)) (json_text (json_snapshot t))"
    by (simp add: TargetSnapshot_Digest_iff)
  with t same collision show ?thesis by blast
qed

lemma Revalidate_same: "current_snapshot h pf roots s = Inr s \<Longrightarrow> Revalidate h pf roots s = Inr ()"
  by (simp add: Revalidate_def)

lemma file_snapshot_bounded:
  assumes "current_snapshot h pf roots s = Inr t" "ts_Type s = ''file''" "list_all IsAbs roots"
  shows "\<exists>r \<in> set roots. under r (ts_CanonicalPath t)"
  using assms withinRoots_iff [OF assms(3)]
  by (auto simp: current_snapshot_def SnapshotFile_def SnapshotNewFile_def Let_def zero_snapshot_def
      split: if_splits sum.splits)

subsection \<open>Properties\<close>

text \<open>The fixed scope authorises an envelope exactly when its target is an allowlisted service, a file under an
  allowed root (segment by segment, after cleaning) or a process whose executable is allowlisted.\<close>

theorem scope_exact:
  assumes "list_all IsAbs (fs_AllowedFileRoots s)"
  shows "Authorize s e = Inr () \<longleftrightarrow> in_scope s (ae_TargetSnapshot e)"
  by (rule Authorize_iff [OF assms])

definition sample_action :: "TargetSnapshot \<Rightarrow> ActionEnvelope" where
  "sample_action t = \<lparr>ae_SchemaVersion = 1, ae_TraceID = ''t1'', ae_TaskID = ''t1'', ae_SessionID = ''s1'',
     ae_Proposal = \<lparr>ap_ProposalID = ''p1'', ap_TaskID = ''t1'', ap_SessionID = ''s1'', ap_Tool = ''file.delete'', ap_Effect = Write,
       ap_Arguments = None, ap_Target = \<lparr>tr_Type = ts_Type t, tr_ID = ts_ID t, tr_Criticality = []\<rparr>, ap_BatchSize = 1,
       ap_Reversible = True, ap_RollbackStrategy = ''quarantine'', ap_LabMode = False, ap_SystemState = [],
       ap_Intent = \<lparr>ic_OriginalRequest = [], ic_Objective = [], ic_ObjectiveTargets = [], ic_PlanStep = [], ic_PlanTargets = [],
         ic_AuthorizedRelations = []\<rparr>\<rparr>,
     ae_ProposalDigest = [], ae_TargetSnapshot = t, ae_Risk = zero_risk, ae_IntentDigest = [], ae_PolicyVersion = [],
     ae_ExpiresAt = 0, ae_Nonce = ''n1'', ae_ApprovalID = [], ae_Signature = []\<rparr>"

theorem scope_exact_witness:
  "Authorize (Scope sample_config) (sample_action (zero_snapshot\<lparr>ts_Type := ''file'', ts_CanonicalPath := ''/srv/../etc/x''\<rparr>)) \<noteq> Inr ()"
proof -
  have "list_all IsAbs (fs_AllowedFileRoots (Scope sample_config))" "\<not> under ''/srv'' ''/srv/../etc/x''" by code_simp+
  with scope_exact [OF this(1), of "sample_action (zero_snapshot\<lparr>ts_Type := ''file'', ts_CanonicalPath := ''/srv/../etc/x''\<rparr>)"]
  show ?thesis by (simp add: in_scope_def Scope_def sample_config_def sample_action_def)
qed

text \<open>A file whose revalidation succeeds has not changed since its snapshot: path, size, modification time, mode
  and inode (for a file to be created: its absence and the parent's inode) are what the snapshot says and the path is
  under an allowed root, or a SHA-256 collision between two snapshots has been found.\<close>

theorem revalidated_file_unchanged:
  assumes "Revalidate h pf roots s = Inr ()" "ts_Type s = ''file''" "list_all IsAbs roots"
  shows "(current_snapshot h pf roots s = Inr s \<and> (\<exists>r \<in> set roots. under r (ts_CanonicalPath s)))
    \<or> (\<exists>t. current_snapshot h pf roots s = Inr t \<and> sha_collision (json_text (json_snapshot s)) (json_text (json_snapshot t)))"
  using assms(1)
proof (cases rule: Revalidate_ok)
  case same
  with file_snapshot_bounded [OF same assms(2,3)] show ?thesis by blast
qed blast

definition sample_host :: host where
  "sample_host = empty_host\<lparr>h_Lstat := (\<lambda>p. if p = ''/srv/lab/f'' then Inr \<lparr>fi_Size = 3, fi_ModTime = 7, fi_Mode = 0x180, fi_Ino = 42\<rparr> else Inl ErrNotExist)\<rparr>"

definition sample_snapshot :: TargetSnapshot where
  "sample_snapshot = zero_snapshot\<lparr>ts_Type := ''file'', ts_ID := ''/srv/lab/f'', ts_CanonicalPath := ''/srv/lab/f'', ts_Size := 3,
     ts_MTimeUnixNano := 7, ts_Mode := 0x180, ts_Inode := 42\<rparr>"

lemma sample_current: "current_snapshot sample_host pf [''/srv/lab''] sample_snapshot = Inr sample_snapshot"
proof -
  have "Clean ''/srv/lab/f'' = ''/srv/lab/f''" "withinRoots ''/srv/lab/f'' [''/srv/lab'']" by code_simp+
  then show ?thesis
    by (simp add: current_snapshot_def SnapshotFile_def sample_host_def sample_snapshot_def empty_host_def zero_snapshot_def)
qed

theorem revalidated_file_unchanged_witness:
  "(\<exists>r \<in> set [''/srv/lab'']. under r (ts_CanonicalPath sample_snapshot))
    \<or> (\<exists>t. sha_collision (json_text (json_snapshot sample_snapshot)) (json_text (json_snapshot t)))"
  using revalidated_file_unchanged [OF Revalidate_same [OF sample_current]]
  by (auto simp: sample_snapshot_def IsAbs_def)

end
