(* ===== verification/Executor.thy ===== *)
theory Executor
  imports Guard Approval Nonce Targets
begin

text \<open>
  \<open>internal/executor/validator.go\<close>, \<open>executor.go\<close>, \<open>http.go\<close> and \<open>secret.go\<close>: the privileged executor. An envelope is revalidated from
  scratch (schema, correlation, expiry, signature, digests, policy, safety pipeline, risk, approval, scope,
  target, nonce), its approval is consumed, and only then the handler of its tool runs. The interfaces
  \<open>ScopeAuthorizer\<close> and \<open>TargetRevalidator\<close> are arguments with their contracts as a locale; the handlers are
  functions on a world the executor does not look into. \<open>xs_log\<close> is a ghost: the envelopes whose handler
  has been called, newest first.
\<close>

subsection \<open>secret.go\<close>

definition ReadSecretFile :: "(string \<Rightarrow> FileInfo result) \<Rightarrow> (string \<Rightarrow> string result) \<Rightarrow> string \<Rightarrow> string result" where
  "ReadSecretFile stat readFile path =
     (case stat path of Inl e \<Rightarrow> Inl e
      | Inr info \<Rightarrow>
          if \<not> fi_IsRegular info then Inl (ErrorNew ''HMAC secret must be a regular file'')
          else if fi_Perm info AND 0x3F \<noteq> 0 then Inl (ErrorNew ''HMAC secret permissions must not allow group or other access'')
          else (case readFile path of Inl e \<Rightarrow> Inl e
            | Inr b \<Rightarrow> let secret = TrimSpace b in
                if length secret < 32 then Inl (ErrorNew ''HMAC secret must contain at least 32 bytes'') else Inr secret))"

subsection \<open>validator.go\<close>

record Validator =
  v_Secret :: string
  v_Catalog :: Catalog
  v_HasNonces :: bool
  v_HasApprovals :: bool
  v_Scope :: "(ActionEnvelope \<Rightarrow> unit result) option"
  v_Targets :: "(TargetSnapshot \<Rightarrow> unit result) option"
  v_MaxTTL :: duration

record Validation =
  va_Binding :: Binding
  va_ApprovalRequired :: bool

record 'w exec_state =
  xs_approvals :: approvals
  xs_nonces :: NonceStore
  xs_nonce_disk :: nonce_disk
  xs_world :: 'w
  xs_log :: "ActionEnvelope list"

text \<open>The clock readings of one execution, in the order they are made: the validator's, the approval store's in
  \<open>Validate\<close>, the nonce store's, and the approval store's two in \<open>Consume\<close>.\<close>

record exec_clock =
  t_current :: timestamp
  t_validate :: timestamp
  t_reserve :: timestamp
  t_consume :: timestamp
  t_consumed :: timestamp

definition max_ttl :: "Validator \<Rightarrow> duration" where
  "max_ttl v = (if v_MaxTTL v \<le> 0 then 15 * minute else v_MaxTTL v)"

definition envelope_binding :: "ActionEnvelope \<Rightarrow> string \<Rightarrow> Binding" where
  "envelope_binding e snapshotDigest =
     \<lparr>b_TaskID = ae_TaskID e, b_ProposalDigest = ae_ProposalDigest e, b_TargetSnapshotDigest = snapshotDigest,
      b_IntentDigest = ae_IntentDigest e, b_PolicyVersion = ae_PolicyVersion e, b_RiskLevel = rr_Level (ae_Risk e),
      b_Tool = ap_Tool (ae_Proposal e), b_Nonce = ae_Nonce e\<rparr>"

text \<open>The checks of \<open>Validator.Validate\<close> that read no store, in the order of the code; on success the binding and
  whether an approval is required. \<open>id1\<close>, \<open>id2\<close> are the fresh decision ids of the pipeline.\<close>

definition check_envelope :: "Validator \<Rightarrow> timestamp \<Rightarrow> string \<Rightarrow> string \<Rightarrow> ActionEnvelope \<Rightarrow> Validation result" where
  "check_envelope v current id1 id2 e =
     (let p = ae_Proposal e; s = ae_TargetSnapshot e in
      if ae_SchemaVersion e \<noteq> 1 then Inl (ErrorNew ''unsupported ActionEnvelope schema'')
      else if ae_TraceID e = [] \<or> ae_TaskID e = [] \<or> ae_SessionID e = [] then Inl (ErrorNew ''envelope correlation IDs are required'')
      else if ap_TaskID p \<noteq> ae_TaskID e \<or> ap_SessionID p \<noteq> ae_SessionID e then Inl (ErrorNew ''envelope task/session binding mismatch'')
      else if ap_Tool p = [] then Inl (ErrorNew ''invalid envelope tool'')
      else if ae_Nonce e = [] then Inl (ErrorNew ''envelope nonce is required'')
      else if \<not> ae_ExpiresAt e > current then Inl (ErrorNew ''envelope expired'')
      else if ae_ExpiresAt e > current + max_ttl v then Inl (ErrorNew ''envelope expiry exceeds maximum TTL'')
      else (case VerifySignature (v_Secret v) e of Inl err \<Rightarrow> Inl err | Inr _ \<Rightarrow>
      (case ActionProposal_Digest p of Inl err \<Rightarrow> Inl err | Inr proposalDigest \<Rightarrow>
        if proposalDigest \<noteq> ae_ProposalDigest e then Inl (ErrorNew ''proposal digest mismatch'')
        else if ae_PolicyVersion e \<noteq> VersionID (Some (v_Catalog v)) then Inl (ErrorNew ''policy version mismatch'')
        else if CanonicalTarget (ap_Target p) \<noteq> CanonicalTarget \<lparr>tr_Type = ts_Type s, tr_ID = ts_ID s, tr_Criticality = []\<rparr>
          then Inl (ErrorNew ''target snapshot binding mismatch'')
        else let safety = SafetyPipeline_Evaluate (v_Catalog v) id1 id2 p in
          if gd_Outcome (pr_Static safety) = Deny \<or> id_Outcome (pr_Intent safety) = Deny \<or> gd_Outcome (pr_Final safety) = Deny
            then Inl (ErrorNew (''executor safety revalidation denied: '' @ gd_Reason (pr_Final safety)))
          else if id_IntentDigest (pr_Intent safety) \<noteq> ae_IntentDigest e then Inl (ErrorNew ''intent digest mismatch'')
          else if pr_Risk safety \<noteq> ae_Risk e then Inl (ErrorNew ''risk result mismatch'')
          else (case TargetSnapshot_Digest s of Inl err \<Rightarrow> Inl err
            | Inr snapshotDigest \<Rightarrow> Inr \<lparr>va_Binding = envelope_binding e snapshotDigest,
                va_ApprovalRequired = (gd_Outcome (pr_Final safety) = RequireApproval)\<rparr>))))"

text \<open>The checks that read the stores and the machine: approval, scope, target, and last the nonce.\<close>

definition Validator_Validate :: "Validator \<Rightarrow> exec_clock \<Rightarrow> string \<Rightarrow> string \<Rightarrow> ActionEnvelope \<Rightarrow> 'w exec_state \<Rightarrow> Validation result \<times> 'w exec_state" where
  "Validator_Validate v t id1 id2 e st =
     (case check_envelope v (t_current t) id1 id2 e of Inl err \<Rightarrow> (Inl err, st)
      | Inr va \<Rightarrow>
        (case (if va_ApprovalRequired va then
                 (if ae_ApprovalID e = [] \<or> \<not> v_HasApprovals v then (Inl (ErrorNew ''valid approval is required''), xs_approvals st)
                  else Validate (ae_ApprovalID e) (t_validate t) (va_Binding va) (xs_approvals st))
               else (Inr (), xs_approvals st)) of
           (Inl err, ap) \<Rightarrow> (Inl err, st\<lparr>xs_approvals := ap\<rparr>)
         | (Inr _, ap) \<Rightarrow>
           let st = st\<lparr>xs_approvals := ap\<rparr> in
           (case v_Scope v of None \<Rightarrow> (Inl (ErrorNew ''executor target scope is not configured''), st)
            | Some authorize \<Rightarrow>
              (case authorize e of Inl err \<Rightarrow> (Inl (Wrapf ''target scope denied'' err), st)
               | Inr _ \<Rightarrow>
                 (case v_Targets v of None \<Rightarrow> (Inl (ErrorNew ''target revalidator is not configured''), st)
                  | Some revalidate \<Rightarrow>
                    (case revalidate (ae_TargetSnapshot e) of Inl err \<Rightarrow> (Inl (Wrapf ''TARGET_CHANGED'' err), st)
                     | Inr _ \<Rightarrow>
                       if \<not> v_HasNonces v then (Inl (ErrorNew ''nonce store is not configured''), st)
                       else (case Reserve (ae_Nonce e) (ae_ExpiresAt e) (t_reserve t) (xs_nonces st) (xs_nonce_disk st) of
                           (r, ns, nd) \<Rightarrow>
                             let st = st\<lparr>xs_nonces := ns, xs_nonce_disk := nd\<rparr> in
                             (case r of Inl err \<Rightarrow> (Inl err, st) | Inr _ \<Rightarrow> (Inr va, st)))))))))"

subsection \<open>executor.go\<close>

record Verification =
  vf_Verified :: bool
  vf_Checks :: "string list"
  vf_Evidence :: "(string \<times> string) list"

datatype ExecutionMode = DirectRestricted | LabSandbox | DryRun

record Result =
  res_Tool :: string
  res_Mode :: ExecutionMode
  res_Status :: string
  res_Message :: string
  res_ActionID :: string
  res_Changed :: bool
  res_Verification :: "Verification option"
  res_StartedAt :: timestamp
  res_FinishedAt :: timestamp

type_synonym 'w handler = "ActionEnvelope \<Rightarrow> 'w \<Rightarrow> Result result \<times> 'w"

definition fixedHandlers :: "string list" where
  "fixedHandlers = [''service.restart'', ''service.start'', ''service.stop'', ''process.terminate'', ''file.quarantine'',
     ''file.restore_quarantine'', ''file.create'', ''file.delete'']"

definition Execute :: "Validator \<Rightarrow> (string \<Rightarrow> 'w handler option) \<Rightarrow> exec_clock \<Rightarrow> string \<Rightarrow> string \<Rightarrow> ActionEnvelope \<Rightarrow> 'w exec_state \<Rightarrow> Result result \<times> 'w exec_state" where
  "Execute v handlers t id1 id2 e st =
     (case handlers (ap_Tool (ae_Proposal e)) of
        None \<Rightarrow> (Inl (ErrorNew ''executor has no fixed handler for tool''), st)
      | Some h \<Rightarrow>
        if ap_Tool (ae_Proposal e) \<notin> set fixedHandlers then (Inl (ErrorNew ''executor has no fixed handler for tool''), st)
        else (case Validator_Validate v t id1 id2 e st of
            (Inl err, st) \<Rightarrow> (Inl err, st)
          | (Inr va, st) \<Rightarrow>
            (case (if va_ApprovalRequired va
                   then Consume (ae_ApprovalID e) (t_consume t) (t_consumed t) (va_Binding va) (xs_approvals st)
                   else (Inr (), xs_approvals st)) of
               (Inl err, ap) \<Rightarrow> (Inl (Wrapf ''consume approval'' err), st\<lparr>xs_approvals := ap\<rparr>)
             | (Inr _, ap) \<Rightarrow>
               (case h e (xs_world st) of (r, w) \<Rightarrow>
                  (r, st\<lparr>xs_approvals := ap, xs_world := w, xs_log := e # xs_log st\<rparr>)))))"

definition DryRunHandler :: "string \<Rightarrow> timestamp \<Rightarrow> 'w handler" where
  "DryRunHandler message now e w =
     (Inr \<lparr>res_Tool = ap_Tool (ae_Proposal e), res_Mode = DryRun, res_Status = ''DRY_RUN_OK'', res_Message = message, res_ActionID = [],
        res_Changed = False, res_Verification = Some \<lparr>vf_Verified = True, vf_Checks = [''envelope and target validation completed''],
        vf_Evidence = []\<rparr>, res_StartedAt = now, res_FinishedAt = now\<rparr>, w)"

subsection \<open>http.go\<close>

text \<open>\<open>POST /v1/execute\<close>: the body, limited to 1 MiB, must be exactly one JSON envelope. \<open>decode_one\<close> is the JSON decoder
  (\<open>DisallowUnknownFields\<close>): the first value and the rest of the body.\<close>

definition json_space :: "char \<Rightarrow> bool" where
  "json_space c \<longleftrightarrow> c \<in> {CHR 0x20, CHR 0x09, CHR 0x0A, CHR 0x0D}"

definition http_execute :: "(string \<Rightarrow> (ActionEnvelope \<times> string) result) \<Rightarrow> Validator \<Rightarrow> (string \<Rightarrow> 'w handler option) \<Rightarrow> exec_clock \<Rightarrow> string \<Rightarrow> string \<Rightarrow> string \<Rightarrow> 'w exec_state \<Rightarrow> (int \<times> Result result) \<times> 'w exec_state" where
  "http_execute decode_one v handlers t id1 id2 body st =
     (if length body > 2 ^ 20 then ((400, Inl (ErrorNew ''http: request body too large'')), st)
      else (case decode_one body of Inl err \<Rightarrow> ((400, Inl err), st)
        | Inr (e, rest) \<Rightarrow>
          if \<not> list_all json_space rest then ((400, Inl (ErrorNew ''body must contain one ActionEnvelope'')), st)
          else (case Execute v handlers t id1 id2 e st of
              (Inl err, st) \<Rightarrow> ((403, Inl err), st)
            | (Inr r, st) \<Rightarrow> ((200, Inr r), st))))"

subsection \<open>What the validator accepts\<close>

definition acceptable :: "Validator \<Rightarrow> timestamp \<Rightarrow> ActionEnvelope \<Rightarrow> bool" where
  "acceptable v now e \<longleftrightarrow>
     ae_SchemaVersion e = 1 \<and> ae_TraceID e \<noteq> [] \<and> ae_TaskID e \<noteq> [] \<and> ae_SessionID e \<noteq> []
     \<and> ap_TaskID (ae_Proposal e) = ae_TaskID e \<and> ap_SessionID (ae_Proposal e) = ae_SessionID e
     \<and> ap_Tool (ae_Proposal e) \<noteq> [] \<and> ae_Nonce e \<noteq> [] \<and> now < ae_ExpiresAt e \<and> ae_ExpiresAt e \<le> now + max_ttl v
     \<and> VerifySignature (v_Secret v) e = Inr ()
     \<and> ActionProposal_Digest (ae_Proposal e) = Inr (ae_ProposalDigest e)
     \<and> ae_PolicyVersion e = cat_Version (v_Catalog v)
     \<and> CanonicalTarget (ap_Target (ae_Proposal e))
         = CanonicalTarget \<lparr>tr_Type = ts_Type (ae_TargetSnapshot e), tr_ID = ts_ID (ae_TargetSnapshot e), tr_Criticality = []\<rparr>
     \<and> admissible (v_Catalog v) (ae_Proposal e)
     \<and> ae_IntentDigest e = intentDigest (ap_Intent (ae_Proposal e))
     \<and> ae_Risk e = RiskEngine_Evaluate (v_Catalog v) (ae_Proposal e)"

definition action_binding :: "ActionEnvelope \<Rightarrow> Binding" where
  "action_binding e = envelope_binding e (sha256_hex (json_text (json_snapshot (ae_TargetSnapshot e))))"

lemma pipeline_denies_iff:
  "(gd_Outcome (pr_Static (SafetyPipeline_Evaluate c i j p)) = Deny \<or> id_Outcome (pr_Intent (SafetyPipeline_Evaluate c i j p)) = Deny
    \<or> gd_Outcome (pr_Final (SafetyPipeline_Evaluate c i j p)) = Deny) \<longleftrightarrow> \<not> admissible c p"
  by (auto simp: pipeline_outcome pipeline_static Precheck_outcome pipeline_intent_outcome admissible_def)

lemma pipeline_approval_iff:
  "admissible c p \<Longrightarrow> gd_Outcome (pr_Final (SafetyPipeline_Evaluate c i j p)) = RequireApproval \<longleftrightarrow> approval_needed c p"
  by (simp add: pipeline_outcome)

lemma check_envelope_iff:
  "check_envelope v now i j e = Inr va \<longleftrightarrow> acceptable v now e
     \<and> va = \<lparr>va_Binding = action_binding e, va_ApprovalRequired = approval_needed (v_Catalog v) (ae_Proposal e)\<rparr>"
proof (cases "admissible (v_Catalog v) (ae_Proposal e)")
  case True
  note parts = True [unfolded admissible_def]
  have pp: "pr_Risk (SafetyPipeline_Evaluate (v_Catalog v) i j (ae_Proposal e)) = RiskEngine_Evaluate (v_Catalog v) (ae_Proposal e)"
    "id_IntentDigest (pr_Intent (SafetyPipeline_Evaluate (v_Catalog v) i j (ae_Proposal e))) = intentDigest (ap_Intent (ae_Proposal e))"
    using parts by (simp_all add: pipeline_parts)
  show ?thesis
    unfolding check_envelope_def acceptable_def Let_def pipeline_denies_iff pipeline_approval_iff [OF True] pp
    using True by (auto simp: action_binding_def TargetSnapshot_Digest_def VersionID_def split: sum.splits)
next
  case False
  then show ?thesis
    unfolding check_envelope_def acceptable_def Let_def pipeline_denies_iff by (auto split: sum.splits)
qed

subsection \<open>One execution\<close>

definition ran :: "ActionEnvelope \<Rightarrow> 'w exec_state \<Rightarrow> 'w exec_state \<Rightarrow> bool" where
  "ran e st st' \<longleftrightarrow> xs_log st' = e # xs_log st"

text \<open>Everything that holds when the handler of \<open>e\<close> runs.\<close>

definition mediated :: "Validator \<Rightarrow> exec_clock \<Rightarrow> ActionEnvelope \<Rightarrow> 'w exec_state \<Rightarrow> 'w exec_state \<Rightarrow> bool" where
  "mediated v t e st st' \<longleftrightarrow> acceptable v (t_current t) e
     \<and> ap_Tool (ae_Proposal e) \<in> set fixedHandlers
     \<and> (\<exists>authorize. v_Scope v = Some authorize \<and> authorize e = Inr ())
     \<and> (\<exists>revalidate. v_Targets v = Some revalidate \<and> revalidate (ae_TargetSnapshot e) = Inr ())
     \<and> Reserve (ae_Nonce e) (ae_ExpiresAt e) (t_reserve t) (xs_nonces st) (xs_nonce_disk st) = (Inr (), xs_nonces st', xs_nonce_disk st')
     \<and> (if approval_needed (v_Catalog v) (ae_Proposal e) then
          (\<exists>ap. Validate (ae_ApprovalID e) (t_validate t) (action_binding e) (xs_approvals st) = (Inr (), ap)
             \<and> Consume (ae_ApprovalID e) (t_consume t) (t_consumed t) (action_binding e) ap = (Inr (), xs_approvals st'))
        else xs_approvals st' = xs_approvals st)"

lemma Validator_Validate_ok:
  assumes "Validator_Validate v t i j e st = (Inr va, st')"
  shows "acceptable v (t_current t) e
     \<and> va = \<lparr>va_Binding = action_binding e, va_ApprovalRequired = approval_needed (v_Catalog v) (ae_Proposal e)\<rparr>
     \<and> (\<exists>authorize. v_Scope v = Some authorize \<and> authorize e = Inr ())
     \<and> (\<exists>revalidate. v_Targets v = Some revalidate \<and> revalidate (ae_TargetSnapshot e) = Inr ())
     \<and> (\<exists>ap ns nd. st' = st\<lparr>xs_approvals := ap, xs_nonces := ns, xs_nonce_disk := nd\<rparr>
          \<and> Reserve (ae_Nonce e) (ae_ExpiresAt e) (t_reserve t) (xs_nonces st) (xs_nonce_disk st) = (Inr (), ns, nd)
          \<and> (if va_ApprovalRequired va then Validate (ae_ApprovalID e) (t_validate t) (action_binding e) (xs_approvals st) = (Inr (), ap)
             else ap = xs_approvals st))"
proof -
  from assms have c: "check_envelope v (t_current t) i j e = Inr va"
    by (auto simp: Validator_Validate_def Let_def split: sum.splits prod.splits if_splits option.splits)
  then have va: "acceptable v (t_current t) e"
    "va = \<lparr>va_Binding = action_binding e, va_ApprovalRequired = approval_needed (v_Catalog v) (ae_Proposal e)\<rparr>"
    by (auto simp: check_envelope_iff)
  then have b: "va_Binding va = action_binding e" by simp
  from assms c b va show ?thesis
    by (auto simp: Validator_Validate_def Let_def split: sum.splits prod.splits if_splits option.splits)
qed

lemma Validator_Validate_log: "Validator_Validate v t i j e st = (r, st') \<Longrightarrow> xs_log st' = xs_log st \<and> xs_world st' = xs_world st"
  by (auto simp: Validator_Validate_def Let_def split: sum.splits prod.splits if_splits option.splits)

lemma Execute_cases:
  assumes "Execute v hs t i j e st = (r, st')"
  obtains (refused) "xs_log st' = xs_log st" "xs_world st' = xs_world st" "\<not> is_ok r"
  | (ran) h where "hs (ap_Tool (ae_Proposal e)) = Some h" "xs_log st' = e # xs_log st" "h e (xs_world st) = (r, xs_world st')" "mediated v t e st st'"
proof (cases "hs (ap_Tool (ae_Proposal e)) = None \<or> ap_Tool (ae_Proposal e) \<notin> set fixedHandlers")
  case True
  with assms refused show ?thesis by (auto simp: Execute_def split: option.splits)
next
  case False
  then obtain h where h: "hs (ap_Tool (ae_Proposal e)) = Some h" by auto
  obtain x st1 where V: "Validator_Validate v t i j e st = (x, st1)" by (metis surj_pair)
  note l = Validator_Validate_log [OF V]
  show ?thesis
  proof (cases x)
    case (Inl err)
    with assms False h V l refused show ?thesis by (auto simp: Execute_def)
  next
    case (Inr va)
    note ok = Validator_Validate_ok [OF V [unfolded Inr]]
    then obtain ap ns nd where st1: "st1 = st\<lparr>xs_approvals := ap, xs_nonces := ns, xs_nonce_disk := nd\<rparr>"
      "Reserve (ae_Nonce e) (ae_ExpiresAt e) (t_reserve t) (xs_nonces st) (xs_nonce_disk st) = (Inr (), ns, nd)"
      "if va_ApprovalRequired va then Validate (ae_ApprovalID e) (t_validate t) (action_binding e) (xs_approvals st) = (Inr (), ap)
       else ap = xs_approvals st" by blast
    obtain y ap' where C: "(if va_ApprovalRequired va then Consume (ae_ApprovalID e) (t_consume t) (t_consumed t) (va_Binding va) ap
        else (Inr (), ap)) = (y, ap')" by (metis surj_pair)
    obtain r' w where hw: "h e (xs_world st) = (r', w)" by (metis surj_pair)
    have va: "va_ApprovalRequired va = approval_needed (v_Catalog v) (ae_Proposal e)" "va_Binding va = action_binding e"
      using ok by simp_all
    have E: "Execute v hs t i j e st = (case y of Inl err \<Rightarrow> (Inl (Wrapf ''consume approval'' err), st1\<lparr>xs_approvals := ap'\<rparr>)
        | Inr _ \<Rightarrow> (r', st1\<lparr>xs_approvals := ap', xs_world := w, xs_log := e # xs_log st\<rparr>))"
      using False C st1(1) hw h V Inr by (auto simp: Execute_def split: sum.splits)
    show ?thesis
    proof (cases y)
      case (Inl err)
      with E assms l refused show ?thesis by auto
    next
      case y: (Inr u)
      have st': "r = r'" "st' = st1\<lparr>xs_approvals := ap', xs_world := w, xs_log := e # xs_log st\<rparr>" using E y assms by simp_all
      have "if approval_needed (v_Catalog v) (ae_Proposal e) then
          (\<exists>ap. Validate (ae_ApprovalID e) (t_validate t) (action_binding e) (xs_approvals st) = (Inr (), ap)
             \<and> Consume (ae_ApprovalID e) (t_consume t) (t_consumed t) (action_binding e) ap = (Inr (), xs_approvals st'))
        else xs_approvals st' = xs_approvals st"
        using st1(3) C y st'(2) va by (simp split: if_splits)
      moreover have "Reserve (ae_Nonce e) (ae_ExpiresAt e) (t_reserve t) (xs_nonces st) (xs_nonce_disk st) = (Inr (), xs_nonces st', xs_nonce_disk st')"
        using st1(1,2) st'(2) by simp
      ultimately have "mediated v t e st st'" unfolding mediated_def using ok False by simp
      then show ?thesis using h hw st' l by (intro ran [of h]) simp_all
    qed
  qed
qed

subsection \<open>Scope and target checks as interfaces\<close>

text \<open>What the executor relies on from its \<open>ScopeAuthorizer\<close> and \<open>TargetRevalidator\<close>.\<close>

locale scope_authorizer =
  fixes authorize :: "ActionEnvelope \<Rightarrow> unit result"
    and allowed :: "TargetSnapshot \<Rightarrow> bool"
  assumes authorize_sound: "authorize e = Inr () \<Longrightarrow> allowed (ae_TargetSnapshot e)"

locale action_gate = scope_authorizer +
  fixes revalidate :: "TargetSnapshot \<Rightarrow> unit result"
    and unchanged :: "TargetSnapshot \<Rightarrow> bool"
  assumes revalidate_sound: "revalidate s = Inr () \<Longrightarrow> unchanged s"
begin

lemma mediated_target:
  assumes "mediated v t e st st'" "v_Scope v = Some authorize" "v_Targets v = Some revalidate"
  shows "allowed (ae_TargetSnapshot e) \<and> unchanged (ae_TargetSnapshot e)"
  using assms authorize_sound revalidate_sound by (auto simp: mediated_def)

end

definition scope_bounds :: "FixedScope \<Rightarrow> TargetSnapshot \<Rightarrow> bool" where
  "scope_bounds s t \<longleftrightarrow> (list_all IsAbs (fs_AllowedFileRoots s) \<longrightarrow> in_scope s t)"

definition snapshot_current :: "host \<Rightarrow> platform \<Rightarrow> string list \<Rightarrow> TargetSnapshot \<Rightarrow> bool" where
  "snapshot_current h pf roots s \<longleftrightarrow> current_snapshot h pf roots s = Inr s
     \<or> (\<exists>t. current_snapshot h pf roots s = Inr t \<and> sha_collision (json_text (json_snapshot s)) (json_text (json_snapshot t)))"

interpretation fixed_gate: action_gate "Authorize s" "scope_bounds s" "Revalidate h pf roots" "snapshot_current h pf roots"
  for s h pf roots
proof
  show "Authorize s e = Inr () \<Longrightarrow> scope_bounds s (ae_TargetSnapshot e)" for e
    using Authorize_iff by (auto simp: scope_bounds_def)
  show "Revalidate h pf roots t = Inr () \<Longrightarrow> snapshot_current h pf roots t" for t
    by (erule Revalidate_ok) (auto simp: snapshot_current_def)
qed

subsection \<open>Runs of the executor\<close>

text \<open>A run of one executor: executions one after the other, restarts that reload the nonce file, and changes of
  the approval files and of the machine by others in between. \<open>\<tau>\<close> bounds the clock readings made so far; the clock
  does not run backwards. An execution is prompt when its nonce check reads a time that is not past the
  envelope's expiry.\<close>

inductive exec_step :: "Validator \<Rightarrow> (string \<Rightarrow> 'w handler option) \<Rightarrow> timestamp \<times> 'w exec_state \<Rightarrow> timestamp \<times> 'w exec_state \<Rightarrow> bool"
  for v :: Validator and hs :: "string \<Rightarrow> 'w handler option" where
  execute: "\<tau> \<le> t_current t \<Longrightarrow> t_current t \<le> t_reserve t \<Longrightarrow> t_reserve t \<le> \<tau>' \<Longrightarrow> t_reserve t \<le> ae_ExpiresAt e
    \<Longrightarrow> Execute v hs t i j e st = (r, st') \<Longrightarrow> exec_step v hs (\<tau>, st) (\<tau>', st')"
| restart: "NewNonceStore (ns_path (xs_nonces st)) (xs_nonce_disk st) = (Inr ns, nd)
    \<Longrightarrow> exec_step v hs (\<tau>, st) (\<tau>, st\<lparr>xs_nonces := ns, xs_nonce_disk := nd\<rparr>)"
| environment: "exec_step v hs (\<tau>, st) (\<tau>, st\<lparr>xs_approvals := ap, xs_world := w\<rparr>)"

definition run_inv :: "string \<Rightarrow> timestamp \<times> 'w exec_state \<Rightarrow> bool" where
  "run_inv path x \<longleftrightarrow> (case x of (\<tau>, st) \<Rightarrow>
     ns_path (xs_nonces st) = path \<and> distinct (map (\<lambda>e. (ae_Nonce e, ae_ExpiresAt e)) (xs_log st))
     \<and> (\<forall>e \<in> set (xs_log st). nonce_held path (ae_Nonce e) (ae_ExpiresAt e) (Some (xs_nonces st), xs_nonce_disk st) \<or> ae_ExpiresAt e \<le> \<tau>))"

lemma Validator_Validate_nonces:
  "Validator_Validate v t i j e st = (r, st') \<Longrightarrow>
     (xs_nonces st' = xs_nonces st \<and> xs_nonce_disk st' = xs_nonce_disk st)
     \<or> (\<exists>x. Reserve (ae_Nonce e) (ae_ExpiresAt e) (t_reserve t) (xs_nonces st) (xs_nonce_disk st) = (x, xs_nonces st', xs_nonce_disk st'))"
  by (auto simp: Validator_Validate_def Let_def split: sum.splits prod.splits if_splits option.splits)

lemma Execute_nonces:
  assumes "Execute v hs t i j e st = (r, st')"
  shows "(xs_nonces st' = xs_nonces st \<and> xs_nonce_disk st' = xs_nonce_disk st)
     \<or> (\<exists>x. Reserve (ae_Nonce e) (ae_ExpiresAt e) (t_reserve t) (xs_nonces st) (xs_nonce_disk st) = (x, xs_nonces st', xs_nonce_disk st'))"
proof -
  obtain x st1 where V: "Validator_Validate v t i j e st = (x, st1)" by (metis surj_pair)
  have "(xs_nonces st' = xs_nonces st1 \<and> xs_nonce_disk st' = xs_nonce_disk st1) \<or> st' = st"
    using assms V by (cases x) (auto simp: Execute_def split: sum.splits prod.splits if_splits option.splits)
  with Validator_Validate_nonces [OF V] show ?thesis by auto
qed

lemma Execute_keeps_held:
  assumes "Execute v hs t i j e st = (r, st')" "nonce_held path n x (Some (xs_nonces st), xs_nonce_disk st)" "t_reserve t \<le> x"
  shows "nonce_held path n x (Some (xs_nonces st'), xs_nonce_disk st')"
  using Execute_nonces [OF assms(1)] Reserve_held(1) [OF _ assms(2,3)] assms(2) by auto

lemma Execute_path: "Execute v hs t i j e st = (r, st') \<Longrightarrow> ns_path (xs_nonces st') = ns_path (xs_nonces st)"
  using Execute_nonces Reserve_path by metis

lemma run_inv_execute:
  assumes "\<tau> \<le> t_current t" "t_current t \<le> t_reserve t" "t_reserve t \<le> \<tau>'" "t_reserve t \<le> ae_ExpiresAt e"
    and E: "Execute v hs t i j e st = (r, st')" and inv: "run_inv path (\<tau>, st)"
  shows "run_inv path (\<tau>', st')"
proof -
  let ?held = "\<lambda>st a. nonce_held path (ae_Nonce a) (ae_ExpiresAt a) (Some (xs_nonces st), xs_nonce_disk st)"
  have old: "?held st' a \<or> ae_ExpiresAt a \<le> \<tau>'" if "a \<in> set (xs_log st)" for a
  proof (cases "t_reserve t \<le> ae_ExpiresAt a \<and> ?held st a")
    case True
    with Execute_keeps_held [OF E] show ?thesis by blast
  next
    case False
    with that inv assms(1-3) show ?thesis by (auto simp: run_inv_def)
  qed
  from E show ?thesis
  proof (cases rule: Execute_cases)
    case refused
    with old inv Execute_path [OF E] show ?thesis by (simp add: run_inv_def)
  next
    case (ran h)
    have m: "acceptable v (t_current t) e"
      "Reserve (ae_Nonce e) (ae_ExpiresAt e) (t_reserve t) (xs_nonces st) (xs_nonce_disk st) = (Inr (), xs_nonces st', xs_nonce_disk st')"
      using ran(4) by (auto simp: mediated_def)
    have new: "?held st' e" using Reserve_establishes [OF m(2)] inv by (simp add: run_inv_def)
    have "(ae_Nonce a, ae_ExpiresAt a) \<noteq> (ae_Nonce e, ae_ExpiresAt e)" if "a \<in> set (xs_log st)" for a
    proof
      assume k: "(ae_Nonce a, ae_ExpiresAt a) = (ae_Nonce e, ae_ExpiresAt e)"
      have "\<not> ae_ExpiresAt e \<le> \<tau>" using m(1) assms(1) by (simp add: acceptable_def)
      with inv that k have "nonce_held path (ae_Nonce e) (ae_ExpiresAt e) (Some (xs_nonces st), xs_nonce_disk st)"
        by (auto simp: run_inv_def)
      from Reserve_held(2) [OF m(2) this assms(4)] show False by simp
    qed
    then have "(ae_Nonce e, ae_ExpiresAt e) \<notin> set (map (\<lambda>e. (ae_Nonce e, ae_ExpiresAt e)) (xs_log st))" by force
    then have "distinct (map (\<lambda>e. (ae_Nonce e, ae_ExpiresAt e)) (xs_log st'))"
      using inv ran(2) by (simp add: run_inv_def)
    with old new ran(2) inv Execute_path [OF E] show ?thesis by (auto simp: run_inv_def)
  qed
qed

lemma run_inv_step:
  assumes "exec_step v hs x y" "run_inv path x"
  shows "run_inv path y"
  using assms
proof (induction rule: exec_step.induct)
  case (restart st ns nd \<tau>)
  note N = NewNonceStore_reads [OF restart.hyps]
  have "nonce_held path n e (Some ns, nd)" if "nonce_held path n e (Some (xs_nonces st), xs_nonce_disk st)" for n e
  proof -
    from that obtain m where m: "files (xs_nonce_disk st) path = Some (Valid m)" "m n = Some e" "ns_path (xs_nonces st) = path"
      by (auto simp: nonce_held_def)
    with N(1) N(2) [OF refl] show ?thesis by (simp add: nonce_held_def)
  qed
  with restart.prems N(2) [OF refl] show ?case unfolding run_inv_def by auto
next
  case (environment \<tau> st ap w)
  then show ?case by (simp add: run_inv_def)
qed (rule run_inv_execute)

lemma run_inv_steps:
  assumes "(exec_step v hs)\<^sup>*\<^sup>* x y" "run_inv path x"
  shows "run_inv path y"
  using assms by (induction rule: rtranclp_induct) (auto intro: run_inv_step)

lemma Execute_forward:
  assumes "hs (ap_Tool (ae_Proposal e)) = Some h" "ap_Tool (ae_Proposal e) \<in> set fixedHandlers" "acceptable v (t_current t) e"
    and "v_Scope v = Some a" "a e = Inr ()" "v_Targets v = Some rv" "rv (ae_TargetSnapshot e) = Inr ()" "v_HasNonces v"
    and "Reserve (ae_Nonce e) (ae_ExpiresAt e) (t_reserve t) (xs_nonces st) (xs_nonce_disk st) = (Inr (), ns, nd)"
    and "if approval_needed (v_Catalog v) (ae_Proposal e) then ae_ApprovalID e \<noteq> [] \<and> v_HasApprovals v
       \<and> (\<exists>ap. Validate (ae_ApprovalID e) (t_validate t) (action_binding e) (xs_approvals st) = (Inr (), ap)
            \<and> Consume (ae_ApprovalID e) (t_consume t) (t_consumed t) (action_binding e) ap = (Inr (), ap'))
      else ap' = xs_approvals st"
    and "h e (xs_world st) = (r, w)"
  shows "Execute v hs t i j e st
    = (r, st\<lparr>xs_approvals := ap', xs_nonces := ns, xs_nonce_disk := nd, xs_world := w, xs_log := e # xs_log st\<rparr>)"
proof -
  let ?va = "\<lparr>va_Binding = action_binding e, va_ApprovalRequired = approval_needed (v_Catalog v) (ae_Proposal e)\<rparr>"
  have c: "check_envelope v (t_current t) i j e = Inr ?va" using assms(3) by (simp add: check_envelope_iff)
  show ?thesis
  proof (cases "approval_needed (v_Catalog v) (ae_Proposal e)")
    case True
    with assms(10) obtain ap where ap: "ae_ApprovalID e \<noteq> []" "v_HasApprovals v"
      "Validate (ae_ApprovalID e) (t_validate t) (action_binding e) (xs_approvals st) = (Inr (), ap)"
      "Consume (ae_ApprovalID e) (t_consume t) (t_consumed t) (action_binding e) ap = (Inr (), ap')" by auto
    have "Validator_Validate v t i j e st = (Inr ?va, st\<lparr>xs_approvals := ap, xs_nonces := ns, xs_nonce_disk := nd\<rparr>)"
      using True ap(1-3) assms(4-9) by (simp add: Validator_Validate_def c Let_def)
    with True ap(4) assms(1,2,11) show ?thesis by (simp add: Execute_def)
  next
    case False
    have "Validator_Validate v t i j e st = (Inr ?va, st\<lparr>xs_approvals := xs_approvals st, xs_nonces := ns, xs_nonce_disk := nd\<rparr>)"
      using False assms(4-9) by (simp add: Validator_Validate_def c Let_def)
    with False assms(1,2,10,11) show ?thesis by (simp add: Execute_def)
  qed
qed

subsection \<open>Envelopes the agent prepares\<close>

text \<open>The envelope of an admissible proposal with every derived field filled in, before it is signed.\<close>

definition unsigned_envelope :: "Catalog \<Rightarrow> ActionProposal \<Rightarrow> TargetSnapshot \<Rightarrow> timestamp \<Rightarrow> string \<Rightarrow> string \<Rightarrow> ActionEnvelope" where
  "unsigned_envelope c p s expires nonce approvalID =
     \<lparr>ae_SchemaVersion = 1, ae_TraceID = ap_TaskID p, ae_TaskID = ap_TaskID p, ae_SessionID = ap_SessionID p, ae_Proposal = p,
      ae_ProposalDigest = sha256_hex (json_text (json_proposal p)), ae_TargetSnapshot = s, ae_Risk = RiskEngine_Evaluate c p,
      ae_IntentDigest = intentDigest (ap_Intent p), ae_PolicyVersion = cat_Version c, ae_ExpiresAt = expires, ae_Nonce = nonce,
      ae_ApprovalID = approvalID, ae_Signature = []\<rparr>"

lemma signed_acceptable:
  assumes "Sign (v_Secret v) (unsigned_envelope (v_Catalog v) p s expires nonce approvalID) = Inr e"
    and "admissible (v_Catalog v) p" "ap_Tool p \<noteq> []" "ap_TaskID p \<noteq> []" "ap_SessionID p \<noteq> []" "nonce \<noteq> []"
    and "CanonicalTarget (ap_Target p) = CanonicalTarget \<lparr>tr_Type = ts_Type s, tr_ID = ts_ID s, tr_Criticality = []\<rparr>"
    and "now < expires" "expires \<le> now + max_ttl v"
  shows "acceptable v now e" and "e = (unsigned_envelope (v_Catalog v) p s expires nonce approvalID)\<lparr>ae_Signature := ae_Signature e\<rparr>"
proof -
  show f: "e = (unsigned_envelope (v_Catalog v) p s expires nonce approvalID)\<lparr>ae_Signature := ae_Signature e\<rparr>"
    by (rule Sign_fields [OF assms(1)])
  from f obtain sg where e: "e = (unsigned_envelope (v_Catalog v) p s expires nonce approvalID)\<lparr>ae_Signature := sg\<rparr>" by blast
  show "acceptable v now e"
    unfolding acceptable_def using Sign_Verify [OF assms(1)] assms(2-)
    by (simp add: e unsigned_envelope_def ActionProposal_Digest_def)
qed

lemma Sign_ok: "32 \<le> length secret \<Longrightarrow> \<exists>e'. Sign secret e = Inr e'"
  by (simp add: Sign_def)

subsection \<open>Properties\<close>

text \<open>C1: complete mediation. Whenever an execution succeeds or touches the machine, every check has passed in this
  very execution: the envelope is well formed, unexpired, correctly signed and consistent with its digests, the
  proposal is admissible under the executor's own policy with the recomputed intent and risk, the target is
  in scope and unchanged, the nonce was free and is now reserved, and if the policy asks for it an approval with
  exactly the binding of this envelope was approved and is now consumed.\<close>

theorem executor_complete_mediation:
  assumes "Execute v hs t i j e st = (r, st')" "is_ok r \<or> xs_world st' \<noteq> xs_world st"
    and "v_Scope v = Some (Authorize s)" "v_Targets v = Some (Revalidate h pf roots)"
  shows "mediated v t e st st' \<and> scope_bounds s (ae_TargetSnapshot e) \<and> snapshot_current h pf roots (ae_TargetSnapshot e)"
  using assms(1)
proof (cases rule: Execute_cases)
  case (ran hd)
  with fixed_gate.mediated_target [OF ran(4) assms(3,4)] show ?thesis by blast
qed (use assms(2) in auto)

text \<open>At most one execution per envelope. In every run of the executor with restarts, failed disk writes, and
  changes by others in between, no two executions have the same nonce and expiry, given that the clock does not run
  backwards and that no nonce check reads a time past the expiry of its envelope.\<close>

theorem executor_at_most_once:
  assumes "(exec_step v hs)\<^sup>*\<^sup>* (\<tau>, st) (\<tau>', st')" "xs_log st = []"
  shows "distinct (map (\<lambda>e. (ae_Nonce e, ae_ExpiresAt e)) (xs_log st'))"
proof -
  have "run_inv (ns_path (xs_nonces st)) (\<tau>, st)" using assms(2) by (simp add: run_inv_def)
  from run_inv_steps [OF assms(1) this] show ?thesis by (simp add: run_inv_def)
qed

text \<open>C5: an approval authorises one execution. When an execution that needs an approval has run on the files of a
  reachable state of the approval directory, then, whatever the server and the executor do afterwards and whatever the
  clocks show, no envelope that needs an approval runs again with that approval.\<close>

theorem approval_authorises_one_execution:
  assumes "approval_reachable w" "files (xs_approvals st) = w_files w" "w_exec w = None"
    and "Execute v hs t i j e st = (r, st')" "xs_log st' = e # xs_log st" "approval_needed (v_Catalog v) (ae_Proposal e)"
  shows "\<exists>w'. approval_step\<^sup>*\<^sup>* w w' \<and> w_files w' = files (xs_approvals st')
    \<and> (\<forall>w2 st2 v2 t2 e2 i2 j2 r2 st3. approval_step\<^sup>*\<^sup>* w' w2 \<longrightarrow> files (xs_approvals st2) = w_files w2 \<longrightarrow>
         ae_ApprovalID e2 = ae_ApprovalID e \<longrightarrow> approval_needed (v_Catalog v2) (ae_Proposal e2) \<longrightarrow>
         Execute v2 hs2 t2 i2 j2 e2 st2 = (r2, st3) \<longrightarrow> xs_log st3 = xs_log st2)"
  using assms(4)
proof (cases rule: Execute_cases)
  case (ran h)
  let ?i = "ae_ApprovalID e"
  note inv = approval_reachable_inv [OF assms(1)]
  from ran(4) assms(6) obtain ap where ap: "Validate ?i (t_validate t) (action_binding e) (xs_approvals st) = (Inr (), ap)"
    "Consume ?i (t_consume t) (t_consumed t) (action_binding e) ap = (Inr (), xs_approvals st')" by (auto simp: mediated_def)
  have "w_files w = files ap" using Validate_reads [OF ap(1)] assms(2) by simp
  from Consume_steps [OF ap(2) this assms(3)] inv obtain c where c: "approval_step\<^sup>*\<^sup>* w (written c w)"
    "files (xs_approvals st') = w_files (written c w)" "r_Status c = Consumed" "r_ID c = ?i" by blast
  have "xs_log st3 = xs_log st2"
    if later: "approval_step\<^sup>*\<^sup>* (written c w) w2" "files (xs_approvals st2) = w_files w2" "ae_ApprovalID e2 = ?i"
      "approval_needed (v_Catalog v2) (ae_Proposal e2)" and E: "Execute v2 hs2 t2 i2 j2 e2 st2 = (r2, st3)"
    for w2 st2 v2 t2 e2 i2 j2 r2 st3
    using E
  proof (cases rule: Execute_cases)
    case (ran h2)
    from ran(4) later(3,4) obtain ap2 where ap2: "Validate ?i (t_validate t2) (action_binding e2) (xs_approvals st2) = (Inr (), ap2)"
      "Consume ?i (t_consume t2) (t_consumed t2) (action_binding e2) ap2 = (Inr (), xs_approvals st3)" by (auto simp: mediated_def)
    have "approval_reachable w2" using assms(1) c(1) later(1) unfolding approval_reachable_def by (meson rtranclp_trans)
    moreover have "c \<in> set (w_log w2)" using approval_steps_log [OF later(1)] by (auto simp: written_def suffix_def)
    moreover have "files ap2 = w_files w2" using Validate_reads [OF ap2(1)] later(2) by simp
    ultimately have "\<not> is_ok (fst (Consume ?i (t_consume t2) (t_consumed t2) (action_binding e2) ap2))"
      using consumed_closed [OF approval_reachable_inv _ c(3)] c(4) by metis
    with ap2(2) show ?thesis by simp
  qed
  with c(1,2) show ?thesis by (intro exI [of _ "written c w"]) auto
qed (use assms(5) in simp)

text \<open>The window of the replay check. The expiry and the nonce are checked against two clock readings. An action
  that needs no approval runs a second time when its envelope is presented just before its expiry and the
  nonce store reads the clock just after it: the reservation drops the expired nonce and takes it again.\<close>

theorem replay_in_expiry_window:
  assumes "Execute v hs t i j e st = (r, st')" "xs_log st' = e # xs_log st" "\<not> approval_needed (v_Catalog v) (ae_Proposal e)"
    and "v_HasNonces v" "healthy (xs_nonce_disk st')"
    and "t_current t \<le> t_current t'" "t_current t' < ae_ExpiresAt e" "ae_ExpiresAt e < t_reserve t'"
  shows "\<exists>r2 st2. Execute v hs t' i j e st' = (r2, st2) \<and> xs_log st2 = [e, e] @ xs_log st"
  using assms(1)
proof (cases rule: Execute_cases)
  case (ran h)
  note m = ran(4) [unfolded mediated_def]
  have acc: "acceptable v (t_current t') e" using m assms(6,7) by (auto simp: acceptable_def)
  from m have R: "Reserve (ae_Nonce e) (ae_ExpiresAt e) (t_reserve t) (xs_nonces st) (xs_nonce_disk st) = (Inr (), xs_nonces st', xs_nonce_disk st')"
    by simp
  have "ae_Nonce e \<noteq> []" "prune (t_reserve t') (ns_used (xs_nonces st')) (ae_Nonce e) = None"
    using Reserve_ok [OF R] assms(8) by (auto simp: prune_def)
  from healthy_Reserve [OF assms(5) this] obtain ns nd
    where R2: "Reserve (ae_Nonce e) (ae_ExpiresAt e) (t_reserve t') (xs_nonces st') (xs_nonce_disk st') = (Inr (), ns, nd)" by blast
  obtain r2 w2 where hw: "h e (xs_world st') = (r2, w2)" by (metis surj_pair)
  from m obtain a rv where ar: "v_Scope v = Some a" "a e = Inr ()" "v_Targets v = Some rv" "rv (ae_TargetSnapshot e) = Inr ()"
    "ap_Tool (ae_Proposal e) \<in> set fixedHandlers" by blast
  have "Execute v hs t' i j e st' = (r2, st'\<lparr>xs_approvals := xs_approvals st', xs_nonces := ns, xs_nonce_disk := nd, xs_world := w2,
      xs_log := e # xs_log st'\<rparr>)"
    using ran(1) ar acc assms(3,4) R2 hw by (intro Execute_forward [where h = h and a = a and rv = rv]) simp_all
  with assms(2) show ?thesis by simp
qed (use assms(2) in simp)

subsection \<open>A concrete executor\<close>

definition lax_catalog :: Catalog where
  "lax_catalog = sample_catalog\<lparr>cat_tools := [''file.delete'' \<mapsto> sample_policy\<lparr>tp_Approval := False\<rparr>]\<rparr>"

definition sample_platform :: platform where
  "sample_platform = \<lparr>pf_ProcessIdentity = (\<lambda>_. Inl EIO), pf_Service = (\<lambda>_. Inl EIO)\<rparr>"

definition sample_validator :: "Catalog \<Rightarrow> Validator" where
  "sample_validator c = \<lparr>v_Secret = replicate 32 (CHR ''k''), v_Catalog = c, v_HasNonces = True, v_HasApprovals = True,
     v_Scope = Some (Authorize (Scope sample_config)), v_Targets = Some (Revalidate sample_host sample_platform [''/srv/lab'']), v_MaxTTL = 0\<rparr>"

definition sample_envelope :: "Catalog \<Rightarrow> ActionEnvelope" where
  "sample_envelope c = (case Sign (replicate 32 (CHR ''k'')) (unsigned_envelope c (sample_proposal ''/srv/lab/f'') sample_snapshot 100 ''n1'' ''a1'')
     of Inl _ \<Rightarrow> sample_action sample_snapshot | Inr e \<Rightarrow> e)"

definition sample_clock :: exec_clock where
  "sample_clock = \<lparr>t_current = 1, t_validate = 1, t_reserve = 2, t_consume = 3, t_consumed = 3\<rparr>"

definition sample_state :: "(string \<rightharpoonup> Record doc) \<Rightarrow> unit exec_state" where
  "sample_state fs = \<lparr>xs_approvals = reliable fs, xs_nonces = demo_nonces, xs_nonce_disk = reliable Map.empty, xs_world = (), xs_log = []\<rparr>"

definition sample_handlers :: "string \<Rightarrow> unit handler option" where
  "sample_handlers tool = Some (DryRunHandler [] 0)"

lemma sample_signed:
  "Sign (v_Secret (sample_validator c)) (unsigned_envelope c (sample_proposal ''/srv/lab/f'') sample_snapshot 100 ''n1'' ''a1'') = Inr (sample_envelope c)"
  by (simp add: sample_envelope_def sample_validator_def Sign_def)

lemma sample_scores: "raw_score sample_catalog (sample_proposal ''/srv/lab/f'') = 30" "raw_score lax_catalog (sample_proposal ''/srv/lab/f'') = 30"
  by code_simp+

lemma sample_admissible: "admissible sample_catalog (sample_proposal ''/srv/lab/f'')" "admissible lax_catalog (sample_proposal ''/srv/lab/f'')"
proof -
  have "aligned (sample_proposal ''/srv/lab/f'')" "static_ok sample_catalog (sample_proposal ''/srv/lab/f'')" "static_ok lax_catalog (sample_proposal ''/srv/lab/f'')"
    by code_simp+
  with sample_scores show "admissible sample_catalog (sample_proposal ''/srv/lab/f'')" "admissible lax_catalog (sample_proposal ''/srv/lab/f'')"
    by (simp_all add: admissible_def level_L3_iff)
qed

lemma sample_needs: "approval_needed sample_catalog (sample_proposal ''/srv/lab/f'')" "\<not> approval_needed lax_catalog (sample_proposal ''/srv/lab/f'')"
proof -
  have p: "tp_Approval (policy_or_zero sample_catalog (ap_Tool (sample_proposal ''/srv/lab/f'')))"
    "\<not> tp_Approval (policy_or_zero lax_catalog (ap_Tool (sample_proposal ''/srv/lab/f'')))" by code_simp+
  with sample_scores show "approval_needed sample_catalog (sample_proposal ''/srv/lab/f'')" "\<not> approval_needed lax_catalog (sample_proposal ''/srv/lab/f'')"
    by (simp_all add: approval_needed_def risk_level risk_score levelForScore_def) (simp add: sample_proposal_def)
qed

lemma sample_accepts:
  assumes "c \<in> {sample_catalog, lax_catalog}" "t \<in> {1, 99}"
  shows "acceptable (sample_validator c) t (sample_envelope c)"
    and "ae_Proposal (sample_envelope c) = sample_proposal ''/srv/lab/f''" "ae_TargetSnapshot (sample_envelope c) = sample_snapshot"
      "ae_Nonce (sample_envelope c) = ''n1''" "ae_ExpiresAt (sample_envelope c) = 100" "ae_ApprovalID (sample_envelope c) = ''a1''"
proof -
  have v: "v_Catalog (sample_validator c) = c" "max_ttl (sample_validator c) = 15 * minute"
    by (simp_all add: sample_validator_def max_ttl_def)
  have "CanonicalTarget (ap_Target (sample_proposal ''/srv/lab/f'')) = CanonicalTarget \<lparr>tr_Type = ts_Type sample_snapshot, tr_ID = ts_ID sample_snapshot, tr_Criticality = []\<rparr>"
    by (simp add: sample_proposal_def sample_target_def sample_snapshot_def CanonicalTarget_def)
  moreover have "ap_Tool (sample_proposal ''/srv/lab/f'') \<noteq> []" "ap_TaskID (sample_proposal ''/srv/lab/f'') \<noteq> []" "ap_SessionID (sample_proposal ''/srv/lab/f'') \<noteq> []"
    by (simp_all add: sample_proposal_def)
  moreover have "admissible c (sample_proposal ''/srv/lab/f'')" using assms(1) sample_admissible by auto
  moreover have "t < 100" "100 \<le> t + max_ttl (sample_validator c)" using assms(2) v by (auto simp: duration_defs)
  ultimately have a: "acceptable (sample_validator c) t (sample_envelope c)"
    and f: "sample_envelope c = (unsigned_envelope c (sample_proposal ''/srv/lab/f'') sample_snapshot 100 ''n1'' ''a1'')\<lparr>ae_Signature := ae_Signature (sample_envelope c)\<rparr>"
    using signed_acceptable [of "sample_validator c", unfolded v(1), OF sample_signed, of t] by auto
  show "acceptable (sample_validator c) t (sample_envelope c)" by (rule a)
  from f obtain sg where e: "sample_envelope c = (unsigned_envelope c (sample_proposal ''/srv/lab/f'') sample_snapshot 100 ''n1'' ''a1'')\<lparr>ae_Signature := sg\<rparr>" by blast
  show "ae_Proposal (sample_envelope c) = sample_proposal ''/srv/lab/f''" "ae_TargetSnapshot (sample_envelope c) = sample_snapshot"
      "ae_Nonce (sample_envelope c) = ''n1''" "ae_ExpiresAt (sample_envelope c) = 100" "ae_ApprovalID (sample_envelope c) = ''a1''"
    by (simp_all add: e unsigned_envelope_def)
qed

lemma sample_gate:
  assumes "c \<in> {sample_catalog, lax_catalog}"
  shows "Authorize (Scope sample_config) (sample_envelope c) = Inr ()" "Revalidate sample_host sample_platform [''/srv/lab''] sample_snapshot = Inr ()"
proof -
  have "list_all IsAbs (fs_AllowedFileRoots (Scope sample_config))" "under ''/srv'' ''/srv/lab/f''" by code_simp+
  then show "Authorize (Scope sample_config) (sample_envelope c) = Inr ()"
    using sample_accepts(3) [OF assms, of 1] by (simp add: Authorize_iff in_scope_def sample_snapshot_def Scope_def sample_config_def)
qed (rule Revalidate_same [OF sample_current])

lemma sample_tool: "ap_Tool (sample_proposal p) \<in> set fixedHandlers"
  by (simp add: sample_proposal_def fixedHandlers_def)

lemma lax_run:
  "\<exists>r st'. Execute (sample_validator lax_catalog) sample_handlers sample_clock ''i'' ''j'' (sample_envelope lax_catalog) (sample_state Map.empty) = (Inr r, st')
     \<and> xs_log st' = [sample_envelope lax_catalog] \<and> healthy (xs_nonce_disk st')"
proof -
  let ?e = "sample_envelope lax_catalog" and ?v = "sample_validator lax_catalog"
  note acc = sample_accepts [of lax_catalog 1, simplified]
  obtain ns nd where R: "Reserve ''n1'' 100 2 demo_nonces (reliable Map.empty) = (Inr (), ns, nd)" "healthy nd"
    using healthy_Reserve [of "reliable Map.empty" "''n1''" 2 demo_nonces 100] by (auto simp: demo_nonces_def prune_def)
  obtain r where h: "DryRunHandler [] 0 ?e () = (Inr r, ())" by (simp add: DryRunHandler_def)
  let ?st = "sample_state Map.empty"
  have "Execute ?v sample_handlers sample_clock ''i'' ''j'' ?e ?st
    = (Inr r, ?st\<lparr>xs_approvals := xs_approvals ?st, xs_nonces := ns, xs_nonce_disk := nd, xs_world := (), xs_log := ?e # xs_log ?st\<rparr>)"
  proof (rule Execute_forward)
    show "sample_handlers (ap_Tool (ae_Proposal ?e)) = Some (DryRunHandler [] 0)" by (simp add: sample_handlers_def)
    show "Reserve (ae_Nonce ?e) (ae_ExpiresAt ?e) (t_reserve sample_clock) (xs_nonces ?st) (xs_nonce_disk ?st) = (Inr (), ns, nd)"
      using acc R(1) by (simp add: sample_clock_def sample_state_def)
    show "DryRunHandler [] 0 ?e (xs_world ?st) = (Inr r, ())" using h by (simp add: sample_state_def)
    show "Authorize (Scope sample_config) ?e = Inr ()" "Revalidate sample_host sample_platform [''/srv/lab''] (ae_TargetSnapshot ?e) = Inr ()"
      using sample_gate [of lax_catalog] acc by simp_all
  qed (use acc sample_needs(2) sample_tool in \<open>simp_all add: sample_validator_def sample_clock_def\<close>)
  with R(2) show ?thesis by (simp add: sample_state_def)
qed

lemma lax_gate: "v_Scope (sample_validator c) = Some (Authorize (Scope sample_config))"
  "v_Targets (sample_validator c) = Some (Revalidate sample_host sample_platform [''/srv/lab''])" "v_HasNonces (sample_validator c)" "v_Catalog (sample_validator c) = c"
  by (simp_all add: sample_validator_def)

lemma sample_binding_complete: "\<not> incomplete (action_binding (sample_envelope sample_catalog))"
proof -
  note acc = sample_accepts [of sample_catalog 1, simplified]
  have "ae_TaskID (sample_envelope sample_catalog) \<noteq> []" "ae_PolicyVersion (sample_envelope sample_catalog) = ''v1''"
    "ActionProposal_Digest (ae_Proposal (sample_envelope sample_catalog)) = Inr (ae_ProposalDigest (sample_envelope sample_catalog))"
    "ae_IntentDigest (sample_envelope sample_catalog) = intentDigest (ap_Intent (ae_Proposal (sample_envelope sample_catalog)))"
    using acc(1) by (simp_all add: acceptable_def sample_validator_def sample_catalog_def)
  then show ?thesis
    using acc(2) by (auto simp: incomplete_def action_binding_def envelope_binding_def intentDigest_def ActionProposal_Digest_def
        sample_proposal_def split: if_splits)
qed

definition sample_approvals :: approval_world where
  "sample_approvals = demo_before (action_binding (sample_envelope sample_catalog))"

lemma sample_approved_run:
  "\<exists>r st'. Execute (sample_validator sample_catalog) sample_handlers sample_clock ''i'' ''j'' (sample_envelope sample_catalog) (sample_state (w_files sample_approvals)) = (Inr r, st')
     \<and> xs_log st' = [sample_envelope sample_catalog]"
proof -
  let ?e = "sample_envelope sample_catalog" and ?v = "sample_validator sample_catalog" and ?st = "sample_state (w_files sample_approvals)"
  let ?b = "action_binding ?e"
  note acc = sample_accepts [of sample_catalog 1, simplified]
  obtain ns nd where R: "Reserve ''n1'' 100 2 demo_nonces (reliable Map.empty) = (Inr (), ns, nd)"
    using healthy_Reserve [of "reliable Map.empty" "''n1''" 2 demo_nonces 100] by (auto simp: demo_nonces_def prune_def)
  obtain r where h: "DryRunHandler [] 0 ?e () = (Inr r, ())" by (simp add: DryRunHandler_def)
  have f: "validID ''a1'' = Inr ()" "files (xs_approvals ?st) (approval_path ''a1'') = Some (Valid (demo_approved ?b))" "healthy (xs_approvals ?st)"
    by (simp_all add: validID_def sample_state_def sample_approvals_def demo_before_def)
  have d: "r_ExpiresAt (demo_approved ?b) = 10" "r_Status (demo_approved ?b) = Approved" "r_Binding (demo_approved ?b) = ?b"
    by (simp_all add: demo_approved_def demo_pending_def new_record_def)
  from healthy_Validate [OF f(3,1,2), of 1 ?b] d obtain ap where ap: "Validate ''a1'' 1 ?b (xs_approvals ?st) = (Inr (), ap)" "healthy ap" "files ap = files (xs_approvals ?st)"
    by (auto simp: is_ok_iff)
  from healthy_Consume [OF ap(2) f(1), of "demo_approved ?b" 3 ?b 3] ap(3) f(2) d obtain ap' where ap': "Consume ''a1'' 3 3 ?b ap = (Inr (), ap')" by auto
  have "Execute ?v sample_handlers sample_clock ''i'' ''j'' ?e ?st
    = (Inr r, ?st\<lparr>xs_approvals := ap', xs_nonces := ns, xs_nonce_disk := nd, xs_world := (), xs_log := ?e # xs_log ?st\<rparr>)"
  proof (rule Execute_forward)
    show "sample_handlers (ap_Tool (ae_Proposal ?e)) = Some (DryRunHandler [] 0)" by (simp add: sample_handlers_def)
    show "Reserve (ae_Nonce ?e) (ae_ExpiresAt ?e) (t_reserve sample_clock) (xs_nonces ?st) (xs_nonce_disk ?st) = (Inr (), ns, nd)"
      using acc R(1) by (simp add: sample_clock_def sample_state_def)
    show "DryRunHandler [] 0 ?e (xs_world ?st) = (Inr r, ())" using h by (simp add: sample_state_def)
    show "Authorize (Scope sample_config) ?e = Inr ()" "Revalidate sample_host sample_platform [''/srv/lab''] (ae_TargetSnapshot ?e) = Inr ()"
      using sample_gate [of sample_catalog] acc by simp_all
  qed (use acc sample_needs(1) sample_tool ap(1) ap' in \<open>auto simp add: sample_validator_def sample_clock_def\<close>)
  then show ?thesis by (simp add: sample_state_def)
qed

theorem executor_complete_mediation_witness:
  "\<exists>r st'. Execute (sample_validator lax_catalog) sample_handlers sample_clock ''i'' ''j'' (sample_envelope lax_catalog) (sample_state Map.empty) = (Inr r, st')
     \<and> mediated (sample_validator lax_catalog) sample_clock (sample_envelope lax_catalog) (sample_state Map.empty) st'"
proof -
  from lax_run obtain r st' where E: "Execute (sample_validator lax_catalog) sample_handlers sample_clock ''i'' ''j'' (sample_envelope lax_catalog) (sample_state Map.empty) = (Inr r, st')"
    by blast
  with executor_complete_mediation [OF E _ lax_gate(1,2)] show ?thesis by auto
qed

theorem executor_at_most_once_witness:
  "\<exists>st'. (exec_step (sample_validator lax_catalog) sample_handlers)\<^sup>*\<^sup>* (0, sample_state Map.empty) (2, st')
     \<and> xs_log st' = [sample_envelope lax_catalog] \<and> distinct (map (\<lambda>e. (ae_Nonce e, ae_ExpiresAt e)) (xs_log st'))"
proof -
  from lax_run obtain r st' where E: "Execute (sample_validator lax_catalog) sample_handlers sample_clock ''i'' ''j'' (sample_envelope lax_catalog) (sample_state Map.empty) = (Inr r, st')"
    "xs_log st' = [sample_envelope lax_catalog]" by blast
  have "exec_step (sample_validator lax_catalog) sample_handlers (0, sample_state Map.empty) (2, st')"
    using E(1) sample_accepts(5) [of lax_catalog 1] by (intro execute) (auto simp: sample_clock_def)
  then have s: "(exec_step (sample_validator lax_catalog) sample_handlers)\<^sup>*\<^sup>* (0, sample_state Map.empty) (2, st')" by simp
  from executor_at_most_once [OF s] s E(2) show ?thesis by (auto simp: sample_state_def)
qed

theorem approval_authorises_one_execution_witness:
  "\<exists>r st'. Execute (sample_validator sample_catalog) sample_handlers sample_clock ''i'' ''j'' (sample_envelope sample_catalog) (sample_state (w_files sample_approvals)) = (Inr r, st')
     \<and> (\<forall>t i j r2 st3. Execute (sample_validator sample_catalog) sample_handlers t i j (sample_envelope sample_catalog) (sample_state (files (xs_approvals st'))) = (r2, st3)
          \<longrightarrow> xs_log st3 = [])"
proof -
  let ?e = "sample_envelope sample_catalog" and ?v = "sample_validator sample_catalog" and ?st = "sample_state (w_files sample_approvals)"
  from sample_approved_run obtain r st' where E: "Execute ?v sample_handlers sample_clock ''i'' ''j'' ?e ?st = (Inr r, st')" "xs_log st' = [?e]" by blast
  have need: "approval_needed (v_Catalog ?v) (ae_Proposal ?e)" using sample_needs(1) sample_accepts(2) [of sample_catalog 1] by (simp add: lax_gate)
  have w: "approval_reachable sample_approvals" "files (xs_approvals ?st) = w_files sample_approvals" "w_exec sample_approvals = None"
    using demo_before_reachable [OF sample_binding_complete] by (simp_all add: sample_approvals_def sample_state_def demo_before_def)
  have lg: "xs_log st' = ?e # xs_log ?st" using E(2) by (simp add: sample_state_def)
  from approval_authorises_one_execution [where ?hs2.0 = sample_handlers, OF w E(1) lg need] obtain w'
    where w': "w_files w' = files (xs_approvals st')"
      "\<forall>w2 st2 v2 t2 e2 i2 j2 r2 st3. approval_step\<^sup>*\<^sup>* w' w2 \<longrightarrow> files (xs_approvals st2) = w_files w2 \<longrightarrow>
         ae_ApprovalID e2 = ae_ApprovalID ?e \<longrightarrow> approval_needed (v_Catalog v2) (ae_Proposal e2) \<longrightarrow>
         Execute v2 sample_handlers t2 i2 j2 e2 (st2 :: unit exec_state) = (r2, st3) \<longrightarrow> xs_log st3 = xs_log st2"
    by blast
  have "xs_log st3 = []" if "Execute ?v sample_handlers t i j ?e (sample_state (files (xs_approvals st'))) = (r2, st3)" for t i j r2 st3
    using w'(2) [rule_format, OF rtranclp.rtrancl_refl _ refl need that] w'(1) by (simp add: sample_state_def)
  with E(1) show ?thesis by blast
qed

theorem replay_in_expiry_window_witness:
  "\<exists>r st' r2 st2. Execute (sample_validator lax_catalog) sample_handlers sample_clock ''i'' ''j'' (sample_envelope lax_catalog) (sample_state Map.empty) = (Inr r, st')
     \<and> Execute (sample_validator lax_catalog) sample_handlers (sample_clock\<lparr>t_current := 99, t_reserve := 101\<rparr>) ''i'' ''j'' (sample_envelope lax_catalog) st' = (r2, st2)
     \<and> xs_log st2 = [sample_envelope lax_catalog, sample_envelope lax_catalog]"
proof -
  from lax_run obtain r st' where E: "Execute (sample_validator lax_catalog) sample_handlers sample_clock ''i'' ''j'' (sample_envelope lax_catalog) (sample_state Map.empty) = (Inr r, st')"
    "xs_log st' = [sample_envelope lax_catalog]" "healthy (xs_nonce_disk st')" by blast
  have "\<not> approval_needed (v_Catalog (sample_validator lax_catalog)) (ae_Proposal (sample_envelope lax_catalog))"
    using sample_needs(2) sample_accepts(2) [of lax_catalog 1] by (simp add: lax_gate)
  from replay_in_expiry_window [OF E(1) _ this lax_gate(3) E(3), of "sample_clock\<lparr>t_current := 99, t_reserve := 101\<rparr>"] E sample_accepts(5) [of lax_catalog 1]
  show ?thesis by (auto simp: sample_clock_def sample_state_def)
qed

end
