(* ===== verification/Quarantine.thy ===== *)
theory Quarantine
  imports Host Contracts
begin

text \<open>
  \<open>internal/rollback/quarantine.go\<close>: reversible deletion. A file is moved into the quarantine by an atomic rename, with a
  manifest written before and committed after it; a restore moves it back; \<open>Recover\<close> reconciles manifests left
  \<open>PREPARED\<close> by a crash. The file system is one disk keyed by absolute paths, with an inode per file, and
  every system call can fail. Answers of \<open>filepath.EvalSymlinks\<close> and the attributes the kernel gives to a manifest file
  are arguments.
\<close>

subsection \<open>Types\<close>

datatype QuarantineStatus = Prepared | Committed | Restored | OtherQuarantineStatus string

fun qstatus_text :: "QuarantineStatus \<Rightarrow> string" where
  "qstatus_text Prepared = ''PREPARED''"
| "qstatus_text Committed = ''COMMITTED''"
| "qstatus_text Restored = ''RESTORED''"
| "qstatus_text (OtherQuarantineStatus s) = s"

record Manifest =
  mf_ID :: string
  mf_TaskID :: string
  mf_OriginalPath :: string
  mf_QuarantinedPath :: string
  mf_OriginalSnapshot :: TargetSnapshot
  mf_Status :: QuarantineStatus
  mf_CreatedAt :: timestamp
  mf_CommittedAt :: timestamp
  mf_RestoredAt :: timestamp

record Operation =
  op_Manifest :: Manifest
  op_Checks :: "string list"

record QuarantineManager =
  qm_labRoots :: "string list"
  qm_quarantineRoot :: string
  qm_objectsDir :: string
  qm_manifestsDir :: string

text \<open>A file of the file system: its attributes and its content, opaque data or a manifest.\<close>

datatype content = Data string | ManifestFile "Manifest doc"

record fsobj =
  o_info :: FileInfo
  o_content :: content

type_synonym filesystem = "fsobj disk"

text \<open>The environment of an operation: how symbolic links resolve, and the attributes of new manifest files.\<close>

record qenv =
  q_EvalSymlinks :: "string \<Rightarrow> string result"
  q_newinfo :: FileInfo

subsection \<open>System calls\<close>

definition os_Lstat :: "string \<Rightarrow> filesystem \<Rightarrow> FileInfo result \<times> filesystem" where
  "os_Lstat p d = (case read_file p d of (r, d) \<Rightarrow> (map_sum id o_info r, d))"

definition os_Rename :: "string \<Rightarrow> string \<Rightarrow> filesystem \<Rightarrow> unit result \<times> filesystem" where
  "os_Rename a b d =
     (case syscall d of (ok, d) \<Rightarrow>
        if \<not> ok then (Inl EIO, d)
        else (case files d a of None \<Rightarrow> (Inl ErrNotExist, d)
          | Some x \<Rightarrow> (Inr (), put_file b x (del_file a d))))"

definition manifest_obj :: "qenv \<Rightarrow> Manifest doc \<Rightarrow> fsobj" where
  "manifest_obj env m = \<lparr>o_info = q_newinfo env, o_content = ManifestFile m\<rparr>"

subsection \<open>Helpers\<close>

definition within :: "string \<Rightarrow> string \<Rightarrow> bool" where
  "within root path = rel_inside (Rel root (Clean path))"

interpretation quarantine_paths: path_containment within
  by unfold_locales (simp add: within_def rel_inside_rooted under_def)

definition quarantine_withinAny :: "string \<Rightarrow> string list \<Rightarrow> bool" where
  "quarantine_withinAny path roots = list_ex (\<lambda>root. within root path) roots"

definition hex_char :: "char \<Rightarrow> bool" where
  "hex_char c \<longleftrightarrow> c \<in> set ''abcdef0123456789''"

definition quarantineIDPattern :: "string \<Rightarrow> bool" where
  "quarantineIDPattern i \<longleftrightarrow> prefix ''q_'' i \<and> length i = 26
     \<and> list_all hex_char (drop 2 i)"

definition verifySameIdentity :: "TargetSnapshot \<Rightarrow> TargetSnapshot \<Rightarrow> unit result" where
  "verifySameIdentity current expected =
     (if ts_Inode current \<noteq> ts_Inode expected \<or> ts_Size current \<noteq> ts_Size expected
        \<or> ts_MTimeUnixNano current \<noteq> ts_MTimeUnixNano expected \<or> ts_Mode current \<noteq> ts_Mode expected
      then Inl (ErrorNew ''inode, size, mtime, or mode changed'') else Inr ())"

definition file_snapshot :: "string \<Rightarrow> string \<Rightarrow> FileInfo \<Rightarrow> TargetSnapshot" where
  "file_snapshot i path info = zero_snapshot\<lparr>ts_Type := ''file'', ts_ID := i, ts_CanonicalPath := path, ts_Size := fi_Size info,
     ts_MTimeUnixNano := fi_ModTime info, ts_Mode := fi_Mode info, ts_Inode := fi_Ino info\<rparr>"

definition verifyIdentity :: "string \<Rightarrow> TargetSnapshot \<Rightarrow> filesystem \<Rightarrow> unit result \<times> filesystem" where
  "verifyIdentity path expected d =
     (case os_Lstat path d of
        (Inl e, d) \<Rightarrow> (Inl e, d)
      | (Inr info, d) \<Rightarrow>
          if \<not> fi_IsRegular info then (Inl (ErrorNew ''quarantine supports regular files only''), d)
          else (verifySameIdentity (file_snapshot (ts_ID expected) path info) expected, d))"

definition canonicalDirectory :: "host \<Rightarrow> string \<Rightarrow> string result" where
  "canonicalDirectory h path =
     (if \<not> IsAbs path then Inl (ErrorNew ''path must be absolute'')
      else (case h_EvalSymlinks h (Clean path) of Inl e \<Rightarrow> Inl e
        | Inr canonical \<Rightarrow> (case h_Stat h canonical of
              Inl _ \<Rightarrow> Inl (ErrorNew ''path must be an existing directory'')
            | Inr info \<Rightarrow> if \<not> fi_IsDir info then Inl (ErrorNew ''path must be an existing directory'') else Inr canonical)))"

fun canonical_roots :: "host \<Rightarrow> string list \<Rightarrow> string list result" where
  "canonical_roots h [] = Inr []"
| "canonical_roots h (root # roots) =
     (case canonicalDirectory h root of Inl e \<Rightarrow> Inl (Wrapf ''Lab root %s'' e)
      | Inr canonical \<Rightarrow>
          if canonical = ''/'' then Inl (ErrorNew ''filesystem root cannot be a Lab root'')
          else (case canonical_roots h roots of Inl e \<Rightarrow> Inl e | Inr cs \<Rightarrow> Inr (canonical # cs)))"

text \<open>\<open>mkdirs\<close> is the outcome of the three \<open>MkdirAll\<close> calls, \<open>h'\<close> the host after them. The order of the sorted roots is
  irrelevant to every use.\<close>

definition NewQuarantineManager :: "host \<Rightarrow> unit result \<Rightarrow> host \<Rightarrow> string list \<Rightarrow> string \<Rightarrow> QuarantineManager result" where
  "NewQuarantineManager h mkdirs h' labRoots quarantineRoot =
     (if labRoots = [] then Inl (ErrorNew ''at least one Lab root is required'')
      else (case canonical_roots h labRoots of Inl e \<Rightarrow> Inl e
        | Inr canonicalRoots \<Rightarrow>
          if \<not> IsAbs quarantineRoot \<or> Clean quarantineRoot = ''/'' then Inl (ErrorNew ''quarantine root must be a scoped absolute path'')
          else (case mkdirs of Inl e \<Rightarrow> Inl e | Inr _ \<Rightarrow>
            (case canonicalDirectory h' quarantineRoot of Inl e \<Rightarrow> Inl e
             | Inr q \<Rightarrow>
               if list_ex (\<lambda>root. within root q \<or> within q root) canonicalRoots
               then Inl (ErrorNew ''quarantine root and Lab roots must not overlap'')
               else Inr \<lparr>qm_labRoots = sort canonicalRoots, qm_quarantineRoot = q,
                      qm_objectsDir = pathJoin [q, ''objects''], qm_manifestsDir = pathJoin [q, ''manifests'']\<rparr>))))"

subsection \<open>Manifest files\<close>

definition manifestPath :: "QuarantineManager \<Rightarrow> string \<Rightarrow> string" where
  "manifestPath qm i = pathJoin [qm_manifestsDir qm, i @ ''.json'']"

definition load_manifest :: "QuarantineManager \<Rightarrow> string \<Rightarrow> filesystem \<Rightarrow> Manifest result \<times> filesystem" where
  "load_manifest qm i d =
     (if \<not> quarantineIDPattern i then (Inl (ErrorNew ''invalid quarantine ID''), d)
      else (case read_file (manifestPath qm i) d of
          (Inl e, d) \<Rightarrow> (Inl e, d)
        | (Inr x, d) \<Rightarrow> (case o_content x of ManifestFile (Valid m) \<Rightarrow> (Inr m, d) | _ \<Rightarrow> (Inl EIO, d))))"

text \<open>\<open>saveNew\<close>: exclusive creation, then write, sync and close; on a failure the new file is removed again, which can
  fail too and then leaves an undecodable or complete manifest behind.\<close>

definition saveNew :: "QuarantineManager \<Rightarrow> qenv \<Rightarrow> Manifest \<Rightarrow> filesystem \<Rightarrow> unit result \<times> filesystem" where
  "saveNew qm env m d =
     (let k = manifestPath qm (mf_ID m) in
      case syscall d of (created, d) \<Rightarrow>
        if \<not> created \<or> files d k \<noteq> None then (Inl EIO, d)
        else (case syscall (put_file k (manifest_obj env Corrupt) d) of (wrote, d) \<Rightarrow>
          let d = (if wrote then put_file k (manifest_obj env (Valid m)) d else d) in
          (case (if wrote then syscall d else (False, d)) of (synced, d) \<Rightarrow>
            (case syscall d of (closed, d) \<Rightarrow>
               if wrote \<and> synced \<and> closed then (Inr (), d)
               else (case remove_file 0 k d of (_, d) \<Rightarrow> (Inl EIO, d))))))"

text \<open>\<open>save\<close>: marshal, create, chmod, write, sync, close the temporary file; the rename is the last call.\<close>

definition save_manifest :: "QuarantineManager \<Rightarrow> qenv \<Rightarrow> Manifest \<Rightarrow> filesystem \<Rightarrow> unit result \<times> filesystem" where
  "save_manifest qm env m = atomic_replace 6 0 (manifestPath qm (mf_ID m)) (manifest_obj env (Valid m))"

interpretation manifest_store: document_store "save_manifest qm env" "\<lambda>m. manifestPath qm (mf_ID m)" "\<lambda>m. manifest_obj env (Valid m)"
  for qm env
  unfolding save_manifest_def by (rule document_store_atomic)

subsection \<open>Quarantine, Restore, Recover\<close>

definition quarantine_id :: "string \<Rightarrow> string \<Rightarrow> string \<Rightarrow> string" where
  "quarantine_id taskID nonce digest =
     ''q_'' @ EncodeToString (take 12 (sha256 (taskID @ [CHR 0x00] @ nonce @ [CHR 0x00] @ digest)))"

definition zero_manifest :: Manifest where
  "zero_manifest = \<lparr>mf_ID = [], mf_TaskID = [], mf_OriginalPath = [], mf_QuarantinedPath = [], mf_OriginalSnapshot = zero_snapshot,
     mf_Status = OtherQuarantineStatus [], mf_CreatedAt = 0, mf_CommittedAt = 0, mf_RestoredAt = 0\<rparr>"

text \<open>\<open>errors.Join(cause, rollbackErr)\<close>, where the second error may be nil.\<close>

definition join_rollback :: "go_error \<Rightarrow> unit result \<Rightarrow> go_error" where
  "join_rollback cause rb = Joined (cause # (case rb of Inl e \<Rightarrow> [e] | Inr _ \<Rightarrow> []))"

text \<open>The part of \<open>Quarantine\<close> after the manifest \<open>m\<close> has been prepared: rename, verify, commit; roll the rename back on
  failure.\<close>

definition quarantine_commit :: "QuarantineManager \<Rightarrow> qenv \<Rightarrow> timestamp \<Rightarrow> Manifest \<Rightarrow> filesystem \<Rightarrow> Operation result \<times> filesystem" where
  "quarantine_commit qm env now' m d =
     (let src = mf_OriginalPath m; dst = mf_QuarantinedPath m; expected = mf_OriginalSnapshot m in
      case os_Rename src dst d of
        (Inl e, d) \<Rightarrow> (Inl (Wrapf ''atomic quarantine rename'' e), d)
      | (Inr _, d) \<Rightarrow>
        (case verifyIdentity dst expected d of
           (Inl e, d) \<Rightarrow> (case os_Rename dst src d of (rb, d) \<Rightarrow> (Inl (join_rollback (Wrapf ''quarantine verification'' e) rb), d))
         | (Inr _, d) \<Rightarrow>
           let m = m\<lparr>mf_Status := Committed, mf_CommittedAt := now'\<rparr> in
           (case save_manifest qm env m d of
              (Inl e, d) \<Rightarrow> (case os_Rename dst src d of (rb, d) \<Rightarrow> (Inl (join_rollback (Wrapf ''commit quarantine manifest'' e) rb), d))
            | (Inr _, d) \<Rightarrow> (Inr \<lparr>op_Manifest = m, op_Checks = [''source snapshot matched'', ''atomic rename completed'',
                ''destination inode/size/mtime/mode matched'']\<rparr>, d))))"

definition Quarantine :: "QuarantineManager \<Rightarrow> qenv \<Rightarrow> timestamp \<Rightarrow> timestamp \<Rightarrow> string \<Rightarrow> string \<Rightarrow> TargetSnapshot \<Rightarrow> filesystem \<Rightarrow> Operation result \<times> filesystem" where
  "Quarantine qm env now now' taskID nonce expected d =
     (case syscall d of (ok, d) \<Rightarrow>
      if \<not> ok then (Inl EIO, d)
      else if ts_Type expected \<noteq> ''file'' \<or> ts_CanonicalPath expected = [] \<or> taskID = [] \<or> nonce = []
        then (Inl (ErrorNew ''complete file snapshot, task ID, and nonce are required''), d)
      else (case q_EvalSymlinks env (ts_CanonicalPath expected) of Inl e \<Rightarrow> (Inl e, d)
       | Inr currentPath \<Rightarrow>
        if \<not> quarantine_withinAny currentPath (qm_labRoots qm) then (Inl (ErrorNew ''file is outside configured Lab roots''), d)
        else (case verifyIdentity currentPath expected d of (Inl e, d) \<Rightarrow> (Inl (Wrapf ''TARGET_CHANGED'' e), d)
         | (Inr _, d) \<Rightarrow>
          (case TargetSnapshot_Digest expected of Inl e \<Rightarrow> (Inl e, d)
           | Inr digest \<Rightarrow>
             let i = quarantine_id taskID nonce digest; destination = pathJoin [qm_objectsDir qm, i] in
             (case os_Lstat destination d of
                (Inr _, d) \<Rightarrow> (Inl (ErrorNew ''quarantine object already exists''), d)
              | (Inl e, d) \<Rightarrow>
                if \<not> IsNotExist e then (Inl e, d)
                else let m = zero_manifest\<lparr>mf_ID := i, mf_TaskID := taskID, mf_OriginalPath := currentPath, mf_QuarantinedPath := destination,
                       mf_OriginalSnapshot := expected, mf_Status := Prepared, mf_CreatedAt := now\<rparr> in
                (case saveNew qm env m d of (Inl e, d) \<Rightarrow> (Inl e, d)
                 | (Inr _, d) \<Rightarrow> quarantine_commit qm env now' m d))))))"

text \<open>The part of \<open>Restore\<close> after its checks: rename back, verify, commit; roll back on failure.\<close>

definition restore_commit :: "QuarantineManager \<Rightarrow> qenv \<Rightarrow> timestamp \<Rightarrow> Manifest \<Rightarrow> filesystem \<Rightarrow> Operation result \<times> filesystem" where
  "restore_commit qm env now m d =
     (case os_Rename (mf_QuarantinedPath m) (mf_OriginalPath m) d of
        (Inl e, d) \<Rightarrow> (Inl (Wrapf ''atomic restore rename'' e), d)
      | (Inr _, d) \<Rightarrow>
        (case verifyIdentity (mf_OriginalPath m) (mf_OriginalSnapshot m) d of
           (Inl e, d) \<Rightarrow> (case os_Rename (mf_OriginalPath m) (mf_QuarantinedPath m) d of (rb, d) \<Rightarrow> (Inl (join_rollback (Wrapf ''restore verification'' e) rb), d))
         | (Inr _, d) \<Rightarrow>
           let m' = m\<lparr>mf_Status := Restored, mf_RestoredAt := now\<rparr> in
           (case save_manifest qm env m' d of
              (Inl e, d) \<Rightarrow> (case os_Rename (mf_OriginalPath m) (mf_QuarantinedPath m) d of (rb, d) \<Rightarrow> (Inl (join_rollback (Wrapf ''commit restore manifest'' e) rb), d))
            | (Inr _, d) \<Rightarrow> (Inr \<lparr>op_Manifest = m', op_Checks = [''quarantine snapshot matched'', ''original path was vacant'',
                ''atomic restore completed'', ''restored inode/size/mtime/mode matched'']\<rparr>, d))))"

definition Restore :: "QuarantineManager \<Rightarrow> qenv \<Rightarrow> timestamp \<Rightarrow> string \<Rightarrow> TargetSnapshot \<Rightarrow> filesystem \<Rightarrow> Operation result \<times> filesystem" where
  "Restore qm env now i expected d =
     (case syscall d of (ok, d) \<Rightarrow>
      if \<not> ok then (Inl EIO, d)
      else if \<not> quarantineIDPattern i then (Inl (ErrorNew ''invalid quarantine ID''), d)
      else (case load_manifest qm i d of (Inl e, d) \<Rightarrow> (Inl e, d)
       | (Inr m, d) \<Rightarrow>
        if mf_Status m = Restored then (Inr \<lparr>op_Manifest = m, op_Checks = [''restore already committed'']\<rparr>, d)
        else if mf_Status m \<noteq> Committed then (Inl (ErrorNew (''quarantine is '' @ qstatus_text (mf_Status m))), d)
        else if ts_Type expected \<noteq> ''file'' \<or> Clean (ts_CanonicalPath expected) \<noteq> mf_QuarantinedPath m
          then (Inl (ErrorNew ''restore target does not match quarantine manifest''), d)
        else (case verifyIdentity (mf_QuarantinedPath m) expected d of (Inl e, d) \<Rightarrow> (Inl (Wrapf ''TARGET_CHANGED'' e), d)
         | (Inr _, d) \<Rightarrow>
          (case verifySameIdentity expected (mf_OriginalSnapshot m) of
             Inl e \<Rightarrow> (Inl (Wrapf ''quarantined object differs from original manifest'' e), d)
           | Inr _ \<Rightarrow>
            (case q_EvalSymlinks env (Dir (mf_OriginalPath m)) of
               Inl _ \<Rightarrow> (Inl (ErrorNew ''original parent is unavailable or outside Lab roots''), d)
             | Inr parent \<Rightarrow>
               if \<not> quarantine_withinAny parent (qm_labRoots qm) then (Inl (ErrorNew ''original parent is unavailable or outside Lab roots''), d)
               else (case os_Lstat (mf_OriginalPath m) d of
                   (Inr _, d) \<Rightarrow> (Inl (ErrorNew ''original path is already occupied''), d)
                 | (Inl e, d) \<Rightarrow> if \<not> IsNotExist e then (Inl e, d) else restore_commit qm env now m d))))))"

text \<open>The body of the loop of \<open>Recover\<close> for a manifest that is still prepared; \<open>None\<close> is no error.\<close>

definition recover_one :: "QuarantineManager \<Rightarrow> qenv \<Rightarrow> timestamp \<Rightarrow> Manifest \<Rightarrow> filesystem \<Rightarrow> go_error option \<times> filesystem" where
  "recover_one qm env now m d =
     (case os_Lstat (mf_OriginalPath m) d of (source, d) \<Rightarrow>
      (case os_Lstat (mf_QuarantinedPath m) d of (destination, d) \<Rightarrow>
        if is_ok source \<and> destination = Inl ErrNotExist then
          (case remove_file 0 (manifestPath qm (mf_ID m)) d of (Inl e, d) \<Rightarrow> (Some e, d) | (Inr _, d) \<Rightarrow> (None, d))
        else if source = Inl ErrNotExist \<and> is_ok destination then
          (case verifyIdentity (mf_QuarantinedPath m) (mf_OriginalSnapshot m) d of
             (Inl e, d) \<Rightarrow> (Some e, d)
           | (Inr _, d) \<Rightarrow>
             (case save_manifest qm env (m\<lparr>mf_Status := Committed, mf_CommittedAt := now\<rparr>) d of
                (Inl e, d) \<Rightarrow> (Some e, d) | (Inr _, d) \<Rightarrow> (None, d)))
        else (Some (ErrorNew ''cannot reconcile prepared quarantine %s''), d)))"

fun recover_entries :: "QuarantineManager \<Rightarrow> qenv \<Rightarrow> timestamp \<Rightarrow> (string \<times> bool) list \<Rightarrow> go_error list \<Rightarrow> filesystem \<Rightarrow> unit result \<times> filesystem" where
  "recover_entries qm env now [] errs d = ((if errs = [] then Inr () else Inl (Joined errs)), d)"
| "recover_entries qm env now ((name, isDir) # es) errs d =
     (case syscall d of (ok, d) \<Rightarrow>
      if \<not> ok then (Inl EIO, d)
      else if isDir \<or> \<not> suffix ''.json'' name then recover_entries qm env now es errs d
      else (case load_manifest qm (TrimSuffix name ''.json'') d of
          (Inl e, d) \<Rightarrow> recover_entries qm env now es (errs @ [e]) d
        | (Inr m, d) \<Rightarrow>
          if mf_Status m \<noteq> Prepared then recover_entries qm env now es errs d
          else (case recover_one qm env now m d of
              (None, d) \<Rightarrow> recover_entries qm env now es errs d
            | (Some e, d) \<Rightarrow> recover_entries qm env now es (errs @ [e]) d)))"

text \<open>\<open>entries\<close> is the listing of the manifests directory.\<close>

definition Recover :: "QuarantineManager \<Rightarrow> qenv \<Rightarrow> timestamp \<Rightarrow> (string \<times> bool) list \<Rightarrow> filesystem \<Rightarrow> unit result \<times> filesystem" where
  "Recover qm env now entries d =
     (case syscall d of (ok, d) \<Rightarrow> if \<not> ok then (Inl EIO, d) else recover_entries qm env now entries [] d)"

definition GetManifest :: "QuarantineManager \<Rightarrow> string \<Rightarrow> filesystem \<Rightarrow> Manifest result \<times> filesystem" where
  "GetManifest qm i d =
     (if \<not> quarantineIDPattern i then (Inl (ErrorNew ''invalid quarantine ID''), d) else load_manifest qm i d)"

subsection \<open>Effects of the system calls\<close>

lemma os_Lstat_files: "os_Lstat p d = (r, d') \<Longrightarrow> files d' = files d"
  by (auto simp: os_Lstat_def split: prod.splits dest: read_file_files)

lemma os_Lstat_Inr: "os_Lstat p d = (Inr i, d') \<Longrightarrow> \<exists>x. files d p = Some x \<and> o_info x = i"
  by (cases "read_file p d") (auto simp: os_Lstat_def map_sum_def split: sum.splits dest: read_file_Inr)

lemma os_Lstat_NotExist: "os_Lstat p d = (Inl ErrNotExist, d') \<Longrightarrow> files d p = None"
  by (cases "read_file p d") (auto simp: os_Lstat_def map_sum_def split: sum.splits dest: read_file_NotExist)

lemma os_Rename_cases:
  assumes "os_Rename a b d = (r, d')"
  obtains (failed) e where "r = Inl e" "files d' = files d"
  | (moved) x where "r = Inr ()" "files d a = Some x" "files d' = (files d)(a := None, b := Some x)"
  using assms by (auto simp: os_Rename_def split: prod.splits if_splits option.splits dest!: syscall_files)

lemma verifyIdentity_files: "verifyIdentity p s d = (r, d') \<Longrightarrow> files d' = files d"
  by (auto simp: verifyIdentity_def split: prod.splits sum.splits if_splits dest: os_Lstat_files)

definition identical :: "FileInfo \<Rightarrow> TargetSnapshot \<Rightarrow> bool" where
  "identical i s \<longleftrightarrow> fi_IsRegular i \<and> fi_Ino i = ts_Inode s \<and> fi_Size i = ts_Size s \<and> fi_ModTime i = ts_MTimeUnixNano s \<and> fi_Mode i = ts_Mode s"

lemma verifySameIdentity_iff: "verifySameIdentity a b = Inr () \<longleftrightarrow>
  ts_Inode a = ts_Inode b \<and> ts_Size a = ts_Size b \<and> ts_MTimeUnixNano a = ts_MTimeUnixNano b \<and> ts_Mode a = ts_Mode b"
  by (simp add: verifySameIdentity_def)

lemma verify_snapshot_iff: "verifySameIdentity (file_snapshot i p info) s = Inr () \<longleftrightarrow>
  fi_Ino info = ts_Inode s \<and> fi_Size info = ts_Size s \<and> fi_ModTime info = ts_MTimeUnixNano s \<and> fi_Mode info = ts_Mode s"
  by (simp add: verifySameIdentity_iff file_snapshot_def zero_snapshot_def)

lemma verifyIdentity_ok:
  assumes "verifyIdentity p s d = (Inr u, d')"
  obtains x where "files d p = Some x" "identical (o_info x) s"
proof -
  from assms obtain i d1 where l: "os_Lstat p d = (Inr i, d1)" "fi_IsRegular i" "verifySameIdentity (file_snapshot (ts_ID s) p i) s = Inr ()"
    by (auto simp: verifyIdentity_def split: prod.splits sum.splits if_splits)
  from os_Lstat_Inr [OF l(1)] obtain x where "files d p = Some x" "o_info x = i" by blast
  with l(2,3) that show ?thesis by (simp add: identical_def verify_snapshot_iff)
qed

lemma healthy_os_Lstat:
  assumes "healthy d"
  shows "\<exists>d'. os_Lstat p d = ((case files d p of None \<Rightarrow> Inl ErrNotExist | Some x \<Rightarrow> Inr (o_info x)), d') \<and> healthy d' \<and> files d' = files d"
  using healthy_read_file [OF assms, of p] by (auto simp: os_Lstat_def split: option.splits)

lemma healthy_os_Rename:
  assumes "healthy d" "files d a = Some x"
  shows "\<exists>d'. os_Rename a b d = (Inr (), d') \<and> healthy d' \<and> files d' = (files d)(a := None, b := Some x)"
  using healthy_syscall [OF assms(1)] assms(2) by (auto simp: os_Rename_def)

lemma healthy_verifyIdentity:
  assumes "healthy d" "files d p = Some x" "identical (o_info x) s"
  shows "\<exists>d'. verifyIdentity p s d = (Inr (), d') \<and> healthy d' \<and> files d' = files d"
proof -
  from healthy_os_Lstat [OF assms(1), of p] assms(2) obtain d1 where "os_Lstat p d = (Inr (o_info x), d1)" "healthy d1" "files d1 = files d" by auto
  moreover have "verifySameIdentity (file_snapshot (ts_ID s) p (o_info x)) s = Inr ()" "fi_IsRegular (o_info x)"
    using assms(3) by (auto simp: identical_def verify_snapshot_iff)
  ultimately show ?thesis by (simp add: verifyIdentity_def)
qed

subsection \<open>Effects of writing manifests\<close>

text \<open>The rename is the last call of \<open>save\<close>, so a failed \<open>save\<close> has not replaced the manifest: only therefore is
  it right that \<open>Quarantine\<close> and \<open>Restore\<close> move the file back after a failed commit.\<close>

lemma save_manifest_cases:
  assumes "save_manifest qm env m d = (r, d')"
  obtains (saved) "r = Inr ()" "files d' = (files d)(manifestPath qm (mf_ID m) \<mapsto> manifest_obj env (Valid m))"
  | (failed) e where "r = Inl e" "files d' = files d"
proof (cases r)
  case (Inl e)
  with assms have "files d' = files d"
    by (auto simp: save_manifest_def atomic_replace_def split: prod.splits if_splits dest!: calls_files syscall_files)
  with Inl failed show ?thesis by blast
next
  case (Inr u)
  with assms manifest_store.save_done saved show ?thesis by fastforce
qed

lemma saveNew_cases:
  assumes "saveNew qm env m d = (r, d')"
  obtains (saved) "r = Inr ()" "files d (manifestPath qm (mf_ID m)) = None"
      "files d' = (files d)(manifestPath qm (mf_ID m) \<mapsto> manifest_obj env (Valid m))"
  | (failed) e where "r = Inl e" "files d' = files d"
  | (left) e x where "r = Inl e" "files d (manifestPath qm (mf_ID m)) = None" "x \<in> {Corrupt, Valid m}"
      "files d' = (files d)(manifestPath qm (mf_ID m) \<mapsto> manifest_obj env x)"
proof -
  let ?k = "manifestPath qm (mf_ID m)"
  obtain c d1 where d1: "syscall d = (c, d1)" "files d1 = files d" by (metis syscall_files surj_pair)
  show ?thesis
  proof (cases "\<not> c \<or> files d1 ?k \<noteq> None")
    case True
    with d1 assms show ?thesis by (intro failed [of EIO]) (auto simp: saveNew_def Let_def split: if_splits)
  next
    case False
    then have vac: "files d ?k = None" using d1 by simp
    obtain wr d2 where d2: "syscall (put_file ?k (manifest_obj env Corrupt) d1) = (wr, d2)" by (metis surj_pair)
    note f2 = syscall_files [OF d2]
    let ?x = "if wr then Valid m else Corrupt"
    let ?d3 = "if wr then put_file ?k (manifest_obj env (Valid m)) d2 else d2"
    have f3: "files ?d3 = (files d)(?k \<mapsto> manifest_obj env ?x)" using f2 d1(2) by auto
    obtain sy d4 where d4: "(if wr then syscall ?d3 else (False, ?d3)) = (sy, d4)" by (metis surj_pair)
    have f4: "files d4 = (files d)(?k \<mapsto> manifest_obj env ?x)" using d4 f3 by (auto split: if_splits dest: syscall_files)
    obtain cl d5 where d5: "syscall d4 = (cl, d5)" by (metis surj_pair)
    have f5: "files d5 = (files d)(?k \<mapsto> manifest_obj env ?x)" using syscall_files [OF d5] f4 by simp
    have eq: "saveNew qm env m d = (if wr \<and> sy \<and> cl then (Inr (), d5) else (case remove_file 0 ?k d5 of (_, d) \<Rightarrow> (Inl EIO, d)))"
      using False d1(1) d2 d4 d5 by (simp add: saveNew_def Let_def)
    show ?thesis
    proof (cases "wr \<and> sy \<and> cl")
      case True
      with eq assms f5 vac show ?thesis by (intro saved) auto
    next
      case no: False
      obtain z d6 where z: "remove_file 0 ?k d5 = (z, d6)" by (metis surj_pair)
      with eq no assms have r: "r = Inl EIO" "d' = d6" by (simp_all split: if_splits)
      from z show ?thesis
      proof (cases rule: remove_file_cases)
        case unchanged
        with r f5 vac show ?thesis by (intro left [of EIO ?x]) auto
      qed (use r f5 vac in \<open>auto intro!: failed [of EIO]\<close>)
    qed
  qed
qed

subsection \<open>Effects of the operations\<close>

text \<open>The three paths of an operation are different: the lab file, its place in the quarantine, its manifest.\<close>

definition apart :: "QuarantineManager \<Rightarrow> Manifest \<Rightarrow> bool" where
  "apart qm m \<longleftrightarrow> mf_OriginalPath m \<noteq> mf_QuarantinedPath m \<and> mf_OriginalPath m \<noteq> manifestPath qm (mf_ID m)
     \<and> mf_QuarantinedPath m \<noteq> manifestPath qm (mf_ID m)"

text \<open>The file \<open>x\<close> is at \<open>a\<close> and not at \<open>b\<close>.\<close>

definition placed :: "string \<Rightarrow> string \<Rightarrow> fsobj \<Rightarrow> (string \<rightharpoonup> fsobj) \<Rightarrow> bool" where
  "placed a b x fs \<longleftrightarrow> fs a = Some x \<and> fs b = None"

definition same_except :: "string set \<Rightarrow> (string \<rightharpoonup> fsobj) \<Rightarrow> (string \<rightharpoonup> fsobj) \<Rightarrow> bool" where
  "same_except K fs fs' \<longleftrightarrow> (\<forall>k. k \<notin> K \<longrightarrow> fs' k = fs k)"

abbreviation own_paths :: "QuarantineManager \<Rightarrow> Manifest \<Rightarrow> string set" where
  "own_paths qm m \<equiv> {mf_OriginalPath m, mf_QuarantinedPath m, manifestPath qm (mf_ID m)}"

text \<open>\<open>Quarantine\<close> and \<open>Restore\<close> end in the same way: rename, verify, commit the manifest, rename back on failure.\<close>

definition move_commit :: "QuarantineManager \<Rightarrow> qenv \<Rightarrow> string \<Rightarrow> string \<Rightarrow> string \<Rightarrow> string list \<Rightarrow> string \<Rightarrow> string \<Rightarrow> TargetSnapshot \<Rightarrow> Manifest \<Rightarrow> filesystem \<Rightarrow> Operation result \<times> filesystem" where
  "move_commit qm env e1 e2 e3 checks a b s m' d =
     (case os_Rename a b d of
        (Inl e, d) \<Rightarrow> (Inl (Wrapf e1 e), d)
      | (Inr _, d) \<Rightarrow>
        (case verifyIdentity b s d of
           (Inl e, d) \<Rightarrow> (case os_Rename b a d of (rb, d) \<Rightarrow> (Inl (join_rollback (Wrapf e2 e) rb), d))
         | (Inr _, d) \<Rightarrow>
           (case save_manifest qm env m' d of
              (Inl e, d) \<Rightarrow> (case os_Rename b a d of (rb, d) \<Rightarrow> (Inl (join_rollback (Wrapf e3 e) rb), d))
            | (Inr _, d) \<Rightarrow> (Inr \<lparr>op_Manifest = m', op_Checks = checks\<rparr>, d))))"

lemma quarantine_commit_move:
  "quarantine_commit qm env now' m d = move_commit qm env ''atomic quarantine rename'' ''quarantine verification'' ''commit quarantine manifest''
     [''source snapshot matched'', ''atomic rename completed'', ''destination inode/size/mtime/mode matched'']
     (mf_OriginalPath m) (mf_QuarantinedPath m) (mf_OriginalSnapshot m) (m\<lparr>mf_Status := Committed, mf_CommittedAt := now'\<rparr>) d"
  unfolding quarantine_commit_def move_commit_def Let_def by simp

lemma restore_commit_move:
  "restore_commit qm env now m d = move_commit qm env ''atomic restore rename'' ''restore verification'' ''commit restore manifest''
     [''quarantine snapshot matched'', ''original path was vacant'', ''atomic restore completed'', ''restored inode/size/mtime/mode matched'']
     (mf_QuarantinedPath m) (mf_OriginalPath m) (mf_OriginalSnapshot m) (m\<lparr>mf_Status := Restored, mf_RestoredAt := now\<rparr>) d"
  unfolding restore_commit_def move_commit_def Let_def by simp

text \<open>Under any failures the file stays in exactly one of the two places, and the new manifest is stored only on success.\<close>

lemma move_commit_effect:
  assumes "move_commit qm env e1 e2 e3 cs s t snap m' d = (r, d')"
    and ap: "s \<noteq> t" "s \<noteq> manifestPath qm (mf_ID m')" "t \<noteq> manifestPath qm (mf_ID m')"
    and "placed s t x (files d)"
  shows "same_except {s, t, manifestPath qm (mf_ID m')} (files d) (files d')
    \<and> (if is_ok r then placed t s x (files d') \<and> files d' (manifestPath qm (mf_ID m')) = Some (manifest_obj env (Valid m'))
          \<and> identical (o_info x) snap
       else (placed s t x (files d') \<or> placed t s x (files d')) \<and> files d' (manifestPath qm (mf_ID m')) = files d (manifestPath qm (mf_ID m')))"
proof -
  let ?k = "manifestPath qm (mf_ID m')"
  note pl = assms(5) [unfolded placed_def]
  obtain y d1 where R: "os_Rename s t d = (y, d1)" by fastforce
  from R show ?thesis
  proof (cases rule: os_Rename_cases)
    case (failed e)
    with assms(1,5) R show ?thesis by (auto simp: move_commit_def same_except_def)
  next
    case (moved x')
    with pl have m1: "files d1 = (files d)(s := None, t := Some x)" by simp
    obtain z d2 where V: "verifyIdentity t snap d1 = (z, d2)" by fastforce
    have m2: "files d2 = files d1" by (rule verifyIdentity_files [OF V])
    have undone: "same_except {s, t, ?k} (files d) (files d4) \<and> files d4 ?k = files d ?k \<and> (placed s t x (files d4) \<or> placed t s x (files d4))"
      if "os_Rename t s d3 = (w, d4)" "files d3 = files d1" for w d3 d4
      using that(1) by (cases rule: os_Rename_cases) (use that(2) m1 ap pl in \<open>auto simp: same_except_def placed_def\<close>)
    show ?thesis
    proof (cases z)
      case (Inl e)
      obtain w d4 where B: "os_Rename t s d2 = (w, d4)" by fastforce
      with assms(1) R moved V Inl have "d' = d4" "\<not> is_ok r" by (auto simp: move_commit_def)
      with undone [OF B m2] show ?thesis by auto
    next
      case (Inr u)
      obtain v d3 where S: "save_manifest qm env m' d2 = (v, d3)" by fastforce
      obtain x0 where x0: "files d1 t = Some x0" "identical (o_info x0) snap"
        using verifyIdentity_ok [OF V [unfolded Inr]] by blast
      from S show ?thesis
      proof (cases rule: save_manifest_cases)
        case saved
        with assms(1) R moved V Inr S have "d' = d3" "is_ok r" by (auto simp: move_commit_def)
        with saved m1 m2 ap x0 show ?thesis by (auto simp: same_except_def placed_def)
      next
        case (failed e)
        obtain w d4 where B: "os_Rename t s d3 = (w, d4)" by fastforce
        with assms(1) R moved V Inr S failed have "d' = d4" "\<not> is_ok r" by (auto simp: move_commit_def)
        with undone [OF B] failed m2 show ?thesis by auto
      qed
    qed
  qed
qed

lemma quarantine_commit_effect:
  assumes "quarantine_commit qm env now' m d = (r, d')" "apart qm m"
    and "placed (mf_OriginalPath m) (mf_QuarantinedPath m) x (files d)"
  shows "same_except (own_paths qm m) (files d) (files d')
    \<and> (if is_ok r then placed (mf_QuarantinedPath m) (mf_OriginalPath m) x (files d')
          \<and> files d' (manifestPath qm (mf_ID m)) = Some (manifest_obj env (Valid (m\<lparr>mf_Status := Committed, mf_CommittedAt := now'\<rparr>)))
          \<and> identical (o_info x) (mf_OriginalSnapshot m)
       else (placed (mf_OriginalPath m) (mf_QuarantinedPath m) x (files d') \<or> placed (mf_QuarantinedPath m) (mf_OriginalPath m) x (files d'))
          \<and> files d' (manifestPath qm (mf_ID m)) = files d (manifestPath qm (mf_ID m)))"
  using move_commit_effect [OF assms(1) [unfolded quarantine_commit_move] _ _ _ assms(3)] assms(2)
  by (cases "is_ok r") (simp_all add: apart_def)

lemma restore_commit_effect:
  assumes "restore_commit qm env now m d = (r, d')" "apart qm m"
    and "placed (mf_QuarantinedPath m) (mf_OriginalPath m) x (files d)"
  shows "same_except (own_paths qm m) (files d) (files d')
    \<and> (if is_ok r then placed (mf_OriginalPath m) (mf_QuarantinedPath m) x (files d')
          \<and> files d' (manifestPath qm (mf_ID m)) = Some (manifest_obj env (Valid (m\<lparr>mf_Status := Restored, mf_RestoredAt := now\<rparr>)))
          \<and> identical (o_info x) (mf_OriginalSnapshot m)
       else (placed (mf_QuarantinedPath m) (mf_OriginalPath m) x (files d') \<or> placed (mf_OriginalPath m) (mf_QuarantinedPath m) x (files d'))
          \<and> files d' (manifestPath qm (mf_ID m)) = files d (manifestPath qm (mf_ID m)))"
  using move_commit_effect [OF assms(1) [unfolded restore_commit_move] _ _ _ assms(3)] assms(2)
  by (cases "is_ok r") (auto simp: apart_def insert_commute)

subsection \<open>Paths of a manager\<close>

definition manager_ok :: "QuarantineManager \<Rightarrow> bool" where
  "manager_ok qm \<longleftrightarrow> IsAbs (qm_quarantineRoot qm)
     \<and> qm_objectsDir qm = pathJoin [qm_quarantineRoot qm, ''objects''] \<and> qm_manifestsDir qm = pathJoin [qm_quarantineRoot qm, ''manifests'']
     \<and> (\<forall>r \<in> set (qm_labRoots qm). IsAbs r \<and> \<not> under r (qm_quarantineRoot qm) \<and> \<not> under (qm_quarantineRoot qm) r)"

lemma hex_char_digit: "n < 16 \<Longrightarrow> hex_char (hex_digit n)"
proof -
  have "\<forall>n \<in> set [0..<16]. hex_char (hex_digit n)" by code_simp
  then show "n < 16 \<Longrightarrow> hex_char (hex_digit n)" by simp
qed

lemma hex_chars: "list_all hex_char (EncodeToString bs)"
proof (induction bs)
  case (Cons b bs)
  have "(of_char b :: nat) div 16 < 16" "(of_char b :: nat) mod 16 < 16"
    using of_char_less [of b] by (simp_all add: less_mult_imp_div_less)
  with Cons show ?case by (simp add: EncodeToString_def hex_byte_def hex_char_digit)
qed (simp add: EncodeToString_def)

lemma quarantine_id_pattern: "quarantineIDPattern (quarantine_id t n g)"
  using hex_chars by (simp add: quarantineIDPattern_def quarantine_id_def)

lemma pattern_plain:
  assumes "quarantineIDPattern i"
  shows "plain_seg i" "i \<noteq> ''..''" "plain_seg (i @ ''.json'')" "i @ ''.json'' \<noteq> ''..''"
proof -
  from assms obtain t where i: "i = CHR ''q'' # CHR ''_'' # t" "list_all hex_char t"
    by (auto simp: quarantineIDPattern_def prefix_def)
  have "\<not> hex_char (CHR ''/'')" by (simp add: hex_char_def)
  with i(2) have "CHR ''/'' \<notin> set t" by (auto simp: list_all_iff)
  with i show "plain_seg i" "i \<noteq> ''..''" "plain_seg (i @ ''.json'')" "i @ ''.json'' \<noteq> ''..''"
    by (auto simp: plain_seg_def)
qed

lemma quarantine_segs:
  assumes "manager_ok qm" "quarantineIDPattern i"
  shows "segs (pathJoin [qm_objectsDir qm, i]) = segs (qm_quarantineRoot qm) @ [''objects'', i]"
    "segs (manifestPath qm i) = segs (qm_quarantineRoot qm) @ [''manifests'', i @ ''.json'']"
    "IsAbs (pathJoin [qm_objectsDir qm, i])" "IsAbs (manifestPath qm i)"
proof -
  have o: "plain_seg ''objects''" "plain_seg ''manifests''" by (simp_all add: plain_seg_def)
  note a = pathJoin_segs [of "qm_quarantineRoot qm" "''objects''"] pathJoin_segs [of "qm_quarantineRoot qm" "''manifests''"]
  note b = pathJoin_segs [of "qm_objectsDir qm" i] pathJoin_segs [of "qm_manifestsDir qm" "i @ ''.json''"]
  show "segs (pathJoin [qm_objectsDir qm, i]) = segs (qm_quarantineRoot qm) @ [''objects'', i]"
    "segs (manifestPath qm i) = segs (qm_quarantineRoot qm) @ [''manifests'', i @ ''.json'']"
    "IsAbs (pathJoin [qm_objectsDir qm, i])" "IsAbs (manifestPath qm i)"
    using assms(1) a(1-3) [OF _ o(1)] a(4-6) [OF _ o(2)] b pattern_plain [OF assms(2)] by (simp_all add: manager_ok_def manifestPath_def)
qed

lemma quarantine_path_clean:
  assumes "manager_ok qm" "quarantineIDPattern i"
  shows "Clean (pathJoin [qm_objectsDir qm, i]) = pathJoin [qm_objectsDir qm, i]"
proof -
  have "IsAbs (qm_objectsDir qm)" using assms(1) pathJoin_segs(2) [of "qm_quarantineRoot qm" "''objects''"] by (simp add: manager_ok_def plain_seg_def)
  from pathJoin_segs(3) [OF this pattern_plain(1,2) [OF assms(2)]] show ?thesis .
qed

lemma manifestPath_inj:
  assumes "manager_ok qm" "quarantineIDPattern i" "quarantineIDPattern j" "manifestPath qm i = manifestPath qm j"
  shows "i = j"
proof -
  have "segs (manifestPath qm i) = segs (manifestPath qm j)" by (rule arg_cong [OF assms(4)])
  then show ?thesis unfolding quarantine_segs(2) [OF assms(1,2)] quarantine_segs(2) [OF assms(1,3)] by simp
qed

lemma lab_path_apart:
  assumes "manager_ok qm" "quarantine_withinAny p (qm_labRoots qm)" "IsAbs k" "prefix (segs (qm_quarantineRoot qm)) (segs k)"
  shows "p \<noteq> k"
proof
  assume pk: "p = k"
  have abs: "list_all IsAbs (qm_labRoots qm)" using assms(1) by (auto simp: manager_ok_def list_all_iff)
  from assms(2) obtain r where r: "r \<in> set (qm_labRoots qm)" "under r p"
    by (auto simp: quarantine_withinAny_def quarantine_paths.inside_any [OF abs])
  have "under (qm_quarantineRoot qm) p" using assms(3,4) pk by (simp add: under_def)
  with under_both [OF _ _ r(2) this] assms(1) r(1) show False by (auto simp: manager_ok_def)
qed

lemma apart_new:
  assumes "manager_ok qm" "quarantine_withinAny p (qm_labRoots qm)" "quarantineIDPattern i"
  shows "p \<noteq> pathJoin [qm_objectsDir qm, i]" "p \<noteq> manifestPath qm i" "pathJoin [qm_objectsDir qm, i] \<noteq> manifestPath qm i"
proof -
  note g = quarantine_segs [OF assms(1,3)]
  show "p \<noteq> pathJoin [qm_objectsDir qm, i]" by (rule lab_path_apart [OF assms(1,2)]) (simp_all add: g)
  show "p \<noteq> manifestPath qm i" by (rule lab_path_apart [OF assms(1,2)]) (simp_all add: g)
  show "pathJoin [qm_objectsDir qm, i] \<noteq> manifestPath qm i" using g(1,2) by auto
qed

lemma canonical_roots_abs:
  assumes "resolves_absolute h" "canonical_roots h rs = Inr cs"
  shows "\<forall>c \<in> set cs. IsAbs c"
  using assms(2)
proof (induction rs arbitrary: cs)
  case (Cons r rs)
  then obtain c cs' where c: "canonicalDirectory h r = Inr c" "canonical_roots h rs = Inr cs'" "cs = c # cs'"
    by (auto split: sum.splits if_splits)
  have "IsAbs c" using c(1) assms(1) unfolding canonicalDirectory_def resolves_absolute_def
    by (auto split: if_splits sum.splits)
  with Cons.IH [OF c(2)] c(3) show ?case by simp
qed simp

lemma NewQuarantineManager_ok:
  assumes "resolves_absolute h" "resolves_absolute h'" "NewQuarantineManager h mk h' labs q0 = Inr qm"
  shows "manager_ok qm"
proof -
  from assms(3) obtain cs q where c: "canonical_roots h labs = Inr cs" "canonicalDirectory h' q0 = Inr q"
    "\<not> list_ex (\<lambda>root. within root q \<or> within q root) cs"
    "qm = \<lparr>qm_labRoots = sort cs, qm_quarantineRoot = q, qm_objectsDir = pathJoin [q, ''objects''], qm_manifestsDir = pathJoin [q, ''manifests'']\<rparr>"
    by (auto simp: NewQuarantineManager_def split: if_splits sum.splits)
  have q: "IsAbs q" using c(2) assms(2) unfolding canonicalDirectory_def resolves_absolute_def
    by (auto split: if_splits sum.splits)
  note abs = canonical_roots_abs [OF assms(1) c(1)]
  show ?thesis using c(3,4) q abs quarantine_paths.inside_iff by (auto simp: manager_ok_def list_ex_iff)
qed

subsection \<open>The whole operation\<close>

definition new_manifest :: "QuarantineManager \<Rightarrow> string \<Rightarrow> timestamp \<Rightarrow> string \<Rightarrow> string \<Rightarrow> TargetSnapshot \<Rightarrow> Manifest" where
  "new_manifest qm path now task nonce s =
     (let i = quarantine_id task nonce (sha256_hex (json_text (json_snapshot s))) in
      zero_manifest\<lparr>mf_ID := i, mf_TaskID := task, mf_OriginalPath := path, mf_QuarantinedPath := pathJoin [qm_objectsDir qm, i],
        mf_OriginalSnapshot := s, mf_Status := Prepared, mf_CreatedAt := now\<rparr>)"

lemma new_manifest_fields [simp]:
  "mf_ID (new_manifest qm p now t n s) = quarantine_id t n (sha256_hex (json_text (json_snapshot s)))"
  "mf_OriginalPath (new_manifest qm p now t n s) = p"
  "mf_QuarantinedPath (new_manifest qm p now t n s) = pathJoin [qm_objectsDir qm, quarantine_id t n (sha256_hex (json_text (json_snapshot s)))]"
  "mf_OriginalSnapshot (new_manifest qm p now t n s) = s" "mf_Status (new_manifest qm p now t n s) = Prepared"
  by (simp_all add: new_manifest_def Let_def)

lemma Quarantine_cases:
  assumes "Quarantine qm env now now' task nonce s d = (r, d')"
  obtains (refused) "\<not> is_ok r" "files d' = files d"
  | (unprepared) p e d1 where "q_EvalSymlinks env (ts_CanonicalPath s) = Inr p" "quarantine_withinAny p (qm_labRoots qm)" "r = Inl e"
      "files d1 = files d" "saveNew qm env (new_manifest qm p now task nonce s) d1 = (Inl e, d')"
  | (commit) p x d1 d2 where "q_EvalSymlinks env (ts_CanonicalPath s) = Inr p" "quarantine_withinAny p (qm_labRoots qm)"
      "files d p = Some x" "identical (o_info x) s" "files d (mf_QuarantinedPath (new_manifest qm p now task nonce s)) = None"
      "files d1 = files d" "saveNew qm env (new_manifest qm p now task nonce s) d1 = (Inr (), d2)"
      "quarantine_commit qm env now' (new_manifest qm p now task nonce s) d2 = (r, d')"
proof -
  obtain ok d1 where d1: "syscall d = (ok, d1)" "files d1 = files d" by (metis syscall_files surj_pair)
  show ?thesis
  proof (cases "\<not> ok \<or> ts_Type s \<noteq> ''file'' \<or> ts_CanonicalPath s = [] \<or> task = [] \<or> nonce = []")
    case True
    with assms d1 show ?thesis by (intro refused) (auto simp: Quarantine_def split: if_splits)
  next
    case no: False
    show ?thesis
    proof (cases "q_EvalSymlinks env (ts_CanonicalPath s)")
      case (Inl e)
      with assms d1 no show ?thesis by (intro refused) (auto simp: Quarantine_def)
    next
      case ev: (Inr p)
      let ?m = "new_manifest qm p now task nonce s"
      obtain y d2 where V: "verifyIdentity p s d1 = (y, d2)" by (metis surj_pair)
      note f2 = verifyIdentity_files [OF V]
      obtain z d3 where L: "os_Lstat (mf_QuarantinedPath ?m) d2 = (z, d3)" by (metis surj_pair)
      note f3 = os_Lstat_files [OF L]
      obtain w d4 where S: "saveNew qm env ?m d3 = (w, d4)" by (metis surj_pair)
      note run = assms [unfolded Quarantine_def d1(1) TargetSnapshot_Digest_def]
      show ?thesis
      proof (cases "quarantine_withinAny p (qm_labRoots qm) \<and> is_ok y \<and> z = Inl ErrNotExist")
        case False
        with run no ev V L [unfolded new_manifest_fields] d1 f2 f3 show ?thesis
          by (intro refused) (auto simp: Let_def IsNotExist_def is_ok_iff split: if_splits sum.splits)
      next
        case True
        then obtain u where y: "y = Inr u" by (auto simp: is_ok_iff)
        have m_eq: "zero_manifest\<lparr>mf_ID := mf_ID ?m, mf_TaskID := task, mf_OriginalPath := p, mf_QuarantinedPath := mf_QuarantinedPath ?m,
            mf_OriginalSnapshot := s, mf_Status := Prepared, mf_CreatedAt := now\<rparr> = ?m"
          by (simp add: new_manifest_def Let_def)
        have next': "(case saveNew qm env ?m d3 of (Inl e, d) \<Rightarrow> (Inl e, d) | (Inr _, d) \<Rightarrow> quarantine_commit qm env now' ?m d) = (r, d')"
          using run no ev V L [unfolded new_manifest_fields] True y m_eq [unfolded new_manifest_fields] by (simp add: Let_def IsNotExist_def)
        have fd: "files d3 = files d" using d1(2) f2 f3 by simp
        show ?thesis
        proof (cases w)
          case (Inl e)
          with next' S ev True fd show ?thesis by (intro unprepared [of p e d3]) auto
        next
          case (Inr u')
          obtain x where "files d p = Some x" "identical (o_info x) s" using verifyIdentity_ok [OF V [unfolded y]] d1(2) by metis
          moreover have "files d (mf_QuarantinedPath ?m) = None" using os_Lstat_NotExist L True f2 d1(2) by metis
          ultimately show ?thesis using next' S Inr ev True fd by (intro commit [of p x d3 d4]) auto
        qed
      qed
    qed
  qed
qed

lemma apart_new_manifest:
  assumes "manager_ok qm" "quarantine_withinAny p (qm_labRoots qm)"
  shows "apart qm (new_manifest qm p now t n s)"
  using apart_new [OF assms quarantine_id_pattern] by (simp add: apart_def)

text \<open>What a quarantine can leave behind, for every pattern of failing calls: the file where it was, possibly with a
  left-over prepared or undecodable manifest; or the file in the quarantine with a prepared or committed manifest.\<close>

definition quarantine_kept :: "QuarantineManager \<Rightarrow> qenv \<Rightarrow> Manifest \<Rightarrow> (string \<rightharpoonup> fsobj) \<Rightarrow> (string \<rightharpoonup> fsobj) \<Rightarrow> bool" where
  "quarantine_kept qm env m fs fs' \<longleftrightarrow> fs' (mf_OriginalPath m) = fs (mf_OriginalPath m) \<and> fs' (mf_QuarantinedPath m) = fs (mf_QuarantinedPath m)
     \<and> (fs' (manifestPath qm (mf_ID m)) = fs (manifestPath qm (mf_ID m))
        \<or> fs (manifestPath qm (mf_ID m)) = None \<and> fs' (manifestPath qm (mf_ID m)) = Some (manifest_obj env Corrupt)
        \<or> fs (manifestPath qm (mf_ID m)) = None \<and> fs' (manifestPath qm (mf_ID m)) = Some (manifest_obj env (Valid m)))"

definition quarantine_moved :: "QuarantineManager \<Rightarrow> qenv \<Rightarrow> Manifest \<Rightarrow> Manifest \<Rightarrow> (string \<rightharpoonup> fsobj) \<Rightarrow> (string \<rightharpoonup> fsobj) \<Rightarrow> bool" where
  "quarantine_moved qm env m m' fs fs' \<longleftrightarrow>
     (\<exists>x. placed (mf_OriginalPath m) (mf_QuarantinedPath m) x fs \<and> placed (mf_QuarantinedPath m) (mf_OriginalPath m) x fs'
        \<and> identical (o_info x) (mf_OriginalSnapshot m))
     \<and> fs (manifestPath qm (mf_ID m)) = None \<and> fs' (manifestPath qm (mf_ID m)) = Some (manifest_obj env (Valid m'))"

lemma Quarantine_effect:
  assumes "Quarantine qm env now now' task nonce s d = (r, d')" "manager_ok qm"
  shows "(files d' = files d \<and> \<not> is_ok r) \<or>
    (\<exists>p m. q_EvalSymlinks env (ts_CanonicalPath s) = Inr p \<and> quarantine_withinAny p (qm_labRoots qm)
       \<and> m = new_manifest qm p now task nonce s \<and> same_except (own_paths qm m) (files d) (files d')
       \<and> (if is_ok r then quarantine_moved qm env m (m\<lparr>mf_Status := Committed, mf_CommittedAt := now'\<rparr>) (files d) (files d')
          else quarantine_kept qm env m (files d) (files d') \<or> quarantine_moved qm env m m (files d) (files d')))"
  using assms(1)
proof (cases rule: Quarantine_cases)
  case (unprepared p e d1)
  let ?m = "new_manifest qm p now task nonce s"
  note ap = apart_new_manifest [OF assms(2) unprepared(2), of now task nonce s, unfolded apart_def]
  from unprepared(5) have "same_except (own_paths qm ?m) (files d) (files d') \<and> quarantine_kept qm env ?m (files d) (files d')"
  proof (cases rule: saveNew_cases)
    case (failed e')
    with unprepared(4) show ?thesis by (simp add: same_except_def quarantine_kept_def)
  next
    case (left e' x)
    with unprepared(4) ap show ?thesis by (auto simp: same_except_def quarantine_kept_def)
  qed simp
  with unprepared(1-3) show ?thesis by auto
next
  case (commit p x d1 d2)
  let ?m = "new_manifest qm p now task nonce s"
  let ?k = "manifestPath qm (mf_ID ?m)"
  note apm = apart_new_manifest [OF assms(2) commit(2), of now task nonce s]
  note ap = apm [unfolded apart_def]
  have f2: "files d2 = (files d)(?k \<mapsto> manifest_obj env (Valid ?m))" and vac: "files d ?k = None"
    using commit(7,6) by (auto elim: saveNew_cases)
  have pl: "placed (mf_OriginalPath ?m) (mf_QuarantinedPath ?m) x (files d2)"
    using commit(3,5) f2 ap by (simp add: placed_def)
  note eff = quarantine_commit_effect [OF commit(8) apm pl]
  have se: "same_except (own_paths qm ?m) (files d) (files d')"
    using eff f2 unfolding same_except_def by auto
  have old: "placed (mf_OriginalPath ?m) (mf_QuarantinedPath ?m) x (files d)" using commit(3,5) by (simp add: placed_def)
  have ident: "identical (o_info x) (mf_OriginalSnapshot ?m)" using commit(4) by simp
  have k2: "files d2 ?k = Some (manifest_obj env (Valid ?m))" using f2 by simp
  have "if is_ok r then quarantine_moved qm env ?m (?m\<lparr>mf_Status := Committed, mf_CommittedAt := now'\<rparr>) (files d) (files d')
      else quarantine_kept qm env ?m (files d) (files d') \<or> quarantine_moved qm env ?m ?m (files d) (files d')"
  proof (cases "is_ok r")
    case True
    with eff vac old ident show ?thesis unfolding quarantine_moved_def by auto
  next
    case False
    with eff vac old ident k2 show ?thesis unfolding quarantine_moved_def quarantine_kept_def placed_def by auto
  qed
  with se commit(1,2) show ?thesis by blast
qed simp

end
