(* ===== verification/Quarantine_Safety.thy ===== *)
theory Quarantine_Safety
  imports Quarantine
begin

text \<open>
  What the quarantine promises over whole histories: recovery after an interrupted operation, restoring a quarantined file, and
  that no file is lost or overwritten by any sequence of operations with failures anywhere.
\<close>

subsection \<open>Recovery\<close>

definition manifest_paths :: "QuarantineManager \<Rightarrow> string set" where
  "manifest_paths qm = manifestPath qm ` {i. quarantineIDPattern i}"

definition separate :: "QuarantineManager \<Rightarrow> Manifest \<Rightarrow> bool" where
  "separate qm m \<longleftrightarrow> mf_OriginalPath m \<noteq> mf_QuarantinedPath m \<and> mf_OriginalPath m \<notin> manifest_paths qm \<and> mf_QuarantinedPath m \<notin> manifest_paths qm"

text \<open>The invariant of the manifest files: a decodable manifest is in the file named after its id, and its two paths are
  different and are not manifest files.\<close>

definition filed :: "QuarantineManager \<Rightarrow> (string \<rightharpoonup> fsobj) \<Rightarrow> bool" where
  "filed qm fs \<longleftrightarrow> (\<forall>i x m. quarantineIDPattern i \<longrightarrow> fs (manifestPath qm i) = Some x \<longrightarrow> o_content x = ManifestFile (Valid m) \<longrightarrow>
     mf_ID m = i \<and> separate qm m)"

lemma separate_status [simp]: "separate qm (m\<lparr>mf_Status := a, mf_CommittedAt := b\<rparr>) = separate qm m"
  "separate qm (m\<lparr>mf_Status := a, mf_RestoredAt := b\<rparr>) = separate qm m"
  by (simp_all add: separate_def)

lemma filedD: "filed qm fs \<Longrightarrow> quarantineIDPattern i \<Longrightarrow> fs (manifestPath qm i) = Some x \<Longrightarrow> o_content x = ManifestFile (Valid m) \<Longrightarrow>
    mf_ID m = i \<and> separate qm m"
  by (simp add: filed_def)

lemma filed_update:
  assumes "manager_ok qm" "filed qm fs" "quarantineIDPattern i"
    and "\<And>x m. k' = Some x \<Longrightarrow> o_content x = ManifestFile (Valid m) \<Longrightarrow> mf_ID m = i \<and> separate qm m"
    and "fs' (manifestPath qm i) = k'" "\<And>k. k \<in> manifest_paths qm \<Longrightarrow> k \<noteq> manifestPath qm i \<Longrightarrow> fs' k = fs k"
  shows "filed qm fs'"
  unfolding filed_def
proof (intro allI impI)
  fix j x m assume j: "quarantineIDPattern j" "fs' (manifestPath qm j) = Some x" "o_content x = ManifestFile (Valid m)"
  show "mf_ID m = j \<and> separate qm m"
  proof (cases "j = i")
    case True
    with j assms(4,5) show ?thesis by auto
  next
    case False
    then have "manifestPath qm j \<noteq> manifestPath qm i" using manifestPath_inj [OF assms(1) j(1) assms(3)] by blast
    with assms(6) [of "manifestPath qm j"] j filedD [OF assms(2) j(1) _ j(3)] show ?thesis by (auto simp: manifest_paths_def)
  qed
qed

lemma load_manifest_files: "load_manifest qm i d = (r, d') \<Longrightarrow> files d' = files d"
  by (auto simp: load_manifest_def split: if_splits prod.splits sum.splits content.splits doc.splits dest: read_file_files)

lemma load_manifest_Inr:
  assumes "load_manifest qm i d = (Inr m, d')"
  shows "quarantineIDPattern i \<and> (\<exists>x. files d (manifestPath qm i) = Some x \<and> o_content x = ManifestFile (Valid m))"
  using assms by (auto simp: load_manifest_def split: if_splits prod.splits sum.splits content.splits doc.splits dest: read_file_Inr)

lemma healthy_load_manifest:
  assumes "healthy d" "quarantineIDPattern i"
  shows "\<exists>r d'. load_manifest qm i d = (r, d') \<and> healthy d' \<and> files d' = files d
    \<and> (\<forall>x m. files d (manifestPath qm i) = Some x \<longrightarrow> o_content x = ManifestFile (Valid m) \<longrightarrow> r = Inr m)"
  using healthy_read_file [OF assms(1), of "manifestPath qm i"] assms(2)
  by (auto simp: load_manifest_def split: option.splits content.splits doc.splits)

lemma recover_one_frame:
  assumes "recover_one qm env now m d = (r, d')"
  shows "files d' = files d \<or> files d' = (files d)(manifestPath qm (mf_ID m) := None)
    \<or> files d' = (files d)(manifestPath qm (mf_ID m) \<mapsto> manifest_obj env (Valid (m\<lparr>mf_Status := Committed, mf_CommittedAt := now\<rparr>)))"
proof -
  let ?k = "manifestPath qm (mf_ID m)"
  obtain a d1 where a: "os_Lstat (mf_OriginalPath m) d = (a, d1)" "files d1 = files d" by (metis os_Lstat_files surj_pair)
  obtain b d2 where b: "os_Lstat (mf_QuarantinedPath m) d1 = (b, d2)" "files d2 = files d" by (metis os_Lstat_files surj_pair a(2))
  obtain u d3 where u: "remove_file 0 ?k d2 = (u, d3)" by (metis surj_pair)
  obtain v d4 where v: "verifyIdentity (mf_QuarantinedPath m) (mf_OriginalSnapshot m) d2 = (v, d4)" "files d4 = files d"
    by (metis verifyIdentity_files surj_pair b(2))
  obtain w d5 where w: "save_manifest qm env (m\<lparr>mf_Status := Committed, mf_CommittedAt := now\<rparr>) d4 = (w, d5)" by (metis surj_pair)
  have "d' = d2 \<or> d' = d3 \<or> d' = d4 \<or> d' = d5"
    using assms a(1) b(1) u v(1) w by (auto simp: recover_one_def split: if_splits sum.splits)
  moreover have "files d3 = files d \<or> files d3 = (files d)(?k := None)" using u b(2) by (auto elim!: remove_file_cases)
  moreover have "files d5 = files d \<or> files d5 = (files d)(?k \<mapsto> manifest_obj env (Valid (m\<lparr>mf_Status := Committed, mf_CommittedAt := now\<rparr>)))"
    using w v(2) by (auto elim!: save_manifest_cases)
  ultimately show ?thesis using b(2) v(2) by auto
qed

lemma remove_file_0_healthy:
  assumes "healthy d"
  shows "\<exists>r d'. remove_file 0 k d = (r, d') \<and> healthy d' \<and> files d' = (files d)(k := None)"
proof (cases "files d k")
  case None
  obtain d1 where "syscall d = (True, d1)" "healthy d1" "files d1 = files d" using healthy_syscall [OF assms] by blast
  with None show ?thesis by (auto simp: remove_file_def)
next
  case (Some x)
  with healthy_remove_file [OF assms, of k 0] show ?thesis by auto
qed

lemma healthy_recover_one:
  assumes "healthy d"
  shows "\<exists>r d'. recover_one qm env now m d = (r, d') \<and> healthy d'
    \<and> (files d (mf_OriginalPath m) \<noteq> None \<and> files d (mf_QuarantinedPath m) = None \<longrightarrow> files d' = (files d)(manifestPath qm (mf_ID m) := None))
    \<and> (\<forall>x. files d (mf_OriginalPath m) = None \<and> files d (mf_QuarantinedPath m) = Some x \<and> identical (o_info x) (mf_OriginalSnapshot m) \<longrightarrow>
         files d' = (files d)(manifestPath qm (mf_ID m) \<mapsto> manifest_obj env (Valid (m\<lparr>mf_Status := Committed, mf_CommittedAt := now\<rparr>))))"
proof -
  let ?k = "manifestPath qm (mf_ID m)" and ?m = "m\<lparr>mf_Status := Committed, mf_CommittedAt := now\<rparr>"
  obtain d1 where a: "os_Lstat (mf_OriginalPath m) d = ((case files d (mf_OriginalPath m) of None \<Rightarrow> Inl ErrNotExist | Some x \<Rightarrow> Inr (o_info x)), d1)"
    "healthy d1" "files d1 = files d" using healthy_os_Lstat [OF assms] by blast
  obtain d2 where b: "os_Lstat (mf_QuarantinedPath m) d1 = ((case files d (mf_QuarantinedPath m) of None \<Rightarrow> Inl ErrNotExist | Some x \<Rightarrow> Inr (o_info x)), d2)"
    "healthy d2" "files d2 = files d" using healthy_os_Lstat [OF a(2), of "mf_QuarantinedPath m"] a(3) by auto
  obtain u d3 where u: "remove_file 0 ?k d2 = (u, d3)" "healthy d3" "files d3 = (files d)(?k := None)"
    using remove_file_0_healthy [OF b(2), of ?k] b(3) by auto
  obtain v d4 where v: "verifyIdentity (mf_QuarantinedPath m) (mf_OriginalSnapshot m) d2 = (v, d4)" "files d4 = files d"
    by (metis verifyIdentity_files surj_pair b(3))
  have hv: "healthy d4"
    using v(1) healthy_os_Lstat [OF b(2), of "mf_QuarantinedPath m"] by (auto simp: verifyIdentity_def split: option.splits if_splits)
  obtain d5 where w: "save_manifest qm env ?m d4 = (Inr (), d5)" "healthy d5" "files d5 = (files d)(?k \<mapsto> manifest_obj env (Valid ?m))"
    using manifest_store.save_healthy [OF hv, of qm env ?m] v(2) by auto
  have id_ok: "v = Inr ()" if "files d (mf_QuarantinedPath m) = Some x" "identical (o_info x) (mf_OriginalSnapshot m)" for x
    using healthy_verifyIdentity [OF b(2), of "mf_QuarantinedPath m" x "mf_OriginalSnapshot m"] that b(3) v(1) by auto
  show ?thesis
  proof (cases "files d (mf_OriginalPath m)"; cases "files d (mf_QuarantinedPath m)")
    fix x assume c: "files d (mf_OriginalPath m) = None" "files d (mf_QuarantinedPath m) = Some x"
    then have "recover_one qm env now m d = (case v of Inl e \<Rightarrow> (Some e, d4) | Inr _ \<Rightarrow> (None, d5))"
      using a(1) b(1) v(1) w(1) by (auto simp: recover_one_def split: sum.splits)
    with c id_ok hv w(2,3) show ?thesis by (cases v) auto
  next
    fix x assume c: "files d (mf_OriginalPath m) = Some x" "files d (mf_QuarantinedPath m) = None"
    then have "recover_one qm env now m d = (case u of Inl e \<Rightarrow> (Some e, d3) | Inr _ \<Rightarrow> (None, d3))"
      using a(1) b(1) u(1) by (auto simp: recover_one_def split: sum.splits)
    with c u(2,3) show ?thesis by (cases u) auto
  qed (use a b in \<open>auto simp: recover_one_def\<close>)
qed

text \<open>One entry of the listing: the entry of \<open>i\<close> reconciles the manifest of \<open>i\<close>, every other entry leaves it alone, and
  no file but manifests changes.\<close>

definition reconciled :: "QuarantineManager \<Rightarrow> qenv \<Rightarrow> timestamp \<Rightarrow> Manifest \<Rightarrow> (string \<rightharpoonup> fsobj) \<Rightarrow> fsobj option \<Rightarrow> bool" where
  "reconciled qm env now m fs k' \<longleftrightarrow>
     (fs (mf_OriginalPath m) \<noteq> None \<and> fs (mf_QuarantinedPath m) = None \<longrightarrow> k' = None)
     \<and> (\<forall>x. fs (mf_OriginalPath m) = None \<and> fs (mf_QuarantinedPath m) = Some x \<and> identical (o_info x) (mf_OriginalSnapshot m) \<longrightarrow>
          k' = Some (manifest_obj env (Valid (m\<lparr>mf_Status := Committed, mf_CommittedAt := now\<rparr>))))"

lemma recover_one_reconciled:
  assumes "healthy d"
  shows "\<exists>r d'. recover_one qm env now m d = (r, d') \<and> healthy d' \<and> reconciled qm env now m (files d) (files d' (manifestPath qm (mf_ID m)))"
proof -
  let ?k = "manifestPath qm (mf_ID m)"
  obtain r d' where r: "recover_one qm env now m d = (r, d')" "healthy d'"
    "files d (mf_OriginalPath m) \<noteq> None \<and> files d (mf_QuarantinedPath m) = None \<longrightarrow> files d' = (files d)(?k := None)"
    "\<forall>x. files d (mf_OriginalPath m) = None \<and> files d (mf_QuarantinedPath m) = Some x \<and> identical (o_info x) (mf_OriginalSnapshot m) \<longrightarrow>
         files d' = (files d)(?k \<mapsto> manifest_obj env (Valid (m\<lparr>mf_Status := Committed, mf_CommittedAt := now\<rparr>)))"
    using healthy_recover_one [OF assms, of qm env now m] by metis
  have "reconciled qm env now m (files d) (files d' ?k)"
    unfolding reconciled_def using r(3,4) by (metis fun_upd_same)
  with r(1,2) show ?thesis by blast
qed

lemma json_suffix [simp]: "suffix ''.json'' (i @ ''.json'')"
  by (simp add: suffix_def)

lemma TrimSuffix_json: "TrimSuffix (i @ ''.json'') ''.json'' = i" "suffix ''.json'' n \<Longrightarrow> TrimSuffix n ''.json'' @ ''.json'' = n"
  by (auto simp: TrimSuffix_def suffix_def)

text \<open>The id an entry of the listing stands for, and the prepared manifest in the file of an id.\<close>

definition entry_id :: "string \<times> bool \<Rightarrow> string option" where
  "entry_id e = (if snd e \<or> \<not> suffix ''.json'' (fst e) then None else Some (TrimSuffix (fst e) ''.json''))"

definition pending :: "QuarantineManager \<Rightarrow> (string \<rightharpoonup> fsobj) \<Rightarrow> string \<Rightarrow> Manifest option" where
  "pending qm fs i = (if \<not> quarantineIDPattern i then None else case fs (manifestPath qm i) of
     Some x \<Rightarrow> (case o_content x of ManifestFile (Valid m) \<Rightarrow> if mf_Status m = Prepared then Some m else None | _ \<Rightarrow> None) | None \<Rightarrow> None)"

lemma entry_id_iff: "entry_id e = Some i \<longleftrightarrow> e = (i @ ''.json'', False)"
  by (cases e) (auto simp: entry_id_def TrimSuffix_json)

lemma pending_iff: "pending qm fs i = Some m \<longleftrightarrow>
    quarantineIDPattern i \<and> (\<exists>x. fs (manifestPath qm i) = Some x \<and> o_content x = ManifestFile (Valid m)) \<and> mf_Status m = Prepared"
  by (auto simp: pending_def split: option.splits content.splits doc.splits)

text \<open>One step of the loop changes at most the manifest file of its entry, and settles it when it is prepared.\<close>

definition settled :: "QuarantineManager \<Rightarrow> qenv \<Rightarrow> timestamp \<Rightarrow> (string \<rightharpoonup> fsobj) \<Rightarrow> string \<Rightarrow> Manifest \<Rightarrow> (string \<rightharpoonup> fsobj) \<Rightarrow> bool" where
  "settled qm env now fs i m fs' \<longleftrightarrow> (\<exists>k'. fs' = fs(manifestPath qm i := k')
     \<and> (k' = fs (manifestPath qm i) \<or> k' = None \<or> k' = Some (manifest_obj env (Valid (m\<lparr>mf_Status := Committed, mf_CommittedAt := now\<rparr>))))
     \<and> reconciled qm env now m fs k')"

lemma recover_one_settled:
  assumes "healthy d" "mf_ID m = i"
  shows "\<exists>r d'. recover_one qm env now m d = (r, d') \<and> healthy d' \<and> settled qm env now (files d) i m (files d')"
proof -
  let ?k = "manifestPath qm i"
  obtain r d' where r: "recover_one qm env now m d = (r, d')" "healthy d'" "reconciled qm env now m (files d) (files d' ?k)"
    using recover_one_reconciled [OF assms(1), of qm env now m] assms(2) by blast
  from recover_one_frame [OF r(1)] assms(2) have "files d' = (files d)(?k := files d' ?k)"
    "files d' ?k = files d ?k \<or> files d' ?k = None \<or> files d' ?k = Some (manifest_obj env (Valid (m\<lparr>mf_Status := Committed, mf_CommittedAt := now\<rparr>)))"
    by auto
  with r show ?thesis unfolding settled_def by blast
qed

definition step_of :: "QuarantineManager \<Rightarrow> qenv \<Rightarrow> timestamp \<Rightarrow> (string \<rightharpoonup> fsobj) \<Rightarrow> string \<times> bool \<Rightarrow> (string \<rightharpoonup> fsobj) \<Rightarrow> bool" where
  "step_of qm env now fs e fs' \<longleftrightarrow> (case Option.bind (entry_id e) (pending qm fs) of
     None \<Rightarrow> fs' = fs | Some m \<Rightarrow> settled qm env now fs (mf_ID m) m fs')"

lemma step_of_idle: "Option.bind (entry_id e) (pending qm fs) = None \<Longrightarrow> step_of qm env now fs e fs"
  by (simp add: step_of_def)

lemma recover_entry:
  assumes "healthy d" "filed qm (files d)"
  shows "\<exists>errs' d'. recover_entries qm env now (e # es) errs d = recover_entries qm env now es errs' d'
    \<and> healthy d' \<and> step_of qm env now (files d) e (files d')"
proof -
  obtain n b where e: "e = (n, b)" by fastforce
  obtain d1 where d1: "syscall d = (True, d1)" "healthy d1" "files d1 = files d" using healthy_syscall [OF assms(1)] by blast
  show ?thesis
  proof (cases "entry_id e")
    case None
    then have "recover_entries qm env now (e # es) errs d = recover_entries qm env now es errs d1"
      using d1(1) e by (auto simp: entry_id_def split: if_splits)
    with d1 None show ?thesis using step_of_idle [of e qm "files d" env now] by (metis Option.bind.bind_lzero)
  next
    case (Some i)
    then have n: "n = i @ ''.json''" "\<not> b" using e by (auto simp: entry_id_iff)
    obtain l d2 where l: "load_manifest qm i d1 = (l, d2)" by fastforce
    have l2: "healthy d2 \<and> files d2 = files d"
      using healthy_load_manifest [OF d1(2), of i qm] l d1(2,3) by (cases "quarantineIDPattern i") (auto simp: load_manifest_def)
    have run: "recover_entries qm env now (e # es) errs d = (case l of Inl e \<Rightarrow> recover_entries qm env now es (errs @ [e]) d2
        | Inr m \<Rightarrow> if mf_Status m \<noteq> Prepared then recover_entries qm env now es errs d2
          else (case recover_one qm env now m d2 of (None, d) \<Rightarrow> recover_entries qm env now es errs d
            | (Some e, d) \<Rightarrow> recover_entries qm env now es (errs @ [e]) d))"
      using d1(1) e n l by (simp add: TrimSuffix_json split: sum.split)
    show ?thesis
    proof (cases "pending qm (files d) i")
      case None
      have "\<exists>errs'. recover_entries qm env now (e # es) errs d = recover_entries qm env now es errs' d2"
      proof (cases l)
        case (Inr m)
        with load_manifest_Inr [of qm i d1 m d2] l d1(3) None have "mf_Status m \<noteq> Prepared" by (auto simp: pending_def)
        with run Inr show ?thesis by auto
      qed (use run in auto)
      with l2 None Some show ?thesis using step_of_idle [of e qm "files d" env now] by (metis Option.bind.bind_lunit)
    next
      case pm: (Some m)
      then have p: "quarantineIDPattern i" "mf_Status m = Prepared" "mf_ID m = i" and "l = Inr m"
        using healthy_load_manifest [OF d1(2), of i qm] l d1(3) assms(2) by (auto simp: pending_iff filed_def)
      obtain r d3 where r: "recover_one qm env now m d2 = (r, d3)" "healthy d3" "settled qm env now (files d) i m (files d3)"
        using recover_one_settled [OF conjunct1 [OF l2] p(3), of qm env now] l2 by auto
      have "\<exists>errs'. recover_entries qm env now (e # es) errs d = recover_entries qm env now es errs' d3"
        using run \<open>l = Inr m\<close> p(2) r(1) by (cases r) auto
      moreover have "step_of qm env now (files d) e (files d3)" using r(3) p(3) Some pm by (simp add: step_of_def)
      ultimately show ?thesis using r(2) by blast
    qed
  qed
qed

text \<open>What a step keeps: the filing, every other manifest, and every file that is not a manifest.\<close>

lemma step_of_cases:
  assumes "step_of qm env now fs e fs'" "filed qm fs"
  obtains "fs' = fs" "\<And>i. entry_id e = Some i \<Longrightarrow> pending qm fs i = None"
  | i m where "entry_id e = Some i" "pending qm fs i = Some m" "mf_ID m = i" "settled qm env now fs i m fs'"
proof (cases "Option.bind (entry_id e) (pending qm fs)")
  case None
  with assms(1) that(1) show ?thesis by (auto simp: step_of_def split: bind_split_asm)
next
  case (Some m)
  then obtain i where i: "entry_id e = Some i" "pending qm fs i = Some m" by (auto split: bind_split_asm)
  with assms(2) have "mf_ID m = i" by (auto simp: pending_iff filed_def)
  with Some i assms(1) that(2) show ?thesis by (auto simp: step_of_def)
qed

lemma settled_filed:
  assumes "settled qm env now fs i m fs'" "filed qm fs" "manager_ok qm" "pending qm fs i = Some m"
  shows "filed qm fs'"
proof -
  obtain k' where k: "fs' = fs(manifestPath qm i := k')"
    "k' = fs (manifestPath qm i) \<or> k' = None \<or> k' = Some (manifest_obj env (Valid (m\<lparr>mf_Status := Committed, mf_CommittedAt := now\<rparr>)))"
    using assms(1) unfolding settled_def by blast
  have p: "quarantineIDPattern i" and m: "mf_ID m = i \<and> separate qm m"
    using assms(4) filedD [OF assms(2)] by (auto simp: pending_iff)
  show ?thesis
  proof (rule filed_update [OF assms(3,2) p, of k'])
    fix x m' assume x: "k' = Some x" "o_content x = ManifestFile (Valid m')"
    from k(2) show "mf_ID m' = i \<and> separate qm m'"
    proof (elim disjE)
      assume "k' = fs (manifestPath qm i)" with x filedD [OF assms(2) p] show ?thesis by metis
    qed (use x m in \<open>auto simp: manifest_obj_def\<close>)
  qed (use k(1) in auto)
qed

lemma step_of_frame:
  assumes "step_of qm env now fs e fs'" "filed qm fs" "manager_ok qm"
  shows "filed qm fs' \<and> (\<forall>k. k \<notin> manifest_paths qm \<longrightarrow> fs' k = fs k)
    \<and> (\<forall>i. quarantineIDPattern i \<longrightarrow> entry_id e \<noteq> Some i \<longrightarrow> fs' (manifestPath qm i) = fs (manifestPath qm i))"
  using assms(1,2)
proof (cases rule: step_of_cases)
  case 1
  with assms(2) show ?thesis by simp
next
  case (2 i m)
  then have p: "quarantineIDPattern i" by (auto simp: pending_iff)
  obtain k' where k: "fs' = fs(manifestPath qm i := k')" using 2(4) unfolding settled_def by blast
  have "\<forall>j. quarantineIDPattern j \<longrightarrow> entry_id e \<noteq> Some j \<longrightarrow> fs' (manifestPath qm j) = fs (manifestPath qm j)"
    using manifestPath_inj [OF assms(3) _ p] k 2(1) by (metis fun_upd_apply)
  moreover have "\<forall>q. q \<notin> manifest_paths qm \<longrightarrow> fs' q = fs q" using k p by (auto simp: manifest_paths_def)
  ultimately show ?thesis using settled_filed [OF 2(4) assms(2,3) 2(2)] by blast
qed

lemma step_of_settles:
  assumes "step_of qm env now fs (i @ ''.json'', False) fs'" "pending qm fs i = Some m" "filed qm fs"
  shows "reconciled qm env now m fs (fs' (manifestPath qm i))"
proof -
  have "entry_id (i @ ''.json'', False) = Some i" by (simp add: entry_id_iff)
  with assms(1,3) have "settled qm env now fs i m fs'" using assms(2) by (cases rule: step_of_cases) auto
  then show ?thesis by (auto simp: settled_def)
qed

text \<open>The whole listing: no file but manifests changes, and the prepared manifest of a listed id is reconciled.\<close>

lemma recover_entries_spec:
  assumes "healthy d" "filed qm (files d)" "distinct es" "manager_ok qm" "quarantineIDPattern i"
  shows "\<exists>r d'. recover_entries qm env now es errs d = (r, d')
    \<and> (\<forall>k. k \<notin> manifest_paths qm \<longrightarrow> files d' k = files d k)
    \<and> ((i @ ''.json'', False) \<notin> set es \<or> pending qm (files d) i = None \<longrightarrow> files d' (manifestPath qm i) = files d (manifestPath qm i))
    \<and> (\<forall>m. (i @ ''.json'', False) \<in> set es \<longrightarrow> pending qm (files d) i = Some m \<longrightarrow> mf_OriginalPath m \<notin> manifest_paths qm \<longrightarrow>
         mf_QuarantinedPath m \<notin> manifest_paths qm \<longrightarrow> reconciled qm env now m (files d) (files d' (manifestPath qm i)))"
  using assms(1-3)
proof (induction es arbitrary: errs d)
  case Nil
  then show ?case by simp
next
  case (Cons e es)
  let ?k = "manifestPath qm i" and ?e = "(i @ ''.json'', False)"
  obtain errs' d1 where d1: "recover_entries qm env now (e # es) errs d = recover_entries qm env now es errs' d1" "healthy d1"
    and st: "step_of qm env now (files d) e (files d1)"
    using recover_entry [OF Cons.prems(1,2)] by blast
  note fr = step_of_frame [OF st Cons.prems(2) assms(4)]
  have idle: "files d1 ?k = files d ?k" if "e \<noteq> ?e \<or> pending qm (files d) i = None"
    using st Cons.prems(2)
  proof (cases rule: step_of_cases)
    case (2 j m)
    with that have "e \<noteq> ?e" by (auto simp: entry_id_iff)
    with fr assms(5) show ?thesis by (metis entry_id_iff)
  qed simp
  obtain r d2 where d2: "recover_entries qm env now es errs' d1 = (r, d2)" "\<forall>k. k \<notin> manifest_paths qm \<longrightarrow> files d2 k = files d1 k"
    "?e \<notin> set es \<or> pending qm (files d1) i = None \<longrightarrow> files d2 ?k = files d1 ?k"
    "\<forall>m. ?e \<in> set es \<longrightarrow> pending qm (files d1) i = Some m \<longrightarrow> mf_OriginalPath m \<notin> manifest_paths qm \<longrightarrow>
       mf_QuarantinedPath m \<notin> manifest_paths qm \<longrightarrow> reconciled qm env now m (files d1) (files d2 ?k)"
    using Cons.IH [OF d1(2) conjunct1 [OF fr], of errs'] Cons.prems(3) by (metis distinct.simps(2))
  have "\<forall>k. k \<notin> manifest_paths qm \<longrightarrow> files d2 k = files d k" using d2(2) fr by simp
  moreover have "?e \<notin> set (e # es) \<or> pending qm (files d) i = None \<longrightarrow> files d2 ?k = files d ?k"
    using idle d2(3) by (auto simp: pending_def)
  moreover have "reconciled qm env now m (files d) (files d2 ?k)"
    if h: "?e \<in> set (e # es)" "pending qm (files d) i = Some m" "mf_OriginalPath m \<notin> manifest_paths qm" "mf_QuarantinedPath m \<notin> manifest_paths qm" for m
  proof (cases "e = ?e")
    case True
    with Cons.prems(3) d2(3) step_of_settles [OF st [unfolded True] h(2) Cons.prems(2)] show ?thesis by simp
  next
    case False
    with h(1) have "?e \<in> set es" by auto
    moreover have "pending qm (files d1) i = Some m" using idle False h(2) by (simp add: pending_iff)
    ultimately show ?thesis using d2(4) h(3,4) fr by (simp add: reconciled_def)
  qed
  ultimately show ?case using d1(1) d2(1) by auto
qed

subsection \<open>Nothing is lost\<close>

lemma lab_path_not_manifest:
  assumes "manager_ok qm" "quarantine_withinAny p (qm_labRoots qm)"
  shows "p \<notin> manifest_paths qm"
  using apart_new(2) [OF assms] by (auto simp: manifest_paths_def)

lemma object_not_manifest:
  assumes "manager_ok qm" "quarantineIDPattern i"
  shows "pathJoin [qm_objectsDir qm, i] \<notin> manifest_paths qm"
proof
  assume "pathJoin [qm_objectsDir qm, i] \<in> manifest_paths qm"
  then obtain j where j: "quarantineIDPattern j" "pathJoin [qm_objectsDir qm, i] = manifestPath qm j" by (auto simp: manifest_paths_def)
  from arg_cong [OF j(2), of segs] show False
    unfolding quarantine_segs(1) [OF assms] quarantine_segs(2) [OF assms(1) j(1)] by simp
qed

lemma separate_new:
  assumes "manager_ok qm" "quarantine_withinAny p (qm_labRoots qm)"
  shows "separate qm (new_manifest qm p now t n s)"
  using apart_new(1) [OF assms quarantine_id_pattern] lab_path_not_manifest [OF assms] object_not_manifest [OF assms(1) quarantine_id_pattern]
  by (simp add: separate_def)

text \<open>The files outside the manifests, as a set of objects.\<close>

definition objects :: "QuarantineManager \<Rightarrow> (string \<rightharpoonup> fsobj) \<Rightarrow> fsobj set" where
  "objects qm fs = ran (fs |` (- manifest_paths qm))"

lemma objects_iff: "x \<in> objects qm fs \<longleftrightarrow> (\<exists>k. k \<notin> manifest_paths qm \<and> fs k = Some x)"
  by (auto simp: objects_def ran_def restrict_map_def)

lemma objects_same: "(\<And>k. k \<notin> manifest_paths qm \<Longrightarrow> fs' k = fs k) \<Longrightarrow> objects qm fs' = objects qm fs"
  unfolding set_eq_iff objects_iff by metis

lemma objects_move:
  assumes "placed a b x fs" "placed b a x fs'" "a \<notin> manifest_paths qm" "b \<notin> manifest_paths qm" "k \<in> manifest_paths qm" "same_except {a, b, k} fs fs'"
  shows "objects qm fs' = objects qm fs"
proof -
  have "y \<in> objects qm fs' \<longleftrightarrow> y \<in> objects qm fs" for y
    using assms unfolding objects_iff placed_def same_except_def by (metis insert_iff option.distinct(1) singletonD)
  then show ?thesis by blast
qed

lemma manifestPath_manifest: "quarantineIDPattern i \<Longrightarrow> manifestPath qm i \<in> manifest_paths qm"
  by (auto simp: manifest_paths_def)

lemma objects_moved_or_kept:
  assumes "placed a b x fs" "placed a b x fs' \<or> placed b a x fs'" "a \<notin> manifest_paths qm" "b \<notin> manifest_paths qm" "k \<in> manifest_paths qm"
    "same_except {a, b, k} fs fs'"
  shows "objects qm fs' = objects qm fs"
  using assms(2)
proof
  assume "placed a b x fs'"
  with assms(1,5,6) show ?thesis unfolding same_except_def placed_def by (intro objects_same) (metis insertE singletonD)
qed (rule objects_move [OF assms(1) _ assms(3-6)])

lemma Quarantine_keeps:
  assumes "Quarantine qm env now now' task nonce s d = (r, d')" "manager_ok qm" "filed qm (files d)"
  shows "filed qm (files d') \<and> objects qm (files d') = objects qm (files d)"
  using Quarantine_effect [OF assms(1,2)]
proof (elim disjE exE conjE)
  fix p m assume h: "quarantine_withinAny p (qm_labRoots qm)" "m = new_manifest qm p now task nonce s"
    "same_except (own_paths qm m) (files d) (files d')"
    "if is_ok r then quarantine_moved qm env m (m\<lparr>mf_Status := Committed, mf_CommittedAt := now'\<rparr>) (files d) (files d')
      else quarantine_kept qm env m (files d) (files d') \<or> quarantine_moved qm env m m (files d) (files d')"
  let ?k = "manifestPath qm (mf_ID m)"
  have p: "quarantineIDPattern (mf_ID m)" using h(2) quarantine_id_pattern by simp
  have sep: "separate qm m" using separate_new [OF assms(2) h(1)] h(2) by simp
  note km = manifestPath_manifest [OF p, of qm]
  have k: "files d' ?k = files d ?k \<or> (\<exists>m'. files d' ?k = Some (manifest_obj env m') \<and> (\<forall>m''. m' = Valid m'' \<longrightarrow> mf_ID m'' = mf_ID m \<and> separate qm m''))"
    using h(4) sep by (auto simp: quarantine_kept_def quarantine_moved_def split: if_splits)
  have "filed qm (files d')"
  proof (rule filed_update [OF assms(2,3) p _ refl])
    fix x m' assume x: "files d' ?k = Some x" "o_content x = ManifestFile (Valid m')"
    from k show "mf_ID m' = mf_ID m \<and> separate qm m'"
    proof
      assume "files d' ?k = files d ?k" with x filedD [OF assms(3) p] show ?thesis by metis
    qed (use x in \<open>auto simp: manifest_obj_def\<close>)
  next
    fix k assume "k \<in> manifest_paths qm" "k \<noteq> ?k"
    moreover from this(1) sep have "k \<noteq> mf_OriginalPath m" "k \<noteq> mf_QuarantinedPath m" by (auto simp: separate_def)
    ultimately show "files d' k = files d k" using h(3) by (simp add: same_except_def)
  qed
  moreover have "objects qm (files d') = objects qm (files d)"
  proof (cases "quarantine_kept qm env m (files d) (files d')")
    case True
    then have "files d' (mf_OriginalPath m) = files d (mf_OriginalPath m)" "files d' (mf_QuarantinedPath m) = files d (mf_QuarantinedPath m)"
      by (simp_all add: quarantine_kept_def)
    with h(3) km show ?thesis unfolding same_except_def by (intro objects_same) (metis insertE singletonD)
  next
    case False
    with h(4) obtain x where "placed (mf_OriginalPath m) (mf_QuarantinedPath m) x (files d)" "placed (mf_QuarantinedPath m) (mf_OriginalPath m) x (files d')"
      by (auto simp: quarantine_moved_def split: if_splits)
    from objects_move [OF this _ _ km h(3)] sep show ?thesis by (simp add: separate_def)
  qed
  ultimately show ?thesis ..
qed (use assms(3) in simp)

lemma Restore_cases:
  assumes "Restore qm env now i s d = (r, d')"
  obtains (unchanged) "files d' = files d"
  | (commit) m x y d1 where "quarantineIDPattern i" "files d (manifestPath qm i) = Some y" "o_content y = ManifestFile (Valid m)"
      "mf_Status m = Committed" "files d (mf_QuarantinedPath m) = Some x" "files d (mf_OriginalPath m) = None"
      "files d1 = files d" "restore_commit qm env now m d1 = (r, d')"
proof -
  obtain ok d1 where d1: "syscall d = (ok, d1)" "files d1 = files d" by (metis syscall_files surj_pair)
  obtain l d2 where L: "load_manifest qm i d1 = (l, d2)" by fastforce
  note f2 = load_manifest_files [OF L]
  show ?thesis
  proof (cases "ok \<and> quarantineIDPattern i \<and> (\<exists>m. l = Inr m \<and> mf_Status m = Committed)")
    case False
    with assms d1 L f2 show ?thesis
      by (intro unchanged) (auto simp: Restore_def split: if_splits sum.splits)
  next
    case True
    then obtain m where m: "l = Inr m" "mf_Status m = Committed" by blast
    obtain y where y: "files d (manifestPath qm i) = Some y" "o_content y = ManifestFile (Valid m)"
      using load_manifest_Inr [OF L [unfolded m(1)]] d1(2) by metis
    obtain v d3 where V: "verifyIdentity (mf_QuarantinedPath m) s d2 = (v, d3)" by fastforce
    note f3 = verifyIdentity_files [OF V]
    obtain z d4 where Z: "os_Lstat (mf_OriginalPath m) d3 = (z, d4)" by fastforce
    note f4 = os_Lstat_files [OF Z]
    have fd: "files d4 = files d" "files d3 = files d" using f2 f3 f4 d1(2) by simp_all
    have run: "Restore qm env now i s d = (r, d') \<Longrightarrow> d' = d2 \<or> d' = d3 \<or> d' = d4 \<or>
        is_ok v \<and> z = Inl ErrNotExist \<and> restore_commit qm env now m d4 = (r, d')"
      using True d1(1) L m V Z by (auto simp: Restore_def IsNotExist_def split: if_splits sum.splits)
    from run [OF assms] show ?thesis
    proof (elim disjE conjE)
      assume h: "is_ok v" "z = Inl ErrNotExist" "restore_commit qm env now m d4 = (r, d')"
      obtain x where "files d2 (mf_QuarantinedPath m) = Some x" using V h(1) by (auto simp: is_ok_iff elim: verifyIdentity_ok)
      moreover have "files d3 (mf_OriginalPath m) = None" using os_Lstat_NotExist Z h(2) by metis
      ultimately show ?thesis using commit [of y m x d4] True y m(2) fd h(3) f3 by auto
    qed (use unchanged f2 f3 f4 d1(2) in auto)
  qed
qed

lemma Restore_effect:
  assumes "Restore qm env now i s d = (r, d')" "manager_ok qm" "filed qm (files d)"
  shows "files d' = files d \<or>
    (\<exists>m x. quarantineIDPattern i \<and> mf_ID m = i \<and> separate qm m \<and> (\<exists>y. files d (manifestPath qm i) = Some y \<and> o_content y = ManifestFile (Valid m))
       \<and> mf_Status m = Committed \<and> placed (mf_QuarantinedPath m) (mf_OriginalPath m) x (files d)
       \<and> same_except (own_paths qm m) (files d) (files d')
       \<and> (if is_ok r then placed (mf_OriginalPath m) (mf_QuarantinedPath m) x (files d')
            \<and> files d' (manifestPath qm i) = Some (manifest_obj env (Valid (m\<lparr>mf_Status := Restored, mf_RestoredAt := now\<rparr>)))
          else (placed (mf_QuarantinedPath m) (mf_OriginalPath m) x (files d') \<or> placed (mf_OriginalPath m) (mf_QuarantinedPath m) x (files d'))
            \<and> files d' (manifestPath qm i) = files d (manifestPath qm i)))"
  using assms(1)
proof (cases rule: Restore_cases)
  case (commit m x y d1)
  from filedD [OF assms(3) commit(1-3)] have m: "mf_ID m = i" "separate qm m" by simp_all
  have ap: "apart qm m" using m manifestPath_manifest [OF commit(1), of qm] by (auto simp: apart_def separate_def)
  have pl: "placed (mf_QuarantinedPath m) (mf_OriginalPath m) x (files d1)" using commit by (simp add: placed_def)
  note eff = restore_commit_effect [OF commit(8) ap pl]
  have "if is_ok r then placed (mf_OriginalPath m) (mf_QuarantinedPath m) x (files d')
            \<and> files d' (manifestPath qm i) = Some (manifest_obj env (Valid (m\<lparr>mf_Status := Restored, mf_RestoredAt := now\<rparr>)))
          else (placed (mf_QuarantinedPath m) (mf_OriginalPath m) x (files d') \<or> placed (mf_OriginalPath m) (mf_QuarantinedPath m) x (files d'))
            \<and> files d' (manifestPath qm i) = files d (manifestPath qm i)"
    using eff m(1) commit(7) by (cases "is_ok r") simp_all
  with m commit eff pl show ?thesis by metis
qed simp

lemma Restore_keeps:
  assumes "Restore qm env now i s d = (r, d')" "manager_ok qm" "filed qm (files d)"
  shows "filed qm (files d') \<and> objects qm (files d') = objects qm (files d)"
  using Restore_effect [OF assms]
proof (elim disjE exE conjE)
  fix m x y assume h: "quarantineIDPattern i" "mf_ID m = i" "separate qm m" "files d (manifestPath qm i) = Some y" "o_content y = ManifestFile (Valid m)"
    "placed (mf_QuarantinedPath m) (mf_OriginalPath m) x (files d)" "same_except (own_paths qm m) (files d) (files d')"
    "if is_ok r then placed (mf_OriginalPath m) (mf_QuarantinedPath m) x (files d')
            \<and> files d' (manifestPath qm i) = Some (manifest_obj env (Valid (m\<lparr>mf_Status := Restored, mf_RestoredAt := now\<rparr>)))
          else (placed (mf_QuarantinedPath m) (mf_OriginalPath m) x (files d') \<or> placed (mf_OriginalPath m) (mf_QuarantinedPath m) x (files d'))
            \<and> files d' (manifestPath qm i) = files d (manifestPath qm i)"
  let ?k = "manifestPath qm i"
  have k: "files d' ?k = Some y \<or> files d' ?k = Some (manifest_obj env (Valid (m\<lparr>mf_Status := Restored, mf_RestoredAt := now\<rparr>)))"
    using h(4,8) by (auto split: if_splits)
  have "filed qm (files d')"
  proof (rule filed_update [OF assms(2,3) h(1) _ refl])
    fix x' m' assume "files d' ?k = Some x'" "o_content x' = ManifestFile (Valid m')"
    with k h(2,3,5) show "mf_ID m' = i \<and> separate qm m'" by (auto simp: manifest_obj_def)
  next
    fix k assume "k \<in> manifest_paths qm" "k \<noteq> ?k"
    moreover from this(1) h(3) have "k \<noteq> mf_OriginalPath m" "k \<noteq> mf_QuarantinedPath m" by (auto simp: separate_def)
    ultimately show "files d' k = files d k" using h(2,7) by (simp add: same_except_def)
  qed
  moreover have "objects qm (files d') = objects qm (files d)"
    using objects_moved_or_kept [OF h(6) _ _ _ manifestPath_manifest [OF h(1)], of "files d'" qm] h(2,3,7,8)
    by (auto simp: separate_def insert_commute split: if_splits)
  ultimately show ?thesis ..
qed (use assms(3) in simp)

lemma recover_one_keeps:
  assumes "recover_one qm env now m d = (r, d')" "manager_ok qm" "filed qm (files d)" "quarantineIDPattern i"
    "files d (manifestPath qm i) = Some x" "o_content x = ManifestFile (Valid m)"
  shows "filed qm (files d') \<and> (\<forall>k. k \<notin> manifest_paths qm \<longrightarrow> files d' k = files d k)"
proof -
  from filedD [OF assms(3-6)] have m: "mf_ID m = i" "separate qm m" by simp_all
  let ?k = "manifestPath qm i"
  obtain k' where k: "files d' = (files d)(?k := k')" "k' = Some x \<or> k' = None \<or> k' = Some (manifest_obj env (Valid (m\<lparr>mf_Status := Committed, mf_CommittedAt := now\<rparr>)))"
    using recover_one_frame [OF assms(1)] m(1) assms(5) by (metis fun_upd_triv)
  have "filed qm (files d')"
    by (rule filed_update [OF assms(2,3,4), of k']) (use k m assms(6) in \<open>auto simp: manifest_obj_def\<close>)
  moreover have "files d' q = files d q" if "q \<notin> manifest_paths qm" for q
    using that k(1) manifestPath_manifest [OF assms(4), of qm] by auto
  ultimately show ?thesis by blast
qed

lemma recover_entries_keeps:
  assumes "recover_entries qm env now es errs d = (r, d')" "manager_ok qm" "filed qm (files d)"
  shows "filed qm (files d') \<and> (\<forall>k. k \<notin> manifest_paths qm \<longrightarrow> files d' k = files d k)"
  using assms(1,3)
proof (induction es arbitrary: errs d)
  case (Cons e es)
  obtain n b where e: "e = (n, b)" by fastforce
  obtain ok d1 where d1: "syscall d = (ok, d1)" "files d1 = files d" by (metis syscall_files surj_pair)
  obtain l d2 where L: "load_manifest qm (TrimSuffix n ''.json'') d1 = (l, d2)" by fastforce
  note f2 = load_manifest_files [OF L]
  have "\<exists>errs' d3. (recover_entries qm env now es errs' d3 = (r, d') \<or> d' = d3) \<and> filed qm (files d3) \<and> (\<forall>k. k \<notin> manifest_paths qm \<longrightarrow> files d3 k = files d k)"
  proof (cases "ok \<and> \<not> b \<and> suffix ''.json'' n \<and> (\<exists>m. l = Inr m \<and> mf_Status m = Prepared)")
    case True
    then obtain m where m: "l = Inr m" "mf_Status m = Prepared" by blast
    obtain w d3 where w: "recover_one qm env now m d2 = (w, d3)" by fastforce
    have "\<exists>errs'. recover_entries qm env now es errs' d3 = (r, d')"
      using Cons.prems(1) True m L d1(1) e w by (cases w) auto
    moreover have "filed qm (files d3) \<and> (\<forall>k. k \<notin> manifest_paths qm \<longrightarrow> files d3 k = files d2 k)"
      using recover_one_keeps [OF w assms(2)] load_manifest_Inr [OF L [unfolded m(1)]] Cons.prems(2) f2 d1(2) by metis
    ultimately show ?thesis using f2 d1(2) by auto
  next
    case False
    have "d' = d1 \<or> (\<exists>errs'. recover_entries qm env now es errs' d1 = (r, d')) \<or> (\<exists>errs'. recover_entries qm env now es errs' d2 = (r, d'))"
      using Cons.prems(1) False L d1(1) e by (auto split: if_splits sum.splits)
    then show ?thesis using Cons.prems(2) f2 d1(2) by metis
  qed
  then show ?case using Cons.IH by metis
qed simp

lemma Recover_keeps:
  assumes "Recover qm env now es d = (r, d')" "manager_ok qm" "filed qm (files d)"
  shows "filed qm (files d') \<and> (\<forall>k. k \<notin> manifest_paths qm \<longrightarrow> files d' k = files d k)"
proof -
  obtain ok d1 where d1: "syscall d = (ok, d1)" "files d1 = files d" by (metis syscall_files surj_pair)
  show ?thesis
  proof (cases ok)
    case True
    with assms(1) d1(1) have "recover_entries qm env now es [] d1 = (r, d')" by (simp add: Recover_def)
    from recover_entries_keeps [OF this assms(2)] assms(3) d1(2) show ?thesis by simp
  qed (use assms d1 in \<open>auto simp: Recover_def\<close>)
qed

subsection \<open>Operations on a healthy disk\<close>

lemma healthy_move_commit:
  assumes "healthy d" "files d a = Some x" "identical (o_info x) s" "a \<noteq> b"
  shows "\<exists>d'. move_commit qm env e1 e2 e3 cs a b s m' d = (Inr \<lparr>op_Manifest = m', op_Checks = cs\<rparr>, d') \<and> healthy d'
    \<and> files d' = (files d)(a := None, b := Some x, manifestPath qm (mf_ID m') := Some (manifest_obj env (Valid m')))"
proof -
  obtain d1 where d1: "os_Rename a b d = (Inr (), d1)" "healthy d1" "files d1 = (files d)(a := None, b := Some x)"
    using healthy_os_Rename [OF assms(1,2), of b] by blast
  obtain d2 where d2: "verifyIdentity b s d1 = (Inr (), d2)" "healthy d2" "files d2 = files d1"
    using healthy_verifyIdentity [OF d1(2), of b x s] d1(3) assms(3) by auto
  obtain d3 where d3: "save_manifest qm env m' d2 = (Inr (), d3)" "healthy d3" "files d3 = (files d2)(manifestPath qm (mf_ID m') \<mapsto> manifest_obj env (Valid m'))"
    using manifest_store.save_healthy [OF d2(2), of qm env m'] by blast
  from d1 d2 d3 show ?thesis by (simp add: move_commit_def)
qed

lemma healthy_saveNew:
  assumes "healthy d" "files d (manifestPath qm (mf_ID m)) = None"
  shows "\<exists>d'. saveNew qm env m d = (Inr (), d') \<and> healthy d' \<and> files d' = (files d)(manifestPath qm (mf_ID m) \<mapsto> manifest_obj env (Valid m))"
proof -
  let ?k = "manifestPath qm (mf_ID m)"
  obtain d1 where d1: "syscall d = (True, d1)" "healthy d1" "files d1 = files d" using healthy_syscall [OF assms(1)] by blast
  obtain d2 where d2: "syscall (put_file ?k (manifest_obj env Corrupt) d1) = (True, d2)" "healthy d2" "files d2 = (files d)(?k \<mapsto> manifest_obj env Corrupt)"
    using healthy_syscall [of "put_file ?k (manifest_obj env Corrupt) d1"] d1 by auto
  obtain d3 where d3: "syscall (put_file ?k (manifest_obj env (Valid m)) d2) = (True, d3)" "healthy d3" "files d3 = (files d)(?k \<mapsto> manifest_obj env (Valid m))"
    using healthy_syscall [of "put_file ?k (manifest_obj env (Valid m)) d2"] d2 by auto
  obtain d4 where d4: "syscall d3 = (True, d4)" "healthy d4" "files d4 = files d3" using healthy_syscall [OF d3(2)] by blast
  from d1 d2 d3 d4 assms(2) show ?thesis by (simp add: saveNew_def Let_def)
qed

lemma healthy_Quarantine:
  assumes "healthy d" "manager_ok qm" "ts_Type s = ''file''" "ts_CanonicalPath s \<noteq> []" "task \<noteq> []" "nonce \<noteq> []"
    and "q_EvalSymlinks env (ts_CanonicalPath s) = Inr p" "quarantine_withinAny p (qm_labRoots qm)"
    and "m = new_manifest qm p now task nonce s" "files d p = Some x" "identical (o_info x) s"
    and "files d (mf_QuarantinedPath m) = None" "files d (manifestPath qm (mf_ID m)) = None"
  shows "\<exists>op d'. Quarantine qm env now now' task nonce s d = (Inr op, d') \<and> healthy d'
    \<and> op_Manifest op = m\<lparr>mf_Status := Committed, mf_CommittedAt := now'\<rparr>
    \<and> files d' = (files d)(p := None, mf_QuarantinedPath m := Some x,
        manifestPath qm (mf_ID m) := Some (manifest_obj env (Valid (m\<lparr>mf_Status := Committed, mf_CommittedAt := now'\<rparr>))))"
proof -
  note ap = apart_new_manifest [OF assms(2,8), of now task nonce s, folded assms(9), unfolded apart_def]
  have mp: "mf_OriginalPath m = p" "mf_OriginalSnapshot m = s" using assms(9) by simp_all
  obtain d1 where d1: "syscall d = (True, d1)" "healthy d1" "files d1 = files d" using healthy_syscall [OF assms(1)] by blast
  obtain d2 where d2: "verifyIdentity p s d1 = (Inr (), d2)" "healthy d2" "files d2 = files d"
    using healthy_verifyIdentity [OF d1(2), of p x s] d1(3) assms(10,11) by auto
  obtain d3 where d3: "os_Lstat (mf_QuarantinedPath m) d2 = (Inl ErrNotExist, d3)" "healthy d3" "files d3 = files d"
    using healthy_os_Lstat [OF d2(2), of "mf_QuarantinedPath m"] d2(3) assms(12) by auto
  obtain d4 where d4: "saveNew qm env m d3 = (Inr (), d4)" "healthy d4" "files d4 = (files d)(manifestPath qm (mf_ID m) \<mapsto> manifest_obj env (Valid m))"
    using healthy_saveNew [OF d3(2), of qm m env] d3(3) assms(13) by auto
  have x4: "files d4 p = Some x" using d4(3) ap mp assms(10) by simp
  obtain op d5 where d5: "quarantine_commit qm env now' m d4 = (Inr op, d5)" "healthy d5" "op_Manifest op = m\<lparr>mf_Status := Committed, mf_CommittedAt := now'\<rparr>"
    "files d5 = (files d4)(p := None, mf_QuarantinedPath m := Some x, manifestPath qm (mf_ID m) := Some (manifest_obj env (Valid (m\<lparr>mf_Status := Committed, mf_CommittedAt := now'\<rparr>))))"
    using healthy_move_commit [OF d4(2) x4 assms(11), of "mf_QuarantinedPath m"] ap mp unfolding quarantine_commit_move by fastforce
  have "Quarantine qm env now now' task nonce s d = (Inr op, d5)"
    using d1(1) d2(1) d3(1) d4(1) d5(1) assms(3-8) unfolding assms(9)
    by (simp add: Quarantine_def TargetSnapshot_Digest_def Let_def IsNotExist_def new_manifest_def)
  moreover have "files d5 = (files d)(p := None, mf_QuarantinedPath m := Some x,
        manifestPath qm (mf_ID m) := Some (manifest_obj env (Valid (m\<lparr>mf_Status := Committed, mf_CommittedAt := now'\<rparr>))))"
    using d5(4) d4(3) ap by (auto simp: fun_eq_iff)
  ultimately show ?thesis using d5(2,3) by blast
qed

lemma healthy_Restore:
  assumes "healthy d" "quarantineIDPattern i" "files d (manifestPath qm i) = Some y" "o_content y = ManifestFile (Valid m)" "mf_Status m = Committed"
    and "files d (mf_QuarantinedPath m) = Some x" "identical (o_info x) (mf_OriginalSnapshot m)" "files d (mf_OriginalPath m) = None"
    and "ts_Type s = ''file''" "Clean (ts_CanonicalPath s) = mf_QuarantinedPath m" "identical (o_info x) s"
    and "q_EvalSymlinks env (Dir (mf_OriginalPath m)) = Inr parent" "quarantine_withinAny parent (qm_labRoots qm)"
  shows "\<exists>op d'. Restore qm env now i s d = (Inr op, d') \<and> op_Manifest op = m\<lparr>mf_Status := Restored, mf_RestoredAt := now\<rparr> \<and> healthy d'
    \<and> files d' = (files d)(mf_QuarantinedPath m := None, mf_OriginalPath m := Some x,
        manifestPath qm (mf_ID m) := Some (manifest_obj env (Valid (m\<lparr>mf_Status := Restored, mf_RestoredAt := now\<rparr>))))"
proof -
  obtain d1 where d1: "syscall d = (True, d1)" "healthy d1" "files d1 = files d" using healthy_syscall [OF assms(1)] by blast
  obtain d2 where d2: "load_manifest qm i d1 = (Inr m, d2)" "healthy d2" "files d2 = files d"
    using healthy_load_manifest [OF d1(2) assms(2), of qm] d1(3) assms(3,4) by auto
  obtain d3 where d3: "verifyIdentity (mf_QuarantinedPath m) s d2 = (Inr (), d3)" "healthy d3" "files d3 = files d"
    using healthy_verifyIdentity [OF d2(2) _ assms(11), of "mf_QuarantinedPath m"] d2(3) assms(6) by auto
  have same: "verifySameIdentity s (mf_OriginalSnapshot m) = Inr ()" using assms(7,11) by (simp add: verifySameIdentity_iff identical_def)
  obtain d4 where d4: "os_Lstat (mf_OriginalPath m) d3 = (Inl ErrNotExist, d4)" "healthy d4" "files d4 = files d"
    using healthy_os_Lstat [OF d3(2), of "mf_OriginalPath m"] d3(3) assms(8) by auto
  have ne: "mf_QuarantinedPath m \<noteq> mf_OriginalPath m" using assms(6,8) by auto
  obtain op d5 where d5: "restore_commit qm env now m d4 = (Inr op, d5)" "healthy d5" "op_Manifest op = m\<lparr>mf_Status := Restored, mf_RestoredAt := now\<rparr>"
    "files d5 = (files d)(mf_QuarantinedPath m := None, mf_OriginalPath m := Some x,
        manifestPath qm (mf_ID m) := Some (manifest_obj env (Valid (m\<lparr>mf_Status := Restored, mf_RestoredAt := now\<rparr>))))"
    using healthy_move_commit [OF d4(2) _ assms(7) ne, of qm env] d4(3) assms(6) unfolding restore_commit_move by fastforce
  have "Restore qm env now i s d = (Inr op, d5)"
    using d1(1) d2(1) d3(1) d4(1) d5(1) assms(2,5,9,10,12,13) same by (simp add: Restore_def IsNotExist_def)
  with d5 show ?thesis by blast
qed

subsection \<open>Properties\<close>

text \<open>Under every pattern of failing system calls a quarantine either changes nothing and fails, or works on one file of a lab
  root: it touches only the file, its place in the quarantine and its manifest; on success the file, which matched the snapshot,
  has moved and the manifest is committed; on failure the file is still in its place, or it is in the quarantine and a prepared
  manifest says so.\<close>

theorem quarantine_conserves:
  assumes "resolves_absolute h" "resolves_absolute h'" "NewQuarantineManager h mk h' labs q0 = Inr qm"
    and "Quarantine qm env now now' task nonce s d = (r, d')"
  shows "(files d' = files d \<and> \<not> is_ok r) \<or>
    (\<exists>p m. q_EvalSymlinks env (ts_CanonicalPath s) = Inr p \<and> quarantine_withinAny p (qm_labRoots qm)
       \<and> m = new_manifest qm p now task nonce s \<and> same_except (own_paths qm m) (files d) (files d')
       \<and> (if is_ok r then quarantine_moved qm env m (m\<lparr>mf_Status := Committed, mf_CommittedAt := now'\<rparr>) (files d) (files d')
          else quarantine_kept qm env m (files d) (files d') \<or> quarantine_moved qm env m m (files d) (files d')))"
  by (rule Quarantine_effect [OF assms(4) NewQuarantineManager_ok [OF assms(1-3)]])

text \<open>A listing of the manifests directory names every manifest file once.\<close>

definition lists_manifests :: "QuarantineManager \<Rightarrow> (string \<rightharpoonup> fsobj) \<Rightarrow> (string \<times> bool) list \<Rightarrow> bool" where
  "lists_manifests qm fs es \<longleftrightarrow> distinct es \<and> (\<forall>i. quarantineIDPattern i \<longrightarrow> fs (manifestPath qm i) \<noteq> None \<longrightarrow> (i @ ''.json'', False) \<in> set es)"

definition valid_manifest :: "fsobj option \<Rightarrow> bool" where
  "valid_manifest k \<longleftrightarrow> (case k of Some x \<Rightarrow> (case o_content x of ManifestFile (Valid m) \<Rightarrow> True | _ \<Rightarrow> False) | None \<Rightarrow> False)"

lemma Recover_settles:
  assumes "healthy d" "filed qm (files d)" "manager_ok qm" "quarantineIDPattern i" "lists_manifests qm (files d) es"
  shows "\<exists>r d'. Recover qm env now es d = (r, d')
    \<and> (\<forall>k. k \<notin> manifest_paths qm \<longrightarrow> files d' k = files d k)
    \<and> (pending qm (files d) i = None \<longrightarrow> files d' (manifestPath qm i) = files d (manifestPath qm i))
    \<and> (\<forall>m. pending qm (files d) i = Some m \<longrightarrow> reconciled qm env now m (files d) (files d' (manifestPath qm i)))"
proof -
  obtain d1 where d1: "syscall d = (True, d1)" "healthy d1" "files d1 = files d" using healthy_syscall [OF assms(1)] by blast
  have fd: "filed qm (files d1)" "distinct es" using assms(2,5) d1(3) by (simp_all add: lists_manifests_def)
  have pm: "(i @ ''.json'', False) \<in> set es \<and> separate qm m" if "pending qm (files d) i = Some m" for m
    using that assms(4,5) filedD [OF assms(2)] by (auto simp: pending_iff lists_manifests_def)
  obtain r d' where r: "recover_entries qm env now es [] d1 = (r, d')" "\<forall>k. k \<notin> manifest_paths qm \<longrightarrow> files d' k = files d k"
    "(i @ ''.json'', False) \<notin> set es \<or> pending qm (files d) i = None \<longrightarrow> files d' (manifestPath qm i) = files d (manifestPath qm i)"
    "\<forall>m. (i @ ''.json'', False) \<in> set es \<longrightarrow> pending qm (files d) i = Some m \<longrightarrow> mf_OriginalPath m \<notin> manifest_paths qm \<longrightarrow>
         mf_QuarantinedPath m \<notin> manifest_paths qm \<longrightarrow> reconciled qm env now m (files d) (files d' (manifestPath qm i))"
    using recover_entries_spec [OF d1(2) fd assms(3,4), of env now "[]", unfolded d1(3)]
    by (elim exE conjE) (rule that)
  have "Recover qm env now es d = (r, d')" using d1(1) r(1) by (simp add: Recover_def)
  moreover have "pending qm (files d) i = None \<longrightarrow> files d' (manifestPath qm i) = files d (manifestPath qm i)" using r(3) by simp
  moreover have "reconciled qm env now m (files d) (files d' (manifestPath qm i))" if "pending qm (files d) i = Some m" for m
    using r(4) that pm [OF that] by (simp add: separate_def)
  ultimately show ?thesis using r(2) by (intro exI conjI allI impI) simp_all
qed

lemma quarantine_outcomes:
  assumes "Quarantine qm env now now' task nonce s d = (r, d1)" "manager_ok qm" "q_EvalSymlinks env (ts_CanonicalPath s) = Inr p"
    and "m = new_manifest qm p now task nonce s" "placed p (mf_QuarantinedPath m) x (files d)" "files d (manifestPath qm (mf_ID m)) = None"
  obtains (none) "files d1 (manifestPath qm (mf_ID m)) = None" "placed p (mf_QuarantinedPath m) x (files d1)"
    | (corrupt) "files d1 (manifestPath qm (mf_ID m)) = Some (manifest_obj env Corrupt)" "placed p (mf_QuarantinedPath m) x (files d1)"
    | (prepared) "files d1 (manifestPath qm (mf_ID m)) = Some (manifest_obj env (Valid m))" "placed p (mf_QuarantinedPath m) x (files d1)"
    | (moved) m' where "files d1 (manifestPath qm (mf_ID m)) = Some (manifest_obj env (Valid m'))"
        "m' = m \<or> m' = m\<lparr>mf_Status := Committed, mf_CommittedAt := now'\<rparr>"
        "placed (mf_QuarantinedPath m) p x (files d1)" "identical (o_info x) (mf_OriginalSnapshot m)"
proof -
  have mp: "mf_OriginalPath m = p" using assms(4) by simp
  have kept: thesis if "quarantine_kept qm env m (files d) (files d1)"
    using that assms(5,6) mp none corrupt prepared unfolding quarantine_kept_def placed_def by auto
  have moves: thesis if "quarantine_moved qm env m m' (files d) (files d1)" "m' = m \<or> m' = m\<lparr>mf_Status := Committed, mf_CommittedAt := now'\<rparr>" for m'
    using that assms(5) mp moved unfolding quarantine_moved_def placed_def by auto
  from Quarantine_effect [OF assms(1,2)] show thesis
  proof (elim disjE exE conjE)
    assume "files d1 = files d" then show thesis using assms(5,6) none by simp
  next
    fix q m' assume h: "q_EvalSymlinks env (ts_CanonicalPath s) = Inr q" "m' = new_manifest qm q now task nonce s"
      "if is_ok r then quarantine_moved qm env m' (m'\<lparr>mf_Status := Committed, mf_CommittedAt := now'\<rparr>) (files d) (files d1)
          else quarantine_kept qm env m' (files d) (files d1) \<or> quarantine_moved qm env m' m' (files d) (files d1)"
    with assms(3,4) have "m' = m" by simp
    with h(3) kept moves show thesis by (auto split: if_splits)
  qed
qed


text \<open>C32: On a disk without failures a quarantined file can be restored: both operations succeed, the file is away in
  between, and afterwards every file is as before except for the manifest of the operation.\<close>

theorem quarantine_restore_roundtrip:
  assumes "resolves_absolute h" "resolves_absolute h'" "NewQuarantineManager h mk h' labs q0 = Inr qm"
    and "healthy d" "ts_Type s = ''file''" "ts_CanonicalPath s \<noteq> []" "task \<noteq> []" "nonce \<noteq> []"
    and "q_EvalSymlinks env (ts_CanonicalPath s) = Inr p" "quarantine_withinAny p (qm_labRoots qm)"
    and "m = new_manifest qm p now task nonce s" "files d p = Some x" "identical (o_info x) s"
    and "files d (mf_QuarantinedPath m) = None" "files d (manifestPath qm (mf_ID m)) = None"
    and "q_EvalSymlinks env' (Dir p) = Inr parent" "quarantine_withinAny parent (qm_labRoots qm)"
  shows "\<exists>op d1 op' d2. Quarantine qm env now now' task nonce s d = (Inr op, d1)
    \<and> placed (mf_QuarantinedPath m) p x (files d1)
    \<and> Restore qm env' now2 (mf_ID (op_Manifest op)) (s\<lparr>ts_CanonicalPath := mf_QuarantinedPath (op_Manifest op)\<rparr>) d1 = (Inr op', d2)
    \<and> mf_Status (op_Manifest op') = Restored \<and> same_except {manifestPath qm (mf_ID m)} (files d) (files d2)"
proof -
  note ok = NewQuarantineManager_ok [OF assms(1-3)]
  note ap = apart_new_manifest [OF ok assms(10), of now task nonce s, folded assms(11), unfolded apart_def]
  have mp: "mf_OriginalPath m = p" "mf_OriginalSnapshot m = s" and pat: "quarantineIDPattern (mf_ID m)"
    using assms(11) quarantine_id_pattern by simp_all
  let ?m = "m\<lparr>mf_Status := Committed, mf_CommittedAt := now'\<rparr>"
  obtain op d1 where d1: "Quarantine qm env now now' task nonce s d = (Inr op, d1)" "healthy d1" "op_Manifest op = ?m"
    "files d1 = (files d)(p := None, mf_QuarantinedPath m := Some x, manifestPath qm (mf_ID m) := Some (manifest_obj env (Valid ?m)))"
    using healthy_Quarantine [OF assms(4) ok assms(5-15)] by blast
  have cl: "Clean (mf_QuarantinedPath m) = mf_QuarantinedPath m"
    using quarantine_path_clean [OF ok pat] assms(11) by simp
  let ?s = "s\<lparr>ts_CanonicalPath := mf_QuarantinedPath ?m\<rparr>"
  have "identical (o_info x) ?s" using assms(13) by (simp add: identical_def)
  then obtain op' d2 where d2: "Restore qm env' now2 (mf_ID m) ?s d1 = (Inr op', d2)" "op_Manifest op' = ?m\<lparr>mf_Status := Restored, mf_RestoredAt := now2\<rparr>"
    "files d2 = (files d1)(mf_QuarantinedPath m := None, p := Some x, manifestPath qm (mf_ID m) := Some (manifest_obj env' (Valid (?m\<lparr>mf_Status := Restored, mf_RestoredAt := now2\<rparr>))))"
    using healthy_Restore [OF d1(2) pat, of qm "manifest_obj env (Valid ?m)" ?m x ?s env' parent now2] d1(4) ap mp cl assms(5,13,16,17)
    by (auto simp: manifest_obj_def)
  have "same_except {manifestPath qm (mf_ID m)} (files d) (files d2)"
    unfolding d2(3) d1(4) same_except_def using assms(12,14) mp ap by auto
  with d1 d2 ap mp show ?thesis by (auto simp: placed_def)
qed

text \<open>A history: any sequence of operations, each on a disk that may fail anywhere, with restarts in between.\<close>

inductive quarantine_history :: "QuarantineManager \<Rightarrow> (string \<rightharpoonup> fsobj) \<Rightarrow> (string \<rightharpoonup> fsobj) \<Rightarrow> bool" for qm fs where
  start: "quarantine_history qm fs fs"
| quarantine: "quarantine_history qm fs (files d) \<Longrightarrow> Quarantine qm env now now' task nonce s d = (r, d') \<Longrightarrow> quarantine_history qm fs (files d')"
| restore: "quarantine_history qm fs (files d) \<Longrightarrow> Restore qm env now i s d = (r, d') \<Longrightarrow> quarantine_history qm fs (files d')"
| recover: "quarantine_history qm fs (files d) \<Longrightarrow> Recover qm env now es d = (r', d') \<Longrightarrow> quarantine_history qm fs (files d')"

text \<open>C31: No sequence of quarantines, restores and recoveries loses, duplicates into a new content or overwrites a file, with
  failures at any system call of any of them: the files outside the manifests are the same ones at the end, and the manifest
  files stay well-formed.\<close>

theorem quarantine_loses_nothing:
  assumes "resolves_absolute h" "resolves_absolute h'" "NewQuarantineManager h mk h' labs q0 = Inr qm"
    and "quarantine_history qm fs fs'" "filed qm fs"
  shows "objects qm fs' = objects qm fs \<and> filed qm fs'"
proof -
  note ok = NewQuarantineManager_ok [OF assms(1-3)]
  show ?thesis
    using assms(4)
  proof induction
    case (recover d env now es r' d')
    with Recover_keeps [OF _ ok] have "filed qm (files d')" "\<forall>k. k \<notin> manifest_paths qm \<longrightarrow> files d' k = files d k" by blast+
    with recover objects_same [of qm "files d'" "files d"] show ?case by simp
  qed (use assms(5) Quarantine_keeps [OF _ ok] Restore_keeps [OF _ ok] in auto)
qed

subsection \<open>Witnesses\<close>

definition lab_host :: host where
  "lab_host = empty_host\<lparr>h_Stat := (\<lambda>_. Inr \<lparr>fi_Size = 0, fi_ModTime = 0, fi_Mode = ModeDir, fi_Ino = 1\<rparr>)\<rparr>"

definition lab_manager :: QuarantineManager where
  "lab_manager = \<lparr>qm_labRoots = [''/lab''], qm_quarantineRoot = ''/q'', qm_objectsDir = ''/q/objects'', qm_manifestsDir = ''/q/manifests''\<rparr>"

definition lab_file :: fsobj where
  "lab_file = \<lparr>o_info = \<lparr>fi_Size = 3, fi_ModTime = 7, fi_Mode = 0x180, fi_Ino = 42\<rparr>, o_content = Data ''abc''\<rparr>"

definition lab_snapshot :: TargetSnapshot where
  "lab_snapshot = zero_snapshot\<lparr>ts_Type := ''file'', ts_ID := ''/lab/f'', ts_CanonicalPath := ''/lab/f'', ts_Size := 3,
     ts_MTimeUnixNano := 7, ts_Mode := 0x180, ts_Inode := 42\<rparr>"

definition lab_env :: qenv where
  "lab_env = \<lparr>q_EvalSymlinks = Inr, q_newinfo = \<lparr>fi_Size = 0, fi_ModTime = 0, fi_Mode = 0x180, fi_Ino = 9\<rparr>\<rparr>"

definition lab_disk :: filesystem where
  "lab_disk = reliable [''/lab/f'' \<mapsto> lab_file]"

abbreviation lab_manifest :: Manifest where
  "lab_manifest \<equiv> new_manifest lab_manager ''/lab/f'' 5 ''t'' ''n'' lab_snapshot"

lemma lab_resolves: "resolves_absolute lab_host"
  using resolves_empty_host by (simp add: resolves_absolute_def lab_host_def)

lemma lab_manager_built: "NewQuarantineManager lab_host (Inr ()) lab_host [''/lab''] ''/q'' = Inr lab_manager"
  by code_simp

lemmas lab_ok = NewQuarantineManager_ok [OF lab_resolves lab_resolves lab_manager_built]

lemma lab_inside: "quarantine_withinAny ''/lab/f'' (qm_labRoots lab_manager)" "quarantine_withinAny ''/lab'' (qm_labRoots lab_manager)"
    "Dir ''/lab/f'' = ''/lab''"
  by code_simp+

lemma lab_identical: "identical (o_info lab_file) lab_snapshot"
  by (simp add: identical_def lab_file_def lab_snapshot_def zero_snapshot_def fi_IsRegular_def ModeType_def)

lemma lab_resolved: "q_EvalSymlinks lab_env (ts_CanonicalPath lab_snapshot) = Inr ''/lab/f''"
  by (simp add: lab_env_def lab_snapshot_def)

lemma lab_vacant:
  "placed ''/lab/f'' (mf_QuarantinedPath lab_manifest) lab_file (files lab_disk)" "files lab_disk (manifestPath lab_manager (mf_ID lab_manifest)) = None"
  using apart_new_manifest [OF lab_ok lab_inside(1), of 5 "''t''" "''n''" lab_snapshot]
  by (auto simp: lab_disk_def placed_def apart_def)

lemma lab_filed: "filed lab_manager (files lab_disk)"
  using lab_path_not_manifest [OF lab_ok lab_inside(1)] by (auto simp: filed_def lab_disk_def lab_file_def)

theorem quarantine_conserves_witness:
  "\<exists>r d'. Quarantine lab_manager lab_env 5 6 ''t'' ''n'' lab_snapshot lab_disk = (r, d') \<and>
    ((files d' = files lab_disk \<and> \<not> is_ok r) \<or>
    (\<exists>p m. q_EvalSymlinks lab_env (ts_CanonicalPath lab_snapshot) = Inr p \<and> quarantine_withinAny p (qm_labRoots lab_manager)
       \<and> m = new_manifest lab_manager p 5 ''t'' ''n'' lab_snapshot \<and> same_except (own_paths lab_manager m) (files lab_disk) (files d')
       \<and> (if is_ok r then quarantine_moved lab_manager lab_env m (m\<lparr>mf_Status := Committed, mf_CommittedAt := 6\<rparr>) (files lab_disk) (files d')
          else quarantine_kept lab_manager lab_env m (files lab_disk) (files d') \<or> quarantine_moved lab_manager lab_env m m (files lab_disk) (files d'))))"
proof -
  obtain r d' where r: "Quarantine lab_manager lab_env 5 6 ''t'' ''n'' lab_snapshot lab_disk = (r, d')" by fastforce
  from quarantine_conserves [OF lab_resolves lab_resolves lab_manager_built r] r show ?thesis by blast
qed

text \<open>A crash after the seventh system call of a quarantine: every later call fails.\<close>

definition crashing_disk :: filesystem where
  "crashing_disk = lab_disk\<lparr>io_fails := (\<lambda>n. n > 6)\<rparr>"

lemma crashing_files: "files crashing_disk = files lab_disk"
  by (simp add: crashing_disk_def)


theorem quarantine_restore_roundtrip_witness:
  "\<exists>op d1 op' d2. Quarantine lab_manager lab_env 5 6 ''t'' ''n'' lab_snapshot lab_disk = (Inr op, d1)
    \<and> placed (mf_QuarantinedPath lab_manifest) ''/lab/f'' lab_file (files d1)
    \<and> Restore lab_manager lab_env 8 (mf_ID (op_Manifest op)) (lab_snapshot\<lparr>ts_CanonicalPath := mf_QuarantinedPath (op_Manifest op)\<rparr>) d1 = (Inr op', d2)
    \<and> mf_Status (op_Manifest op') = Restored \<and> same_except {manifestPath lab_manager (mf_ID lab_manifest)} (files lab_disk) (files d2)"
proof -
  have "ts_Type lab_snapshot = ''file''" "ts_CanonicalPath lab_snapshot \<noteq> []" "healthy lab_disk" "q_EvalSymlinks lab_env (Dir ''/lab/f'') = Inr ''/lab''"
    using lab_inside(3) by (simp_all add: lab_snapshot_def lab_disk_def lab_env_def)
  with quarantine_restore_roundtrip [OF lab_resolves lab_resolves lab_manager_built _ _ _ _ _ lab_resolved lab_inside(1) refl _ lab_identical _ lab_vacant(2)
      _ lab_inside(2), where env' = lab_env and now' = 6 and ?now2.0 = 8] lab_vacant(1)
  show ?thesis by (simp add: placed_def)
qed

theorem quarantine_loses_nothing_witness:
  "\<exists>r d'. Quarantine lab_manager lab_env 5 6 ''t'' ''n'' lab_snapshot crashing_disk = (r, d')
    \<and> objects lab_manager (files d') = objects lab_manager (files crashing_disk) \<and> filed lab_manager (files d')"
proof -
  obtain r d' where r: "Quarantine lab_manager lab_env 5 6 ''t'' ''n'' lab_snapshot crashing_disk = (r, d')" by fastforce
  from quarantine_loses_nothing [OF lab_resolves lab_resolves lab_manager_built quarantine_history.quarantine [OF quarantine_history.start r]
      lab_filed [folded crashing_files]] r show ?thesis by blast
qed

end
