(* ===== verification/Handlers.thy ===== *)
theory Handlers
  imports Executor Quarantine_Safety
begin

text \<open>
  The handlers that change the machine: \<open>internal/executor/mutation_handlers.go\<close> and \<open>quarantine_handler.go\<close>, and the table of
  handlers of \<open>cmd/safeops-privexec/main.go\<close>. The machine is its file system, the signals sent and the commands run. What
  the operating system answers while a handler runs (exit of a command, states of a process at each poll, attributes of a
  new file) and the clock readings are arguments.
\<close>

subsection \<open>The machine\<close>

record machine =
  m_files :: filesystem
  m_signals :: "(int \<times> string) list"
  m_commands :: "string list list"

record handler_env =
  he_systemctl :: string
  he_run :: "string list \<Rightarrow> unit result"
  he_service :: "string \<Rightarrow> ServiceStatus result"
  he_linux :: bool
  he_kill :: "int \<Rightarrow> unit result"
  he_state :: "nat \<Rightarrow> string result"
  he_ticks :: nat
  he_stop :: go_error
  he_pid :: int
  he_newfile :: "string \<Rightarrow> FileInfo"
  he_qenv :: qenv
  he_clock :: "nat \<Rightarrow> timestamp"

definition lab_result :: "handler_env \<Rightarrow> ActionEnvelope \<Rightarrow> string \<Rightarrow> string \<Rightarrow> string list \<Rightarrow> (string \<times> string) list \<Rightarrow> Result" where
  "lab_result env e message actionID checks evidence =
     \<lparr>res_Tool = ap_Tool (ae_Proposal e), res_Mode = LabSandbox, res_Status = ''SUCCEEDED'', res_Message = message, res_ActionID = actionID,
      res_Changed = True, res_Verification = Some \<lparr>vf_Verified = True, vf_Checks = checks, vf_Evidence = evidence\<rparr>,
      res_StartedAt = he_clock env 0, res_FinishedAt = he_clock env 1\<rparr>"

subsection \<open>service.restart\<close>

text \<open>\<open>he_systemctl\<close> is empty when the runner is not configured.\<close>

definition ServiceRestartHandler :: "handler_env \<Rightarrow> machine handler" where
  "ServiceRestartHandler env e w =
     (let s = ae_TargetSnapshot e in
      if he_systemctl env = [] then (Inl (ErrorNew ''fixed systemctl runner is unavailable''), w)
      else if ap_Tool (ae_Proposal e) \<noteq> ''service.restart'' \<or> ts_Type s \<noteq> ''service'' \<or> ts_ServiceName s = []
        then (Inl (ErrorNew ''invalid service restart envelope''), w)
      else let cmd = [he_systemctl env, ''restart'', ''--'', ts_ServiceName s]; w = w\<lparr>m_commands := cmd # m_commands w\<rparr> in
        (case he_run env cmd of Inl err \<Rightarrow> (Inl err, w)
         | Inr _ \<Rightarrow> (case he_service env (ts_ServiceName s) of Inl err \<Rightarrow> (Inl (Wrapf ''verify restarted service'' err), w)
           | Inr st \<Rightarrow>
             if ss_ActiveState st \<noteq> ''active''
             then (Inl (ErrorNew (''service verification failed: active_state='' @ ss_ActiveState st @ '' sub_state='' @ ss_SubState st)), w)
             else (Inr (lab_result env e ''allowlisted service restart completed and verified'' (ap_ProposalID (ae_Proposal e))
                 [''fixed systemctl restart returned success'', ''systemctl show reports active'']
                 [(''service'', ss_Name st), (''active_state'', ss_ActiveState st), (''sub_state'', ss_SubState st), (''main_pid'', itoa (ss_MainPID st))]), w))))"

subsection \<open>process.terminate\<close>

text \<open>The polling loop: \<open>n\<close> more ticks arrive before the deadline or the context ends the wait with the error \<open>stop\<close>.\<close>

fun wait_exit :: "(nat \<Rightarrow> string result) \<Rightarrow> go_error \<Rightarrow> nat \<Rightarrow> nat \<Rightarrow> unit result" where
  "wait_exit state stop i n =
     (case state i of
        Inl err \<Rightarrow> if err = ErrNotExist then Inr () else Inl (Wrapf ''verify process termination'' err)
      | Inr s \<Rightarrow> if s = ''Z'' then Inr ()
          else (case n of 0 \<Rightarrow> Inl stop | Suc m \<Rightarrow> wait_exit state stop (Suc i) m))"

definition ProcessTerminateHandler :: "handler_env \<Rightarrow> machine handler" where
  "ProcessTerminateHandler env e w =
     (let s = ae_TargetSnapshot e in
      if \<not> he_linux env then (Inl (ErrorNew ''process platform is unavailable''), w)
      else if ap_Tool (ae_Proposal e) \<noteq> ''process.terminate'' \<or> ts_Type s \<noteq> ''process'' \<or> ts_PID s \<le> 1
        then (Inl (ErrorNew ''invalid process terminate envelope''), w)
      else if ts_PID s = he_pid env then (Inl (ErrorNew ''executor refuses to signal itself''), w)
      else let w = w\<lparr>m_signals := (ts_PID s, ''SIGTERM'') # m_signals w\<rparr> in
        (case he_kill env (ts_PID s) of Inl err \<Rightarrow> (Inl (Wrapf ''send fixed SIGTERM'' err), w)
         | Inr _ \<Rightarrow> (case wait_exit (he_state env) (he_stop env) 0 (he_ticks env) of Inl err \<Rightarrow> (Inl err, w)
           | Inr _ \<Rightarrow> (Inr (lab_result env e ''allowlisted process terminated with SIGTERM and verified'' (ap_ProposalID (ae_Proposal e))
               [''PID/start time/executable snapshot revalidated'', ''fixed SIGTERM sent'', ''process absent or zombie after signal'']
               [(''pid'', itoa (ts_PID s)), (''start_ticks'', itoa (uint (ts_StartTicks s))), (''executable'', ts_Executable s), (''signal'', ''SIGTERM''),
                (''post_state'', ''not_running'')]), w))))"

subsection \<open>file.create\<close>

definition maxCreatedFileBytes :: nat where "maxCreatedFileBytes = 64 * 1024"

text \<open>\<open>os.FileMode.String\<close>\<close>

definition mode_string :: "uint32 \<Rightarrow> string" where
  "mode_string m =
     (let special = map snd (filter (\<lambda>(i, c). bit m (31 - i)) (enumerate 0 ''dalTLDpSugct?''));
          perms = map (\<lambda>(i, c). if bit m (8 - i) then c else CHR ''-'') (enumerate 0 ''rwxrwxrwx'')
      in (if special = [] then ''-'' else special) @ perms)"

text \<open>The error path after the file has been created: close it when it is still open, remove it, sync the directory; every
  failure on the way is joined to the cause.\<close>

definition create_fail :: "bool \<Rightarrow> string \<Rightarrow> go_error \<Rightarrow> filesystem \<Rightarrow> 'a result \<times> filesystem" where
  "create_fail opened path cause d =
     (case (if opened then syscall d else (True, d)) of (closed, d) \<Rightarrow>
        let cause = (if closed then cause else Joined [cause, Wrapf ''close failed create'' EIO]) in
        case remove_file 0 path d of (r, d) \<Rightarrow>
          let cause = (case r of Inl err \<Rightarrow> if err = ErrNotExist then cause else Joined [cause, Wrapf ''remove failed create'' err] | Inr _ \<Rightarrow> cause) in
          (case calls 3 d of (ok, d) \<Rightarrow> (Inl (if ok then cause else Joined [cause, Wrapf ''sync rollback parent'' EIO]), d)))"

definition plain_file :: "handler_env \<Rightarrow> string \<Rightarrow> fsobj" where
  "plain_file env content = \<lparr>o_info = he_newfile env content, o_content = Data content\<rparr>"

text \<open>A failed or short write leaves \<open>part\<close>, some beginning of the content.\<close>

definition create_file :: "handler_env \<Rightarrow> string \<Rightarrow> string \<Rightarrow> string \<Rightarrow> filesystem \<Rightarrow> FileInfo result \<times> filesystem" where
  "create_file env part path content d =
     (case syscall d of (ok, d) \<Rightarrow>
      if \<not> ok then (Inl (Wrapf ''create approved file'' EIO), d)
      else if files d path \<noteq> None then (Inl (Wrapf ''create approved file'' EIO), d)
      else let d = put_file path (plain_file env []) d in
      (case syscall d of (wrote, d) \<Rightarrow>
        if \<not> wrote then create_fail True path (Wrapf ''write approved file'' EIO) (put_file path (plain_file env part) d)
        else let d = put_file path (plain_file env content) d in
        (case syscall d of (synced, d) \<Rightarrow>
          if \<not> synced then create_fail True path (Wrapf ''sync approved file'' EIO) d
          else (case syscall d of (closed, d) \<Rightarrow>
            if \<not> closed then create_fail False path (Wrapf ''close approved file'' EIO) d
            else (case calls 3 d of (durable, d) \<Rightarrow>
              if \<not> durable then create_fail False path (Wrapf ''sync file parent'' EIO) d
              else (case os_Lstat path d of
                  (Inl err, d) \<Rightarrow> create_fail False path (Wrapf ''verify created file'' err) d
                | (Inr info, d) \<Rightarrow>
                  if \<not> fi_IsRegular info \<or> fi_Size info \<noteq> int (length content) \<or> fi_Perm info AND 0x3F \<noteq> 0
                  then create_fail False path (ErrorNew (''created file verification failed: mode='' @ mode_string (fi_Mode info) @ '' size='' @ itoa (fi_Size info))) d
                  else (Inr info, d)))))))"

definition argument_string :: "ActionProposal \<Rightarrow> string \<Rightarrow> string option" where
  "argument_string p k = (case ap_Arguments p of None \<Rightarrow> None | Some kvs \<Rightarrow> (case map_of kvs k of Some (JStr s) \<Rightarrow> Some s | _ \<Rightarrow> None))"

definition FileCreateHandler :: "handler_env \<Rightarrow> string \<Rightarrow> machine handler" where
  "FileCreateHandler env part e w =
     (let s = ae_TargetSnapshot e in
      if ap_Tool (ae_Proposal e) \<noteq> ''file.create'' \<or> ts_Type s \<noteq> ''file'' \<or> \<not> ts_ExpectAbsent s \<or> ts_CanonicalPath s = []
        then (Inl (ErrorNew ''invalid file create envelope''), w)
      else (case argument_string (ae_Proposal e) ''content'' of
          None \<Rightarrow> (Inl (ErrorNew ''file.create content must be a string''), w)
        | Some content \<Rightarrow>
          if length content > maxCreatedFileBytes then (Inl (ErrorNew ''file.create content exceeds bounded size limit''), w)
          else (case create_file env part (ts_CanonicalPath s) content (m_files w) of
              (Inl err, d) \<Rightarrow> (Inl err, w\<lparr>m_files := d\<rparr>)
            | (Inr info, d) \<Rightarrow> (Inr (lab_result env e ''allowlisted file created and verified'' (ap_ProposalID (ae_Proposal e))
                [''target absence and parent snapshot revalidated'', ''O_EXCL create used fixed 0600 mode'', ''created file metadata verified'']
                [(''path'', ts_CanonicalPath s), (''bytes'', itoa (fi_Size info)), (''mode'', mode_string (fi_Mode info)),
                 (''rollback_strategy'', ap_RollbackStrategy (ae_Proposal e))]), w\<lparr>m_files := d\<rparr>))))"

subsection \<open>The quarantine handler\<close>

definition quarantine_action :: "QuarantineManager \<Rightarrow> handler_env \<Rightarrow> ActionEnvelope \<Rightarrow> filesystem \<Rightarrow> Operation result \<times> filesystem" where
  "quarantine_action qm env e d =
     (if ap_Tool (ae_Proposal e) = ''file.quarantine'' \<or> ap_Tool (ae_Proposal e) = ''file.delete''
      then Quarantine qm (he_qenv env) (he_clock env 2) (he_clock env 3) (ae_TaskID e) (ae_Nonce e) (ae_TargetSnapshot e) d
      else if ap_Tool (ae_Proposal e) = ''file.restore_quarantine''
      then (case argument_string (ae_Proposal e) ''quarantine_id'' of
          None \<Rightarrow> (Inl (ErrorNew ''restore requires quarantine_id''), d)
        | Some i \<Rightarrow> if i = [] then (Inl (ErrorNew ''restore requires quarantine_id''), d)
            else Restore qm (he_qenv env) (he_clock env 2) i (ae_TargetSnapshot e) d)
      else (Inl (ErrorNew ''unsupported quarantine handler tool''), d))"

definition QuarantineHandler :: "QuarantineManager option \<Rightarrow> handler_env \<Rightarrow> machine handler" where
  "QuarantineHandler manager env e w =
     (case manager of None \<Rightarrow> (Inl (ErrorNew ''quarantine manager is not configured''), w)
      | Some qm \<Rightarrow> (case quarantine_action qm env e (m_files w) of
          (Inl err, d) \<Rightarrow> (Inl err, w\<lparr>m_files := d\<rparr>)
        | (Inr op, d) \<Rightarrow>
          let m = op_Manifest op in
          (Inr (lab_result env e (ap_Tool (ae_Proposal e) @ '' completed with verified atomic rename'') (mf_ID m) (op_Checks op)
             [(''quarantine_id'', mf_ID m), (''original_path'', mf_OriginalPath m), (''quarantined_path'', mf_QuarantinedPath m),
              (''manifest_status'', qstatus_text (mf_Status m))]), w\<lparr>m_files := d\<rparr>)))"

text \<open>The table of \<open>privexec\<close> in lab mode.\<close>

definition lab_handlers :: "QuarantineManager \<Rightarrow> handler_env \<Rightarrow> string \<Rightarrow> string \<Rightarrow> machine handler option" where
  "lab_handlers qm env part tool =
     (if tool \<in> {''file.quarantine'', ''file.restore_quarantine'', ''file.delete''} then Some (QuarantineHandler (Some qm) env)
      else if tool = ''file.create'' then Some (FileCreateHandler env part)
      else if tool = ''service.restart'' then Some (ServiceRestartHandler env)
      else if tool = ''process.terminate'' then Some (ProcessTerminateHandler env)
      else None)"

subsection \<open>Creating a file\<close>

lemma create_fail_files:
  assumes "create_fail opened path cause d = (r, d')"
  shows "\<not> is_ok r \<and> (files d' = files d \<or> files d' = (files d)(path := None))"
proof -
  obtain c d1 where c: "(if opened then syscall d else (True, d)) = (c, d1)" by fastforce
  have f1: "files d1 = files d" using c by (auto split: if_splits dest: syscall_files)
  obtain x d2 where x: "remove_file 0 path d1 = (x, d2)" by fastforce
  have f2: "files d2 = files d1 \<or> files d2 = (files d1)(path := None)" using x by (auto elim!: remove_file_cases)
  obtain ok d3 where k: "calls 3 d2 = (ok, d3)" by fastforce
  have "d' = d3" "\<not> is_ok r" using assms c x k by (auto simp: create_fail_def Let_def)
  with f1 f2 calls_files [OF k] show ?thesis by auto
qed

text \<open>Every outcome of the creation: nothing else changes, an existing file is not touched, success means the verified
  content is there, failure means the path is as before or a file that could not be removed again is left.\<close>

lemma create_file_effect:
  assumes "create_file env part path content d = (r, d')"
  shows "(files d' = files d \<and> \<not> is_ok r) \<or>
    (files d path = None \<and> (\<exists>c \<in> {[], part, content}. files d' = (files d)(path \<mapsto> plain_file env c))
      \<and> (\<forall>info. r = Inr info \<longrightarrow> files d' = (files d)(path \<mapsto> plain_file env content) \<and> info = he_newfile env content
           \<and> fi_IsRegular info \<and> fi_Size info = int (length content) \<and> fi_Perm info AND 0x3F = 0))"
proof -
  obtain ok d1 where d1: "syscall d = (ok, d1)" "files d1 = files d" by (metis syscall_files surj_pair)
  show ?thesis
  proof (cases "ok \<and> files d path = None")
    case False
    with assms d1 show ?thesis by (auto simp: create_file_def split: if_splits)
  next
    case True
    let ?f = "plain_file env" and ?d1 = "put_file path (plain_file env []) d1"
    obtain wrote d2 where d2: "syscall ?d1 = (wrote, d2)" "files d2 = (files d)(path \<mapsto> ?f [])" by (metis syscall_files surj_pair files_put_file d1(2))
    let ?d2 = "put_file path (?f content) d2"
    obtain synced d3 where d3: "syscall ?d2 = (synced, d3)" "files d3 = (files d)(path \<mapsto> ?f content)"
      using d2(2) by (metis syscall_files surj_pair files_put_file fun_upd_upd)
    obtain closed d4 where d4: "syscall d3 = (closed, d4)" "files d4 = files d3" by (metis syscall_files surj_pair)
    obtain durable d5 where d5: "calls 3 d4 = (durable, d5)" "files d5 = files d3" by (metis calls_files surj_pair d4(2))
    obtain l d6 where d6: "os_Lstat path d5 = (l, d6)" "files d6 = files d3" by (metis os_Lstat_files surj_pair d5(2))
    have info: "i = he_newfile env content" if "l = Inr i" for i
      using os_Lstat_Inr [of path d5 i d6] d6 that d5(2) d3(2) by (auto simp: plain_file_def)
    have failed: ?thesis if "create_fail opened path cause x = (r, d')" "files x = (files d)(path \<mapsto> ?f c)" "c \<in> {[], part, content}" for opened cause x c
      using create_fail_files [OF that(1)] that(2,3) True by (auto simp: fun_upd_idem)
    note run = assms [unfolded create_file_def d1(1)]
    show ?thesis
    proof (cases wrote)
      case False
      with run True d1 d2(1) have "create_fail True path (Wrapf ''write approved file'' EIO) (put_file path (?f part) d2) = (r, d')"
        by (simp add: Let_def)
      with failed [where c = part] d2(2) show ?thesis by simp
    next
      case wr: True
      have "(\<exists>opened cause x. create_fail opened path cause x = (r, d') \<and> files x = files d3)
          \<or> (\<exists>i. l = Inr i \<and> r = Inr i \<and> d' = d6 \<and> fi_IsRegular i \<and> fi_Size i = int (length content) \<and> fi_Perm i AND 0x3F = 0)"
        using run wr True d1 d2(1) d3(1) d4 d5 d6 by (cases l) (auto simp: Let_def split: if_splits)
      with failed [where c = content] d3(2) d6(2) info True show ?thesis by auto
    qed
  qed
qed

subsection \<open>Waiting for a process to exit\<close>

lemma wait_exit_Inr:
  "wait_exit state stop i n = Inr () \<Longrightarrow> \<exists>k. i \<le> k \<and> k \<le> i + n \<and> (state k = Inl ErrNotExist \<or> state k = Inr ''Z'')"
proof (induction n arbitrary: i)
  case 0
  then show ?case by (auto split: sum.splits if_splits)
next
  case (Suc n)
  show ?case
  proof (cases "state i = Inl ErrNotExist \<or> state i = Inr ''Z''")
    case False
    with Suc.prems have "wait_exit state stop (Suc i) n = Inr ()" by (auto split: sum.splits if_splits)
    from Suc.IH [OF this] show ?thesis by (metis Suc_leD add_Suc_right add_Suc)
  qed auto
qed

declare wait_exit.simps [simp del]

subsection \<open>What each handler does to the machine\<close>

lemma FileCreateHandler_effect:
  assumes "FileCreateHandler env part e w = (r, w')"
  shows "m_signals w' = m_signals w \<and> m_commands w' = m_commands w
    \<and> ((files (m_files w') = files (m_files w) \<and> \<not> is_ok r) \<or>
       (\<exists>content. argument_string (ae_Proposal e) ''content'' = Some content \<and> length content \<le> maxCreatedFileBytes
          \<and> ap_Tool (ae_Proposal e) = ''file.create'' \<and> ts_ExpectAbsent (ae_TargetSnapshot e)
          \<and> files (m_files w) (ts_CanonicalPath (ae_TargetSnapshot e)) = None
          \<and> (\<exists>c \<in> {[], part, content}. files (m_files w') = (files (m_files w))(ts_CanonicalPath (ae_TargetSnapshot e) \<mapsto> plain_file env c))
          \<and> (is_ok r \<longrightarrow> files (m_files w') = (files (m_files w))(ts_CanonicalPath (ae_TargetSnapshot e) \<mapsto> plain_file env content)
               \<and> fi_IsRegular (he_newfile env content) \<and> fi_Size (he_newfile env content) = int (length content)
               \<and> fi_Perm (he_newfile env content) AND 0x3F = 0)))"
proof -
  let ?s = "ae_TargetSnapshot e" and ?p = "ae_Proposal e"
  show ?thesis
  proof (cases "ap_Tool ?p = ''file.create'' \<and> ts_Type ?s = ''file'' \<and> ts_ExpectAbsent ?s \<and> ts_CanonicalPath ?s \<noteq> []
      \<and> (\<exists>c. argument_string ?p ''content'' = Some c \<and> length c \<le> maxCreatedFileBytes)")
    case False
    with assms show ?thesis by (auto simp: FileCreateHandler_def Let_def split: if_splits option.splits)
  next
    case True
    then obtain c where c: "argument_string ?p ''content'' = Some c" "length c \<le> maxCreatedFileBytes" by blast
    obtain x d where x: "create_file env part (ts_CanonicalPath ?s) c (m_files w) = (x, d)" by fastforce
    have w': "w' = w\<lparr>m_files := d\<rparr>" "is_ok r = is_ok x"
      using assms True c x by (auto simp: FileCreateHandler_def Let_def split: sum.splits)
    from create_file_effect [OF x] show ?thesis using w' True c by (auto simp: is_ok_iff)
  qed
qed

lemma ProcessTerminateHandler_effect:
  assumes "ProcessTerminateHandler env e w = (r, w')"
  shows "m_files w' = m_files w \<and> m_commands w' = m_commands w
    \<and> ((m_signals w' = m_signals w \<and> \<not> is_ok r) \<or>
       (m_signals w' = (ts_PID (ae_TargetSnapshot e), ''SIGTERM'') # m_signals w \<and> 1 < ts_PID (ae_TargetSnapshot e) \<and> ts_PID (ae_TargetSnapshot e) \<noteq> he_pid env
        \<and> ts_Type (ae_TargetSnapshot e) = ''process''
        \<and> (is_ok r \<longrightarrow> (\<exists>k \<le> he_ticks env. he_state env k = Inl ErrNotExist \<or> he_state env k = Inr ''Z''))))"
proof -
  let ?s = "ae_TargetSnapshot e"
  show ?thesis
  proof (cases "he_linux env \<and> ap_Tool (ae_Proposal e) = ''process.terminate'' \<and> ts_Type ?s = ''process'' \<and> 1 < ts_PID ?s \<and> ts_PID ?s \<noteq> he_pid env")
    case False
    with assms show ?thesis by (auto simp: ProcessTerminateHandler_def Let_def split: if_splits)
  next
    case True
    then have "w' = w\<lparr>m_signals := (ts_PID ?s, ''SIGTERM'') # m_signals w\<rparr>" "is_ok r \<Longrightarrow> wait_exit (he_state env) (he_stop env) 0 (he_ticks env) = Inr ()"
      using assms by (auto simp: ProcessTerminateHandler_def Let_def split: sum.splits)
    with True wait_exit_Inr [of "he_state env" "he_stop env" 0 "he_ticks env"] show ?thesis by auto
  qed
qed

lemma ServiceRestartHandler_effect:
  assumes "ServiceRestartHandler env e w = (r, w')"
  shows "m_files w' = m_files w \<and> m_signals w' = m_signals w
    \<and> ((m_commands w' = m_commands w \<and> \<not> is_ok r) \<or>
       (m_commands w' = [he_systemctl env, ''restart'', ''--'', ts_ServiceName (ae_TargetSnapshot e)] # m_commands w
        \<and> (is_ok r \<longrightarrow> (\<exists>st. he_service env (ts_ServiceName (ae_TargetSnapshot e)) = Inr st \<and> ss_ActiveState st = ''active''))))"
  using assms by (auto simp: ServiceRestartHandler_def Let_def split: if_splits sum.splits)

lemma QuarantineHandler_effect:
  assumes "QuarantineHandler (Some qm) env e w = (r, w')"
  shows "m_signals w' = m_signals w \<and> m_commands w' = m_commands w
    \<and> (\<exists>x. quarantine_action qm env e (m_files w) = (x, m_files w') \<and> is_ok x = is_ok r)"
  using assms by (auto simp: QuarantineHandler_def Let_def split: sum.splits prod.splits)

lemma quarantine_action_keeps:
  assumes "quarantine_action qm env e d = (r, d')" "manager_ok qm" "filed qm (files d)"
  shows "filed qm (files d') \<and> objects qm (files d') = objects qm (files d)"
  using assms Quarantine_keeps [OF _ assms(2,3)] Restore_keeps [OF _ assms(2,3)]
  by (auto simp: quarantine_action_def split: if_splits option.splits)

text \<open>The paths a quarantine action may change.\<close>

definition quarantine_reach :: "QuarantineManager \<Rightarrow> handler_env \<Rightarrow> ActionEnvelope \<Rightarrow> (string \<rightharpoonup> fsobj) \<Rightarrow> string \<Rightarrow> bool" where
  "quarantine_reach qm env e fs k \<longleftrightarrow>
     (ap_Tool (ae_Proposal e) \<in> {''file.quarantine'', ''file.delete''}
       \<and> (\<exists>p. q_EvalSymlinks (he_qenv env) (ts_CanonicalPath (ae_TargetSnapshot e)) = Inr p \<and> quarantine_withinAny p (qm_labRoots qm)
            \<and> k \<in> own_paths qm (new_manifest qm p (he_clock env 2) (ae_TaskID e) (ae_Nonce e) (ae_TargetSnapshot e))))
     \<or> (ap_Tool (ae_Proposal e) = ''file.restore_quarantine''
       \<and> (\<exists>i m y. argument_string (ae_Proposal e) ''quarantine_id'' = Some i \<and> fs (manifestPath qm i) = Some y \<and> o_content y = ManifestFile (Valid m)
            \<and> mf_Status m = Committed \<and> k \<in> own_paths qm m))"

lemma quarantine_action_reach:
  assumes "quarantine_action qm env e d = (r, d')" "manager_ok qm" "filed qm (files d)" "files d' k \<noteq> files d k"
  shows "quarantine_reach qm env e (files d) k"
proof (cases "ap_Tool (ae_Proposal e) \<in> {''file.quarantine'', ''file.delete''}")
  case True
  with assms(1) have "Quarantine qm (he_qenv env) (he_clock env 2) (he_clock env 3) (ae_TaskID e) (ae_Nonce e) (ae_TargetSnapshot e) d = (r, d')"
    by (auto simp: quarantine_action_def)
  from Quarantine_effect [OF this assms(2)] assms(4) obtain p
    where "q_EvalSymlinks (he_qenv env) (ts_CanonicalPath (ae_TargetSnapshot e)) = Inr p" "quarantine_withinAny p (qm_labRoots qm)"
      "k \<in> own_paths qm (new_manifest qm p (he_clock env 2) (ae_TaskID e) (ae_Nonce e) (ae_TargetSnapshot e))"
    unfolding same_except_def by metis
  with True show ?thesis unfolding quarantine_reach_def by blast
next
  case False
  with assms(1,4) obtain i where i: "ap_Tool (ae_Proposal e) = ''file.restore_quarantine''" "argument_string (ae_Proposal e) ''quarantine_id'' = Some i"
    "Restore qm (he_qenv env) (he_clock env 2) i (ae_TargetSnapshot e) d = (r, d')"
    by (auto simp: quarantine_action_def split: if_splits option.splits)
  from Restore_effect [OF i(3) assms(2,3)] assms(4) obtain m y
    where "files d (manifestPath qm i) = Some y" "o_content y = ManifestFile (Valid m)" "mf_Status m = Committed" "k \<in> own_paths qm m"
    unfolding same_except_def by metis
  with i(1,2) show ?thesis unfolding quarantine_reach_def by blast
qed

lemma lab_handler_files:
  assumes "lab_handlers qm env part (ap_Tool (ae_Proposal e)) = Some h" "h e w = (r, w')" "manager_ok qm" "filed qm (files (m_files w))"
  shows "(ap_Tool (ae_Proposal e) \<in> {''file.quarantine'', ''file.restore_quarantine'', ''file.delete''}
      \<and> (\<exists>x. quarantine_action qm env e (m_files w) = (x, m_files w')))
    \<or> (ap_Tool (ae_Proposal e) = ''file.create'' \<and> FileCreateHandler env part e w = (r, w'))
    \<or> files (m_files w') = files (m_files w)"
proof -
  let ?t = "ap_Tool (ae_Proposal e)"
  consider "?t \<in> {''file.quarantine'', ''file.restore_quarantine'', ''file.delete''}" "h = QuarantineHandler (Some qm) env"
    | "?t = ''file.create''" "h = FileCreateHandler env part" | "h = ServiceRestartHandler env" | "h = ProcessTerminateHandler env"
    using assms(1) by (auto simp: lab_handlers_def split: if_splits)
  then show ?thesis
    using assms(2) QuarantineHandler_effect ServiceRestartHandler_effect ProcessTerminateHandler_effect by cases metis+
qed

subsection \<open>Properties\<close>

text \<open>C36: the executor in lab mode changes only what the approved envelope names. When a file changes by an execution, the
  envelope has passed every check with its target in scope and unchanged, and the file is the new file the envelope asks for (which did
  not exist), or the quarantined file under a lab root, its place in the quarantine and its manifest, or the three
  files of the committed manifest being restored.\<close>

theorem executor_changes_only_its_target:
  assumes "Execute v (lab_handlers qm env part) t i j e st = (r, st')"
    and "v_Scope v = Some (Authorize s)" "v_Targets v = Some (Revalidate h pf roots)"
    and "resolves_absolute h0" "resolves_absolute h1" "NewQuarantineManager h0 mk h1 labs q0 = Inr qm"
    and "filed qm (files (m_files (xs_world st)))" "files (m_files (xs_world st')) k \<noteq> files (m_files (xs_world st)) k"
  shows "mediated v t e st st' \<and> scope_bounds s (ae_TargetSnapshot e) \<and> snapshot_current h pf roots (ae_TargetSnapshot e)
    \<and> ((ap_Tool (ae_Proposal e) = ''file.create'' \<and> k = ts_CanonicalPath (ae_TargetSnapshot e) \<and> files (m_files (xs_world st)) k = None)
       \<or> quarantine_reach qm env e (files (m_files (xs_world st))) k)"
  using assms(1)
proof (cases rule: Execute_cases)
  case (ran hd)
  note ok = NewQuarantineManager_ok [OF assms(4-6)]
  from lab_handler_files [OF ran(1,3) ok assms(7)] assms(8)
  have "(ap_Tool (ae_Proposal e) = ''file.create'' \<and> k = ts_CanonicalPath (ae_TargetSnapshot e) \<and> files (m_files (xs_world st)) k = None)
       \<or> quarantine_reach qm env e (files (m_files (xs_world st))) k"
  proof (elim disjE conjE exE)
    assume "FileCreateHandler env part e (xs_world st) = (r, xs_world st')" "ap_Tool (ae_Proposal e) = ''file.create''"
    with FileCreateHandler_effect [OF this(1)] assms(8) show ?thesis by (auto split: if_splits)
  qed (use quarantine_action_reach [OF _ ok assms(7)] assms(8) in auto)
  with ran(4) fixed_gate.mediated_target [OF ran(4) assms(2,3)] show ?thesis by blast
qed (use assms(8) in simp)


text \<open>\<open>file.create\<close> never replaces a file and never leaves more than it was asked for: an existing path is refused and
  untouched; on success exactly the approved content is there, as a regular file of that size without permissions for others, and
  nothing else has changed; on failure the path is as before, or the new file with the beginning of its content is left
  because its removal failed too.\<close>

theorem file_create_outcomes:
  "(case FileCreateHandler env part e w of (r, w') \<Rightarrow>
     m_signals w' = m_signals w \<and> m_commands w' = m_commands w
    \<and> ((files (m_files w') = files (m_files w) \<and> \<not> is_ok r) \<or>
       (\<exists>content. argument_string (ae_Proposal e) ''content'' = Some content \<and> length content \<le> maxCreatedFileBytes
          \<and> files (m_files w) (ts_CanonicalPath (ae_TargetSnapshot e)) = None
          \<and> (if is_ok r then files (m_files w') = (files (m_files w))(ts_CanonicalPath (ae_TargetSnapshot e) \<mapsto> plain_file env content)
               \<and> fi_IsRegular (he_newfile env content) \<and> fi_Size (he_newfile env content) = int (length content)
               \<and> fi_Perm (he_newfile env content) AND 0x3F = 0
             else \<exists>c \<in> {[], part, content}. files (m_files w') = (files (m_files w))(ts_CanonicalPath (ae_TargetSnapshot e) \<mapsto> plain_file env c)))))"
proof -
  obtain r w' where h: "FileCreateHandler env part e w = (r, w')" by fastforce
  with FileCreateHandler_effect [OF h] show ?thesis by (cases "is_ok r") auto
qed

text \<open>\<open>process.terminate\<close> sends at most one signal, a SIGTERM to the process of the snapshot, never to process 1, a process
  group or the executor itself; it reports success only after it has seen the process gone or a zombie at one of its polls.\<close>

theorem terminate_signals_once:
  "(case ProcessTerminateHandler env e w of (r, w') \<Rightarrow>
     m_files w' = m_files w \<and> m_commands w' = m_commands w
    \<and> (if m_signals w' = m_signals w then \<not> is_ok r
       else m_signals w' = (ts_PID (ae_TargetSnapshot e), ''SIGTERM'') # m_signals w \<and> 1 < ts_PID (ae_TargetSnapshot e)
         \<and> ts_PID (ae_TargetSnapshot e) \<noteq> he_pid env
         \<and> (if is_ok r then (\<exists>k. k \<le> he_ticks env \<and> (he_state env k = Inl ErrNotExist \<or> he_state env k = Inr ''Z'')) else True)))"
proof -
  obtain r w' where h: "ProcessTerminateHandler env e w = (r, w')" by fastforce
  with ProcessTerminateHandler_effect [OF h] show ?thesis by (cases "is_ok r") auto
qed

subsection \<open>Witnesses\<close>

definition delete_manager :: QuarantineManager where
  "delete_manager = lab_manager\<lparr>qm_labRoots := [''/srv/lab'']\<rparr>"

definition delete_env :: handler_env where
  "delete_env = \<lparr>he_systemctl = [], he_run = (\<lambda>_. Inl EIO), he_service = (\<lambda>_. Inl EIO), he_linux = False, he_kill = (\<lambda>_. Inl EIO),
     he_state = (\<lambda>_. Inl EIO), he_ticks = 0, he_stop = EIO, he_pid = 7, he_newfile = (\<lambda>_. o_info lab_file), he_qenv = lab_env, he_clock = int\<rparr>"

definition delete_disk :: filesystem where
  "delete_disk = reliable [''/srv/lab/f'' \<mapsto> lab_file]"

definition delete_state :: "machine exec_state" where
  "delete_state = \<lparr>xs_approvals = reliable Map.empty, xs_nonces = demo_nonces, xs_nonce_disk = reliable Map.empty,
     xs_world = \<lparr>m_files = delete_disk, m_signals = [], m_commands = []\<rparr>, xs_log = []\<rparr>"

lemma delete_manager_built: "NewQuarantineManager lab_host (Inr ()) lab_host [''/srv/lab''] ''/q'' = Inr delete_manager"
  by code_simp

lemmas delete_ok = NewQuarantineManager_ok [OF lab_resolves lab_resolves delete_manager_built]

lemma delete_inside: "quarantine_withinAny ''/srv/lab/f'' (qm_labRoots delete_manager)"
  by code_simp

lemma delete_filed: "filed delete_manager (files delete_disk)"
  by (auto simp: filed_def delete_disk_def lab_file_def)

lemma delete_quarantines:
  assumes "task \<noteq> []" "nonce \<noteq> []"
  shows "\<exists>op d'. Quarantine delete_manager lab_env now now' task nonce sample_snapshot delete_disk = (Inr op, d') \<and> files d' ''/srv/lab/f'' = None"
proof -
  let ?m = "new_manifest delete_manager ''/srv/lab/f'' now task nonce sample_snapshot"
  note ap = apart_new_manifest [OF delete_ok delete_inside, of now task nonce sample_snapshot, unfolded apart_def]
  have h: "healthy delete_disk" "ts_Type sample_snapshot = ''file''" "ts_CanonicalPath sample_snapshot \<noteq> []"
    "q_EvalSymlinks lab_env (ts_CanonicalPath sample_snapshot) = Inr ''/srv/lab/f''" "files delete_disk ''/srv/lab/f'' = Some lab_file"
    by (simp_all add: delete_disk_def sample_snapshot_def lab_env_def)
  have i: "identical (o_info lab_file) sample_snapshot"
    by (simp add: identical_def lab_file_def sample_snapshot_def zero_snapshot_def fi_IsRegular_def ModeType_def)
  have v: "files delete_disk (mf_QuarantinedPath ?m) = None" "files delete_disk (manifestPath delete_manager (mf_ID ?m)) = None"
    using ap by (auto simp: delete_disk_def)
  from healthy_Quarantine [OF h(1) delete_ok h(2,3) assms h(4) delete_inside refl h(5) i v, of now'] ap show ?thesis by fastforce
qed

lemma delete_runs:
  "\<exists>r st'. Execute (sample_validator lax_catalog) (lab_handlers delete_manager delete_env []) sample_clock ''i'' ''j'' (sample_envelope lax_catalog) delete_state = (r, st')
     \<and> files (m_files (xs_world st')) ''/srv/lab/f'' = None"
proof -
  let ?e = "sample_envelope lax_catalog" and ?v = "sample_validator lax_catalog" and ?hs = "lab_handlers delete_manager delete_env []"
  note acc = sample_accepts [of lax_catalog 1, simplified]
  obtain ns nd where R: "Reserve ''n1'' 100 2 demo_nonces (reliable Map.empty) = (Inr (), ns, nd)"
    using healthy_Reserve [of "reliable Map.empty" "''n1''" 2 demo_nonces 100] by (auto simp: demo_nonces_def prune_def)
  have tool: "ap_Tool (ae_Proposal ?e) = ''file.delete''" using acc(2) by (simp add: sample_proposal_def)
  have "ae_TaskID ?e \<noteq> []" "ae_Nonce ?e \<noteq> []" using acc(1) by (simp_all add: acceptable_def)
  from delete_quarantines [OF this, of 2 3] obtain op d' where Q: "Quarantine delete_manager lab_env 2 3 (ae_TaskID ?e) (ae_Nonce ?e) sample_snapshot delete_disk = (Inr op, d')"
    "files d' ''/srv/lab/f'' = None" by blast
  obtain r w' where hw: "QuarantineHandler (Some delete_manager) delete_env ?e (xs_world delete_state) = (r, w')" by fastforce
  from QuarantineHandler_effect [OF hw] Q(1) tool acc(3) have w': "m_files w' = d'"
    by (auto simp: quarantine_action_def delete_env_def delete_state_def)
  have "Execute ?v ?hs sample_clock ''i'' ''j'' ?e delete_state
    = (r, delete_state\<lparr>xs_approvals := xs_approvals delete_state, xs_nonces := ns, xs_nonce_disk := nd, xs_world := w', xs_log := ?e # xs_log delete_state\<rparr>)"
  proof (rule Execute_forward)
    show "?hs (ap_Tool (ae_Proposal ?e)) = Some (QuarantineHandler (Some delete_manager) delete_env)" using tool by (simp add: lab_handlers_def)
    show "Reserve (ae_Nonce ?e) (ae_ExpiresAt ?e) (t_reserve sample_clock) (xs_nonces delete_state) (xs_nonce_disk delete_state) = (Inr (), ns, nd)"
      using acc R by (simp add: sample_clock_def delete_state_def)
    show "Authorize (Scope sample_config) ?e = Inr ()" "Revalidate sample_host sample_platform [''/srv/lab''] (ae_TargetSnapshot ?e) = Inr ()"
      using sample_gate [of lax_catalog] acc by simp_all
  qed (use acc hw sample_needs(2) sample_tool in \<open>simp_all add: sample_validator_def sample_clock_def\<close>)
  with w' Q(2) show ?thesis by simp
qed

theorem executor_changes_only_its_target_witness:
  "\<exists>r st'. Execute (sample_validator lax_catalog) (lab_handlers delete_manager delete_env []) sample_clock ''i'' ''j'' (sample_envelope lax_catalog) delete_state = (r, st')
     \<and> mediated (sample_validator lax_catalog) sample_clock (sample_envelope lax_catalog) delete_state st'"
proof -
  obtain r st' where E: "Execute (sample_validator lax_catalog) (lab_handlers delete_manager delete_env []) sample_clock ''i'' ''j'' (sample_envelope lax_catalog) delete_state = (r, st')"
    "files (m_files (xs_world st')) ''/srv/lab/f'' = None" using delete_runs by blast
  have "filed delete_manager (files (m_files (xs_world delete_state)))" "files (m_files (xs_world st')) ''/srv/lab/f'' \<noteq> files (m_files (xs_world delete_state)) ''/srv/lab/f''"
    using delete_filed E(2) by (simp_all add: delete_state_def delete_disk_def)
  from executor_changes_only_its_target [OF E(1) lax_gate(1,2) lab_resolves lab_resolves delete_manager_built this] E(1) show ?thesis by blast
qed


end
