(* ===== verification/Regex.thy ===== *)
theory Regex
  imports GoLib
begin

text \<open>
  The package \<open>regexp\<close> as far as the program uses it: leftmost-first matching without flags other than case folding, which is
  written out in the character classes. Text is decoded into runes; every rune keeps the bytes it was decoded from, so an
  invalid byte, which counts as U+FFFD, can be copied. A match is searched by backtracking: the list of all
  ways to match at a position, in the order of preference. The patterns of the program never match the empty text.
\<close>

subsection \<open>Runes\<close>

type_synonym rune = "int \<times> string"

definition cont :: "char \<Rightarrow> bool" where
  "cont c \<longleftrightarrow> 128 \<le> (of_char c :: int) \<and> (of_char c :: int) < 192"

definition low6 :: "char \<Rightarrow> int" where "low6 c = of_char c - 128"

text \<open>\<open>utf8.DecodeRuneInString\<close> on a non-empty string: the rune and its width in bytes.\<close>

definition decode_rune :: "string \<Rightarrow> int \<times> nat" where
  "decode_rune s =
     (case s of [] \<Rightarrow> (0xFFFD, 0)
      | a # r \<Rightarrow>
        let n = (of_char a :: int) in
        if n < 0x80 then (n, 1)
        else (case r of [] \<Rightarrow> (0xFFFD, 1)
          | b # r2 \<Rightarrow>
            if 0xC2 \<le> n \<and> n < 0xE0 then (if cont b then ((n - 0xC0) * 64 + low6 b, 2) else (0xFFFD, 1))
            else (case r2 of [] \<Rightarrow> (0xFFFD, 1)
              | c # r3 \<Rightarrow>
                let two = (n - 0xE0) * 4096 + low6 b * 64 + low6 c in
                if 0xE0 \<le> n \<and> n < 0xF0 then
                  (if cont b \<and> cont c \<and> 0x800 \<le> two \<and> \<not> (0xD800 \<le> two \<and> two < 0xE000) then (two, 3) else (0xFFFD, 1))
                else (case r3 of [] \<Rightarrow> (0xFFFD, 1)
                  | d # _ \<Rightarrow>
                    let three = (n - 0xF0) * 262144 + low6 b * 4096 + low6 c * 64 + low6 d in
                    if 0xF0 \<le> n \<and> n < 0xF5 \<and> cont b \<and> cont c \<and> cont d \<and> 0x10000 \<le> three \<and> three < 0x110000 then (three, 4) else (0xFFFD, 1)))))"

lemma decode_rune_width: "s \<noteq> [] \<Longrightarrow> 0 < snd (decode_rune s) \<and> snd (decode_rune s) \<le> length s"
  by (auto simp: decode_rune_def Let_def split: list.splits)

function runes :: "string \<Rightarrow> rune list" where
  "runes s = (if s = [] then [] else let n = snd (decode_rune s) in (fst (decode_rune s), take n s) # runes (drop n s))"
  by pat_completeness auto
termination
  by (relation "measure length") (use decode_rune_width in \<open>auto simp: diff_less\<close>)

declare runes.simps [simp del]

definition rune_bytes :: "rune list \<Rightarrow> string" where
  "rune_bytes ts = concat (map snd ts)"

lemma rune_bytes_runes [simp]: "rune_bytes (runes s) = s"
proof (induction s rule: runes.induct)
  case (1 s)
  then show ?case by (subst runes.simps) (auto simp: rune_bytes_def Let_def)
qed

definition valid_rune :: "rune \<Rightarrow> bool" where
  "valid_rune t \<longleftrightarrow> fst t \<noteq> 0xFFFD \<or> length (snd t) = 3"

text \<open>\<open>utf8.ValidString\<close>: an invalid byte is decoded as U+FFFD with width 1, the character U+FFFD itself has width 3.\<close>

definition ValidString :: "string \<Rightarrow> bool" where
  "ValidString s \<longleftrightarrow> list_all valid_rune (runes s)"

subsection \<open>Patterns\<close>

datatype regex =
    Eps
  | Class bool "(int \<times> int) list"   \<comment> \<open>one rune inside (\<open>True\<close>) or outside (\<open>False\<close>) of the ranges\<close>
  | Seq regex regex
  | Alt regex regex
  | Many regex                            \<comment> \<open>\<open>r*\<close>, greedy, for \<open>r\<close> that consumes at least one rune\<close>
  | Group regex                           \<comment> \<open>the capturing group\<close>
  | Begin                                 \<comment> \<open>\<open>^\<close>\<close>
  | End                                   \<comment> \<open>\<open>$\<close>\<close>
  | Boundary                              \<comment> \<open>\<open>\b\<close>\<close>

definition lit :: "int list \<Rightarrow> regex" where
  "lit ns = foldr (\<lambda>n r. Seq (Class True [(n, n)]) r) ns Eps"

text \<open>ASCII text, and ASCII text under \<open>(?i)\<close>: Go also folds the Kelvin sign and the long s.\<close>

definition asc :: "string \<Rightarrow> regex" where
  "asc s = lit (map of_char s)"

definition fold_class :: "int \<Rightarrow> (int \<times> int) list" where
  "fold_class n =
     (if 97 \<le> n \<and> n \<le> 122 then [(n, n), (n - 32, n - 32)] @ (if n = 107 then [(0x212A, 0x212A)] else if n = 115 then [(0x17F, 0x17F)] else [])
      else [(n, n)])"

definition ci :: "string \<Rightarrow> regex" where
  "ci s = foldr (\<lambda>c r. Seq (Class True (fold_class (of_char c))) r) s Eps"

definition opt :: "regex \<Rightarrow> regex" where "opt r = Alt r Eps"

definition many1 :: "regex \<Rightarrow> regex" where "many1 r = Seq r (Many r)"

fun upto_times :: "nat \<Rightarrow> regex \<Rightarrow> regex" where
  "upto_times 0 r = Eps"
| "upto_times (Suc n) r = opt (Seq r (upto_times n r))"

fun times :: "nat \<Rightarrow> regex \<Rightarrow> regex" where
  "times 0 r = Eps"
| "times (Suc n) r = Seq r (times n r)"

definition alts :: "regex list \<Rightarrow> regex" where
  "alts rs = (case rs of [] \<Rightarrow> Class True [] | r # rs \<Rightarrow> fold (\<lambda>x a. Alt a x) rs r)"

definition seqs :: "regex list \<Rightarrow> regex" where
  "seqs rs = foldr Seq rs Eps"

text \<open>The classes \<open>\s\<close>, \<open>\S\<close> and \<open>.\<close>.\<close>

definition white :: regex where "white = Class True [(0x09, 0x0A), (0x0C, 0x0D), (0x20, 0x20)]"
definition nonwhite :: regex where "nonwhite = Class False [(0x09, 0x0A), (0x0C, 0x0D), (0x20, 0x20)]"
definition any_rune :: regex where "any_rune = Class False [(0x0A, 0x0A)]"

subsection \<open>Matching\<close>

text \<open>A position: the runes before it (the last one first), the runes after it, the text of the group.\<close>

record pos =
  p_before :: "rune list"
  p_after :: "rune list"
  p_group :: string

definition in_ranges :: "int \<Rightarrow> (int \<times> int) list \<Rightarrow> bool" where
  "in_ranges n rs \<longleftrightarrow> list_ex (\<lambda>(a, b). a \<le> n \<and> n \<le> b) rs"

definition word_rune :: "int \<Rightarrow> bool" where
  "word_rune n \<longleftrightarrow> in_ranges n [(48, 57), (65, 90), (95, 95), (97, 122)]"

definition at_boundary :: "pos \<Rightarrow> bool" where
  "at_boundary p \<longleftrightarrow> (p_before p \<noteq> [] \<and> word_rune (fst (hd (p_before p)))) \<noteq> (p_after p \<noteq> [] \<and> word_rune (fst (hd (p_after p))))"

definition between :: "pos \<Rightarrow> pos \<Rightarrow> string" where
  "between p q = rune_bytes (take (length (p_after p) - length (p_after q)) (p_after p))"

function (sequential) matches :: "regex \<Rightarrow> pos \<Rightarrow> pos list" where
  "matches Eps p = [p]"
| "matches (Class neg rs) p =
     (case p_after p of [] \<Rightarrow> []
      | t # ts \<Rightarrow> if in_ranges (fst t) rs = neg then [p\<lparr>p_before := t # p_before p, p_after := ts\<rparr>] else [])"
| "matches (Seq r s) p = concat (map (matches s) (matches r p))"
| "matches (Alt r s) p = matches r p @ matches s p"
| "matches (Many r) p = concat (map (matches (Many r)) (filter (\<lambda>q. length (p_after q) < length (p_after p)) (matches r p))) @ [p]"
| "matches (Group r) p = map (\<lambda>q. q\<lparr>p_group := between p q\<rparr>) (matches r p)"
| "matches Begin p = (if p_before p = [] then [p] else [])"
| "matches End p = (if p_after p = [] then [p] else [])"
| "matches Boundary p = (if at_boundary p then [p] else [])"
  by pat_completeness auto
termination
  by (relation "measures [\<lambda>(r, p). size r, \<lambda>(r, p). length (p_after p)]") auto

text \<open>The leftmost match from a position on: where it starts and where it ends.\<close>

fun find_from :: "regex \<Rightarrow> rune list \<Rightarrow> rune list \<Rightarrow> (rune list \<times> rune list \<times> pos) option" where
  "find_from r lhs [] = (case matches r \<lparr>p_before = lhs, p_after = [], p_group = []\<rparr> of [] \<Rightarrow> None | q # _ \<Rightarrow> Some (lhs, [], q))"
| "find_from r lhs (t # ts) =
     (case matches r \<lparr>p_before = lhs, p_after = t # ts, p_group = []\<rparr> of q # _ \<Rightarrow> Some (lhs, t # ts, q)
      | [] \<Rightarrow> find_from r (t # lhs) ts)"

definition MatchString :: "regex \<Rightarrow> string \<Rightarrow> bool" where
  "MatchString r s \<longleftrightarrow> find_from r [] (runes s) \<noteq> None"

lemma find_from_after: "find_from r b ts = Some (b', ts', q) \<Longrightarrow> length ts' \<le> length ts"
  by (induction r b ts rule: find_from.induct) (auto split: list.splits)

text \<open>All matches from left to right: the text before the match, the match with its group, and so on. A pattern that does not consume ends the search.\<close>

function find_all :: "regex \<Rightarrow> rune list \<Rightarrow> rune list \<Rightarrow> (string \<times> pos \<times> pos) list" where
  "find_all r lhs ts =
     (case find_from r lhs ts of None \<Rightarrow> []
      | Some (b, a, q) \<Rightarrow>
        if length (p_after q) < length a
        then (rune_bytes (take (length ts - length a) ts), \<lparr>p_before = b, p_after = a, p_group = []\<rparr>, q) # find_all r (p_before q) (p_after q)
        else [])"
  by pat_completeness auto
termination
  by (relation "measure (\<lambda>(r, b, ts). length ts)") (auto dest: find_from_after)

declare find_all.simps [simp del]

text \<open>\<open>FindAllStringSubmatch\<close>: the groups of all matches. \<open>FindAllStringIndex\<close>: where the matches begin and end.\<close>

definition all_groups :: "regex \<Rightarrow> string \<Rightarrow> string list" where
  "all_groups r s = map (\<lambda>(_, _, q). p_group q) (find_all r [] (runes s))"

definition FindAllStringIndex :: "regex \<Rightarrow> string \<Rightarrow> (nat \<times> nat) list" where
  "FindAllStringIndex r s = map (\<lambda>(_, p, q). (length s - length (rune_bytes (p_after p)), length s - length (rune_bytes (p_after q)))) (find_all r [] (runes s))"

text \<open>\<open>ReplaceAllString\<close>; the replacement gets the group.\<close>

definition ReplaceAll :: "regex \<Rightarrow> (string \<Rightarrow> string) \<Rightarrow> string \<Rightarrow> string" where
  "ReplaceAll r f s =
     (let ms = find_all r [] (runes s);
          rest = (case ms of [] \<Rightarrow> s | _ \<Rightarrow> rune_bytes (p_after (snd (snd (last ms)))))
      in concat (map (\<lambda>(pre, _, q). pre @ f (p_group q)) ms) @ rest)"

subsection \<open>strings.Contains, Index, LastIndex, TrimRight\<close>

text \<open>The positions of a text in another, shifted by \<open>i\<close>.\<close>

fun occurs_from :: "nat \<Rightarrow> string \<Rightarrow> string \<Rightarrow> nat list" where
  "occurs_from i sub [] = (if sub = [] then [i] else [])"
| "occurs_from i sub (c # cs) = (if prefix sub (c # cs) then [i] else []) @ occurs_from (Suc i) sub cs"

definition occurs :: "string \<Rightarrow> string \<Rightarrow> nat list" where
  "occurs = occurs_from 0"

definition Contains :: "string \<Rightarrow> string \<Rightarrow> bool" where
  "Contains s sub \<longleftrightarrow> occurs sub s \<noteq> []"

definition Index :: "string \<Rightarrow> string \<Rightarrow> nat option" where
  "Index s sub = (case occurs sub s of [] \<Rightarrow> None | i # _ \<Rightarrow> Some i)"

definition LastIndex :: "string \<Rightarrow> string \<Rightarrow> nat option" where
  "LastIndex s sub = (case occurs sub s of [] \<Rightarrow> None | is \<Rightarrow> Some (last is))"

text \<open>A set of characters is the list of their encodings.\<close>

definition LastIndexAny :: "string \<Rightarrow> string list \<Rightarrow> nat option" where
  "LastIndexAny s chars = (case filter (\<lambda>i. list_ex (\<lambda>c. prefix c (drop i s)) chars) [0..<length s] of [] \<Rightarrow> None | is \<Rightarrow> Some (last is))"

function TrimRight :: "string list \<Rightarrow> string \<Rightarrow> string" where
  "TrimRight chars s =
     (case find (\<lambda>c. c \<noteq> [] \<and> suffix c s) chars of None \<Rightarrow> s | Some c \<Rightarrow> TrimRight chars (take (length s - length c) s))"
  by pat_completeness auto
termination
proof (relation "measure (\<lambda>(chars, s). length s)")
  fix chars and s c :: string
  assume "find (\<lambda>c. c \<noteq> [] \<and> suffix c s) chars = Some c"
  then have "c \<noteq> [] \<and> suffix c s" by (metis (mono_tags, lifting) find_Some_iff)
  then show "((chars, take (length s - length c) s), chars, s) \<in> measure (\<lambda>(chars, s). length s)"
    by (auto simp: suffix_def)
qed simp

declare TrimRight.simps [simp del]

definition ascii :: "string \<Rightarrow> string list" where "ascii s = map (\<lambda>c. [c]) s"

end
