(* ===== verification/Planner.thy ===== *)
theory Planner
  imports Json
begin

text \<open>
  \<open>internal/llm/provider.go\<close>: what the agent tells the planner and what the planner may answer. The planner itself, a language model behind an
  HTTP interface, is an argument of everything that asks it. A \<open>json.RawMessage\<close> is its text.
\<close>

datatype DecisionKind = DecisionTool | DecisionActionRequest | DecisionFinal | DecisionReplan | OtherKind string

record ToolCapability =
  tc_ServerID :: string
  tc_Name :: string
  tc_Description :: string
  tc_InputSchema :: string

record ManagedActionCapability =
  ma_Name :: string
  ma_Description :: string
  ma_TargetType :: string
  ma_InputSchema :: string
  ma_ApprovalRequired :: bool
  ma_Reversible :: bool
  ma_RollbackStrategy :: string
  ma_RequiresEvidence :: bool
  ma_ExecutionBoundary :: string

record ActionTarget =
  at_Type :: string
  at_ID :: string
  at_Criticality :: string

record Observation =
  pv_Tool :: string
  pv_Arguments :: string
  pv_Result :: string
  pv_EvidenceRef :: string

record SessionMessage =
  sm_Role :: string
  sm_Content :: string

record SessionContext =
  sc_Summary :: string
  sc_RecentMessages :: "SessionMessage list"
  sc_SelectedResources :: "string list"

record ReadScope =
  rd_ResourceType :: string
  rd_AuthorizedPaths :: "string list"
  rd_ExcludedPaths :: "string list"
  rd_Source :: string

record GuardFeedback =
  fb_Code :: string
  fb_Summary :: string
  fb_Tool :: string
  fb_AttemptedPath :: string
  fb_AuthorizedPaths :: "string list"
  fb_ExcludedPaths :: "string list"

record DecisionRequest =
  dr_Objective :: string
  dr_OriginalRequest :: string
  dr_FinalOnly :: bool
  dr_SessionContext :: "SessionContext option"
  dr_Tools :: "ToolCapability list"
  dr_ManagedActions :: "ManagedActionCapability list"
  dr_LocalReadScope :: "ReadScope option"
  dr_GuardFeedback :: "GuardFeedback list"
  dr_Observations :: "Observation list"
  dr_Iteration :: int
  dr_ToolCalls :: int

record Decision =
  de_Kind :: DecisionKind
  de_DecisionSummary :: string
  de_ServerID :: string
  de_Tool :: string
  de_Arguments :: "go_map option"
  de_Target :: ActionTarget
  de_ExpectedObservation :: string
  de_FinalAnswer :: string

definition kind_text :: "DecisionKind \<Rightarrow> string" where
  "kind_text k = (case k of DecisionTool \<Rightarrow> ''tool'' | DecisionActionRequest \<Rightarrow> ''action_request'' | DecisionFinal \<Rightarrow> ''final''
     | DecisionReplan \<Rightarrow> ''replan'' | OtherKind x \<Rightarrow> x)"

definition json_action_target :: "ActionTarget \<Rightarrow> json" where
  "json_action_target t = JObj ([(''type'', JStr (at_Type t)), (''id'', JStr (at_ID t))] @ omit_str ''criticality'' (at_Criticality t))"

end
