(* ===== verification/Storage.thy ===== *)
theory Storage
  imports GoPath
begin

text \<open>
  \<open>internal/storage/file.go\<close> with the types of \<open>internal/task\<close> and \<open>internal/session\<close>: tasks and sessions as JSON
  documents, the worker lease of a task with its fencing counter, and the journal that makes the creation of a task and
  the update of its session one operation. Documents are kept decoded; a file name is relative to the root of the
  store. The exclusive lock makes the operations of all processes sequential, so an operation is a function on
  the disk. \<open>ctx.Err()\<close>, opening the lock file and \<open>flock\<close> are calls of the schedule; waiting for the lock is
  not modelled. Clock readings and directory listings are arguments. A \<open>json.RawMessage\<close> is its text.
\<close>

subsection \<open>Tasks and sessions\<close>

datatype State = New | Investigating | Planning | Executing | WaitingApproval | Verifying | Replanning | Completed | Failed | Cancelled | OtherState string

record Step =
  st_ID :: string
  st_Description :: string
  st_Tool :: string
  st_State :: string

record RuntimeObservation =
  ob_ServerID :: string
  ob_Tool :: string
  ob_Arguments :: string
  ob_Result :: string
  ob_EvidenceRef :: string
  ob_Digest :: string

record RuntimeGuardFeedback =
  gf_Code :: string
  gf_Summary :: string
  gf_Tool :: string
  gf_AttemptedPath :: string
  gf_AuthorizedPaths :: "string list"
  gf_ExcludedPaths :: "string list"

record RuntimeCheckpoint =
  rc_Iterations :: int
  rc_ToolCalls :: int
  rc_Replans :: int
  rc_NoProgressRepeats :: int
  rc_LastProgressDigest :: string
  rc_MaxIterations :: int
  rc_MaxToolCalls :: int
  rc_StartedAt :: timestamp
  rc_DeadlineAt :: timestamp
  rc_Observations :: "RuntimeObservation list"
  rc_GuardFeedback :: "RuntimeGuardFeedback list"

record WorkerLease =
  wl_Owner :: string
  wl_Token :: string
  wl_Fence :: uint64
  wl_ExpiresAt :: timestamp

record Task =
  t_ID :: string
  t_SessionID :: string
  t_Objective :: string
  t_OriginalRequest :: string
  t_State :: State
  t_IntentType :: string
  t_Plan :: "Step list"
  t_CurrentStep :: int
  t_CompletedSteps :: "string list"
  t_Findings :: "string list"
  t_SelectedResources :: "string list"
  t_EvidenceRefs :: "string list"
  t_PendingAction :: string
  t_PendingApprovalID :: string
  t_VerificationGoal :: string
  t_WorkflowData :: "(string \<times> string) list"
  t_Runtime :: RuntimeCheckpoint
  t_WorkerLease :: WorkerLease
  t_Checkpoint :: int
  t_FailureReason :: string
  t_CreatedAt :: timestamp
  t_UpdatedAt :: timestamp

definition Transition :: "State \<Rightarrow> timestamp \<Rightarrow> Task \<Rightarrow> Task" where
  "Transition s now t = t\<lparr>t_State := s, t_Checkpoint := t_Checkpoint t + 1, t_UpdatedAt := now\<rparr>"

datatype MessageRole = RoleUser | RoleAssistant | RoleSystem | OtherRole string

record Message =
  ms_ID :: string
  ms_Role :: MessageRole
  ms_Content :: string
  ms_TaskID :: string
  ms_CreatedAt :: timestamp

record Session =
  se_ID :: string
  se_Name :: string
  se_Archived :: bool
  se_Messages :: "Message list"
  se_Summary :: string
  se_PinnedContext :: "(string \<times> string) list"
  se_SelectedResources :: "string list"
  se_CreatedAt :: timestamp
  se_UpdatedAt :: timestamp

record taskPreparation =
  tp_SchemaVersion :: int
  tp_Task :: Task
  tp_Session :: Session

subsection \<open>Files\<close>

datatype store_doc = TaskDoc Task | SessionDoc Session | PreparationDoc taskPreparation

type_synonym store = "store_doc doc disk"

definition store_path :: "string \<Rightarrow> string \<Rightarrow> string" where
  "store_path kind i = kind @ ''/'' @ i @ ''.json''"

definition validateID :: "string \<Rightarrow> unit result" where
  "validateID i =
     (if i = [] \<or> CHR ''/'' \<in> set i \<or> CHR 0x5C \<in> set i \<or> i = ''.'' \<or> i = ''..''
      then Inl (ErrorNew ''invalid id %q'') else Inr ())"

text \<open>\<open>ctx.Err()\<close>, marshal, create, chmod, write, sync and close the temporary file; rename; open, sync and close the directory.\<close>

definition saveLocked :: "string \<Rightarrow> string \<Rightarrow> store_doc \<Rightarrow> store \<Rightarrow> unit result \<times> store" where
  "saveLocked kind i v = atomic_replace 7 3 (store_path kind i) (Valid v)"

interpretation store_file: document_store "\<lambda>(kind, i, v). saveLocked kind i v" "\<lambda>(kind, i, v). store_path kind i" "\<lambda>(kind, i, v). Valid v"
  using document_store_atomic [of 7 3 "\<lambda>(kind, i, v). store_path kind i" "\<lambda>(kind, i, v). Valid v"]
  by (simp add: saveLocked_def split_def)

text \<open>\<open>loadLocked\<close> and the same steps in \<open>get\<close>; \<open>pick\<close> is \<open>json.Unmarshal\<close> into the type the caller asks for.\<close>

definition loadLocked :: "(store_doc \<Rightarrow> 'a option) \<Rightarrow> string \<Rightarrow> string \<Rightarrow> store \<Rightarrow> 'a result \<times> store" where
  "loadLocked pick kind i d =
     (case read_file (store_path kind i) d of
        (Inl e, d) \<Rightarrow> (Inl (if e = ErrNotExist then ErrNotFound else e), d)
      | (Inr Corrupt, d) \<Rightarrow> (Inl EIO, d)
      | (Inr (Valid v), d) \<Rightarrow> (case pick v of None \<Rightarrow> (Inl EIO, d) | Some x \<Rightarrow> (Inr x, d)))"

fun pick_task :: "store_doc \<Rightarrow> Task option" where
  "pick_task (TaskDoc t) = Some t" | "pick_task _ = None"

fun pick_session :: "store_doc \<Rightarrow> Session option" where
  "pick_session (SessionDoc s) = Some s" | "pick_session _ = None"

fun pick_preparation :: "store_doc \<Rightarrow> taskPreparation option" where
  "pick_preparation (PreparationDoc p) = Some p" | "pick_preparation _ = None"

abbreviation loadTask :: "string \<Rightarrow> store \<Rightarrow> Task result \<times> store" where
  "loadTask \<equiv> loadLocked pick_task ''tasks''"

abbreviation loadSession :: "string \<Rightarrow> store \<Rightarrow> Session result \<times> store" where
  "loadSession \<equiv> loadLocked pick_session ''sessions''"

definition preparationID :: "string \<Rightarrow> string" where
  "preparationID i = ''prepare-'' @ i"

definition removePreparationLocked :: "string \<Rightarrow> store \<Rightarrow> unit result \<times> store" where
  "removePreparationLocked i = remove_file 3 (store_path ''state'' (preparationID i))"

definition withExclusive :: "(store \<Rightarrow> 'a result \<times> store) \<Rightarrow> store \<Rightarrow> 'a result \<times> store" where
  "withExclusive operation d = (case calls 3 d of (ok, d) \<Rightarrow> if ok then operation d else (Inl EIO, d))"

subsection \<open>Sessions\<close>

definition SaveSession :: "Session \<Rightarrow> store \<Rightarrow> unit result \<times> store" where
  "SaveSession s d =
     (case validateID (se_ID s) of Inl e \<Rightarrow> (Inl e, d)
      | Inr _ \<Rightarrow> withExclusive (saveLocked ''sessions'' (se_ID s) (SessionDoc s)) d)"

text \<open>The session mutation is an argument of the operation; \<open>None\<close> is the nil function.\<close>

definition UpdateSession :: "string \<Rightarrow> (Session \<Rightarrow> Session result) option \<Rightarrow> store \<Rightarrow> Session result \<times> store" where
  "UpdateSession i mutate d =
     (case validateID i of Inl e \<Rightarrow> (Inl e, d)
      | Inr _ \<Rightarrow> (case mutate of None \<Rightarrow> (Inl (ErrorNew ''session mutation is required''), d)
        | Some f \<Rightarrow> withExclusive (\<lambda>d.
            case loadSession i d of (Inl e, d) \<Rightarrow> (Inl e, d)
            | (Inr s, d) \<Rightarrow> (case f s of Inl e \<Rightarrow> (Inl e, d)
              | Inr s' \<Rightarrow>
                if se_ID s' \<noteq> i then (Inl (ErrorNew ''session mutation changed the session id''), d)
                else (case saveLocked ''sessions'' i (SessionDoc s') d of (Inl e, d) \<Rightarrow> (Inl e, d) | (Inr _, d) \<Rightarrow> (Inr s', d)))) d))"

text \<open>\<open>get\<close>: \<open>ctx.Err()\<close>, then the checks and the read.\<close>

definition get_doc :: "(store_doc \<Rightarrow> 'a option) \<Rightarrow> string \<Rightarrow> string \<Rightarrow> store \<Rightarrow> 'a result \<times> store" where
  "get_doc pick kind i d =
     (case syscall d of (ok, d) \<Rightarrow>
        if \<not> ok then (Inl EIO, d)
        else (case validateID i of Inl e \<Rightarrow> (Inl e, d) | Inr _ \<Rightarrow> loadLocked pick kind i d))"

definition GetSession :: "string \<Rightarrow> store \<Rightarrow> Session result \<times> store" where
  "GetSession = get_doc pick_session ''sessions''"

definition GetTask :: "string \<Rightarrow> store \<Rightarrow> Task result \<times> store" where
  "GetTask = get_doc pick_task ''tasks''"

text \<open>The loop of \<open>list\<close> over the directory entries (name, is it a directory): \<open>ctx.Err()\<close>, read, decode.\<close>

fun list_docs :: "(store_doc \<Rightarrow> 'a option) \<Rightarrow> string \<Rightarrow> (string \<times> bool) list \<Rightarrow> store \<Rightarrow> 'a list result \<times> store" where
  "list_docs pick kind [] d = (Inr [], d)"
| "list_docs pick kind ((name, isDir) # es) d =
     (if isDir \<or> Ext name \<noteq> ''.json'' then list_docs pick kind es d
      else case syscall d of (ok, d) \<Rightarrow>
        if \<not> ok then (Inl EIO, d)
        else (case read_file (kind @ ''/'' @ name) d of
            (Inl e, d) \<Rightarrow> (Inl e, d)
          | (Inr Corrupt, d) \<Rightarrow> (Inl (Wrapf ''decode %s'' EIO), d)
          | (Inr (Valid v), d) \<Rightarrow> (case pick v of None \<Rightarrow> (Inl (Wrapf ''decode %s'' EIO), d)
              | Some x \<Rightarrow> (case list_docs pick kind es d of (Inl e, d) \<Rightarrow> (Inl e, d) | (Inr xs, d) \<Rightarrow> (Inr (x # xs), d)))))"

definition list_kind :: "(store_doc \<Rightarrow> 'a option) \<Rightarrow> ('a \<Rightarrow> timestamp) \<Rightarrow> string \<Rightarrow> (string \<times> bool) list \<Rightarrow> store \<Rightarrow> 'a list result \<times> store" where
  "list_kind pick updated kind entries d =
     (case calls 2 d of (ok, d) \<Rightarrow>
        if \<not> ok then (Inl EIO, d)
        else (case list_docs pick kind entries d of (Inl e, d) \<Rightarrow> (Inl e, d)
          | (Inr xs, d) \<Rightarrow> (Inr (sort_key (\<lambda>x. - updated x) xs), d)))"

definition ListSessions :: "(string \<times> bool) list \<Rightarrow> store \<Rightarrow> Session list result \<times> store" where
  "ListSessions = list_kind pick_session se_UpdatedAt ''sessions''"

definition ListTasks :: "(string \<times> bool) list \<Rightarrow> store \<Rightarrow> Task list result \<times> store" where
  "ListTasks = list_kind pick_task t_UpdatedAt ''tasks''"

subsection \<open>Tasks\<close>

text \<open>The three writes and the removal of the journal in \<open>PrepareTask\<close>.\<close>

definition commit_preparation :: "Task \<Rightarrow> Session \<Rightarrow> store \<Rightarrow> unit result \<times> store" where
  "commit_preparation value prepared d =
     (case saveLocked ''state'' (preparationID (t_ID value)) (PreparationDoc \<lparr>tp_SchemaVersion = 1, tp_Task = value, tp_Session = prepared\<rparr>) d of
        (Inl e, d) \<Rightarrow> (Inl e, d)
      | (Inr _, d) \<Rightarrow> (case saveLocked ''tasks'' (t_ID value) (TaskDoc value) d of (Inl e, d) \<Rightarrow> (Inl e, d)
        | (Inr _, d) \<Rightarrow> (case saveLocked ''sessions'' (se_ID prepared) (SessionDoc prepared) d of (Inl e, d) \<Rightarrow> (Inl e, d)
          | (Inr _, d) \<Rightarrow> removePreparationLocked (t_ID value) d)))"

definition PrepareTask :: "Task \<Rightarrow> (Session \<Rightarrow> Session result) option \<Rightarrow> store \<Rightarrow> Session result \<times> store" where
  "PrepareTask value mutate d =
     (case validateID (t_ID value) of Inl e \<Rightarrow> (Inl e, d)
      | Inr _ \<Rightarrow> (case validateID (t_SessionID value) of Inl e \<Rightarrow> (Inl e, d)
        | Inr _ \<Rightarrow> (case mutate of None \<Rightarrow> (Inl (ErrorNew ''session mutation is required''), d)
          | Some f \<Rightarrow> withExclusive (\<lambda>d.
              case loadTask (t_ID value) d of
                (Inr _, d) \<Rightarrow> (Inl (ErrorNew ''task already exists''), d)
              | (Inl e, d) \<Rightarrow>
                if e \<noteq> ErrNotFound then (Inl e, d)
                else (case loadSession (t_SessionID value) d of (Inl e, d) \<Rightarrow> (Inl e, d)
                  | (Inr s, d) \<Rightarrow> (case f s of Inl e \<Rightarrow> (Inl e, d)
                    | Inr prepared \<Rightarrow>
                      if se_ID prepared \<noteq> t_SessionID value then (Inl (ErrorNew ''session mutation changed the session id''), d)
                      else if length (filter (\<lambda>m. ms_TaskID m = t_ID value) (se_Messages prepared)) \<noteq> 1
                        then (Inl (ErrorNew ''prepared session must contain exactly one message bound to the task''), d)
                      else (case commit_preparation value prepared d of (Inl e, d) \<Rightarrow> (Inl e, d) | (Inr _, d) \<Rightarrow> (Inr prepared, d))))) d)))"

definition validateTaskWrite :: "timestamp \<Rightarrow> Task \<Rightarrow> Task \<Rightarrow> unit result" where
  "validateTaskWrite now current next =
     (let lease = t_WorkerLease current; l' = t_WorkerLease next in
      if wl_Token lease = [] then
        (if wl_Token l' \<noteq> [] \<or> wl_Fence l' < wl_Fence lease then Inl ErrLeaseConflict else Inr ())
      else if wl_Token l' \<noteq> wl_Token lease \<or> wl_Fence l' \<noteq> wl_Fence lease then Inl ErrLeaseConflict
      else if \<not> now < wl_ExpiresAt lease then Inl ErrLeaseExpired
      else Inr ())"

definition SaveTask :: "timestamp \<Rightarrow> Task \<Rightarrow> store \<Rightarrow> unit result \<times> store" where
  "SaveTask now value d =
     (case validateID (t_ID value) of Inl e \<Rightarrow> (Inl e, d)
      | Inr _ \<Rightarrow> withExclusive (\<lambda>d.
          case loadTask (t_ID value) d of
            (Inl e, d) \<Rightarrow> if e \<noteq> ErrNotFound then (Inl e, d) else saveLocked ''tasks'' (t_ID value) (TaskDoc value) d
          | (Inr current, d) \<Rightarrow> (case validateTaskWrite now current value of Inl e \<Rightarrow> (Inl e, d)
              | Inr _ \<Rightarrow> saveLocked ''tasks'' (t_ID value) (TaskDoc value) d)) d)"

definition claimed :: "string \<Rightarrow> string \<Rightarrow> duration \<Rightarrow> timestamp \<Rightarrow> Task \<Rightarrow> Task" where
  "claimed owner token ttl now t = t\<lparr>t_WorkerLease := \<lparr>wl_Owner = TrimSpace owner, wl_Token = TrimSpace token,
     wl_Fence = wl_Fence (t_WorkerLease t) + 1, wl_ExpiresAt = now + ttl\<rparr>\<rparr>"

definition ClaimTask :: "timestamp \<Rightarrow> string \<Rightarrow> string \<Rightarrow> string \<Rightarrow> duration \<Rightarrow> store \<Rightarrow> Task result \<times> store" where
  "ClaimTask now i owner token ttl d =
     (case validateID i of Inl e \<Rightarrow> (Inl e, d)
      | Inr _ \<Rightarrow>
        if TrimSpace owner = [] \<or> TrimSpace token = [] then (Inl (ErrorNew ''worker owner and token are required''), d)
        else if ttl \<le> 0 \<or> ttl > 10 * minute then (Inl (ErrorNew ''worker lease TTL must be within (0, 10m]''), d)
        else withExclusive (\<lambda>d.
          case loadTask i d of (Inl e, d) \<Rightarrow> (Inl e, d)
          | (Inr t, d) \<Rightarrow>
            if wl_Token (t_WorkerLease t) \<noteq> [] \<and> now < wl_ExpiresAt (t_WorkerLease t) then (Inl ErrTaskLeased, d)
            else let t' = claimed owner token ttl now t in
              (case saveLocked ''tasks'' i (TaskDoc t') d of (Inl e, d) \<Rightarrow> (Inl e, d) | (Inr _, d) \<Rightarrow> (Inr t', d))) d)"

definition released :: "Task \<Rightarrow> Task" where
  "released t = t\<lparr>t_WorkerLease := (t_WorkerLease t)\<lparr>wl_Owner := [], wl_Token := [], wl_ExpiresAt := 0\<rparr>\<rparr>"

definition ReleaseTask :: "string \<Rightarrow> string \<Rightarrow> uint64 \<Rightarrow> store \<Rightarrow> Task result \<times> store" where
  "ReleaseTask i token fence d =
     (case validateID i of Inl e \<Rightarrow> (Inl e, d)
      | Inr _ \<Rightarrow> withExclusive (\<lambda>d.
          case loadTask i d of (Inl e, d) \<Rightarrow> (Inl e, d)
          | (Inr t, d) \<Rightarrow>
            if wl_Token (t_WorkerLease t) \<noteq> token \<or> wl_Fence (t_WorkerLease t) \<noteq> fence then (Inl ErrLeaseConflict, d)
            else let t' = released t in
              (case saveLocked ''tasks'' i (TaskDoc t') d of (Inl e, d) \<Rightarrow> (Inl e, d) | (Inr _, d) \<Rightarrow> (Inr t', d))) d)"

subsection \<open>Starting the store\<close>

definition bad_journal :: "taskPreparation \<Rightarrow> bool" where
  "bad_journal p \<longleftrightarrow> tp_SchemaVersion p \<noteq> 1 \<or> \<not> is_ok (validateID (t_ID (tp_Task p))) \<or> \<not> is_ok (validateID (se_ID (tp_Session p)))
     \<or> t_SessionID (tp_Task p) \<noteq> se_ID (tp_Session p)"

fun replay_journals :: "(string \<times> bool) list \<Rightarrow> store \<Rightarrow> unit result \<times> store" where
  "replay_journals [] d = (Inr (), d)"
| "replay_journals ((name, isDir) # es) d =
     (if isDir \<or> \<not> prefix ''prepare-'' name \<or> Ext name \<noteq> ''.json'' then replay_journals es d
      else (case loadLocked pick_preparation ''state'' (TrimSuffix name ''.json'') d of (Inl e, d) \<Rightarrow> (Inl e, d)
        | (Inr p, d) \<Rightarrow>
          if bad_journal p then (Inl (ErrorNew ''invalid task preparation journal %s''), d)
          else (case saveLocked ''tasks'' (t_ID (tp_Task p)) (TaskDoc (tp_Task p)) d of (Inl e, d) \<Rightarrow> (Inl e, d)
            | (Inr _, d) \<Rightarrow> (case saveLocked ''sessions'' (se_ID (tp_Session p)) (SessionDoc (tp_Session p)) d of (Inl e, d) \<Rightarrow> (Inl e, d)
              | (Inr _, d) \<Rightarrow> (case removePreparationLocked (t_ID (tp_Task p)) d of (Inl e, d) \<Rightarrow> (Inl e, d)
                | (Inr _, d) \<Rightarrow> replay_journals es d)))))"

definition recoverTaskPreparationsLocked :: "(string \<times> bool) list \<Rightarrow> store \<Rightarrow> unit result \<times> store" where
  "recoverTaskPreparationsLocked entries d =
     (case syscall d of (ok, d) \<Rightarrow> if ok then replay_journals entries d else (Inl EIO, d))"

text \<open>Seven directories, then the recovery under the lock; \<open>entries\<close> is the listing of the state directory.\<close>

definition NewFileStore :: "(string \<times> bool) list \<Rightarrow> store \<Rightarrow> unit result \<times> store" where
  "NewFileStore entries d =
     (case calls 7 d of (ok, d) \<Rightarrow>
        if \<not> ok then (Inl (Wrapf ''create data directory %s'' EIO), d)
        else (case withExclusive (recoverTaskPreparationsLocked entries) d of
            (Inl e, d) \<Rightarrow> (Inl (Wrapf ''recover task preparations'' e), d) | (Inr _, d) \<Rightarrow> (Inr (), d)))"

end
