(* ===== verification/Read_Scope.thy ===== *)
theory Read_Scope
  imports Regex Planner Storage Crypto
begin

text \<open>
  \<open>internal/agent/general_scope.go\<close>: the files a request lets the planner read. The scope is taken from the paths named in the request, or from
  the resources selected in the session when the request refers back to them; every tool the planner chooses is checked
  against it. Chinese markers are written as UTF-8 bytes in hexadecimal. A slice of fixed markers is a list in the order of the source.
\<close>

record generalReadScope =
  gs_ResourceType :: string
  gs_AuthorizedPaths :: "string list"
  gs_ExcludedPaths :: "string list"
  gs_Source :: string

record readScopeViolation =
  rv_Code :: string
  rv_Summary :: string
  rv_Tool :: string
  rv_AttemptedPath :: string

definition safeOpsLabReadRoot :: string where "safeOpsLabReadRoot = ''/var/lib/safeops/lab''"
definition maxRuntimeGuardFeedback :: nat where "maxRuntimeGuardFeedback = 4"

subsection \<open>Paths in a request\<close>

text \<open>A slash and then runes other than white space, quotes and sentence punctuation.\<close>

definition requestAbsolutePath :: regex where
  "requestAbsolutePath = Seq (lit [0x2F]) (many1 (Class False
     [(0x09, 0x0A), (0x0C, 0x0D), (0x20, 0x20), (0x22, 0x22), (0x27, 0x27), (0x60, 0x60), (0xFF0C, 0xFF0C), (0x3002, 0x3002), (0xFF1B, 0xFF1B),
      (0x3B, 0x3B), (0xFF01, 0xFF01), (0xFF1F, 0xFF1F), (0x21, 0x21), (0x3F, 0x3F)]))"

definition path_cutset :: "string list" where
  "path_cutset = ascii ''.,!?;:)]}>'' @ [[CHR 0x60], hx ''efbc8c'', hx ''e38082'', hx ''efbc9b'', hx ''efbc81'', hx ''efbc9f'', hx ''efbc9a'', hx ''efbc89'',
     hx ''e38091'', hx ''e3808b'']"

text \<open>The loop over the values: trimmed, absolute, clean, each once.\<close>

fun unique_paths :: "string list \<Rightarrow> string list \<Rightarrow> string list" where
  "unique_paths seen [] = []"
| "unique_paths seen (v # vs) =
     (let v = TrimRight path_cutset (TrimSpace v) in
      if \<not> IsAbs v then unique_paths seen vs
      else let v = Clean v in if v \<in> set seen then unique_paths seen vs else v # unique_paths (v # seen) vs)"

definition normalizedUniquePaths :: "string list \<Rightarrow> string list" where
  "normalizedUniquePaths vs = sort (unique_paths [] vs)"

definition sentence_ends :: "string list" where
  "sentence_ends = ascii '',.!?;'' @ [[CHR 0x0A], hx ''efbc8c'', hx ''e38082'', hx ''efbc9b'', hx ''efbc81'', hx ''efbc9f'']"

definition read_verbs :: "string list" \<comment> \<open>look, look up, check, read, access\<close> where
  "read_verbs = [hx ''e79c8b'', hx ''e69fa5'', hx ''e6a380e69fa5'', hx ''e8afbbe58f96'', hx ''e8aebfe997ae'']"

definition positiveMarkers :: "string list" where
  "positiveMarkers =
     ['' and read '', '' and inspect '', '' and check '', '' and access '', '' and do read '', '' and do inspect '', '' and do check '', '' and do access '',
      '' but read '', '' but inspect '', '' but check '', '' but access '', '' but instead read '', '' but instead inspect '', '' but instead check '',
      '' but instead access '', '': read '', '': inspect '', '': check '', '': access '']
     @ concat (map (\<lambda>c. map (\<lambda>v. c @ v) read_verbs)
         [hx ''e5b9b6'', hx ''e5868d'', hx ''e784b6e5908e'', hx ''e4bd86'', hx ''e4bd86e698af'', hx ''e58faa'', hx ''e694b9e4b8ba'', hx ''e8808ce698af'', hx ''efbc9a'', hx ''efbc9a20''])"

definition negativeMarkers :: "string list" where
  "negativeMarkers =
     [hx ''e4b88de58c85e68bac'', hx ''e68e92e999a4'', hx ''e5bfbde795a5'', ''exclude'', ''except'', ''skip'', ''ignore'']
     @ concat (map (\<lambda>n. map (\<lambda>v. n @ v) read_verbs) [hx ''e4b88de8a681'', hx ''e7a681e6ada2'', hx ''e588ab'', hx ''e4b88d''])
     @ concat (map (\<lambda>n. map (\<lambda>v. n @ '' '' @ v) [''read'', ''inspect'', ''check'', ''access'']) [''do not'', ''don'' @ [CHR 0x27] @ ''t'', ''must not'', ''never''])"

text \<open>Where the last positive clause before the mention ends, if there is one.\<close>

definition positive_clause_end :: "string \<Rightarrow> nat option" where
  "positive_clause_end p =
     fold (\<lambda>m best. case LastIndex p m of None \<Rightarrow> best
       | Some i \<Rightarrow> (case best of Some b \<Rightarrow> if b < i + length m then Some (i + length m) else best | None \<Rightarrow> Some (i + length m))) positiveMarkers None"

definition readScopeMentionNegated :: "string \<Rightarrow> nat \<Rightarrow> bool" where
  "readScopeMentionNegated request mentionStart =
     (let p = ToLower (take mentionStart request);
          p = (case LastIndexAny p sentence_ends of None \<Rightarrow> p | Some i \<Rightarrow> drop (i + 1) p);
          p = (case positive_clause_end p of None \<Rightarrow> p | Some i \<Rightarrow> drop i p)
      in list_ex (Contains p) negativeMarkers)"

definition lab_aliases :: "string list" where
  "lab_aliases = [''safeops lab'', hx ''736166656f707320e5ae9ee9aa8ce58cba'', hx ''736166656f7073e5ae9ee9aa8ce58cba'']"

text \<open>The first alias of the lab that occurs, and whether its mention is negated.\<close>

definition lab_mention :: "string \<Rightarrow> bool option" where
  "lab_mention request =
     (let lower = ToLower request in
      case filter (\<lambda>a. Index lower a \<noteq> None) lab_aliases of [] \<Rightarrow> None
      | a # _ \<Rightarrow> map_option (readScopeMentionNegated lower) (Index lower a))"

definition requestPathScopes :: "string \<Rightarrow> string list \<times> string list" where
  "requestPathScopes request =
     (let lab = lab_mention request;
          ms = FindAllStringIndex requestAbsolutePath request;
          mention = (\<lambda>(a, b). take (b - a) (drop a request));
          neg = (\<lambda>(a, b). readScopeMentionNegated request a)
      in (normalizedUniquePaths ((if lab = Some False then [safeOpsLabReadRoot] else []) @ map mention (filter (\<lambda>m. \<not> neg m) ms)),
          normalizedUniquePaths ((if lab = Some True then [safeOpsLabReadRoot] else []) @ map mention (filter neg ms))))"

definition requestScopePaths :: "string \<Rightarrow> string list" where
  "requestScopePaths request = fst (requestPathScopes request)"

subsection \<open>References to earlier resources\<close>

definition isASCIIWordByte :: "char \<Rightarrow> bool" where
  "isASCIIWordByte c \<longleftrightarrow> CHR ''a'' \<le> c \<and> c \<le> CHR ''z'' \<or> CHR ''0'' \<le> c \<and> c \<le> CHR ''9'' \<or> c = CHR ''_''"

definition containsASCIIPhrase :: "string \<Rightarrow> string \<Rightarrow> bool" where
  "containsASCIIPhrase v phrase \<longleftrightarrow>
     list_ex (\<lambda>i. (i = 0 \<or> \<not> isASCIIWordByte (v ! (i - 1))) \<and> (i + length phrase = length v \<or> \<not> isASCIIWordByte (v ! (i + length phrase)))) (occurs phrase v)"

definition isAmbiguousResourceFollowup :: "string \<Rightarrow> bool" where
  "isAmbiguousResourceFollowup request =
     (let lower = ToLower (TrimSpace request) in
      list_ex (Contains lower)
        [hx ''e8bf99e4ba9b'', hx ''e4b88ae8bfb0'', hx ''e5898de99da2'', hx ''e5889ae6898d'', hx ''e585b6e4b8ad'', hx ''e7acace4b880e4b8aa'', hx ''e7acace4ba8ce4b8aa'',
         hx ''e7acace4b889e4b8aa'', hx ''e7acace59b9be4b8aa'', hx ''e7acace4ba94e4b8aa'', hx ''e69c80e5908ee4b880e4b8aa'', hx ''e593aae4b8aa'', hx ''e593aae4ba9b'',
         hx ''e8afa5e69687e4bbb6'', hx ''e8bf99e4b8aae69687e4bbb6'', hx ''e8afa5e8b584e6ba90'', hx ''e5a484e79086e5ae83'', hx ''e6a380e69fa5e5ae83'',
         hx ''e69fa5e79c8be5ae83'', hx ''e5ae83e591a2'', hx ''e5ae83e79a84'']
      \<or> list_ex (containsASCIIPhrase lower)
        [''these files'', ''those files'', ''selected file'', ''selected resource'', ''previous file'', ''this file'', ''that file'', ''this one'', ''that one'',
         ''which file'', ''which one'', ''which should'', ''them'', ''it''])"

definition mentionsExplicitNonFileTopic :: "string \<Rightarrow> bool" where
  "mentionsExplicitNonFileTopic request =
     (let lower = ToLower request in
      list_ex (Contains lower) [hx ''e58685e5ad98'', hx ''e8b49fe8bdbd'', hx ''e69c8de58aa1'', hx ''e7abafe58fa3'', hx ''e8bf9be7a88b'', hx ''e7bd91e7bb9c'']
      \<or> list_ex (containsASCIIPhrase lower) [''cpu'', ''journal'', ''systemd'', ''service'', ''port'', ''process'', ''network'', ''memory'', ''load average''])"

definition deriveGeneralReadScope :: "string \<Rightarrow> string list \<Rightarrow> generalReadScope option" where
  "deriveGeneralReadScope request selectedResources =
     (case requestPathScopes request of (paths, excluded) \<Rightarrow>
        let follow = (paths = [] \<and> isAmbiguousResourceFollowup request \<and> \<not> mentionsExplicitNonFileTopic request);
            paths = (if follow then normalizedUniquePaths selectedResources else paths)
        in if paths = [] \<and> excluded = [] then None
           else Some \<lparr>gs_ResourceType = ''file'', gs_AuthorizedPaths = paths, gs_ExcludedPaths = excluded,
                      gs_Source = (if follow then ''session.selected_resources'' else ''request'')\<rparr>)"

subsection \<open>The check of a tool\<close>

definition scopedPathReadToolTraverses :: "string \<Rightarrow> bool" where
  "scopedPathReadToolTraverses tool \<longleftrightarrow>
     tool \<in> {''file/file.list_directory'', ''file/file.find_large'', ''config/config.snapshot'', ''config/config.diff_snapshot''}"

definition scopedPathReadTool :: "string \<Rightarrow> bool" where
  "scopedPathReadTool tool \<longleftrightarrow>
     tool \<in> {''file/file.stat'', ''file/file.list_directory'', ''file/file.sha256'', ''file/file.find_large'', ''config/config.get_metadata'', ''config/config.snapshot'',
       ''config/config.diff_snapshot'', ''system/system.get_disk_usage'', ''diagnostic/diagnostic.disk_pressure''}"

definition pathWithinScope :: "string \<Rightarrow> string \<Rightarrow> bool" where
  "pathWithinScope authorized candidate =
     (let a = Clean authorized; c = Clean candidate in a = c \<or> rel_inside (Rel a c))"

definition txt_scope_tool :: string \<comment> \<open>a file task may only use path-limited tools\<close> where
  "txt_scope_tool = hx ''e69687e4bbb6e88c83e59bb4e4bbbbe58aa1e58faae883bde98089e68ba9e69687e4bbb6e58583e695b0e68daee38081e69687e4bbb6e7b3bbe7bb9fe5aeb9e9878fe68896e7a381e79b98e58e8be58a9be79a84e8b7afe5be84e58f97e99990e5b7a5e585b7''"
definition txt_scope_required :: string \<comment> \<open>a file task needs a tool with an authorised path\<close> where
  "txt_scope_required = hx ''e69687e4bbb6e88c83e59bb4e4bbbbe58aa1e58faae883bde98089e68ba9e690bae5b8a6e58f97e69d83207061746820e79a84e58faae8afbbe5b7a5e585b7''"
definition txt_scope_invalid :: string \<comment> \<open>the path must be absolute and inside the request's scope\<close> where
  "txt_scope_invalid = hx ''e69687e4bbb6e88c83e59bb4e4bbbbe58aa1e8a681e6b182e7bb9de5afb92070617468efbc8ce4b894e8afa5207061746820e5bf85e9a1bbe4bd8de4ba8ee69cace6aca1e8afb7e6b182e79a84e58f97e69d83e88c83e59bb4e58685''"
definition txt_scope_excluded :: string \<comment> \<open>the path is inside an excluded path or would traverse it\<close> where
  "txt_scope_excluded = hx ''e5b7a5e585b7207061746820e4bd8de4ba8ee6938de4bd9ce59198e6988ee7a1aee68e92e999a4e79a84e8b7afe5be84e58685efbc8ce68896e4bc9ae9818de58e86e588b0e8afa5e68e92e999a4e8b7afe5be84''"
definition txt_scope_mismatch :: string \<comment> \<open>the path is outside the authorised paths\<close> where
  "txt_scope_mismatch = hx ''e5b7a5e585b7207061746820e8b685e587bae6938de4bd9ce59198e69cace6aca1e8afb7e6b182e68896e4bc9ae8af9de5b7b2e98089e8b584e6ba90e79a84e58f97e69d83e88c83e59bb4''"

definition path_argument :: "Decision \<Rightarrow> json option" where
  "path_argument d = (case de_Arguments d of None \<Rightarrow> None | Some m \<Rightarrow> map_of m ''path'')"

definition validateGeneralReadScope :: "generalReadScope option \<Rightarrow> Decision \<Rightarrow> readScopeViolation option" where
  "validateGeneralReadScope scope d =
     (case scope of None \<Rightarrow> None
      | Some sc \<Rightarrow>
        if de_Kind d \<noteq> DecisionTool then None
        else
          let tool = de_ServerID d @ ''/'' @ de_Tool d;
              exclusionOnly = (gs_AuthorizedPaths sc = [] \<and> gs_ExcludedPaths sc \<noteq> []);
              violation = (\<lambda>code summary path. Some \<lparr>rv_Code = code, rv_Summary = summary, rv_Tool = tool, rv_AttemptedPath = path\<rparr>)
          in if exclusionOnly \<and> \<not> scopedPathReadTool tool then None
             else if \<not> scopedPathReadTool tool then violation ''REQUEST_READ_SCOPE_TOOL_MISMATCH'' txt_scope_tool []
             else (case path_argument d of
                 None \<Rightarrow> violation ''REQUEST_READ_SCOPE_PATH_REQUIRED'' txt_scope_required []
               | Some j \<Rightarrow>
                 let path = (case j of JStr s \<Rightarrow> s | _ \<Rightarrow> []) in
                 if (case j of JStr s \<Rightarrow> \<not> IsAbs s | _ \<Rightarrow> True) then violation ''REQUEST_READ_SCOPE_PATH_INVALID'' txt_scope_invalid (TrimSpace path)
                 else let path = Clean path in
                   if list_ex (\<lambda>x. pathWithinScope x path \<or> scopedPathReadToolTraverses tool \<and> pathWithinScope path x) (gs_ExcludedPaths sc)
                   then violation ''REQUEST_READ_SCOPE_EXCLUDED'' txt_scope_excluded path
                   else if exclusionOnly then None
                   else if list_ex (\<lambda>a. pathWithinScope a path) (gs_AuthorizedPaths sc) then None
                   else violation ''REQUEST_READ_SCOPE_MISMATCH'' txt_scope_mismatch path))"

subsection \<open>What the planner is told\<close>

definition plannerReadScope :: "generalReadScope option \<Rightarrow> ReadScope option" where
  "plannerReadScope = map_option (\<lambda>sc. \<lparr>rd_ResourceType = gs_ResourceType sc, rd_AuthorizedPaths = gs_AuthorizedPaths sc,
     rd_ExcludedPaths = gs_ExcludedPaths sc, rd_Source = gs_Source sc\<rparr>)"

definition plannerGuardFeedback :: "RuntimeGuardFeedback list \<Rightarrow> GuardFeedback list" where
  "plannerGuardFeedback = map (\<lambda>f. \<lparr>fb_Code = gf_Code f, fb_Summary = gf_Summary f, fb_Tool = gf_Tool f, fb_AttemptedPath = gf_AttemptedPath f,
     fb_AuthorizedPaths = gf_AuthorizedPaths f, fb_ExcludedPaths = gf_ExcludedPaths f\<rparr>)"

definition appendRuntimeGuardFeedback :: "generalReadScope option \<Rightarrow> readScopeViolation \<Rightarrow> RuntimeCheckpoint \<Rightarrow> RuntimeCheckpoint" where
  "appendRuntimeGuardFeedback scope v c =
     (let f = \<lparr>gf_Code = rv_Code v, gf_Summary = rv_Summary v, gf_Tool = rv_Tool v, gf_AttemptedPath = rv_AttemptedPath v,
               gf_AuthorizedPaths = (case scope of None \<Rightarrow> [] | Some sc \<Rightarrow> gs_AuthorizedPaths sc),
               gf_ExcludedPaths = (case scope of None \<Rightarrow> [] | Some sc \<Rightarrow> gs_ExcludedPaths sc)\<rparr>;
          fs = rc_GuardFeedback c @ [f]
      in c\<lparr>rc_GuardFeedback := (if length fs > maxRuntimeGuardFeedback then drop (length fs - maxRuntimeGuardFeedback) fs else fs)\<rparr>)"

subsection \<open>What the scope guarantees\<close>

lemma unique_paths_clean: "p \<in> set (unique_paths seen vs) \<Longrightarrow> IsAbs p \<and> Clean p = p \<and> p \<notin> set seen"
  by (induction seen vs rule: unique_paths.induct) (auto simp: Let_def split: if_splits)

lemma unique_paths_distinct: "distinct (unique_paths seen vs)"
  by (induction seen vs rule: unique_paths.induct) (auto simp: Let_def dest: unique_paths_clean)

lemma normalizedUniquePaths_good: "list_all (\<lambda>p. IsAbs p \<and> Clean p = p) (normalizedUniquePaths vs)" "distinct (normalizedUniquePaths vs)"
  by (auto simp: normalizedUniquePaths_def list_all_iff unique_paths_distinct dest: unique_paths_clean)

lemma pathWithinScope_iff: "IsAbs a \<Longrightarrow> pathWithinScope a c \<longleftrightarrow> under a c"
  by (auto simp: pathWithinScope_def Let_def rel_inside_rooted under_def Clean_eq_iff)

lemma derived_scope:
  assumes "deriveGeneralReadScope request selected = Some sc"
  shows "list_all IsAbs (gs_AuthorizedPaths sc)" "list_all IsAbs (gs_ExcludedPaths sc)" "gs_AuthorizedPaths sc \<noteq> [] \<or> gs_ExcludedPaths sc \<noteq> []"
proof -
  obtain ps xs where r: "requestPathScopes request = (ps, xs)" by (cases "requestPathScopes request")
  then have abs: "list_all IsAbs ps" "list_all IsAbs xs" "list_all IsAbs (normalizedUniquePaths selected)"
    using normalizedUniquePaths_good(1) by (auto simp: requestPathScopes_def Let_def list_all_iff)
  define follow where "follow = (ps = [] \<and> isAmbiguousResourceFollowup request \<and> \<not> mentionsExplicitNonFileTopic request)"
  have "sc = \<lparr>gs_ResourceType = ''file'', gs_AuthorizedPaths = (if follow then normalizedUniquePaths selected else ps), gs_ExcludedPaths = xs,
      gs_Source = (if follow then ''session.selected_resources'' else ''request'')\<rparr>" "(if follow then normalizedUniquePaths selected else ps) \<noteq> [] \<or> xs \<noteq> []"
    using assms unfolding deriveGeneralReadScope_def r prod.case Let_def follow_def [symmetric] by (auto split: if_splits)
  with abs show "list_all IsAbs (gs_AuthorizedPaths sc)" "list_all IsAbs (gs_ExcludedPaths sc)" "gs_AuthorizedPaths sc \<noteq> [] \<or> gs_ExcludedPaths sc \<noteq> []"
    by simp_all
qed

text \<open>The specification: a tool that takes a path, with a path under an authorised one (if any are named) that touches no excluded one; a request that only
  excludes paths leaves the tools without a path alone.\<close>

definition in_read_scope :: "generalReadScope \<Rightarrow> Decision \<Rightarrow> bool" where
  "in_read_scope sc d \<longleftrightarrow>
     (let tool = de_ServerID d @ ''/'' @ de_Tool d in
      if scopedPathReadTool tool then
        \<exists>p. path_argument d = Some (JStr p) \<and> IsAbs p \<and> (gs_AuthorizedPaths sc = [] \<or> (\<exists>a \<in> set (gs_AuthorizedPaths sc). under a p))
          \<and> (\<forall>x \<in> set (gs_ExcludedPaths sc). \<not> under x p \<and> (scopedPathReadToolTraverses tool \<longrightarrow> \<not> under p x))
      else gs_AuthorizedPaths sc = [])"

subsection \<open>Properties\<close>

text \<open>The check of a planned read is exact. For the scope derived from a request and the session, a tool chosen by the planner passes if and only if it is
  admitted by the specification: its path lies under an authorised path and neither inside nor, for tools that walk directories,
  above an excluded one.\<close>

theorem read_scope_exact:
  assumes "deriveGeneralReadScope request selected = Some sc" "de_Kind d = DecisionTool"
  shows "validateGeneralReadScope (Some sc) d = None \<longleftrightarrow> in_read_scope sc d"
proof -
  note sc = derived_scope [OF assms(1)]
  define tool where "tool = de_ServerID d @ ''/'' @ de_Tool d"
  note defs = validateGeneralReadScope_def in_read_scope_def Let_def tool_def [symmetric]
  have auth: "list_ex (\<lambda>a. pathWithinScope a (Clean p)) (gs_AuthorizedPaths sc) \<longleftrightarrow> (\<exists>a \<in> set (gs_AuthorizedPaths sc). under a p)" for p
    using sc(1) by (auto simp: list_ex_iff list_all_iff pathWithinScope_iff)
  have excl: "list_ex (\<lambda>x. pathWithinScope x (Clean p) \<or> scopedPathReadToolTraverses tool \<and> pathWithinScope (Clean p) x) (gs_ExcludedPaths sc)
      \<longleftrightarrow> (\<exists>x \<in> set (gs_ExcludedPaths sc). under x p \<or> scopedPathReadToolTraverses tool \<and> under p x)" if "IsAbs p" for p
    using sc(2) that by (auto simp: list_ex_iff list_all_iff pathWithinScope_iff)
  show ?thesis
  proof (cases "scopedPathReadTool tool")
    case False
    with assms(2) sc(3) show ?thesis unfolding defs by simp
  next
    case True
    show ?thesis
    proof (cases "\<exists>p. path_argument d = Some (JStr p) \<and> IsAbs p")
      case False
      with True assms(2) show ?thesis unfolding defs by (auto split: option.split json.split)
    next
      case inv: True
      then obtain p where p: "path_argument d = Some (JStr p)" "IsAbs p" by blast
      with True assms(2) sc(3) show ?thesis unfolding defs by (auto simp: auth excl [OF p(2)])
    qed
  qed
qed

lemma requestPathScopes_eval:
  assumes "FindAllStringIndex requestAbsolutePath q = ms" "lab_mention q = None" "map (\<lambda>(a, b). take (b - a) (drop a q)) ms = ps"
    and "map (\<lambda>(a, b). readScopeMentionNegated q a) ms = ns"
  shows "requestPathScopes q = (normalizedUniquePaths (map fst (filter (Not \<circ> snd) (zip ps ns))), normalizedUniquePaths (map fst (filter snd (zip ps ns))))"
proof -
  let ?f = "\<lambda>(a, b). take (b - a) (drop a q)" and ?P = "\<lambda>(a, b). readScopeMentionNegated q a"
  have "map ?f (filter ?P ms) = map fst (filter snd (zip (map ?f ms) (map ?P ms)))"
    "map ?f (filter (\<lambda>m. \<not> ?P m) ms) = map fst (filter (Not \<circ> snd) (zip (map ?f ms) (map ?P ms)))"
    by (induction ms) auto
  then show ?thesis unfolding assms(3,4) unfolding requestPathScopes_def Let_def assms(1,2) by simp
qed

text \<open>A full stop inside a path ends the clause. In \<open>do not read /etc/app.conf and /etc/shadow\<close> the search for the end of the previous sentence finds the dot
  of the first path, the negation before it is lost, and the second path becomes the authorised scope of the request; without the dot both
  paths are excluded.\<close>

theorem dotted_path_loses_negation:
  "requestPathScopes ''do not read /etc/app.conf and /etc/shadow'' = ([''/etc/shadow''], [''/etc/app.conf''])
   \<and> requestPathScopes ''do not read /etc/app and /etc/shadow'' = ([], [''/etc/app'', ''/etc/shadow''])"
proof
  let ?q = "''do not read /etc/app.conf and /etc/shadow''"
  have ms: "FindAllStringIndex requestAbsolutePath ?q = [(12, 25), (30, 41)]" by code_simp
  have lab: "lab_mention ?q = None" by code_simp
  have ps: "map (\<lambda>(a, b). take (b - a) (drop a ?q)) [(12, 25), (30, 41)] = [''/etc/app.conf'', ''/etc/shadow'']" by code_simp
  have "readScopeMentionNegated ?q 12" "\<not> readScopeMentionNegated ?q 30" by code_simp+
  then have ns: "map (\<lambda>(a, b). readScopeMentionNegated ?q a) [(12, 25 :: nat), (30, 41)] = [True, False]" by simp
  have "normalizedUniquePaths [''/etc/shadow''] = [''/etc/shadow'']" "normalizedUniquePaths [''/etc/app.conf''] = [''/etc/app.conf'']" by code_simp+
  then show "requestPathScopes ?q = ([''/etc/shadow''], [''/etc/app.conf''])"
    unfolding requestPathScopes_eval [OF ms lab ps ns] by simp
next
  let ?q = "''do not read /etc/app and /etc/shadow''"
  have ms: "FindAllStringIndex requestAbsolutePath ?q = [(12, 20), (25, 36)]" by code_simp
  have lab: "lab_mention ?q = None" by code_simp
  have ps: "map (\<lambda>(a, b). take (b - a) (drop a ?q)) [(12, 20), (25, 36)] = [''/etc/app'', ''/etc/shadow'']" by code_simp
  have "readScopeMentionNegated ?q 12" "readScopeMentionNegated ?q 25" by code_simp+
  then have ns: "map (\<lambda>(a, b). readScopeMentionNegated ?q a) [(12, 20 :: nat), (25, 36)] = [True, True]" by simp
  have "normalizedUniquePaths [''/etc/app'', ''/etc/shadow''] = [''/etc/app'', ''/etc/shadow'']" "normalizedUniquePaths [] = []" by code_simp+
  then show "requestPathScopes ?q = ([], [''/etc/app'', ''/etc/shadow''])"
    unfolding requestPathScopes_eval [OF ms lab ps ns] by simp
qed

definition sample_read :: "string \<Rightarrow> string \<Rightarrow> Decision" where
  "sample_read tool path = \<lparr>de_Kind = DecisionTool, de_DecisionSummary = [], de_ServerID = ''file'', de_Tool = tool, de_Arguments = Some [(''path'', JStr path)],
     de_Target = \<lparr>at_Type = [], at_ID = [], at_Criticality = []\<rparr>, de_ExpectedObservation = [], de_FinalAnswer = []\<rparr>"

definition sample_scope_read :: generalReadScope where
  "sample_scope_read = \<lparr>gs_ResourceType = ''file'', gs_AuthorizedPaths = [''/var/log''], gs_ExcludedPaths = [''/var/log/private''], gs_Source = ''request''\<rparr>"

lemma sample_scope_derived: "deriveGeneralReadScope ''inspect /var/log except /var/log/private'' [] = Some sample_scope_read"
proof -
  let ?q = "''inspect /var/log except /var/log/private''"
  have ms: "FindAllStringIndex requestAbsolutePath ?q = [(8, 16), (24, 40)]" by code_simp
  have lab: "lab_mention ?q = None" by code_simp
  have ps: "map (\<lambda>(a, b). take (b - a) (drop a ?q)) [(8, 16), (24, 40)] = [''/var/log'', ''/var/log/private'']" by code_simp
  have "\<not> readScopeMentionNegated ?q 8" "readScopeMentionNegated ?q 24" by code_simp+
  then have ns: "map (\<lambda>(a, b). readScopeMentionNegated ?q a) [(8, 16 :: nat), (24, 40)] = [False, True]" by simp
  have "normalizedUniquePaths [''/var/log''] = [''/var/log'']" "normalizedUniquePaths [''/var/log/private''] = [''/var/log/private'']" by code_simp+
  then have "requestPathScopes ?q = ([''/var/log''], [''/var/log/private''])" unfolding requestPathScopes_eval [OF ms lab ps ns] by simp
  then show ?thesis by (simp add: deriveGeneralReadScope_def sample_scope_read_def)
qed

theorem read_scope_exact_witness:
  "in_read_scope sample_scope_read (sample_read ''file.stat'' ''/var/log/messages'') \<and> \<not> in_read_scope sample_scope_read (sample_read ''file.find_large'' ''/var/log'')"
proof -
  have v: "validateGeneralReadScope (Some sample_scope_read) (sample_read ''file.stat'' ''/var/log/messages'') = None"
    "validateGeneralReadScope (Some sample_scope_read) (sample_read ''file.find_large'' ''/var/log'') \<noteq> None" by code_simp+
  have k: "de_Kind (sample_read t p) = DecisionTool" for t p by (simp add: sample_read_def)
  from read_scope_exact [OF sample_scope_derived k] v show ?thesis by simp
qed

end
