(* ===== verification/Session_Context.thy ===== *)
theory Session_Context
  imports Read_Scope
begin

text \<open>
  \<open>internal/agent/session_context.go\<close>: what the planner is shown of the session. Text is stripped of secrets and cut at a character
  boundary; messages and resources have a budget in number and in bytes. \<open>int\<close> is \<open>int\<close>.
\<close>

definition maxPlannerContextMessages :: int where "maxPlannerContextMessages = 6"
definition maxPlannerMessageBytes :: int where "maxPlannerMessageBytes = 2048"
definition maxPlannerMessagesBytes :: int where "maxPlannerMessagesBytes = 8192"
definition maxPlannerSummaryBytes :: int where "maxPlannerSummaryBytes = 2048"
definition maxPlannerSelectedResources :: int where "maxPlannerSelectedResources = 50"
definition maxPlannerSelectedResourceBytes :: int where "maxPlannerSelectedResourceBytes = 2048"
definition maxPlannerSelectedResourcesBytes :: int where "maxPlannerSelectedResourcesBytes = 16384"

lemmas planner_limits = maxPlannerContextMessages_def maxPlannerMessageBytes_def maxPlannerMessagesBytes_def maxPlannerSummaryBytes_def
  maxPlannerSelectedResources_def maxPlannerSelectedResourceBytes_def maxPlannerSelectedResourcesBytes_def

subsection \<open>Secrets\<close>

definition dash :: regex where "dash = opt (Class True [(0x5F, 0x5F), (0x2D, 0x2D)])"

definition secret_assignment :: regex where
  "secret_assignment = seqs [Group (seqs [alts [seqs [ci ''api'', dash, ci ''key''], seqs [ci ''access'', dash, ci ''token''], ci ''secret'', ci ''password'', ci ''passwd'',
     lit [0x5BC6, 0x7801]], Many white, Class True [(0x3A, 0x3A), (0x3D, 0x3D)], Many white]), many1 nonwhite]"

definition at_least :: "nat \<Rightarrow> regex \<Rightarrow> regex" where "at_least n r = seqs [times n r, Many r]"

definition bearer_token :: regex where
  "bearer_token = seqs [Boundary, ci ''bearer'', many1 white, at_least 8 (Class True [(0x41, 0x5A), (0x61, 0x7A), (0x30, 0x39), (0x2E, 0x2E), (0x5F, 0x5F), (0x7E, 0x7E),
     (0x2B, 0x2B), (0x2F, 0x2F), (0x3D, 0x3D), (0x2D, 0x2D), (0x212A, 0x212A), (0x17F, 0x17F)])]"

definition sk_token :: regex where
  "sk_token = seqs [Boundary, ci ''sk-'', at_least 16 (Class True [(0x41, 0x5A), (0x61, 0x7A), (0x30, 0x39), (0x5F, 0x5F), (0x2D, 0x2D), (0x212A, 0x212A), (0x17F, 0x17F)])]"

definition token_rune :: regex where "token_rune = Class True [(0x41, 0x5A), (0x61, 0x7A), (0x30, 0x39), (0x5F, 0x5F), (0x2D, 0x2D)]"

definition dotted_token :: regex where
  "dotted_token = seqs [Boundary, at_least 32 token_rune, asc ''.'', at_least 8 token_rune, Boundary]"

definition redactPlannerSecrets :: "string \<Rightarrow> string" where
  "redactPlannerSecrets v =
     (let v = ReplaceAll secret_assignment (\<lambda>g. g @ ''[REDACTED]'') v;
          v = ReplaceAll bearer_token (\<lambda>_. ''Bearer [REDACTED]'') v;
          v = ReplaceAll sk_token (\<lambda>_. ''[REDACTED]'') v
      in ReplaceAll dotted_token (\<lambda>_. ''[REDACTED]'') v)"

subsection \<open>Cutting\<close>

text \<open>The loop that drops bytes until the text is valid.\<close>

function drop_invalid :: "string \<Rightarrow> string" where
  "drop_invalid v = (if ValidString v then v else drop_invalid (butlast v))"
  by pat_completeness auto
termination
  by (relation "measure length") (auto simp: ValidString_def runes.simps [of "[]"] intro!: diff_less)

declare drop_invalid.simps [simp del]

definition truncateUTF8 :: "string \<Rightarrow> int \<Rightarrow> string" where
  "truncateUTF8 v limit = (if limit \<le> 0 then [] else if int (length v) \<le> limit then v else drop_invalid (take (nat limit) v))"

definition boundedPlannerText :: "string \<Rightarrow> int \<Rightarrow> string" where
  "boundedPlannerText v limit = truncateUTF8 (redactPlannerSecrets (TrimSpace v)) limit"

subsection \<open>The context\<close>

definition role_text :: "MessageRole \<Rightarrow> string" where
  "role_text r = (case r of RoleUser \<Rightarrow> ''user'' | RoleAssistant \<Rightarrow> ''assistant'' | RoleSystem \<Rightarrow> ''system'' | OtherRole x \<Rightarrow> x)"

definition visible :: "string \<Rightarrow> Message \<Rightarrow> bool" where
  "visible taskID m \<longleftrightarrow> \<not> (ms_TaskID m = taskID \<or> ms_Role m \<noteq> RoleUser \<and> ms_Role m \<noteq> RoleAssistant)"

text \<open>The messages from the newest on, with the number taken and the bytes left.\<close>

fun recent_messages :: "string \<Rightarrow> int \<Rightarrow> int \<Rightarrow> Message list \<Rightarrow> SessionMessage list" where
  "recent_messages taskID n remaining [] = []"
| "recent_messages taskID n remaining (m # ms) =
     (if \<not> (n < maxPlannerContextMessages \<and> remaining > 0) then []
      else if \<not> visible taskID m then recent_messages taskID n remaining ms
      else let content = boundedPlannerText (ms_Content m) (min maxPlannerMessageBytes remaining) in
        if content = [] then recent_messages taskID n remaining ms
        else \<lparr>sm_Role = role_text (ms_Role m), sm_Content = content\<rparr> # recent_messages taskID (n + 1) (remaining - int (length content)) ms)"

fun selected_resources :: "string list \<Rightarrow> int \<Rightarrow> string list \<Rightarrow> string list" where
  "selected_resources sel remaining [] = sel"
| "selected_resources sel remaining (raw # rest) =
     (if int (length sel) = maxPlannerSelectedResources \<or> remaining = 0 then sel
      else let resource = boundedPlannerText raw (min maxPlannerSelectedResourceBytes remaining) in
        if resource = [] \<or> resource \<in> set sel then selected_resources sel remaining rest
        else selected_resources (sel @ [resource]) (remaining - int (length resource)) rest)"

definition buildPlannerSessionContext :: "Session \<Rightarrow> string \<Rightarrow> SessionContext option" where
  "buildPlannerSessionContext v currentTaskID =
     (let c = \<lparr>sc_Summary = boundedPlannerText (se_Summary v) maxPlannerSummaryBytes,
               sc_RecentMessages = rev (recent_messages currentTaskID 0 maxPlannerMessagesBytes (rev (se_Messages v))),
               sc_SelectedResources = selected_resources [] maxPlannerSelectedResourcesBytes (se_SelectedResources v)\<rparr>
      in if sc_Summary c = [] \<and> sc_RecentMessages c = [] \<and> sc_SelectedResources c = [] then None else Some c)"

subsection \<open>The budget\<close>

lemma drop_invalid_prefix: "prefix (drop_invalid v) v \<and> ValidString (drop_invalid v)"
proof (induction v rule: drop_invalid.induct)
  case (1 v)
  then show ?case by (subst (1 2) drop_invalid.simps) (auto intro: prefix_order.trans simp: prefixeq_butlast)
qed

lemma truncateUTF8_length: "int (length (truncateUTF8 v n)) \<le> max 0 n"
  using prefix_length_le [OF drop_invalid_prefix [of "take (nat n) v", THEN conjunct1]] by (auto simp: truncateUTF8_def)

lemma boundedPlannerText_length: "int (length (boundedPlannerText v n)) \<le> max 0 n"
  by (simp add: boundedPlannerText_def truncateUTF8_length)

lemma subseq_reversed: "subseq xs ys \<Longrightarrow> subseq (rev xs) (rev ys)"
  by (induction rule: list_emb.induct) (auto intro: list_emb_append_mono subseq_order.trans [OF _ subseq_rev_drop_many])

definition total_bytes :: "string list \<Rightarrow> int" where
  "total_bytes xs = sum_list (map (int \<circ> length) xs)"

lemma total_bytes_simps [simp]: "total_bytes [] = 0" "total_bytes (x # xs) = int (length x) + total_bytes xs" "total_bytes (xs @ ys) = total_bytes xs + total_bytes ys"
  "total_bytes (rev xs) = total_bytes xs"
  by (simp_all add: total_bytes_def rev_map [symmetric] del: rev_map)

lemma recent_messages_bounds:
  assumes "0 \<le> remaining" "n \<le> maxPlannerContextMessages"
  shows "n + int (length (recent_messages i n remaining ms)) \<le> maxPlannerContextMessages
    \<and> total_bytes (map sm_Content (recent_messages i n remaining ms)) \<le> remaining
    \<and> list_all (\<lambda>m. sm_Content m \<noteq> [] \<and> int (length (sm_Content m)) \<le> maxPlannerMessageBytes) (recent_messages i n remaining ms)
    \<and> subseq (map sm_Role (recent_messages i n remaining ms)) (map (role_text \<circ> ms_Role) (filter (visible i) ms))"
  using assms
proof (induction i n remaining ms rule: recent_messages.induct)
  case (2 i n remaining m ms)
  let ?c = "boundedPlannerText (ms_Content m) (min maxPlannerMessageBytes remaining)"
  have "int (length ?c) \<le> max 0 (min maxPlannerMessageBytes remaining)" by (rule boundedPlannerText_length)
  with 2 show ?case by (auto simp: Let_def planner_limits)
qed simp

lemma selected_resources_bounds:
  assumes "0 \<le> remaining" "int (length sel) \<le> maxPlannerSelectedResources" "distinct sel"
    "list_all (\<lambda>p. p \<noteq> [] \<and> int (length p) \<le> maxPlannerSelectedResourceBytes) sel"
  shows "int (length (selected_resources sel remaining rs)) \<le> maxPlannerSelectedResources
    \<and> total_bytes (selected_resources sel remaining rs) \<le> total_bytes sel + remaining \<and> distinct (selected_resources sel remaining rs)
    \<and> list_all (\<lambda>p. p \<noteq> [] \<and> int (length p) \<le> maxPlannerSelectedResourceBytes) (selected_resources sel remaining rs)"
  using assms
proof (induction sel remaining rs rule: selected_resources.induct)
  case (2 sel remaining raw rest)
  let ?c = "boundedPlannerText raw (min maxPlannerSelectedResourceBytes remaining)"
  have "int (length ?c) \<le> max 0 (min maxPlannerSelectedResourceBytes remaining)" by (rule boundedPlannerText_length)
  with 2 show ?case by (auto simp: Let_def planner_limits)
qed simp

definition within_budget :: "Session \<Rightarrow> string \<Rightarrow> SessionContext \<Rightarrow> bool" where
  "within_budget v taskID c \<longleftrightarrow>
     length (sc_Summary c) \<le> 2048
     \<and> length (sc_RecentMessages c) \<le> 6 \<and> total_bytes (map sm_Content (sc_RecentMessages c)) \<le> 8192
     \<and> list_all (\<lambda>m. sm_Content m \<noteq> [] \<and> length (sm_Content m) \<le> 2048) (sc_RecentMessages c)
     \<and> subseq (map sm_Role (sc_RecentMessages c)) (map (role_text \<circ> ms_Role) (filter (visible taskID) (se_Messages v)))
     \<and> length (sc_SelectedResources c) \<le> 50 \<and> total_bytes (sc_SelectedResources c) \<le> 16384 \<and> distinct (sc_SelectedResources c)
     \<and> list_all (\<lambda>p. p \<noteq> [] \<and> length p \<le> 2048) (sc_SelectedResources c)"

text \<open>Whatever a session contains, the planner is shown at most 6 messages of at most 2048 bytes each and 8192 bytes together, in the order
  of the conversation and none of the current task or of a system role, a summary of at most 2048 bytes, and at most 50 distinct
  resources of at most 2048 bytes each and 16384 bytes together.
\<close>

theorem planner_context_bounded:
  "case buildPlannerSessionContext v taskID of None \<Rightarrow> True | Some c \<Rightarrow> within_budget v taskID c"
proof -
  let ?ms = "recent_messages taskID 0 maxPlannerMessagesBytes (rev (se_Messages v))"
  note m = recent_messages_bounds [of maxPlannerMessagesBytes 0 taskID "rev (se_Messages v)", simplified planner_limits, simplified]
  have sub: "subseq (rev (map sm_Role ?ms)) (map (role_text \<circ> ms_Role) (filter (visible taskID) (se_Messages v)))"
    using subseq_reversed [of "map sm_Role ?ms" "map (role_text \<circ> ms_Role) (filter (visible taskID) (rev (se_Messages v)))"] m
    by (simp add: planner_limits rev_map rev_filter)
  show ?thesis
    using m sub selected_resources_bounds [of maxPlannerSelectedResourcesBytes "[]" "se_SelectedResources v", simplified planner_limits, simplified]
      boundedPlannerText_length [of "se_Summary v" 2048]
    by (auto simp: buildPlannerSessionContext_def Let_def within_budget_def planner_limits list_all_rev rev_map [symmetric] split: option.split)
qed

end
