(* ===== verification/Redact.thy ===== *)
theory Redact
  imports Crypto Json "HOL-Library.AList"
begin

text \<open>
  The payload of a trace event, \<open>marshalPayload\<close> of \<open>internal/trace/trace.go\<close>: the value is decoded into maps and slices,
  values under sensitive keys and credentials inside strings are replaced, and decision records are brought to their
  fixed set of fields. The three regular expressions are written as scanners over the bytes of a string: none of
  their parts overlap, so the leftmost match is found without backtracking, except the length of an API key, which is the
  longest one that ends at a word boundary. A \<open>map[string]any\<close> is an object with distinct, ascending keys, which is
  how \<open>json.Marshal\<close> writes it. The theorem: nothing below a sensitive key reaches the payload.
\<close>

subsection \<open>Decoding into maps\<close>

text \<open>A repeated key keeps its last value.\<close>

fun last_wins :: "(string \<times> 'a) list \<Rightarrow> (string \<times> 'a) list" where
  "last_wins [] = []"
| "last_wins ((k, v) # r) = (if k \<in> fst ` set r then last_wins r else (k, v) # last_wins r)"

fun decode_any :: "json \<Rightarrow> json" where
  "decode_any (JObj kvs) = JObj (sort_keys (last_wins (map (\<lambda>(k, v). (k, decode_any v)) kvs)))"
| "decode_any (JArr xs) = JArr (map decode_any xs)"
| "decode_any j = j"

subsection \<open>Regular expressions\<close>

definition word_char :: "char \<Rightarrow> bool" where
  "word_char c \<longleftrightarrow> is_digit c \<or> lower_char c \<in> set ''abcdefghijklmnopqrstuvwxyz'' \<or> c = CHR ''_''"

text \<open>\<open>\b\<close> between the byte before the position (if any) and the rest.\<close>

definition boundary :: "char option \<Rightarrow> string \<Rightarrow> bool" where
  "boundary prev s \<longleftrightarrow> (case prev of None \<Rightarrow> False | Some c \<Rightarrow> word_char c) \<noteq> (s \<noteq> [] \<and> word_char (hd s))"

text \<open>\<open>\s\<close>.\<close>

definition re_space :: "char \<Rightarrow> bool" where
  "re_space c \<longleftrightarrow> c \<in> {CHR 0x09, CHR 0x0A, CHR 0x0C, CHR 0x0D, CHR 0x20}"

text \<open>A lower-case literal under \<open>(?i)\<close>: besides the capital letter, \<open>k\<close> folds with U+212A and \<open>s\<close> with U+017F. The result is
  what follows the literal.\<close>

fun fold_lit :: "string \<Rightarrow> string \<Rightarrow> string option" where
  "fold_lit [] s = Some s"
| "fold_lit (p # ps) s =
     (case s of [] \<Rightarrow> None
      | c # r \<Rightarrow>
        if lower_char c = p then fold_lit ps r
        else if p = CHR ''k'' \<and> take 3 s = [CHR 0xE2, CHR 0x84, CHR 0xAA] then fold_lit ps (drop 3 s)
        else if p = CHR ''s'' \<and> take 2 s = [CHR 0xC5, CHR 0xBF] then fold_lit ps (drop 2 s)
        else None)"

text \<open>The width of a character of \<open>[a-z0-9._~+/=-]\<close> under \<open>(?i)\<close> at the front, 0 if there is none.\<close>

definition token_width :: "string \<Rightarrow> nat" where
  "token_width s =
     (case s of [] \<Rightarrow> 0
      | c # _ \<Rightarrow> if is_digit c \<or> lower_char c \<in> set ''abcdefghijklmnopqrstuvwxyz'' \<or> c \<in> set ''._~+/=-'' then 1
                 else if take 3 s = [CHR 0xE2, CHR 0x84, CHR 0xAA] then 3
                 else if take 2 s = [CHR 0xC5, CHR 0xBF] then 2 else 0)"

function span_token :: "string \<Rightarrow> nat" where
  "span_token s = (if token_width s = 0 then 0 else token_width s + span_token (drop (token_width s) s))"
  by pat_completeness auto
termination
  by (relation "measure length") (auto simp: token_width_def split: list.splits if_splits)

declare span_token.simps [simp del]

text \<open>A pattern gives the number of bytes it matches at a position.\<close>

type_synonym pattern = "char option \<Rightarrow> string \<Rightarrow> nat option"

definition bearerPattern :: pattern where
  "bearerPattern prev s =
     (if boundary prev s then
        (case fold_lit ''bearer'' s of None \<Rightarrow> None
         | Some r \<Rightarrow> let t = dropWhile re_space r; n = span_token t in
             if t = r \<or> n = 0 then None else Some (length s - length t + n))
      else None)"

definition openAIKeyPattern :: pattern where
  "openAIKeyPattern prev s =
     (if boundary prev s \<and> take 3 s = ''sk-'' then
        (let run = takeWhile (\<lambda>c. word_char c \<or> c = CHR ''-'') (drop 3 s) in
         map_option (\<lambda>n. 3 + n)
           (find (\<lambda>n. boundary (Some (run ! (n - 1))) (drop (3 + n) s)) (rev [8..<Suc (length run)])))
      else None)"

definition optional_sep :: "string \<Rightarrow> string" where
  "optional_sep s = (case s of [] \<Rightarrow> [] | c # r \<Rightarrow> if c = CHR ''_'' \<or> c = CHR ''-'' then r else s)"

definition assignment_name :: "string \<Rightarrow> string option" where
  "assignment_name s =
     (case map_option optional_sep (fold_lit ''api'' s) of Some r \<Rightarrow> fold_lit ''key'' r
      | None \<Rightarrow> (case map_option optional_sep (fold_lit ''access'' s) of Some r \<Rightarrow> fold_lit ''token'' r
      | None \<Rightarrow> (case fold_lit ''password'' s of Some r \<Rightarrow> Some r
      | None \<Rightarrow> (case fold_lit ''passwd'' s of Some r \<Rightarrow> Some r
      | None \<Rightarrow> (case fold_lit ''secret'' s of Some r \<Rightarrow> Some r
      | None \<Rightarrow> fold_lit ''authorization'' s)))))"

definition assignmentPattern :: pattern where
  "assignmentPattern prev s =
     (if boundary prev s then
        (case assignment_name s of None \<Rightarrow> None
         | Some r \<Rightarrow> (case dropWhile re_space r of [] \<Rightarrow> None
           | c # r' \<Rightarrow>
             if c = CHR '':'' \<or> c = CHR ''='' then
               (let v = dropWhile re_space r'; n = length (takeWhile (\<lambda>c. \<not> re_space c \<and> c \<noteq> CHR '','' \<and> c \<noteq> CHR '';'') v) in
                if n = 0 then None else Some (length s - length v + n))
             else None))
      else None)"

text \<open>\<open>ReplaceAllStringFunc\<close> for a pattern that never matches the empty string.\<close>

function replace_all :: "pattern \<Rightarrow> (string \<Rightarrow> string) \<Rightarrow> char option \<Rightarrow> string \<Rightarrow> string" where
  "replace_all m f prev [] = []"
| "replace_all m f prev (c # cs) =
     (case m prev (c # cs) of None \<Rightarrow> c # replace_all m f (Some c) cs
      | Some n \<Rightarrow> f (take n (c # cs)) @ replace_all m f (Some (last (take (max 1 n) (c # cs)))) (drop (n - 1) cs))"
  by pat_completeness auto
termination by (relation "measure (\<lambda>(m, f, prev, s). length s)") auto

definition assignment_redacted :: "string \<Rightarrow> string" where
  "assignment_redacted s =
     (if list_all (\<lambda>c. c \<noteq> CHR '':'' \<and> c \<noteq> CHR ''='') s then ''[REDACTED]''
      else TrimSpace (takeWhile (\<lambda>c. c \<noteq> CHR '':'' \<and> c \<noteq> CHR ''='') s) @ ''=[REDACTED]'')"

definition redact_string :: "string \<Rightarrow> string" where
  "redact_string s =
     replace_all assignmentPattern assignment_redacted None
       (replace_all openAIKeyPattern (\<lambda>_. ''[REDACTED]'') None
         (replace_all bearerPattern (\<lambda>_. ''Bearer [REDACTED]'') None s))"

subsection \<open>Sensitive keys\<close>

definition sensitive_names :: "string list" where
  "sensitive_names = [''token'', ''accesstoken'', ''refreshtoken'', ''idtoken'', ''authorization'', ''cookie'', ''setcookie'', ''apikey'', ''password'',
     ''passwd'', ''secret'', ''clientsecret'', ''chainofthought'', ''hiddenreasoning'', ''reasoningcontent'', ''cot'']"

definition sensitiveKey :: "string \<Rightarrow> bool" where
  "sensitiveKey key =
     (let normalized = filter (\<lambda>c. c \<notin> set ''_-. '') (ToLower key) in
      normalized \<in> set sensitive_names \<or> sublist ''password'' normalized \<or> sublist ''secret'' normalized \<or> suffix ''token'' normalized)"

fun redactValue :: "json \<Rightarrow> json" where
  "redactValue (JObj kvs) = JObj (map (\<lambda>(k, v). (k, if sensitiveKey k then JStr ''[REDACTED]'' else redactValue v)) kvs)"
| "redactValue (JArr xs) = JArr (map redactValue xs)"
| "redactValue (JStr s) = JStr (redact_string s)"
| "redactValue j = j"

subsection \<open>Decision records\<close>

definition DecisionRecorded :: string where "DecisionRecorded = ''DECISION_RECORDED''"

definition decision_defaults :: go_map where
  "decision_defaults =
     [(''plan_version'', JNum ''1''), (''objective'', JStr []), (''current_step'', JStr []),
      (''decision_summary'', JStr ''structured workflow decision''), (''candidate_hypotheses'', JArr []), (''selected_hypothesis'', JStr []),
      (''rejected_hypotheses'', JArr []), (''evidence_used'', JArr []), (''evidence_missing'', JArr []), (''selected_tool'', JStr []),
      (''tool_arguments_digest'', JStr []), (''expected_observation'', JStr []), (''completion_assessment'', JStr []), (''replan_reason'', JStr [])]"

definition add_default :: "string \<times> json \<Rightarrow> go_map \<Rightarrow> go_map" where
  "add_default kv record = (if fst kv \<in> fst ` set record then record else AList.update (fst kv) (snd kv) record)"

definition digest_arguments :: "string \<Rightarrow> go_map \<Rightarrow> go_map" where
  "digest_arguments key record =
     (case map_of record key of None \<Rightarrow> record
      | Some arguments \<Rightarrow> AList.delete key (AList.update ''tool_arguments_digest'' (JStr (sha256_hex (json_text arguments))) record))"

definition normalizeDecision :: "string \<Rightarrow> uint64 \<Rightarrow> json \<Rightarrow> json" where
  "normalizeDecision taskID sequence value =
     (let record = (case value of JObj kvs \<Rightarrow> kvs | _ \<Rightarrow> [(''decision_summary'', JStr ''structured workflow decision'')]);
          record = AList.update ''decision_id'' (JStr (''decision_'' @ taskID @ ''_'' @ itoa (uint sequence))) record;
          record = AList.update ''task_id'' (JStr taskID) record;
          record = fold add_default decision_defaults record;
          record = digest_arguments ''arguments'' (digest_arguments ''tool_arguments'' record)
      in JObj (sort_keys record))"

text \<open>\<open>data\<close> is what \<open>json.Marshal\<close> makes of the value, or its error.\<close>

definition marshalPayload :: "string \<Rightarrow> uint64 \<Rightarrow> string \<Rightarrow> json result \<Rightarrow> json result" where
  "marshalPayload taskID sequence typ data =
     (case data of Inl e \<Rightarrow> Inl e
      | Inr raw \<Rightarrow> let value = redactValue (decode_any raw) in
          Inr (if typ = DecisionRecorded then normalizeDecision taskID sequence value else value))"

subsection \<open>Nothing below a sensitive key survives\<close>

text \<open>The public part of a value: what stands under a sensitive key is blanked.\<close>

fun public_part :: "json \<Rightarrow> json" where
  "public_part (JObj kvs) = JObj (map (\<lambda>(k, v). (k, if sensitiveKey k then JNull else public_part v)) kvs)"
| "public_part (JArr xs) = JArr (map public_part xs)"
| "public_part j = j"

lemma last_wins_map: "last_wins (map (\<lambda>(k, v). (k, g k v)) kvs) = map (\<lambda>(k, v). (k, g k v)) (last_wins kvs)"
proof (induction kvs)
  case (Cons kv kvs)
  have "fst ` set (map (\<lambda>(k, v). (k, g k v)) kvs) = fst ` set kvs" by force
  with Cons show ?case by (cases kv) simp
qed simp

lemma insort_key_map:
  "insort_key fst (k, g k v) (map (\<lambda>(k, v). (k, g k v)) kvs) = map (\<lambda>(k, v). (k, g k v)) (insort_key fst (k, v) kvs)"
  by (induction kvs) auto

lemma sort_keys_map: "sort_keys (map (\<lambda>(k, v). (k, g k v)) kvs) = map (\<lambda>(k, v). (k, g k v)) (sort_keys kvs)"
proof (induction kvs)
  case (Cons kv kvs)
  then show ?case by (cases kv) (simp add: sort_keys_def sort_key_def insort_key_map)
qed (simp add: sort_keys_def)

lemma redact_decode_obj:
  "redactValue (decode_any (JObj kvs)) =
     JObj (sort_keys (last_wins (map (\<lambda>(k, v). (k, if sensitiveKey k then JStr ''[REDACTED]'' else redactValue (decode_any v))) kvs)))"
proof -
  have "map (\<lambda>(k, v). (k, if sensitiveKey k then JStr ''[REDACTED]'' else redactValue (decode_any v))) kvs
      = map (\<lambda>(k, v). (k, if sensitiveKey k then JStr ''[REDACTED]'' else redactValue v)) (map (\<lambda>(k, v). (k, decode_any v)) kvs)"
    by (simp add: split_def)
  then show ?thesis by (simp only: decode_any.simps redactValue.simps last_wins_map sort_keys_map)
qed

lemma redact_public_part: "redactValue (decode_any (public_part j)) = redactValue (decode_any j)"
proof (induction j rule: public_part.induct)
  case (1 kvs)
  have "map (\<lambda>(k, v). (k, if sensitiveKey k then JStr ''[REDACTED]'' else redactValue (decode_any v)))
        (map (\<lambda>(k, v). (k, if sensitiveKey k then JNull else public_part v)) kvs)
      = map (\<lambda>(k, v). (k, if sensitiveKey k then JStr ''[REDACTED]'' else redactValue (decode_any v))) kvs"
    using 1 by (auto simp: split_def)
  then show ?case by (simp only: public_part.simps redact_decode_obj)
qed (simp_all cong: map_cong)

lemma marshalPayload_public:
  "public_part a = public_part b \<Longrightarrow> marshalPayload i n typ (Inr a) = marshalPayload i n typ (Inr b)"
  using redact_public_part [of a] redact_public_part [of b] by (simp add: marshalPayload_def)

text \<open>A value without secrets: every sensitive key, at any depth, holds the placeholder.\<close>

fun redacted :: "json \<Rightarrow> bool" where
  "redacted (JObj kvs) = (\<forall>kv \<in> set kvs. if sensitiveKey (fst kv) then snd kv = JStr ''[REDACTED]'' else redacted (snd kv))"
| "redacted (JArr xs) = (\<forall>x \<in> set xs. redacted x)"
| "redacted j = True"

lemma redacted_redactValue: "redacted (redactValue j)"
  by (induction j rule: redactValue.induct) (auto simp: split_def)

definition clean_field :: "string \<times> json \<Rightarrow> bool" where
  "clean_field kv \<longleftrightarrow> (if sensitiveKey (fst kv) then snd kv = JStr ''[REDACTED]'' else redacted (snd kv))"

lemma redacted_obj: "redacted (JObj kvs) \<longleftrightarrow> list_all clean_field kvs"
  by (simp add: clean_field_def list_all_iff)

lemma clean_update:
  assumes "list_all clean_field r" "clean_field (k, v)"
  shows "list_all clean_field (AList.update k v r)"
  using assms(1)
proof (induction r)
  case (Cons kv r)
  then show ?case using assms(2) by (cases kv) auto
qed (use assms(2) in simp)

lemma clean_delete: "list_all clean_field r \<Longrightarrow> list_all clean_field (AList.delete k r)"
  by (auto simp: AList.delete_eq list_all_iff)

lemma clean_defaults:
  assumes "list_all clean_field r" "list_all clean_field ds"
  shows "list_all clean_field (fold add_default ds r)"
  using assms
proof (induction ds arbitrary: r)
  case (Cons d ds)
  have "list_all clean_field (add_default d r)"
    using Cons.prems clean_update [of r "fst d" "snd d"] by (simp add: add_default_def)
  with Cons show ?case by simp
qed simp

lemma public_names:
  "\<not> sensitiveKey ''decision_id''" "\<not> sensitiveKey ''task_id''" "\<not> sensitiveKey ''tool_arguments_digest''" "\<not> sensitiveKey ''decision_summary''"
  "list_all clean_field decision_defaults"
  by code_simp+

lemma clean_str: "\<not> sensitiveKey k \<Longrightarrow> clean_field (k, JStr s)"
  by (simp add: clean_field_def)

lemma clean_digest: "list_all clean_field r \<Longrightarrow> list_all clean_field (digest_arguments key r)"
  unfolding digest_arguments_def
  by (auto split: option.split intro: clean_delete clean_update clean_str [OF public_names(3)])

lemma redacted_normalizeDecision:
  assumes "redacted val"
  shows "redacted (normalizeDecision i n val)"
proof -
  define r where "r = (case val of JObj kvs \<Rightarrow> kvs | _ \<Rightarrow> [(''decision_summary'', JStr ''structured workflow decision'')])"
  have "list_all clean_field r"
    using assms clean_str [OF public_names(4)] by (cases val) (simp_all add: r_def redacted_obj del: redacted.simps)
  then have "list_all clean_field (AList.update ''task_id'' (JStr i) (AList.update ''decision_id'' (JStr x) r))" for x
    by (intro clean_update clean_str public_names)
  from clean_digest [OF clean_digest [OF clean_defaults [OF this public_names(5)]]]
  have "list_all clean_field (sort_keys (digest_arguments ''arguments'' (digest_arguments ''tool_arguments''
    (fold add_default decision_defaults (AList.update ''task_id'' (JStr i) (AList.update ''decision_id'' (JStr x) r))))))" for x
    by (simp add: sort_keys_def list_all_iff)
  then show ?thesis unfolding normalizeDecision_def Let_def r_def [symmetric] redacted_obj .
qed

lemma redacted_marshalPayload: "marshalPayload i n typ data = Inr j \<Longrightarrow> redacted j"
  by (auto simp: marshalPayload_def Let_def redacted_redactValue redacted_normalizeDecision split: sum.splits if_splits)

end
