(* ===== verification/Runtime.thy ===== *)
theory Runtime
  imports Read_Scope Redact
begin

text \<open>
  The bookkeeping of the bounded agent runtime: the budget of a task (\<open>internal/agent/reducer.go\<close>) and the pure functions of
  \<open>internal/agent/general.go\<close>. A Go \<open>int\<close> is an \<open>int\<close>: the counters stay far below their range. A function that updates the
  checkpoint and returns an error does both, as with a pointer. Raw JSON is its text, as \<open>json.Marshal\<close> wrote it.
\<close>

subsection \<open>reducer.go\<close>

definition MaxIterations :: int where "MaxIterations = 12"
definition MaxToolCalls :: int where "MaxToolCalls = 30"
definition MaxReplans :: int where "MaxReplans = 3"
definition MaxNoProgressRepeats :: int where "MaxNoProgressRepeats = 2"
definition DefaultTaskTimeout :: duration where "DefaultTaskTimeout = 2 * minute"

definition initializeRuntime :: "timestamp \<Rightarrow> RuntimeCheckpoint \<Rightarrow> RuntimeCheckpoint" where
  "initializeRuntime now c =
     (let c = (if rc_MaxIterations c = 0 then c\<lparr>rc_MaxIterations := MaxIterations\<rparr> else c);
          c = (if rc_MaxToolCalls c = 0 then c\<lparr>rc_MaxToolCalls := MaxToolCalls\<rparr> else c);
          c = (if rc_StartedAt c = 0 then c\<lparr>rc_StartedAt := now\<rparr> else c)
      in if rc_DeadlineAt c = 0 then c\<lparr>rc_DeadlineAt := rc_StartedAt c + DefaultTaskTimeout\<rparr> else c)"

definition beginDecision :: "timestamp \<Rightarrow> RuntimeCheckpoint \<Rightarrow> unit result \<times> RuntimeCheckpoint" where
  "beginDecision now c =
     (let c = initializeRuntime now c in
      if \<not> now < rc_DeadlineAt c then (Inl (Wrapf ''agent task deadline reached'' DeadlineExceeded), c)
      else if rc_Iterations c \<ge> rc_MaxIterations c then (Inl (ErrorNew (''agent iteration limit reached: '' @ itoa (rc_MaxIterations c))), c)
      else (Inr (), c\<lparr>rc_Iterations := rc_Iterations c + 1\<rparr>))"

definition reserveToolCall :: "RuntimeCheckpoint \<Rightarrow> unit result \<times> RuntimeCheckpoint" where
  "reserveToolCall c =
     (if rc_ToolCalls c \<ge> rc_MaxToolCalls c then (Inl (ErrorNew (''agent tool-call limit reached: '' @ itoa (rc_MaxToolCalls c))), c)
      else (Inr (), c\<lparr>rc_ToolCalls := rc_ToolCalls c + 1\<rparr>))"

definition recordReplan :: "RuntimeCheckpoint \<Rightarrow> unit result \<times> RuntimeCheckpoint" where
  "recordReplan c =
     (let c = c\<lparr>rc_Replans := rc_Replans c + 1\<rparr> in
      (if rc_Replans c > MaxReplans then Inl (ErrorNew (''agent replan limit reached: '' @ itoa MaxReplans)) else Inr (), c))"

text \<open>A nil \<open>json.RawMessage\<close> is written as \<open>null\<close>; \<open>JNum\<close> writes its text as it is.\<close>

definition raw_json :: "string \<Rightarrow> json" where
  "raw_json s = (if s = [] then JNull else JNum s)"

definition observationDigest :: "RuntimeObservation \<Rightarrow> string" where
  "observationDigest o1 = sha256_hex (json_text (JObj [(''server_id'', JStr (ob_ServerID o1)), (''tool'', JStr (ob_Tool o1)),
     (''arguments'', raw_json (ob_Arguments o1)), (''result'', raw_json (ob_Result o1))]))"

definition recordObservation :: "RuntimeObservation \<Rightarrow> RuntimeCheckpoint \<Rightarrow> unit result \<times> RuntimeCheckpoint" where
  "recordObservation o1 c =
     (let digest = observationDigest o1;
          o1 = o1\<lparr>ob_Digest := digest\<rparr>;
          c = (if digest = rc_LastProgressDigest c then c\<lparr>rc_NoProgressRepeats := rc_NoProgressRepeats c + 1\<rparr>
               else c\<lparr>rc_NoProgressRepeats := 0, rc_LastProgressDigest := digest\<rparr>);
          c = c\<lparr>rc_Observations := rc_Observations c @ [o1]\<rparr>
      in (if rc_NoProgressRepeats c \<ge> MaxNoProgressRepeats then Inl (ErrorNew ''agent stopped after three identical tool observations'') else Inr (), c))"

subsection \<open>general.go: deciding when to stop\<close>

definition maxObservationBytes :: nat where "maxObservationBytes = 128 * 1024"
definition generalFinalizationReserve :: duration where "generalFinalizationReserve = minute"

definition has_evidence :: "Task \<Rightarrow> bool" where
  "has_evidence v \<longleftrightarrow> rc_Observations (t_Runtime v) \<noteq> [] \<and> t_EvidenceRefs v \<noteq> []"

definition shouldFinalizeGeneral :: "Task \<Rightarrow> timestamp \<Rightarrow> bool" where
  "shouldFinalizeGeneral v now \<longleftrightarrow> has_evidence v \<and> \<not> now < rc_DeadlineAt (t_Runtime v) - generalFinalizationReserve"

definition beginGeneralDecision :: "timestamp \<Rightarrow> bool \<Rightarrow> RuntimeCheckpoint \<Rightarrow> unit result \<times> RuntimeCheckpoint" where
  "beginGeneralDecision now finalOnly c =
     (let c = initializeRuntime now c in
      if \<not> now < rc_DeadlineAt c then (Inl (Wrapf ''agent task deadline reached'' DeadlineExceeded), c)
      else if rc_Iterations c \<ge> rc_MaxIterations c then
        (if finalOnly then (Inr (), c) else (Inl (ErrorNew (''agent iteration limit reached: '' @ itoa (rc_MaxIterations c))), c))
      else (Inr (), c\<lparr>rc_Iterations := rc_Iterations c + 1\<rparr>))"

definition generalDecisionDeadline :: "Task \<Rightarrow> bool \<Rightarrow> timestamp" where
  "generalDecisionDeadline v finalOnly =
     (if finalOnly \<or> \<not> has_evidence v then rc_DeadlineAt (t_Runtime v) else rc_DeadlineAt (t_Runtime v) - generalFinalizationReserve)"

definition txt_replan :: string \<comment> \<open>the model tried to finish or to request an action without evidence and has to plan again\<close> where
  "txt_replan = hx ''e6a8a1e59e8be59ca8e7bcbae5b091204d435020e8af81e68daee697b6e5b09de8af95e5ae8ce68890e68896e794b3e8afb7e58f97e7aea1e58aa8e4bd9cefbc9be5bf85e9a1bbe6a0b9e68daee794a8e688b7e79baee6a087e9878de696b0e8a784e58892e5b9b6e98089e68ba9e79bb8e585b3e79a84e5b7b2e58f91e78eb0e58faae8afbb204d435020e5b7a5e585b7''"

definition zero_decision :: Decision where
  "zero_decision = \<lparr>de_Kind = OtherKind [], de_DecisionSummary = [], de_ServerID = [], de_Tool = [], de_Arguments = None,
     de_Target = \<lparr>at_Type = [], at_ID = [], at_Criticality = []\<rparr>, de_ExpectedObservation = [], de_FinalAnswer = []\<rparr>"

definition replanWithoutEvidence :: "Decision \<Rightarrow> Task \<Rightarrow> Decision \<times> bool" where
  "replanWithoutEvidence d v =
     (if de_Kind d \<noteq> DecisionFinal \<and> de_Kind d \<noteq> DecisionActionRequest \<or> has_evidence v then (d, False)
      else (zero_decision\<lparr>de_Kind := DecisionReplan, de_DecisionSummary := txt_replan\<rparr>, True))"

subsection \<open>general.go: observations\<close>

definition boundedToolError :: "string \<Rightarrow> string" where
  "boundedToolError message =
     (let m = TrimSpace message in
      if m = [] then ''tool failed without a message'' else if length m \<le> 1024 then m else take 1024 m @ ''...'')"

text \<open>The value that is kept of an observation; \<open>boundedObservation\<close> is its text.\<close>

definition bounded_value :: "json \<Rightarrow> json" where
  "bounded_value v =
     (let b = json_text v in
      if length b \<le> maxObservationBytes then v
      else json_map (Some [(''truncated'', JBool True), (''original_bytes'', json_int (int (length b))), (''sha256'', JStr (sha256_hex b)),
        (''next_action'', JStr ''rerun the same read tool with narrower bounded arguments'')]))"

definition boundedObservation :: "json \<Rightarrow> string" where
  "boundedObservation v = json_text (bounded_value v)"

text \<open>\<open>hex.EncodeToString(sum[:6])\<close>: the first twelve digits.\<close>

definition shortDigest :: "string \<Rightarrow> string" where
  "shortDigest v = ''sha256:'' @ take 12 (sha256_hex v)"

definition plannerObservations :: "RuntimeObservation list \<Rightarrow> Observation list" where
  "plannerObservations = map (\<lambda>x. \<lparr>pv_Tool = ob_Tool x, pv_Arguments = ob_Arguments x, pv_Result = ob_Result x, pv_EvidenceRef = ob_EvidenceRef x\<rparr>)"

definition object_field :: "json \<Rightarrow> string \<Rightarrow> json option" where
  "object_field j k = (case j of JObj m \<Rightarrow> map_of m k | _ \<Rightarrow> None)"

fun capture_paths :: "json list \<Rightarrow> string list \<Rightarrow> string list" where
  "capture_paths [] sel = sel"
| "capture_paths (i # is) sel =
     (case object_field i ''path'' of
        Some (JStr p) \<Rightarrow> capture_paths is (if p \<noteq> [] \<and> p \<notin> set sel \<and> length sel < 100 then sel @ [p] else sel)
      | _ \<Rightarrow> capture_paths is sel)"

definition captureSelectedResources :: "string \<Rightarrow> json \<Rightarrow> Task \<Rightarrow> Task" where
  "captureSelectedResources tool structured v =
     (if tool \<noteq> ''file.find_large'' then v
      else (case object_field structured ''files'' of
          Some (JArr items) \<Rightarrow> v\<lparr>t_SelectedResources := capture_paths items (t_SelectedResources v)\<rparr>
        | _ \<Rightarrow> v))"

end
