(* ===== verification/Schema.thy ===== *)
theory Schema
  imports Json
begin

text \<open>
  \<open>internal/agent/schema.go\<close>: the check of tool arguments against the schema the tool announced. Decoding JSON, compiling a regular expression
  that comes with a schema, converting a JSON number to a float and printing a value with \<open>fmt.Sprint\<close> are arguments of the model; a
  float is its mantissa and binary exponent. A \<open>map[string]any\<close> is an association list with distinct keys; Go visits it in some order, the
  model in the order of the list, which decides only which of several errors is reported.
\<close>

type_synonym float64 = "int \<times> int"

definition float_less :: "float64 \<Rightarrow> float64 \<Rightarrow> bool" where
  "float_less x y = (case x of (a, b) \<Rightarrow> case y of (c, d) \<Rightarrow> let e = min b d in a * 2 ^ nat (b - e) < c * 2 ^ nat (d - e))"

text \<open>\<open>math.Trunc(x) == x\<close>.\<close>

definition float_integral :: "float64 \<Rightarrow> bool" where
  "float_integral x = (case x of (a, b) \<Rightarrow> 0 \<le> b \<or> a mod 2 ^ nat (- b) = 0)"

record schema_env =
  sv_Unmarshal :: "string \<Rightarrow> json result"
  sv_float :: "string \<Rightarrow> float64 option"
  sv_regexp :: "string \<Rightarrow> (string \<Rightarrow> bool) option"
  sv_sprint :: "json \<Rightarrow> string"

type_synonym schema = "(string \<times> json) list"

definition numeric :: "schema_env \<Rightarrow> json option \<Rightarrow> float64 option" where
  "numeric env v = (case v of Some (JNum s) \<Rightarrow> sv_float env s | _ \<Rightarrow> None)"

definition validateNumberBounds :: "schema_env \<Rightarrow> schema \<Rightarrow> float64 \<Rightarrow> string \<Rightarrow> unit result" where
  "validateNumberBounds env sch n path =
     (if (case numeric env (map_of sch ''minimum'') of Some m \<Rightarrow> float_less n m | None \<Rightarrow> False) then Inl (ErrorNew (path @ '' is below minimum %v''))
      else if (case numeric env (map_of sch ''maximum'') of Some m \<Rightarrow> float_less m n | None \<Rightarrow> False) then Inl (ErrorNew (path @ '' exceeds maximum %v''))
      else Inr ())"

definition validateEnum :: "schema_env \<Rightarrow> schema \<Rightarrow> json \<Rightarrow> string \<Rightarrow> unit result" where
  "validateEnum env sch v path =
     (case map_of sch ''enum'' of
        Some (JArr items) \<Rightarrow> if list_ex (\<lambda>i. sv_sprint env i = sv_sprint env v) items then Inr () else Inl (ErrorNew (path @ '' is outside the allowed enum''))
      | _ \<Rightarrow> Inr ())"

definition type_name :: "schema \<Rightarrow> bool \<Rightarrow> string" where
  "type_name sch isRoot = (let t = (case map_of sch ''type'' of Some (JStr t) \<Rightarrow> t | _ \<Rightarrow> []) in if isRoot \<and> t = [] then ''object'' else t)"

definition required_names :: "schema \<Rightarrow> string list" where
  "required_names sch = (case map_of sch ''required'' of Some (JArr xs) \<Rightarrow> concat (map (\<lambda>x. case x of JStr n \<Rightarrow> [n] | _ \<Rightarrow> []) xs) | _ \<Rightarrow> [])"

definition properties_of :: "schema \<Rightarrow> schema" where
  "properties_of sch = (case map_of sch ''properties'' of Some (JObj m) \<Rightarrow> m | _ \<Rightarrow> [])"

definition closed_schema :: "schema \<Rightarrow> bool" where
  "closed_schema sch \<longleftrightarrow> map_of sch ''additionalProperties'' = Some (JBool False)"

definition check_string :: "schema_env \<Rightarrow> schema \<Rightarrow> string \<Rightarrow> string \<Rightarrow> unit result" where
  "check_string env sch s path =
     (case map_of sch ''pattern'' of
        Some (JStr p) \<Rightarrow>
          (case sv_regexp env p of None \<Rightarrow> Inl (ErrorNew (path @ '' has invalid discovered pattern''))
           | Some re \<Rightarrow> if re s then validateEnum env sch (JStr s) path else Inl (ErrorNew (path @ '' does not match the required pattern'')))
      | _ \<Rightarrow> validateEnum env sch (JStr s) path)"

definition check_number :: "schema_env \<Rightarrow> bool \<Rightarrow> schema \<Rightarrow> json \<Rightarrow> string \<Rightarrow> unit result" where
  "check_number env integral sch v path =
     (case numeric env (Some v) of
        None \<Rightarrow> Inl (ErrorNew (path @ (if integral then '' must be an integer'' else '' must be a number'')))
      | Some n \<Rightarrow> if integral \<and> \<not> float_integral n then Inl (ErrorNew (path @ '' must be an integer'')) else validateNumberBounds env sch n path)"

text \<open>The cases of the switch that do not look inside the value.\<close>

definition check_leaf :: "schema_env \<Rightarrow> string \<Rightarrow> schema \<Rightarrow> json \<Rightarrow> string \<Rightarrow> unit result" where
  "check_leaf env typeName sch v path =
     (if typeName = ''string'' then (case v of JStr s \<Rightarrow> check_string env sch s path | _ \<Rightarrow> Inl (ErrorNew (path @ '' must be a string'')))
      else if typeName = ''integer'' then check_number env True sch v path
      else if typeName = ''number'' then check_number env False sch v path
      else if typeName = ''boolean'' then (case v of JBool _ \<Rightarrow> Inr () | _ \<Rightarrow> Inl (ErrorNew (path @ '' must be a boolean'')))
      else if typeName = [] \<or> typeName = ''null'' then Inr ()
      else Inl (ErrorNew (path @ '' uses unsupported discovered schema type %q'')))"

definition missing_names :: "schema \<Rightarrow> (string \<times> json) list \<Rightarrow> string list" where
  "missing_names sch m = filter (\<lambda>n. n \<notin> fst ` set m) (required_names sch)"

definition item_schema :: "schema \<Rightarrow> schema option" where
  "item_schema sch = (case map_of sch ''items'' of Some (JObj item) \<Rightarrow> Some item | _ \<Rightarrow> None)"

datatype shape = ObjectShape | ArrayShape | LeafShape

definition shape_of :: "string \<Rightarrow> shape" where
  "shape_of typeName = (if typeName = ''object'' then ObjectShape else if typeName = ''array'' then ArrayShape else LeafShape)"

function validateSchemaValue :: "schema_env \<Rightarrow> schema \<Rightarrow> json \<Rightarrow> string \<Rightarrow> bool \<Rightarrow> unit result"
and validate_fields :: "schema_env \<Rightarrow> schema \<Rightarrow> (string \<times> json) list \<Rightarrow> string \<Rightarrow> unit result"
and validate_items :: "schema_env \<Rightarrow> schema \<Rightarrow> json list \<Rightarrow> string \<Rightarrow> nat \<Rightarrow> unit result" where
  "validateSchemaValue env sch v path isRoot =
     (case shape_of (type_name sch isRoot) of
        LeafShape \<Rightarrow> check_leaf env (type_name sch isRoot) sch v path
      | ObjectShape \<Rightarrow>
        (case v of JObj m \<Rightarrow>
           (case missing_names sch m of n # _ \<Rightarrow> Inl (ErrorNew (path @ ''.'' @ n @ '' is required'')) | [] \<Rightarrow> validate_fields env sch m path)
         | _ \<Rightarrow> Inl (ErrorNew (path @ '' must be an object'')))
      | ArrayShape \<Rightarrow>
        (case v of JArr xs \<Rightarrow> (case item_schema sch of Some item \<Rightarrow> validate_items env item xs path 0 | None \<Rightarrow> Inr ())
         | _ \<Rightarrow> Inl (ErrorNew (path @ '' must be an array''))))"
| "validate_fields env sch [] path = Inr ()"
| "validate_fields env sch ((name, child) # m) path =
     (case map_of (properties_of sch) name of
        None \<Rightarrow> if closed_schema sch then Inl (ErrorNew (path @ ''.'' @ name @ '' is not allowed'')) else validate_fields env sch m path
      | Some (JObj childSchema) \<Rightarrow>
        (case validateSchemaValue env childSchema child (path @ ''.'' @ name) False of Inl e \<Rightarrow> Inl e | Inr _ \<Rightarrow> validate_fields env sch m path)
      | Some _ \<Rightarrow> Inl (ErrorNew (path @ ''.'' @ name @ '' has an invalid discovered schema'')))"
| "validate_items env item [] path i = Inr ()"
| "validate_items env item (x # xs) path i =
     (case validateSchemaValue env item x (path @ ''['' @ itoa (int i) @ '']'') False of Inl e \<Rightarrow> Inl e | Inr _ \<Rightarrow> validate_items env item xs path (Suc i))"
  by pat_completeness auto

termination
  by (relation "measure (\<lambda>x. case x of Inl (_, _, v, _, _) \<Rightarrow> size v
      | Inr y \<Rightarrow> (case y of Inl (_, _, m, _) \<Rightarrow> size_list (size_prod (\<lambda>_. 0) size) m | Inr (_, _, xs, _, _) \<Rightarrow> size_list size xs))") simp_all

declare validateSchemaValue.simps [simp del]

text \<open>The schema must decode to an object; the text \<open>null\<close> is no schema.\<close>

definition validateToolArguments :: "schema_env \<Rightarrow> string \<Rightarrow> (string \<times> json) list \<Rightarrow> unit result" where
  "validateToolArguments env raw arguments =
     (if raw = [] \<or> raw = ''null'' then Inl (ErrorNew ''tool has no discovered input schema'')
      else (case sv_Unmarshal env raw of
          Inl e \<Rightarrow> Inl e
        | Inr (JObj sch) \<Rightarrow> validateSchemaValue env sch (JObj arguments) [CHR ''$''] True
        | Inr JNull \<Rightarrow> validateSchemaValue env [] (JObj arguments) [CHR ''$''] True
        | Inr _ \<Rightarrow> Inl EIO))"

subsection \<open>What an accepted object looks like\<close>

definition field_ok :: "schema_env \<Rightarrow> schema \<Rightarrow> string \<Rightarrow> string \<times> json \<Rightarrow> bool" where
  "field_ok env sch path f \<longleftrightarrow> (case map_of (properties_of sch) (fst f) of None \<Rightarrow> \<not> closed_schema sch
     | Some (JObj s) \<Rightarrow> is_ok (validateSchemaValue env s (snd f) (path @ ''.'' @ fst f) False) | Some _ \<Rightarrow> False)"

lemma validate_fields_iff: "is_ok (validate_fields env sch m path) \<longleftrightarrow> list_all (field_ok env sch path) m"
proof (induction m)
  case (Cons f m)
  obtain n c where f: "f = (n, c)" by (cases f)
  show ?case
  proof (cases "\<exists>s. map_of (properties_of sch) n = Some (JObj s)")
    case True
    then obtain s where s: "map_of (properties_of sch) n = Some (JObj s)" by blast
    with Cons show ?thesis by (cases "validateSchemaValue env s c (path @ ''.'' @ n) False") (simp_all add: f field_ok_def)
  next
    case False
    with Cons show ?thesis by (cases "map_of (properties_of sch) n") (auto simp: f field_ok_def split: json.split)
  qed
qed simp

lemma validate_object_iff:
  assumes "type_name sch isRoot = ''object''"
  shows "is_ok (validateSchemaValue env sch v path isRoot) \<longleftrightarrow>
    (\<exists>m. v = JObj m \<and> set (required_names sch) \<subseteq> fst ` set m \<and> is_ok (validate_fields env sch m path))"
proof (cases v)
  case (JObj m)
  have "missing_names sch m = [] \<longleftrightarrow> set (required_names sch) \<subseteq> fst ` set m" by (auto simp: missing_names_def filter_empty_conv)
  with assms JObj show ?thesis by (subst validateSchemaValue.simps) (auto simp: shape_of_def split: list.split)
qed (use assms in \<open>simp_all add: shape_of_def validateSchemaValue.simps\<close>)

end
