(* ===== verification/Storage_Safety.thy ===== *)
theory Storage_Safety
  imports Storage
begin

text \<open>
  What the store promises to the workers: a lease is exclusive, a worker without it is fenced off for good, and the
  preparation of a task is atomic under failures and restarts. One effect lemma per operation says which documents it may
  write; the theorems follow over histories of operations.
\<close>

subsection \<open>Effects of the file operations\<close>

lemma store_path_inj:
  assumes "CHR ''/'' \<notin> set k" "CHR ''/'' \<notin> set k'"
  shows "store_path k i = store_path k' i' \<longleftrightarrow> k = k' \<and> i = i'"
proof -
  have "takeWhile (\<lambda>c. c \<noteq> CHR ''/'') (store_path k i) = k" if "CHR ''/'' \<notin> set k" for k i
    using that by (simp add: store_path_def takeWhile_append)
  with assms have "store_path k i = store_path k' i' \<Longrightarrow> k = k'" by metis
  then show ?thesis by (auto simp: store_path_def)
qed

lemma kind_paths [simp]:
  "store_path ''tasks'' i = store_path ''tasks'' j \<longleftrightarrow> i = j"
  "store_path ''sessions'' i = store_path ''sessions'' j \<longleftrightarrow> i = j"
  "store_path ''state'' i = store_path ''state'' j \<longleftrightarrow> i = j"
  "store_path ''tasks'' i \<noteq> store_path ''sessions'' j" "store_path ''sessions'' j \<noteq> store_path ''tasks'' i"
  "store_path ''tasks'' i \<noteq> store_path ''state'' j" "store_path ''state'' j \<noteq> store_path ''tasks'' i"
  "store_path ''sessions'' i \<noteq> store_path ''state'' j" "store_path ''state'' j \<noteq> store_path ''sessions'' i"
  by (simp_all add: store_path_inj)

lemma preparationID_inj [simp]: "preparationID i = preparationID j \<longleftrightarrow> i = j"
  by (simp add: preparationID_def)

lemma withExclusive_cases:
  assumes "withExclusive op d = (r, d')"
  obtains (busy) "r = Inl EIO" "files d' = files d" | (run) d1 where "files d1 = files d" "op d1 = (r, d')"
  using assms by (auto simp: withExclusive_def split: prod.splits if_splits dest: calls_files)

lemma loadLocked_files: "loadLocked pick k i d = (r, d') \<Longrightarrow> files d' = files d"
  by (auto simp: loadLocked_def split: prod.splits sum.splits doc.splits option.splits dest: read_file_files)

lemma loadLocked_Inr:
  "loadLocked pick k i d = (Inr x, d') \<Longrightarrow> \<exists>v. files d (store_path k i) = Some (Valid v) \<and> pick v = Some x"
  by (auto simp: loadLocked_def split: prod.splits sum.splits doc.splits option.splits dest: read_file_Inr)

lemma loadLocked_NotFound: "loadLocked pick k i d = (Inl ErrNotFound, d') \<Longrightarrow> files d (store_path k i) = None"
  by (auto simp: loadLocked_def read_file_def split: prod.splits sum.splits doc.splits option.splits if_splits)

lemma saveLocked_cases:
  assumes "saveLocked k i v d = (r, d')"
  obtains (saved) "r = Inr ()" "files d' = (files d)(store_path k i \<mapsto> Valid v)"
  | (unchanged) "r = Inl EIO" "files d' = files d"
  | (late) "r = Inl EIO" "files d' = (files d)(store_path k i \<mapsto> Valid v)"
  using assms unfolding saveLocked_def by (cases rule: atomic_replace_cases) auto

lemma pick_iff [simp]: "pick_task v = Some t \<longleftrightarrow> v = TaskDoc t" "pick_session v = Some s \<longleftrightarrow> v = SessionDoc s"
  "pick_preparation v = Some p \<longleftrightarrow> v = PreparationDoc p"
  by (cases v; auto)+

text \<open>Every file is as before or holds one of the listed documents (\<open>None\<close> for a removed file).\<close>

definition changes :: "(string \<times> store_doc option) set \<Rightarrow> (string \<rightharpoonup> store_doc doc) \<Rightarrow> (string \<rightharpoonup> store_doc doc) \<Rightarrow> bool" where
  "changes W fs fs' \<longleftrightarrow> (\<forall>k. fs' k = fs k \<or> (\<exists>v. (k, v) \<in> W \<and> fs' k = map_option Valid v))"

lemma changes_refl [simp]: "changes W fs fs"
  by (simp add: changes_def)

lemma changes_trans: "changes W fs fs1 \<Longrightarrow> changes W fs1 fs2 \<Longrightarrow> changes W fs fs2"
  unfolding changes_def by metis

lemma changes_mono: "changes W fs fs' \<Longrightarrow> W \<subseteq> W' \<Longrightarrow> changes W' fs fs'"
  unfolding changes_def by blast

lemma changes_outside: "changes W fs fs' \<Longrightarrow> k \<notin> fst ` W \<Longrightarrow> fs' k = fs k"
  unfolding changes_def by force

lemma saveLocked_changes: "saveLocked k i v d = (r, d') \<Longrightarrow> (store_path k i, Some v) \<in> W \<Longrightarrow> changes W (files d) (files d')"
  by (erule saveLocked_cases) (auto simp: changes_def)

lemma removePreparation_changes:
  "removePreparationLocked i d = (r, d') \<Longrightarrow> (store_path ''state'' (preparationID i), None) \<in> W \<Longrightarrow> changes W (files d) (files d')"
  unfolding removePreparationLocked_def by (erule remove_file_cases) (auto simp: changes_def)

subsection \<open>Effects of the operations\<close>

lemma SaveSession_changes:
  assumes "SaveSession s d = (r, d')"
  shows "changes {(store_path ''sessions'' (se_ID s), Some (SessionDoc s))} (files d) (files d')"
  using assms by (auto simp: SaveSession_def split: sum.splits elim!: withExclusive_cases dest: saveLocked_changes)

lemma UpdateSession_changes:
  assumes "UpdateSession i f d = (r, d')"
  shows "\<exists>s. changes {(store_path ''sessions'' i, Some (SessionDoc s))} (files d) (files d')"
proof (cases "is_ok (validateID i) \<and> f \<noteq> None")
  case True
  then obtain g where g: "f = Some g" by blast
  have "withExclusive (\<lambda>d. case loadSession i d of (Inl e, d) \<Rightarrow> (Inl e, d)
            | (Inr s, d) \<Rightarrow> (case g s of Inl e \<Rightarrow> (Inl e, d)
              | Inr s' \<Rightarrow>
                if se_ID s' \<noteq> i then (Inl (ErrorNew ''session mutation changed the session id''), d)
                else (case saveLocked ''sessions'' i (SessionDoc s') d of (Inl e, d) \<Rightarrow> (Inl e, d) | (Inr _, d) \<Rightarrow> (Inr s', d)))) d = (r, d')"
    using assms True g by (auto simp: UpdateSession_def is_ok_iff)
  then show ?thesis
  proof (cases rule: withExclusive_cases)
    case (run d1)
    obtain l d2 where L: "loadSession i d1 = (l, d2)" by fastforce
    note f2 = loadLocked_files [OF L]
    show ?thesis
    proof (cases "\<exists>s s'. l = Inr s \<and> g s = Inr s' \<and> se_ID s' = i")
      case True
      then obtain s s' where s: "l = Inr s" "g s = Inr s'" "se_ID s' = i" by blast
      obtain w d3 where S: "saveLocked ''sessions'' i (SessionDoc s') d2 = (w, d3)" by fastforce
      with run L s have "d' = d3" by (auto split: sum.splits)
      with saveLocked_changes [OF S insertI1] f2 run(1) show ?thesis by auto
    next
      case False
      with run L f2 show ?thesis by (auto split: sum.splits if_splits)
    qed
  qed simp
qed (use assms in \<open>auto simp: UpdateSession_def split: sum.splits\<close>)

lemma SaveTask_effect:
  assumes "SaveTask now v d = (r, d')"
  shows "(files d' = files d \<and> \<not> is_ok r) \<or>
    (files d' = (files d)(store_path ''tasks'' (t_ID v) \<mapsto> Valid (TaskDoc v))
      \<and> (files d (store_path ''tasks'' (t_ID v)) = None
         \<or> (\<exists>t. files d (store_path ''tasks'' (t_ID v)) = Some (Valid (TaskDoc t)) \<and> validateTaskWrite now t v = Inr ())))"
proof (cases "validateID (t_ID v)")
  case (Inr u)
  have "withExclusive (\<lambda>d. case loadTask (t_ID v) d of
            (Inl e, d) \<Rightarrow> if e \<noteq> ErrNotFound then (Inl e, d) else saveLocked ''tasks'' (t_ID v) (TaskDoc v) d
          | (Inr current, d) \<Rightarrow> (case validateTaskWrite now current v of Inl e \<Rightarrow> (Inl e, d)
              | Inr _ \<Rightarrow> saveLocked ''tasks'' (t_ID v) (TaskDoc v) d)) d = (r, d')"
    using assms Inr by (simp add: SaveTask_def)
  then show ?thesis
  proof (cases rule: withExclusive_cases)
    case (run d1)
    obtain l d2 where L: "loadTask (t_ID v) d1 = (l, d2)" by fastforce
    note f2 = loadLocked_files [OF L]
    have cases: "files d' = files d2 \<and> \<not> is_ok r \<or> files d' = (files d2)(store_path ''tasks'' (t_ID v) \<mapsto> Valid (TaskDoc v))"
      if "saveLocked ''tasks'' (t_ID v) (TaskDoc v) d2 = (r, d')" using that by (cases rule: saveLocked_cases) auto
    show ?thesis
    proof (cases l)
      case (Inl e)
      with run L f2 loadLocked_NotFound [of pick_task "''tasks''" "t_ID v" d1 d2] cases show ?thesis by (auto split: if_splits)
    next
      case (Inr t)
      with loadLocked_Inr [of pick_task "''tasks''" "t_ID v" d1 t d2] L run(1)
      have "files d (store_path ''tasks'' (t_ID v)) = Some (Valid (TaskDoc t))" by simp
      with run L f2 Inr cases show ?thesis by (cases "validateTaskWrite now t v") (auto simp: is_ok_iff)
    qed
  qed simp
qed (use assms in \<open>auto simp: SaveTask_def is_ok_iff\<close>)

text \<open>\<open>ClaimTask\<close> and \<open>ReleaseTask\<close> load a task, check its lease and replace it.\<close>

lemma load_update_effect:
  assumes "withExclusive (\<lambda>d. case loadTask i d of (Inl e, d) \<Rightarrow> (Inl e, d)
      | (Inr t, d) \<Rightarrow> if refuse t then (Inl err, d)
          else let t' = f t in (case saveLocked ''tasks'' i (TaskDoc t') d of (Inl e, d) \<Rightarrow> (Inl e, d) | (Inr _, d) \<Rightarrow> (Inr t', d))) d = (r, d')"
  shows "(files d' = files d \<and> \<not> is_ok r) \<or>
    (\<exists>t. files d (store_path ''tasks'' i) = Some (Valid (TaskDoc t)) \<and> \<not> refuse t \<and> (\<forall>x. r = Inr x \<longrightarrow> x = f t)
      \<and> files d' = (files d)(store_path ''tasks'' i \<mapsto> Valid (TaskDoc (f t))))"
  using assms
proof (cases rule: withExclusive_cases)
  case (run d1)
  obtain l d2 where L: "loadTask i d1 = (l, d2)" by fastforce
  note f2 = loadLocked_files [OF L]
  show ?thesis
  proof (cases l)
    case (Inr t)
    with loadLocked_Inr [of pick_task "''tasks''" i d1 t d2] L run(1)
    have t: "files d (store_path ''tasks'' i) = Some (Valid (TaskDoc t))" by simp
    obtain w d3 where S: "saveLocked ''tasks'' i (TaskDoc (f t)) d2 = (w, d3)" by fastforce
    from S show ?thesis
      by (cases rule: saveLocked_cases) (use run L f2 Inr t S in \<open>auto simp: Let_def split: if_splits\<close>)
  qed (use run L f2 in auto)
qed simp

lemma ClaimTask_effect:
  assumes "ClaimTask now i owner token ttl d = (r, d')"
  shows "(files d' = files d \<and> \<not> is_ok r) \<or>
    (\<exists>t. files d (store_path ''tasks'' i) = Some (Valid (TaskDoc t)) \<and> \<not> (wl_Token (t_WorkerLease t) \<noteq> [] \<and> now < wl_ExpiresAt (t_WorkerLease t))
      \<and> TrimSpace token \<noteq> [] \<and> 0 < ttl \<and> (\<forall>x. r = Inr x \<longrightarrow> x = claimed owner token ttl now t)
      \<and> files d' = (files d)(store_path ''tasks'' i \<mapsto> Valid (TaskDoc (claimed owner token ttl now t))))"
proof (cases "is_ok (validateID i) \<and> TrimSpace owner \<noteq> [] \<and> TrimSpace token \<noteq> [] \<and> 0 < ttl \<and> ttl \<le> 10 * minute")
  case True
  with assms show ?thesis
    using load_update_effect [where i = i and refuse = "\<lambda>t. wl_Token (t_WorkerLease t) \<noteq> [] \<and> now < wl_ExpiresAt (t_WorkerLease t)"
      and err = ErrTaskLeased and f = "claimed owner token ttl now" and d = d and r = r and d' = d']
    by (auto simp: ClaimTask_def is_ok_iff)
qed (use assms in \<open>auto simp: ClaimTask_def split: sum.splits if_splits\<close>)

lemma ReleaseTask_effect:
  assumes "ReleaseTask i token fence d = (r, d')"
  shows "(files d' = files d \<and> \<not> is_ok r) \<or>
    (\<exists>t. files d (store_path ''tasks'' i) = Some (Valid (TaskDoc t)) \<and> wl_Token (t_WorkerLease t) = token \<and> wl_Fence (t_WorkerLease t) = fence
      \<and> (\<forall>x. r = Inr x \<longrightarrow> x = released t) \<and> files d' = (files d)(store_path ''tasks'' i \<mapsto> Valid (TaskDoc (released t))))"
proof (cases "is_ok (validateID i)")
  case True
  with assms show ?thesis
    using load_update_effect [where i = i and refuse = "\<lambda>t. wl_Token (t_WorkerLease t) \<noteq> token \<or> wl_Fence (t_WorkerLease t) \<noteq> fence"
      and err = ErrLeaseConflict and f = released and d = d and r = r and d' = d']
    by (auto simp: ReleaseTask_def is_ok_iff)
qed (use assms in \<open>auto simp: ReleaseTask_def split: sum.splits\<close>)

lemma commit_preparation_changes:
  assumes "commit_preparation v s d = (r, d')"
  shows "changes {(store_path ''state'' (preparationID (t_ID v)), Some (PreparationDoc \<lparr>tp_SchemaVersion = 1, tp_Task = v, tp_Session = s\<rparr>)),
      (store_path ''tasks'' (t_ID v), Some (TaskDoc v)), (store_path ''sessions'' (se_ID s), Some (SessionDoc s)),
      (store_path ''state'' (preparationID (t_ID v)), None)} (files d) (files d')"
    (is "changes ?W _ _")
proof -
  obtain r1 d1 where s1: "saveLocked ''state'' (preparationID (t_ID v)) (PreparationDoc \<lparr>tp_SchemaVersion = 1, tp_Task = v, tp_Session = s\<rparr>) d = (r1, d1)" by fastforce
  obtain r2 d2 where s2: "saveLocked ''tasks'' (t_ID v) (TaskDoc v) d1 = (r2, d2)" by fastforce
  obtain r3 d3 where s3: "saveLocked ''sessions'' (se_ID s) (SessionDoc s) d2 = (r3, d3)" by fastforce
  obtain r4 d4 where s4: "removePreparationLocked (t_ID v) d3 = (r4, d4)" by fastforce
  note c1 = saveLocked_changes [OF s1, of ?W] and c2 = saveLocked_changes [OF s2, of ?W] and c3 = saveLocked_changes [OF s3, of ?W]
    and c4 = removePreparation_changes [OF s4, of ?W]
  have "d' = d1 \<or> d' = d2 \<or> d' = d3 \<or> d' = d4"
    using assms s1 s2 s3 s4 by (auto simp: commit_preparation_def split: sum.splits)
  then show ?thesis using c1 c2 c3 c4 changes_trans [of ?W] by (metis insertI1 insertI2)
qed

lemma PrepareTask_effect:
  assumes "PrepareTask v f d = (r, d')"
  obtains (unchanged) "files d' = files d" "\<not> is_ok r"
  | (commit) s d1 r1 where "files d1 = files d" "files d (store_path ''tasks'' (t_ID v)) = None" "se_ID s = t_SessionID v"
      "is_ok (validateID (t_ID v))" "is_ok (validateID (t_SessionID v))"
      "commit_preparation v s d1 = (r1, d')" "is_ok r1 = is_ok r" "\<forall>x. r = Inr x \<longrightarrow> x = s"
proof (cases "is_ok (validateID (t_ID v)) \<and> is_ok (validateID (t_SessionID v)) \<and> f \<noteq> None")
  case True
  then obtain g where g: "f = Some g" by blast
  have "withExclusive (\<lambda>d. case loadTask (t_ID v) d of
                (Inr _, d) \<Rightarrow> (Inl (ErrorNew ''task already exists''), d)
              | (Inl e, d) \<Rightarrow>
                if e \<noteq> ErrNotFound then (Inl e, d)
                else (case loadSession (t_SessionID v) d of (Inl e, d) \<Rightarrow> (Inl e, d)
                  | (Inr s, d) \<Rightarrow> (case g s of Inl e \<Rightarrow> (Inl e, d)
                    | Inr prepared \<Rightarrow>
                      if se_ID prepared \<noteq> t_SessionID v then (Inl (ErrorNew ''session mutation changed the session id''), d)
                      else if length (filter (\<lambda>m. ms_TaskID m = t_ID v) (se_Messages prepared)) \<noteq> 1
                        then (Inl (ErrorNew ''prepared session must contain exactly one message bound to the task''), d)
                      else (case commit_preparation v prepared d of (Inl e, d) \<Rightarrow> (Inl e, d) | (Inr _, d) \<Rightarrow> (Inr prepared, d))))) d = (r, d')"
    using assms True g by (auto simp: PrepareTask_def is_ok_iff)
  then show ?thesis
  proof (cases rule: withExclusive_cases)
    case (run d1)
    obtain l d2 where L: "loadTask (t_ID v) d1 = (l, d2)" by fastforce
    obtain l' d3 where L': "loadSession (t_SessionID v) d2 = (l', d3)" by fastforce
    note f2 = loadLocked_files [OF L] and f3 = loadLocked_files [OF L']
    show ?thesis
    proof (cases "\<exists>s p. l = Inl ErrNotFound \<and> l' = Inr s \<and> g s = Inr p \<and> se_ID p = t_SessionID v
        \<and> length (filter (\<lambda>m. ms_TaskID m = t_ID v) (se_Messages p)) = 1")
      case False
      with run L L' f2 f3 show ?thesis by (intro unchanged) (auto simp: is_ok_iff split: sum.splits if_splits)
    next
      case goes: True
      then obtain s p where s: "l = Inl ErrNotFound" "l' = Inr s" "g s = Inr p" "se_ID p = t_SessionID v"
        "length (filter (\<lambda>m. ms_TaskID m = t_ID v) (se_Messages p)) = 1" by blast
      obtain w d4 where C: "commit_preparation v p d3 = (w, d4)" by fastforce
      have "r = map_sum id (\<lambda>_. p) w \<and> d' = d4" using run(2) L L' s C by (auto split: sum.splits)
      moreover have "files d (store_path ''tasks'' (t_ID v)) = None"
        using loadLocked_NotFound [of pick_task "''tasks''" "t_ID v" d1 d2] L s(1) run(1) by simp
      ultimately show ?thesis using True C s(4) f2 f3 run(1) by (intro commit [of d3 p w]) (auto simp: is_ok_def map_sum_def split: sum.splits)
    qed
  qed (use unchanged in simp)
qed (use assms unchanged in \<open>auto simp: PrepareTask_def split: sum.splits\<close>)

subsection \<open>Journals\<close>

text \<open>A journal is in the file named after its task; the program writes no other.\<close>

definition journals_filed :: "(string \<rightharpoonup> store_doc doc) \<Rightarrow> bool" where
  "journals_filed fs \<longleftrightarrow> (\<forall>j p. fs (store_path ''state'' j) = Some (Valid (PreparationDoc p)) \<longrightarrow> j = preparationID (t_ID (tp_Task p)))"

definition no_journal :: "string \<Rightarrow> (string \<rightharpoonup> store_doc doc) \<Rightarrow> bool" where
  "no_journal i fs \<longleftrightarrow> fs (store_path ''state'' (preparationID i)) = None"

lemma journals_filedD: "journals_filed fs \<Longrightarrow> fs (store_path ''state'' j) = Some (Valid (PreparationDoc p)) \<Longrightarrow> j = preparationID (t_ID (tp_Task p))"
  by (simp add: journals_filed_def)

text \<open>Allowed writes that keep the journals filed and do not concern the task \<open>i\<close>.\<close>

definition elsewhere :: "string \<Rightarrow> (string \<times> store_doc option) set \<Rightarrow> bool" where
  "elsewhere i W \<longleftrightarrow> (\<forall>(k, v) \<in> W. k \<noteq> store_path ''tasks'' i \<and> k \<noteq> store_path ''state'' (preparationID i)
     \<and> (\<forall>j p. k = store_path ''state'' j \<longrightarrow> v = Some (PreparationDoc p) \<longrightarrow> j = preparationID (t_ID (tp_Task p))))"

lemma elsewhere_changes:
  assumes "changes W fs fs'" "elsewhere i W" "journals_filed fs"
  shows "fs' (store_path ''tasks'' i) = fs (store_path ''tasks'' i) \<and> (no_journal i fs' \<longleftrightarrow> no_journal i fs) \<and> journals_filed fs'"
proof -
  have out: "store_path ''tasks'' i \<notin> fst ` W" "store_path ''state'' (preparationID i) \<notin> fst ` W"
    using assms(2) by (auto simp: elsewhere_def)
  note same = changes_outside [OF assms(1) out(1)] changes_outside [OF assms(1) out(2)]
  have "journals_filed fs'"
    unfolding journals_filed_def
  proof (intro allI impI)
    fix j p assume j: "fs' (store_path ''state'' j) = Some (Valid (PreparationDoc p))"
    show "j = preparationID (t_ID (tp_Task p))"
    proof (cases "fs' (store_path ''state'' j) = fs (store_path ''state'' j)")
      case True
      with j journals_filedD [OF assms(3)] show ?thesis by metis
    next
      case False
      with assms(1) obtain v where v: "(store_path ''state'' j, v) \<in> W" "fs' (store_path ''state'' j) = map_option Valid v" by (auto simp: changes_def)
      from v(2) j have "v = Some (PreparationDoc p)" by (cases v) auto
      with v(1) assms(2) show ?thesis by (auto simp: elsewhere_def)
    qed
  qed
  with same show ?thesis by (simp add: no_journal_def)
qed

text \<open>Replaying the journals of other tasks.\<close>

lemma replay_journals_keeps:
  assumes "replay_journals es d = (r, d')" "journals_filed (files d)" "no_journal i (files d)"
  shows "files d' (store_path ''tasks'' i) = files d (store_path ''tasks'' i) \<and> no_journal i (files d') \<and> journals_filed (files d')"
  using assms
proof (induction es arbitrary: d)
  case (Cons e es)
  obtain n b where e: "e = (n, b)" by fastforce
  let ?j = "TrimSuffix n ''.json''"
  obtain l d1 where L: "loadLocked pick_preparation ''state'' ?j d = (l, d1)" by fastforce
  note f1 = loadLocked_files [OF L]
  show ?case
  proof (cases "(b \<or> \<not> prefix ''prepare-'' n \<or> Ext n \<noteq> ''.json'') \<or> \<not> (\<exists>p. l = Inr p \<and> \<not> bad_journal p)")
    case True
    with Cons e L f1 show ?thesis by (auto split: sum.splits if_splits)
  next
    case False
    then obtain p where p: "l = Inr p" "\<not> bad_journal p" and go: "\<not> b" "prefix ''prepare-'' n" "Ext n = ''.json''" by blast
    from loadLocked_Inr [OF L [unfolded p(1)]] have jf: "files d (store_path ''state'' ?j) = Some (Valid (PreparationDoc p))" by auto
    with journals_filedD [OF Cons.prems(2)] have j: "?j = preparationID (t_ID (tp_Task p))" by blast
    with jf Cons.prems(3) have ne: "t_ID (tp_Task p) \<noteq> i" by (auto simp: no_journal_def)
    let ?W = "{(store_path ''tasks'' (t_ID (tp_Task p)), Some (TaskDoc (tp_Task p))), (store_path ''sessions'' (se_ID (tp_Session p)), Some (SessionDoc (tp_Session p))),
      (store_path ''state'' (preparationID (t_ID (tp_Task p))), None)}"
    have W: "elsewhere i ?W" using ne by (simp add: elsewhere_def)
    obtain r2 d2 where s2: "saveLocked ''tasks'' (t_ID (tp_Task p)) (TaskDoc (tp_Task p)) d1 = (r2, d2)" by fastforce
    obtain r3 d3 where s3: "saveLocked ''sessions'' (se_ID (tp_Session p)) (SessionDoc (tp_Session p)) d2 = (r3, d3)" by fastforce
    obtain r4 d4 where s4: "removePreparationLocked (t_ID (tp_Task p)) d3 = (r4, d4)" by fastforce
    note c2 = saveLocked_changes [OF s2, of ?W, simplified] and c3 = saveLocked_changes [OF s3, of ?W, simplified]
      and c4 = removePreparation_changes [OF s4, of ?W, simplified]
    have c: "changes ?W (files d) (files d2)" "changes ?W (files d) (files d3)" "changes ?W (files d) (files d4)"
      using c2 c3 c4 f1 changes_trans [of ?W] by metis+
    have run: "d' = d2 \<or> d' = d3 \<or> d' = d4 \<or> replay_journals es d4 = (r, d')"
      using Cons.prems(1) e L p go s2 s3 s4 by (auto split: sum.splits)
    note ec = elsewhere_changes [OF _ W Cons.prems(2)]
    from run show ?thesis using ec [OF c(1)] ec [OF c(2)] ec [OF c(3)] Cons.IH [of d4] Cons.prems(3) by auto
  qed
qed simp

lemma NewFileStore_keeps:
  assumes "NewFileStore es d = (r, d')" "journals_filed (files d)" "no_journal i (files d)"
  shows "files d' (store_path ''tasks'' i) = files d (store_path ''tasks'' i) \<and> no_journal i (files d') \<and> journals_filed (files d')"
proof -
  obtain ok d1 where c: "calls 7 d = (ok, d1)" by fastforce
  note f1 = calls_files [OF c]
  obtain w d2 where w: "withExclusive (recoverTaskPreparationsLocked es) d1 = (w, d2)" by fastforce
  have "files d2 (store_path ''tasks'' i) = files d (store_path ''tasks'' i) \<and> no_journal i (files d2) \<and> journals_filed (files d2)"
    using w
  proof (cases rule: withExclusive_cases)
    case (run d3)
    obtain ok' d4 where s: "syscall d3 = (ok', d4)" by fastforce
    with syscall_files [OF s] run f1 assms(2,3) replay_journals_keeps [of es d4 w d2 i] show ?thesis
      by (auto simp: recoverTaskPreparationsLocked_def split: if_splits)
  qed (use f1 assms in simp)
  with assms c f1 w show ?thesis by (auto simp: NewFileStore_def split: if_splits sum.splits)
qed

subsection \<open>Histories of the store\<close>

datatype store_op =
    OpSaveTask timestamp Task
  | OpClaim timestamp string string string duration
  | OpRelease string string uint64
  | OpSaveSession Session
  | OpUpdateSession string "(Session \<Rightarrow> Session result) option"
  | OpPrepare Task "(Session \<Rightarrow> Session result) option"
  | OpStart "(string \<times> bool) list"

fun store_do :: "store_op \<Rightarrow> store \<Rightarrow> bool \<times> store" where
  "store_do (OpSaveTask now v) d = map_prod is_ok id (SaveTask now v d)"
| "store_do (OpClaim now i owner token ttl) d = map_prod is_ok id (ClaimTask now i owner token ttl d)"
| "store_do (OpRelease i token fence) d = map_prod is_ok id (ReleaseTask i token fence d)"
| "store_do (OpSaveSession s) d = map_prod is_ok id (SaveSession s d)"
| "store_do (OpUpdateSession i f) d = map_prod is_ok id (UpdateSession i f d)"
| "store_do (OpPrepare v f) d = map_prod is_ok id (PrepareTask v f d)"
| "store_do (OpStart es) d = map_prod is_ok id (NewFileStore es d)"

fun store_run :: "store_op list \<Rightarrow> store \<Rightarrow> store" where
  "store_run [] d = d"
| "store_run (x # xs) d = store_run xs (snd (store_do x d))"

text \<open>The task \<open>i\<close> is stored as \<open>t\<close> and no journal of it is left.\<close>

definition stored :: "string \<Rightarrow> Task \<Rightarrow> (string \<rightharpoonup> store_doc doc) \<Rightarrow> bool" where
  "stored i t fs \<longleftrightarrow> fs (store_path ''tasks'' i) = Some (Valid (TaskDoc t)) \<and> no_journal i fs \<and> journals_filed fs"

text \<open>What an operation may do to a stored task.\<close>

fun task_change :: "string \<Rightarrow> store_op \<Rightarrow> Task \<Rightarrow> Task \<Rightarrow> bool" where
  "task_change i (OpSaveTask now v) t t' \<longleftrightarrow> t_ID v = i \<and> t' = v \<and> validateTaskWrite now t v = Inr ()"
| "task_change i (OpClaim now j owner token ttl) t t' \<longleftrightarrow> j = i \<and> \<not> (wl_Token (t_WorkerLease t) \<noteq> [] \<and> now < wl_ExpiresAt (t_WorkerLease t))
     \<and> TrimSpace token \<noteq> [] \<and> t' = claimed owner token ttl now t"
| "task_change i (OpRelease j token fence) t t' \<longleftrightarrow> j = i \<and> wl_Token (t_WorkerLease t) = token \<and> wl_Fence (t_WorkerLease t) = fence \<and> t' = released t"
| "task_change i _ t t' \<longleftrightarrow> False"

lemma stored_other_task: "stored i t fs \<Longrightarrow> stored i t (fs(store_path ''tasks'' j := v)) \<or> j = i"
  by (auto simp: stored_def no_journal_def journals_filed_def)

lemma stored_replace: "stored i t fs \<Longrightarrow> stored i t' (fs(store_path ''tasks'' i \<mapsto> Valid (TaskDoc t')))"
  by (auto simp: stored_def no_journal_def journals_filed_def)

lemma stored_elsewhere:
  assumes "stored i t fs" "changes W fs fs'" "elsewhere i W"
  shows "stored i t fs'"
  using elsewhere_changes [OF assms(2,3)] assms(1) by (simp add: stored_def)

lemma store_do_stored:
  assumes "store_do x d = (ok, d')" "stored i t (files d)"
  shows "stored i t (files d') \<or> (\<exists>t'. stored i t' (files d') \<and> task_change i x t t')"
proof (cases x)
  case (OpSaveTask now v)
  with assms(1) obtain r where "SaveTask now v d = (r, d')" by (cases "SaveTask now v d") auto
  from SaveTask_effect [OF this] show ?thesis
  proof (elim disjE conjE)
    assume h: "files d' = (files d)(store_path ''tasks'' (t_ID v) \<mapsto> Valid (TaskDoc v))"
      "files d (store_path ''tasks'' (t_ID v)) = None"
    with assms(2) stored_other_task [OF assms(2), of "t_ID v"] show ?thesis by (auto simp: stored_def)
  next
    assume h: "files d' = (files d)(store_path ''tasks'' (t_ID v) \<mapsto> Valid (TaskDoc v))"
      "\<exists>t. files d (store_path ''tasks'' (t_ID v)) = Some (Valid (TaskDoc t)) \<and> validateTaskWrite now t v = Inr ()"
    show ?thesis
    proof (cases "t_ID v = i")
      case True
      with h assms(2) stored_replace [OF assms(2), of v] OpSaveTask show ?thesis by (auto simp: stored_def)
    next
      case False
      with h(1) stored_other_task [OF assms(2), of "t_ID v"] show ?thesis by auto
    qed
  qed (use assms(2) in simp)
next
  case (OpClaim now j owner token ttl)
  with assms(1) obtain r where "ClaimTask now j owner token ttl d = (r, d')" by (cases "ClaimTask now j owner token ttl d") auto
  from ClaimTask_effect [OF this] assms(2) OpClaim stored_replace [OF assms(2)] stored_other_task [OF assms(2), of j] show ?thesis
    by (cases "j = i") (auto simp: stored_def)
next
  case (OpRelease j token fence)
  with assms(1) obtain r where "ReleaseTask j token fence d = (r, d')" by (cases "ReleaseTask j token fence d") auto
  from ReleaseTask_effect [OF this] assms(2) OpRelease stored_replace [OF assms(2)] stored_other_task [OF assms(2), of j] show ?thesis
    by (cases "j = i") (auto simp: stored_def)
next
  case (OpSaveSession s)
  with assms(1) obtain r where "SaveSession s d = (r, d')" by (cases "SaveSession s d") auto
  from stored_elsewhere [OF assms(2) SaveSession_changes [OF this]] show ?thesis by (simp add: elsewhere_def)
next
  case (OpUpdateSession j f)
  with assms(1) obtain r where "UpdateSession j f d = (r, d')" by (cases "UpdateSession j f d") auto
  from UpdateSession_changes [OF this] obtain s where "changes {(store_path ''sessions'' j, Some (SessionDoc s))} (files d) (files d')" by blast
  from stored_elsewhere [OF assms(2) this] show ?thesis by (simp add: elsewhere_def)
next
  case (OpPrepare v f)
  with assms(1) obtain r where "PrepareTask v f d = (r, d')" by (cases "PrepareTask v f d") auto
  then show ?thesis
  proof (cases rule: PrepareTask_effect)
    case (commit s d1 r1)
    have "t_ID v \<noteq> i" using commit(2) assms(2) by (auto simp: stored_def)
    with stored_elsewhere [OF assms(2), of _ "files d'"] commit_preparation_changes [OF commit(6)] commit(1) show ?thesis
      by (auto simp: elsewhere_def)
  qed (use assms(2) in simp)
next
  case (OpStart es)
  with assms(1) obtain r where "NewFileStore es d = (r, d')" by (cases "NewFileStore es d") auto
  from NewFileStore_keeps [OF this] assms(2) show ?thesis by (auto simp: stored_def)
qed

subsection \<open>Leases\<close>

abbreviation fence_of :: "Task \<Rightarrow> uint64" where
  "fence_of t \<equiv> wl_Fence (t_WorkerLease t)"

abbreviation token_of :: "Task \<Rightarrow> string" where
  "token_of t \<equiv> wl_Token (t_WorkerLease t)"

text \<open>The fence a client writes itself leaves room for the claims to come.\<close>

fun fence_room :: "nat \<Rightarrow> store_op \<Rightarrow> bool" where
  "fence_room n (OpSaveTask now v) \<longleftrightarrow> unat (fence_of v) + n < 2 ^ 64"
| "fence_room n _ \<longleftrightarrow> True"

lemma fence_room_mono: "fence_room n x \<Longrightarrow> m \<le> n \<Longrightarrow> fence_room m x"
  by (cases x) auto

lemma task_change_fence:
  assumes "task_change i x t t'" "unat (fence_of t) + 1 < 2 ^ 64"
  shows "fence_of t \<le> fence_of t' \<and> (unat (fence_of t') \<le> unat (fence_of t) + 1 \<or> (\<exists>now v. x = OpSaveTask now v \<and> t' = v))"
proof (cases x)
  case (OpSaveTask now v)
  with assms(1) show ?thesis by (auto simp: validateTaskWrite_def Let_def split: if_splits)
next
  case (OpClaim now j owner token ttl)
  with assms(1) have f: "fence_of t' = fence_of t + 1" by (auto simp: claimed_def)
  have "unat (fence_of t + 1) = unat (fence_of t) + 1" using assms(2) by (simp add: unat_word_ariths)
  with f show ?thesis by (simp add: word_le_nat_alt)
qed (use assms in \<open>auto simp: released_def\<close>)

lemma store_run_fence:
  assumes "stored i t (files d)" "unat (fence_of t) + length xs < 2 ^ 64" "list_all (fence_room (length xs)) xs"
  shows "\<exists>t'. stored i t' (files (store_run xs d)) \<and> fence_of t \<le> fence_of t'"
  using assms
proof (induction xs arbitrary: t d)
  case (Cons x xs)
  obtain ok d1 where x: "store_do x d = (ok, d1)" by fastforce
  have room: "list_all (fence_room (length xs)) xs"
    using Cons.prems(3) by (auto simp: list_all_iff intro: fence_room_mono)
  from store_do_stored [OF x Cons.prems(1)] show ?case
  proof (elim disjE exE conjE)
    assume "stored i t (files d1)"
    with Cons.IH [OF this] Cons.prems(2) room x show ?thesis by simp
  next
    fix t1 assume t1: "stored i t1 (files d1)" "task_change i x t t1"
    from task_change_fence [OF t1(2)] Cons.prems(2) have le: "fence_of t \<le> fence_of t1"
      and up: "unat (fence_of t1) \<le> unat (fence_of t) + 1 \<or> (\<exists>now v. x = OpSaveTask now v \<and> t1 = v)" by auto
    have "unat (fence_of t1) + length xs < 2 ^ 64" using up Cons.prems(2,3) by auto
    with Cons.IH [OF t1(1) _ room] le x show ?thesis by (auto intro: order_trans)
  qed
qed auto

lemma stale_write_refused:
  assumes "stored i t (files d)" "SaveTask now v d = (r, d')" "t_ID v = i" "token_of v \<noteq> []" "fence_of v < fence_of t"
  shows "\<not> is_ok r \<and> files d' = files d"
  using SaveTask_effect [OF assms(2)] assms by (auto simp: stored_def validateTaskWrite_def Let_def split: if_splits)

lemma stale_release_refused:
  assumes "stored i t (files d)" "ReleaseTask i token f d = (r, d')" "f < fence_of t"
  shows "\<not> is_ok r \<and> files d' = files d"
  using ReleaseTask_effect [OF assms(2)] assms by (auto simp: stored_def)

text \<open>Operations of workers that do not hold the token \<open>k\<close>, with clock readings before \<open>e\<close>.\<close>

fun foreign :: "string \<Rightarrow> timestamp \<Rightarrow> store_op \<Rightarrow> bool" where
  "foreign k e (OpSaveTask now v) \<longleftrightarrow> token_of v \<noteq> k"
| "foreign k e (OpClaim now j owner token ttl) \<longleftrightarrow> now < e"
| "foreign k e (OpRelease j token fence) \<longleftrightarrow> token \<noteq> k"
| "foreign k e _ \<longleftrightarrow> True"

lemma foreign_no_change:
  assumes "task_change i x t t'" "foreign (token_of t) (wl_ExpiresAt (t_WorkerLease t)) x" "token_of t \<noteq> []"
  shows False
  using assms by (cases x) (auto simp: validateTaskWrite_def Let_def split: if_splits)

lemma store_run_foreign:
  assumes "stored i t (files d)" "token_of t \<noteq> []" "list_all (foreign (token_of t) (wl_ExpiresAt (t_WorkerLease t))) xs"
  shows "stored i t (files (store_run xs d))"
  using assms(1,3)
proof (induction xs arbitrary: d)
  case (Cons x xs)
  obtain ok d1 where x: "store_do x d = (ok, d1)" by fastforce
  from store_do_stored [OF x Cons.prems(1)] foreign_no_change [OF _ _ assms(2)] Cons.prems(2)
  have "stored i t (files d1)" by auto
  with Cons.IH [OF this] Cons.prems(2) x show ?case by simp
qed simp

lemma claim_stored:
  assumes "ClaimTask now i owner token ttl d = (Inr t, d')" "no_journal i (files d)" "journals_filed (files d)"
  shows "stored i t (files d') \<and> token_of t = TrimSpace token \<and> token_of t \<noteq> [] \<and> wl_ExpiresAt (t_WorkerLease t) = now + ttl"
  using ClaimTask_effect [OF assms(1)] assms(2,3) by (auto simp: stored_def claimed_def no_journal_def journals_filed_def)

subsection \<open>Properties\<close>

text \<open>The lease of a task is exclusive. After a worker has claimed a task, whatever the other workers, the sessions and
  restarts of the store do, with failures anywhere, the stored task stays exactly as the claim left it until the lease
  expires, as long as nobody presents the worker's token.\<close>

theorem lease_is_exclusive:
  assumes "ClaimTask now i owner token ttl d = (Inr t, d')" "no_journal i (files d)" "journals_filed (files d)"
    and "list_all (foreign (TrimSpace token) (now + ttl)) xs"
  shows "files (store_run xs d') (store_path ''tasks'' i) = Some (Valid (TaskDoc t))"
proof -
  note c = claim_stored [OF assms(1-3)]
  with assms(4) have "list_all (foreign (token_of t) (wl_ExpiresAt (t_WorkerLease t))) xs" by simp
  with store_run_foreign [of i t d' xs] c have "stored i t (files (store_run xs d'))" by blast
  then show ?thesis by (simp add: stored_def)
qed


subsection \<open>Recovery of an interrupted preparation\<close>

lemma healthy_saveLocked:
  "healthy d \<Longrightarrow> \<exists>d'. saveLocked k i v d = (Inr (), d') \<and> healthy d' \<and> files d' = (files d)(store_path k i \<mapsto> Valid v)"
  unfolding saveLocked_def by (rule healthy_atomic_replace)

lemma healthy_removePreparation:
  "healthy d \<Longrightarrow> files d (store_path ''state'' (preparationID i)) \<noteq> None \<Longrightarrow>
    \<exists>d'. removePreparationLocked i d = (Inr (), d') \<and> healthy d' \<and> files d' = (files d)(store_path ''state'' (preparationID i) := None)"
  unfolding removePreparationLocked_def by (rule healthy_remove_file)

lemma healthy_loadLocked:
  assumes "healthy d" "files d (store_path k i) = Some (Valid v)" "pick v = Some x"
  shows "\<exists>d'. loadLocked pick k i d = (Inr x, d') \<and> healthy d' \<and> files d' = files d"
  using healthy_read_file [OF assms(1), of "store_path k i"] assms(2,3) by (auto simp: loadLocked_def)

definition journal_name :: "string \<Rightarrow> bool" where
  "journal_name n \<longleftrightarrow> prefix ''prepare-'' n \<and> Ext n = ''.json''"

text \<open>A listing of the state directory.\<close>

definition lists_state :: "(string \<rightharpoonup> store_doc doc) \<Rightarrow> (string \<times> bool) list \<Rightarrow> bool" where
  "lists_state fs es \<longleftrightarrow> distinct es \<and> (\<forall>n. (n, False) \<in> set es \<longleftrightarrow> fs (''state/'' @ n) \<noteq> None)"

lemma replay_skip:
  assumes "\<forall>(n, b) \<in> set es. b \<or> \<not> journal_name n"
  shows "replay_journals es d = (Inr (), d)"
  using assms by (induction es) (auto simp: journal_name_def)

definition replayed :: "taskPreparation \<Rightarrow> (string \<rightharpoonup> store_doc doc) \<Rightarrow> (string \<rightharpoonup> store_doc doc)" where
  "replayed p fs = fs(store_path ''tasks'' (t_ID (tp_Task p)) \<mapsto> Valid (TaskDoc (tp_Task p)),
     store_path ''sessions'' (se_ID (tp_Session p)) \<mapsto> Valid (SessionDoc (tp_Session p)),
     store_path ''state'' (preparationID (t_ID (tp_Task p))) := None)"

lemma TrimSuffix_append [simp]: "TrimSuffix (x @ y) y = x"
  by (simp add: TrimSuffix_def suffix_def)

lemma replay_one:
  assumes "healthy d" "files d (store_path ''state'' (preparationID (t_ID (tp_Task p)))) = Some (Valid (PreparationDoc p))" "\<not> bad_journal p"
    and "journal_name (preparationID (t_ID (tp_Task p)) @ ''.json'')"
    and "distinct es" "(preparationID (t_ID (tp_Task p)) @ ''.json'', False) \<in> set es"
    and "\<forall>(n, b) \<in> set es. b \<or> \<not> journal_name n \<or> n = preparationID (t_ID (tp_Task p)) @ ''.json''"
  shows "\<exists>d'. replay_journals es d = (Inr (), d') \<and> files d' = replayed p (files d)"
  using assms(5-7)
proof (induction es)
  case (Cons e es)
  let ?i = "t_ID (tp_Task p)" and ?n = "preparationID (t_ID (tp_Task p)) @ ''.json''"
  obtain n b where e: "e = (n, b)" by fastforce
  show ?case
  proof (cases "e = (?n, False)")
    case True
    have skip: "\<forall>(n, b) \<in> set es. b \<or> \<not> journal_name n" using Cons.prems(1,3) True by auto
    obtain d1 where L: "loadLocked pick_preparation ''state'' (preparationID ?i) d = (Inr p, d1)" "healthy d1" "files d1 = files d"
      using healthy_loadLocked [OF assms(1,2), of pick_preparation p] by auto
    obtain d2 where s2: "saveLocked ''tasks'' ?i (TaskDoc (tp_Task p)) d1 = (Inr (), d2)" "healthy d2" "files d2 = (files d)(store_path ''tasks'' ?i \<mapsto> Valid (TaskDoc (tp_Task p)))"
      using healthy_saveLocked [OF L(2), of "''tasks''" ?i] L(3) by metis
    obtain d3 where s3: "saveLocked ''sessions'' (se_ID (tp_Session p)) (SessionDoc (tp_Session p)) d2 = (Inr (), d3)" "healthy d3"
      "files d3 = (files d2)(store_path ''sessions'' (se_ID (tp_Session p)) \<mapsto> Valid (SessionDoc (tp_Session p)))"
      using healthy_saveLocked [OF s2(2)] by metis
    have "files d3 (store_path ''state'' (preparationID ?i)) \<noteq> None" using s2(3) s3(3) assms(2) by simp
    then obtain d4 where s4: "removePreparationLocked ?i d3 = (Inr (), d4)" "files d4 = (files d3)(store_path ''state'' (preparationID ?i) := None)"
      using healthy_removePreparation [OF s3(2)] by blast
    have "replay_journals (e # es) d = (Inr (), d4)"
      using True L(1) s2(1) s3(1) s4(1) assms(3,4) replay_skip [OF skip] by (simp add: journal_name_def)
    moreover have "files d4 = replayed p (files d)" using s2(3) s3(3) s4(2) by (simp add: replayed_def)
    ultimately show ?thesis by blast
  next
    case False
    with Cons.prems e have "b \<or> \<not> journal_name n" by auto
    with Cons False e show ?thesis by (auto simp: journal_name_def)
  qed
qed simp

lemma split_on_last: "c \<notin> set r \<Longrightarrow> last (split_on c (x @ c # r)) = r"
proof -
  assume c: "c \<notin> set r"
  have "\<exists>ys. ys \<noteq> [] \<and> split_on c (x @ c # r) = ys @ [r]"
  proof (induction x)
    case Nil
    then show ?case using c by (simp add: split_on_id)
  next
    case (Cons a x)
    then obtain ys where "ys \<noteq> []" "split_on c (x @ c # r) = ys @ [r]" by blast
    then show ?case by (cases ys) auto
  qed
  then show ?thesis by auto
qed

lemma Ext_json: "CHR ''/'' \<notin> set i \<Longrightarrow> Ext (preparationID i @ ''.json'') = ''.json''"
proof -
  assume i: "CHR ''/'' \<notin> set i"
  have "split_on (CHR ''/'') (preparationID i @ ''.json'') = [preparationID i @ ''.json'']"
    using i by (intro split_on_id) (simp add: preparationID_def)
  moreover have "last (split_on (CHR ''.'') (preparationID i @ ''.json'')) = ''json''"
    using split_on_last [of "CHR ''.''" "''json''" "preparationID i"] by simp
  ultimately show ?thesis by (simp add: Ext_def)
qed

lemma validateID_no_slash: "is_ok (validateID i) \<Longrightarrow> CHR ''/'' \<notin> set i"
  by (simp add: validateID_def split: if_splits)

definition prep_of :: "Task \<Rightarrow> Session \<Rightarrow> taskPreparation" where
  "prep_of v s = \<lparr>tp_SchemaVersion = 1, tp_Task = v, tp_Session = s\<rparr>"

text \<open>The states an interrupted preparation can leave: nothing, or the journal (perhaps with the task, perhaps with the session), or
  everything with the journal removed again.\<close>

lemma commit_outcomes:
  assumes "commit_preparation v s d = (r, d')"
  shows "(files d' = files d \<and> \<not> is_ok r) \<or> files d' = replayed (prep_of v s) (files d)
    \<or> (files d' (store_path ''state'' (preparationID (t_ID v))) = Some (Valid (PreparationDoc (prep_of v s)))
       \<and> replayed (prep_of v s) (files d') = replayed (prep_of v s) (files d) \<and> \<not> is_ok r)"
proof -
  let ?J = "store_path ''state'' (preparationID (t_ID v))" and ?T = "store_path ''tasks'' (t_ID v)" and ?S = "store_path ''sessions'' (se_ID s)"
  obtain r1 d1 where s1: "saveLocked ''state'' (preparationID (t_ID v)) (PreparationDoc (prep_of v s)) d = (r1, d1)" by fastforce
  obtain r2 d2 where s2: "saveLocked ''tasks'' (t_ID v) (TaskDoc v) d1 = (r2, d2)" by fastforce
  obtain r3 d3 where s3: "saveLocked ''sessions'' (se_ID s) (SessionDoc s) d2 = (r3, d3)" by fastforce
  obtain r4 d4 where s4: "removePreparationLocked (t_ID v) d3 = (r4, d4)" by fastforce
  have run: "(\<not> is_ok r1 \<and> \<not> is_ok r \<and> d' = d1) \<or> (is_ok r1 \<and> \<not> is_ok r2 \<and> \<not> is_ok r \<and> d' = d2) \<or> (is_ok r1 \<and> is_ok r2 \<and> \<not> is_ok r3 \<and> \<not> is_ok r \<and> d' = d3)
      \<or> (is_ok r1 \<and> is_ok r2 \<and> is_ok r3 \<and> r = r4 \<and> d' = d4)"
    using assms s1 s2 s3 s4 by (auto simp: commit_preparation_def prep_of_def is_ok_def split: sum.splits)
  let ?p = "Valid (PreparationDoc (prep_of v s))"
  have f1: "files d1 = (files d)(?J \<mapsto> ?p) \<or> (\<not> is_ok r1 \<and> files d1 = files d)" using s1 by (cases rule: saveLocked_cases) auto
  have f2: "files d2 = (files d1)(?T \<mapsto> Valid (TaskDoc v)) \<or> (\<not> is_ok r2 \<and> files d2 = files d1)" using s2 by (cases rule: saveLocked_cases) auto
  have f3: "files d3 = (files d2)(?S \<mapsto> Valid (SessionDoc s)) \<or> (\<not> is_ok r3 \<and> files d3 = files d2)" using s3 by (cases rule: saveLocked_cases) auto
  have f4: "files d4 = (files d3)(?J := None) \<or> (\<not> is_ok r4 \<and> files d4 = files d3)"
    using s4 unfolding removePreparationLocked_def by (cases rule: remove_file_cases) auto
  note eqs = replayed_def prep_of_def fun_eq_iff
  from run show ?thesis
  proof (elim disjE conjE)
    assume "d' = d1" "\<not> is_ok r" with f1 show ?thesis by (auto simp: eqs)
  next
    assume "d' = d2" "is_ok r1" "\<not> is_ok r" with f1 f2 show ?thesis by (auto simp: eqs)
  next
    assume "d' = d3" "is_ok r1" "is_ok r2" "\<not> is_ok r" with f1 f2 f3 show ?thesis by (auto simp: eqs)
  next
    assume "d' = d4" "is_ok r1" "is_ok r2" "is_ok r3" "r = r4"
    then have "files d3 = (files d)(?J \<mapsto> ?p, ?T \<mapsto> Valid (TaskDoc v), ?S \<mapsto> Valid (SessionDoc s))" using f1 f2 f3 by auto
    with f4 \<open>d' = d4\<close> \<open>r = r4\<close> show ?thesis by (auto simp: eqs)
  qed
qed

lemma healthy_NewFileStore:
  assumes "healthy d" "\<And>d1. healthy d1 \<Longrightarrow> files d1 = files d \<Longrightarrow> \<exists>d'. replay_journals es d1 = (Inr (), d') \<and> files d' = fs"
  shows "\<exists>d'. NewFileStore es d = (Inr (), d') \<and> files d' = fs"
proof -
  obtain d1 where d1: "calls 7 d = (True, d1)" "healthy d1" "files d1 = files d" using healthy_calls [OF assms(1)] by blast
  obtain d2 where d2: "calls 3 d1 = (True, d2)" "healthy d2" "files d2 = files d" using healthy_calls [OF d1(2), of 3] d1(3) by auto
  obtain d3 where d3: "syscall d2 = (True, d3)" "healthy d3" "files d3 = files d" using healthy_syscall [OF d2(2)] d2(3) by auto
  from assms(2) [OF d3(2,3)] obtain d' where "replay_journals es d3 = (Inr (), d')" "files d' = fs" by blast
  with d1 d2 d3 show ?thesis by (simp add: NewFileStore_def withExclusive_def recoverTaskPreparationsLocked_def)
qed

subsection \<open>Further properties\<close>


text \<open>A journal that outlives its preparation takes work back. When the removal of the journal fails, \<open>PrepareTask\<close>
  reports an error although the task exists; a worker can claim the task, but opening the store again replays the journal
  and puts the initial task back: the lease and the work of the worker are gone although the lease has not expired.\<close>

theorem journal_replay_drops_lease:
  assumes "PrepareTask v f d = (r, d1)" "files d1 (store_path ''state'' (preparationID (t_ID v))) = Some (Valid (PreparationDoc (prep_of v s)))"
    and "is_ok (validateID (t_ID v))" "is_ok (validateID (se_ID s))" "t_SessionID v = se_ID s"
    and "ClaimTask now (t_ID v) owner token ttl d2 = (Inr t, d3)" "files d2 = files d1"
    and "healthy d4" "files d4 = files d3" "distinct es" "(preparationID (t_ID v) @ ''.json'', False) \<in> set es"
    and "\<forall>(n, b) \<in> set es. b \<or> \<not> journal_name n \<or> n = preparationID (t_ID v) @ ''.json''"
  shows "files d3 (store_path ''tasks'' (t_ID v)) = Some (Valid (TaskDoc t)) \<and>
    (\<exists>d5. NewFileStore es d4 = (Inr (), d5) \<and> files d5 (store_path ''tasks'' (t_ID v)) = Some (Valid (TaskDoc v)))"
proof -
  let ?p = "prep_of v s"
  have eff: "files d3 = (files d1)(store_path ''tasks'' (t_ID v) \<mapsto> Valid (TaskDoc t))" using ClaimTask_effect [OF assms(6)] assms(7) by auto
  have nm: "journal_name (preparationID (t_ID v) @ ''.json'')" using Ext_json [OF validateID_no_slash [OF assms(3)]] by (simp add: journal_name_def preparationID_def)
  have ok: "\<not> bad_journal ?p" using assms(3-5) by (simp add: bad_journal_def prep_of_def)
  have "\<exists>d'. replay_journals es x = (Inr (), d') \<and> files d' = replayed ?p (files d4)" if "healthy x" "files x = files d4" for x
    using replay_one [OF that(1), of ?p es] that(2) assms(2,9-12) eff nm ok by (simp add: prep_of_def)
  from healthy_NewFileStore [OF assms(8) this] obtain d5 where "NewFileStore es d4 = (Inr (), d5)" "files d5 = replayed ?p (files d4)" by blast
  then show ?thesis using eff by (auto simp: replayed_def prep_of_def)
qed

subsection \<open>Witnesses\<close>

definition zero_runtime :: RuntimeCheckpoint where
  "zero_runtime = \<lparr>rc_Iterations = 0, rc_ToolCalls = 0, rc_Replans = 0, rc_NoProgressRepeats = 0, rc_LastProgressDigest = [], rc_MaxIterations = 0,
     rc_MaxToolCalls = 0, rc_StartedAt = 0, rc_DeadlineAt = 0, rc_Observations = [], rc_GuardFeedback = []\<rparr>"

definition zero_lease :: WorkerLease where
  "zero_lease = \<lparr>wl_Owner = [], wl_Token = [], wl_Fence = 0, wl_ExpiresAt = 0\<rparr>"

definition demo_task :: Task where
  "demo_task = \<lparr>t_ID = ''t1'', t_SessionID = ''s1'', t_Objective = [], t_OriginalRequest = [], t_State = New, t_IntentType = [], t_Plan = [],
     t_CurrentStep = 0, t_CompletedSteps = [], t_Findings = [], t_SelectedResources = [], t_EvidenceRefs = [], t_PendingAction = [], t_PendingApprovalID = [],
     t_VerificationGoal = [], t_WorkflowData = [], t_Runtime = zero_runtime, t_WorkerLease = zero_lease, t_Checkpoint = 0, t_FailureReason = [],
     t_CreatedAt = 0, t_UpdatedAt = 0\<rparr>"

definition demo_session :: Session where
  "demo_session = \<lparr>se_ID = ''s1'', se_Name = [], se_Archived = False, se_Messages = [], se_Summary = [], se_PinnedContext = [], se_SelectedResources = [],
     se_CreatedAt = 0, se_UpdatedAt = 0\<rparr>"

definition add_message :: "Session \<Rightarrow> Session result" where
  "add_message s = Inr (s\<lparr>se_Messages := se_Messages s @ [\<lparr>ms_ID = ''m'', ms_Role = RoleUser, ms_Content = [], ms_TaskID = ''t1'', ms_CreatedAt = 0\<rparr>]\<rparr>)"

definition demo_store :: store where
  "demo_store = reliable [store_path ''tasks'' ''t1'' \<mapsto> Valid (TaskDoc demo_task)]"

lemma demo_store_quiet: "no_journal i (files demo_store)" "journals_filed (files demo_store)"
  by (simp_all add: demo_store_def no_journal_def journals_filed_def)

lemma demo_claim: "\<exists>d'. ClaimTask 0 ''t1'' ''w'' ''k'' minute demo_store = (Inr (claimed ''w'' ''k'' minute 0 demo_task), d')"
proof -
  have "fst (ClaimTask 0 ''t1'' ''w'' ''k'' minute demo_store) = Inr (claimed ''w'' ''k'' minute 0 demo_task)" by code_simp
  then show ?thesis by (metis prod.collapse)
qed

theorem lease_is_exclusive_witness:
  "\<exists>t d'. ClaimTask 0 ''t1'' ''w'' ''k'' minute demo_store = (Inr t, d')
     \<and> files (store_run [OpClaim 1 ''t1'' ''x'' ''y'' second, OpSaveTask 2 demo_task, OpStart []] d') (store_path ''tasks'' ''t1'') = Some (Valid (TaskDoc t))"
proof -
  obtain t d' where c: "ClaimTask 0 ''t1'' ''w'' ''k'' minute demo_store = (Inr t, d')" using demo_claim by blast
  have "list_all (foreign (TrimSpace ''k'') (0 + minute)) [OpClaim 1 ''t1'' ''x'' ''y'' second, OpSaveTask 2 demo_task, OpStart []]" by code_simp
  from lease_is_exclusive [OF c demo_store_quiet this] c show ?thesis by blast
qed


text \<open>A disk on which the removal of the journal is the first call to fail.\<close>

definition torn_store :: store where
  "torn_store = \<lparr>files = [store_path ''sessions'' ''s1'' \<mapsto> Valid (SessionDoc demo_session)], io_count = 0, io_fails = (\<lambda>n. n = 38)\<rparr>"


theorem journal_replay_drops_lease_witness:
  "\<exists>t d3 d5. ClaimTask 0 ''t1'' ''w'' ''k'' minute (reliable (files (snd (PrepareTask demo_task (Some add_message) torn_store)))) = (Inr t, d3)
     \<and> files d3 (store_path ''tasks'' ''t1'') = Some (Valid (TaskDoc t))
     \<and> NewFileStore [(''prepare-t1.json'', False)] (reliable (files d3)) = (Inr (), d5)
     \<and> files d5 (store_path ''tasks'' ''t1'') = Some (Valid (TaskDoc demo_task))"
proof -
  let ?d1 = "snd (PrepareTask demo_task (Some add_message) torn_store)"
  obtain s where s: "add_message demo_session = Inr s" "se_ID s = ''s1''" by (auto simp: add_message_def demo_session_def)
  have "files ?d1 (store_path ''state'' (preparationID (t_ID demo_task)))
      = Some (Valid (PreparationDoc (prep_of demo_task (case add_message demo_session of Inr s \<Rightarrow> s))))" by code_simp
  with s have j: "files ?d1 (store_path ''state'' (preparationID (t_ID demo_task))) = Some (Valid (PreparationDoc (prep_of demo_task s)))" by simp
  have "fst (ClaimTask 0 (t_ID demo_task) ''w'' ''k'' minute (reliable (files ?d1))) = Inr (claimed ''w'' ''k'' minute 0 demo_task)" by code_simp
  then obtain t d3 where c: "ClaimTask 0 (t_ID demo_task) ''w'' ''k'' minute (reliable (files ?d1)) = (Inr t, d3)" by (metis prod.collapse)
  have ids: "t_ID demo_task = ''t1''" "preparationID ''t1'' @ ''.json'' = ''prepare-t1.json''" "is_ok (validateID (t_ID demo_task))" "is_ok (validateID (se_ID s))" "t_SessionID demo_task = se_ID s"
    using s(2) by (simp_all add: demo_task_def preparationID_def validateID_def)
  from journal_replay_drops_lease [OF prod.collapse [symmetric] j ids(3-5) c healthy_reliable(2) healthy_reliable(1) healthy_reliable(2),
      of "[(''prepare-t1.json'', False)]"] c ids(1,2)
  show ?thesis by auto
qed

end
