(* ===== verification/Trace.thy ===== *)
theory Trace
  imports Redact GoTime
begin

text \<open>
  \<open>internal/trace/trace.go\<close>: the audit trace of a task, a file of JSON lines chained by SHA-256 hashes with a separate head
  document that commits the number of events and the last hash. A trace file is the list of its complete lines, each decoded with
  the number of its bytes, and the number of bytes after the last newline (a torn write); the head is a decoded document.
  File names are relative to the directory of the writer. The mutex makes operations sequential. Clock readings, the directory listing, the
  iteration order of the map of task ids, and how many bytes a failing write leaves behind are arguments.
\<close>

subsection \<open>Events and files\<close>

record Event =
  ev_Sequence :: uint64
  ev_Timestamp :: timestamp
  ev_Type :: string
  ev_TaskID :: string
  ev_SessionID :: string
  ev_Data :: json
  ev_PrevHash :: string
  ev_EventHash :: string

record head =
  hd_Count :: uint64
  hd_Hash :: string

definition canonicalEvent :: "Event \<Rightarrow> (string \<times> json) list" where
  "canonicalEvent e =
     [(''sequence'', json_int (uint (ev_Sequence e))), (''timestamp'', json_time (ev_Timestamp e)), (''type'', JStr (ev_Type e)),
      (''task_id'', JStr (ev_TaskID e)), (''session_id'', JStr (ev_SessionID e)), (''data'', ev_Data e)]"

definition json_event :: "Event \<Rightarrow> json" where
  "json_event e = JObj (canonicalEvent e @ [(''prev_hash'', JStr (ev_PrevHash e)), (''event_hash'', JStr (ev_EventHash e))])"

definition event_hash :: "string \<Rightarrow> Event \<Rightarrow> string" where
  "event_hash previous e = sha256_hex (previous @ json_text (JObj (canonicalEvent e)))"

text \<open>A complete line with the number of its bytes, the newline not counted.\<close>

type_synonym trace_line = "Event doc \<times> nat"

definition event_line :: "Event \<Rightarrow> trace_line" where
  "event_line e = (Valid e, length (json_text (json_event e)))"

record trace_file =
  tf_lines :: "trace_line list"
  tf_tail :: nat

datatype trace_doc = TraceDoc trace_file | HeadDoc "head doc"

type_synonym trace_disk = "trace_doc disk"

definition empty_trace :: trace_file where "empty_trace = \<lparr>tf_lines = [], tf_tail = 0\<rparr>"
definition zero_head :: head where "zero_head = \<lparr>hd_Count = 0, hd_Hash = []\<rparr>"

text \<open>A document of the other kind under the name of a trace or a head does not decode.\<close>

fun pick_trace :: "trace_doc \<Rightarrow> trace_file" where
  "pick_trace (TraceDoc f) = f"
| "pick_trace (HeadDoc _) = \<lparr>tf_lines = [(Corrupt, 1)], tf_tail = 0\<rparr>"

fun pick_head :: "trace_doc \<Rightarrow> head doc" where
  "pick_head (HeadDoc h) = h"
| "pick_head (TraceDoc _) = Corrupt"

definition tracePath :: "string \<Rightarrow> string" where "tracePath i = i @ ''.jsonl''"
definition headPath :: "string \<Rightarrow> string" where "headPath i = i @ ''.head.json''"

definition trace_validID :: "string \<Rightarrow> unit result" where
  "trace_validID i =
     (if i = [] \<or> CHR ''/'' \<in> set i \<or> CHR 0x5C \<in> set i \<or> i = ''.'' \<or> i = ''..''
      then Inl (ErrorNew ''invalid trace id %q'') else Inr ())"

subsection \<open>Reading\<close>

text \<open>The scanner's buffer: a line of this many bytes or more is refused.\<close>

definition max_token :: nat where "max_token = 4 * 1024 * 1024"

text \<open>\<open>parseEvents\<close> from the \<open>n\<close>-th event on, with the hash of the event before.\<close>

fun parse_from :: "string \<Rightarrow> nat \<Rightarrow> string \<Rightarrow> trace_line list \<Rightarrow> (Event list \<times> string list) result" where
  "parse_from taskID n previous [] = Inr ([], [])"
| "parse_from taskID n previous ((line, bytes) # rest) =
     (if max_token \<le> bytes then Inl (ErrorNew ''bufio.Scanner: token too long'')
      else (case line of Corrupt \<Rightarrow> Inl (Wrapf ''event %d decode'' EIO)
      | Valid event \<Rightarrow>
        let expected = event_hash previous event in
        if ev_Sequence event \<noteq> of_nat (Suc n) then Inl (ErrorNew ''event sequence mismatch at %d'')
        else if ev_TaskID event \<noteq> taskID then Inl (ErrorNew ''event %d task mismatch'')
        else if ev_PrevHash event \<noteq> previous then Inl (ErrorNew ''event %d previous hash mismatch'')
        else if ev_EventHash event \<noteq> expected then Inl (ErrorNew ''event %d hash mismatch'')
        else (case parse_from taskID (Suc n) expected rest of Inl e \<Rightarrow> Inl e
          | Inr (events, hashes) \<Rightarrow> Inr (event # events, expected # hashes))))"

definition parseEvents :: "string \<Rightarrow> trace_line list \<Rightarrow> (Event list \<times> string list) result" where
  "parseEvents taskID lines = parse_from taskID 0 [] lines"

definition trace_size :: "trace_file \<Rightarrow> nat" where
  "trace_size f = sum_list (map (\<lambda>l. Suc (snd l)) (tf_lines f)) + tf_tail f"

text \<open>\<open>os.Stat\<close>: one call; \<open>Inr None\<close> when the file does not exist.\<close>

definition stat_trace :: "string \<Rightarrow> trace_disk \<Rightarrow> trace_file option result \<times> trace_disk" where
  "stat_trace k d = (case syscall d of (ok, d) \<Rightarrow> (if ok then Inr (map_option pick_trace (files d k)) else Inl EIO, d))"

definition readHead :: "string \<Rightarrow> trace_disk \<Rightarrow> head result \<times> trace_disk" where
  "readHead i d =
     (case read_file (headPath i) d of
        (Inl ErrNotExist, d) \<Rightarrow>
          (case stat_trace (tracePath i) d of (Inl e, d) \<Rightarrow> (Inl e, d)
           | (Inr f, d) \<Rightarrow>
             (case f of None \<Rightarrow> (Inr zero_head, d)
              | Some f \<Rightarrow> if 0 < trace_size f then (Inl (ErrorNew ''trace head is missing while event data exists''), d) else (Inr zero_head, d)))
      | (Inl e, d) \<Rightarrow> (Inl e, d)
      | (Inr b, d) \<Rightarrow> (case pick_head b of Corrupt \<Rightarrow> (Inl EIO, d) | Valid h \<Rightarrow> (Inr h, d)))"

definition readEvents :: "string \<Rightarrow> trace_disk \<Rightarrow> (Event list \<times> string list) result \<times> trace_disk" where
  "readEvents i d =
     (case read_file (tracePath i) d of (Inl e, d) \<Rightarrow> (Inl e, d)
      | (Inr b, d) \<Rightarrow>
        if 0 < tf_tail (pick_trace b) then (Inl (ErrorNew ''trace has an incomplete crash tail''), d)
        else (parseEvents i (tf_lines (pick_trace b)), d))"

definition last_hash :: "string list \<Rightarrow> string" where
  "last_hash hashes = (if hashes = [] then [] else last hashes)"

definition VerifyIntegrity :: "string \<Rightarrow> trace_disk \<Rightarrow> unit result \<times> trace_disk" where
  "VerifyIntegrity i d =
     (case trace_validID i of Inl e \<Rightarrow> (Inl e, d)
      | Inr _ \<Rightarrow> (case readEvents i d of (Inl e, d) \<Rightarrow> (Inl e, d)
        | (Inr (events, hashes), d) \<Rightarrow> (case readHead i d of (Inl e, d) \<Rightarrow> (Inl e, d)
          | (Inr expected, d) \<Rightarrow>
            if hd_Count expected \<noteq> of_nat (length events) \<or> hd_Hash expected \<noteq> last_hash hashes
            then (Inl (ErrorNew ''trace head does not match event chain; an event may have been deleted or reordered''), d)
            else (Inr (), d))))"

definition ReadTrace :: "string \<Rightarrow> trace_disk \<Rightarrow> Event list result \<times> trace_disk" where
  "ReadTrace i d =
     (case trace_validID i of Inl e \<Rightarrow> (Inl e, d)
      | Inr _ \<Rightarrow> (case readEvents i d of (Inl e, d) \<Rightarrow> (Inl e, d) | (Inr (events, _), d) \<Rightarrow> (Inr events, d)))"

subsection \<open>Writing\<close>

text \<open>\<open>atomicJSON\<close>: create, chmod, write, sync and close the temporary file; rename; open and sync the directory.\<close>

definition atomicJSON :: "string \<Rightarrow> head \<Rightarrow> trace_disk \<Rightarrow> unit result \<times> trace_disk" where
  "atomicJSON i h = atomic_replace 5 2 (headPath i) (HeadDoc (Valid h))"

interpretation trace_head: document_store "\<lambda>(i, h). atomicJSON i h" "\<lambda>(i, h). headPath i" "\<lambda>(i, h). HeadDoc (Valid h)"
  using document_store_atomic [of 5 2 "\<lambda>(i, h). headPath i" "\<lambda>(i, h). HeadDoc (Valid h)"]
  by (simp add: atomicJSON_def split_def)

text \<open>Open, truncate at the last newline, sync, close, open and sync the directory.\<close>

definition truncateAndSync :: "string \<Rightarrow> trace_file \<Rightarrow> trace_disk \<Rightarrow> unit result \<times> trace_disk" where
  "truncateAndSync i f = atomic_replace 1 4 (tracePath i) (TraceDoc (f\<lparr>tf_tail := 0\<rparr>))"

definition recoverLocked :: "string \<Rightarrow> trace_disk \<Rightarrow> head result \<times> trace_disk" where
  "recoverLocked i d =
     (case readHead i d of (Inl e, d) \<Rightarrow> (Inl e, d)
      | (Inr h, d) \<Rightarrow> (case read_file (tracePath i) d of
          (Inl ErrNotExist, d) \<Rightarrow>
            if hd_Count h \<noteq> 0 \<or> hd_Hash h \<noteq> [] then (Inl (ErrorNew ''trace head exists but event data is missing''), d) else (Inr h, d)
        | (Inl e, d) \<Rightarrow> (Inl e, d)
        | (Inr b, d) \<Rightarrow>
          (let f = pick_trace b in
           case parseEvents i (tf_lines f) of Inl e \<Rightarrow> (Inl e, d)
           | Inr (events, hashes) \<Rightarrow>
             if of_nat (length events) < hd_Count h then (Inl (ErrorNew ''trace event data is shorter than the committed head''), d)
             else if hd_Count h = 0 \<and> hd_Hash h \<noteq> [] then (Inl (ErrorNew ''zero trace head has a non-empty hash''), d)
             else if hd_Count h \<noteq> 0 \<and> hashes ! unat (hd_Count h - 1) \<noteq> hd_Hash h
               then (Inl (ErrorNew ''committed trace prefix does not match the head''), d)
             else
               (case (if 0 < tf_tail f then truncateAndSync i f d else (Inr (), d)) of (Inl e, d) \<Rightarrow> (Inl e, d)
                | (Inr _, d) \<Rightarrow>
                  if hd_Count h < of_nat (length events) then
                    (let h' = \<lparr>hd_Count = of_nat (length events), hd_Hash = last_hash hashes\<rparr> in
                     case atomicJSON i h' d of (Inl e, d) \<Rightarrow> (Inl e, d) | (Inr _, d) \<Rightarrow> (Inr h', d))
                  else (Inr h, d)))))"

text \<open>Opening for appending creates a missing file; the write adds the line, or \<open>torn\<close> bytes of it when it fails.\<close>

definition open_append :: "string \<Rightarrow> trace_disk \<Rightarrow> bool \<times> trace_disk" where
  "open_append k d =
     (case syscall d of (ok, d) \<Rightarrow> (ok, if ok \<and> files d k = None then put_file k (TraceDoc empty_trace) d else d))"

definition add_bytes :: "nat \<Rightarrow> trace_file \<Rightarrow> trace_file" where
  "add_bytes n f = f\<lparr>tf_tail := tf_tail f + n\<rparr>"

definition add_line :: "Event \<Rightarrow> trace_file \<Rightarrow> trace_file" where
  "add_line e f =
     (if tf_tail f = 0 then f\<lparr>tf_lines := tf_lines f @ [event_line e]\<rparr>
      else f\<lparr>tf_lines := tf_lines f @ [(Corrupt, tf_tail f + snd (event_line e))], tf_tail := 0\<rparr>)"

definition write_line :: "nat \<Rightarrow> string \<Rightarrow> Event \<Rightarrow> trace_disk \<Rightarrow> bool \<times> trace_disk" where
  "write_line torn k e d =
     (case files d k of None \<Rightarrow> (False, d)
      | Some b \<Rightarrow> (case syscall d of (ok, d) \<Rightarrow>
          (ok, put_file k (TraceDoc (if ok then add_line e (pick_trace b) else add_bytes (min torn (snd (event_line e))) (pick_trace b))) d)))"

definition new_event :: "string \<Rightarrow> string \<Rightarrow> string \<Rightarrow> json \<Rightarrow> timestamp \<Rightarrow> head \<Rightarrow> Event" where
  "new_event i sessionID typ payload now h =
     (let e = \<lparr>ev_Sequence = hd_Count h + 1, ev_Timestamp = now, ev_Type = typ, ev_TaskID = i, ev_SessionID = sessionID,
               ev_Data = payload, ev_PrevHash = hd_Hash h, ev_EventHash = []\<rparr>
      in e\<lparr>ev_EventHash := event_hash (hd_Hash h) e\<rparr>)"

text \<open>The end of \<open>Append\<close>: open, write, sync, close, make the directory durable (open, sync), then commit the head.\<close>

definition commit_event :: "nat \<Rightarrow> string \<Rightarrow> Event \<Rightarrow> trace_disk \<Rightarrow> Event result \<times> trace_disk" where
  "commit_event torn i event d =
     (case open_append (tracePath i) d of (ok, d) \<Rightarrow> if \<not> ok then (Inl EIO, d)
      else (case write_line torn (tracePath i) event d of (ok, d) \<Rightarrow> if \<not> ok then (Inl EIO, d)
      else (case calls 4 d of (ok, d) \<Rightarrow> if \<not> ok then (Inl EIO, d)
      else (case atomicJSON i \<lparr>hd_Count = ev_Sequence event, hd_Hash = ev_EventHash event\<rparr> d of
          (Inl e, d) \<Rightarrow> (Inl e, d) | (Inr _, d) \<Rightarrow> (Inr event, d)))))"

text \<open>A head that does not exist is created before the first event.\<close>

definition ensure_head :: "string \<Rightarrow> trace_disk \<Rightarrow> unit result \<times> trace_disk" where
  "ensure_head i d =
     (case syscall d of (ok, d) \<Rightarrow>
        if \<not> ok then (Inl EIO, d) else if files d (headPath i) = None then atomicJSON i zero_head d else (Inr (), d))"

definition Append :: "nat \<Rightarrow> timestamp \<Rightarrow> string \<Rightarrow> string \<Rightarrow> string \<Rightarrow> json result \<Rightarrow> trace_disk \<Rightarrow> Event result \<times> trace_disk" where
  "Append torn now i sessionID typ data d =
     (case syscall d of (ok, d) \<Rightarrow> if \<not> ok then (Inl EIO, d)
      else (case trace_validID i of Inl e \<Rightarrow> (Inl e, d)
      | Inr _ \<Rightarrow> (case recoverLocked i d of (Inl e, d) \<Rightarrow> (Inl e, d)
      | (Inr h, d) \<Rightarrow> (case ensure_head i d of (Inl e, d) \<Rightarrow> (Inl e, d)
      | (Inr _, d) \<Rightarrow> (case marshalPayload i (hd_Count h + 1) typ data of Inl e \<Rightarrow> (Inl e, d)
      | Inr payload \<Rightarrow> commit_event torn i (new_event i sessionID typ payload now h) d)))))"

subsection \<open>Opening a directory of traces\<close>

definition trace_ids :: "(string \<times> bool) list \<Rightarrow> string list" where
  "trace_ids entries =
     remdups (concat (map (\<lambda>(name, isDir).
       if isDir then [] else if suffix ''.jsonl'' name then [TrimSuffix name ''.jsonl'']
       else if suffix ''.head.json'' name then [TrimSuffix name ''.head.json''] else []) entries))"

fun recover_traces :: "string list \<Rightarrow> trace_disk \<Rightarrow> unit result \<times> trace_disk" where
  "recover_traces [] d = (Inr (), d)"
| "recover_traces (i # ids) d =
     (case trace_validID i of Inl e \<Rightarrow> (Inl e, d)
      | Inr _ \<Rightarrow> (case recoverLocked i d of (Inl e, d) \<Rightarrow> (Inl (Wrapf (''recover trace '' @ i) e), d)
        | (Inr _, d) \<Rightarrow> recover_traces ids d))"

text \<open>Two calls (create and list the directory); \<open>order\<close> is the order in which the map of ids is visited.\<close>

definition NewWriter :: "(string list \<Rightarrow> string list) \<Rightarrow> (string \<times> bool) list \<Rightarrow> trace_disk \<Rightarrow> unit result \<times> trace_disk" where
  "NewWriter order entries d =
     (case calls 2 d of (ok, d) \<Rightarrow> if \<not> ok then (Inl EIO, d) else recover_traces (order (trace_ids entries)) d)"

end
