(* ===== verification/Trace_Safety.thy ===== *)
theory Trace_Safety
  imports Trace Contracts
begin

text \<open>
  The invariant of a trace and what keeps it: \<open>trace_state i es t h fs\<close> says that the trace file of task \<open>i\<close> holds the chained events \<open>es\<close> and \<open>t\<close> torn
  bytes and that the head \<open>h\<close> commits a prefix of them. Every operation, with any call failing, keeps the complete lines (\<open>grows\<close>) and
  the invariant; recovery on a working disk ends with the head of all events; equal last hashes mean equal chains.
\<close>

subsection \<open>Paths\<close>

lemma trace_paths [simp]:
  "tracePath i = tracePath j \<longleftrightarrow> i = j" "headPath i = headPath j \<longleftrightarrow> i = j" "tracePath i \<noteq> headPath j" "headPath j \<noteq> tracePath i"
proof -
  have "last (tracePath i) = CHR ''l''" "last (headPath j) = CHR ''n''" by (simp_all add: tracePath_def headPath_def)
  then show "tracePath i \<noteq> headPath j" "headPath j \<noteq> tracePath i" by auto
qed (simp_all add: tracePath_def headPath_def)

subsection \<open>The chain\<close>

lemma parse_from_hashes:
  "parse_from i n p ls = Inr (es, hs) \<Longrightarrow> hs = map ev_EventHash es \<and> length es = length ls"
  by (induction ls arbitrary: n p es hs) (auto simp: Let_def split: if_splits doc.splits sum.splits prod.splits)

definition chained_after :: "string \<Rightarrow> nat \<Rightarrow> string \<Rightarrow> Event \<Rightarrow> bool" where
  "chained_after i n p e \<longleftrightarrow> ev_Sequence e = of_nat (Suc n) \<and> ev_TaskID e = i \<and> ev_PrevHash e = p \<and> ev_EventHash e = event_hash p e"

lemma parse_from_Cons:
  "parse_from i n p ((Valid e, b) # ls) =
     (if max_token \<le> b then Inl (ErrorNew ''bufio.Scanner: token too long'')
      else if chained_after i n p e then map_sum id (\<lambda>(es, hs). (e # es, ev_EventHash e # hs)) (parse_from i (Suc n) (ev_EventHash e) ls)
      else parse_from i n p [(Valid e, b)])"
  by (auto simp: chained_after_def Let_def split: sum.splits prod.splits)

lemma parse_from_ConsE:
  assumes "parse_from i n p (l # ls) = Inr (es, hs)"
  obtains e b es' hs' where "l = (Valid e, b)" "b < max_token" "chained_after i n p e" "es = e # es'" "hs = ev_EventHash e # hs'"
    "parse_from i (Suc n) (ev_EventHash e) ls = Inr (es', hs')"
  using assms by (cases l) (auto simp: chained_after_def Let_def split: if_splits doc.splits sum.splits prod.splits)

lemma parse_from_lines:
  "parse_from i n p ls = Inr (es, hs) \<Longrightarrow> map fst ls = map Valid es \<and> list_all (\<lambda>l. snd l < max_token) ls"
proof (induction ls arbitrary: n p es hs)
  case (Cons l ls)
  from Cons.prems obtain e b es' hs' where "l = (Valid e, b)" "b < max_token" "es = e # es'"
    "parse_from i (Suc n) (ev_EventHash e) ls = Inr (es', hs')" by (rule parse_from_ConsE)
  with Cons.IH [OF this(4)] show ?case by simp
qed simp

lemma parse_from_snoc:
  assumes "parse_from i n p ls = Inr (es, hs)" "b < max_token" "chained_after i (n + length es) (if es = [] then p else ev_EventHash (last es)) e"
  shows "parse_from i n p (ls @ [(Valid e, b)]) = Inr (es @ [e], hs @ [ev_EventHash e])"
  using assms
proof (induction ls arbitrary: n p es hs)
  case Nil
  then show ?case by (auto simp: parse_from_Cons chained_after_def)
next
  case (Cons l ls)
  from Cons.prems(1) obtain e' b' es' hs' where
    x: "l = (Valid e', b')" "b' < max_token" "chained_after i n p e'" "es = e' # es'" "hs = ev_EventHash e' # hs'"
      "parse_from i (Suc n) (ev_EventHash e') ls = Inr (es', hs')" by (rule parse_from_ConsE)
  have "chained_after i (Suc n + length es') (if es' = [] then ev_EventHash e' else ev_EventHash (last es')) e"
    using Cons.prems(3) x(4) by (auto split: if_splits)
  from Cons.IH [OF x(6) Cons.prems(2) this] x show ?case by (simp add: parse_from_Cons del: parse_from.simps)
qed

text \<open>Parsing can be cut after any number of lines.\<close>

lemma parse_from_take:
  "parse_from i n p ls = Inr (es, hs) \<Longrightarrow> parse_from i n p (take k ls) = Inr (take k es, take k hs)"
proof (induction ls arbitrary: n p es hs k)
  case (Cons l ls)
  then show ?case
    by (cases k; cases l) (auto simp: Let_def split: if_splits doc.splits sum.splits prod.splits)
qed simp

subsection \<open>The state of a trace\<close>

definition last_event_hash :: "Event list \<Rightarrow> string" where
  "last_event_hash es = last_hash (map ev_EventHash es)"

lemma last_event_hash_simps [simp]:
  "last_event_hash [] = []" "last_event_hash (es @ [e]) = ev_EventHash e" "es \<noteq> [] \<Longrightarrow> last_event_hash es = ev_EventHash (last es)"
  by (simp_all add: last_event_hash_def last_hash_def last_map)

text \<open>The trace file of task \<open>i\<close> holds the events \<open>es\<close>, chained, and \<open>t\<close> bytes of a torn line; the head commits a prefix of the events.\<close>

definition trace_state :: "string \<Rightarrow> Event list \<Rightarrow> nat \<Rightarrow> head \<Rightarrow> (string \<rightharpoonup> trace_doc) \<Rightarrow> bool" where
  "trace_state i es t h fs \<longleftrightarrow>
     (case fs (tracePath i) of None \<Rightarrow> es = [] \<and> t = 0
      | Some b \<Rightarrow> parseEvents i (tf_lines (pick_trace b)) = Inr (es, map ev_EventHash es) \<and> tf_tail (pick_trace b) = t)
     \<and> (case fs (headPath i) of None \<Rightarrow> h = zero_head \<and> es = [] \<and> t = 0 | Some b \<Rightarrow> b = HeadDoc (Valid h))
     \<and> length es < 2 ^ 64 \<and> unat (hd_Count h) \<le> length es \<and> hd_Hash h = last_event_hash (take (unat (hd_Count h)) es)"

lemma zero_head_simps [simp]: "hd_Count zero_head = 0" "hd_Hash zero_head = []"
  by (simp_all add: zero_head_def)

lemma trace_state_other: "trace_state i es t h fs \<Longrightarrow> i \<noteq> j \<Longrightarrow> trace_state i es t h (fs(headPath j := x, tracePath j := y))"
  by (simp add: trace_state_def)

lemma readHead_state:
  assumes "readHead i d = (r, d')" "trace_state i es t h (files d)"
  shows "files d' = files d \<and> (is_ok r \<longrightarrow> r = Inr h) \<and> (healthy d \<longrightarrow> is_ok r \<and> healthy d')"
  using assms
  by (auto simp: readHead_def read_file_def stat_trace_def syscall_def trace_state_def trace_size_def parseEvents_def healthy_def
      split: if_splits option.splits dest: parse_from_hashes)


definition head_of :: "Event list \<Rightarrow> head" where
  "head_of es = \<lparr>hd_Count = of_nat (length es), hd_Hash = last_event_hash es\<rparr>"

lemma head_of_Nil [simp]: "head_of [] = zero_head"
  by (simp add: head_of_def zero_head_def)

lemma unat_count: "length es < 2 ^ 64 \<Longrightarrow> unat (of_nat (length es) :: uint64) = length es"
  by (simp add: unat_of_nat)

lemma head_checks:
  assumes "length es < 2 ^ 64" "unat (hd_Count h) \<le> length es" "hd_Hash h = last_event_hash (take (unat (hd_Count h)) es)"
  shows "\<not> of_nat (length es) < hd_Count h" "\<not> (hd_Count h = 0 \<and> hd_Hash h \<noteq> [])"
    "\<not> (hd_Count h \<noteq> 0 \<and> map ev_EventHash es ! unat (hd_Count h - 1) \<noteq> hd_Hash h)"
    "\<not> hd_Count h < of_nat (length es) \<Longrightarrow> h = head_of es"
proof -
  show "\<not> of_nat (length es) < hd_Count h" using assms(1,2) by (simp add: word_less_nat_alt unat_count)
  show "\<not> (hd_Count h = 0 \<and> hd_Hash h \<noteq> [])" using assms(3) by auto
  show "\<not> (hd_Count h \<noteq> 0 \<and> map ev_EventHash es ! unat (hd_Count h - 1) \<noteq> hd_Hash h)"
  proof
    assume c: "hd_Count h \<noteq> 0 \<and> map ev_EventHash es ! unat (hd_Count h - 1) \<noteq> hd_Hash h"
    then have u: "0 < unat (hd_Count h)" "unat (hd_Count h - 1) = unat (hd_Count h) - 1"
      by (simp_all add: unat_gt_0 unat_minus_one)
    then have "take (unat (hd_Count h)) es \<noteq> []" using assms(2) by auto
    then have "hd_Hash h = ev_EventHash (es ! (unat (hd_Count h) - 1))" using assms(2,3) by (simp add: last_conv_nth min_def)
    with c u assms(2) show False by simp
  qed
  assume "\<not> hd_Count h < of_nat (length es)"
  then have "unat (hd_Count h) = length es" using assms(1,2) by (simp add: word_less_nat_alt unat_count)
  with assms(1) have "hd_Count h = of_nat (length es)" by (simp add: word_unat_eq_iff unat_count)
  moreover have "hd_Hash h = last_event_hash es" using assms(3) \<open>unat (hd_Count h) = length es\<close> by simp
  ultimately show "h = head_of es" by (simp add: head_of_def)
qed

lemma trace_state_head_of: "trace_state i es t h fs \<Longrightarrow> trace_state i es t (head_of es) (fs(headPath i \<mapsto> HeadDoc (Valid (head_of es))))"
  by (auto simp: trace_state_def head_of_def unat_count)

lemma trace_state_cut:
  assumes "trace_state i es t h fs" "fs (tracePath i) = Some b"
  shows "trace_state i es 0 h (fs(tracePath i \<mapsto> TraceDoc ((pick_trace b)\<lparr>tf_tail := 0\<rparr>)))"
  using assms by (auto simp: trace_state_def split: option.splits)

definition file_lines :: "string \<Rightarrow> (string \<rightharpoonup> trace_doc) \<Rightarrow> trace_line list" where
  "file_lines i fs = (case fs (tracePath i) of None \<Rightarrow> [] | Some b \<Rightarrow> tf_lines (pick_trace b))"

text \<open>Only the two files of one trace may differ.\<close>

definition same_others :: "string \<Rightarrow> (string \<rightharpoonup> trace_doc) \<Rightarrow> (string \<rightharpoonup> trace_doc) \<Rightarrow> bool" where
  "same_others i fs fs' \<longleftrightarrow> (\<forall>k. k \<noteq> tracePath i \<and> k \<noteq> headPath i \<longrightarrow> fs' k = fs k)"


lemma same_others_refl [simp]: "same_others i fs fs"
  by (simp add: same_others_def)

lemma same_others_upd [simp]:
  "same_others i fs (fs'(tracePath i := x)) = same_others i fs fs'" "same_others i fs (fs'(headPath i := x)) = same_others i fs fs'"
  by (auto simp: same_others_def)

lemma file_lines_upd [simp]:
  "file_lines i (fs(headPath j := x)) = file_lines i fs" "file_lines i (fs(tracePath i \<mapsto> TraceDoc f)) = tf_lines f"
  by (simp_all add: file_lines_def)

text \<open>How an operation on one trace may leave the disk: its events are \<open>es\<close>, every other trace is as before.\<close>

definition kept :: "string \<Rightarrow> Event list \<Rightarrow> trace_disk \<Rightarrow> trace_disk \<Rightarrow> bool" where
  "kept i es d d' \<longleftrightarrow> same_others i (files d) (files d') \<and> (\<exists>t h. trace_state i es t h (files d'))"

lemma truncate_state:
  assumes "truncateAndSync i (pick_trace b) d = (r, d')" "trace_state i es t h (files d)" "files d (tracePath i) = Some b"
  shows "same_others i (files d) (files d') \<and> file_lines i (files d') = file_lines i (files d)
    \<and> (\<exists>t'. trace_state i es t' h (files d') \<and> (is_ok r \<longrightarrow> t' = 0)) \<and> (healthy d \<longrightarrow> is_ok r \<and> healthy d')"
proof -
  have "healthy d \<longrightarrow> is_ok r \<and> healthy d'"
    using healthy_atomic_replace [of d 1 4 "tracePath i" "TraceDoc ((pick_trace b)\<lparr>tf_tail := 0\<rparr>)"] assms(1)
    by (auto simp: truncateAndSync_def)
  moreover from assms(1) have "(r = Inr () \<and> files d' = (files d)(tracePath i \<mapsto> TraceDoc ((pick_trace b)\<lparr>tf_tail := 0\<rparr>)))
      \<or> (r = Inl EIO \<and> files d' = files d) \<or> (r = Inl EIO \<and> files d' = (files d)(tracePath i \<mapsto> TraceDoc ((pick_trace b)\<lparr>tf_tail := 0\<rparr>)))"
    unfolding truncateAndSync_def by (elim atomic_replace_cases) auto
  moreover have "file_lines i (files d) = tf_lines (pick_trace b)" using assms(3) by (simp add: file_lines_def)
  ultimately show ?thesis using assms(2) trace_state_cut [OF assms(2,3)] by (elim disjE conjE) auto
qed

lemma atomicJSON_state:
  assumes "atomicJSON i h d = (r, d')"
  shows "(is_ok r \<longrightarrow> files d' = (files d)(headPath i \<mapsto> HeadDoc (Valid h)))
    \<and> (files d' = files d \<or> files d' = (files d)(headPath i \<mapsto> HeadDoc (Valid h))) \<and> (healthy d \<longrightarrow> is_ok r \<and> healthy d')"
  using trace_head.save_done [of "(i, h)" d] trace_head.save_old_or_new [of "(i, h)" d] trace_head.save_healthy [of d "(i, h)"] assms
  by (cases r) auto

lemma recover_head_state:
  assumes "atomicJSON i (head_of es) d = (r, d')" "trace_state i es t h (files d)"
  shows "same_others i (files d) (files d') \<and> file_lines i (files d') = file_lines i (files d)
    \<and> (\<exists>h'. trace_state i es t h' (files d') \<and> (is_ok r \<longrightarrow> h' = head_of es)) \<and> (healthy d \<longrightarrow> is_ok r \<and> healthy d')"
  using atomicJSON_state [OF assms(1)] assms(2) trace_state_head_of [OF assms(2)] by auto

text \<open>The part of \<open>recoverLocked\<close> after the checks: cut the torn bytes, then bring the head up to date.\<close>

lemma recoverLocked_finish:
  assumes "readHead i d = (Inr h, d1)" "read_file (tracePath i) d1 = (Inr b, d2)" "trace_state i es t h (files d2)" "files d2 (tracePath i) = Some b"
    and "recoverLocked i d = (r, d')"
  shows "same_others i (files d2) (files d') \<and> file_lines i (files d') = file_lines i (files d2)
    \<and> (\<exists>t' h'. trace_state i es t' h' (files d') \<and> (is_ok r \<longrightarrow> r = Inr (head_of es) \<and> t' = 0 \<and> h' = head_of es))
    \<and> (healthy d2 \<longrightarrow> is_ok r \<and> healthy d')"
proof -
  from assms(3,4) have p: "parseEvents i (tf_lines (pick_trace b)) = Inr (es, map ev_EventHash es)" "tf_tail (pick_trace b) = t"
    and c: "length es < 2 ^ 64" "unat (hd_Count h) \<le> length es" "hd_Hash h = last_event_hash (take (unat (hd_Count h)) es)"
    by (auto simp: trace_state_def)
  note ck = head_checks [OF c]
  obtain r3 d3 where tr: "(if 0 < t then truncateAndSync i (pick_trace b) d2 else (Inr (), d2)) = (r3, d3)"
    by (cases "if 0 < t then truncateAndSync i (pick_trace b) d2 else (Inr (), d2)")
  have t3: "same_others i (files d2) (files d3) \<and> file_lines i (files d3) = file_lines i (files d2)
      \<and> (\<exists>t'. trace_state i es t' h (files d3) \<and> (is_ok r3 \<longrightarrow> t' = 0)) \<and> (healthy d2 \<longrightarrow> is_ok r3 \<and> healthy d3)"
    using truncate_state [of i b d2 r3 d3 es t h] tr assms(3,4) by (cases "0 < t") auto
  have run: "recoverLocked i d = (case r3 of Inl e \<Rightarrow> (Inl e, d3)
      | Inr _ \<Rightarrow> if hd_Count h < of_nat (length es) then
          (case atomicJSON i (head_of es) d3 of (Inl e, d) \<Rightarrow> (Inl e, d) | (Inr _, d) \<Rightarrow> (Inr (head_of es), d))
        else (Inr h, d3))"
    unfolding recoverLocked_def assms(1,2) prod.case sum.case Let_def p if_not_P [OF ck(1)] if_not_P [OF ck(2)] if_not_P [OF ck(3)] tr
    by (cases r3) (simp_all only: sum.case head_of_def last_event_hash_def)
  show ?thesis
  proof (cases "is_ok r3 \<and> hd_Count h < of_nat (length es)")
    case False
    with run assms(5) t3 ck(4) show ?thesis by (cases r3) auto
  next
    case True
    obtain r4 d4 where a: "atomicJSON i (head_of es) d3 = (r4, d4)" by (cases "atomicJSON i (head_of es) d3")
    from t3 True have st3: "trace_state i es 0 h (files d3)" by auto
    from run True a assms(5) recover_head_state [OF a st3] t3
    show ?thesis by (cases r3; cases r4) (auto simp: same_others_def)
  qed
qed

lemma recoverLocked_state:
  assumes "recoverLocked i d = (r, d')" "trace_state i es t h (files d)"
  shows "same_others i (files d) (files d') \<and> file_lines i (files d') = file_lines i (files d)
    \<and> (\<exists>t' h'. trace_state i es t' h' (files d') \<and> (is_ok r \<longrightarrow> r = Inr (head_of es) \<and> t' = 0 \<and> h' = head_of es))
    \<and> (healthy d \<longrightarrow> is_ok r \<and> healthy d')" (is ?P)
proof -
  note st = assms(2)
  obtain r1 d1 where rh: "readHead i d = (r1, d1)" by (cases "readHead i d")
  note h1 = readHead_state [OF rh st]
  from h1 st have st1: "trace_state i es t h (files d1)" by simp
  obtain r2 d2 where rf: "read_file (tracePath i) d1 = (r2, d2)" by (cases "read_file (tracePath i) d1")
  have f2: "files d2 = files d1" using read_file_files [OF rf] .
  have hl2: "healthy d1 \<longrightarrow> healthy d2 \<and> r2 = (case files d1 (tracePath i) of None \<Rightarrow> Inl ErrNotExist | Some v \<Rightarrow> Inr v)"
    using healthy_read_file [of d1 "tracePath i"] rf by auto
  show ?P
  proof (cases r1)
    case (Inl e)
    with assms(1) rh h1 st1 show ?thesis by (auto simp: recoverLocked_def)
  next
    case (Inr x)
    with h1 have x: "r1 = Inr h" by simp
    show ?thesis
    proof (cases r2)
      case (Inl e)
      show ?thesis
      proof (cases "e = ErrNotExist")
        case True
        with Inl rf have "files d1 (tracePath i) = None" by (auto dest: read_file_NotExist)
        with st1 have "es = []" "t = 0" "h = zero_head" by (auto simp: trace_state_def head_of_def zero_head_def unat_eq_zero)
        with assms(1) rh x rf Inl True f2 h1 st1 hl2 show ?thesis by (auto simp: recoverLocked_def)
      next
        case False
        with hl2 Inl have "\<not> healthy d1" by (auto split: option.splits)
        moreover have "r = Inl e \<and> d' = d2" using assms(1) rh x rf Inl False by (cases e) (simp_all add: recoverLocked_def)
        ultimately show ?thesis using f2 h1 st1 by auto
      qed
    next
      case (Inr b)
      with rf have b: "files d1 (tracePath i) = Some b" by (auto dest: read_file_Inr)
      from recoverLocked_finish [OF rh [unfolded x] rf [unfolded Inr] _ _ assms(1), of es t] st1 b f2 h1 hl2
      show ?thesis by auto
    qed
  qed
qed


subsection \<open>Complete lines are never touched\<close>

lemma readHead_files: "readHead i d = (r, d') \<Longrightarrow> files d' = files d"
  by (auto simp: readHead_def read_file_def stat_trace_def syscall_def split: if_splits option.splits doc.splits)

definition grows :: "string \<Rightarrow> (string \<rightharpoonup> trace_doc) \<Rightarrow> (string \<rightharpoonup> trace_doc) \<Rightarrow> bool" where
  "grows i fs fs' \<longleftrightarrow> same_others i fs fs' \<and> prefix (file_lines i fs) (file_lines i fs')"

lemma grows_refl [simp]: "grows i fs fs"
  by (simp add: grows_def)

lemma grows_trans: "grows i fs gs \<Longrightarrow> grows i gs hs \<Longrightarrow> grows i fs hs"
  by (auto simp: grows_def same_others_def intro: prefix_order.trans)

lemma grows_lines: "grows i fs gs \<Longrightarrow> prefix (file_lines j fs) (file_lines j gs)"
  by (cases "i = j") (auto simp: grows_def same_others_def file_lines_def)

lemma atomicJSON_grows: "atomicJSON i h d = (r, d') \<Longrightarrow> grows i (files d) (files d')"
  by (drule atomicJSON_state) (auto simp: grows_def)

lemma truncate_grows:
  assumes "truncateAndSync i f d = (r, d')" "tf_lines f = file_lines i (files d)"
  shows "grows i (files d) (files d')"
  using assms(1) unfolding truncateAndSync_def
  by (elim atomic_replace_cases) (simp_all add: grows_def assms(2))

lemma recoverLocked_grows:
  assumes "recoverLocked i d = (r, d')"
  shows "grows i (files d) (files d')"
proof -
  obtain r1 d1 where rh: "readHead i d = (r1, d1)" by (cases "readHead i d")
  obtain r2 d2 where rf: "read_file (tracePath i) d1 = (r2, d2)" by (cases "read_file (tracePath i) d1")
  have f: "files d1 = files d" "files d2 = files d" using readHead_files [OF rh] read_file_files [OF rf] by simp_all
  show ?thesis
  proof (cases "\<exists>h b. r1 = Inr h \<and> r2 = Inr b")
    case False
    with assms rh rf f have "files d' = files d"
      by (auto simp: recoverLocked_def split: sum.splits go_error.splits if_splits)
    then show ?thesis by simp
  next
    case True
    then obtain h b where hb: "r1 = Inr h" "r2 = Inr b" by blast
    with rf f have ln: "tf_lines (pick_trace b) = file_lines i (files d2)" by (auto simp: file_lines_def dest: read_file_Inr)
    obtain r3 d3 where tr: "(if 0 < tf_tail (pick_trace b) then truncateAndSync i (pick_trace b) d2 else (Inr (), d2)) = (r3, d3)"
      by (cases "if 0 < tf_tail (pick_trace b) then truncateAndSync i (pick_trace b) d2 else (Inr (), d2)")
    have g: "grows i (files d2) (files d3)"
    proof (cases "0 < tf_tail (pick_trace b)")
      case True
      with tr show ?thesis using truncate_grows [OF _ ln] by simp
    qed (use tr in simp)
    have "d' = d2 \<or> d' = d3 \<or> (\<exists>h r. atomicJSON i h d3 = (r, d'))"
      using assms unfolding recoverLocked_def rh hb prod.case sum.case rf Let_def tr
      by (auto split: sum.splits prod.splits if_splits)
    then show ?thesis using f g grows_trans [OF g] atomicJSON_grows by auto
  qed
qed

lemma ensure_head_grows: "ensure_head i d = (r, d') \<Longrightarrow> grows i (files d) (files d')"
  by (auto simp: ensure_head_def split: prod.splits if_splits dest!: syscall_files dest: atomicJSON_grows)

lemma commit_event_grows:
  assumes "commit_event torn i e d = (r, d')"
  shows "grows i (files d) (files d')"
proof -
  obtain ok1 d1 where o: "open_append (tracePath i) d = (ok1, d1)" by (cases "open_append (tracePath i) d")
  obtain ok2 d2 where w: "write_line torn (tracePath i) e d1 = (ok2, d2)" by (cases "write_line torn (tracePath i) e d1")
  obtain ok3 d3 where c: "calls 4 d2 = (ok3, d3)" by (cases "calls 4 d2")
  have g1: "grows i (files d) (files d1)"
    using o by (auto simp: open_append_def grows_def file_lines_def empty_trace_def split: prod.splits if_splits dest!: syscall_files)
  have g2: "grows i (files d1) (files d2)"
    using w by (auto simp: write_line_def grows_def add_line_def add_bytes_def file_lines_def
        split: prod.splits option.splits if_splits dest!: syscall_files)
  have "d' = d1 \<or> d' = d2 \<or> d' = d3 \<or> (\<exists>h r. atomicJSON i h d3 = (r, d'))"
    using assms by (auto simp: commit_event_def o w c split: sum.splits prod.splits if_splits)
  then show ?thesis
    using g1 grows_trans [OF g1 g2] calls_files [OF c] grows_trans [OF grows_trans [OF g1 g2]] atomicJSON_grows [of i _ d3 _ d'] by auto
qed

lemma Append_grows:
  assumes "Append torn now i sid typ dat d = (r, d')"
  shows "grows i (files d) (files d')"
proof -
  obtain ok d1 where c: "syscall d = (ok, d1)" by (cases "syscall d")
  obtain r2 d2 where rl: "recoverLocked i d1 = (r2, d2)" by (cases "recoverLocked i d1")
  obtain r3 d3 where e: "ensure_head i d2 = (r3, d3)" by (cases "ensure_head i d2")
  have g: "grows i (files d) (files d2)" "grows i (files d) (files d3)"
    using recoverLocked_grows [OF rl] ensure_head_grows [OF e] syscall_files [OF c] grows_trans by fastforce+
  have "d' = d1 \<or> d' = d2 \<or> d' = d3 \<or> (\<exists>e r. commit_event torn i e d3 = (r, d'))"
    using assms by (auto simp: Append_def c rl e split: sum.splits prod.splits if_splits)
  then show ?thesis using g grows_trans [OF g(2)] commit_event_grows [of torn i _ d3 _ d'] syscall_files [OF c] by auto
qed


subsection \<open>Append\<close>

lemma ensure_head_state:
  assumes "ensure_head i d = (r, d')" "trace_state i es 0 (head_of es) (files d)"
  shows "trace_state i es 0 (head_of es) (files d') \<and> file_lines i (files d') = file_lines i (files d)
    \<and> (is_ok r \<longrightarrow> files d' (headPath i) \<noteq> None) \<and> (healthy d \<longrightarrow> is_ok r \<and> healthy d')"
proof -
  obtain ok d1 where c: "syscall d = (ok, d1)" by (cases "syscall d")
  have f: "files d1 = files d" and hl: "healthy d \<longrightarrow> ok \<and> healthy d1" using c by (auto simp: syscall_def healthy_def)
  show ?thesis
  proof (cases "ok \<and> files d (headPath i) = None")
    case False
    with assms c f hl show ?thesis by (auto simp: ensure_head_def split: if_splits)
  next
    case True
    with assms(2) have es: "es = []" by (simp add: trace_state_def)
    from True assms(1) c f have a: "atomicJSON i zero_head d1 = (r, d')" by (simp add: ensure_head_def)
    have "trace_state i [] 0 zero_head ((files d)(headPath i \<mapsto> HeadDoc (Valid zero_head)))"
      using assms(2) es by (simp add: trace_state_def)
    with atomicJSON_state [OF a] assms(2) es f hl show ?thesis by auto
  qed
qed

lemma trace_state_add:
  assumes "trace_state i es 0 (head_of es) fs" "fs (tracePath i) = Some b" "fs (headPath i) \<noteq> None"
    and "Suc (length es) < 2 ^ 64" "snd (event_line e) < max_token" "chained_after i (length es) (last_event_hash es) e"
  shows "trace_state i (es @ [e]) 0 (head_of es) (fs(tracePath i \<mapsto> TraceDoc (add_line e (pick_trace b))))"
proof -
  from assms(1,2) have p: "parse_from i 0 [] (tf_lines (pick_trace b)) = Inr (es, map ev_EventHash es)" "tf_tail (pick_trace b) = 0"
    by (simp_all add: trace_state_def parseEvents_def)
  have "chained_after i (0 + length es) (if es = [] then [] else ev_EventHash (last es)) e" using assms(6) by (cases "es = []") auto
  from parse_from_snoc [OF p(1) assms(5) this] assms(1,3,4) p(2) show ?thesis
    by (auto simp: trace_state_def parseEvents_def add_line_def event_line_def head_of_def unat_count split: option.splits)
qed

lemma open_append_state:
  assumes "open_append (tracePath i) d = (ok, d')" "trace_state i es 0 h (files d)"
  shows "trace_state i es 0 h (files d') \<and> files d' (headPath i) = files d (headPath i)
    \<and> (ok \<longrightarrow> files d' (tracePath i) \<noteq> None) \<and> (healthy d \<longrightarrow> ok \<and> healthy d')"
  using assms
  by (auto simp: open_append_def syscall_def healthy_def trace_state_def put_file_def empty_trace_def parseEvents_def split: if_splits option.splits)

lemma write_line_state:
  assumes "write_line torn (tracePath i) e d = (ok, d')" "trace_state i es 0 (head_of es) (files d)"
    and "files d (tracePath i) \<noteq> None" "files d (headPath i) \<noteq> None" "Suc (length es) < 2 ^ 64"
    and "ok \<Longrightarrow> snd (event_line e) < max_token" "chained_after i (length es) (last_event_hash es) e"
  shows "(if ok then trace_state i (es @ [e]) 0 (head_of es) (files d') else \<exists>t. trace_state i es t (head_of es) (files d'))
    \<and> (healthy d \<longrightarrow> ok \<and> healthy d')"
proof -
  from assms(3) obtain b where b: "files d (tracePath i) = Some b" by auto
  obtain ok1 d1 where c: "syscall d = (ok1, d1)" by (cases "syscall d")
  have f: "files d1 = files d" and hl: "healthy d \<longrightarrow> ok1 \<and> healthy d1" using c by (auto simp: syscall_def healthy_def)
  from assms(1) b c have w: "ok1 = ok" "d' = put_file (tracePath i) (TraceDoc (if ok then add_line e (pick_trace b)
      else add_bytes (min torn (snd (event_line e))) (pick_trace b))) d1"
    by (auto simp: write_line_def)
  have "trace_state i es (tf_tail (pick_trace b) + n) (head_of es) ((files d)(tracePath i \<mapsto> TraceDoc (add_bytes n (pick_trace b))))" for n
    using assms(2,4) b by (auto simp: trace_state_def add_bytes_def split: option.splits)
  with trace_state_add [OF assms(2) b assms(4,5) _ assms(7)] assms(6) w f hl show ?thesis by (cases ok) auto
qed

definition fits :: "string \<Rightarrow> (string \<rightharpoonup> trace_doc) \<Rightarrow> bool" where
  "fits i fs \<longleftrightarrow> list_all (\<lambda>l. snd l < max_token) (file_lines i fs)"

lemma fits_prefix: "prefix (file_lines i fs) (file_lines i fs') \<Longrightarrow> fits i fs' \<Longrightarrow> fits i fs"
  by (auto simp: fits_def prefix_def)

lemma write_line_lines:
  "write_line torn (tracePath i) e d = (True, d') \<Longrightarrow> tf_tail (pick_trace (the (files d (tracePath i)))) = 0 \<Longrightarrow>
     file_lines i (files d') = file_lines i (files d) @ [event_line e]"
  by (auto simp: write_line_def file_lines_def add_line_def split: option.splits prod.splits dest!: syscall_files)

text \<open>The outcome of an operation that appends at most the event \<open>e\<close>.\<close>

definition appended :: "string \<Rightarrow> Event list \<Rightarrow> Event \<Rightarrow> Event result \<Rightarrow> trace_disk \<Rightarrow> bool" where
  "appended i es e r d \<longleftrightarrow>
     (if is_ok r then r = Inr e \<and> trace_state i (es @ [e]) 0 (head_of (es @ [e])) (files d)
      else (\<exists>t h. trace_state i es t h (files d)) \<or> (\<exists>h. trace_state i (es @ [e]) 0 h (files d)))"

lemma commit_event_state:
  assumes "commit_event torn i e d = (r, d')" "trace_state i es 0 (head_of es) (files d)" "files d (headPath i) \<noteq> None"
    and "Suc (length es) < 2 ^ 64" "fits i (files d')" "chained_after i (length es) (last_event_hash es) e"
  shows "appended i es e r d' \<and> (healthy d \<longrightarrow> is_ok r \<and> healthy d')"
proof -
  obtain ok1 d1 where o: "open_append (tracePath i) d = (ok1, d1)" by (cases "open_append (tracePath i) d")
  obtain ok2 d2 where w: "write_line torn (tracePath i) e d1 = (ok2, d2)" by (cases "write_line torn (tracePath i) e d1")
  obtain ok3 d3 where c: "calls 4 d2 = (ok3, d3)" by (cases "calls 4 d2")
  obtain r4 d4 where a: "atomicJSON i (head_of (es @ [e])) d3 = (r4, d4)" by (cases "atomicJSON i (head_of (es @ [e])) d3")
  note os = open_append_state [OF o assms(2)]
  have h: "\<lparr>hd_Count = ev_Sequence e, hd_Hash = ev_EventHash e\<rparr> = head_of (es @ [e])"
    using assms(6) by (simp add: head_of_def chained_after_def)
  have run: "(r, d') = (if \<not> ok1 then (Inl EIO, d1) else if \<not> ok2 then (Inl EIO, d2) else if \<not> ok3 then (Inl EIO, d3)
      else (case r4 of Inl x \<Rightarrow> (Inl x, d4) | Inr _ \<Rightarrow> (Inr e, d4)))"
    using assms(1) by (auto simp: commit_event_def o w c h a split: sum.splits)
  show ?thesis
  proof (cases ok1)
    case False
    with run os show ?thesis by (auto simp: appended_def)
  next
    case True
    have f3: "files d3 = files d2" using calls_files [OF c] .
    have small: "snd (event_line e) < max_token" if ok2
    proof -
      from os have "tf_tail (pick_trace (the (files d1 (tracePath i)))) = 0" using True by (auto simp: trace_state_def)
      from write_line_lines [OF _ this] w that have "event_line e \<in> set (file_lines i (files d2))" by simp
      moreover have "file_lines i (files d') = file_lines i (files d2)"
        using run True that f3 atomicJSON_state [OF a] by (auto split: if_splits sum.splits)
      ultimately show ?thesis using assms(5) by (auto simp: fits_def list_all_iff)
    qed
    from os True assms(3) have "files d1 (tracePath i) \<noteq> None" "files d1 (headPath i) \<noteq> None" by auto
    note ws = write_line_state [OF w conjunct1 [OF os] this assms(4) small assms(6)]
    have hc: "healthy d2 \<longrightarrow> ok3 \<and> healthy d3" using healthy_calls [of d2 4] c by auto
    show ?thesis
    proof (cases ok2)
      case False
      with run ws os True show ?thesis by (auto simp: appended_def)
    next
      case ok2: True
      with ws have s2: "trace_state i (es @ [e]) 0 (head_of es) (files d3)" using f3 by simp
      note as = recover_head_state [OF a s2]
      show ?thesis
      proof (cases ok3)
        case False
        with run True ok2 s2 ws os hc show ?thesis by (auto simp: appended_def)
      next
        case ok3: True
        with run True ok2 as ws os hc s2 show ?thesis by (cases r4) (auto simp: appended_def)
      qed
    qed
  qed
qed


lemma event_hash_upd [simp]: "event_hash p (e\<lparr>ev_EventHash := x\<rparr>) = event_hash p e"
  by (simp add: event_hash_def canonicalEvent_def)

lemma new_event_chained: "chained_after i (length es) (last_event_hash es) (new_event i sid typ p now (head_of es))"
  by (simp add: chained_after_def new_event_def Let_def head_of_def event_hash_def canonicalEvent_def)

lemma commit_event_healthy:
  assumes "healthy d"
  shows "\<exists>d'. commit_event torn i e d = (Inr e, d') \<and> healthy d'"
proof -
  obtain ok1 d1 where o: "open_append (tracePath i) d = (ok1, d1)" by (cases "open_append (tracePath i) d")
  from o assms have o1: "ok1" "healthy d1" "files d1 (tracePath i) \<noteq> None"
    by (auto simp: open_append_def syscall_def healthy_def put_file_def split: if_splits)
  obtain ok2 d2 where w: "write_line torn (tracePath i) e d1 = (ok2, d2)" by (cases "write_line torn (tracePath i) e d1")
  from w o1 have w1: "ok2" "healthy d2" by (auto simp: write_line_def syscall_def healthy_def put_file_def)
  from healthy_calls [OF w1(2), of 4] obtain d3 where c: "calls 4 d2 = (True, d3)" "healthy d3" by blast
  from trace_head.save_healthy [OF c(2), of "(i, \<lparr>hd_Count = ev_Sequence e, hd_Hash = ev_EventHash e\<rparr>)"] c o o1 w w1
  show ?thesis by (auto simp: commit_event_def)
qed

lemma Append_state:
  assumes "Append torn now i sid typ dat d = (r, d')" "trace_state i es t h (files d)" "Suc (length es) < 2 ^ 64" "fits i (files d')"
  shows "(\<exists>p. marshalPayload i (of_nat (Suc (length es))) typ dat = Inr p \<and> appended i es (new_event i sid typ p now (head_of es)) r d')
    \<or> (\<not> is_ok r \<and> (\<exists>t h. trace_state i es t h (files d')))"
proof -
  obtain ok d1 where c: "syscall d = (ok, d1)" by (cases "syscall d")
  obtain r2 d2 where rl: "recoverLocked i d1 = (r2, d2)" by (cases "recoverLocked i d1")
  obtain r3 d3 where e: "ensure_head i d2 = (r3, d3)" by (cases "ensure_head i d2")
  from assms(2) syscall_files [OF c] have s1: "trace_state i es t h (files d1)" by simp
  from recoverLocked_state [OF rl s1] obtain t' h' where s2: "trace_state i es t' h' (files d2)"
    "is_ok r2 \<longrightarrow> r2 = Inr (head_of es) \<and> t' = 0 \<and> h' = head_of es" by blast
  show ?thesis
  proof (cases "ok \<and> is_ok (trace_validID i) \<and> is_ok r2")
    case False
    with assms(1) c rl have "\<not> is_ok r \<and> (d' = d1 \<or> d' = d2)"
      by (auto simp: Append_def is_ok_def split: if_splits sum.splits)
    with s1 s2 show ?thesis by blast
  next
    case True
    with s2 have r2: "r2 = Inr (head_of es)" and s2': "trace_state i es 0 (head_of es) (files d2)" by auto
    note s3 = ensure_head_state [OF e s2']
    have len: "hd_Count (head_of es) + 1 = (of_nat (Suc (length es)) :: uint64)" by (simp add: head_of_def)
    show ?thesis
    proof (cases "is_ok r3 \<and> is_ok (marshalPayload i (of_nat (Suc (length es))) typ dat)")
      case False
      with True assms(1) c rl r2 e have "\<not> is_ok r \<and> d' = d3"
        by (auto simp: Append_def len is_ok_def simp del: of_nat_Suc split: if_splits sum.splits)
      with s3 show ?thesis by blast
    next
      case ok: True
      then obtain p where p: "marshalPayload i (of_nat (Suc (length es))) typ dat = Inr p" by (auto simp: is_ok_iff)
      from ok True assms(1) c rl r2 e p have ce: "commit_event torn i (new_event i sid typ p now (head_of es)) d3 = (r, d')"
        by (auto simp: Append_def len is_ok_def simp del: of_nat_Suc split: sum.splits)
      from commit_event_state [OF ce conjunct1 [OF s3] _ assms(3,4) new_event_chained] s3 ok p show ?thesis by auto
    qed
  qed
qed

lemma Append_healthy:
  assumes "trace_state i es t h (files d)" "healthy d" "is_ok (trace_validID i)" "marshalPayload i (of_nat (Suc (length es))) typ dat = Inr p"
  shows "\<exists>d'. Append torn now i sid typ dat d = (Inr (new_event i sid typ p now (head_of es)), d') \<and> healthy d'"
proof -
  from healthy_syscall [OF assms(2)] obtain d1 where c: "syscall d = (True, d1)" "healthy d1" "files d1 = files d" by blast
  obtain r2 d2 where rl: "recoverLocked i d1 = (r2, d2)" by (cases "recoverLocked i d1")
  from recoverLocked_state [OF rl, of es t h] c assms(1) have r2: "r2 = Inr (head_of es)" "healthy d2"
    and s2: "trace_state i es 0 (head_of es) (files d2)" by auto
  obtain r3 d3 where e: "ensure_head i d2 = (r3, d3)" by (cases "ensure_head i d2")
  from ensure_head_state [OF e s2] r2 obtain u where r3: "r3 = Inr u" "healthy d3" by (auto simp: is_ok_iff)
  have len: "hd_Count (head_of es) + 1 = (of_nat (Suc (length es)) :: uint64)" by (simp add: head_of_def)
  from commit_event_healthy [OF r3(2)] obtain d'
    where ce: "commit_event torn i (new_event i sid typ p now (head_of es)) d3 = (Inr (new_event i sid typ p now (head_of es)), d')" "healthy d'" by blast
  obtain u' where "trace_validID i = Inr u'" using assms(3) by (auto simp: is_ok_iff)
  with c rl r2 e r3 ce assms(4) show ?thesis by (simp add: Append_def len del: of_nat_Suc)
qed

subsection \<open>Verifying and reading\<close>

lemma readEvents_state:
  assumes "trace_state i es 0 h (files d)" "healthy d" "files d (tracePath i) \<noteq> None"
  shows "\<exists>d'. readEvents i d = (Inr (es, map ev_EventHash es), d') \<and> healthy d' \<and> files d' = files d"
  using healthy_read_file [OF assms(2), of "tracePath i"] assms(1,3)
  by (auto simp: readEvents_def trace_state_def split: option.splits)

lemma verified_state:
  assumes "trace_state i es 0 (head_of es) (files d)" "healthy d" "es \<noteq> []" "is_ok (trace_validID i)"
  shows "fst (VerifyIntegrity i d) = Inr () \<and> fst (ReadTrace i d) = Inr es"
proof -
  have "files d (tracePath i) \<noteq> None" using assms(1,3) by (auto simp: trace_state_def split: option.splits)
  from readEvents_state [OF assms(1,2) this] obtain d1
    where re: "readEvents i d = (Inr (es, map ev_EventHash es), d1)" "healthy d1" "files d1 = files d" by blast
  obtain r d2 where rh: "readHead i d1 = (r, d2)" by (cases "readHead i d1")
  from readHead_state [OF rh, of es 0 "head_of es"] re assms(1) have "r = Inr (head_of es)" by auto
  with re rh assms(4) show ?thesis
    by (auto simp: VerifyIntegrity_def ReadTrace_def is_ok_iff head_of_def last_event_hash_def)
qed

lemma recovered_verifies:
  assumes "trace_state i es t h (files d)" "healthy d" "is_ok (trace_validID i)"
  shows "\<exists>d'. recoverLocked i d = (Inr (head_of es), d') \<and> healthy d'
    \<and> (es \<noteq> [] \<longrightarrow> fst (VerifyIntegrity i d') = Inr () \<and> fst (ReadTrace i d') = Inr es)"
proof -
  obtain r d' where rl: "recoverLocked i d = (r, d')" by (cases "recoverLocked i d")
  from recoverLocked_state [OF rl assms(1)] assms(2) have "r = Inr (head_of es)" "healthy d'" "trace_state i es 0 (head_of es) (files d')" by auto
  with rl verified_state [OF this(3,2) _ assms(3)] show ?thesis by blast
qed


subsection \<open>Runs\<close>

datatype trace_op =
    OpAppend nat timestamp string string string "json result"
  | OpOpen "string list \<Rightarrow> string list" "(string \<times> bool) list"

fun trace_step :: "trace_op \<Rightarrow> trace_disk \<Rightarrow> trace_disk" where
  "trace_step (OpAppend torn now i sid typ dat) d = snd (Append torn now i sid typ dat d)"
| "trace_step (OpOpen order entries) d = snd (NewWriter order entries d)"

definition trace_run :: "trace_op list \<Rightarrow> trace_disk \<Rightarrow> trace_disk" where
  "trace_run xs d = fold trace_step xs d"

lemma trace_state_same_others: "trace_state i es t h fs \<Longrightarrow> same_others j fs fs' \<Longrightarrow> i \<noteq> j \<Longrightarrow> trace_state i es t h fs'"
  by (simp add: trace_state_def same_others_def)

lemma recover_traces_state:
  "recover_traces ids d = (r, d') \<Longrightarrow> trace_state i es t h (files d) \<Longrightarrow> \<exists>t' h'. trace_state i es t' h' (files d')"
proof (induction ids arbitrary: d t h)
  case (Cons j ids)
  obtain r1 d1 where rl: "recoverLocked j d = (r1, d1)" by (cases "recoverLocked j d")
  have s1: "\<exists>t' h'. trace_state i es t' h' (files d1)"
  proof (cases "i = j")
    case True
    with recoverLocked_state [OF rl, of es t h] Cons.prems(2) show ?thesis by blast
  next
    case False
    from trace_state_same_others [OF Cons.prems(2) _ False] recoverLocked_grows [OF rl] show ?thesis by (auto simp: grows_def)
  qed
  from Cons.prems(1) rl have "d' = d \<or> d' = d1 \<or> recover_traces ids d1 = (r, d')" by (auto split: sum.splits)
  with s1 Cons.prems(2) Cons.IH [of d1] show ?case by blast
qed auto

lemma recover_traces_lines: "recover_traces ids d = (r, d') \<Longrightarrow> prefix (file_lines i (files d)) (file_lines i (files d'))"
proof (induction ids arbitrary: d)
  case (Cons j ids)
  obtain r1 d1 where rl: "recoverLocked j d = (r1, d1)" by (cases "recoverLocked j d")
  from Cons.prems rl have "d' = d \<or> d' = d1 \<or> recover_traces ids d1 = (r, d')" by (auto split: sum.splits)
  with grows_lines [OF recoverLocked_grows [OF rl]] Cons.IH [of d1] show ?case by (auto intro: prefix_order.trans)
qed auto

lemma NewWriter_cases: "NewWriter order entries d = (r, d') \<Longrightarrow> files d' = files d \<or> (\<exists>d1 ids. files d1 = files d \<and> recover_traces ids d1 = (r, d'))"
  by (auto simp: NewWriter_def split: prod.splits if_splits dest: calls_files)

lemma trace_step_lines: "prefix (file_lines i (files d)) (file_lines i (files (trace_step x d)))"
proof (cases x)
  case (OpAppend torn now j sid ty dat)
  with Append_grows [of torn now j sid ty dat d] grows_lines show ?thesis by (metis prod.collapse trace_step.simps(1))
next
  case (OpOpen order entries)
  with NewWriter_cases [of order entries d] recover_traces_lines show ?thesis
    by (cases "NewWriter order entries d") fastforce
qed

lemma trace_run_lines: "prefix (file_lines i (files d)) (file_lines i (files (trace_run xs d)))"
proof (induction xs arbitrary: d)
  case (Cons x xs)
  from prefix_order.trans [OF trace_step_lines Cons.IH] show ?case by (simp add: trace_run_def)
qed (simp add: trace_run_def)

lemma extend_Nil: "trace_state i es t h fs \<Longrightarrow> \<exists>es' t' h'. trace_state i (es @ es') t' h' fs"
  by (rule exI [of _ "[]"]) auto

lemma trace_step_state:
  assumes "trace_state i es t h (files d)" "fits i (files (trace_step x d))" "Suc (length es) < 2 ^ 64"
  shows "\<exists>es' t' h'. trace_state i (es @ es') t' h' (files (trace_step x d))"
proof (cases x)
  case (OpAppend torn now j sid ty dat)
  obtain r d' where a: "Append torn now j sid ty dat d = (r, d')" by (cases "Append torn now j sid ty dat d")
  show ?thesis
  proof (cases "i = j")
    case True
    with Append_state [OF a _ assms(3), of t h] OpAppend a assms(1,2) show ?thesis
      by (auto simp: appended_def split: if_splits intro: extend_Nil)
  next
    case False
    from trace_state_same_others [OF assms(1) _ False] Append_grows [OF a] have "trace_state i es t h (files d')" by (simp add: grows_def)
    with OpAppend a show ?thesis using extend_Nil by simp
  qed
next
  case (OpOpen order entries)
  obtain r d' where n: "NewWriter order entries d = (r, d')" by (cases "NewWriter order entries d")
  from NewWriter_cases [OF n] recover_traces_state assms(1) have "\<exists>t' h'. trace_state i es t' h' (files d')" by metis
  with OpOpen n show ?thesis using extend_Nil by auto
qed

lemma trace_state_lines: "trace_state i es t h fs \<Longrightarrow> length es = length (file_lines i fs)"
  by (auto simp: trace_state_def file_lines_def parseEvents_def split: option.splits dest: parse_from_hashes)

lemma trace_run_state:
  assumes "trace_state i es t h (files d)" "fits i (files (trace_run xs d))" "Suc (length (file_lines i (files (trace_run xs d)))) < 2 ^ 64"
  shows "\<exists>es' t' h'. trace_state i (es @ es') t' h' (files (trace_run xs d))"
  using assms
proof (induction xs arbitrary: d es t h)
  case Nil
  then show ?case using extend_Nil by (simp add: trace_run_def)
next
  case (Cons x xs)
  have run: "trace_run (x # xs) d = trace_run xs (trace_step x d)" by (simp add: trace_run_def)
  have "fits i (files (trace_step x d))" using fits_prefix [OF trace_run_lines] Cons.prems(2) run by simp
  moreover have "Suc (length es) < 2 ^ 64"
    using prefix_length_le [OF trace_run_lines [of i d "x # xs"]] trace_state_lines [OF Cons.prems(1)] Cons.prems(3) by simp
  ultimately obtain es1 t1 h1 where "trace_state i (es @ es1) t1 h1 (files (trace_step x d))"
    using trace_step_state [OF Cons.prems(1)] by blast
  from Cons.IH [OF this] Cons.prems(2,3) run show ?case by auto
qed


subsection \<open>The chain pins down the events\<close>

lemma hex_no_brace: "CHR ''{'' \<notin> set (EncodeToString s)"
proof -
  have d: "hex_digit n \<noteq> CHR ''{''" if "n < 16" for n
  proof
    assume "hex_digit n = CHR ''{''"
    then have "(of_char (hex_digit n) :: nat) = 123" by simp
    with that show False by (auto simp: hex_digit_def split: if_splits)
  qed
  have "CHR ''{'' \<notin> set (hex_byte c)" for c
    using d [of "of_char c div 16"] d [of "of_char c mod 16"] of_char_less [of c]
    by (auto simp: hex_byte_def less_mult_imp_div_less dest: sym)
  then show ?thesis by (simp add: EncodeToString_def)
qed

definition hashlike :: "string \<Rightarrow> bool" where
  "hashlike p \<longleftrightarrow> CHR ''{'' \<notin> set p"

lemma hashlike_simps [simp]: "hashlike []" "hashlike (event_hash p e)"
  by (simp_all add: hashlike_def event_hash_def sha256_hex_def hex_no_brace)

lemma wf_canonical: "wf_json (ev_Data e) \<Longrightarrow> wf_json (JObj (canonicalEvent e))"
  by (auto simp: canonicalEvent_def json_time_def)

text \<open>Equal as far as the trace shows: the timestamp as it is printed, everything else exactly.\<close>

definition same_event :: "Event \<Rightarrow> Event \<Rightarrow> bool" where
  "same_event e f \<longleftrightarrow> rfc3339nano (ev_Timestamp e) = rfc3339nano (ev_Timestamp f) \<and> e\<lparr>ev_Timestamp := 0\<rparr> = f\<lparr>ev_Timestamp := 0\<rparr>"

lemma event_hash_eq:
  assumes "event_hash p e = event_hash q f" "hashlike p" "hashlike q" "wf_json (ev_Data e)" "wf_json (ev_Data f)"
  shows "(p = q \<and> canonicalEvent e = canonicalEvent f) \<or> (\<exists>x y. sha_collision x y)"
proof -
  from sha256_hex_eq_cases [OF assms(1) [unfolded event_hash_def]] consider
      (eq) "p @ json_text (JObj (canonicalEvent e)) = q @ json_text (JObj (canonicalEvent f))" | (coll) "\<exists>x y. sha_collision x y" by blast
  then show ?thesis
  proof cases
    case eq
    have tw: "takeWhile (\<lambda>c. c \<noteq> CHR ''{'') (r @ json_text (JObj kvs)) = r" if "hashlike r" for r kvs
      using that by (simp add: hashlike_def takeWhile_append takeWhile_eq_all_conv)
    from eq tw [OF assms(2)] tw [OF assms(3)] have "p = q" by metis
    with eq have "json_text (JObj (canonicalEvent e)) = json_text (JObj (canonicalEvent f))" by simp
    from json_text_inj [OF wf_canonical [OF assms(4)] wf_canonical [OF assms(5)] this] \<open>p = q\<close> show ?thesis by simp
  qed blast
qed

lemma canonicalEvent_eq:
  assumes "canonicalEvent e = canonicalEvent f" "ev_PrevHash e = ev_PrevHash f" "ev_EventHash e = ev_EventHash f"
  shows "same_event e f"
proof -
  have "nat (uint (ev_Sequence e)) = nat (uint (ev_Sequence f))"
    using assms(1) itoa_nat_inj by (auto simp: canonicalEvent_def json_int_def itoa_def)
  then have "ev_Sequence e = ev_Sequence f" by (simp add: unsigned_word_eqI eq_nat_nat_iff)
  with assms show ?thesis by (cases e; cases f) (auto simp: same_event_def canonicalEvent_def json_time_def)
qed

lemma parse_from_nth:
  "parse_from i n p ls = Inr (es, hs) \<Longrightarrow> k < length es \<Longrightarrow>
     chained_after i (n + k) (if k = 0 then p else ev_EventHash (es ! (k - 1))) (es ! k)"
proof (induction ls arbitrary: n p es hs k)
  case (Cons l ls)
  from Cons.prems(1) obtain e b es' hs' where x: "chained_after i n p e" "es = e # es'"
    "parse_from i (Suc n) (ev_EventHash e) ls = Inr (es', hs')" by (rule parse_from_ConsE)
  show ?case
  proof (cases k)
    case (Suc m)
    with Cons.IH [OF x(3), of m] Cons.prems(2) x(2) show ?thesis by (cases m) auto
  qed (use x in simp)
qed simp

definition chain :: "string \<Rightarrow> Event list \<Rightarrow> bool" where
  "chain i es \<longleftrightarrow> (\<forall>k < length es. chained_after i k (last_event_hash (take k es)) (es ! k) \<and> wf_json (ev_Data (es ! k)))"

lemma parse_chain:
  assumes "parseEvents i ls = Inr (es, hs)" "\<forall>e \<in> set es. wf_json (ev_Data e)"
  shows "chain i es"
  unfolding chain_def
proof (intro allI impI)
  fix k assume k: "k < length es"
  have "last_event_hash (take k es) = (if k = 0 then [] else ev_EventHash (es ! (k - 1)))"
  proof (cases "k = 0")
    case False
    with k have "take k es \<noteq> []" by auto
    with k False show ?thesis by (simp add: last_conv_nth min_def)
  qed simp
  with parse_from_nth [of i 0 "[]" ls es hs k] assms k
  show "chained_after i k (last_event_hash (take k es)) (es ! k) \<and> wf_json (ev_Data (es ! k))"
    by (auto simp: parseEvents_def)
qed

lemma chain_snoc: "chain i (es @ [e]) \<longleftrightarrow> chain i es \<and> chained_after i (length es) (last_event_hash es) e \<and> wf_json (ev_Data e)"
  by (auto simp: chain_def nth_append less_Suc_eq)

lemma chain_hashlike: "chain i es \<Longrightarrow> hashlike (last_event_hash es)"
  by (induction es rule: rev_induct) (auto simp: chain_snoc chained_after_def)

lemma chain_hash_Nil: "chain i es \<Longrightarrow> last_event_hash es = [] \<longleftrightarrow> es = []"
  by (induction es rule: rev_induct) (auto simp: chain_snoc chained_after_def event_hash_def)

lemma chain_determined:
  "chain i es \<Longrightarrow> chain j fs \<Longrightarrow> last_event_hash es = last_event_hash fs \<Longrightarrow> list_all2 same_event es fs \<or> (\<exists>x y. sha_collision x y)"
proof (induction es arbitrary: fs rule: rev_induct)
  case Nil
  with chain_hash_Nil [OF Nil(2)] show ?case by simp
next
  case (snoc e es)
  with chain_hash_Nil [OF snoc(2)] chain_hash_Nil [OF snoc(3)] obtain f gs where fs: "fs = gs @ [f]" by (metis rev_exhaust snoc_eq_iff_butlast)
  from snoc.prems fs have c: "chain i es" "chain j gs" and w: "wf_json (ev_Data e)" "wf_json (ev_Data f)"
    and ce: "ev_PrevHash e = last_event_hash es" "ev_EventHash e = event_hash (last_event_hash es) e"
    and cf: "ev_PrevHash f = last_event_hash gs" "ev_EventHash f = event_hash (last_event_hash gs) f"
    by (auto simp: chain_snoc chained_after_def)
  from snoc.prems(3) fs have h: "ev_EventHash e = ev_EventHash f" by simp
  with ce cf have "event_hash (last_event_hash es) e = event_hash (last_event_hash gs) f" by simp
  from event_hash_eq [OF this chain_hashlike [OF c(1)] chain_hashlike [OF c(2)] w]
  show ?case
  proof
    assume eq: "last_event_hash es = last_event_hash gs \<and> canonicalEvent e = canonicalEvent f"
    with canonicalEvent_eq [of e f] ce cf h have "same_event e f" by simp
    with snoc.IH [OF c] eq fs show ?case by (auto intro: list_all2_appendI)
  qed blast
qed


lemma verified_chain:
  assumes "VerifyIntegrity i d = (Inr (), d1)" "ReadTrace i d = (Inr es, d2)" "list_all (\<lambda>e. wf_json (ev_Data e)) es"
  shows "\<exists>h. chain i es \<and> (case files d (headPath i) of None \<Rightarrow> h = zero_head | Some b \<Rightarrow> b = HeadDoc (Valid h)) \<and> hd_Hash h = last_event_hash es"
proof -
  obtain r dr where re: "readEvents i d = (r, dr)" by (cases "readEvents i d")
  from assms(2) re obtain hs where r: "r = Inr (es, hs)" by (auto simp: ReadTrace_def split: sum.splits)
  from re r obtain b where p: "parseEvents i (tf_lines (pick_trace b)) = Inr (es, hs)"
    by (auto simp: readEvents_def split: prod.splits sum.splits if_splits)
  have f: "files dr = files d" using re by (auto simp: readEvents_def split: prod.splits sum.splits if_splits dest: read_file_files)
  obtain h dh where rh: "readHead i dr = (Inr h, dh)" and hh: "hd_Hash h = last_hash hs"
    using assms(1) re r by (auto simp: VerifyIntegrity_def split: prod.splits sum.splits if_splits)
  have "case files d (headPath i) of None \<Rightarrow> h = zero_head | Some b \<Rightarrow> b = HeadDoc (Valid h)"
    using rh f unfolding readHead_def read_file_def stat_trace_def
    by (auto split: prod.splits sum.splits if_splits option.splits doc.splits go_error.splits dest!: syscall_files elim: pick_head.elims)
  moreover have "hd_Hash h = last_event_hash es" using hh p by (auto simp: last_event_hash_def parseEvents_def dest: parse_from_hashes)
  moreover have "chain i es" using parse_chain [OF p] assms(3) by (simp add: list_all_iff)
  ultimately show ?thesis by blast
qed

subsection \<open>Lines that are too long\<close>

lemma commit_event_lines:
  assumes "commit_event torn i e d = (Inr x, d')" "trace_state i es 0 h (files d)"
  shows "file_lines i (files d') = file_lines i (files d) @ [event_line e] \<and> x = e"
proof -
  obtain ok1 d1 where o: "open_append (tracePath i) d = (ok1, d1)" by (cases "open_append (tracePath i) d")
  obtain ok2 d2 where w: "write_line torn (tracePath i) e d1 = (ok2, d2)" by (cases "write_line torn (tracePath i) e d1")
  obtain ok3 d3 where c: "calls 4 d2 = (ok3, d3)" by (cases "calls 4 d2")
  obtain r4 d4 where a: "atomicJSON i \<lparr>hd_Count = ev_Sequence e, hd_Hash = ev_EventHash e\<rparr> d3 = (r4, d4)"
    by (cases "atomicJSON i \<lparr>hd_Count = ev_Sequence e, hd_Hash = ev_EventHash e\<rparr> d3")
  from assms(1) o w c a have ok: "ok1" "ok2" "d' = d4" "x = e" by (auto simp: commit_event_def split: if_splits sum.splits)
  note os = open_append_state [OF o assms(2)]
  then have "tf_tail (pick_trace (the (files d1 (tracePath i)))) = 0" using ok by (auto simp: trace_state_def)
  then have l: "file_lines i (files d2) = file_lines i (files d1) @ [event_line e]" using write_line_lines w ok by simp
  have "file_lines i (files d1) = file_lines i (files d)"
    using o by (auto simp: open_append_def file_lines_def empty_trace_def split: prod.splits if_splits dest!: syscall_files)
  with l calls_files [OF c] atomicJSON_state [OF a] ok show ?thesis by auto
qed

lemma Append_lines:
  assumes "Append torn now i sid typ dat d = (Inr e, d')" "trace_state i es t h (files d)"
  shows "file_lines i (files d') = file_lines i (files d) @ [event_line e]"
proof -
  obtain ok d1 where c: "syscall d = (ok, d1)" by (cases "syscall d")
  obtain r2 d2 where rl: "recoverLocked i d1 = (r2, d2)" by (cases "recoverLocked i d1")
  obtain r3 d3 where eh: "ensure_head i d2 = (r3, d3)" by (cases "ensure_head i d2")
  from assms(1) c rl eh obtain hd' f where r2: "r2 = Inr hd'" "is_ok r3" and ce: "commit_event torn i f d3 = (Inr e, d')"
    by (auto simp: Append_def split: if_splits sum.splits)
  from recoverLocked_state [OF rl, of es t h] assms(2) syscall_files [OF c] r2
  have s2: "trace_state i es 0 (head_of es) (files d2)" "file_lines i (files d2) = file_lines i (files d)" by auto
  from ensure_head_state [OF eh s2(1)] commit_event_lines [OF ce] s2 show ?thesis by auto
qed

definition blocked :: "string \<Rightarrow> (string \<rightharpoonup> trace_doc) \<Rightarrow> bool" where
  "blocked i fs \<longleftrightarrow> \<not> fits i fs"

lemma blocked_prefix: "prefix (file_lines i fs) (file_lines i fs') \<Longrightarrow> blocked i fs \<Longrightarrow> blocked i fs'"
  using fits_prefix by (auto simp: blocked_def)

lemma blocked_parse: "blocked i fs \<Longrightarrow> \<exists>b x. fs (tracePath i) = Some b \<and> parseEvents i (tf_lines (pick_trace b)) = Inl x"
proof -
  assume bl: "blocked i fs"
  then obtain b where b: "fs (tracePath i) = Some b" by (cases "fs (tracePath i)") (auto simp: blocked_def fits_def file_lines_def)
  show ?thesis
  proof (cases "parseEvents i (tf_lines (pick_trace b))")
    case (Inr p)
    obtain es hs where "p = (es, hs)" by (cases p)
    with parse_from_lines [of i 0 "[]" "tf_lines (pick_trace b)" es hs] Inr bl b show ?thesis
      by (simp add: blocked_def fits_def file_lines_def parseEvents_def)
  qed (use b in simp)
qed

lemma blocked_recover:
  assumes "blocked i (files d)" "recoverLocked i d = (r, d')"
  shows "\<not> is_ok r"
proof -
  from blocked_parse [OF assms(1)] obtain b x where b: "files d (tracePath i) = Some b" "parseEvents i (tf_lines (pick_trace b)) = Inl x" by blast
  obtain r1 d1 where rh: "readHead i d = (r1, d1)" by (cases "readHead i d")
  obtain r2 d2 where rf: "read_file (tracePath i) d1 = (r2, d2)" by (cases "read_file (tracePath i) d1")
  have "r2 = Inr b \<or> r2 = Inl EIO" using rf b readHead_files [OF rh] by (auto simp: read_file_def split: prod.splits if_splits)
  with assms(2) rh rf b(2) show ?thesis by (cases r1) (auto simp: recoverLocked_def)
qed

lemma blocked_recover_traces: "recover_traces ids d = (r, d') \<Longrightarrow> blocked i (files d) \<Longrightarrow> i \<in> set ids \<Longrightarrow> \<not> is_ok r"
proof (induction ids arbitrary: d)
  case (Cons j ids)
  obtain r1 d1 where rl: "recoverLocked j d = (r1, d1)" by (cases "recoverLocked j d")
  have b: "blocked i (files d1)" using blocked_prefix [OF grows_lines [OF recoverLocked_grows [OF rl]]] Cons.prems(2) .
  show ?case
  proof (cases "i = j")
    case True
    with blocked_recover [OF _ rl] Cons.prems(1,2) rl show ?thesis by (auto simp: is_ok_iff split: sum.splits)
  next
    case False
    with Cons.IH [of d1] b Cons.prems(1,3) rl show ?thesis by (auto simp: is_ok_iff split: sum.splits)
  qed
qed simp

lemma blocked_reading:
  assumes "blocked i (files d)"
  shows "\<not> is_ok (fst (readEvents i d))"
proof -
  from blocked_parse [OF assms] obtain b x where b: "files d (tracePath i) = Some b" "parseEvents i (tf_lines (pick_trace b)) = Inl x" by blast
  then show ?thesis by (auto simp: readEvents_def read_file_def split: prod.splits)
qed

end
