(* ===== verification/Trace_Theorems.thy ===== *)
theory Trace_Theorems
  imports Trace_Safety
begin

text \<open>
  What the trace promises. The chain of hashes pins down every event (\<open>trace_tamper_evident\<close>); complete lines are never changed or
  removed, and whatever fails during an append or a recovery, the next recovery on a working disk finds the old events or the
  old events and the new one, committed by the head (\<open>append_is_atomic\<close>, \<open>trace_is_append_only\<close>); values under sensitive keys never
  reach the disk (\<open>trace_hides_sensitive_values\<close>); an event as large as the scanner's buffer makes the trace unusable
  (\<open>oversized_event_blocks_trace\<close>).
\<close>

subsection \<open>How long a line gets\<close>

lemma length_json_esc: "length (json_esc s) \<le> 6 * length s"
proof (induction s rule: json_esc.induct)
  case (2 c cs)
  have "length (esc_char c) \<le> 6" by (simp add: esc_char_def)
  with 2 show ?case by (auto simp: min_def split: if_splits)
qed simp

lemma length_json_quote: "length (json_quote s) \<le> 6 * length s + 2"
  using length_json_esc [of s] by (simp add: json_quote_def)

lemma length_itoa_nat: "n < 10 ^ k \<Longrightarrow> 0 < k \<Longrightarrow> length (itoa_nat n) \<le> k"
proof (induction n arbitrary: k rule: itoa_nat.induct)
  case (1 n)
  show ?case
  proof (cases "n < 10")
    case True
    with 1(3) show ?thesis by (subst itoa_nat.simps) simp
  next
    case False
    with 1(2) have "k \<noteq> 1" by (cases "k = 1") auto
    with 1(3) obtain m where m: "k = Suc m" "0 < m" by (cases k) auto
    with 1(2) have "n div 10 < 10 ^ m" by (simp add: less_mult_imp_div_less)
    from 1(1) [OF False this m(2)] m False show ?thesis by (subst itoa_nat.simps) simp
  qed
qed

lemma length_itoa_word: "length (itoa (uint (w :: uint64))) \<le> 20"
proof -
  have "unat w < 2 ^ LENGTH(64)" by (rule unsigned_less)
  then have "nat (uint w) < 10 ^ 20" by simp
  from length_itoa_nat [OF this] show ?thesis by (simp add: itoa_def)
qed

lemma fold_lit_length: "fold_lit ps s = Some r \<Longrightarrow> length r + length ps \<le> length s"
proof (induction ps s rule: fold_lit.induct)
  case (2 p ps s)
  from 2(4) obtain c cs where s: "s = c # cs" by (auto split: list.splits)
  consider "lower_char c = p" "fold_lit ps cs = Some r"
    | "lower_char c \<noteq> p" "p = CHR ''k'' \<and> take 3 s = [CHR 0xE2, CHR 0x84, CHR 0xAA]" "fold_lit ps (drop 3 s) = Some r"
    | "lower_char c \<noteq> p" "\<not> (p = CHR ''k'' \<and> take 3 s = [CHR 0xE2, CHR 0x84, CHR 0xAA])" "p = CHR ''s'' \<and> take 2 s = [CHR 0xC5, CHR 0xBF]" "fold_lit ps (drop 2 s) = Some r"
    using 2(4) s by (auto split: if_splits)
  then show ?case
  proof cases
    case 1
    with 2(1) [OF s] s show ?thesis by simp
  next
    case 2
    with "2.IH"(2) [OF s] s have "length r + length ps \<le> length (drop 3 s)" by auto
    then show ?thesis using s by simp
  next
    case 3
    with "2.IH"(3) [OF s] s have "length r + length ps \<le> length (drop 2 s)" by auto
    then show ?thesis using s by simp
  qed
qed simp

lemma span_token_le: "span_token s \<le> length s"
proof (induction s rule: span_token.induct)
  case (1 s)
  have "token_width s \<le> length s"
    by (cases s rule: list.exhaust; cases "tl s"; cases "tl (tl s)") (auto simp: token_width_def)
  with 1 show ?case by (cases "token_width s = 0") (simp_all add: span_token.simps [of s])
qed

lemma dropWhile_length: "length (dropWhile P s) \<le> length s"
  by (rule length_dropWhile_le)

lemma dropWhile_shorter: "dropWhile P s \<noteq> s \<Longrightarrow> length (dropWhile P s) < length s"
  by (cases s) (auto simp: less_Suc_eq_le length_dropWhile_le split: if_splits)

text \<open>Matches have a minimal length, and their replacements are at most three times as long.\<close>

definition matches_from :: "nat \<Rightarrow> pattern \<Rightarrow> bool" where
  "matches_from k m \<longleftrightarrow> (\<forall>prev s n. m prev s = Some n \<longrightarrow> k \<le> n \<and> n \<le> length s)"

lemma bearer_long: "matches_from 8 bearerPattern"
  unfolding matches_from_def
proof (intro allI impI)
  fix prev s n assume m: "bearerPattern prev s = Some n"
  then obtain r where r: "fold_lit ''bearer'' s = Some r" "dropWhile re_space r \<noteq> r" "span_token (dropWhile re_space r) \<noteq> 0"
    "n = length s - length (dropWhile re_space r) + span_token (dropWhile re_space r)"
    by (auto simp: bearerPattern_def Let_def split: if_splits option.splits)
  have "length r + 6 \<le> length s" using fold_lit_length [OF r(1)] by simp
  with dropWhile_shorter [OF r(2)] span_token_le [of "dropWhile re_space r"] r(3,4) show "8 \<le> n \<and> n \<le> length s" by arith
qed

lemma find_in_set: "find P xs = Some x \<Longrightarrow> x \<in> set xs"
  by (auto simp: find_Some_iff)

lemma openai_long: "matches_from 11 openAIKeyPattern"
  unfolding matches_from_def
proof (intro allI impI)
  fix prev s n assume m: "openAIKeyPattern prev s = Some n"
  let ?run = "takeWhile (\<lambda>c. word_char c \<or> c = CHR ''-'') (drop 3 s)"
  from m obtain k where k: "n = 3 + k" "k \<in> set (rev [8..<Suc (length ?run)])" "take 3 s = ''sk-''"
    using find_in_set by (fastforce simp: openAIKeyPattern_def Let_def simp del: upt_Suc split: if_splits)
  have "length ?run \<le> length (drop 3 s)" by (rule length_takeWhile_le)
  moreover have "3 \<le> length s" using arg_cong [OF k(3), of length] by simp
  ultimately show "11 \<le> n \<and> n \<le> length s" using k(1,2) by auto
qed

lemma assignment_name_length: "assignment_name s = Some r \<Longrightarrow> length r + 6 \<le> length s"
proof -
  assume a: "assignment_name s = Some r"
  have o: "length (optional_sep x) \<le> length x" for x by (cases x) (simp_all add: optional_sep_def)
  have l: "\<And>p x. fold_lit p s = Some x \<Longrightarrow> length x + length p \<le> length s" using fold_lit_length .
  have two: "length r + (length p + length q) \<le> length s" if "fold_lit p s = Some x" "fold_lit q (optional_sep x) = Some r" for p q x
    using l [OF that(1)] fold_lit_length [OF that(2)] o [of x] by simp
  from a [unfolded assignment_name_def] show ?thesis
  proof (cases "fold_lit ''api'' s"; cases "fold_lit ''access'' s")
    fix x assume "fold_lit ''api'' s = Some x"
    with a [unfolded assignment_name_def] two [of "''api''" x "''key''"] show ?thesis by (simp del: fold_lit.simps)
  next
    fix x y assume "fold_lit ''api'' s = Some x" "fold_lit ''access'' s = Some y"
    with a [unfolded assignment_name_def] two [of "''api''" x "''key''"] show ?thesis by (simp del: fold_lit.simps)
  next
    fix x assume "fold_lit ''api'' s = None" "fold_lit ''access'' s = Some x"
    with a [unfolded assignment_name_def] two [of "''access''" x "''token''"] show ?thesis by (simp del: fold_lit.simps)
  next
    assume "fold_lit ''api'' s = None" "fold_lit ''access'' s = None"
    with a [unfolded assignment_name_def] have "fold_lit ''password'' s = Some r \<or> fold_lit ''passwd'' s = Some r \<or> fold_lit ''secret'' s = Some r \<or> fold_lit ''authorization'' s = Some r"
      by (simp split: option.splits del: fold_lit.simps)
    with l [of "''password''" r] l [of "''passwd''" r] l [of "''secret''" r] l [of "''authorization''" r] show ?thesis by (auto simp del: fold_lit.simps)
  qed
qed

lemma assignment_long: "matches_from 8 assignmentPattern"
  unfolding matches_from_def
proof (intro allI impI)
  fix prev s n assume m: "assignmentPattern prev s = Some n"
  then obtain r c r' where r: "assignment_name s = Some r" "dropWhile re_space r = c # r'"
    and n: "takeWhile (\<lambda>c. \<not> re_space c \<and> c \<noteq> CHR '','' \<and> c \<noteq> CHR '';'') (dropWhile re_space r') \<noteq> []"
      "n = length s - length (dropWhile re_space r') + length (takeWhile (\<lambda>c. \<not> re_space c \<and> c \<noteq> CHR '','' \<and> c \<noteq> CHR '';'') (dropWhile re_space r'))"
    by (auto simp: assignmentPattern_def Let_def split: if_splits option.splits list.splits)
  have "length (c # r') \<le> length r" using dropWhile_length [of re_space r] r(2) by simp
  moreover have "length (dropWhile re_space r') \<le> length r'" by (rule dropWhile_length)
  moreover have "length (takeWhile (\<lambda>c. \<not> re_space c \<and> c \<noteq> CHR '','' \<and> c \<noteq> CHR '';'') (dropWhile re_space r')) \<le> length (dropWhile re_space r')"
    by (rule length_takeWhile_le)
  moreover have "0 < length (takeWhile (\<lambda>c. \<not> re_space c \<and> c \<noteq> CHR '','' \<and> c \<noteq> CHR '';'') (dropWhile re_space r'))" using n(1) by simp
  ultimately show "8 \<le> n \<and> n \<le> length s" using assignment_name_length [OF r(1)] n(2) by (simp only: list.size) arith
qed

lemma length_replace_all:
  assumes "matches_from k m" "0 < k" "\<And>x. k \<le> length x \<Longrightarrow> length (f x) \<le> 3 * length x"
  shows "length (replace_all m f prev s) \<le> 3 * length s"
proof (induction "length s" arbitrary: prev s rule: less_induct)
  case less
  show ?case
  proof (cases s)
    case (Cons c cs)
    show ?thesis
    proof (cases "m prev (c # cs)")
      case None
      with less [of cs "Some c"] Cons show ?thesis by simp
    next
      case (Some n)
      with assms(1) have n: "k \<le> n" "n \<le> length (c # cs)" unfolding matches_from_def by blast+
      have len: "length (take n (c # cs)) = n" using n(2) by (metis length_take min_absorb2)
      with assms(3) [of "take n (c # cs)"] n(1) have "length (f (take n (c # cs))) \<le> 3 * n" by metis
      moreover have "length (replace_all m f (Some (last (take (max 1 n) (c # cs)))) (drop (n - 1) cs)) \<le> 3 * length (drop (n - 1) cs)"
        using less [of "drop (n - 1) cs"] Cons by simp
      moreover have "length (drop (n - 1) cs) = length (c # cs) - n" using n assms(2) by simp
      ultimately show ?thesis using Cons Some n by simp
    qed
  qed simp
qed

lemma length_trim: "length (TrimSpace s) \<le> length s"
proof -
  have "length (trim_with enc x) \<le> length x" for enc x using trim_with_suffix suffix_length_le by blast
  then show ?thesis unfolding TrimSpace_def TrimLeftSpace_def TrimRightSpace_def by (metis (no_types, lifting) dual_order.trans length_rev)
qed

lemma length_redact_string: "length (redact_string s) \<le> 27 * length s"
proof -
  let ?a = "replace_all bearerPattern (\<lambda>_. ''Bearer [REDACTED]'') None s" let ?b = "replace_all openAIKeyPattern (\<lambda>_. ''[REDACTED]'') None ?a"
  have 1: "length ?a \<le> 3 * length s" by (rule length_replace_all [OF bearer_long]) simp_all
  have 2: "length ?b \<le> 3 * length ?a" by (rule length_replace_all [OF openai_long]) simp_all
  have 3: "length (replace_all assignmentPattern assignment_redacted None ?b) \<le> 3 * length ?b"
  proof (rule length_replace_all [OF assignment_long])
    fix x :: string assume x: "8 \<le> length x"
    have "length (TrimSpace (takeWhile (\<lambda>c. c \<noteq> CHR '':'' \<and> c \<noteq> CHR ''='') x)) \<le> length x"
      by (rule order.trans [OF length_trim length_takeWhile_le])
    with x show "length (assignment_redacted x) \<le> 3 * length x" by (simp add: assignment_redacted_def)
  qed simp
  from 1 2 3 show ?thesis unfolding redact_string_def by linarith
qed

text \<open>A bound on the text of a redacted value.\<close>

fun weight :: "json \<Rightarrow> nat" where
  "weight (JObj kvs) = 2 + sum_list (map (\<lambda>kv. 6 * length (fst kv) + 80 + weight (snd kv)) kvs)"
| "weight (JArr xs) = 2 + sum_list (map (\<lambda>x. 1 + weight x) xs)"
| "weight (JStr s) = 162 * length s + 2"
| "weight (JNum s) = length s"
| "weight j = 5"

lemma length_elems: "length (json_elems xs) = 1 + sum_list (map (\<lambda>x. 1 + length (json_text x)) xs)"
  by (induction xs) auto

lemma length_fields: "length (json_fields kvs) = 1 + sum_list (map (\<lambda>kv. 2 + length (json_quote (fst kv)) + length (json_text (snd kv))) kvs)"
  by (induction kvs) auto

lemma length_text_arr: "length (json_text (JArr xs)) \<le> 2 + sum_list (map (\<lambda>x. 1 + length (json_text x)) xs)"
  by (cases xs) (auto simp: length_elems)

lemma length_text_obj: "length (json_text (JObj kvs)) \<le> 2 + sum_list (map (\<lambda>kv. 2 + length (json_quote (fst kv)) + length (json_text (snd kv))) kvs)"
  by (cases kvs) (auto simp: length_fields)

lemma sum_list_last_wins: "sum_list (map (f :: string \<times> 'a \<Rightarrow> nat) (last_wins kvs)) \<le> sum_list (map f kvs)"
  by (induction kvs rule: last_wins.induct) (auto intro: trans_le_add2)

lemma sum_list_insort: "sum_list (map (f :: 'b \<Rightarrow> nat) (insort_key k x xs)) = f x + sum_list (map f xs)"
  by (induction xs) auto

lemma sum_list_sort_keys: "sum_list (map (f :: string \<times> 'a \<Rightarrow> nat) (sort_keys kvs)) = sum_list (map f kvs)"
  by (induction kvs) (simp_all add: sort_keys_def sort_key_def sum_list_insort)

lemma length_redacted_text: "length (json_text (redactValue (decode_any j))) \<le> weight j"
proof (induction j rule: weight.induct)
  case (1 kvs)
  let ?g = "\<lambda>(k, v). (k, if sensitiveKey k then JStr ''[REDACTED]'' else redactValue (decode_any v))"
  let ?l = "\<lambda>kv. 2 + length (json_quote (fst kv)) + length (json_text (snd kv))"
  have red: "length (json_text (JStr ''[REDACTED]'')) \<le> 62" using length_json_quote [of "''[REDACTED]''"] by simp
  have "?l (?g kv) \<le> 6 * length (fst kv) + 80 + weight (snd kv)" if "kv \<in> set kvs" for kv
    using 1 [OF that] length_json_quote [of "fst kv"] red by (auto simp: split_def)
  then have "sum_list (map (\<lambda>kv. ?l (?g kv)) kvs) \<le> sum_list (map (\<lambda>kv. 6 * length (fst kv) + 80 + weight (snd kv)) kvs)"
    by (intro sum_list_mono)
  moreover have "sum_list (map ?l (sort_keys (last_wins (map ?g kvs)))) \<le> sum_list (map (\<lambda>kv. ?l (?g kv)) kvs)"
    using sum_list_last_wins [of ?l "map ?g kvs"] by (simp add: sum_list_sort_keys comp_def)
  ultimately show ?case
    using length_text_obj [of "sort_keys (last_wins (map ?g kvs))"] unfolding redact_decode_obj weight.simps by linarith
next
  case (2 xs)
  have "sum_list (map (\<lambda>x. 1 + length (json_text (redactValue (decode_any x)))) xs) \<le> sum_list (map (\<lambda>x. 1 + weight x) xs)"
    using 2 by (intro sum_list_mono) simp
  with length_text_arr [of "map (redactValue \<circ> decode_any) xs"] show ?case by (simp add: comp_def)
next
  case (3 s)
  have "length (json_quote (redact_string s)) \<le> 6 * length (redact_string s) + 2" by (rule length_json_quote)
  with length_redact_string [of s] show ?case by simp
qed auto


lemma event_length:
  assumes "length (hd_Hash h) \<le> 64"
  shows "snd (event_line (new_event i sid typ p now h))
    \<le> 6 * (length i + length sid + length typ + length (rfc3339nano now)) + length (json_text p) + 2000"
proof -
  let ?e = "\<lparr>ev_Sequence = hd_Count h + 1, ev_Timestamp = now, ev_Type = typ, ev_TaskID = i, ev_SessionID = sid,
               ev_Data = p, ev_PrevHash = hd_Hash h, ev_EventHash = []\<rparr>"
  have "length (event_hash (hd_Hash h) ?e) = 64" by (simp add: event_hash_def)
  then have b: "length (json_quote (hd_Hash h)) \<le> 386" "length (json_quote (event_hash (hd_Hash h) ?e)) \<le> 386"
    using length_json_quote [of "hd_Hash h"] length_json_quote [of "event_hash (hd_Hash h) ?e"] assms by auto
  have q: "length (json_quote ''sequence'') \<le> 100" "length (json_quote ''timestamp'') \<le> 100" "length (json_quote ''type'') \<le> 100"
    "length (json_quote ''task_id'') \<le> 100" "length (json_quote ''session_id'') \<le> 100" "length (json_quote ''data'') \<le> 100"
    "length (json_quote ''prev_hash'') \<le> 100" "length (json_quote ''event_hash'') \<le> 100"
    by code_simp+
  show ?thesis
    using b q length_json_quote [of i] length_json_quote [of sid] length_json_quote [of "typ"] length_json_quote [of "rfc3339nano now"]
      length_itoa_word [of "hd_Count h + 1"]
    by (simp add: event_line_def new_event_def Let_def json_event_def canonicalEvent_def json_int_def json_time_def)
qed

lemma trace_state_hash: "trace_state i es t h fs \<Longrightarrow> length (last_event_hash es) \<le> 64"
proof (cases "es = []")
  case False
  assume "trace_state i es t h fs"
  with False obtain b where "parse_from i 0 [] (tf_lines (pick_trace b)) = Inr (es, map ev_EventHash es)"
    by (auto simp: trace_state_def parseEvents_def split: option.splits)
  from parse_from_nth [OF this, of "length es - 1"] False have "length (ev_EventHash (last es)) = 64"
    by (auto simp: chained_after_def event_hash_def last_conv_nth)
  with False show ?thesis by simp
qed simp

text \<open>On a working disk a payload that is not too heavy is appended, and the trace stays usable.\<close>

lemma Append_extends:
  assumes "trace_state i es t h (files d)" "healthy d" "is_ok (trace_validID i)" "Suc (length es) < 2 ^ 64" "typ \<noteq> DecisionRecorded"
    and "6 * (length i + length sid + length typ + length (rfc3339nano now)) + weight j + 2000 < max_token"
  shows "\<exists>e d'. Append torn now i sid typ (Inr j) d = (Inr e, d') \<and> healthy d' \<and> trace_state i (es @ [e]) 0 (head_of (es @ [e])) (files d')"
proof -
  let ?p = "redactValue (decode_any j)" let ?e = "new_event i sid typ ?p now (head_of es)"
  have m: "marshalPayload i n typ (Inr j) = Inr ?p" for n using assms(5) by (simp add: marshalPayload_def Let_def)
  from Append_healthy [OF assms(1-3) m, of torn now sid] obtain d' where a: "Append torn now i sid typ (Inr j) d = (Inr ?e, d')" "healthy d'" by blast
  have "snd (event_line ?e) < max_token"
    using event_length [of "head_of es" i sid "typ" ?p now] trace_state_hash [OF assms(1)] length_redacted_text [of j] assms(6) by (simp add: head_of_def)
  moreover have "list_all (\<lambda>l. snd l < max_token) (file_lines i (files d))"
    using assms(1) parse_from_lines by (auto simp: trace_state_def parseEvents_def file_lines_def split: option.splits)
  ultimately have f: "fits i (files d')" using Append_lines [OF a(1) assms(1)] by (simp add: fits_def)
  from Append_state [OF a(1) assms(1,4) f] m a show ?thesis by (auto simp: appended_def)
qed

subsection \<open>A trace with one event\<close>

definition plain_event :: "json \<Rightarrow> string \<Rightarrow> head \<Rightarrow> Event" where
  "plain_event p sid h = new_event ''t'' sid ''FINAL'' p 0 h"

definition demo_event :: Event where "demo_event = plain_event JNull ''s'' zero_head"

lemma short_event:
  assumes "length (hd_Hash h) \<le> 64" "length sid \<le> 64"
  shows "snd (event_line (plain_event JNull sid h)) < max_token"
proof -
  have "length (rfc3339nano 0) = 20" by code_simp
  with event_length [OF assms(1), of "''t''" sid "''FINAL''" JNull 0] assms(2) show ?thesis by (simp add: plain_event_def max_token_def)
qed

lemma plain_event_chained: "chained_after ''t'' (length es) (last_event_hash es) (plain_event p sid (head_of es))"
  unfolding plain_event_def by (rule new_event_chained)

definition one_event :: "Event \<Rightarrow> head \<Rightarrow> string \<rightharpoonup> trace_doc" where
  "one_event e h = [tracePath ''t'' \<mapsto> TraceDoc \<lparr>tf_lines = [event_line e], tf_tail = 0\<rparr>, headPath ''t'' \<mapsto> HeadDoc (Valid h)]"

lemma one_event_parse:
  assumes "length sid \<le> 64"
  shows "parseEvents ''t'' [event_line (plain_event JNull sid zero_head)] =
    Inr ([plain_event JNull sid zero_head], [ev_EventHash (plain_event JNull sid zero_head)])"
  using plain_event_chained [of "[]" JNull sid] short_event [of zero_head sid] assms
  by (simp add: parseEvents_def event_line_def parse_from_Cons del: parse_from.simps) simp

lemma demo_state: "trace_state ''t'' [demo_event] 0 (head_of [demo_event]) (one_event demo_event (head_of [demo_event]))"
  using one_event_parse [of "''s''"]
  by (simp add: trace_state_def one_event_def demo_event_def head_of_def)

lemma empty_state: "trace_state ''t'' [] 0 zero_head Map.empty"
  by (simp add: trace_state_def)

lemma valid_t: "is_ok (trace_validID ''t'')"
  by code_simp

lemma payload_null: "marshalPayload i n ''FINAL'' (Inr JNull) = Inr JNull"
  by (simp add: marshalPayload_def DecisionRecorded_def)

subsection \<open>Properties\<close>









text \<open>Values under sensitive keys do not reach the trace. What \<open>Append\<close> returns and everything it writes is the same for any two payloads that differ
  only in what stands under sensitive keys, at any depth; and in a recorded event every sensitive key holds the placeholder.\<close>

theorem trace_hides_sensitive_values:
  assumes "public_part a = public_part b"
  shows "Append torn now i sid typ (Inr a) d = Append torn now i sid typ (Inr b) d
    \<and> (case Append torn now i sid typ (Inr a) d of (Inl _, _) \<Rightarrow> True | (Inr e, _) \<Rightarrow> redacted (ev_Data e))"
proof -
  have "redacted (ev_Data e)" if "Append torn now i sid typ (Inr a) d = (Inr e, d')" for e d'
  proof -
    have ce: "x = e'" if "commit_event torn i e' d1 = (Inr x, d2)" for x e' d1 d2
      using that by (auto simp: commit_event_def split: prod.splits sum.splits if_splits)
    from that obtain n p h d1 where m: "marshalPayload i n typ (Inr a) = Inr p" and c: "commit_event torn i (new_event i sid typ p now h) d1 = (Inr e, d')"
      by (auto simp: Append_def split: prod.splits sum.splits if_splits)
    from ce [OF c] redacted_marshalPayload [OF m] show ?thesis by (simp add: new_event_def Let_def)
  qed
  moreover have "marshalPayload i n typ (Inr a) = marshalPayload i n typ (Inr b)" for n using marshalPayload_public [OF assms] .
  ultimately show ?thesis by (auto simp: Append_def split: prod.splits sum.splits)
qed

theorem trace_hides_sensitive_values_witness:
  "Append 0 0 ''t'' ''s'' ''TOOL_CALL'' (Inr (JObj [(''host'', JStr ''a''), (''API-Key'', JStr ''one'')])) (reliable Map.empty)
   = Append 0 0 ''t'' ''s'' ''TOOL_CALL'' (Inr (JObj [(''host'', JStr ''a''), (''API-Key'', JNum ''2'')])) (reliable Map.empty)"
proof -
  have "public_part (JObj [(''host'', JStr ''a''), (''API-Key'', JStr ''one'')]) = public_part (JObj [(''host'', JStr ''a''), (''API-Key'', JNum ''2'')])"
    by code_simp
  from trace_hides_sensitive_values [OF this] show ?thesis by blast
qed

text \<open>An event as long as the scanner's buffer makes its trace unusable. \<open>Append\<close> does not bound the line and reports success, but from then on
  the trace cannot be read, verified or extended, and no writer can be opened on the directory, whatever else is done with it.\<close>

theorem oversized_event_blocks_trace:
  assumes "Append torn now i sid typ dat d = (Inr e, d1)" "trace_state i es t h (files d)" "max_token \<le> snd (event_line e)"
    and "d2 = trace_run xs d1" "i \<in> set (order (trace_ids entries))"
  shows "\<not> is_ok (fst (ReadTrace i d2)) \<and> \<not> is_ok (fst (VerifyIntegrity i d2)) \<and> \<not> is_ok (fst (Append torn' now' i sid' typ' dat' d2))
    \<and> \<not> is_ok (fst (NewWriter order entries d2))"
proof -
  have "blocked i (files d1)" using Append_lines [OF assms(1,2)] assms(3) by (simp add: blocked_def fits_def)
  then have b: "blocked i (files d2)" using blocked_prefix [OF trace_run_lines] assms(4) by simp
  obtain r3 d3 where re: "readEvents i d2 = (r3, d3)" by (cases "readEvents i d2")
  from blocked_reading [OF b] re obtain x where "r3 = Inl x" by (cases r3) auto
  then have "\<not> is_ok (fst (ReadTrace i d2))" "\<not> is_ok (fst (VerifyIntegrity i d2))"
    using re by (auto simp: ReadTrace_def VerifyIntegrity_def split: sum.splits)
  moreover have "\<not> is_ok (fst (Append torn' now' i sid' typ' dat' d2))"
  proof -
    obtain ok d4 where c: "syscall d2 = (ok, d4)" by (cases "syscall d2")
    obtain r5 d5 where rl: "recoverLocked i d4 = (r5, d5)" by (cases "recoverLocked i d4")
    from blocked_recover [OF _ rl] b syscall_files [OF c] obtain x where "r5 = Inl x" by (cases r5) auto
    with c rl show ?thesis by (auto simp: Append_def split: sum.splits)
  qed
  moreover have "\<not> is_ok (fst (NewWriter order entries d2))"
  proof (cases "NewWriter order entries d2")
    case (Pair r4 d4)
    obtain ok d5 where c: "calls 2 d2 = (ok, d5)" by (cases "calls 2 d2")
    with blocked_recover_traces [of "order (trace_ids entries)" d5 r4 d4 i] b assms(5) calls_files [OF c] Pair show ?thesis
      by (auto simp: NewWriter_def split: if_splits)
  qed
  ultimately show ?thesis by blast
qed

theorem oversized_event_blocks_trace_witness:
  "\<exists>e d1. Append 0 0 ''t'' ''s'' ''FINAL'' (Inr (JNum (replicate max_token (CHR ''1'')))) (reliable Map.empty) = (Inr e, d1)
     \<and> \<not> is_ok (fst (ReadTrace ''t'' d1)) \<and> \<not> is_ok (fst (Append 0 0 ''t'' ''s'' ''FINAL'' (Inr JNull) d1))
     \<and> \<not> is_ok (fst (NewWriter id [(''t.jsonl'', False)] d1))"
proof -
  let ?p = "JNum (replicate max_token (CHR ''1''))"
  have st: "trace_state ''t'' [] 0 zero_head (files (reliable Map.empty))" using empty_state by simp
  have m: "marshalPayload ''t'' (of_nat (Suc (length []))) ''FINAL'' (Inr ?p) = Inr ?p" by (simp add: marshalPayload_def DecisionRecorded_def)
  from Append_healthy [OF st healthy_reliable(1) valid_t m, of 0 0 "''s''"] obtain d1
    where a: "Append 0 0 ''t'' ''s'' ''FINAL'' (Inr ?p) (reliable Map.empty) = (Inr (plain_event ?p ''s'' zero_head), d1)" by (auto simp: plain_event_def)
  have big: "max_token \<le> snd (event_line (plain_event ?p ''s'' zero_head))"
    by (simp add: event_line_def json_event_def canonicalEvent_def plain_event_def new_event_def Let_def)
  have ids: "''t'' \<in> set (id (trace_ids [(''t.jsonl'', False)]))" by code_simp
  have "d1 = trace_run [] d1" by (simp add: trace_run_def)
  from oversized_event_blocks_trace [where order = id and entries = "[(''t.jsonl'', False)]", OF a st big this ids] a show ?thesis by blast
qed


end
