(* ===== verification/Preparer.thy ===== *)
theory Preparer
  imports Executor Storage_Safety Trace_Theorems
begin

text \<open>
  \<open>internal/agent/action_preparer.go\<close>: how a proposed write becomes a pending action. \<open>Prepare\<close> runs the safety pipeline, records every decision in
  the audit trace, checks the scope, creates the approval bound to the action, signs the envelope and parks the task. The
  state is that of the three stores the agent writes. Clock readings, fresh ids and the bytes torn writes leave are taken from \<open>prep_env\<close>
  by the order in which they are used; \<open>pe_text\<close> is how an error prints. Encoding an envelope cannot fail
  in the model, so the branch for it does not appear, and contexts are not cancelled. An error result
  leaves out the record that the code returns beside the error. The store is always configured, as in the server.
\<close>

record agent =
  ag_store :: store
  ag_approvals :: approvals
  ag_trace :: trace_disk

record ActionPreparer =
  pp_Safety :: "(ActionProposal \<Rightarrow> PipelineResult) option"
  pp_HasApprovals :: bool
  pp_HasTrace :: bool
  pp_Scope :: "(ActionEnvelope \<Rightarrow> unit result) option"
  pp_Secret :: string
  pp_ApprovalTTL :: duration
  pp_EnvelopeTTL :: duration

record prep_env =
  pe_clock :: "nat \<Rightarrow> timestamp"
  pe_torn :: "nat \<Rightarrow> nat"
  pe_nonce :: string
  pe_recordID :: string
  pe_text :: "go_error \<Rightarrow> string"

subsection \<open>What is recorded\<close>

definition outcome_text :: "Outcome \<Rightarrow> string" where
  "outcome_text out = (case out of NoOutcome \<Rightarrow> [] | Allow \<Rightarrow> ''ALLOW'' | Deny \<Rightarrow> ''DENY'' | RequireApproval \<Rightarrow> ''REQUIRE_APPROVAL'')"

definition json_decision :: "GuardDecision \<Rightarrow> json" where
  "json_decision g = JObj [(''decision_id'', JStr (gd_DecisionID g)), (''outcome'', JStr (outcome_text (gd_Outcome g))),
     (''reason_codes'', json_slice (map JStr (gd_ReasonCodes g))), (''reason'', JStr (gd_Reason g)),
     (''matched_rule_ids'', json_slice (map JStr (gd_MatchedRuleIDs g))), (''policy_version'', JStr (gd_PolicyVersion g)), (''risk'', json_risk (gd_Risk g))]"

definition json_intent_decision :: "IntentDecision \<Rightarrow> json" where
  "json_intent_decision i = JObj ([(''decision_id'', JStr (id_DecisionID i)), (''outcome'', JStr (outcome_text (id_Outcome i))),
     (''reason_code'', JStr (id_ReasonCode i)), (''reason'', JStr (id_Reason i)), (''intent_digest'', JStr (id_IntentDigest i))]
     @ omit_slice ''evidence_refs'' (map JStr (id_EvidenceRefs i)) @ [(''policy_version'', JStr (id_PolicyVersion i))])"

definition json_binding :: "Binding \<Rightarrow> json" where
  "json_binding b = JObj [(''task_id'', JStr (b_TaskID b)), (''proposal_digest'', JStr (b_ProposalDigest b)),
     (''target_snapshot_digest'', JStr (b_TargetSnapshotDigest b)), (''intent_digest'', JStr (b_IntentDigest b)), (''policy_version'', JStr (b_PolicyVersion b)),
     (''risk_level'', JStr (b_RiskLevel b)), (''tool'', JStr (b_Tool b)), (''nonce'', JStr (b_Nonce b))]"

text \<open>The \<open>n\<close>-th append of a run for the task \<open>v\<close>.\<close>

definition trace_event :: "prep_env \<Rightarrow> nat \<Rightarrow> Task \<Rightarrow> string \<Rightarrow> json \<Rightarrow> agent \<Rightarrow> Event result \<times> agent" where
  "trace_event env n v typ data g =
     (case Append (pe_torn env n) (pe_clock env n) (t_ID v) (t_SessionID v) typ (Inr data) (ag_trace g) of
        (r, d) \<Rightarrow> (r, g\<lparr>ag_trace := d\<rparr>))"

definition resolve_approval :: "prep_env \<Rightarrow> nat \<Rightarrow> string \<Rightarrow> string \<Rightarrow> agent \<Rightarrow> agent" where
  "resolve_approval env n i reason g =
     (case Resolve i (pe_clock env n) False reason (ag_approvals g) of (_, a) \<Rightarrow> g\<lparr>ag_approvals := a\<rparr>)"

definition save_task :: "prep_env \<Rightarrow> nat \<Rightarrow> Task \<Rightarrow> agent \<Rightarrow> unit result \<times> agent" where
  "save_task env n v g = (case SaveTask (pe_clock env n) v (ag_store g) of (r, d) \<Rightarrow> (r, g\<lparr>ag_store := d\<rparr>))"

subsection \<open>Prepare\<close>

text \<open>The decisions are recorded one after the other, each before it can end the preparation.\<close>

definition audit_decisions :: "prep_env \<Rightarrow> Task \<Rightarrow> ActionProposal \<Rightarrow> string \<Rightarrow> PipelineResult \<Rightarrow> agent \<Rightarrow> unit result \<times> agent" where
  "audit_decisions env v p digest safety g =
     (case trace_event env 0 v ''ACTION_PROPOSED''
         (JObj [(''proposal_id'', JStr (ap_ProposalID p)), (''tool'', JStr (ap_Tool p)), (''effect'', JStr (ap_Effect p)), (''target'', json_target (ap_Target p)),
                (''proposal_digest'', JStr digest)]) g of (Inl e, g) \<Rightarrow> (Inl e, g)
      | (Inr _, g) \<Rightarrow> (case trace_event env 1 v ''STATIC_GUARD_RESULT'' (json_decision (pr_Static safety)) g of (Inl e, g) \<Rightarrow> (Inl e, g)
      | (Inr _, g) \<Rightarrow>
        if gd_Outcome (pr_Static safety) = Deny then (Inl (ErrorNew (''static guard denied action: '' @ gd_Reason (pr_Static safety))), g)
        else (case trace_event env 2 v ''INTENT_GUARD_RESULT'' (json_intent_decision (pr_Intent safety)) g of (Inl e, g) \<Rightarrow> (Inl e, g)
      | (Inr _, g) \<Rightarrow>
        if id_Outcome (pr_Intent safety) = Deny then (Inl (ErrorNew (''intent guard denied action: '' @ id_Reason (pr_Intent safety))), g)
        else (case trace_event env 3 v ''RISK_EVALUATED'' (json_risk (pr_Risk safety)) g of (Inl e, g) \<Rightarrow> (Inl e, g)
      | (Inr _, g) \<Rightarrow>
        if gd_Outcome (pr_Final safety) \<noteq> RequireApproval
        then (Inl (ErrorNew (''write action must require approval, got '' @ outcome_text (gd_Outcome (pr_Final safety)))), g)
        else (Inr (), g)))))"

definition action_envelope :: "Task \<Rightarrow> ActionProposal \<Rightarrow> string \<Rightarrow> TargetSnapshot \<Rightarrow> PipelineResult \<Rightarrow> timestamp \<Rightarrow> string \<Rightarrow> string \<Rightarrow> ActionEnvelope" where
  "action_envelope v p digest s safety expires nonce approval =
     \<lparr>ae_SchemaVersion = 1, ae_TraceID = t_ID v, ae_TaskID = t_ID v, ae_SessionID = t_SessionID v, ae_Proposal = p, ae_ProposalDigest = digest,
      ae_TargetSnapshot = s, ae_Risk = pr_Risk safety, ae_IntentDigest = id_IntentDigest (pr_Intent safety), ae_PolicyVersion = gd_PolicyVersion (pr_Static safety),
      ae_ExpiresAt = expires, ae_Nonce = nonce, ae_ApprovalID = approval, ae_Signature = []\<rparr>"

definition action_binding_of :: "Task \<Rightarrow> ActionProposal \<Rightarrow> ActionEnvelope \<Rightarrow> string \<Rightarrow> Binding" where
  "action_binding_of v p e targetDigest =
     \<lparr>b_TaskID = t_ID v, b_ProposalDigest = ae_ProposalDigest e, b_TargetSnapshotDigest = targetDigest, b_IntentDigest = ae_IntentDigest e,
      b_PolicyVersion = ae_PolicyVersion e, b_RiskLevel = rr_Level (ae_Risk e), b_Tool = ap_Tool p, b_Nonce = ae_Nonce e\<rparr>"

text \<open>The task that waits for the approval of a signed envelope.\<close>

definition waiting_task :: "timestamp \<Rightarrow> ActionEnvelope \<Rightarrow> Task \<Rightarrow> Task" where
  "waiting_task now e v = Transition WaitingApproval now (v\<lparr>t_PendingAction := MarshalEnvelope e, t_PendingApprovalID := ae_ApprovalID e\<rparr>)"

text \<open>From the created approval on: sign, park the task, record the request; a failure rejects the approval again.\<close>

definition park_action :: "ActionPreparer \<Rightarrow> prep_env \<Rightarrow> Task \<Rightarrow> ActionEnvelope \<Rightarrow> Binding \<Rightarrow> Record \<Rightarrow> RiskResult \<Rightarrow> agent \<Rightarrow> (Task \<times> Record result) \<times> agent" where
  "park_action pp env v e b r risk g =
     (case Sign (pp_Secret pp) e of Inl err \<Rightarrow> ((v, Inl err), resolve_approval env 6 (r_ID r) ''ActionEnvelope signing failed'' g)
      | Inr e \<Rightarrow>
        let v = waiting_task (pe_clock env 7) e v in
        (case save_task env 8 v g of (Inl err, g) \<Rightarrow> ((v, Inl err), resolve_approval env 9 (r_ID r) ''Task persistence failed'' g)
         | (Inr _, g) \<Rightarrow>
           (case trace_event env 10 v ''APPROVAL_REQUESTED''
               (JObj [(''approval_id'', JStr (r_ID r)), (''binding'', json_binding b), (''expires_at'', json_time (r_ExpiresAt r)), (''risk'', json_risk risk)]) g of
              (Inr _, g) \<Rightarrow> ((v, Inr r), g)
            | (Inl err, g) \<Rightarrow>
              let g = resolve_approval env 11 (r_ID r) ''Audit trace append failed'' g;
                  v = Transition Failed (pe_clock env 12) (v\<lparr>t_FailureReason := pe_text env err\<rparr>)
              in ((v, Inl err), snd (save_task env 13 v g)))))"

definition prepare_ttls :: "ActionPreparer \<Rightarrow> (duration \<times> duration) result" where
  "prepare_ttls pp =
     (let envelopeTTL = (if pp_EnvelopeTTL pp \<le> 0 then 10 * minute else pp_EnvelopeTTL pp);
          approvalTTL = (if pp_ApprovalTTL pp \<le> 0 then envelopeTTL else pp_ApprovalTTL pp)
      in if approvalTTL > envelopeTTL then Inl (ErrorNew ''approval TTL must not exceed ActionEnvelope TTL'') else Inr (envelopeTTL, approvalTTL))"

definition scope_check :: "ActionPreparer \<Rightarrow> ActionEnvelope \<Rightarrow> unit result" where
  "scope_check pp e =
     (case pp_Scope pp of None \<Rightarrow> Inr ()
      | Some authorize \<Rightarrow> (case authorize e of Inl err \<Rightarrow> Inl (Wrapf ''target scope denied before approval'' err) | Inr _ \<Rightarrow> Inr ()))"

definition request_approval :: "ActionPreparer \<Rightarrow> prep_env \<Rightarrow> Task \<Rightarrow> ActionProposal \<Rightarrow> string \<Rightarrow> TargetSnapshot \<Rightarrow> PipelineResult \<Rightarrow> agent \<Rightarrow> (Task \<times> Record result) \<times> agent" where
  "request_approval pp env v p digest s safety g =
     (case scope_check pp (action_envelope v p digest s safety 0 [] []) of Inl err \<Rightarrow> ((v, Inl err), g)
      | Inr _ \<Rightarrow> (case TargetSnapshot_Digest s of Inl err \<Rightarrow> ((v, Inl err), g)
      | Inr targetDigest \<Rightarrow> (case prepare_ttls pp of Inl err \<Rightarrow> ((v, Inl err), g)
      | Inr (envelopeTTL, approvalTTL) \<Rightarrow>
        let e = action_envelope v p digest s safety (pe_clock env 4 + envelopeTTL) (pe_nonce env) [];
            b = action_binding_of v p e targetDigest
        in (case Create (pe_recordID env) (pe_clock env 5) b approvalTTL (ag_approvals g) of
              (Inl err, a) \<Rightarrow> ((v, Inl err), g\<lparr>ag_approvals := a\<rparr>)
            | (Inr r, a) \<Rightarrow> park_action pp env v (e\<lparr>ae_ApprovalID := r_ID r\<rparr>) b r (pr_Risk safety) (g\<lparr>ag_approvals := a\<rparr>)))))"

definition Prepare :: "ActionPreparer \<Rightarrow> prep_env \<Rightarrow> Task \<Rightarrow> ActionProposal \<Rightarrow> TargetSnapshot \<Rightarrow> agent \<Rightarrow> (Task \<times> Record result) \<times> agent" where
  "Prepare pp env v p s g =
     (if ap_TaskID p \<noteq> t_ID v \<or> ap_SessionID p \<noteq> t_SessionID v then ((v, Inl (ErrorNew ''proposal task/session correlation mismatch'')), g)
      else if ap_Effect p \<noteq> Write then ((v, Inl (ErrorNew ''ActionPreparer only accepts write proposals'')), g)
      else if CanonicalTarget (ap_Target p) \<noteq> CanonicalTarget \<lparr>tr_Type = ts_Type s, tr_ID = ts_ID s, tr_Criticality = []\<rparr>
        then ((v, Inl (ErrorNew ''proposal target and snapshot mismatch'')), g)
      else (case pp_Safety pp of
          None \<Rightarrow> ((v, Inl (ErrorNew ''action preparation safety, approval, and trace dependencies are required'')), g)
        | Some evaluate \<Rightarrow>
          if \<not> pp_HasApprovals pp \<or> \<not> pp_HasTrace pp
          then ((v, Inl (ErrorNew ''action preparation safety, approval, and trace dependencies are required'')), g)
          else let safety = evaluate p in
            (case ActionProposal_Digest p of Inl err \<Rightarrow> ((v, Inl err), g)
             | Inr digest \<Rightarrow> (case audit_decisions env v p digest safety g of (Inl err, g) \<Rightarrow> ((v, Inl err), g)
               | (Inr _, g) \<Rightarrow> request_approval pp env v p digest s safety g))))"

subsection \<open>What a successful preparation leaves behind\<close>

lemma trace_event_keeps:
  "trace_event env n v typ x g = (r, g') \<Longrightarrow> ag_store g' = ag_store g \<and> ag_approvals g' = ag_approvals g"
  by (auto simp: trace_event_def split: prod.splits)

lemma audit_decisions_keeps:
  assumes "audit_decisions env v p dg safety g = (r, g')"
  shows "ag_store g' = ag_store g \<and> ag_approvals g' = ag_approvals g
    \<and> (is_ok r \<longrightarrow> gd_Outcome (pr_Static safety) \<noteq> Deny \<and> id_Outcome (pr_Intent safety) \<noteq> Deny \<and> gd_Outcome (pr_Final safety) = RequireApproval)"
  using assms unfolding audit_decisions_def
  by (auto split: prod.splits sum.splits if_splits dest!: trace_event_keeps)

lemma park_action_ok:
  assumes "park_action pp env v e b r risk g = ((v', Inr r'), g')"
  shows "\<exists>e'. Sign (pp_Secret pp) e = Inr e' \<and> v' = waiting_task (pe_clock env 7) e' v \<and> r' = r \<and> ag_approvals g' = ag_approvals g
    \<and> files (ag_store g') (store_path ''tasks'' (t_ID v)) = Some (Valid (TaskDoc v'))"
proof -
  from assms obtain e' where e': "Sign (pp_Secret pp) e = Inr e'" by (auto simp: park_action_def split: sum.splits)
  let ?v = "waiting_task (pe_clock env 7) e' v"
  obtain x g1 where s: "save_task env 8 ?v g = (x, g1)" by (cases "save_task env 8 ?v g")
  from assms e' s have ok: "v' = ?v" "r' = r" "is_ok x" "ag_store g' = ag_store g1" "ag_approvals g' = ag_approvals g1"
    by (auto simp: park_action_def Let_def split: sum.splits prod.splits dest: trace_event_keeps)
  from s obtain d where d: "SaveTask (pe_clock env 8) ?v (ag_store g) = (x, d)" "g1 = g\<lparr>ag_store := d\<rparr>"
    by (auto simp: save_task_def split: prod.splits)
  have "t_ID ?v = t_ID v" by (simp add: waiting_task_def Transition_def)
  with SaveTask_effect [OF d(1)] ok d(2) e' show ?thesis by auto
qed

lemma Precheck_version: "gd_PolicyVersion (Precheck c i p) = VersionID (Some c)"
  by (auto simp: Precheck_def deny_def Let_def split: option.splits)

lemma pipeline_envelope:
  assumes "admissible c p" "safety = SafetyPipeline_Evaluate c i j p" "ap_TaskID p = t_ID v" "ap_SessionID p = t_SessionID v" "ActionProposal_Digest p = Inr dg"
  shows "action_envelope v p dg s safety x n a = unsigned_envelope c p s x n a"
proof -
  have "dg = sha256_hex (json_text (json_proposal p))" using assms(5) by (auto simp: ActionProposal_Digest_def split: if_splits)
  moreover have "pr_Risk safety = RiskEngine_Evaluate c p" "id_IntentDigest (pr_Intent safety) = intentDigest (ap_Intent p)"
    "gd_PolicyVersion (pr_Static safety) = cat_Version c"
    using assms(1,2) by (simp_all add: admissible_def pipeline_parts pipeline_static Precheck_version VersionID_def)
  ultimately show ?thesis by (simp add: action_envelope_def unsigned_envelope_def assms(3,4))
qed


definition prepared_by :: "ActionPreparer \<Rightarrow> Catalog \<Rightarrow> bool" where
  "prepared_by pp c \<longleftrightarrow> (\<exists>i j. pp_Safety pp = Some (SafetyPipeline_Evaluate c i j))"

text \<open>The envelope of the pending action and the approval it waits for, as \<open>Prepare\<close> leaves them.\<close>

definition pending :: "ActionPreparer \<Rightarrow> Catalog \<Rightarrow> prep_env \<Rightarrow> ActionProposal \<Rightarrow> TargetSnapshot \<Rightarrow> ActionEnvelope \<Rightarrow> Record \<Rightarrow> bool" where
  "pending pp c env p s e r \<longleftrightarrow>
     (\<exists>envelopeTTL approvalTTL. prepare_ttls pp = Inr (envelopeTTL, approvalTTL)
        \<and> Sign (pp_Secret pp) (unsigned_envelope c p s (pe_clock env 4 + envelopeTTL) (pe_nonce env) (pe_recordID env)) = Inr e
        \<and> r = new_record (pe_recordID env) (pe_clock env 5) (action_binding e) approvalTTL \<and> \<not> incomplete (action_binding e))"

lemma Create_ok: "Create i now b ttl s = (Inr r, s') \<Longrightarrow> r = new_record i now b ttl \<and> \<not> incomplete b \<and> files s' = (files s)(approval_path i \<mapsto> Valid r)"
  using store.save_done [of "new_record i now b ttl"]
  by (auto simp: Create_def Let_def new_record_def split: prod.splits sum.splits if_splits dest!: syscall_files)

lemma request_approval_ok:
  assumes "request_approval pp env v p dg s safety g = ((v', Inr r), g')" "admissible c p" "safety = SafetyPipeline_Evaluate c i j p"
    and "ap_TaskID p = t_ID v" "ap_SessionID p = t_SessionID v" "ActionProposal_Digest p = Inr dg"
  shows "\<exists>e. pending pp c env p s e r \<and> v' = waiting_task (pe_clock env 7) e v
    \<and> files (ag_approvals g') = (files (ag_approvals g))(approval_path (pe_recordID env) \<mapsto> Valid r)
    \<and> files (ag_store g') (store_path ''tasks'' (t_ID v)) = Some (Valid (TaskDoc v'))
    \<and> scope_check pp (unsigned_envelope c p s 0 [] []) = Inr ()"
proof -
  note env_eq = pipeline_envelope [OF assms(2-6), of s]
  let ?td = "sha256_hex (json_text (json_snapshot s))"
  from assms(1) obtain et at where ttl: "prepare_ttls pp = Inr (et, at)" and sc: "scope_check pp (unsigned_envelope c p s 0 [] []) = Inr ()"
    by (auto simp: request_approval_def env_eq split: sum.splits)
  let ?e = "unsigned_envelope c p s (pe_clock env 4 + et) (pe_nonce env)" let ?b = "action_binding_of v p (?e []) ?td"
  obtain cr a where cr: "Create (pe_recordID env) (pe_clock env 5) ?b at (ag_approvals g) = (cr, a)" by (cases "Create (pe_recordID env) (pe_clock env 5) ?b at (ag_approvals g)")
  from assms(1) ttl sc cr obtain r0 where r0: "cr = Inr r0"
    and park: "park_action pp env v ((?e [])\<lparr>ae_ApprovalID := r_ID r0\<rparr>) ?b r0 (pr_Risk safety) (g\<lparr>ag_approvals := a\<rparr>) = ((v', Inr r), g')"
    by (auto simp: request_approval_def env_eq TargetSnapshot_Digest_def Let_def split: sum.splits)
  note c1 = Create_ok [OF cr [unfolded r0]]
  then have id: "r_ID r0 = pe_recordID env" by (simp add: new_record_def)
  have e: "(?e [])\<lparr>ae_ApprovalID := r_ID r0\<rparr> = ?e (pe_recordID env)" using id by (simp add: unsigned_envelope_def)
  from park_action_ok [OF park] obtain e' where e': "Sign (pp_Secret pp) (?e (pe_recordID env)) = Inr e'" "v' = waiting_task (pe_clock env 7) e' v" "r = r0"
    "ag_approvals g' = a" "files (ag_store g') (store_path ''tasks'' (t_ID v)) = Some (Valid (TaskDoc v'))" by (auto simp: e)
  obtain sg where "e' = (?e (pe_recordID env))\<lparr>ae_Signature := sg\<rparr>" using Sign_fields [OF e'(1)] by blast
  then have "action_binding e' = ?b"
    using assms(4) by (simp add: action_binding_def envelope_binding_def action_binding_of_def unsigned_envelope_def)
  with e' c1 ttl sc show ?thesis unfolding pending_def by auto
qed

lemma Prepare_ok:
  assumes "Prepare pp env v p s g = ((v', Inr r), g')" "pp_Safety pp = Some (SafetyPipeline_Evaluate c i j)"
  shows "\<exists>e. pending pp c env p s e r \<and> v' = waiting_task (pe_clock env 7) e v \<and> admissible c p \<and> approval_needed c p
    \<and> ap_TaskID p = t_ID v \<and> ap_SessionID p = t_SessionID v \<and> ap_Tool p \<noteq> []
    \<and> CanonicalTarget (ap_Target p) = CanonicalTarget \<lparr>tr_Type = ts_Type s, tr_ID = ts_ID s, tr_Criticality = []\<rparr>
    \<and> files (ag_approvals g') = (files (ag_approvals g))(approval_path (pe_recordID env) \<mapsto> Valid r)
    \<and> files (ag_store g') (store_path ''tasks'' (t_ID v)) = Some (Valid (TaskDoc v'))
    \<and> scope_check pp (unsigned_envelope c p s 0 [] []) = Inr ()"
proof -
  let ?safety = "SafetyPipeline_Evaluate c i j p"
  from assms have chk: "ap_TaskID p = t_ID v" "ap_SessionID p = t_SessionID v"
    "CanonicalTarget (ap_Target p) = CanonicalTarget \<lparr>tr_Type = ts_Type s, tr_ID = ts_ID s, tr_Criticality = []\<rparr>"
    by (auto simp: Prepare_def split: if_splits)
  from assms chk obtain dg where dg: "ActionProposal_Digest p = Inr dg"
    by (auto simp: Prepare_def Let_def split: if_splits sum.splits)
  obtain x g1 where au: "audit_decisions env v p dg ?safety g = (x, g1)" by (cases "audit_decisions env v p dg ?safety g")
  from assms chk dg au have x: "is_ok x" and ra: "request_approval pp env v p dg s ?safety g1 = ((v', Inr r), g')"
    by (auto simp: Prepare_def Let_def split: if_splits sum.splits)
  note ad = audit_decisions_keeps [OF au]
  with x have out: "gd_Outcome (pr_Final ?safety) = RequireApproval" by simp
  have adm: "admissible c p"
  proof (rule ccontr)
    assume "\<not> admissible c p"
    with pipeline_denies_iff [of c i j p] ad x out show False by auto
  qed
  with out have "approval_needed c p" by (simp add: pipeline_approval_iff)
  moreover have "ap_Tool p \<noteq> []" using dg by (auto simp: ActionProposal_Digest_def split: if_splits)
  ultimately show ?thesis using request_approval_ok [OF ra adm refl chk(1,2) dg] chk adm ad by auto
qed


lemma pending_facts:
  assumes "pending pp c env p s e r"
  shows "VerifySignature (pp_Secret pp) e = Inr ()" "ae_Proposal e = p" "ae_TargetSnapshot e = s" "ae_ApprovalID e = pe_recordID env" "ae_Nonce e = pe_nonce env"
    "r_ID r = pe_recordID env" "r_Binding r = action_binding e" "r_Status r = Pending"
proof -
  from assms obtain et at where e: "Sign (pp_Secret pp) (unsigned_envelope c p s (pe_clock env 4 + et) (pe_nonce env) (pe_recordID env)) = Inr e"
    and r: "r = new_record (pe_recordID env) (pe_clock env 5) (action_binding e) at" by (auto simp: pending_def)
  obtain sg where "e = (unsigned_envelope c p s (pe_clock env 4 + et) (pe_nonce env) (pe_recordID env))\<lparr>ae_Signature := sg\<rparr>"
    using Sign_fields [OF e] by blast
  then show "ae_Proposal e = p" "ae_TargetSnapshot e = s" "ae_ApprovalID e = pe_recordID env" "ae_Nonce e = pe_nonce env"
    by (simp_all add: unsigned_envelope_def)
  show "VerifySignature (pp_Secret pp) e = Inr ()" using Sign_Verify [OF e] .
  show "r_ID r = pe_recordID env" "r_Binding r = action_binding e" "r_Status r = Pending" using r by (simp_all add: new_record_def)
qed

subsection \<open>What a failed preparation leaves behind\<close>

text \<open>No approval a human could still grant: nothing new, or a record that is rejected or expired.\<close>

definition no_open_approval :: "string \<Rightarrow> (string \<rightharpoonup> Record doc) \<Rightarrow> (string \<rightharpoonup> Record doc) \<Rightarrow> bool" where
  "no_open_approval i fs fs' \<longleftrightarrow> fs' = fs \<or> (\<exists>r. fs' = fs(approval_path i \<mapsto> Valid r) \<and> r_Status r \<in> {Rejected, Expired})"

lemma resolve_approval_closes:
  assumes "healthy (ag_approvals g)" "validID i = Inr ()" "files (ag_approvals g) = fs(approval_path i \<mapsto> Valid r)" "r_Status r = Pending" "r_ID r = i"
  shows "no_open_approval i fs (files (ag_approvals (resolve_approval env n i reason g)))"
proof -
  from healthy_Resolve [OF assms(1,2), of r "pe_clock env n" False reason] assms(3) obtain x s' where
    R: "Resolve i (pe_clock env n) False reason (ag_approvals g) = (x, s')"
      "files s' = (case resolve_writes (pe_clock env n) False reason r of None \<Rightarrow> files (ag_approvals g) | Some r' \<Rightarrow> (files (ag_approvals g))(approval_path (r_ID r) \<mapsto> Valid r'))"
    by auto
  with assms show ?thesis by (auto simp: resolve_approval_def resolve_writes_def no_open_approval_def)
qed

lemma resolve_approval_keeps: "ag_store (resolve_approval env n i reason g) = ag_store g \<and> ag_trace (resolve_approval env n i reason g) = ag_trace g"
  by (simp add: resolve_approval_def split: prod.split)

lemma save_task_keeps: "save_task env n v g = (r, g') \<Longrightarrow> ag_approvals g' = ag_approvals g"
  by (auto simp: save_task_def split: prod.splits)

lemma park_action_failed:
  assumes "park_action pp env v e b r risk g = ((v', Inl err), g')" "healthy (ag_approvals g)" "validID (r_ID r) = Inr ()"
    and "files (ag_approvals g) = fs(approval_path (r_ID r) \<mapsto> Valid r)" "r_Status r = Pending"
  shows "no_open_approval (r_ID r) fs (files (ag_approvals g'))"
proof -
  have close: "no_open_approval (r_ID r) fs (files (ag_approvals (resolve_approval env n (r_ID r) reason g1)))" if "ag_approvals g1 = ag_approvals g" for n reason g1
    using resolve_approval_closes [of g1 "r_ID r" fs r] that assms(2-5) by simp
  have "\<exists>n reason g1. ag_approvals g1 = ag_approvals g \<and> ag_approvals g' = ag_approvals (resolve_approval env n (r_ID r) reason g1)"
  proof (cases "Sign (pp_Secret pp) e")
    case (Inl x)
    with assms(1) show ?thesis by (auto simp: park_action_def)
  next
    case (Inr e')
    let ?v = "waiting_task (pe_clock env 7) e' v"
    obtain x g1 where s: "save_task env 8 ?v g = (x, g1)" by (cases "save_task env 8 ?v g")
    from assms(1) Inr s save_task_keeps [OF s] show ?thesis
      by (auto simp: park_action_def Let_def split: sum.splits prod.splits dest: trace_event_keeps)
        (metis save_task_keeps prod.collapse trace_event_keeps)
  qed
  with close show ?thesis by auto
qed

lemma Create_healthy_failed: "healthy s \<Longrightarrow> Create i now b ttl s = (Inl e, s') \<Longrightarrow> files s' = files s"
  using healthy_Create [of s b i now ttl] by (cases "incomplete b") (auto simp: Create_def split: prod.splits if_splits dest: syscall_files)

lemma request_approval_failed:
  assumes "request_approval pp env v p dg s safety g = ((v', Inl err), g')" "healthy (ag_approvals g)" "validID (pe_recordID env) = Inr ()"
  shows "no_open_approval (pe_recordID env) (files (ag_approvals g)) (files (ag_approvals g'))"
proof (cases "ag_approvals g' = ag_approvals g")
  case False
  with assms(1) obtain et at where ttl: "prepare_ttls pp = Inr (et, at)" and sc: "is_ok (scope_check pp (action_envelope v p dg s safety 0 [] []))"
    by (auto simp: request_approval_def is_ok_iff split: sum.splits)
  let ?e = "action_envelope v p dg s safety (pe_clock env 4 + et) (pe_nonce env) []" let ?b = "action_binding_of v p ?e (sha256_hex (json_text (json_snapshot s)))"
  obtain cr a where cr: "Create (pe_recordID env) (pe_clock env 5) ?b at (ag_approvals g) = (cr, a)" by (cases "Create (pe_recordID env) (pe_clock env 5) ?b at (ag_approvals g)")
  show ?thesis
  proof (cases cr)
    case (Inl x)
    with assms(1) ttl sc cr have "ag_approvals g' = a" by (auto simp: request_approval_def TargetSnapshot_Digest_def Let_def is_ok_iff)
    with Create_healthy_failed [OF assms(2) cr [unfolded Inl]] show ?thesis by (simp add: no_open_approval_def)
  next
    case (Inr r)
    note c = Create_ok [OF cr [unfolded Inr]]
    then have r: "r_ID r = pe_recordID env" "r_Status r = Pending" by (simp_all add: new_record_def)
    from healthy_Create [OF assms(2), of ?b "pe_recordID env" "pe_clock env 5" at] c cr have h: "healthy a" by auto
    from assms(1) ttl sc cr Inr
    have "park_action pp env v (?e\<lparr>ae_ApprovalID := r_ID r\<rparr>) ?b r (pr_Risk safety) (g\<lparr>ag_approvals := a\<rparr>) = ((v', Inl err), g')"
      by (auto simp: request_approval_def TargetSnapshot_Digest_def Let_def is_ok_iff)
    from park_action_failed [OF this, of "files (ag_approvals g)"] h r c assms(3) show ?thesis by simp
  qed
qed (simp add: no_open_approval_def)

lemma Prepare_failed:
  assumes "Prepare pp env v p s g = ((v', Inl err), g')" "healthy (ag_approvals g)" "validID (pe_recordID env) = Inr ()"
  shows "no_open_approval (pe_recordID env) (files (ag_approvals g)) (files (ag_approvals g'))"
proof (cases "ag_approvals g' = ag_approvals g")
  case False
  from assms(1) obtain ev where sf: "pp_Safety pp = Some ev" using False by (auto simp: Prepare_def split: if_splits option.splits)
  from assms(1) False sf obtain dg where dg: "ActionProposal_Digest p = Inr dg" by (auto simp: Prepare_def Let_def split: if_splits sum.splits)
  obtain x g1 where au: "audit_decisions env v p dg (ev p) g = (x, g1)" by (cases "audit_decisions env v p dg (ev p) g")
  from audit_decisions_keeps [OF au] have g1: "ag_approvals g1 = ag_approvals g" by simp
  from assms(1) False sf dg au g1 have "request_approval pp env v p dg s (ev p) g1 = ((v', Inl err), g')"
    by (auto simp: Prepare_def Let_def split: if_splits sum.splits)
  from request_approval_failed [OF this] assms(2,3) g1 show ?thesis by simp
qed (simp add: no_open_approval_def)


text \<open>A pending approval that is granted in time can be validated and consumed with its binding.\<close>

lemma granted_approval_usable:
  assumes "healthy a0" "files a0 (approval_path i) = Some (Valid r)" "validID i = Inr ()" "r_ID r = i" "r_Status r = Pending"
    and "Resolve i now True reason a0 = (Inr r', a)" "tv \<le> r_ExpiresAt r" "tc \<le> r_ExpiresAt r"
  shows "\<exists>ap ap'. Validate i tv (r_Binding r) a = (Inr (), ap) \<and> Consume i tc tc' (r_Binding r) ap = (Inr (), ap')"
proof -
  from healthy_Resolve [OF assms(1,3,2), of now True reason] assms(6)
  have st: "healthy a" "files a = (case resolve_writes now True reason r of None \<Rightarrow> files a0 | Some r' \<Rightarrow> (files a0)(approval_path (r_ID r) \<mapsto> Valid r'))"
    "now < r_ExpiresAt r" by auto
  define r2 where "r2 = r\<lparr>r_Status := Approved, r_Reason := TrimSpace reason, r_ResolvedAt := now\<rparr>"
  have r2: "files a (approval_path i) = Some (Valid r2)" "r_Status r2 = Approved" "r_Binding r2 = r_Binding r" "r_ExpiresAt r2 = r_ExpiresAt r"
    using st assms(4,5) by (simp_all add: resolve_writes_def r2_def)
  from healthy_Validate [OF st(1) assms(3) r2(1), of tv "r_Binding r"] r2 assms(7) obtain ap
    where V: "Validate i tv (r_Binding r) a = (Inr (), ap)" "healthy ap" "files ap = files a" by (auto simp: is_ok_iff)
  from healthy_Consume [OF V(2) assms(3), of r2 tc "r_Binding r" tc'] V r2 assms(8) show ?thesis by auto
qed

subsection \<open>A concrete preparation\<close>

definition sample_preparer :: ActionPreparer where
  "sample_preparer = \<lparr>pp_Safety = Some (SafetyPipeline_Evaluate sample_catalog ''i'' ''j''), pp_HasApprovals = True, pp_HasTrace = True,
     pp_Scope = Some (Authorize (Scope sample_config)), pp_Secret = replicate 32 (CHR ''k''), pp_ApprovalTTL = 50, pp_EnvelopeTTL = 100\<rparr>"

definition sample_env :: prep_env where
  "sample_env = \<lparr>pe_clock = (\<lambda>_. 0), pe_torn = (\<lambda>_. 0), pe_nonce = ''n1'', pe_recordID = ''a1'', pe_text = (\<lambda>_. [])\<rparr>"

definition sample_agent :: agent where
  "sample_agent = \<lparr>ag_store = reliable Map.empty, ag_approvals = reliable Map.empty, ag_trace = reliable Map.empty\<rparr>"

abbreviation sample_action_proposal :: ActionProposal where "sample_action_proposal \<equiv> sample_proposal ''/srv/lab/f''"
abbreviation sample_safety :: PipelineResult where "sample_safety \<equiv> SafetyPipeline_Evaluate sample_catalog ''i'' ''j'' sample_action_proposal"

text \<open>The trace of task \<open>t1\<close> works and holds \<open>n\<close> events.\<close>

definition trace_ready :: "nat \<Rightarrow> agent \<Rightarrow> bool" where
  "trace_ready n g \<longleftrightarrow> healthy (ag_trace g) \<and> (\<exists>es t h. length es = n \<and> trace_state ''t1'' es t h (files (ag_trace g)))"

lemma trace_event_ready:
  assumes "trace_ready n g" "n < 100" "t_ID v = ''t1''" "t_SessionID v = ''s1''" "length typ < 100" "typ \<noteq> DecisionRecorded" "weight j < 1000000"
  shows "\<exists>e g'. trace_event sample_env k v typ j g = (Inr e, g') \<and> trace_ready (Suc n) g' \<and> ag_store g' = ag_store g \<and> ag_approvals g' = ag_approvals g"
proof -
  from assms(1) obtain es t h where st: "length es = n" "trace_state ''t1'' es t h (files (ag_trace g))" "healthy (ag_trace g)" by (auto simp: trace_ready_def)
  have v: "is_ok (trace_validID ''t1'')" "length (rfc3339nano 0) = 20" by code_simp+
  from Append_extends [OF st(2,3) v(1) _ assms(6), of "''s1''" 0 j 0] st(1) assms(2,5,7) v(2) obtain e d'
    where "Append 0 0 ''t1'' ''s1'' typ (Inr j) (ag_trace g) = (Inr e, d')" "healthy d'" "trace_state ''t1'' (es @ [e]) 0 (head_of (es @ [e])) (files d')"
    by (auto simp: max_token_def)
  with assms(3,4) st(1) show ?thesis by (auto simp: trace_event_def sample_env_def trace_ready_def intro!: exI [of _ "es @ [e]"])
qed

lemma sample_ready: "trace_ready 0 sample_agent"
  by (auto simp: trace_ready_def sample_agent_def trace_state_def intro!: exI [of _ zero_head])

lemma weight_strings: "list_all (\<lambda>x. length x < 100) xs \<Longrightarrow> weight (json_slice (map JStr xs)) \<le> 20000 * length xs + 5"
  by (induction xs) (auto simp: json_slice_def split: if_splits)

lemma sample_weights:
  "weight (json_target (ap_Target sample_action_proposal)) < 10000" "weight (json_decision (pr_Static sample_safety)) < 1000000"
  "weight (json_risk (pr_Risk sample_safety)) < 300000" "weight (json_intent_decision (pr_Intent sample_safety)) < 1000000"
proof -
  show "weight (json_target (ap_Target sample_action_proposal)) < 10000"
    by (simp add: json_target_def sample_proposal_def sample_target_def omit_str_def)
  have i0: "length (itoa 0) = 1" by code_simp
  let ?g = "Precheck sample_catalog ''i'' sample_action_proposal"
  have "TrimSpace ''file.delete'' = ''file.delete''" "ToLower ''file.delete'' = ''file.delete''" by code_simp+
  then have g: "?g = \<lparr>gd_DecisionID = ''i'', gd_Outcome = Allow, gd_ReasonCodes = [''POLICY_ALLOW''], gd_Reason = txt_policy_allow,
      gd_MatchedRuleIDs = [tp_RuleID sample_policy], gd_PolicyVersion = VersionID (Some sample_catalog), gd_Risk = zero_risk\<rparr>"
    by (simp add: Precheck_def sample_defs Policy_def forbiddenCapability_def forbidden_tools_def targetTypeAllowed_def Let_def VersionID_def)
  have gl: "length txt_policy_allow < 100" "length (tp_RuleID sample_policy) < 100" "length (VersionID (Some sample_catalog)) < 10" by code_simp+
  show "weight (json_decision (pr_Static sample_safety)) < 1000000"
    using gl i0 by (simp add: pipeline_static g json_decision_def json_slice_def outcome_text_def json_risk_def zero_risk_def json_int_def)
  have p: "static_ok sample_catalog sample_action_proposal" "aligned sample_action_proposal" using sample_admissible(1) by (simp_all add: admissible_def)
  let ?r = "RiskEngine_Evaluate sample_catalog sample_action_proposal"
  have sc: "rr_Score ?r = 30" "?r = \<lparr>rr_Level = levelForScore 30, rr_Score = 30,
      rr_Factors = (''BASE_'' @ risk_base sample_catalog sample_action_proposal) # map (\<lambda>(_, _, f). f) (filter fst (risk_steps sample_catalog sample_action_proposal)),
      rr_Reason = txt_risk_reason @ itoa 30\<rparr>"
    by (simp_all add: RiskEngine_Evaluate_def sample_scores)
  have "length (levelForScore 30) = 2" by code_simp
  moreover have "length txt_risk_reason < 300" "length (itoa 30) = 2" by code_simp+
  moreover have "list_all (\<lambda>x. length x < 100) (map (\<lambda>(_, _, f). f) (filter fst (risk_steps sample_catalog sample_action_proposal)))" by code_simp
  moreover have "length (filter fst (risk_steps sample_catalog sample_action_proposal)) < 9" by code_simp
  moreover have "length (risk_base sample_catalog sample_action_proposal) < 50" by code_simp
  ultimately have "length (rr_Level ?r) = 2" "length (rr_Reason ?r) < 400" "list_all (\<lambda>x. length x < 100) (rr_Factors ?r)" "length (rr_Factors ?r) < 10" "length (itoa (rr_Score ?r)) < 10"
    by (simp_all add: sc)
  with weight_strings [of "rr_Factors ?r"] show "weight (json_risk (pr_Risk sample_safety)) < 300000"
    by (simp add: pipeline_parts [OF p] json_risk_def json_int_def)
  have "pr_Intent sample_safety = IntentGuard_Evaluate (VersionID (Some sample_catalog)) ''j'' sample_action_proposal"
    using p by (simp add: SafetyPipeline_Evaluate_def Precheck_outcome IntentGuard_outcome Let_def)
  moreover have "CanonicalTarget (ap_Target sample_action_proposal) \<noteq> '':''" "containsTarget (ic_PlanTargets (ap_Intent sample_action_proposal)) (CanonicalTarget (ap_Target sample_action_proposal))"
    "containsTarget (ic_ObjectiveTargets (ap_Intent sample_action_proposal)) (CanonicalTarget (ap_Target sample_action_proposal))" by code_simp+
  moreover have "length (intentDigest x) = 64" for x by (simp add: intentDigest_def)
  ultimately show "weight (json_intent_decision (pr_Intent sample_safety)) < 1000000"
    using gl(3) by (simp add: IntentGuard_Evaluate_def Let_def json_intent_decision_def outcome_text_def zero_intent_decision_def omit_slice_def)
qed


lemma sample_audit:
  "\<exists>g'. audit_decisions sample_env demo_task sample_action_proposal dg sample_safety sample_agent = (Inr (), g')
     \<and> trace_ready 4 g' \<and> ag_store g' = ag_store sample_agent \<and> ag_approvals g' = ag_approvals sample_agent" if dg: "length dg = 64"
proof -
  have t: "t_ID demo_task = ''t1''" "t_SessionID demo_task = ''s1''" by (simp_all add: demo_task_def)
  have w0: "weight (JObj [(''proposal_id'', JStr (ap_ProposalID sample_action_proposal)), (''tool'', JStr (ap_Tool sample_action_proposal)), (''effect'', JStr (ap_Effect sample_action_proposal)),
      (''target'', json_target (ap_Target sample_action_proposal)), (''proposal_digest'', JStr dg)]) < 1000000"
    using sample_weights(1) dg by (simp add: sample_proposal_def Write_def)
  have o: "gd_Outcome (pr_Static sample_safety) \<noteq> Deny" "id_Outcome (pr_Intent sample_safety) \<noteq> Deny" "gd_Outcome (pr_Final sample_safety) = RequireApproval"
    using pipeline_denies_iff [of sample_catalog "''i''" "''j''" sample_action_proposal] pipeline_approval_iff [OF sample_admissible(1), of "''i''" "''j''"] sample_admissible(1) sample_needs(1) by auto
  obtain e1 g1 where 1: "trace_event sample_env 0 demo_task ''ACTION_PROPOSED'' (JObj [(''proposal_id'', JStr (ap_ProposalID sample_action_proposal)), (''tool'', JStr (ap_Tool sample_action_proposal)),
      (''effect'', JStr (ap_Effect sample_action_proposal)), (''target'', json_target (ap_Target sample_action_proposal)), (''proposal_digest'', JStr dg)]) sample_agent = (Inr e1, g1)"
    "trace_ready 1 g1" "ag_store g1 = ag_store sample_agent" "ag_approvals g1 = ag_approvals sample_agent"
    using trace_event_ready [OF sample_ready _ t _ _ w0, of "''ACTION_PROPOSED''" 0] by (auto simp: DecisionRecorded_def)
  obtain e2 g2 where 2: "trace_event sample_env 1 demo_task ''STATIC_GUARD_RESULT'' (json_decision (pr_Static sample_safety)) g1 = (Inr e2, g2)"
    "trace_ready 2 g2" "ag_store g2 = ag_store sample_agent" "ag_approvals g2 = ag_approvals sample_agent"
    using trace_event_ready [OF 1(2) _ t _ _ sample_weights(2), of "''STATIC_GUARD_RESULT''" 1] 1(3,4) by (auto simp: DecisionRecorded_def numeral_2_eq_2)
  obtain e3 g3 where 3: "trace_event sample_env 2 demo_task ''INTENT_GUARD_RESULT'' (json_intent_decision (pr_Intent sample_safety)) g2 = (Inr e3, g3)"
    "trace_ready 3 g3" "ag_store g3 = ag_store sample_agent" "ag_approvals g3 = ag_approvals sample_agent"
    using trace_event_ready [OF 2(2) _ t _ _ sample_weights(4), of "''INTENT_GUARD_RESULT''" 2] 2(3,4) by (auto simp: DecisionRecorded_def eval_nat_numeral)
  have w3: "weight (json_risk (pr_Risk sample_safety)) < 1000000" using sample_weights(3) by (rule less_trans) simp
  obtain e4 g4 where 4: "trace_event sample_env 3 demo_task ''RISK_EVALUATED'' (json_risk (pr_Risk sample_safety)) g3 = (Inr e4, g4)"
    "trace_ready 4 g4" "ag_store g4 = ag_store sample_agent" "ag_approvals g4 = ag_approvals sample_agent"
    using trace_event_ready [OF 3(2) _ t _ _ w3, of "''RISK_EVALUATED''" 3] 3(3,4) by (auto simp: DecisionRecorded_def eval_nat_numeral)
  show ?thesis
    unfolding audit_decisions_def 1(1) 2(1) 3(1) 4(1) prod.case sum.case using o 4(2-4) by simp
qed

lemma healthy_SaveTask_new:
  assumes "healthy d" "files d (store_path ''tasks'' (t_ID v)) = None" "validateID (t_ID v) = Inr ()"
  shows "\<exists>d'. SaveTask now v d = (Inr (), d')"
proof -
  obtain d1 where d1: "calls 3 d = (True, d1)" "healthy d1" "files d1 = files d" using healthy_calls [OF assms(1)] by blast
  obtain d2 where d2: "loadTask (t_ID v) d1 = (Inl ErrNotFound, d2)" "healthy d2"
    using healthy_read_file [OF d1(2), of "store_path ''tasks'' (t_ID v)"] d1(3) assms(2) by (auto simp: loadLocked_def)
  from healthy_saveLocked [OF d2(2), of "''tasks''" "t_ID v" "TaskDoc v"] show ?thesis
    using assms(3) d1(1) d2(1) by (auto simp: SaveTask_def withExclusive_def)
qed

abbreviation sample_unsigned :: "timestamp \<Rightarrow> string \<Rightarrow> string \<Rightarrow> ActionEnvelope" where
  "sample_unsigned \<equiv> unsigned_envelope sample_catalog sample_action_proposal sample_snapshot"

lemma sample_scope: "scope_check sample_preparer (sample_unsigned 0 [] []) = Inr ()"
proof -
  have "list_all IsAbs (fs_AllowedFileRoots (Scope sample_config))" "under ''/srv'' ''/srv/lab/f''" by code_simp+
  then have "Authorize (Scope sample_config) (sample_unsigned 0 [] []) = Inr ()"
    by (simp add: Authorize_iff in_scope_def sample_snapshot_def Scope_def sample_config_def unsigned_envelope_def)
  then show ?thesis by (simp add: scope_check_def sample_preparer_def)
qed

lemma sample_ttls: "prepare_ttls sample_preparer = Inr (100, 50)"
  by (simp add: prepare_ttls_def sample_preparer_def)

lemma sample_sign: "Sign (pp_Secret sample_preparer) (sample_unsigned 100 ''n1'' ''a1'') = Inr (sample_envelope sample_catalog)"
  using sample_signed [of sample_catalog] by (simp add: sample_preparer_def sample_validator_def)

lemma sample_binding:
  "action_binding_of demo_task sample_action_proposal (sample_unsigned 100 ''n1'' []) (sha256_hex (json_text (json_snapshot sample_snapshot)))
     = action_binding (sample_envelope sample_catalog)"
proof -
  obtain sg where "sample_envelope sample_catalog = (sample_unsigned 100 ''n1'' ''a1'')\<lparr>ae_Signature := sg\<rparr>" using Sign_fields [OF sample_sign] by blast
  then show ?thesis
    by (simp add: action_binding_def envelope_binding_def action_binding_of_def unsigned_envelope_def demo_task_def sample_proposal_def)
qed

lemma sample_binding_weight: "weight (json_binding (action_binding (sample_envelope sample_catalog))) < 300000"
proof -
  have "rr_Level (RiskEngine_Evaluate sample_catalog sample_action_proposal) = levelForScore 30" by (simp add: RiskEngine_Evaluate_def sample_scores)
  moreover have "length (levelForScore 30) = 2" by code_simp
  moreover have "ActionProposal_Digest sample_action_proposal = Inr (sha256_hex (json_text (json_proposal sample_action_proposal)))"
    by (simp add: ActionProposal_Digest_def sample_proposal_def)
  ultimately show ?thesis unfolding sample_binding [symmetric]
    by (simp add: action_binding_of_def unsigned_envelope_def json_binding_def demo_task_def intentDigest_def sample_proposal_def sample_catalog_def)
qed

lemma time_weight: "weight (json_time 50) < 10000"
proof -
  have "length (rfc3339nano 50) < 40" by code_simp
  then show ?thesis by (simp add: json_time_def)
qed

lemma sample_park:
  assumes "trace_ready 4 g" "ag_store g = ag_store sample_agent" "r_ID r = ''a1''" "r_ExpiresAt r = 50"
    and "b = action_binding (sample_envelope sample_catalog)"
  shows "\<exists>g'. park_action sample_preparer sample_env demo_task (sample_unsigned 100 ''n1'' ''a1'') b r (pr_Risk sample_safety) g
    = ((waiting_task 0 (sample_envelope sample_catalog) demo_task, Inr r), g')"
proof -
  let ?e = "sample_envelope sample_catalog" let ?v = "waiting_task 0 ?e demo_task"
  have t: "t_ID ?v = ''t1''" "t_SessionID ?v = ''s1''" by (simp_all add: waiting_task_def Transition_def demo_task_def)
  have "validateID ''t1'' = Inr ()" by code_simp
  with healthy_SaveTask_new [of "ag_store g" ?v 0] t assms(2) obtain d where d: "SaveTask 0 ?v (ag_store g) = (Inr (), d)"
    by (auto simp: sample_agent_def)
  let ?g = "g\<lparr>ag_store := d\<rparr>"
  have ready: "trace_ready 4 ?g" using assms(1) by (simp add: trace_ready_def)
  have w: "weight (JObj [(''approval_id'', JStr (r_ID r)), (''binding'', json_binding b), (''expires_at'', json_time (r_ExpiresAt r)), (''risk'', json_risk (pr_Risk sample_safety))]) < 1000000"
    using sample_weights(3) sample_binding_weight time_weight assms(3-5) by simp
  have "(4::nat) < 100" "length ''APPROVAL_REQUESTED'' < (100::nat)" "''APPROVAL_REQUESTED'' \<noteq> DecisionRecorded" by (simp_all add: DecisionRecorded_def)
  from trace_event_ready [OF ready this(1) t this(2,3) w, of 10] obtain e g' where
    "trace_event sample_env 10 ?v ''APPROVAL_REQUESTED'' (JObj [(''approval_id'', JStr (r_ID r)), (''binding'', json_binding b), (''expires_at'', json_time (r_ExpiresAt r)), (''risk'', json_risk (pr_Risk sample_safety))]) ?g = (Inr e, g')"
    by blast
  moreover have "pe_clock sample_env = (\<lambda>_. 0)" by (simp add: sample_env_def)
  ultimately show ?thesis unfolding park_action_def sample_sign sum.case Let_def save_task_def
    by (simp only: d prod.case sum.case) simp
qed


lemma sample_prepares:
  "\<exists>g' r. Prepare sample_preparer sample_env demo_task sample_action_proposal sample_snapshot sample_agent
     = ((waiting_task 0 (sample_envelope sample_catalog) demo_task, Inr r), g') \<and> r_ExpiresAt r = 50"
proof -
  let ?dg = "sha256_hex (json_text (json_proposal sample_action_proposal))"
  have dg: "ActionProposal_Digest sample_action_proposal = Inr ?dg" by (simp add: ActionProposal_Digest_def sample_proposal_def)
  have ids: "ap_TaskID sample_action_proposal = t_ID demo_task" "ap_SessionID sample_action_proposal = t_SessionID demo_task"
    by (simp_all add: sample_proposal_def demo_task_def)
  have ct: "CanonicalTarget (ap_Target sample_action_proposal) = CanonicalTarget \<lparr>tr_Type = ts_Type sample_snapshot, tr_ID = ts_ID sample_snapshot, tr_Criticality = []\<rparr>"
    by (simp add: sample_proposal_def sample_target_def sample_snapshot_def CanonicalTarget_def)
  have wr: "ap_Effect sample_action_proposal = Write" by (simp add: sample_proposal_def)
  have pp: "pp_Safety sample_preparer = Some (SafetyPipeline_Evaluate sample_catalog ''i'' ''j'')" "pp_HasApprovals sample_preparer" "pp_HasTrace sample_preparer"
    by (simp_all add: sample_preparer_def)
  have env: "pe_clock sample_env = (\<lambda>_. 0)" "pe_nonce sample_env = ''n1''" "pe_recordID sample_env = ''a1''" by (simp_all add: sample_env_def)
  obtain g1 where g1: "audit_decisions sample_env demo_task sample_action_proposal ?dg sample_safety sample_agent = (Inr (), g1)"
    "trace_ready 4 g1" "ag_store g1 = ag_store sample_agent" "ag_approvals g1 = ag_approvals sample_agent" using sample_audit [of ?dg] by auto
  let ?b = "action_binding (sample_envelope sample_catalog)" let ?r = "new_record ''a1'' 0 ?b 50"
  have "healthy (ag_approvals g1)" by (simp add: g1(4) sample_agent_def)
  from healthy_Create [OF this sample_binding_complete] obtain a where a: "Create ''a1'' 0 ?b 50 (ag_approvals g1) = (Inr ?r, a)" by blast
  have r: "r_ID ?r = ''a1''" "r_ExpiresAt ?r = 50" by (simp_all add: new_record_def)
  have upd: "(sample_unsigned 100 ''n1'' [])\<lparr>ae_ApprovalID := ''a1''\<rparr> = sample_unsigned 100 ''n1'' ''a1''" by (simp add: unsigned_envelope_def)
  obtain g' where g': "park_action sample_preparer sample_env demo_task (sample_unsigned 100 ''n1'' ''a1'') ?b ?r (pr_Risk sample_safety) (g1\<lparr>ag_approvals := a\<rparr>)
      = ((waiting_task 0 (sample_envelope sample_catalog) demo_task, Inr ?r), g')"
    using sample_park [of "g1\<lparr>ag_approvals := a\<rparr>" ?r ?b] g1(2,3) r by (auto simp: trace_ready_def)
  have "request_approval sample_preparer sample_env demo_task sample_action_proposal ?dg sample_snapshot sample_safety g1
      = ((waiting_task 0 (sample_envelope sample_catalog) demo_task, Inr ?r), g')"
    unfolding request_approval_def pipeline_envelope [OF sample_admissible(1) refl ids dg] sample_scope TargetSnapshot_Digest_def sample_ttls sum.case prod.case Let_def env
    using a g' by (simp add: sample_binding r upd)
  with g1(1) show ?thesis using ids wr ct pp dg r(2) by (auto simp: Prepare_def Let_def)
qed

lemma sample_approval_id: "validID (pe_recordID sample_env) = Inr ()"
  by (simp add: sample_env_def validID_def)

subsection \<open>Properties\<close>


text \<open>C6: what the agent prepares and a human approves, the executor executes. When agent and executor share secret, policy and scope, the approval is given
  and used before it expires, the target is unchanged and the nonce is fresh, the executor accepts the pending envelope and runs
  the handler of its tool: none of the executor's checks refuses what \<open>Prepare\<close> built.\<close>

theorem approved_action_executes:
  assumes "Prepare pp env tk p s g = ((tk', Inr r), g')" "pp_Safety pp = Some (SafetyPipeline_Evaluate c i j)" "pp_Scope pp = Some (Authorize sc)"
    and "t_ID tk \<noteq> []" "t_SessionID tk \<noteq> []" "pe_nonce env \<noteq> []" "validID (pe_recordID env) = Inr ()" "prepare_ttls pp = Inr (et, at)"
    and "v_Secret v = pp_Secret pp" "v_Catalog v = c" "v_Scope v = Some (Authorize sc)" "v_Targets v = Some rv" "rv s = Inr ()" "v_HasNonces v" "v_HasApprovals v"
    and "healthy a0" "files a0 = files (ag_approvals g')" "Resolve (r_ID r) now True reason a0 = (Inr r', xs_approvals st)"
    and "healthy (xs_nonce_disk st)" "prune (t_reserve t) (ns_used (xs_nonces st)) (pe_nonce env) = None"
    and "t_current t < pe_clock env 4 + et" "pe_clock env 4 + et \<le> t_current t + max_ttl v" "t_validate t \<le> r_ExpiresAt r" "t_consume t \<le> r_ExpiresAt r"
    and "hs (ap_Tool p) = Some h" "ap_Tool p \<in> set fixedHandlers"
  shows "\<exists>e st'. t_PendingAction tk' = MarshalEnvelope e \<and> Execute v hs t i' j' e st = (fst (h e (xs_world st)), st')
    \<and> xs_log st' = e # xs_log st \<and> xs_world st' = snd (h e (xs_world st))"
proof -
  from Prepare_ok [OF assms(1,2)] obtain e where e: "pending pp c env p s e r" "tk' = waiting_task (pe_clock env 7) e tk"
    "admissible c p" "approval_needed c p" "ap_TaskID p = t_ID tk" "ap_SessionID p = t_SessionID tk" "ap_Tool p \<noteq> []"
    "CanonicalTarget (ap_Target p) = CanonicalTarget \<lparr>tr_Type = ts_Type s, tr_ID = ts_ID s, tr_Criticality = []\<rparr>"
    "files (ag_approvals g') = (files (ag_approvals g))(approval_path (pe_recordID env) \<mapsto> Valid r)"
    "scope_check pp (unsigned_envelope c p s 0 [] []) = Inr ()" by blast
  note pf = pending_facts [OF e(1)]
  from e(1) assms(8,9) have sg: "Sign (v_Secret v) (unsigned_envelope (v_Catalog v) p s (pe_clock env 4 + et) (pe_nonce env) (pe_recordID env)) = Inr e"
    using assms(10) by (auto simp: pending_def)
  have acc: "acceptable v (t_current t) e" and ex: "ae_ExpiresAt e = pe_clock env 4 + et"
    using signed_acceptable [OF sg _ e(7) _ _ assms(6) e(8) assms(21,22)] e assms(4,5,10) Sign_fields [OF sg]
    by (auto simp: unsigned_envelope_def) (metis (no_types, lifting) ActionEnvelope.select_convs(11) ActionEnvelope.update_convs(14))
  have auth: "Authorize sc e = Inr ()"
  proof -
    have "Authorize sc (unsigned_envelope c p s 0 [] []) = Inr ()" using e(10) assms(3) by (auto simp: scope_check_def split: sum.splits)
    moreover have "Authorize sc e = Authorize sc (unsigned_envelope c p s 0 [] [])"
      using pf(3) by (simp add: Authorize_def unsigned_envelope_def)
    ultimately show ?thesis by simp
  qed
  from healthy_Reserve [OF assms(19,6,20), of "ae_ExpiresAt e"] pf(5) obtain ns nd
    where R: "Reserve (ae_Nonce e) (ae_ExpiresAt e) (t_reserve t) (xs_nonces st) (xs_nonce_disk st) = (Inr (), ns, nd)" by auto
  have a0: "files a0 (approval_path (r_ID r)) = Some (Valid r)" "validID (r_ID r) = Inr ()" using assms(7,17) e(9) pf(6) by simp_all
  from granted_approval_usable [OF assms(16) a0 refl pf(8) assms(18,23,24), of "t_consumed t"] pf(7) obtain ap ap'
    where V: "Validate (r_ID r) (t_validate t) (action_binding e) (xs_approvals st) = (Inr (), ap)"
      and C: "Consume (r_ID r) (t_consume t) (t_consumed t) (action_binding e) ap = (Inr (), ap')" by auto
  have ne: "pe_recordID env \<noteq> []" using assms(7) by (auto simp: validID_def split: if_splits)
  obtain x w where hw: "h e (xs_world st) = (x, w)" by (cases "h e (xs_world st)")
  have "Execute v hs t i' j' e st = (x, st\<lparr>xs_approvals := ap', xs_nonces := ns, xs_nonce_disk := nd, xs_world := w, xs_log := e # xs_log st\<rparr>)"
    using acc auth R hw V C ne pf e(4) assms(10-15,25,26)
    by (intro Execute_forward [where h = h and a = "Authorize sc" and rv = rv]) (simp_all, blast?)
  with e(2) hw show ?thesis by (auto simp: waiting_task_def Transition_def)
qed


theorem approved_action_executes_witness:
  "\<exists>v' r g' r' a e st'. Prepare sample_preparer sample_env demo_task sample_action_proposal sample_snapshot sample_agent = ((v', Inr r), g')
     \<and> Resolve (r_ID r) 1 True [] (reliable (files (ag_approvals g'))) = (Inr r', a)
     \<and> t_PendingAction v' = MarshalEnvelope e \<and> xs_log (st' :: unit exec_state) = [e]
     \<and> Execute (sample_validator sample_catalog) sample_handlers sample_clock ''i'' ''j'' e (sample_state Map.empty\<lparr>xs_approvals := a\<rparr>) = (fst (DryRunHandler [] 0 e ()), st')"
proof -
  obtain v' r g' where p: "Prepare sample_preparer sample_env demo_task sample_action_proposal sample_snapshot sample_agent = ((v', Inr r), g')" and x: "r_ExpiresAt r = 50"
    using sample_prepares by blast
  have pp: "pp_Safety sample_preparer = Some (SafetyPipeline_Evaluate sample_catalog ''i'' ''j'')" "pp_Scope sample_preparer = Some (Authorize (Scope sample_config))"
    by (simp_all add: sample_preparer_def)
  note ok = Prepare_ok [OF p pp(1)]
  then have r: "r_ID r = ''a1''" "r_Status r = Pending" "files (ag_approvals g') (approval_path ''a1'') = Some (Valid r)"
    using pending_facts by (auto simp: sample_env_def)
  have id: "validID ''a1'' = Inr ()" by (simp add: validID_def)
  from healthy_Resolve [of "reliable (files (ag_approvals g'))", OF _ id, of r 1 True "[]"] r x obtain r' a
    where R: "Resolve (r_ID r) 1 True [] (reliable (files (ag_approvals g'))) = (Inr r', a)" by (auto simp: is_ok_iff)
  let ?st = "sample_state Map.empty\<lparr>xs_approvals := a\<rparr>"
  have st: "xs_approvals ?st = a" "healthy (xs_nonce_disk ?st)" "prune 2 (ns_used (xs_nonces ?st)) ''n1'' = None" "xs_log ?st = []" "xs_world ?st = ()"
    by (simp_all add: sample_state_def demo_nonces_def prune_def)
  have mt: "max_ttl (sample_validator sample_catalog) = 15 * minute" by (simp add: sample_validator_def max_ttl_def)
  have "\<exists>e st'. t_PendingAction v' = MarshalEnvelope e
      \<and> Execute (sample_validator sample_catalog) sample_handlers sample_clock ''i'' ''j'' e ?st = (fst (DryRunHandler [] 0 e (xs_world ?st)), st')
      \<and> xs_log st' = e # xs_log ?st \<and> xs_world st' = snd (DryRunHandler [] 0 e (xs_world ?st))"
    by (rule approved_action_executes [OF p pp, where rv = "Revalidate sample_host sample_platform [''/srv/lab'']" and ?a0.0 = "reliable (files (ag_approvals g'))"
          and now = 1 and reason = "[]" and r' = r' and et = 100 and at = 50])
      (use R st x sample_ttls sample_gate(2) [of sample_catalog] sample_tool sample_approval_id in
        \<open>simp_all add: sample_validator_def sample_preparer_def sample_env_def sample_clock_def sample_handlers_def demo_task_def duration_defs max_ttl_def\<close>)
  with p R st(4,5) show ?thesis by auto
qed

end
