(* ===== verification/Agent.thy ===== *)
theory Agent
  imports Preparer
begin

text \<open>
  What the parts of \<open>internal/agent\<close> share: the operations on the three stores in the shape in which the agent's functions use them. A
  function of the agent works on a task value and returns it with an error or a result; almost every step is
  \<open>if err := ...; err != nil { return value, err }\<close>. The state is that of the stores together with the state of whatever else
  the function calls (the executor, the planner, the tool servers).
\<close>

type_synonym ('a, 'x) agent_result = "(Task \<times> 'a result) \<times> agent \<times> 'x"

text \<open>\<open>if _, err := Trace.Append(...); err != nil { return value, err }\<close>, then \<open>k\<close> with the event.\<close>

definition appending :: "prep_env \<Rightarrow> nat \<Rightarrow> Task \<Rightarrow> string \<Rightarrow> json \<Rightarrow> (Event \<Rightarrow> agent \<times> 'x \<Rightarrow> ('a, 'x) agent_result) \<Rightarrow> agent \<times> 'x \<Rightarrow> ('a, 'x) agent_result" where
  "appending env n v typ data k s =
     (case trace_event env n v typ data (fst s) of (Inl err, g) \<Rightarrow> ((v, Inl err), (g, snd s)) | (Inr e, g) \<Rightarrow> k e (g, snd s))"

text \<open>\<open>if err := Store.SaveTask(ctx, value); err != nil { return value, err }\<close>, then \<open>k\<close>.\<close>

definition saving :: "prep_env \<Rightarrow> nat \<Rightarrow> Task \<Rightarrow> (agent \<times> 'x \<Rightarrow> ('a, 'x) agent_result) \<Rightarrow> agent \<times> 'x \<Rightarrow> ('a, 'x) agent_result" where
  "saving env n v k s = (case save_task env n v (fst s) of (Inl err, g) \<Rightarrow> ((v, Inl err), (g, snd s)) | (Inr _, g) \<Rightarrow> k (g, snd s))"

definition get_task :: "string \<Rightarrow> agent \<Rightarrow> Task result \<times> agent" where
  "get_task i g = (case GetTask i (ag_store g) of (r, d) \<Rightarrow> (r, g\<lparr>ag_store := d\<rparr>))"

definition get_session :: "string \<Rightarrow> agent \<Rightarrow> Session result \<times> agent" where
  "get_session i g = (case GetSession i (ag_store g) of (r, d) \<Rightarrow> (r, g\<lparr>ag_store := d\<rparr>))"

definition update_session :: "string \<Rightarrow> (Session \<Rightarrow> Session result) \<Rightarrow> agent \<Rightarrow> unit result \<times> agent" where
  "update_session i f g = (case UpdateSession i (Some f) (ag_store g) of (r, d) \<Rightarrow> (map_sum id (\<lambda>_. ()) r, g\<lparr>ag_store := d\<rparr>))"

text \<open>How a task refers to an event of its trace.\<close>

definition evidence_ref :: "Task \<Rightarrow> Event \<Rightarrow> string" where
  "evidence_ref v ev = ''trace://'' @ t_ID v @ ''/'' @ itoa (uint (ev_Sequence ev))"

subsection \<open>Reasoning step by step\<close>

text \<open>The task stored under an id. An agent function changes it only by saving.\<close>

definition task_at :: "string \<Rightarrow> agent \<Rightarrow> Task option" where
  "task_at i g = (case files (ag_store g) (store_path ''tasks'' i) of Some (Valid (TaskDoc t)) \<Rightarrow> Some t | _ \<Rightarrow> None)"

text \<open>What a failed or successful save of \<open>v\<close> may have done: nothing, or \<open>v\<close> is stored.\<close>

definition saved :: "Task \<Rightarrow> agent \<Rightarrow> agent \<Rightarrow> bool" where
  "saved v g g' \<longleftrightarrow> (\<forall>i. task_at i g' = (if i = t_ID v then Some v else task_at i g))"

definition same_tasks :: "agent \<Rightarrow> agent \<Rightarrow> bool" where
  "same_tasks g g' \<longleftrightarrow> (\<forall>i. task_at i g' = task_at i g)"

lemma same_tasks_refl [simp]: "same_tasks g g"
  by (simp add: same_tasks_def)

lemma same_tasks_trans: "same_tasks g h \<Longrightarrow> same_tasks h k \<Longrightarrow> same_tasks g k"
  by (simp add: same_tasks_def)

lemma trace_event_tasks: "trace_event env n v typ x g = (r, g') \<Longrightarrow> same_tasks g g'"
  using trace_event_keeps [of env n v "typ" x g r g'] by (simp add: same_tasks_def task_at_def)

lemma store_path_kind: "store_path ''tasks'' i = store_path ''tasks'' j \<longleftrightarrow> i = j" "store_path ''sessions'' i \<noteq> store_path ''tasks'' j"
  by (simp_all add: store_path_def)

lemma save_task_cases:
  assumes "save_task env n v g = (r, g')"
  obtains (kept) err where "r = Inl err" "same_tasks g g'" | (written) "saved v g g'"
proof -
  from assms obtain d where d: "SaveTask (pe_clock env n) v (ag_store g) = (r, d)" "g' = g\<lparr>ag_store := d\<rparr>"
    by (auto simp: save_task_def split: prod.splits)
  from SaveTask_effect [OF d(1)] show ?thesis
  proof
    assume *: "files d = files (ag_store g) \<and> \<not> is_ok r"
    then obtain err where "r = Inl err" by (cases r) auto
    with * d(2) show ?thesis by (intro kept) (auto simp: same_tasks_def task_at_def)
  next
    assume "files d = (files (ag_store g))(store_path ''tasks'' (t_ID v) \<mapsto> Valid (TaskDoc v))
      \<and> (files (ag_store g) (store_path ''tasks'' (t_ID v)) = None
         \<or> (\<exists>t. files (ag_store g) (store_path ''tasks'' (t_ID v)) = Some (Valid (TaskDoc t)) \<and> validateTaskWrite (pe_clock env n) t v = Inr ()))"
    with d(2) show ?thesis by (intro written) (auto simp: saved_def task_at_def store_path_kind)
  qed
qed

lemma get_doc_files: "get_doc pick k i d = (r, d') \<Longrightarrow> files d' = files d"
  by (auto simp: get_doc_def split: prod.splits if_splits sum.splits dest!: syscall_files loadLocked_files)

lemma get_doc_Inr: "get_doc pick k i d = (Inr x, d') \<Longrightarrow> \<exists>v. files d (store_path k i) = Some (Valid v) \<and> pick v = Some x"
  by (auto simp: get_doc_def split: prod.splits if_splits sum.splits dest!: syscall_files loadLocked_Inr)

lemma get_task_tasks: "get_task i g = (r, g') \<Longrightarrow> same_tasks g g'"
  by (auto simp: get_task_def GetTask_def same_tasks_def task_at_def split: prod.splits dest: get_doc_files)

lemma get_task_ok: "get_task i g = (Inr v, g') \<Longrightarrow> task_at i g = Some v"
  by (auto simp: get_task_def GetTask_def task_at_def split: prod.splits dest!: get_doc_Inr)

lemma get_session_tasks: "get_session i g = (r, g') \<Longrightarrow> same_tasks g g'"
  by (auto simp: get_session_def GetSession_def same_tasks_def task_at_def split: prod.splits dest: get_doc_files)

lemma update_session_tasks:
  assumes "update_session i f g = (r, g')"
  shows "same_tasks g g'"
proof -
  from assms obtain x d where d: "UpdateSession i (Some f) (ag_store g) = (x, d)" "g' = g\<lparr>ag_store := d\<rparr>"
    by (auto simp: update_session_def split: prod.splits)
  from UpdateSession_changes [OF d(1)] have "files d (store_path ''tasks'' j) = files (ag_store g) (store_path ''tasks'' j)" for j
    by (auto simp: store_path_kind dest!: changes_outside [where k = "store_path ''tasks'' j"])
  with d(2) show ?thesis by (simp add: same_tasks_def task_at_def)
qed

text \<open>The two rules by which a property of an agent function is reduced to its steps.\<close>

lemma appending_post:
  assumes "\<And>err g. same_tasks (fst s) g \<Longrightarrow> Q ((v, Inl err), g, snd s)" "\<And>e g. same_tasks (fst s) g \<Longrightarrow> Q (k e (g, snd s))"
  shows "Q (appending env n v typ data k s)"
  using assms trace_event_tasks [of env n v "typ" data "fst s"] by (auto simp: appending_def split: prod.splits sum.splits)

lemma saving_post:
  assumes "\<And>err g. same_tasks (fst s) g \<or> saved v (fst s) g \<Longrightarrow> Q ((v, Inl err), g, snd s)" "\<And>g. saved v (fst s) g \<Longrightarrow> Q (k (g, snd s))"
  shows "Q (saving env n v k s)"
proof -
  obtain r g where s: "save_task env n v (fst s) = (r, g)" by (cases "save_task env n v (fst s)")
  from s show ?thesis
  proof (cases rule: save_task_cases)
    case (kept err)
    with s assms(1) show ?thesis by (simp add: saving_def)
  next
    case written
    with s assms show ?thesis by (auto simp: saving_def split: sum.split)
  qed
qed

text \<open>All tasks but one are as before, and that one is as before or has reached one of the given states.\<close>

definition moved :: "State set \<Rightarrow> string \<Rightarrow> agent \<Rightarrow> agent \<Rightarrow> bool" where
  "moved S i g g' \<longleftrightarrow> (\<forall>j. j \<noteq> i \<longrightarrow> task_at j g' = task_at j g)
     \<and> (task_at i g' = task_at i g \<or> (\<exists>t. task_at i g' = Some t \<and> t_ID t = i \<and> t_State t \<in> S))"

lemma moved_same: "same_tasks g g' \<Longrightarrow> moved S i g g'"
  by (simp add: moved_def same_tasks_def)

lemma moved_saved: "saved v g g' \<Longrightarrow> t_ID v = i \<Longrightarrow> t_State v \<in> S \<Longrightarrow> moved S i g g'"
  by (auto simp: moved_def saved_def)

lemma moved_trans: "moved S i g h \<Longrightarrow> moved S i h k \<Longrightarrow> moved S i g k"
  unfolding moved_def by metis

lemma moved_mono: "moved S i g h \<Longrightarrow> S \<subseteq> S' \<Longrightarrow> moved S' i g h"
  unfolding moved_def by blast

text \<open>A function that only moves the task of the given id and leaves the rest of the state alone.\<close>

definition calm :: "State set \<Rightarrow> string \<Rightarrow> agent \<times> 'x \<Rightarrow> ('a, 'x) agent_result \<Rightarrow> bool" where
  "calm S i s r \<longleftrightarrow> moved S i (fst s) (fst (snd r)) \<and> snd (snd r) = snd s"

lemma calm_done [intro]: "calm S i s (x, s)"
  by (simp add: calm_def moved_same)

lemma calm_same: "same_tasks (fst s) g \<Longrightarrow> calm S i (g, snd s) r \<Longrightarrow> calm S i s r"
  using moved_trans [OF moved_same] by (auto simp: calm_def)

lemma calm_appending: "(\<And>e s. calm S i s (k e s)) \<Longrightarrow> calm S i s (appending env n v typ data k s)"
  by (rule appending_post) (auto simp: calm_def intro: moved_same moved_trans [OF moved_same])

lemma calm_saving: "t_ID v = i \<Longrightarrow> t_State v \<in> S \<Longrightarrow> (\<And>s. calm S i s (k s)) \<Longrightarrow> calm S i s (saving env n v k s)"
  by (rule saving_post) (auto simp: calm_def intro: moved_same moved_saved moved_trans [OF moved_saved])

lemma calm_trace: "calm S i s ((v, r), snd (trace_event env n v' typ x g), snd s)" if "moved S i (fst s) g"
  using that moved_trans [OF that moved_same [OF trace_event_tasks]] by (auto simp: calm_def) (metis prod.collapse)

end
