(* ===== verification/Managed.thy ===== *)
theory Managed
  imports Session_Context Runtime Schema Agent
begin

text \<open>
  \<open>internal/agent/managed_action.go\<close>: how a write requested by the planner reaches the action preparer. The action must be one of two fixed ones, the
  operator must have asked for it in words, for exactly this target, and the evidence collected so far must show the
  target. The snapshots come from the interface \<open>MutationTargetSnapshotter\<close>, a function on a state of its own. Events for the user interface are
  left out. A duplicate \<open>strings.TrimSpace\<close> is written where the source has it.
\<close>

subsection \<open>Patterns\<close>

text \<open>
  The parts that the patterns share. The Chinese words are listed by code point: refusals (do not, must not, need not, cannot), the verbs
  restart and terminate, the words that introduce a request (please, help me, then, and, if needed), \<open>how to\<close>, \<open>safely\<close>, \<open>this\<close>, \<open>process\<close>.
\<close>

definition name_rune :: regex where
  "name_rune = Class True [(0x61, 0x7A), (0x30, 0x39), (0x5F, 0x5F), (0x2E, 0x2E), (0x40, 0x40), (0x2D, 0x2D)]"
definition not_end_cn :: regex where
  "not_end_cn = Class False [(0x3002, 0x3002), (0xFF01, 0xFF01), (0xFF1F, 0xFF1F), (0x21, 0x21), (0x3F, 0x3F), (0x0A, 0x0A)]"
definition not_end_en :: regex where
  "not_end_en = Class False [(0x2E, 0x2E), (0x21, 0x21), (0x3F, 0x3F), (0x0A, 0x0A)]"
definition refusal_cn :: regex where
  "refusal_cn = alts [lit [0x4E0D, 0x8981], lit [0x522B], lit [0x4E0D, 0x5F97], lit [0x7981, 0x6B62], lit [0x65E0, 0x9700], lit [0x4E0D, 0x9700], lit [0x4E0D, 0x5E94],
     lit [0x4E0D, 0x80FD], lit [0x4E0D, 0x53EF]]"
definition refusal_en :: regex where
  "refusal_en = alts [asc ''do not'', lit [0x64, 0x6F, 0x6E, 0x27, 0x74], asc ''dont'', asc ''never'', asc ''must not'', asc ''should not'', asc ''cannot'',
     lit [0x63, 0x61, 0x6E, 0x27, 0x74]]"
definition howto_cn :: regex where
  "howto_cn = alts [lit [0x5982, 0x4F55], lit [0x600E, 0x4E48], lit [0x600E, 0x6837]]"
definition safely_cn :: regex where
  "safely_cn = lit [0x5B89, 0x5168, 0x5730]"
definition this_cn :: regex where
  "this_cn = alts [lit [0x8BE5], lit [0x8FD9, 0x4E2A], lit [0x76EE, 0x6807]]"
definition process_cn :: regex where
  "process_cn = lit [0x8FDB, 0x7A0B]"
definition restart_cn :: regex where
  "restart_cn = alts [lit [0x91CD, 0x542F], lit [0x91CD, 0x65B0, 0x542F, 0x52A8]]"
definition stop_cn :: regex where
  "stop_cn = alts [lit [0x7EC8, 0x6B62], lit [0x7ED3, 0x675F], lit [0x505C, 0x6B62], lit [0x6740, 0x6389], lit [0x6740, 0x6B7B]]"
definition stop_en :: regex where
  "stop_en = alts [asc ''terminate'', asc ''kill'', asc ''stop'']"
definition clause_cn :: regex where
  "clause_cn = seqs [Class True [(0xFF0C, 0xFF0C), (0x2C, 0x2C), (0x3B, 0x3B), (0xFF1B, 0xFF1B), (0x3002, 0x3002), (0x2E, 0x2E), (0x21, 0x21)], Many white]"
definition clause_en :: regex where
  "clause_en = seqs [Class True [(0x3B, 0x3B), (0x2C, 0x2C), (0x2E, 0x2E)], Many white]"
definition service_request_cn :: regex where
  "service_request_cn = alts [Begin, clause_cn, alts [lit [0x8BF7], lit [0x5E2E, 0x6211], lit [0x7136, 0x540E], lit [0x4E4B, 0x540E], lit [0x5E76], lit [0x518D],
     lit [0x786E, 0x8BA4, 0x540E], lit [0x5FC5, 0x8981, 0x65F6], lit [0x9700, 0x8981, 0x65F6], lit [0x5B89, 0x5168, 0x65F6], lit [0x68C0, 0x67E5, 0x540E]]]"
definition process_request_cn :: regex where
  "process_request_cn = alts [Begin, clause_cn, alts [lit [0x8BF7], lit [0x5E2E, 0x6211], lit [0x7136, 0x540E], lit [0x4E4B, 0x540E], lit [0x5E76], lit [0x518D],
     lit [0x786E, 0x8BA4, 0x540E], lit [0x5FC5, 0x8981, 0x65F6], lit [0x68C0, 0x67E5, 0x540E]]]"
definition request_en :: regex where
  "request_en = alts [Begin, clause_en, seqs [Boundary, alts [asc ''please'', asc ''then'', asc ''and'', asc ''also''], many1 white], seqs [Boundary, alts [asc ''can'',
     asc ''could'', asc ''would'', asc ''will''], many1 white, asc ''you'', many1 white], seqs [Boundary, asc ''i'', many1 white, alts [asc ''want'', asc ''need''],
     many1 white, asc ''you'', many1 white, asc ''to'', many1 white]]"
definition optional_the :: regex where
  "optional_the = opt (seqs [asc ''the'', many1 white])"
definition separator :: regex where
  "separator = seqs [Many white, opt (Class True [(0x3A, 0x3A), (0x23, 0x23), (0x3D, 0x3D)]), Many white]"

definition managedServiceNegative :: regex where
  "managedServiceNegative = alts [seqs [refusal_cn, upto_times 32 not_end_cn, restart_cn], seqs [refusal_en, upto_times 64 not_end_en, Boundary, asc ''restart'', opt (asc ''ing''), Boundary],
     seqs [Boundary, asc ''without'', upto_times 32 not_end_en, Boundary, asc ''restarting'', Boundary], seqs [alts [asc ''no'', asc ''avoid''], many1 white,
     opt (seqs [asc ''service'', many1 white]), asc ''restart'', opt (asc ''ing''), Boundary]]"

definition managedServiceReadOnly :: regex where
  "managedServiceReadOnly = alts [seqs [howto_cn, opt safely_cn, restart_cn], seqs [restart_cn, upto_times 16 any_rune, alts [lit [0x6B21, 0x6570], lit [0x8BA1, 0x6570], lit [0x5386, 0x53F2],
     lit [0x8BB0, 0x5F55], lit [0x539F, 0x56E0], lit [0x5F71, 0x54CD], lit [0x98CE, 0x9669], lit [0x6B65, 0x9AA4], lit [0x65B9, 0x6CD5], lit [0x5EFA, 0x8BAE]]],
     seqs [Boundary, asc ''how'', many1 white, asc ''to'', many1 white, asc ''restart'', Boundary], seqs [Boundary, asc ''restart'', opt (alts [asc ''ing'', asc ''ed'',
     asc ''s'']), Boundary, upto_times 32 any_rune, Boundary, alts [asc ''count'', asc ''history'', asc ''record'', asc ''reason'', asc ''impact'', asc ''risk'',
     seqs [asc ''step'', opt (asc ''s'')], asc ''procedure'', asc ''recommendation'', seqs [asc ''metric'', opt (asc ''s'')]], Boundary]]"

definition managedServiceChinese :: regex where
  "managedServiceChinese = seqs [service_request_cn, Many white, restart_cn, Many white, Group (many1 name_rune)]"

definition managedServiceEnglish :: regex where
  "managedServiceEnglish = seqs [request_en, asc ''restart'', many1 white, optional_the, Group (many1 name_rune)]"

definition managedProcessNegative :: regex where
  "managedProcessNegative = alts [seqs [refusal_cn, upto_times 32 not_end_cn, alts [lit [0x7EC8, 0x6B62], lit [0x7ED3, 0x675F], lit [0x505C, 0x6B62], lit [0x6740, 0x6389], lit [0x6740, 0x6B7B],
     lit [0x6740]], opt this_cn, process_cn], seqs [refusal_en, upto_times 64 not_end_en, Boundary, stop_en, opt (asc ''ing''), Boundary], seqs [Boundary,
     asc ''without'', upto_times 32 not_end_en, Boundary, alts [asc ''terminating'', asc ''killing'', asc ''stopping''], Boundary], seqs [alts [asc ''no'',
     asc ''avoid''], many1 white, opt (seqs [asc ''process'', many1 white]), alts [asc ''termination'', asc ''killing'', asc ''stopping''], Boundary]]"

definition managedProcessReadOnly :: regex where
  "managedProcessReadOnly = alts [seqs [howto_cn, opt safely_cn, stop_cn, upto_times 8 any_rune, process_cn], seqs [stop_cn, upto_times 16 any_rune, alts [lit [0x5386, 0x53F2],
     lit [0x8BB0, 0x5F55], lit [0x539F, 0x56E0], lit [0x5F71, 0x54CD], lit [0x98CE, 0x9669], lit [0x6B65, 0x9AA4], lit [0x65B9, 0x6CD5], lit [0x5EFA, 0x8BAE]]],
     seqs [Boundary, asc ''how'', many1 white, asc ''to'', many1 white, stop_en, Boundary], seqs [Boundary, stop_en, opt (alts [asc ''ping'', asc ''ped'', asc ''s'']),
     Boundary, upto_times 32 any_rune, Boundary, alts [asc ''history'', asc ''record'', asc ''reason'', asc ''impact'', asc ''risk'', seqs [asc ''step'',
     opt (asc ''s'')], asc ''procedure'', asc ''recommendation'', seqs [asc ''metric'', opt (asc ''s'')]], Boundary]]"

definition managedProcessChinese :: regex where
  "managedProcessChinese = seqs [process_request_cn, Many white, stop_cn, Many white, opt this_cn, process_cn]"

definition managedProcessEnglish :: regex where
  "managedProcessEnglish = seqs [request_en, stop_en, many1 white, optional_the, alts [asc ''process'', seqs [asc ''pid'', Boundary], seqs [many1 name_rune, many1 white, asc ''process'',
     Boundary]]]"

definition managedProcessTargetCN :: regex where
  "managedProcessTargetCN = seqs [process_request_cn, Many white, stop_cn, Many white, alts [seqs [opt this_cn, process_cn], asc ''pid''], Many white, opt (Class True [(0x3A, 0x3A), (0x23,
     0x23), (0x3D, 0x3D)]), Many white, Group (many1 (Class True [(0x30, 0x39)])), Boundary]"

definition managedProcessTargetEN :: regex where
  "managedProcessTargetEN = seqs [request_en, stop_en, many1 white, optional_the, alts [alts [asc ''process'', asc ''pid''], seqs [many1 name_rune, many1 white, asc ''process'']], Many white,
     opt (Class True [(0x3A, 0x3A), (0x23, 0x23), (0x3D, 0x3D)]), Many white, Group (many1 (Class True [(0x30, 0x39)])), Boundary]"

text \<open>\<open>processTargetPattern\<close> has two groups; the model has the pattern once for each.\<close>

definition digit_rune :: regex where "digit_rune = Class True [(0x30, 0x39)]"

definition processTargetPattern :: "bool \<Rightarrow> regex" where
  "processTargetPattern first =
     (let pid = seqs [Class True [(0x31, 0x39)], upto_times 9 digit_rune]; start = seqs [digit_rune, upto_times 19 digit_rune]
      in seqs [Begin, asc ''pid:'', if first then Group pid else pid, asc '':start:'', if first then start else Group start, End])"

subsection \<open>The two actions\<close>

record 'x snapshotter =
  mt_SnapshotProcess :: "string \<Rightarrow> int \<Rightarrow> 'x \<Rightarrow> TargetSnapshot result \<times> 'x"
  mt_SnapshotService :: "string \<Rightarrow> string \<Rightarrow> 'x \<Rightarrow> TargetSnapshot result \<times> 'x"

text \<open>\<open>Actions\<close> and \<open>ActionTargets\<close> of the orchestrator.\<close>

record 'x managed =
  mg_Actions :: "ActionPreparer option"
  mg_ActionTargets :: "'x snapshotter option"

text \<open>Quotation marks in the schema are written by their code.\<close>

definition unquote :: "string \<Rightarrow> string" where
  "unquote = map (\<lambda>c. if c = CHR ''~'' then CHR 0x22 else c)"

definition managedServiceNoArgsSchema :: string where
  "managedServiceNoArgsSchema = unquote ''{~type~:~object~,~properties~:{},~additionalProperties~:false}''"

definition managedProcessSchema :: string where
  "managedProcessSchema = unquote ''{~type~:~object~,~properties~:{~pid~:{~type~:~integer~,~minimum~:2,~maximum~:4194304}},~required~:[~pid~],~additionalProperties~:false}''"

definition managedActionCapabilities :: "'x managed \<Rightarrow> ManagedActionCapability list" where
  "managedActionCapabilities mg =
     (if mg_Actions mg = None \<or> mg_ActionTargets mg = None then []
      else [\<lparr>ma_Name = ''service.restart'',
             ma_Description = ''Request approval to restart one allowlisted systemd service. The operator request and MCP evidence must name the same exact unit (the operator may omit .service). target.type must be service, target.id must be that unit, and arguments must be empty.'',
             ma_TargetType = ''service'', ma_InputSchema = managedServiceNoArgsSchema, ma_ApprovalRequired = True, ma_Reversible = False,
             ma_RollbackStrategy = [], ma_RequiresEvidence = True,
             ma_ExecutionBoundary = ''fixed SafeOps service.restart handler; unit comes from revalidated target snapshot; no shell or model command string''\<rparr>,
            \<lparr>ma_Name = ''process.terminate'',
             ma_Description = ''Request approval to send fixed SIGTERM to one allowlisted process. The operator request must name the same PID as the MCP evidence. target.type must be process, target.id must be pid:<pid>:start:<start_ticks>, and arguments.pid must match target.id.'',
             ma_TargetType = ''process'', ma_InputSchema = managedProcessSchema, ma_ApprovalRequired = True, ma_Reversible = False,
             ma_RollbackStrategy = [], ma_RequiresEvidence = True,
             ma_ExecutionBoundary = ''fixed SafeOps process.terminate handler; PID/start/executable snapshot is revalidated; no shell, SIGKILL, or model command string''\<rparr>])"

definition managedActionByName :: "ManagedActionCapability list \<Rightarrow> string \<Rightarrow> ManagedActionCapability option" where
  "managedActionByName cs name = find (\<lambda>c. ma_Name c = name) cs"

subsection \<open>What the operator asked for\<close>

definition containsAny :: "string \<Rightarrow> string list \<Rightarrow> bool" where
  "containsAny v candidates = list_ex (Contains v) candidates"

definition read_only_phrases :: "string list" \<comment> \<open>do not execute, do not operate, execution forbidden, only check (2), only look (2), read only, only advise (2)\<close> where
  "read_only_phrases = map hx [''e4b88de8a681e689a7e8a18c'', ''e4b88de8a681e6938de4bd9c'', ''e7a681e6ada2e689a7e8a18c'', ''e58faae6a380e69fa5'', ''e4bb85e6a380e69fa5'',
      ''e58faae69fa5e79c8b'', ''e4bb85e69fa5e79c8b'', ''e58faae8afbb'', ''e58faae5bbbae8aeae'', ''e4bb85e5bbbae8aeae'']
     @ [''do not execute'', ''don'' @ [CHR 0x27] @ ''t execute'', ''do not act'', ''read only'', ''read-only'', ''only inspect'', ''only check'', ''advice only'']"

definition managedActionIntentAllows :: "string \<Rightarrow> string \<Rightarrow> bool" where
  "managedActionIntentAllows request tool =
     (let request = ToLower (TrimSpace request) in
      if containsAny request read_only_phrases then False
      else if tool = ''service.restart'' then
        (if MatchString managedServiceNegative request \<or> MatchString managedServiceReadOnly request then False
         else MatchString managedServiceChinese request \<or> MatchString managedServiceEnglish request)
      else if tool = ''process.terminate'' then
        (if MatchString managedProcessNegative request \<or> MatchString managedProcessReadOnly request then False
         else MatchString managedProcessChinese request \<or> MatchString managedProcessEnglish request)
      else False)"

definition service_aliases :: "string list \<Rightarrow> string list" where
  "service_aliases names =
     concat (map (\<lambda>n. let n = ToLower (TrimSpace n) in if n = [] then [] else [n, TrimSuffix n ''.service'']) names)"

text \<open>\<open>strconv.Atoi\<close>, \<open>ParseInt(..., 10, 32)\<close> and \<open>ParseUint(..., 10, 64)\<close> on a text of digits.\<close>

definition digits_value :: "string \<Rightarrow> int" where
  "digits_value = foldl (\<lambda>n c. 10 * n + (of_char c - 48)) 0"

definition parse_digits :: "nat \<Rightarrow> string \<Rightarrow> int option" where
  "parse_digits bits s = (let n = digits_value s in if n < 2 ^ bits then Some n else None)"

definition managedActionRequestTargets :: "string \<Rightarrow> string \<Rightarrow> TargetRef \<Rightarrow> TargetSnapshot \<Rightarrow> bool" where
  "managedActionRequestTargets request tool target snapshot =
     (let request = ToLower (TrimSpace request) in
      if tool = ''service.restart'' then
        list_ex (\<lambda>pattern. list_ex (\<lambda>g. TrimSpace g \<in> set (service_aliases [tr_ID target, ts_ServiceName snapshot])) (all_groups pattern request))
          [managedServiceChinese, managedServiceEnglish]
      else if tool = ''process.terminate'' then
        list_ex (\<lambda>pattern. list_ex (\<lambda>g. parse_digits 63 g = Some (ts_PID snapshot)) (all_groups pattern request))
          [managedProcessTargetCN, managedProcessTargetEN]
      else False)"

subsection \<open>Identifying the target\<close>

definition parseManagedProcessTarget :: "string \<Rightarrow> (int \<times> uint64) result" where
  "parseManagedProcessTarget targetID =
     (let t = TrimSpace targetID in
      case (all_groups (processTargetPattern True) t, all_groups (processTargetPattern False) t) of
        (p # _, s # _) \<Rightarrow>
          (case parse_digits 31 p of
             None \<Rightarrow> Inl (ErrorNew ''process target pid is invalid'')
           | Some pid \<Rightarrow>
             if pid \<le> 1 then Inl (ErrorNew ''process target pid is invalid'')
             else (case parse_digits 64 s of
                None \<Rightarrow> Inl (ErrorNew ''process target start_ticks is invalid'')
              | Some n \<Rightarrow> if n = 0 then Inl (ErrorNew ''process target start_ticks is invalid'') else Inr (pid, word_of_int n)))
      | _ \<Rightarrow> Inl (ErrorNew ''process target id must be pid:<pid>:start:<start_ticks>''))"

text \<open>
  \<open>int(number)\<close> of a float: the range check lets \<open>2^63\<close> itself pass, whose conversion gives \<open>-2^63\<close> on amd64, so
  that the comparison after it fails. A float of the model is never NaN.
\<close>

definition float_of_int :: "int \<Rightarrow> float64" where "float_of_int n = (n, 0)"

definition float_trunc :: "float64 \<Rightarrow> int" where
  "float_trunc x = (case x of (a, b) \<Rightarrow> if 0 \<le> b then a * 2 ^ nat b else sgn a * (\<bar>a\<bar> div 2 ^ nat (- b)))"

definition integerArgument :: "schema_env \<Rightarrow> go_map \<Rightarrow> string \<Rightarrow> int result" where
  "integerArgument env arguments name =
     (case map_of arguments name of None \<Rightarrow> Inl (ErrorNew (name @ '' is required''))
      | Some v \<Rightarrow>
        (case numeric env (Some v) of None \<Rightarrow> Inl (ErrorNew (name @ '' must be an integer''))
         | Some n \<Rightarrow>
           if float_less (1, 63) n \<or> float_less n (- 1, 63) then Inl (ErrorNew (name @ '' is outside int range''))
           else if float_integral n \<and> float_less n (1, 63) then Inr (float_trunc n) else Inl (ErrorNew (name @ '' must be an integer''))))"

definition snapshotManagedActionTarget :: "'x snapshotter \<Rightarrow> schema_env \<Rightarrow> string \<Rightarrow> TargetRef \<Rightarrow> go_map \<Rightarrow> 'x \<Rightarrow> TargetSnapshot result \<times> 'x" where
  "snapshotManagedActionTarget targets env tool target arguments x =
     (if tool = ''service.restart'' then
        (if tr_ID target = [] then (Inl (ErrorNew ''service action target is required''), x)
         else mt_SnapshotService targets (tr_ID target) (tr_ID target) x)
      else if tool = ''process.terminate'' then
        (case parseManagedProcessTarget (tr_ID target) of Inl e \<Rightarrow> (Inl e, x)
         | Inr (pid, startTicks) \<Rightarrow>
           (case integerArgument env arguments ''pid'' of Inl e \<Rightarrow> (Inl e, x)
            | Inr argumentPID \<Rightarrow>
              if argumentPID \<noteq> pid then (Inl (ErrorNew ''process.terminate pid argument does not match target id''), x)
              else (case mt_SnapshotProcess targets (tr_ID target) pid x of (Inl e, x) \<Rightarrow> (Inl e, x)
                | (Inr snapshot, x) \<Rightarrow>
                  if ts_StartTicks snapshot \<noteq> startTicks then (Inl (ErrorNew ''TARGET_CHANGED: process start time no longer matches MCP evidence''), x)
                  else (Inr snapshot, x))))
      else (Inl (ErrorNew (''unsupported managed action '' @ tool)), x))"

subsection \<open>What the evidence shows\<close>

definition serviceEvidenceTool :: "string \<Rightarrow> bool" where
  "serviceEvidenceTool tool \<longleftrightarrow> tool \<in> set [''service.get_status'', ''service.list_failed'', ''service.get_restart_count'', ''diagnostic.port_conflict'', ''diagnostic.build_snapshot'']"

definition processEvidenceTool :: "string \<Rightarrow> bool" where
  "processEvidenceTool tool \<longleftrightarrow> tool \<in> set [''process.list_top'', ''process.search'', ''process.get_details'', ''process.get_resource_usage'', ''process.find_by_port'',
     ''network.check_port'', ''diagnostic.port_conflict'', ''diagnostic.high_cpu'', ''diagnostic.build_snapshot'']"

fun walkStructured :: "(go_map \<Rightarrow> bool) \<Rightarrow> json \<Rightarrow> bool" where
  "walkStructured match (JObj m) \<longleftrightarrow> match m \<or> list_ex (\<lambda>p. walkStructured match (snd p)) m"
| "walkStructured match (JArr xs) \<longleftrightarrow> list_ex (walkStructured match) xs"
| "walkStructured match _ \<longleftrightarrow> False"

definition structuredServiceIdentity :: "json \<Rightarrow> string list \<Rightarrow> bool" where
  "structuredServiceIdentity v names =
     (let wanted = filter (\<lambda>n. n \<noteq> []) (map (\<lambda>n. ToLower (TrimSpace n)) names) in
      walkStructured (\<lambda>object. list_ex (\<lambda>key. case map_of object key of Some (JStr name) \<Rightarrow> ToLower (TrimSpace name) \<in> set wanted | _ \<Rightarrow> False)
        [''name'', ''unit'', ''service_name'']) v)"

text \<open>\<open>float64(n)\<close> of a 64-bit unsigned number: rounded to 53 bits, to the even neighbour in a tie.\<close>

definition float_of_uint :: "int \<Rightarrow> float64" where
  "float_of_uint n =
     (let k = length (takeWhile (\<lambda>i. 2 ^ 53 \<le> n div 2 ^ i) [0..<11]); q = n div 2 ^ k; r = n mod 2 ^ k
      in (if 2 * r > 2 ^ k \<or> 2 * r = 2 ^ k \<and> odd q then q + 1 else q, int k))"

definition float_eq :: "float64 \<Rightarrow> float64 \<Rightarrow> bool" where
  "float_eq x y \<longleftrightarrow> \<not> float_less x y \<and> \<not> float_less y x"

definition structuredProcessIdentity :: "schema_env \<Rightarrow> json \<Rightarrow> int \<Rightarrow> uint64 \<Rightarrow> bool" where
  "structuredProcessIdentity env v pid startTicks =
     walkStructured (\<lambda>object.
       case (numeric env (map_of object ''pid''), numeric env (map_of object ''start_ticks'')) of
         (Some observedPID, Some observedStart) \<Rightarrow> float_eq observedPID (float_of_int pid) \<and> float_eq observedStart (float_of_uint (uint startTicks))
       | _ \<Rightarrow> False) v"

definition observation_supports :: "schema_env \<Rightarrow> TargetRef \<Rightarrow> TargetSnapshot \<Rightarrow> RuntimeObservation \<Rightarrow> bool" where
  "observation_supports env target snapshot ob \<longleftrightarrow>
     TrimSpace (ob_EvidenceRef ob) \<noteq> []
     \<and> (case sv_Unmarshal env (ob_Result ob) of Inl _ \<Rightarrow> False
        | Inr structured \<Rightarrow>
          if tr_Type target = ''service'' then serviceEvidenceTool (ob_Tool ob) \<and> structuredServiceIdentity structured [tr_ID target, ts_ServiceName snapshot]
          else if tr_Type target = ''process'' then processEvidenceTool (ob_Tool ob) \<and> structuredProcessIdentity env structured (ts_PID snapshot) (ts_StartTicks snapshot)
          else False)"

definition managedActionEvidenceSupports :: "schema_env \<Rightarrow> Task \<Rightarrow> TargetRef \<Rightarrow> TargetSnapshot \<Rightarrow> bool" where
  "managedActionEvidenceSupports env v target snapshot \<longleftrightarrow> has_evidence v \<and> list_ex (observation_supports env target snapshot) (rc_Observations (t_Runtime v))"

end
