(* ===== verification/General.thy ===== *)
theory General
  imports Managed
begin

text \<open>
  \<open>internal/agent/general.go\<close>: the bounded investigation. The planner is asked again and again; it may read with a discovered tool, plan
  again, finish, or request one managed action. The planner, the tool servers and the target snapshots are functions on a state of their
  own, the clock readings and fresh ids of one round are its \<open>general_env\<close>. A round is a function; the loop
  is a \<open>partial_function\<close>, so that its termination is a theorem. Contexts are not cancelled from outside and events for the user interface
  are left out. Structured content is a decoded value, with the keys of a map in the order in which \<open>json.Marshal\<close> writes them.
\<close>

record CallToolResult =
  cr_IsError :: bool
  cr_StructuredContent :: "json option"
  cr_Text :: "string list"

record 'x Orchestrator =
  o_Capabilities :: "('x \<Rightarrow> ToolCapability list \<times> 'x) option"
  o_CallTool :: "string \<Rightarrow> string \<Rightarrow> go_map \<Rightarrow> 'x \<Rightarrow> CallToolResult result \<times> 'x"
  o_Decide :: "timestamp \<Rightarrow> DecisionRequest \<Rightarrow> 'x \<Rightarrow> Decision result \<times> 'x"
  o_Safety :: "(ActionProposal \<Rightarrow> PipelineResult) option"
  o_Managed :: "'x managed"
  o_Schema :: schema_env

record general_env =
  ge_io :: prep_env
  ge_prepare :: prep_env
  ge_proposalID :: string
  ge_msgID :: string

abbreviation ge_now :: "general_env \<Rightarrow> nat \<Rightarrow> timestamp" where "ge_now env n \<equiv> pe_clock (ge_io env) n"

text \<open>What a run fixes before the loop.\<close>

record general_context =
  gc_Tools :: "ToolCapability list"
  gc_Actions :: "ManagedActionCapability list"
  gc_Session :: "SessionContext option"
  gc_Scope :: "generalReadScope option"

text \<open>\<open>errors.Is\<close>.\<close>

fun errorsIs :: "go_error \<Rightarrow> go_error \<Rightarrow> bool" where
  "errorsIs target (Wrapf t e) \<longleftrightarrow> Wrapf t e = target \<or> errorsIs target e"
| "errorsIs target (Joined es) \<longleftrightarrow> Joined es = target \<or> list_ex (errorsIs target) es"
| "errorsIs target e \<longleftrightarrow> e = target"

definition textResult :: "CallToolResult \<Rightarrow> string" where
  "textResult r = join ''; '' (cr_Text r)"

definition step_id :: "Task \<Rightarrow> string" where
  "step_id v = ''step_'' @ pad_nat 2 (length (t_Plan v) + 1)"

text \<open>\<open>value.Plan = append(value.Plan, ...)\<close> and \<open>value.CurrentStep = len(value.Plan) - 1\<close>.\<close>

definition add_step :: "string \<Rightarrow> string \<Rightarrow> string \<Rightarrow> Task \<Rightarrow> Task" where
  "add_step description tool st v =
     v\<lparr>t_Plan := t_Plan v @ [\<lparr>st_ID = step_id v, st_Description = description, st_Tool = tool, st_State = st\<rparr>], t_CurrentStep := int (length (t_Plan v))\<rparr>"

definition last_step :: "string \<Rightarrow> Task \<Rightarrow> Task" where
  "last_step st v = (if t_Plan v = [] then v else v\<lparr>t_Plan := butlast (t_Plan v) @ [(last (t_Plan v))\<lparr>st_State := st\<rparr>]\<rparr>)"

subsection \<open>A managed action\<close>

definition txt_managed_step :: string \<comment> \<open>request a managed write action\<close> where
  "txt_managed_step = hx ''e794b3e8afb7e58f97e7aea1e58699e58aa8e4bd9c''"

definition managed_target :: "Decision \<Rightarrow> TargetRef" where
  "managed_target d = \<lparr>tr_Type = ToLower (TrimSpace (at_Type (de_Target d))), tr_ID = TrimSpace (at_ID (de_Target d)), tr_Criticality = TrimSpace (at_Criticality (de_Target d))\<rparr>"

definition managed_proposal :: "general_env \<Rightarrow> Task \<Rightarrow> ManagedActionCapability \<Rightarrow> go_map \<Rightarrow> TargetRef \<Rightarrow> string \<Rightarrow> ActionProposal" where
  "managed_proposal env v cap arguments target description =
     \<lparr>ap_ProposalID = ge_proposalID env, ap_TaskID = t_ID v, ap_SessionID = t_SessionID v, ap_Tool = ma_Name cap, ap_Effect = Write, ap_Arguments = Some arguments,
      ap_Target = target, ap_BatchSize = 1, ap_Reversible = ma_Reversible cap, ap_RollbackStrategy = ma_RollbackStrategy cap, ap_LabMode = True, ap_SystemState = [],
      ap_Intent = \<lparr>ic_OriginalRequest = t_OriginalRequest v, ic_Objective = t_Objective v, ic_ObjectiveTargets = [target], ic_PlanStep = description,
        ic_PlanTargets = [target], ic_AuthorizedRelations = []\<rparr>\<rparr>"

text \<open>From the plan step on: record it and hand the proposal to the preparer.\<close>

definition submit_managed :: "ActionPreparer \<Rightarrow> general_env \<Rightarrow> Task \<Rightarrow> string \<Rightarrow> ManagedActionCapability \<Rightarrow> go_map \<Rightarrow> TargetRef \<Rightarrow> TargetSnapshot
    \<Rightarrow> agent \<times> 'x \<Rightarrow> (unit, 'x) agent_result" where
  "submit_managed pp env v summary cap arguments target snapshot s =
     (let description = (if TrimSpace summary = [] then txt_managed_step else TrimSpace summary);
          stepID = step_id v;
          v = add_step description (ma_Name cap) ''WAITING_APPROVAL'' v
      in saving (ge_io env) 50 v (appending (ge_io env) 51 v ''PLAN_CREATED''
           (JObj [(''strategy'', JStr ''managed_action_request''), (''step_id'', JStr stepID), (''tool'', JStr (ma_Name cap)), (''target'', json_target target),
                  (''completion_criteria'', JStr ''human-approved action executes against the same revalidated target snapshot'')])
           (\<lambda>_ s. case Prepare pp (ge_prepare env) v (managed_proposal env v cap arguments target description) snapshot (fst s) of
              ((w, r), g) \<Rightarrow> ((w, map_sum id (\<lambda>_. ()) r), g, snd s))) s)"

definition prepareGeneralManagedAction :: "'x managed \<Rightarrow> schema_env \<Rightarrow> general_env \<Rightarrow> Task \<Rightarrow> Decision \<Rightarrow> ManagedActionCapability list \<Rightarrow> agent \<times> 'x \<Rightarrow> (unit, 'x) agent_result" where
  "prepareGeneralManagedAction mg sv env v d capabilities s =
     (case (mg_Actions mg, mg_ActionTargets mg) of
        (Some pp, Some targets) \<Rightarrow>
          (case managedActionByName capabilities (TrimSpace (de_Tool d)) of
             None \<Rightarrow> ((v, Inl (ErrorNew (''planner selected unavailable managed action '' @ de_Tool d))), s)
           | Some cap \<Rightarrow>
             let arguments = (case de_Arguments d of None \<Rightarrow> [] | Some m \<Rightarrow> m) in
             (case validateToolArguments sv (ma_InputSchema cap) arguments of
                Inl err \<Rightarrow> ((v, Inl (Wrapf ''managed action arguments failed schema'' err)), s)
              | Inr _ \<Rightarrow>
                let target = managed_target d in
                if tr_Type target \<noteq> ma_TargetType cap then ((v, Inl (ErrorNew (''managed action '' @ ma_Name cap @ '' requires target type '' @ ma_TargetType cap))), s)
                else if \<not> managedActionIntentAllows (t_OriginalRequest v) (ma_Name cap)
                then ((v, Inl (ErrorNew (''operator request does not explicitly authorize managed action '' @ ma_Name cap))), s)
                else (case snapshotManagedActionTarget targets sv (ma_Name cap) target arguments (snd s) of
                   (Inl err, x) \<Rightarrow> ((v, Inl err), fst s, x)
                 | (Inr snapshot, x) \<Rightarrow>
                   if \<not> managedActionRequestTargets (t_OriginalRequest v) (ma_Name cap) target snapshot
                   then ((v, Inl (ErrorNew ''operator request does not identify the exact managed action target'')), fst s, x)
                   else if \<not> managedActionEvidenceSupports sv v target snapshot
                   then ((v, Inl (ErrorNew ''managed action target is not supported by prior MCP evidence'')), fst s, x)
                   else submit_managed pp env v (de_DecisionSummary d) cap arguments target snapshot (fst s, x))))
      | _ \<Rightarrow> ((v, Inl (ErrorNew ''managed write actions are not configured'')), s))"

subsection \<open>Completion\<close>

definition txt_general_summary :: string \<comment> \<open>finished the bounded multi-step read-only MCP investigation\<close> where
  "txt_general_summary = hx ''e5b7b2e5ae8ce68890e58f97e99990204d435020e5a49ae6ada5e9aaa4e58faae8afbbe8b083e69fa5''"

definition general_session :: "general_env \<Rightarrow> Task \<Rightarrow> string \<Rightarrow> Session \<Rightarrow> Session result" where
  "general_session env v answer s =
     Inr (s\<lparr>se_Messages := se_Messages s @ [\<lparr>ms_ID = ge_msgID env, ms_Role = RoleAssistant, ms_Content = answer, ms_TaskID = t_ID v, ms_CreatedAt = ge_now env 62\<rparr>],
            se_Summary := txt_general_summary,
            se_SelectedResources := (if t_SelectedResources v = [] then se_SelectedResources s else t_SelectedResources v),
            se_UpdatedAt := ge_now env 63\<rparr>)"

definition completeGeneral :: "general_env \<Rightarrow> Task \<Rightarrow> string \<Rightarrow> agent \<times> 'x \<Rightarrow> (unit, 'x) agent_result" where
  "completeGeneral env v answer s =
     (let answer = TrimSpace answer; v = Transition Completed (ge_now env 60) v in
      saving (ge_io env) 61 v (\<lambda>s.
        case update_session (t_SessionID v) (general_session env v answer) (fst s) of (Inl err, g) \<Rightarrow> ((v, Inl err), g, snd s)
        | (Inr _, g) \<Rightarrow>
          appending (ge_io env) 64 v ''TASK_COMPLETED'' (JObj [(''completion_criteria_met'', JBool True), (''evidence_count'', json_int (int (length (t_EvidenceRefs v))))])
            (\<lambda>_. appending (ge_io env) 65 v ''FINAL'' (JObj [(''answer'', JStr answer), (''evidence_refs'', json_slice (map JStr (t_EvidenceRefs v)))])
              (\<lambda>_ s. ((v, Inr ()), s))) (g, snd s)) s)"

subsection \<open>Calling a tool\<close>

definition txt_failed_finding :: "string \<Rightarrow> string \<Rightarrow> string \<Rightarrow> string" \<comment> \<open>the call failed and was recorded as recoverable evidence\<close> where
  "txt_failed_finding tool digest message = tool @ hx ''20e8b083e794a8e5a4b1e8b4a5efbc8ce5b7b2e8aeb0e5bd95e4b8bae58fafe681a2e5a48de8af81e68daeefbc88'' @ digest
     @ hx ''efbc89efbc9a'' @ message"

definition txt_finding :: "string \<Rightarrow> string \<Rightarrow> string" \<comment> \<open>the tool returned structured evidence\<close> where
  "txt_finding tool digest = tool @ hx ''20e8bf94e59b9ee7bb93e69e84e58c96e8af81e68daeefbc88'' @ digest @ hx ''efbc89''"

definition observation_of :: "Decision \<Rightarrow> string \<Rightarrow> string \<Rightarrow> string \<Rightarrow> RuntimeObservation" where
  "observation_of d arguments result ref =
     \<lparr>ob_ServerID = de_ServerID d, ob_Tool = de_Tool d, ob_Arguments = arguments, ob_Result = result, ob_EvidenceRef = ref, ob_Digest = []\<rparr>"

text \<open>
  What both outcomes of a call do with their observation: the last step gets its state, the task the evidence and the finding. The error of \<open>recordObservation\<close>
  is returned at the end, after everything is stored.
\<close>

definition keep_observation :: "general_env \<Rightarrow> Task \<Rightarrow> RuntimeObservation \<Rightarrow> string \<Rightarrow> string list \<Rightarrow> string \<Rightarrow> (string \<times> json) list \<Rightarrow> agent \<times> 'x \<Rightarrow> (unit, 'x) agent_result" where
  "keep_observation env v ob st steps finding extra s =
     (case recordObservation ob (t_Runtime v) of
        (observed, c) \<Rightarrow>
          let w = last_step st (v\<lparr>t_Runtime := c\<rparr>);
              w = w\<lparr>t_CompletedSteps := t_CompletedSteps w @ steps, t_EvidenceRefs := t_EvidenceRefs w @ [ob_EvidenceRef ob], t_Findings := t_Findings w @ [finding]\<rparr>
          in saving (ge_io env) 41 w (appending (ge_io env) 42 w ''FINDINGS_UPDATED''
               (JObj ([(''finding'', JStr finding), (''evidence_ref'', JStr (ob_EvidenceRef ob))] @ extra)) (\<lambda>_ s. ((w, observed), s))) s)"

definition recordGeneralToolFailure :: "general_env \<Rightarrow> Task \<Rightarrow> Decision \<Rightarrow> string \<Rightarrow> string \<Rightarrow> string \<Rightarrow> agent \<times> 'x \<Rightarrow> (unit, 'x) agent_result" where
  "recordGeneralToolFailure env v d arguments stepID message s =
     (let message = boundedToolError message;
          kept = bounded_value (json_map (Some [(''status'', JStr ''error''), (''server'', JStr (de_ServerID d)), (''tool'', JStr (de_Tool d)), (''error'', JStr message),
            (''recoverable'', JBool True),
            (''next_action'', JStr ''choose another relevant read-only MCP tool or explain this source limitation if enough evidence exists'')]))
      in appending (ge_io env) 40 v ''TOOL_RESULT''
           (JObj [(''server'', JStr (de_ServerID d)), (''tool'', JStr (de_Tool d)), (''structured_output'', kept), (''tool_error'', JBool True)])
           (\<lambda>ev. keep_observation env v (observation_of d arguments (json_text kept) (evidence_ref v ev)) ''FAILED'' []
              (txt_failed_finding (de_Tool d) (shortDigest (json_text kept)) message) [(''recoverable_tool_error'', JBool True), (''step_id'', JStr stepID)]) s)"

text \<open>The end of the loop's body, for a structured result.\<close>

definition recordGeneralResult :: "general_env \<Rightarrow> Task \<Rightarrow> Decision \<Rightarrow> string \<Rightarrow> string \<Rightarrow> json \<Rightarrow> agent \<times> 'x \<Rightarrow> (unit, 'x) agent_result" where
  "recordGeneralResult env v d arguments stepID structured s =
     (let v = captureSelectedResources (de_Tool d) structured v; kept = bounded_value structured
      in appending (ge_io env) 40 v ''TOOL_RESULT'' (JObj [(''server'', JStr (de_ServerID d)), (''tool'', JStr (de_Tool d)), (''structured_output'', kept)])
           (\<lambda>ev. keep_observation env v (observation_of d arguments (json_text kept) (evidence_ref v ev)) ''COMPLETED'' [stepID]
              (txt_finding (de_Tool d) (shortDigest (json_text kept))) []) s)"

definition general_proposal :: "general_env \<Rightarrow> Task \<Rightarrow> Decision \<Rightarrow> go_map \<Rightarrow> ActionProposal" where
  "general_proposal env v d arguments =
     (let target = \<lparr>tr_Type = ''host'', tr_ID = ''local'', tr_Criticality = []\<rparr> in
      \<lparr>ap_ProposalID = ge_proposalID env, ap_TaskID = t_ID v, ap_SessionID = t_SessionID v, ap_Tool = de_Tool d, ap_Effect = Read, ap_Arguments = Some arguments,
       ap_Target = target, ap_BatchSize = 1, ap_Reversible = False, ap_RollbackStrategy = [], ap_LabMode = False, ap_SystemState = [],
       ap_Intent = \<lparr>ic_OriginalRequest = t_OriginalRequest v, ic_Objective = t_Objective v, ic_ObjectiveTargets = [target], ic_PlanStep = de_DecisionSummary d,
         ic_PlanTargets = [target], ic_AuthorizedRelations = []\<rparr>\<rparr>)"

text \<open>Every way out of a call that does not end the run continues the loop.\<close>

definition continue_after :: "(unit, 'x) agent_result \<Rightarrow> (bool, 'x) agent_result" where
  "continue_after r = (case r of ((v, x), s) \<Rightarrow> ((v, map_sum id (\<lambda>_. True) x), s))"

definition return_after :: "(unit, 'x) agent_result \<Rightarrow> (bool, 'x) agent_result" where
  "return_after r = (case r of ((v, x), s) \<Rightarrow> ((v, map_sum id (\<lambda>_. False) x), s))"

definition call_tool :: "'x Orchestrator \<Rightarrow> general_env \<Rightarrow> Task \<Rightarrow> Decision \<Rightarrow> go_map \<Rightarrow> string \<Rightarrow> agent \<times> 'x \<Rightarrow> (bool, 'x) agent_result" where
  "call_tool o1 env v d arguments stepID s =
     (let text = json_text (json_map (Some arguments)) in
      appending (ge_io env) 39 v ''TOOL_CALL'' (JObj [(''server'', JStr (de_ServerID d)), (''tool'', JStr (de_Tool d)), (''arguments'', json_map (Some arguments))])
        (\<lambda>_ s. continue_after
           (case o_CallTool o1 (de_ServerID d) (de_Tool d) arguments (snd s) of
              (Inl err, x) \<Rightarrow> recordGeneralToolFailure env v d text stepID (pe_text (ge_io env) err) (fst s, x)
            | (Inr result, x) \<Rightarrow>
              if cr_IsError result then recordGeneralToolFailure env v d text stepID (textResult result) (fst s, x)
              else (case cr_StructuredContent result of
                  None \<Rightarrow> recordGeneralToolFailure env v d text stepID ''tool returned no structured content'' (fst s, x)
                | Some structured \<Rightarrow> recordGeneralResult env v d text stepID structured (fst s, x)))) s)"

text \<open>The safety pipeline decides before the call, and each decision is recorded before it can end the run.\<close>

definition guard_tool :: "'x Orchestrator \<Rightarrow> general_env \<Rightarrow> Task \<Rightarrow> Decision \<Rightarrow> go_map \<Rightarrow> string \<Rightarrow> agent \<times> 'x \<Rightarrow> (bool, 'x) agent_result" where
  "guard_tool o1 env v d arguments stepID s =
     (let p = general_proposal env v d arguments in
      case ActionProposal_Digest p of Inl err \<Rightarrow> ((v, Inl err), s)
      | Inr digest \<Rightarrow>
        appending (ge_io env) 35 v ''ACTION_PROPOSED''
          (JObj [(''proposal_id'', JStr (ap_ProposalID p)), (''tool'', JStr (ap_Tool p)), (''effect'', JStr (ap_Effect p)), (''target'', json_target (ap_Target p)),
                 (''proposal_digest'', JStr digest)])
          (\<lambda>_ s. case o_Safety o1 of None \<Rightarrow> ((v, Inl (ErrorNew ''safety pipeline is not configured'')), s)
           | Some evaluate \<Rightarrow>
             let safety = evaluate p in
             appending (ge_io env) 36 v ''STATIC_GUARD_RESULT'' (json_decision (pr_Static safety))
               (\<lambda>_ s. if gd_Outcome (pr_Static safety) = Deny
                  then ((v, Inl (ErrorNew (''static guard denied '' @ de_Tool d @ '': '' @ gd_Reason (pr_Static safety)))), s)
                  else appending (ge_io env) 37 v ''INTENT_GUARD_RESULT'' (json_intent_decision (pr_Intent safety))
                    (\<lambda>_ s. if id_Outcome (pr_Intent safety) = Deny
                       then ((v, Inl (ErrorNew (''intent guard denied '' @ de_Tool d @ '': '' @ id_Reason (pr_Intent safety)))), s)
                       else appending (ge_io env) 38 v ''RISK_EVALUATED'' (json_risk (pr_Risk safety))
                         (\<lambda>_ s. if gd_Outcome (pr_Final safety) \<noteq> Allow \<or> rr_Level (pr_Risk safety) \<noteq> L0
                            then ((v, Inl (ErrorNew (''general runtime only allows L0 reads; '' @ de_Tool d @ '' resolved to ''
                              @ outcome_text (gd_Outcome (pr_Final safety)) @ ''/'' @ rr_Level (pr_Risk safety)))), s)
                            else call_tool o1 env v d arguments stepID s) s) s) s) s)"

definition json_paths :: "string list \<Rightarrow> json" where "json_paths ps = JArr (map JStr ps)"

text \<open>A read outside the scope of the request is recorded, counts as a replan and is told to the planner.\<close>

definition scope_replan :: "general_env \<Rightarrow> Task \<Rightarrow> generalReadScope \<Rightarrow> readScopeViolation \<Rightarrow> agent \<times> 'x \<Rightarrow> (bool, 'x) agent_result" where
  "scope_replan env v scope violation s =
     (case recordReplan (appendRuntimeGuardFeedback (Some scope) violation (t_Runtime v)) of
        (replanErr, c) \<Rightarrow>
          let v = Transition Replanning (ge_now env 30) (v\<lparr>t_Runtime := c\<rparr>) in
          saving (ge_io env) 31 v
            (appending (ge_io env) 32 v ''INTENT_GUARD_RESULT''
               (JObj [(''outcome'', JStr ''DENY''), (''reason_code'', JStr (rv_Code violation)), (''reason'', JStr (rv_Summary violation)), (''selected_tool'', JStr (rv_Tool violation)),
                      (''attempted_path'', JStr (rv_AttemptedPath violation)), (''authorized_paths'', json_paths (gs_AuthorizedPaths scope)),
                      (''excluded_paths'', json_paths (gs_ExcludedPaths scope)), (''scope_source'', JStr (gs_Source scope)), (''replan_count'', json_int (rc_Replans c))])
               (\<lambda>_ s. case replanErr of Inl err \<Rightarrow> ((v, Inl err), s)
                | Inr _ \<Rightarrow>
                  appending (ge_io env) 33 v ''PLAN_CREATED''
                    (JObj [(''strategy'', JStr ''request-scope replan''), (''reason_code'', JStr (rv_Code violation)), (''authorized_paths'', json_paths (gs_AuthorizedPaths scope)),
                           (''excluded_paths'', json_paths (gs_ExcludedPaths scope)), (''replan_count'', json_int (rc_Replans c))])
                    (\<lambda>_ s. ((v, Inr True), s)) s)) s)"

definition tool_key :: "string \<Rightarrow> string \<Rightarrow> string" where
  "tool_key server name = server @ [CHR 0x00] @ name"

text \<open>A later capability with the same key replaces an earlier one.\<close>

definition available :: "ToolCapability list \<Rightarrow> string \<Rightarrow> ToolCapability option" where
  "available cs key = find (\<lambda>c. tool_key (tc_ServerID c) (tc_Name c) = key) (rev cs)"

definition decide_tool :: "'x Orchestrator \<Rightarrow> general_env \<Rightarrow> general_context \<Rightarrow> Task \<Rightarrow> Decision \<Rightarrow> agent \<times> 'x \<Rightarrow> (bool, 'x) agent_result" where
  "decide_tool o1 env ctx v d s =
     (case available (gc_Tools ctx) (tool_key (de_ServerID d) (de_Tool d)) of
        None \<Rightarrow> ((v, Inl (ErrorNew (''planner selected unavailable tool '' @ de_ServerID d @ ''/'' @ de_Tool d))), s)
      | Some cap \<Rightarrow>
        let arguments = (case de_Arguments d of None \<Rightarrow> [] | Some m \<Rightarrow> m) in
        (case validateToolArguments (o_Schema o1) (tc_InputSchema cap) arguments of
           Inl err \<Rightarrow> ((v, Inl (Wrapf ''tool arguments failed discovered schema'' err)), s)
         | Inr _ \<Rightarrow>
           (case (gc_Scope ctx, validateGeneralReadScope (gc_Scope ctx) (d\<lparr>de_Arguments := Some arguments\<rparr>)) of
              (Some scope, Some violation) \<Rightarrow> scope_replan env v scope violation s
            | _ \<Rightarrow>
              (case reserveToolCall (t_Runtime v) of
                 (Inl err, c) \<Rightarrow> ((v\<lparr>t_Runtime := c\<rparr>, Inl err), s)
               | (Inr _, c) \<Rightarrow>
                 let v = v\<lparr>t_Runtime := c\<rparr>; stepID = step_id v; v = add_step (de_DecisionSummary d) (de_Tool d) ''RUNNING'' v
                 in saving (ge_io env) 34 v (guard_tool o1 env v d arguments stepID) s))))"

subsection \<open>A round\<close>

definition decision_request :: "general_context \<Rightarrow> Task \<Rightarrow> bool \<Rightarrow> DecisionRequest" where
  "decision_request ctx v finalOnly =
     \<lparr>dr_Objective = t_Objective v, dr_OriginalRequest = t_OriginalRequest v, dr_FinalOnly = finalOnly, dr_SessionContext = gc_Session ctx,
      dr_Tools = (if finalOnly then [] else gc_Tools ctx), dr_ManagedActions = (if finalOnly then [] else gc_Actions ctx), dr_LocalReadScope = plannerReadScope (gc_Scope ctx),
      dr_GuardFeedback = plannerGuardFeedback (rc_GuardFeedback (t_Runtime v)), dr_Observations = plannerObservations (rc_Observations (t_Runtime v)),
      dr_Iteration = rc_Iterations (t_Runtime v), dr_ToolCalls = rc_ToolCalls (t_Runtime v)\<rparr>"

definition decide :: "'x Orchestrator \<Rightarrow> general_context \<Rightarrow> Task \<Rightarrow> bool \<Rightarrow> 'x \<Rightarrow> Decision result \<times> 'x" where
  "decide o1 ctx v finalOnly = o_Decide o1 (generalDecisionDeadline v finalOnly) (decision_request ctx v finalOnly)"

definition json_scope :: "generalReadScope \<Rightarrow> json" where
  "json_scope sc = JObj [(''resource_type'', JStr (gs_ResourceType sc)), (''authorized_paths'', json_paths (gs_AuthorizedPaths sc)),
     (''excluded_paths'', json_paths (gs_ExcludedPaths sc)), (''source'', JStr (gs_Source sc))]"

definition decision_record :: "general_context \<Rightarrow> Task \<Rightarrow> Decision \<Rightarrow> Decision \<Rightarrow> bool \<Rightarrow> bool \<Rightarrow> json" where
  "decision_record ctx v original d replanned finalOnly = JObj (
     [(''objective'', JStr (t_Objective v)), (''decision_kind'', JStr (kind_text (de_Kind d))), (''decision_summary'', JStr (de_DecisionSummary d)),
      (''selected_server'', JStr (de_ServerID d)), (''selected_tool'', JStr (de_Tool d)), (''target'', json_action_target (de_Target d)),
      (''expected_observation'', JStr (de_ExpectedObservation d)), (''final_only'', JBool finalOnly)]
     @ (case gc_Scope ctx of None \<Rightarrow> [] | Some sc \<Rightarrow> [(''local_read_scope'', json_scope sc)])
     @ (if replanned then [(''local_guardrail'', JStr ''replanned_decision_without_evidence''), (''planner_original_kind'', JStr (kind_text (de_Kind original))),
          (''planner_original_summary'', JStr (de_DecisionSummary original))] else []))"

definition general_replan :: "general_env \<Rightarrow> Task \<Rightarrow> Decision \<Rightarrow> agent \<times> 'x \<Rightarrow> (bool, 'x) agent_result" where
  "general_replan env v d s =
     (case recordReplan (t_Runtime v) of
        (Inl err, c) \<Rightarrow> ((v\<lparr>t_Runtime := c\<rparr>, Inl err), s)
      | (Inr _, c) \<Rightarrow>
        let v = Transition Replanning (ge_now env 20) (v\<lparr>t_Runtime := c\<rparr>) in
        saving (ge_io env) 21 v
          (appending (ge_io env) 22 v ''PLAN_CREATED''
             (JObj [(''strategy'', JStr ''replan''), (''summary'', JStr (de_DecisionSummary d)), (''replan_count'', json_int (rc_Replans c))])
             (\<lambda>_ s. ((v, Inr True), s))) s)"

text \<open>The switch on the kind of the decision; an unknown kind leaves the switch and goes on with the loop.\<close>

definition act_on :: "'x Orchestrator \<Rightarrow> general_env \<Rightarrow> general_context \<Rightarrow> Task \<Rightarrow> Decision \<Rightarrow> agent \<times> 'x \<Rightarrow> (bool, 'x) agent_result" where
  "act_on o1 env ctx v d s =
     (case de_Kind d of
        DecisionReplan \<Rightarrow> general_replan env v d s
      | DecisionFinal \<Rightarrow>
        if \<not> has_evidence v then ((v, Inl (ErrorNew ''completion gate rejected a final answer without MCP evidence'')), s)
        else return_after (completeGeneral env v (de_FinalAnswer d) s)
      | DecisionActionRequest \<Rightarrow> return_after (prepareGeneralManagedAction (o_Managed o1) (o_Schema o1) env v d (gc_Actions ctx) s)
      | DecisionTool \<Rightarrow> decide_tool o1 env ctx v d s
      | OtherKind _ \<Rightarrow> ((v, Inr True), s))"

definition on_decision :: "'x Orchestrator \<Rightarrow> general_env \<Rightarrow> general_context \<Rightarrow> Task \<Rightarrow> bool \<Rightarrow> Decision \<Rightarrow> agent \<times> 'x \<Rightarrow> (bool, 'x) agent_result" where
  "on_decision o1 env ctx v finalOnly original s =
     (if finalOnly \<and> de_Kind original \<noteq> DecisionFinal
      then ((v, Inl (ErrorNew (''planner returned '' @ kind_text (de_Kind original) @ '' while evidence-backed finalization was required''))), s)
      else (case replanWithoutEvidence original v of
         (d, replanned) \<Rightarrow> appending (ge_io env) 4 v ''DECISION_RECORDED'' (decision_record ctx v original d replanned finalOnly) (\<lambda>_. act_on o1 env ctx v d) s))"

text \<open>Past the cutoff, a planner that ran out of time or that did not finish is asked once more, for the final answer only.\<close>

definition past_cutoff :: "general_env \<Rightarrow> Task \<Rightarrow> bool \<Rightarrow> Decision result \<Rightarrow> bool" where
  "past_cutoff env v finalOnly r \<longleftrightarrow> \<not> finalOnly \<and> shouldFinalizeGeneral v (ge_now env 3)
     \<and> (case r of Inl err \<Rightarrow> errorsIs DeadlineExceeded err | Inr d \<Rightarrow> de_Kind d \<noteq> DecisionFinal)"

definition ask_planner :: "'x Orchestrator \<Rightarrow> general_env \<Rightarrow> general_context \<Rightarrow> Task \<Rightarrow> bool \<Rightarrow> 'x \<Rightarrow> (Decision result \<times> bool) \<times> 'x" where
  "ask_planner o1 env ctx v finalOnly x =
     (case decide o1 ctx v finalOnly x of
        (r, x) \<Rightarrow> if past_cutoff env v finalOnly r then (case decide o1 ctx v True x of (r, x) \<Rightarrow> ((r, True), x)) else ((r, finalOnly), x))"

definition generalRound :: "'x Orchestrator \<Rightarrow> general_env \<Rightarrow> general_context \<Rightarrow> Task \<Rightarrow> agent \<times> 'x \<Rightarrow> (bool, 'x) agent_result" where
  "generalRound o1 env ctx v s =
     (let now = ge_now env 0; v = v\<lparr>t_Runtime := initializeRuntime now (t_Runtime v)\<rparr>; finalOnly = shouldFinalizeGeneral v now in
      case beginGeneralDecision now finalOnly (t_Runtime v) of
        (Inl err, c) \<Rightarrow> ((v\<lparr>t_Runtime := c\<rparr>, Inl err), s)
      | (Inr _, c) \<Rightarrow>
        let v = v\<lparr>t_Runtime := c\<rparr> in
        if \<not> finalOnly \<and> gc_Tools ctx = [] then ((v, Inl (ErrorNew ''no healthy MCP tools are available'')), s)
        else let v = Transition Investigating (ge_now env 1) v in
          saving (ge_io env) 2 v
            (\<lambda>s. case ask_planner o1 env ctx v finalOnly (snd s) of
               ((Inl err, _), x) \<Rightarrow> ((v, Inl err), fst s, x)
             | ((Inr d, finalOnly), x) \<Rightarrow> on_decision o1 env ctx v finalOnly d (fst s, x)) s)"

subsection \<open>The loop\<close>

partial_function (option) generalLoop :: "'x Orchestrator \<Rightarrow> (nat \<Rightarrow> general_env) \<Rightarrow> general_context \<Rightarrow> nat \<Rightarrow> Task \<Rightarrow> agent \<times> 'x \<Rightarrow> (unit, 'x) agent_result option" where
  [code]: "generalLoop o1 envs ctx k v s =
     (case generalRound o1 (envs k) ctx v s of
        ((v, r), s) \<Rightarrow>
          (case r of Inl err \<Rightarrow> Some ((v, Inl err), s)
           | Inr again \<Rightarrow> if again then generalLoop o1 envs ctx (Suc k) v s else Some ((v, Inr ()), s)))"

definition plan_record :: "general_context \<Rightarrow> Task \<Rightarrow> json" where
  "plan_record ctx v = JObj (
     [(''strategy'', JStr ''bounded ReAct / Plan-Execute''), (''max_iterations'', json_int (rc_MaxIterations (t_Runtime v))),
      (''max_tool_calls'', json_int (rc_MaxToolCalls (t_Runtime v))), (''deadline_at'', json_time (rc_DeadlineAt (t_Runtime v))),
      (''completion_criteria'', JStr ''at least one MCP evidence reference and a structured final decision'')]
     @ (case gc_Session ctx of None \<Rightarrow> []
        | Some c \<Rightarrow> [(''session_context'', JObj [(''source'', JStr ''durable_session''), (''recent_message_count'', json_int (int (length (sc_RecentMessages c)))),
            (''selected_resource_count'', json_int (int (length (sc_SelectedResources c)))), (''summary_present'', JBool (sc_Summary c \<noteq> []))])])
     @ (case gc_Scope ctx of None \<Rightarrow> [] | Some sc \<Rightarrow> [(''local_read_scope'', json_scope sc)]))"

text \<open>The first run of a task records what it is about to do; \<open>envs 0\<close> serves the start, the rounds count from 1.\<close>

definition startGeneral :: "general_env \<Rightarrow> general_context \<Rightarrow> Task \<Rightarrow> agent \<times> 'x \<Rightarrow> (unit, 'x) agent_result" where
  "startGeneral env ctx v s =
     (if t_IntentType v \<noteq> [] then ((v, Inr ()), s)
      else
        let v = Transition Planning (ge_now env 10) (v\<lparr>t_IntentType := ''general_bounded_operation''\<rparr>);
            v = v\<lparr>t_Runtime := initializeRuntime (ge_now env 11) (t_Runtime v)\<rparr>
        in saving (ge_io env) 12 v
             (appending (ge_io env) 13 v ''INTENT_PARSED''
                (JObj [(''intent_type'', JStr (t_IntentType v)), (''provider'', JStr ''openai-compatible''),
                       (''effect_scope'', JStr ''discovered read MCP tools plus approval-bound fixed managed actions'')])
                (\<lambda>_. appending (ge_io env) 14 v ''PLAN_CREATED'' (plan_record ctx v) (\<lambda>_ s. ((v, Inr ()), s)))) s)"

definition run_context :: "'x Orchestrator \<Rightarrow> ToolCapability list \<Rightarrow> Session \<Rightarrow> Task \<Rightarrow> general_context" where
  "run_context o1 cs session v =
     \<lparr>gc_Tools = cs, gc_Actions = managedActionCapabilities (o_Managed o1), gc_Session = buildPlannerSessionContext session (t_ID v),
      gc_Scope = deriveGeneralReadScope (t_OriginalRequest v) (se_SelectedResources session)\<rparr>"

definition runGeneral :: "'x Orchestrator \<Rightarrow> (nat \<Rightarrow> general_env) \<Rightarrow> Task \<Rightarrow> agent \<times> 'x \<Rightarrow> (unit, 'x) agent_result option" where
  "runGeneral o1 envs v s =
     (case o_Capabilities o1 of
        None \<Rightarrow> Some ((v, Inl (ErrorNew ''general runtime capability source is not configured'')), s)
      | Some tools \<Rightarrow>
        (case tools (snd s) of (cs, x) \<Rightarrow>
          (case get_session (t_SessionID v) (fst s) of
             (Inl err, g) \<Rightarrow> Some ((v, Inl err), g, x)
           | (Inr session, g) \<Rightarrow>
             let ctx = run_context o1 cs session v in
             (case startGeneral (envs 0) ctx v (g, x) of
                   ((v, Inl err), s) \<Rightarrow> Some ((v, Inl err), s)
                 | ((v, Inr _), s) \<Rightarrow> generalLoop o1 envs ctx 1 v s))))"

end
