(* ===== verification/General_Safety.thy ===== *)
theory General_Safety
  imports General
begin

text \<open>
  What a bounded investigation can do, whatever the planner and the tools answer. The laws that the proofs need of the outside world are the locale
  \<open>tool_world\<close>: a relation \<open>W n\<close> between states of the world that holds when \<open>n\<close> permitted tool calls were made. It is
  interpreted twice: on every orchestrator with the relation that always holds, for termination and the outcome, and on the orchestrator whose
  tool calls are logged.
\<close>

subsection \<open>Permitted calls\<close>

type_synonym tool_call = "string \<times> string \<times> go_map"

definition tool_decision :: "string \<Rightarrow> string \<Rightarrow> go_map \<Rightarrow> Decision" where
  "tool_decision server tool args = zero_decision\<lparr>de_Kind := DecisionTool, de_ServerID := server, de_Tool := tool, de_Arguments := Some args\<rparr>"

definition permitted :: "'x Orchestrator \<Rightarrow> ToolCapability list \<Rightarrow> generalReadScope option \<Rightarrow> tool_call \<Rightarrow> bool" where
  "permitted o1 cs scope c \<longleftrightarrow> (case c of (server, tool, args) \<Rightarrow>
     (case available cs (tool_key server tool) of None \<Rightarrow> False | Some cap \<Rightarrow> validateToolArguments (o_Schema o1) (tc_InputSchema cap) args = Inr ())
     \<and> validateGeneralReadScope scope (tool_decision server tool args) = None
     \<and> (\<exists>evaluate p. o_Safety o1 = Some evaluate \<and> ap_Tool p = tool \<and> ap_Effect p = Read \<and> ap_Arguments p = Some args
          \<and> gd_Outcome (pr_Static (evaluate p)) \<noteq> Deny \<and> id_Outcome (pr_Intent (evaluate p)) \<noteq> Deny
          \<and> gd_Outcome (pr_Final (evaluate p)) = Allow \<and> rr_Level (pr_Risk (evaluate p)) = L0))"

lemma validate_scope_fields:
  assumes "de_Kind d1 = de_Kind d2" "de_ServerID d1 = de_ServerID d2" "de_Tool d1 = de_Tool d2" "de_Arguments d1 = de_Arguments d2"
  shows "validateGeneralReadScope scope d1 = validateGeneralReadScope scope d2"
  by (unfold validateGeneralReadScope_def path_argument_def assms) (rule refl)

lemma scope_of_call: "de_Kind d = DecisionTool \<Longrightarrow>
  validateGeneralReadScope scope (d\<lparr>de_Arguments := Some args\<rparr>) = validateGeneralReadScope scope (tool_decision (de_ServerID d) (de_Tool d) args)"
  by (rule validate_scope_fields) (simp_all add: tool_decision_def)

subsection \<open>How a run may end\<close>

text \<open>A pending action: signed, on one of the two managed tools, asked for by the operator for this target, with evidence for it.\<close>

definition authorized_action :: "'x Orchestrator \<Rightarrow> Task \<Rightarrow> bool" where
  "authorized_action o1 w \<longleftrightarrow> (\<exists>pp e target.
     mg_Actions (o_Managed o1) = Some pp \<and> t_PendingAction w = MarshalEnvelope e \<and> VerifySignature (pp_Secret pp) e = Inr ()
     \<and> ap_Tool (ae_Proposal e) \<in> {''service.restart'', ''process.terminate''} \<and> ap_Target (ae_Proposal e) = target
     \<and> managedActionIntentAllows (t_OriginalRequest w) (ap_Tool (ae_Proposal e))
     \<and> managedActionRequestTargets (t_OriginalRequest w) (ap_Tool (ae_Proposal e)) target (ae_TargetSnapshot e)
     \<and> managedActionEvidenceSupports (o_Schema o1) w target (ae_TargetSnapshot e))"

definition good_end :: "'x Orchestrator \<Rightarrow> Task \<Rightarrow> bool" where
  "good_end o1 w \<longleftrightarrow> t_State w = Completed \<and> has_evidence w \<or> t_State w = WaitingApproval \<and> authorized_action o1 w"

text \<open>What a preparation leaves of a task.\<close>

lemma park_action_task:
  assumes "park_action pp env v e b r risk g = ((w, x), g')"
  shows "t_Runtime w = t_Runtime v \<and> t_OriginalRequest w = t_OriginalRequest v \<and> t_EvidenceRefs w = t_EvidenceRefs v
    \<and> (is_ok x \<longrightarrow> t_State w = WaitingApproval \<and> (\<exists>sg. t_PendingAction w = MarshalEnvelope (e\<lparr>ae_Signature := sg\<rparr>)
          \<and> VerifySignature (pp_Secret pp) (e\<lparr>ae_Signature := sg\<rparr>) = Inr ()))"
proof (cases "Sign (pp_Secret pp) e")
  case (Inr e')
  then have e': "e' = e\<lparr>ae_Signature := ae_Signature e'\<rparr>" "VerifySignature (pp_Secret pp) e' = Inr ()"
    using Sign_fields [OF Inr] Sign_Verify [OF Inr] by blast+
  define u where "u = waiting_task (pe_clock env 7) e' v"
  have u: "t_Runtime u = t_Runtime v" "t_OriginalRequest u = t_OriginalRequest v" "t_EvidenceRefs u = t_EvidenceRefs v"
    "t_State u = WaitingApproval" "t_PendingAction u = MarshalEnvelope e'"
    by (simp_all add: u_def waiting_task_def Transition_def)
  have "w = u \<or> \<not> is_ok x \<and> t_Runtime w = t_Runtime u \<and> t_OriginalRequest w = t_OriginalRequest u \<and> t_EvidenceRefs w = t_EvidenceRefs u"
    using assms Inr by (auto simp: park_action_def Let_def u_def [symmetric] Transition_def split: prod.splits sum.splits)
  with u e' show ?thesis by metis
qed (use assms in \<open>auto simp: park_action_def\<close>)

lemma Prepare_task:
  assumes "Prepare pp env v p s g = ((w, x), g')"
  shows "t_Runtime w = t_Runtime v \<and> t_OriginalRequest w = t_OriginalRequest v \<and> t_EvidenceRefs w = t_EvidenceRefs v
    \<and> (is_ok x \<longrightarrow> t_State w = WaitingApproval \<and> (\<exists>e. t_PendingAction w = MarshalEnvelope e \<and> VerifySignature (pp_Secret pp) e = Inr ()
          \<and> ae_Proposal e = p \<and> ae_TargetSnapshot e = s))" (is "?P w x")
proof -
  have R: "?P w x" if "request_approval pp env v p dg s safety g1 = ((w, x), g')" for dg safety g1
    using that unfolding request_approval_def
    by (auto simp: Let_def action_envelope_def split: sum.splits prod.splits dest!: park_action_task)
  show ?thesis using assms unfolding Prepare_def
    by (auto simp: Let_def split: if_splits option.splits sum.splits prod.splits dest!: R)
qed

subsection \<open>The budget\<close>

text \<open>A limit of 0 stands for the default, which \<open>initializeRuntime\<close> fills in.\<close>

definition limit :: "int \<Rightarrow> int \<Rightarrow> int" where "limit m n = (if n = 0 then m else n)"

abbreviation runs :: "Task \<Rightarrow> int" where "runs v \<equiv> rc_Iterations (t_Runtime v)"
abbreviation max_runs :: "Task \<Rightarrow> int" where "max_runs v \<equiv> limit MaxIterations (rc_MaxIterations (t_Runtime v))"
abbreviation calls :: "Task \<Rightarrow> int" where "calls v \<equiv> rc_ToolCalls (t_Runtime v)"
abbreviation max_calls :: "Task \<Rightarrow> int" where "max_calls v \<equiv> limit MaxToolCalls (rc_MaxToolCalls (t_Runtime v))"

definition same_run :: "Task \<Rightarrow> Task \<Rightarrow> bool" where
  "same_run v w \<longleftrightarrow> t_OriginalRequest w = t_OriginalRequest v \<and> max_runs w = max_runs v \<and> max_calls w = max_calls v"

text \<open>From task \<open>v\<close> and world \<open>x\<close> to \<open>w\<close> and \<open>y\<close> within one round: at most \<open>b\<close> calls, each paid for.\<close>

definition used :: "(nat \<Rightarrow> 'x \<Rightarrow> 'x \<Rightarrow> bool) \<Rightarrow> nat \<Rightarrow> Task \<Rightarrow> 'x \<Rightarrow> Task \<Rightarrow> 'x \<Rightarrow> bool" where
  "used W b v x w y \<longleftrightarrow> same_run v w \<and> runs w = runs v \<and> calls v \<le> calls w \<and> calls w \<le> max (calls v) (max_calls v)
     \<and> (\<exists>n \<le> b. W n x y \<and> int n \<le> calls w - calls v)"

definition fits :: "(nat \<Rightarrow> 'x \<Rightarrow> 'x \<Rightarrow> bool) \<Rightarrow> nat \<Rightarrow> (Task \<Rightarrow> 'a \<Rightarrow> bool) \<Rightarrow> Task \<Rightarrow> 'x \<Rightarrow> ('a, 'x) agent_result \<Rightarrow> bool" where
  "fits W b P v x r \<longleftrightarrow> used W b v x (fst (fst r)) (snd (snd r)) \<and> (case snd (fst r) of Inl _ \<Rightarrow> True | Inr a \<Rightarrow> P (fst (fst r)) a)"

lemma fits_error: "used W b v x w (snd s) \<Longrightarrow> fits W b P v x ((w, Inl err), s)"
  by (simp add: fits_def)

lemma fits_value: "used W b v x w (snd s) \<Longrightarrow> P w a \<Longrightarrow> fits W b P v x ((w, Inr a), s)"
  by (simp add: fits_def)

lemma fits_appending:
  assumes "used W b v x w (snd s)" "\<And>e g. fits W b P v x (k e (g, snd s))"
  shows "fits W b P v x (appending io n w typ data k s)"
  by (rule appending_post) (simp_all add: assms fits_error)

lemma fits_saving:
  assumes "used W b v x w (snd s)" "\<And>g. fits W b P v x (k (g, snd s))"
  shows "fits W b P v x (saving io n w k s)"
  by (rule saving_post) (simp_all add: assms fits_error)

lemma used_mono: "used W b v x w y \<Longrightarrow> b \<le> b' \<Longrightarrow> used W b' v x w y"
  unfolding used_def by (meson le_trans)

lemma used_task: "used W b v x w y \<Longrightarrow> same_run w w' \<Longrightarrow> runs w' = runs w \<Longrightarrow> calls w' = calls w \<Longrightarrow> used W b v x w' y"
  by (auto simp: used_def same_run_def)

lemma fits_continue: "fits W b (\<lambda>_ _. True) v x r \<Longrightarrow> fits W b (\<lambda>w again. \<not> again \<longrightarrow> P w) v x (continue_after r)"
  by (cases r; cases "snd (fst r)") (auto simp: fits_def continue_after_def)

lemma fits_return: "fits W b (\<lambda>w _. P w) v x r \<Longrightarrow> fits W b (\<lambda>w again. \<not> again \<and> P w) v x (return_after r)"
  by (cases r; cases "snd (fst r)") (auto simp: fits_def return_after_def)

lemma fits_mono: "fits W b P v x r \<Longrightarrow> (\<And>w a. P w a \<Longrightarrow> Q w a) \<Longrightarrow> b \<le> b' \<Longrightarrow> fits W b' Q v x r"
  using used_mono by (cases r; cases "snd (fst r)") (fastforce simp: fits_def)+

text \<open>The updates of a task that leave its budget alone.\<close>

lemma same_run_simps [simp]:
  "same_run v v" "same_run v (Transition st now v)" "same_run v (add_step a b c v)" "same_run v (last_step a v)" "same_run v (captureSelectedResources a j v)"
  "runs (Transition st now v) = runs v" "runs (add_step a b c v) = runs v" "runs (last_step a v) = runs v" "runs (captureSelectedResources a j v) = runs v"
  "calls (Transition st now v) = calls v" "calls (add_step a b c v) = calls v" "calls (last_step a v) = calls v" "calls (captureSelectedResources a j v) = calls v"
  by (auto simp: same_run_def Transition_def add_step_def last_step_def captureSelectedResources_def split: option.split json.split)

lemma recordObservation_budget:
  "recordObservation o1 c = (r, c') \<Longrightarrow> rc_Iterations c' = rc_Iterations c \<and> rc_MaxIterations c' = rc_MaxIterations c \<and> rc_ToolCalls c' = rc_ToolCalls c
    \<and> rc_MaxToolCalls c' = rc_MaxToolCalls c"
  by (auto simp: recordObservation_def Let_def split: if_splits)

lemma recordReplan_budget:
  "recordReplan c = (r, c') \<Longrightarrow> rc_Iterations c' = rc_Iterations c \<and> rc_MaxIterations c' = rc_MaxIterations c \<and> rc_ToolCalls c' = rc_ToolCalls c
    \<and> rc_MaxToolCalls c' = rc_MaxToolCalls c"
  by (auto simp: recordReplan_def Let_def)

lemma guard_feedback_budget:
  "rc_Iterations (appendRuntimeGuardFeedback sc f c) = rc_Iterations c \<and> rc_MaxIterations (appendRuntimeGuardFeedback sc f c) = rc_MaxIterations c
    \<and> rc_ToolCalls (appendRuntimeGuardFeedback sc f c) = rc_ToolCalls c \<and> rc_MaxToolCalls (appendRuntimeGuardFeedback sc f c) = rc_MaxToolCalls c"
  by (simp add: appendRuntimeGuardFeedback_def Let_def)

lemma keep_observation_fits:
  assumes "used W b v x w (snd s)"
  shows "fits W b (\<lambda>_ _. True) v x (keep_observation env w ob st steps finding extra s)"
proof -
  obtain r c where c: "recordObservation ob (t_Runtime w) = (r, c)" by (cases "recordObservation ob (t_Runtime w)")
  have u: "used W b v x w' (snd s)" if "same_run w w'" "runs w' = runs w" "calls w' = calls w" for w' using used_task [OF assms that] .
  have *: "used W b v x (last_step st (w\<lparr>t_Runtime := c\<rparr>)\<lparr>t_CompletedSteps := a, t_EvidenceRefs := e, t_Findings := f\<rparr>) (snd s)" for a e f
    by (rule u) (use recordObservation_budget [OF c] in \<open>simp_all add: same_run_def last_step_def\<close>)
  show ?thesis unfolding keep_observation_def c prod.case Let_def
    by (intro fits_saving fits_appending) (use * in \<open>simp_all add: fits_def split: sum.split\<close>)
qed

lemma recordGeneralToolFailure_fits:
  assumes "used W b v x w (snd s)"
  shows "fits W b (\<lambda>_ _. True) v x (recordGeneralToolFailure env w d text stepID message s)"
  unfolding recordGeneralToolFailure_def Let_def using assms by (intro fits_appending keep_observation_fits) simp_all

lemma recordGeneralResult_fits:
  assumes "used W b v x w (snd s)"
  shows "fits W b (\<lambda>_ _. True) v x (recordGeneralResult env w d text stepID structured s)"
  unfolding recordGeneralResult_def Let_def using used_task [OF assms] by (intro fits_appending keep_observation_fits) simp_all

lemma general_replan_fits:
  assumes "used W b v x w (snd s)"
  shows "fits W b (\<lambda>w again. again) v x (general_replan env w d s)"
proof -
  obtain r c where c: "recordReplan (t_Runtime w) = (r, c)" by (cases "recordReplan (t_Runtime w)")
  have *: "used W b v x (w\<lparr>t_Runtime := c\<rparr>) (snd s)" "used W b v x (Transition st now (w\<lparr>t_Runtime := c\<rparr>)) (snd s)" for st now
    by (rule used_task [OF assms]; use recordReplan_budget [OF c] in \<open>simp add: same_run_def Transition_def\<close>)+
  show ?thesis unfolding general_replan_def c prod.case
    using * by (cases r) (auto simp: Let_def intro!: fits_error fits_saving fits_appending fits_value)
qed

lemma scope_replan_fits:
  assumes "used W b v x w (snd s)"
  shows "fits W b (\<lambda>w again. again) v x (scope_replan env w scope violation s)"
proof -
  let ?c0 = "appendRuntimeGuardFeedback (Some scope) violation (t_Runtime w)"
  obtain r c where c: "recordReplan ?c0 = (r, c)" by (cases "recordReplan ?c0")
  have *: "used W b v x (Transition st now (w\<lparr>t_Runtime := c\<rparr>)) (snd s)" for st now
    by (rule used_task [OF assms]; use recordReplan_budget [OF c] guard_feedback_budget [of "Some scope" violation "t_Runtime w"] in \<open>simp add: same_run_def Transition_def\<close>)
  show ?thesis unfolding scope_replan_def c prod.case
    using * by (cases r) (auto simp: Let_def intro!: fits_error fits_saving fits_appending fits_value)
qed

lemma completeGeneral_fits:
  assumes "used W b v x w (snd s)" "has_evidence w"
  shows "fits W b (\<lambda>w _. good_end o1 w) v x (completeGeneral env w answer s)"
proof -
  have *: "used W b v x (Transition Completed now w) (snd s)" "good_end o1 (Transition Completed now w)" for now
    using used_task [OF assms(1)] assms(2) by (simp, simp add: good_end_def Transition_def has_evidence_def)
  show ?thesis unfolding completeGeneral_def Let_def
    using * by (auto intro!: fits_error fits_saving fits_appending fits_value split: prod.split sum.split)
qed

text \<open>Over several rounds: every call costs a tool call and a round.\<close>

definition spent :: "(nat \<Rightarrow> 'x \<Rightarrow> 'x \<Rightarrow> bool) \<Rightarrow> Task \<Rightarrow> 'x \<Rightarrow> Task \<Rightarrow> 'x \<Rightarrow> bool" where
  "spent W v x w y \<longleftrightarrow> same_run v w \<and> runs v \<le> runs w \<and> runs w \<le> max (runs v) (max_runs v) \<and> calls v \<le> calls w \<and> calls w \<le> max (calls v) (max_calls v)
     \<and> (\<exists>n. W n x y \<and> int n \<le> calls w - calls v \<and> int n \<le> runs w - runs v)"

definition ends_well :: "(nat \<Rightarrow> 'x \<Rightarrow> 'x \<Rightarrow> bool) \<Rightarrow> 'y Orchestrator \<Rightarrow> Task \<Rightarrow> 'x \<Rightarrow> (unit, 'x) agent_result \<Rightarrow> bool" where
  "ends_well W o1 v x r \<longleftrightarrow> spent W v x (fst (fst r)) (snd (snd r)) \<and> (is_ok (snd (fst r)) \<longrightarrow> good_end o1 (fst (fst r)))"

definition round_ok :: "(nat \<Rightarrow> 'x \<Rightarrow> 'x \<Rightarrow> bool) \<Rightarrow> 'y Orchestrator \<Rightarrow> Task \<Rightarrow> 'x \<Rightarrow> (bool, 'x) agent_result \<Rightarrow> bool" where
  "round_ok W o1 v x r \<longleftrightarrow> spent W v x (fst (fst r)) (snd (snd r))
     \<and> (case snd (fst r) of Inl _ \<Rightarrow> True
        | Inr again \<Rightarrow> if again then runs (fst (fst r)) = runs v + 1 \<and> runs v < max_runs v else good_end o1 (fst (fst r)))"

text \<open>What follows the start of a round, when it counted, and when it may only finish.\<close>

lemma counted_round: "fits W (Suc 0) (\<lambda>z again. \<not> again \<longrightarrow> good_end o1 z) v1 x r \<Longrightarrow> same_run v v1 \<Longrightarrow> calls v1 = calls v \<Longrightarrow> runs v1 = runs v + 1
  \<Longrightarrow> runs v < max_runs v \<Longrightarrow> round_ok W o1 v x r"
  by (cases r; cases "snd (fst r)") (fastforce simp: round_ok_def fits_def spent_def used_def same_run_def)+

lemma final_round: "fits W 0 (\<lambda>z again. \<not> again \<and> good_end o1 z) v1 x r \<Longrightarrow> same_run v v1 \<Longrightarrow> calls v1 = calls v
  \<Longrightarrow> runs v1 = runs v \<or> runs v1 = runs v + 1 \<and> runs v < max_runs v \<Longrightarrow> round_ok W o1 v x r"
  by (cases r; cases "snd (fst r)") (fastforce simp: round_ok_def fits_def spent_def used_def same_run_def)+

lemma initializeRuntime_limits:
  "rc_Iterations (initializeRuntime now c) = rc_Iterations c" "rc_ToolCalls (initializeRuntime now c) = rc_ToolCalls c"
  "rc_Observations (initializeRuntime now c) = rc_Observations c"
  "rc_MaxIterations (initializeRuntime now c) = limit MaxIterations (rc_MaxIterations c)" "rc_MaxToolCalls (initializeRuntime now c) = limit MaxToolCalls (rc_MaxToolCalls c)"
  by (simp_all add: initializeRuntime_def Let_def limit_def)

lemma limit_idem [simp]: "limit MaxIterations (limit MaxIterations n) = limit MaxIterations n" "limit MaxToolCalls (limit MaxToolCalls n) = limit MaxToolCalls n"
  by (simp_all add: limit_def MaxIterations_def MaxToolCalls_def)

lemma managed_names: "map ma_Name (managedActionCapabilities mg) \<in> {[], [''service.restart'', ''process.terminate'']}"
  by (simp add: managedActionCapabilities_def)

lemma managedActionByName_name:
  assumes "managedActionByName (managedActionCapabilities mg) n = Some cap"
  shows "ma_Name cap \<in> {''service.restart'', ''process.terminate''}"
proof -
  from assms have "ma_Name cap \<in> set (map ma_Name (managedActionCapabilities mg))" by (auto simp: managedActionByName_def find_Some_iff)
  with managed_names [of mg] show ?thesis by (metis empty_iff insert_iff list.set(1) list.set(2))
qed

lemma good_end_waiting:
  assumes "mg_Actions (o_Managed o1) = Some pp" "t_PendingAction z = MarshalEnvelope e" "VerifySignature (pp_Secret pp) e = Inr ()"
    and "ae_Proposal e = p" "ae_TargetSnapshot e = snapshot" "ap_Tool p \<in> {''service.restart'', ''process.terminate''}" "t_State z = WaitingApproval"
    and "managedActionIntentAllows (t_OriginalRequest z) (ap_Tool p)" "managedActionRequestTargets (t_OriginalRequest z) (ap_Tool p) (ap_Target p) snapshot"
    and "managedActionEvidenceSupports (o_Schema o1) z (ap_Target p) snapshot"
  shows "good_end o1 z"
  using assms unfolding good_end_def authorized_action_def by blast

lemma submit_managed_fits:
  assumes u: "used W b v x w (snd s)" and "mg_Actions (o_Managed o1) = Some pp" "ma_Name cap \<in> {''service.restart'', ''process.terminate''}"
    and "managedActionIntentAllows (t_OriginalRequest w) (ma_Name cap)" "managedActionRequestTargets (t_OriginalRequest w) (ma_Name cap) target snapshot"
    and "managedActionEvidenceSupports (o_Schema o1) w target snapshot"
  shows "fits W b (\<lambda>z _. good_end o1 z) v x (submit_managed pp env w summary cap args target snapshot s)"
proof -
  define description where "description = (if TrimSpace summary = [] then txt_managed_step else TrimSpace summary)"
  define w1 where "w1 = add_step description (ma_Name cap) ''WAITING_APPROVAL'' w"
  define p where "p = managed_proposal env w1 cap args target description"
  have w1: "used W b v x w1 (snd s)" using used_task [OF u] by (simp add: w1_def)
  have same: "t_OriginalRequest w1 = t_OriginalRequest w" "t_Runtime w1 = t_Runtime w" "t_EvidenceRefs w1 = t_EvidenceRefs w" by (simp_all add: w1_def add_step_def)
  have p: "ap_Tool p = ma_Name cap" "ap_Target p = target" by (simp_all add: p_def managed_proposal_def)
  have "fits W b (\<lambda>z _. good_end o1 z) v x ((z, map_sum id (\<lambda>_. ()) r), g', snd s)" if P: "Prepare pp (ge_prepare env) w1 p snapshot g = ((z, r), g')" for g z r g'
  proof -
    note z = Prepare_task [OF P]
    then have "used W b v x z (snd s)" using used_task [OF w1] by (simp add: same_run_def)
    moreover have "good_end o1 z" if "is_ok r"
      using z that same p assms(2-6) good_end_waiting [of o1 pp z _ p snapshot] by (auto simp: managedActionEvidenceSupports_def has_evidence_def)
    ultimately show ?thesis by (cases r) (simp_all add: fits_def)
  qed
  then show ?thesis unfolding submit_managed_def Let_def description_def [symmetric] w1_def [symmetric] p_def [symmetric]
    by (intro fits_saving fits_appending w1) (auto simp: w1 split: prod.split)
qed

subsection \<open>The outside world\<close>

locale tool_world =
  fixes o1 :: "'x Orchestrator" and cs :: "ToolCapability list" and scope :: "generalReadScope option" and W :: "nat \<Rightarrow> 'x \<Rightarrow> 'x \<Rightarrow> bool"
  assumes W_refl: "W 0 x x"
    and W_trans: "W m x y \<Longrightarrow> W n y z \<Longrightarrow> W (m + n) x z"
    and W_decide: "W 0 x (snd (o_Decide o1 deadline q x))"
    and W_process: "mg_ActionTargets (o_Managed o1) = Some targets \<Longrightarrow> W 0 x (snd (mt_SnapshotProcess targets i pid x))"
    and W_service: "mg_ActionTargets (o_Managed o1) = Some targets \<Longrightarrow> W 0 x (snd (mt_SnapshotService targets i name x))"
    and W_call: "permitted o1 cs scope (server, tool, args) \<Longrightarrow> W (Suc 0) x (snd (o_CallTool o1 server tool args x))"
begin

lemma used_refl: "used W b v x v x"
  using W_refl by (auto simp: used_def same_run_def)

lemma used_world: "used W b v x w y \<Longrightarrow> W 0 y z \<Longrightarrow> used W b v x w z"
  using W_trans [of _ x y 0 z] by (auto simp: used_def)

lemma used_call: "used W 0 v x w y \<Longrightarrow> W (Suc 0) y z \<Longrightarrow> calls v < calls w \<Longrightarrow> used W (Suc 0) v x w z"
  using W_trans [of 0 x y 1 z] by (auto simp: used_def intro!: exI [of _ 1])

lemma call_tool_fits:
  assumes "used W 0 v x w (snd s)" "permitted o1 cs scope (de_ServerID d, de_Tool d, args)" "calls v < calls w"
  shows "fits W (Suc 0) (\<lambda>w again. again) v x (call_tool o1 env w d args stepID s)"
proof -
  have "used W (Suc 0) v x w (snd (o_CallTool o1 (de_ServerID d) (de_Tool d) args (snd s)))" using assms W_call used_call by blast
  then show ?thesis unfolding call_tool_def Let_def
    by (intro fits_appending used_mono [OF assms(1)] fits_mono [OF fits_continue [where P = "\<lambda>_. False"]])
      (auto split: prod.split sum.split option.split intro: recordGeneralToolFailure_fits recordGeneralResult_fits)
qed

lemma snapshot_world:
  assumes "mg_ActionTargets (o_Managed o1) = Some targets"
  shows "W 0 x (snd (snapshotManagedActionTarget targets sv tool target args x))"
proof -
  have P: "W 0 x y" if "mt_SnapshotProcess targets i pid x = (r, y)" for i pid r y using W_process [OF assms, of x i pid] that by simp
  show ?thesis using W_refl W_service [OF assms] unfolding snapshotManagedActionTarget_def by (auto split: sum.split prod.split dest: P)
qed

lemma prepareGeneralManagedAction_fits:
  assumes "used W b v x w (snd s)"
  shows "fits W b (\<lambda>z _. good_end o1 z) v x (prepareGeneralManagedAction (o_Managed o1) (o_Schema o1) env w d (managedActionCapabilities (o_Managed o1)) s)"
proof (cases "mg_Actions (o_Managed o1) = None \<or> mg_ActionTargets (o_Managed o1) = None")
  case True
  then show ?thesis unfolding prepareGeneralManagedAction_def using fits_error [OF assms] by (auto split: option.split)
next
  case False
  then obtain pp targets where m: "mg_Actions (o_Managed o1) = Some pp" "mg_ActionTargets (o_Managed o1) = Some targets" by auto
  have snap: "used W b v x w y" if "snapshotManagedActionTarget targets sv tool target args (snd s) = (r, y)" for sv tool target args r y
    using used_world [OF assms] snapshot_world [OF m(2), of "snd s" sv tool target args] that by simp
  show ?thesis unfolding prepareGeneralManagedAction_def m prod.case option.case Let_def
    by (auto split: option.split sum.split prod.split intro!: fits_error assms submit_managed_fits m(1) dest: snap managedActionByName_name)
qed

lemma guard_tool_fits:
  assumes u: "used W 0 v x w (snd s)" and "calls v < calls w" "de_Kind d = DecisionTool"
    and "case available cs (tool_key (de_ServerID d) (de_Tool d)) of None \<Rightarrow> False | Some cap \<Rightarrow> validateToolArguments (o_Schema o1) (tc_InputSchema cap) args = Inr ()"
    and "validateGeneralReadScope scope (d\<lparr>de_Arguments := Some args\<rparr>) = None"
  shows "fits W (Suc 0) (\<lambda>w again. again) v x (guard_tool o1 env w d args stepID s)"
proof -
  let ?p = "general_proposal env w d args"
  have u1: "used W (Suc 0) v x w (snd s)" using used_mono [OF u] by simp
  have p: "ap_Tool ?p = de_Tool d \<and> ap_Effect ?p = Read \<and> ap_Arguments ?p = Some args" by (simp add: general_proposal_def Let_def)
  have ok: "permitted o1 cs scope (de_ServerID d, de_Tool d, args)"
    if "o_Safety o1 = Some evaluate" "gd_Outcome (pr_Static (evaluate ?p)) \<noteq> Deny" "id_Outcome (pr_Intent (evaluate ?p)) \<noteq> Deny"
      "gd_Outcome (pr_Final (evaluate ?p)) = Allow" "rr_Level (pr_Risk (evaluate ?p)) = L0" for evaluate
    using assms(4,5) scope_of_call [OF assms(3), of scope args] that p unfolding permitted_def prod.case by auto
  show ?thesis
  proof (cases "o_Safety o1")
    case None
    then show ?thesis unfolding guard_tool_def Let_def by (auto split: sum.split intro!: fits_appending fits_error u1)
  next
    case (Some evaluate)
    have call: "fits W (Suc 0) (\<lambda>w again. again) v x (call_tool o1 env w d args stepID (g, snd s))"
      if "gd_Outcome (pr_Static (evaluate ?p)) \<noteq> Deny" "id_Outcome (pr_Intent (evaluate ?p)) \<noteq> Deny"
        "\<not> (gd_Outcome (pr_Final (evaluate ?p)) \<noteq> Allow \<or> rr_Level (pr_Risk (evaluate ?p)) \<noteq> L0)" for g
      using ok [OF Some] that u assms(2) by (intro call_tool_fits) auto
    show ?thesis unfolding guard_tool_def Let_def Some option.case
      using call by (auto split: sum.split intro!: fits_appending fits_error u1)
  qed
qed

lemma decide_tool_fits:
  assumes u: "used W 0 v x w (snd s)" and "de_Kind d = DecisionTool" "gc_Tools ctx = cs" "gc_Scope ctx = scope"
  shows "fits W (Suc 0) (\<lambda>w again. again) v x (decide_tool o1 env ctx w d s)"
proof (cases "available cs (tool_key (de_ServerID d) (de_Tool d))")
  case None
  show ?thesis unfolding decide_tool_def assms(3) using None by (auto intro!: fits_error used_mono [OF u])
next
  case (Some cap)
  have u1: "used W (Suc 0) v x w (snd s)" using used_mono [OF u] by simp
  define args where "args = (case de_Arguments d of None \<Rightarrow> [] | Some m \<Rightarrow> m)"
  show ?thesis
  proof (cases "validateToolArguments (o_Schema o1) (tc_InputSchema cap) args = Inr () \<and> validateGeneralReadScope scope (d\<lparr>de_Arguments := Some args\<rparr>) = None")
    case False
    then show ?thesis unfolding decide_tool_def assms(3,4) Some option.case Let_def args_def [symmetric]
      by (auto split: sum.split option.split intro!: fits_error u1 fits_mono [OF scope_replan_fits [OF u1]]) (simp_all add: validateGeneralReadScope_def)
  next
    case True
    obtain r c where c: "reserveToolCall (t_Runtime w) = (r, c)" by (cases "reserveToolCall (t_Runtime w)")
    show ?thesis
    proof (cases r)
      case (Inl err)
      then have "c = t_Runtime w" using c by (auto simp: reserveToolCall_def split: if_splits)
      then show ?thesis unfolding decide_tool_def assms(3,4) Some option.case Let_def args_def [symmetric] c
        using True Inl by (auto split: option.split intro!: fits_error u1)
    next
      case (Inr _)
      then have c': "c = (t_Runtime w)\<lparr>rc_ToolCalls := calls w + 1\<rparr>" "calls w < rc_MaxToolCalls (t_Runtime w)" using c by (auto simp: reserveToolCall_def split: if_splits)
      define w1 where "w1 = add_step (de_DecisionSummary d) (de_Tool d) ''RUNNING'' (w\<lparr>t_Runtime := c\<rparr>)"
      have w1: "used W 0 v x w1 (snd s)" "calls v < calls w1"
        using u c' by (auto simp: used_def same_run_def w1_def add_step_def limit_def MaxToolCalls_def split: if_splits)
      have "fits W (Suc 0) (\<lambda>w again. again) v x (saving (ge_io env) 34 w1 (guard_tool o1 env w1 d args stepID) s)" for stepID
        using w1 True Some assms(2) by (intro fits_saving guard_tool_fits) (auto intro: used_mono)
      then show ?thesis unfolding decide_tool_def assms(3,4) Some option.case Let_def args_def [symmetric] c w1_def
        using True Inr by (auto split: option.split)
    qed
  qed
qed

lemma act_on_fits:
  assumes "used W 0 v x w (snd s)" "gc_Tools ctx = cs" "gc_Scope ctx = scope" "gc_Actions ctx = managedActionCapabilities (o_Managed o1)"
  shows "fits W (Suc 0) (\<lambda>z again. \<not> again \<longrightarrow> good_end o1 z) v x (act_on o1 env ctx w d s)"
proof -
  have u: "used W (Suc 0) v x w (snd s)" using used_mono [OF assms(1)] by simp
  show ?thesis unfolding act_on_def assms(4)
    by (cases "de_Kind d")
      (auto intro!: fits_error u fits_mono [OF general_replan_fits [OF u]] fits_mono [OF decide_tool_fits [OF assms(1) _ assms(2,3)]] fits_value
        fits_mono [OF fits_return [OF prepareGeneralManagedAction_fits [OF u]]] fits_mono [OF fits_return [OF completeGeneral_fits [OF u]]])
qed

lemma on_decision_fits:
  assumes "used W 0 v x w (snd s)" "gc_Tools ctx = cs" "gc_Scope ctx = scope" "gc_Actions ctx = managedActionCapabilities (o_Managed o1)"
  shows "fits W (Suc 0) (\<lambda>z again. \<not> again \<longrightarrow> good_end o1 z) v x (on_decision o1 env ctx w finalOnly d s)"
  using used_mono [OF assms(1), of "Suc 0"] assms
  by (auto simp: on_decision_def split: prod.split intro!: fits_error fits_appending act_on_fits)

lemma on_decision_final:
  assumes "used W 0 v x w (snd s)" "has_evidence w"
  shows "fits W 0 (\<lambda>z again. \<not> again \<and> good_end o1 z) v x (on_decision o1 env ctx w True d s)"
  using assms by (auto simp: on_decision_def act_on_def replanWithoutEvidence_def intro!: fits_error fits_appending fits_return completeGeneral_fits)

lemma ask_planner_world:
  assumes "ask_planner o1 env ctx w finalOnly x = ((r, f), y)" "finalOnly \<Longrightarrow> has_evidence w"
  shows "W 0 x y \<and> (f \<longrightarrow> has_evidence w) \<and> (finalOnly \<longrightarrow> f)"
proof -
  have d: "W 0 x y" if "decide o1 ctx w b x = (r, y)" for b x r y using W_decide [of x] that unfolding decide_def by (metis snd_conv)
  have t: "W 0 x z" if "W 0 x y" "W 0 y z" for x y z using W_trans [OF that] by simp
  from assms show ?thesis unfolding ask_planner_def
    by (auto simp: past_cutoff_def shouldFinalizeGeneral_def split: prod.splits if_splits dest!: d intro: t)
qed

lemma generalRound_ok:
  assumes ctx: "gc_Tools ctx = cs" "gc_Scope ctx = scope" "gc_Actions ctx = managedActionCapabilities (o_Managed o1)"
  shows "round_ok W o1 v (snd s) (generalRound o1 env ctx v s)"
proof -
  define v0 where "v0 = v\<lparr>t_Runtime := initializeRuntime (ge_now env 0) (t_Runtime v)\<rparr>"
  define finalOnly where "finalOnly = shouldFinalizeGeneral v0 (ge_now env 0)"
  obtain r c where b: "beginGeneralDecision (ge_now env 0) finalOnly (t_Runtime v0) = (r, c)" by (cases "beginGeneralDecision (ge_now env 0) finalOnly (t_Runtime v0)")
  define v1 where "v1 = Transition Investigating (ge_now env 1) (v0\<lparr>t_Runtime := c\<rparr>)"
  have v0: "same_run v v0" "calls v0 = calls v" "runs v0 = runs v" by (simp_all add: same_run_def v0_def initializeRuntime_limits)
  have v1: "same_run v v1" "calls v1 = calls v" "rc_Observations (t_Runtime v1) = rc_Observations (t_Runtime v0)" "t_EvidenceRefs v1 = t_EvidenceRefs v0"
    "runs v1 = runs v \<and> (is_ok r \<longrightarrow> finalOnly) \<or> runs v1 = runs v + 1 \<and> runs v < max_runs v"
    using b v0 by (auto simp: v1_def v0_def same_run_def Transition_def beginGeneralDecision_def Let_def initializeRuntime_limits split: if_splits)
  have ev: "finalOnly \<Longrightarrow> has_evidence v1" using v1(3,4) by (simp add: finalOnly_def shouldFinalizeGeneral_def has_evidence_def)
  have fail: "round_ok W o1 v (snd s) ((w, Inl err), g, snd s)" if "w = v1 \<or> w = v0\<lparr>t_Runtime := c\<rparr>" for w err g
    using that v1(1,2,5) W_refl by (auto simp: round_ok_def spent_def v1_def Transition_def same_run_def intro!: exI [of _ 0])
  show ?thesis
  proof (cases "is_ok r \<and> (finalOnly \<or> gc_Tools ctx \<noteq> [])")
    case False
    then show ?thesis unfolding generalRound_def Let_def v0_def [symmetric] finalOnly_def [symmetric] b
      using fail [of _ _ "fst s"] by (cases r) auto
  next
    case True
    have "round_ok W o1 v (snd s) (on_decision o1 env ctx v1 f d (g, y))" if "ask_planner o1 env ctx v1 finalOnly (snd s) = ((Inr d, f), y)" for f d g y
    proof -
      note a = ask_planner_world [OF that ev]
      then have u: "used W 0 v1 (snd s) v1 y" using used_world [OF used_refl] by blast
      show ?thesis
      proof (cases f)
        case True
        with a u v1 show ?thesis using on_decision_final [of v1 "snd s" v1 "(g, y)" env ctx d] by (intro final_round [of W o1 v1]) auto
      next
        case False
        with a u v1 \<open>is_ok r \<and> _\<close> ctx show ?thesis using on_decision_fits [of v1 "snd s" v1 "(g, y)" ctx env f d] by (intro counted_round [of W o1 v1]) auto
      qed
    qed
    moreover have "round_ok W o1 v (snd s) ((v1, Inl err), g, y)" if "ask_planner o1 env ctx v1 finalOnly (snd s) = ((Inl err, f), y)" for err f g y
      using ask_planner_world [OF that ev] v1 by (auto simp: round_ok_def spent_def intro!: exI [of _ 0])
    ultimately have "round_ok W o1 v (snd s) (case ask_planner o1 env ctx v1 finalOnly (snd s) of ((Inl err, _), x) \<Rightarrow> ((v1, Inl err), g, x)
        | ((Inr d, f), x) \<Rightarrow> on_decision o1 env ctx v1 f d (g, x))" for g by (auto split: prod.split sum.split)
    then have S: "round_ok W o1 v (snd s) (saving (ge_io env) 2 v1 (\<lambda>s. case ask_planner o1 env ctx v1 finalOnly (snd s) of ((Inl err, _), x) \<Rightarrow> ((v1, Inl err), fst s, x)
        | ((Inr d, f), x) \<Rightarrow> on_decision o1 env ctx v1 f d (fst s, x)) s)"
      using fail by (intro saving_post [where Q = "round_ok W o1 v (snd s)"]) simp_all
    from True have "r = Inr ()" "\<not> (\<not> finalOnly \<and> gc_Tools ctx = [])" by (auto simp: is_ok_iff)
    then show ?thesis unfolding generalRound_def Let_def v0_def [symmetric] finalOnly_def [symmetric] b \<open>r = Inr ()\<close> prod.case sum.case v1_def [symmetric]
      using S by (simp only: if_False)
  qed
qed

lemma spent_refl: "spent W v x v x"
  using W_refl by (auto simp: spent_def same_run_def intro!: exI [of _ 0])

lemma spent_trans:
  assumes "spent W v x w y" "spent W w y u z"
  shows "spent W v x u z"
proof -
  from assms obtain m n where "W m x y" "W n y z" "int m \<le> calls w - calls v" "int m \<le> runs w - runs v" "int n \<le> calls u - calls w" "int n \<le> runs u - runs w"
    by (auto simp: spent_def)
  with W_trans [of m x y n z] have "\<exists>k. W k x z \<and> int k \<le> calls u - calls v \<and> int k \<le> runs u - runs v" by (intro exI [of _ "m + n"]) simp
  with assms show ?thesis by (auto simp: spent_def same_run_def)
qed

text \<open>The number of rounds that are left bounds the loop.\<close>

lemma generalLoop_ends:
  assumes ctx: "gc_Tools ctx = cs" "gc_Scope ctx = scope" "gc_Actions ctx = managedActionCapabilities (o_Managed o1)"
  shows "\<exists>r. generalLoop o1 envs ctx k v s = Some r \<and> ends_well W o1 v (snd s) r"
proof (induction "nat (max_runs v - runs v)" arbitrary: k v s rule: less_induct)
  case less
  obtain w r g y where R: "generalRound o1 (envs k) ctx v s = ((w, r), g, y)" by (metis prod.collapse)
  note ok = generalRound_ok [OF ctx, of v s "envs k", unfolded R round_ok_def fst_conv snd_conv]
  show ?case
  proof (cases "r = Inr True")
    case True
    with ok have "spent W v (snd s) w y" "nat (max_runs w - runs w) < nat (max_runs v - runs v)" by (auto simp: spent_def same_run_def)
    from less [OF this(2), of "Suc k" "(g, y)"] spent_trans [OF this(1)] True R show ?thesis
      by (subst generalLoop.simps) (auto simp: ends_well_def)
  next
    case False
    with ok R show ?thesis by (subst generalLoop.simps) (cases r; auto simp: ends_well_def)
  qed
qed

lemma startGeneral_spent: "spent W v (snd s) (fst (fst (startGeneral env ctx v s))) (snd (snd (startGeneral env ctx v s)))"
proof -
  define u where "u = Transition Planning (ge_now env 10) (v\<lparr>t_IntentType := ''general_bounded_operation''\<rparr>)"
  define w where "w = u\<lparr>t_Runtime := initializeRuntime (ge_now env 11) (t_Runtime u)\<rparr>"
  have w: "spent W v x w x" for x
    using W_refl by (auto simp: spent_def same_run_def w_def u_def Transition_def initializeRuntime_limits intro!: exI [of _ 0])
  let ?Q = "\<lambda>r :: (unit, 'x) agent_result. spent W v (snd s) (fst (fst r)) (snd (snd r))"
  have Q: "?Q (saving io n w k s1)" if "snd s1 = snd s" "\<And>g. ?Q (k (g, snd s))" for io n k s1
    by (rule saving_post [where Q = ?Q]) (use that w in auto)
  have Q': "?Q (appending io n w typ data k s1)" if "snd s1 = snd s" "\<And>e g. ?Q (k e (g, snd s))" for io n "typ" data k s1
    by (rule appending_post [where Q = ?Q]) (use that w in auto)
  show ?thesis unfolding startGeneral_def Let_def u_def [symmetric] w_def [symmetric]
    by (auto simp: spent_refl intro!: Q Q' w)
qed

lemma runGeneral_ends:
  assumes "\<And>tools. o_Capabilities o1 = Some tools \<Longrightarrow> fst (tools x) = cs \<and> W 0 x (snd (tools x))"
    and "\<And>session g'. get_session (t_SessionID v) g = (Inr session, g') \<Longrightarrow> deriveGeneralReadScope (t_OriginalRequest v) (se_SelectedResources session) = scope"
  shows "\<exists>r. runGeneral o1 envs v (g, x) = Some r \<and> ends_well W o1 v x r"
proof (cases "o_Capabilities o1")
  case None
  then show ?thesis using spent_refl by (simp add: runGeneral_def ends_well_def)
next
  case (Some tools)
  obtain y where y: "tools x = (cs, y)" "W 0 x y" using assms(1) [OF Some] by (metis prod.collapse)
  have xy: "spent W v x v y" using y(2) by (auto simp: spent_def same_run_def intro!: exI [of _ 0])
  obtain se g1 where se: "get_session (t_SessionID v) g = (se, g1)" by (cases "get_session (t_SessionID v) g")
  show ?thesis
  proof (cases se)
    case (Inl err)
    with Some y se xy show ?thesis by (simp add: runGeneral_def ends_well_def)
  next
    case (Inr session)
    let ?ctx = "run_context o1 cs session v"
    have ctx: "gc_Tools ?ctx = cs" "gc_Scope ?ctx = scope" "gc_Actions ?ctx = managedActionCapabilities (o_Managed o1)"
      using assms(2) se Inr by (simp_all add: run_context_def)
    obtain w r g2 z where st: "startGeneral (envs 0) ?ctx v (g1, y) = ((w, r), g2, z)" by (metis prod.collapse)
    with startGeneral_spent [of v "(g1, y)" "envs 0" ?ctx] have w: "spent W v x w z" using spent_trans [OF xy] by simp
    from generalLoop_ends [OF ctx, of envs 1 w "(g2, z)"] w spent_trans [OF w] Some y se Inr st show ?thesis
      by (cases r) (auto simp: runGeneral_def ends_well_def)
  qed
qed

end

subsection \<open>Every orchestrator\<close>

interpretation any_world: tool_world o1 cs scope "\<lambda>_ _ _. True" for o1 cs scope
  by unfold_locales simp_all

text \<open>The tools and the scope of a run.\<close>

definition run_tools :: "'x Orchestrator \<Rightarrow> 'x \<Rightarrow> ToolCapability list" where
  "run_tools o1 x = (case o_Capabilities o1 of None \<Rightarrow> [] | Some tools \<Rightarrow> fst (tools x))"

definition run_scope :: "Task \<Rightarrow> agent \<Rightarrow> generalReadScope option" where
  "run_scope v g = (case fst (get_session (t_SessionID v) g) of Inl _ \<Rightarrow> None | Inr session \<Rightarrow> deriveGeneralReadScope (t_OriginalRequest v) (se_SelectedResources session))"

lemma run_scope_session:
  "get_session (t_SessionID v) g = (Inr session, g') \<Longrightarrow> deriveGeneralReadScope (t_OriginalRequest v) (se_SelectedResources session) = run_scope v g"
  by (simp add: run_scope_def)

lemma runGeneral_any: "\<exists>r. runGeneral o1 envs v s = Some r \<and> ends_well (\<lambda>_ _ _. True) o1 v (snd s) r"
  using any_world.runGeneral_ends [of o1 "snd s" "run_tools o1 (snd s)" v "fst s" "run_scope v (fst s)" envs] by (simp add: run_tools_def run_scope_session)

subsection \<open>Logged calls\<close>

definition silent :: "('x \<Rightarrow> 'a \<times> 'x) \<Rightarrow> 'x \<times> tool_call list \<Rightarrow> 'a \<times> 'x \<times> tool_call list" where
  "silent f s = (case f (fst s) of (r, x) \<Rightarrow> (r, x, snd s))"

text \<open>The orchestrator whose world also holds the list of the tool calls made.\<close>

definition logged :: "'x Orchestrator \<Rightarrow> ('x \<times> tool_call list) Orchestrator" where
  "logged o1 =
     \<lparr>o_Capabilities = map_option silent (o_Capabilities o1),
      o_CallTool = (\<lambda>server tool args s. case o_CallTool o1 server tool args (fst s) of (r, x) \<Rightarrow> (r, x, snd s @ [(server, tool, args)])),
      o_Decide = (\<lambda>deadline q. silent (o_Decide o1 deadline q)),
      o_Safety = o_Safety o1,
      o_Managed = \<lparr>mg_Actions = mg_Actions (o_Managed o1),
        mg_ActionTargets = map_option (\<lambda>t. \<lparr>mt_SnapshotProcess = (\<lambda>i pid. silent (mt_SnapshotProcess t i pid)),
          mt_SnapshotService = (\<lambda>i name. silent (mt_SnapshotService t i name))\<rparr>) (mg_ActionTargets (o_Managed o1))\<rparr>,
      o_Schema = o_Schema o1\<rparr>"

definition log_world :: "'x Orchestrator \<Rightarrow> ToolCapability list \<Rightarrow> generalReadScope option \<Rightarrow> nat \<Rightarrow> 'x \<times> tool_call list \<Rightarrow> 'x \<times> tool_call list \<Rightarrow> bool" where
  "log_world o1 cs scope n s t \<longleftrightarrow> (\<exists>made. snd t = snd s @ made \<and> length made = n \<and> list_all (permitted o1 cs scope) made)"

lemma silent_log: "snd (snd (silent f s)) = snd s"
  by (simp add: silent_def split: prod.split)

lemma logged_simps: "o_Safety (logged o1) = o_Safety o1" "o_Schema (logged o1) = o_Schema o1"
  "snd (snd (o_CallTool (logged o1) server tool args s)) = snd s @ [(server, tool, args)]"
  by (simp_all add: logged_def split: prod.split)

lemma permitted_logged: "permitted (logged o1) cs scope c = permitted o1 cs scope c"
  unfolding permitted_def logged_simps by (rule refl)

interpretation logged_world: tool_world "logged o1" cs scope "log_world o1 cs scope" for o1 cs scope
proof unfold_locales
  fix m n and x y z :: "'a \<times> tool_call list"
  show "log_world o1 cs scope 0 x x" by (simp add: log_world_def)
  show "log_world o1 cs scope (m + n) x z" if xy: "log_world o1 cs scope m x y" and yz: "log_world o1 cs scope n y z"
  proof -
    from xy yz obtain a b where "snd z = snd x @ a @ b" "length a = m" "length b = n" "list_all (permitted o1 cs scope) (a @ b)" by (auto simp: log_world_def)
    then show ?thesis unfolding log_world_def by (metis length_append)
  qed
next
  fix server tool args and x :: "'a \<times> tool_call list"
  assume "permitted (logged o1) cs scope (server, tool, args)"
  then show "log_world o1 cs scope (Suc 0) x (snd (o_CallTool (logged o1) server tool args x))"
    by (simp add: log_world_def permitted_logged logged_simps)
qed (auto simp: log_world_def logged_def silent_log)

lemma runGeneral_logged:
  "\<exists>r. runGeneral (logged o1) envs v (g, x, []) = Some r \<and> ends_well (log_world o1 (run_tools o1 x) (run_scope v g)) (logged o1) v (x, []) r"
  by (rule logged_world.runGeneral_ends)
    (auto simp: run_scope_session run_tools_def logged_def log_world_def silent_def split: prod.split)

subsection \<open>Theorems\<close>

text \<open>C12: the investigation always comes to an end. Whatever the planner decides, whatever the tools return, whichever disk operations fail and
  whatever the clock shows, the loop of \<open>runGeneral\<close> returns.
\<close>

theorem general_run_terminates: "\<exists>r. runGeneral o1 envs v s = Some r"
  using runGeneral_any by blast

text \<open>C10: every tool call of an investigation is permitted: the tool was discovered, its arguments satisfy the announced schema, the path is
  inside the read scope of the request, and the safety pipeline allowed it as a read of level L0. There are at most as many calls as the
  tool budget of the task has left, and at most as many as it has rounds left (30 and 12 for a fresh task).
\<close>

theorem general_calls_permitted:
  "case runGeneral (logged o1) envs v (g, x, []) of
     None \<Rightarrow> False
   | Some (_, _, _, made) \<Rightarrow>
       list_all (permitted o1 (run_tools o1 x) (run_scope v g)) made
       \<and> int (length made) \<le> max 0 (limit MaxToolCalls (rc_MaxToolCalls (t_Runtime v)) - rc_ToolCalls (t_Runtime v))
       \<and> int (length made) \<le> max 0 (limit MaxIterations (rc_MaxIterations (t_Runtime v)) - rc_Iterations (t_Runtime v))"
  using runGeneral_logged [of o1 envs v g x] by (auto simp: ends_well_def spent_def log_world_def)

text \<open>With the safety pipeline of the program and a catalog of tools, an investigation calls only tools that the catalog lists as reads, whatever the
  planner asks for; shell-like capabilities are never called.
\<close>

theorem general_reads_only:
  "case runGeneral (logged (o1\<lparr>o_Safety := Some (SafetyPipeline_Evaluate c i j)\<rparr>)) envs v (g, x, []) of
     None \<Rightarrow> False
   | Some (_, _, _, made) \<Rightarrow>
       list_all (\<lambda>(server, tool, args). \<not> forbiddenCapability tool \<and> (case Policy c tool of None \<Rightarrow> False | Some q \<Rightarrow> tp_Effect q = Read)) made"
proof -
  let ?o = "o1\<lparr>o_Safety := Some (SafetyPipeline_Evaluate c i j)\<rparr>"
  have "\<not> forbiddenCapability tool \<and> (case Policy c tool of None \<Rightarrow> False | Some q \<Rightarrow> tp_Effect q = Read)" if "permitted ?o cs scope (server, tool, args)" for cs scope server tool args
  proof -
    from that obtain p where "ap_Tool p = tool" "ap_Effect p = Read" "gd_Outcome (pr_Final (SafetyPipeline_Evaluate c i j p)) = Allow" by (auto simp: permitted_def)
    then show ?thesis by (auto simp: pipeline_outcome admissible_def static_ok_def split: if_splits option.splits)
  qed
  then have "list_all (permitted ?o cs scope) made \<Longrightarrow>
      list_all (\<lambda>(server, tool, args). \<not> forbiddenCapability tool \<and> (case Policy c tool of None \<Rightarrow> False | Some q \<Rightarrow> tp_Effect q = Read)) made" for cs scope made
    by (fastforce simp: list_all_iff)
  then show ?thesis using runGeneral_logged [of ?o envs v g x] by (auto simp: ends_well_def spent_def log_world_def)
qed

text \<open>C11: a run that reports success has completed the task with evidence, or it has parked a signed action: one of the two managed actions, asked for in
  the operator's own words for exactly this target, and with a recorded observation that shows the target.
\<close>

theorem general_run_outcome:
  "case runGeneral o1 envs v s of Some ((w, Inr _), _) \<Rightarrow> good_end o1 w | _ \<Rightarrow> True"
proof -
  obtain r where "runGeneral o1 envs v s = Some r" "ends_well (\<lambda>_ _ _. True) o1 v (snd s) r" using runGeneral_any by blast
  then show ?thesis by (auto simp: ends_well_def split: prod.split sum.split)
qed

end
