(* ===== verification/File_Action.thy ===== *)
theory File_Action
  imports General_Safety
begin

text \<open>
  \<open>internal/agent/file_action.go\<close> and \<open>internal/context/resolver.go\<close>: a request in words becomes one file action that waits for approval. The
  snapshots of files are an interface of the source. \<open>parseCreateFileContent\<close> takes a position in the lower-cased request for a position in the
  request, so the model here has the characters whose lower case has another length. A slice out of range panics, and nothing recovers from it: that
  is \<open>None\<close>. The order in which Go visits a map is an argument; the local date as text comes from the clock.
\<close>

subsection \<open>Lower case and its length\<close>

text \<open>The characters whose lower case is encoded with another number of bytes, beside U+0130 and U+212A of \<open>ToLower\<close>.\<close>

definition resized :: "(int \<times> string) list" where
  "resized = [(0x23A, hx ''e2b1a5''), (0x23E, hx ''e2b1a6''), (0x1E9E, hx ''c39f''), (0x2126, hx ''cf89''), (0x212B, hx ''c3a5''), (0x2C62, hx ''c9ab''), (0x2C64, hx ''c9bd''),
     (0x2C6D, hx ''c991''), (0x2C6E, hx ''c9b1''), (0x2C6F, hx ''c990''), (0x2C70, hx ''c992''), (0x2C7E, hx ''c8bf''), (0x2C7F, hx ''c980''), (0xA78D, hx ''c9a5''),
     (0xA7AA, hx ''c9a6''), (0xA7AB, hx ''c99c''), (0xA7AC, hx ''c9a1''), (0xA7AD, hx ''c9ac''), (0xA7AE, hx ''c9aa''), (0xA7B0, hx ''ca9e''), (0xA7B1, hx ''ca87''),
     (0xA7B2, hx ''ca9d''), (0xA7C5, hx ''ca82'')]"

definition lowered :: "string \<Rightarrow> string" where
  "lowered s = concat (map (\<lambda>t. case map_of resized (fst t) of Some b \<Rightarrow> b | None \<Rightarrow> ToLower (snd t)) (runes s))"

function TrimLeft :: "string list \<Rightarrow> string \<Rightarrow> string" where
  "TrimLeft chars s = (case find (\<lambda>c. c \<noteq> [] \<and> prefix c s) chars of None \<Rightarrow> s | Some c \<Rightarrow> TrimLeft chars (drop (length c) s))"
  by pat_completeness auto
termination
proof (relation "measure (\<lambda>(chars, s). length s)")
  fix chars and s c :: string
  assume "find (\<lambda>c. c \<noteq> [] \<and> prefix c s) chars = Some c"
  then have "c \<noteq> [] \<and> prefix c s" by (metis (mono_tags, lifting) find_Some_iff)
  then show "((chars, drop (length c) s), chars, s) \<in> measure (\<lambda>(chars, s). length s)" by (auto simp: prefix_def)
qed simp

declare TrimLeft.simps [simp del]

definition Trim :: "string list \<Rightarrow> string \<Rightarrow> string" where
  "Trim chars s = TrimLeft chars (TrimRight chars s)"

subsection \<open>resolver.go\<close>

definition arabicOrdinal :: regex where
  "arabicOrdinal = seqs [lit [0x7B2C], Many white, Group (seqs [times 1 digit_rune, upto_times 2 digit_rune]), Many white, opt (alts [lit [0x4E2A], lit [0x9879], lit [0x6761], lit [0x4EFD]])]"

definition ordinals :: "(string \<times> int) list" \<comment> \<open>first, second, ..., fifth, as an entry or as an item\<close> where
  "ordinals = [(hx ''e7acace4b880e4b8aa'', 0), (hx ''e7acace4b880e9a1b9'', 0), (hx ''e9a696e4b8aa'', 0), (hx ''e7acace4ba8ce4b8aa'', 1), (hx ''e7acace4ba8ce9a1b9'', 1),
     (hx ''e7acace4b889e4b8aa'', 2), (hx ''e7acace4b889e9a1b9'', 2), (hx ''e7acace59b9be4b8aa'', 3), (hx ''e7acace59b9be9a1b9'', 3), (hx ''e7acace4ba94e4b8aa'', 4),
     (hx ''e7acace4ba94e9a1b9'', 4)]"

definition hasCurrentResourcePronoun :: "string \<Rightarrow> bool" \<comment> \<open>this, this file, this item, this resource, it\<close> where
  "hasCurrentResourcePronoun v = list_ex (Contains v) [hx ''e8bf99e4b8aa'', hx ''e8afa5e69687e4bbb6'', hx ''e8afa5e9a1b9'', hx ''e8afa5e8b584e6ba90'', hx ''e5ae83'']"

text \<open>\<open>order\<close> is the order in which the map \<open>ordinals\<close> is visited.\<close>

definition ResolveResource :: "(string \<times> int) list \<Rightarrow> string \<Rightarrow> string list \<Rightarrow> (string \<times> int) result" where
  "ResolveResource order reference resources =
     (if resources = [] then Inl (ErrorNew ''session has no selected resources'')
      else
        let normalized = TrimSpace reference;
            index = (case all_groups arabicOrdinal normalized of g # _ \<Rightarrow> digits_value g - 1
                     | [] \<Rightarrow> (case find (\<lambda>(t, _). Contains normalized t) order of Some (_, n) \<Rightarrow> n | None \<Rightarrow> - 1));
            index = (if Contains normalized (hx ''e69c80e5908ee4b880e4b8aa'') \<or> Contains normalized (hx ''e69c80e5908ee4b880e9a1b9'') then int (length resources) - 1 else index);
            index = (if index = - 1 \<and> length resources = 1 \<and> hasCurrentResourcePronoun normalized then 0 else index)
        in if index < 0 then Inl (ErrorNew ''resource reference is ambiguous; use an explicit ordinal'')
           else if index \<ge> int (length resources) then Inl (ErrorNew ''resource ordinal is outside the selected list'')
           else Inr (resources ! nat index, index))"

subsection \<open>Reading the request\<close>

definition detectFileAction :: "string \<Rightarrow> string" where
  "detectFileAction request =
     (let n = ToLower (TrimSpace request) in
      if list_ex (Contains n) [hx ''e681a2e5a48d'', ''restore''] \<and> list_ex (Contains n) [hx ''e69687e4bbb6'', hx ''e7acac'', hx ''e8bf99e4b8aa'', hx ''e5ae83''] then ''restore''
      else if list_ex (Contains n) [hx ''e99a94e7a6bb'', ''quarantine''] then ''quarantine''
      else if list_ex (Contains n) [hx ''e696b0e5bbba'', hx ''e5889be5bbba'', ''create''] then ''create''
      else if list_ex (Contains n) [hx ''e588a0e999a4'', ''delete'', ''remove''] then ''delete''
      else [])"

definition absolute_path :: regex where
  "absolute_path = seqs [asc ''/'', many1 (Class False [(0x09, 0x0A), (0x0C, 0x0D), (0x20, 0x20), (0x22, 0x22), (0x27, 0x27), (0xFF0C, 0xFF0C), (0x3002, 0x3002), (0xFF1B, 0xFF1B), (0x3B, 0x3B)])]"

text \<open>\<open>FindString\<close> gives the first match or the empty text.\<close>

definition FindString :: "regex \<Rightarrow> string \<Rightarrow> string" where
  "FindString r s = (case find_all r [] (runes s) of [] \<Rightarrow> [] | (_, p, q) # _ \<Rightarrow> between p q)"

definition firstAbsolutePath :: "string \<Rightarrow> string" where
  "firstAbsolutePath request = TrimRight (ascii ''.,;:'' @ [hx ''efbc8c'', hx ''e38082'', hx ''efbc9b'', hx ''efbc9a'']) (FindString absolute_path request)"

definition alnum :: regex where "alnum = Class True [(0x41, 0x5A), (0x61, 0x7A), (0x30, 0x39), (0x212A, 0x212A), (0x17F, 0x17F)]"

definition name_part :: regex where
  "name_part = Class True [(0x41, 0x5A), (0x61, 0x7A), (0x30, 0x39), (0x2E, 0x2E), (0x5F, 0x5F), (0x2D, 0x2D), (0x212A, 0x212A), (0x17F, 0x17F)]"

definition name_border :: regex where
  "name_border = Class False [(0x41, 0x5A), (0x61, 0x7A), (0x30, 0x39), (0x5F, 0x5F), (0x2E, 0x2E), (0x2F, 0x2F), (0x2D, 0x2D), (0x212A, 0x212A), (0x17F, 0x17F)]"

definition plain_filename :: regex where
  "plain_filename = seqs [alts [Begin, name_border], Group (seqs [alnum, upto_times 127 name_part, asc ''.'', alnum, upto_times 16 name_part]), alts [End, name_border]]"

definition firstPlainFilename :: "string \<Rightarrow> string" where
  "firstPlainFilename request = (case all_groups plain_filename request of [] \<Rightarrow> [] | g # _ \<Rightarrow> Base g)"

definition filePathFromRequest :: "string \<Rightarrow> string" where
  "filePathFromRequest request =
     (let path = firstAbsolutePath request in
      if path = [] then []
      else if Ext (Base path) = [] \<and> firstPlainFilename request \<noteq> [] then pathJoin [path, firstPlainFilename request]
      else path)"

definition content_markers :: "string list" \<comment> \<open>the content is (2), write, fill in (2), content:\<close> where
  "content_markers = [hx ''e58685e5aeb9e698af'', hx ''e58685e5aeb9e4b8ba'', hx ''e58699e585a5'', hx ''e5a1abe58699'', hx ''e5a1abe585a5'', ''content:'']"

definition content_cutset :: "string list" where
  "content_cutset = [[CHR 0x20], [CHR 0x09], [CHR 0x0D], [CHR 0x0A], [CHR 0x22], [CHR 0x27], hx ''e2809c'', hx ''e2809d'', hx ''e28098'', hx ''e28099'', hx ''efbc8c'', hx ''e38082'', hx ''efbc9b'', [CHR 0x3B], hx ''efbc9a'', [CHR 0x3A], hx ''e59ca8'', hx ''e588b0'', hx ''e887b3'']"

text \<open>The first marker that occurs, and what follows it; \<open>None\<close> is the panic of \<open>request[index+len(marker):]\<close>.\<close>

definition marked_content :: "string \<Rightarrow> string \<Rightarrow> nat \<Rightarrow> string option" where
  "marked_content request marker index =
     (if length request < index + length marker then None
      else
        let content = TrimSpace (drop (index + length marker) request); path = firstAbsolutePath content;
            content = (if path = [] then content else (case Index content path of None \<Rightarrow> content | Some i \<Rightarrow> take i content))
        in Some (Trim content_cutset content))"

definition parseCreateFileContent :: "string \<Rightarrow> string \<Rightarrow> string option" where
  "parseCreateFileContent date request =
     (if Contains request (hx ''e4bb8ae5a4a9e697a5e69c9f'') \<or> Contains request (hx ''e4bb8ae697a5e697a5e69c9f'') \<or> Contains (lowered request) ''today'' then Some date
      else (case find (\<lambda>m. Index (lowered request) m \<noteq> None) content_markers of
          None \<Rightarrow> Some []
        | Some m \<Rightarrow> marked_content request m (the (Index (lowered request) m))))"

definition parseCreateFileRequestAt :: "string \<Rightarrow> string \<Rightarrow> (string \<times> string) result option" where
  "parseCreateFileRequestAt date request =
     (let path = filePathFromRequest request in
      if path = [] then Some (Inl (ErrorNew ''file.create requires an absolute allowlisted target path in the request''))
      else map_option (\<lambda>content. Inr (path, content)) (parseCreateFileContent date request))"

definition resolveFileActionTarget :: "(string \<times> int) list \<Rightarrow> string \<Rightarrow> string list \<Rightarrow> (string \<times> int \<times> string) result" where
  "resolveFileActionTarget order request resources =
     (if filePathFromRequest request \<noteq> [] then Inr (filePathFromRequest request, - 1, ''request.path'')
      else (case ResolveResource order request resources of Inl e \<Rightarrow> Inl e | Inr (r, i) \<Rightarrow> Inr (r, i, ''session.selected_resources'')))"

subsection \<open>runFileAction\<close>

record 'x file_targets =
  ft_SnapshotFile :: "string \<Rightarrow> string \<Rightarrow> 'x \<Rightarrow> TargetSnapshot result \<times> 'x"
  ft_SnapshotNewFile :: "string \<Rightarrow> string \<Rightarrow> 'x \<Rightarrow> TargetSnapshot result \<times> 'x"

record file_env =
  fe_io :: prep_env
  fe_prepare :: prep_env
  fe_proposalID :: string
  fe_date :: string
  fe_order :: "(string \<times> int) list"

text \<open>What the switch over the kind works out before the snapshot is taken.\<close>

record file_plan =
  fp_tool :: string
  fp_path :: string
  fp_index :: int
  fp_source :: string
  fp_arguments :: go_map
  fp_rollback :: string
  fp_description :: string

definition ordinal_text :: "string \<Rightarrow> int \<Rightarrow> string \<Rightarrow> string" where
  "ordinal_text a index b = a @ itoa (index + 1) @ b"

definition pinned :: "Session \<Rightarrow> string \<Rightarrow> string" where
  "pinned s k = (case map_of (se_PinnedContext s) k of None \<Rightarrow> [] | Some x \<Rightarrow> x)"

definition plan_create :: "file_env \<Rightarrow> string \<Rightarrow> file_plan result option" where
  "plan_create env request =
     (case parseCreateFileRequestAt (fe_date env) request of
        None \<Rightarrow> None
      | Some (Inl e) \<Rightarrow> Some (Inl e)
      | Some (Inr (path, content)) \<Rightarrow>
        Some (Inr \<lparr>fp_tool = ''file.create'', fp_path = path, fp_index = - 1, fp_source = ''request.path'', fp_arguments = [(''content'', JStr content)],
          fp_rollback = ''delete created file through reversible quarantine'', fp_description = hx ''e696b0e5bbba20616c6c6f776c697374204c616220e69687e4bbb6''\<rparr>))"

definition plan_restore :: "file_env \<Rightarrow> string \<Rightarrow> Session \<Rightarrow> file_plan result" where
  "plan_restore env request s =
     (case ResolveResource (fe_order env) request (se_SelectedResources s) of Inl e \<Rightarrow> Inl e
      | Inr (resource, index) \<Rightarrow>
        if pinned s (''quarantine_id:'' @ resource) = [] \<or> pinned s (''quarantine_path:'' @ resource) = []
        then Inl (ErrorNew ''selected resource has no committed quarantine context'')
        else Inr \<lparr>fp_tool = ''file.restore_quarantine'', fp_path = pinned s (''quarantine_path:'' @ resource), fp_index = index, fp_source = ''session.selected_resources'',
          fp_arguments = [(''quarantine_id'', JStr (pinned s (''quarantine_id:'' @ resource)))], fp_rollback = ''re-quarantine restored file'',
          fp_description = ordinal_text (hx ''e681a2e5a48de7acac20'') index (hx ''20e4b8aae5b7b2e98089e68ba9204c616220e69687e4bbb6'')\<rparr>)"

definition plan_removal :: "file_env \<Rightarrow> bool \<Rightarrow> string \<Rightarrow> Session \<Rightarrow> file_plan result" where
  "plan_removal env delete request s =
     (case resolveFileActionTarget (fe_order env) request (se_SelectedResources s) of Inl e \<Rightarrow> Inl e
      | Inr (path, index, source) \<Rightarrow>
        Inr \<lparr>fp_tool = (if delete then ''file.delete'' else ''file.quarantine''), fp_path = path, fp_index = index, fp_source = source, fp_arguments = [],
          fp_rollback = ''restore file from quarantine manifest'',
          fp_description = (if delete then
              (if index \<ge> 0 then ordinal_text (hx ''e588a0e999a4e7acac20'') index (hx ''20e4b8aae5b7b2e98089e68ba9204c616220e69687e4bbb6efbc88e58fafe681a2e5a48de99a94e7a6bbefbc89'')
               else hx ''e588a0e999a420616c6c6f776c697374204c616220e69687e4bbb6efbc88e58fafe681a2e5a48de99a94e7a6bbefbc89'')
            else if index \<ge> 0 then ordinal_text (hx ''e99a94e7a6bbe7acac20'') index (hx ''20e4b8aae5b7b2e98089e68ba9204c616220e69687e4bbb6'')
            else hx ''e99a94e7a6bbe5b7b2e98089e68ba9204c616220e69687e4bbb6'')\<rparr>)"

definition plan_file_action :: "file_env \<Rightarrow> string \<Rightarrow> string \<Rightarrow> Session \<Rightarrow> file_plan result option" where
  "plan_file_action env kind request s =
     (if kind = ''create'' then plan_create env request
      else if kind = ''restore'' then Some (plan_restore env request s)
      else if kind = ''delete'' \<or> kind = ''quarantine'' then Some (plan_removal env (kind = ''delete'') request s)
      else Some (Inl (ErrorNew (''unsupported file action kind '' @ kind))))"

definition snapshot_plan :: "'x file_targets \<Rightarrow> file_plan \<Rightarrow> 'x \<Rightarrow> TargetSnapshot result \<times> 'x" where
  "snapshot_plan targets plan =
     (if fp_tool plan = ''file.create'' then ft_SnapshotNewFile targets (fp_path plan) (fp_path plan) else ft_SnapshotFile targets (fp_path plan) (fp_path plan))"

definition json_step :: "Step \<Rightarrow> json" where
  "json_step st = JObj ([(''step_id'', JStr (st_ID st)), (''description'', JStr (st_Description st))] @ omit_str ''tool'' (st_Tool st) @ [(''state'', JStr (st_State st))])"

definition file_proposal :: "file_env \<Rightarrow> Task \<Rightarrow> file_plan \<Rightarrow> TargetRef \<Rightarrow> ActionProposal" where
  "file_proposal env v plan target =
     \<lparr>ap_ProposalID = fe_proposalID env, ap_TaskID = t_ID v, ap_SessionID = t_SessionID v, ap_Tool = fp_tool plan, ap_Effect = Write, ap_Arguments = Some (fp_arguments plan),
      ap_Target = target, ap_BatchSize = 1, ap_Reversible = True, ap_RollbackStrategy = fp_rollback plan, ap_LabMode = True, ap_SystemState = [],
      ap_Intent = \<lparr>ic_OriginalRequest = t_OriginalRequest v, ic_Objective = t_Objective v, ic_ObjectiveTargets = [target], ic_PlanStep = fp_description plan,
        ic_PlanTargets = [target], ic_AuthorizedRelations = []\<rparr>\<rparr>"

text \<open>From the snapshot on.\<close>

definition submit_file_action :: "ActionPreparer \<Rightarrow> file_env \<Rightarrow> Task \<Rightarrow> file_plan \<Rightarrow> TargetSnapshot \<Rightarrow> agent \<times> 'x \<Rightarrow> (unit, 'x) agent_result" where
  "submit_file_action pp env v plan snapshot s =
     appending (fe_io env) 3 v ''INTENT_PARSED''
       (JObj [(''intent_type'', JStr (t_IntentType v)), (''resolved_resource'', JStr (fp_path plan)), (''ordinal_index'', json_int (fp_index plan)), (''source'', JStr (fp_source plan))])
       (\<lambda>_.
          let target = \<lparr>tr_Type = ''file'', tr_ID = ts_ID snapshot, tr_Criticality = []\<rparr>;
              v = v\<lparr>t_Plan := [\<lparr>st_ID = ''step_file_action'', st_Description = fp_description plan, st_Tool = fp_tool plan, st_State = ''WAITING_APPROVAL''\<rparr>], t_CurrentStep := 0\<rparr>
          in saving (fe_io env) 4 v (appending (fe_io env) 5 v ''PLAN_CREATED''
               (JObj [(''steps'', JArr (map json_step (t_Plan v))),
                      (''completion_criteria'', JStr ''approved action executes against the same file snapshot and verification succeeds'')])
               (\<lambda>_. appending (fe_io env) 6 v ''DECISION_RECORDED''
                  (JObj [(''objective'', JStr (t_Objective v)), (''decision_summary'', JStr (fp_description plan)), (''selected_tool'', JStr (fp_tool plan)), (''target'', json_target target),
                         (''rollback_strategy'', JStr (fp_rollback plan))])
                  (\<lambda>_ s. case Prepare pp (fe_prepare env) v (file_proposal env v plan target) snapshot (fst s) of
                     ((w, r), g) \<Rightarrow> ((w, map_sum id (\<lambda>_. ()) r), g, snd s))))) s"

definition runFileAction :: "ActionPreparer option \<Rightarrow> 'x file_targets option \<Rightarrow> file_env \<Rightarrow> Task \<Rightarrow> string \<Rightarrow> string \<Rightarrow> agent \<times> 'x \<Rightarrow> (unit, 'x) agent_result option" where
  "runFileAction actions fileTargets env v kind request s =
     (case (actions, fileTargets) of
        (Some pp, Some targets) \<Rightarrow>
          (case get_session (t_SessionID v) (fst s) of
             (Inl err, g) \<Rightarrow> Some ((v, Inl err), g, snd s)
           | (Inr session, g) \<Rightarrow>
             let v = Transition Planning (pe_clock (fe_io env) 1) (v\<lparr>t_SelectedResources := se_SelectedResources session, t_IntentType := ''file_'' @ kind\<rparr>) in
             (case save_task (fe_io env) 2 v g of
                (Inl err, g) \<Rightarrow> Some ((v, Inl err), g, snd s)
              | (Inr _, g) \<Rightarrow>
                (case plan_file_action env kind request session of
                   None \<Rightarrow> None
                 | Some (Inl err) \<Rightarrow> Some ((v, Inl err), g, snd s)
                 | Some (Inr plan) \<Rightarrow>
                   (case snapshot_plan targets plan (snd s) of
                      (Inl err, x) \<Rightarrow> Some ((v, Inl err), g, x)
                    | (Inr snapshot, x) \<Rightarrow> Some (submit_file_action pp env v plan snapshot (g, x))))))
      | _ \<Rightarrow> Some ((v, Inl (ErrorNew ''file action workflow is not configured; read-only investigation remains available'')), s))"

subsection \<open>What a request can start\<close>

text \<open>The pending action of a task is the one worked out from the request: its tool, its arguments and a snapshot of its path.\<close>

definition pending_file_action :: "ActionPreparer option \<Rightarrow> 'x file_targets option \<Rightarrow> file_env \<Rightarrow> string \<Rightarrow> string \<Rightarrow> 'x \<Rightarrow> Task \<Rightarrow> bool" where
  "pending_file_action actions fileTargets env kind request x w \<longleftrightarrow> (\<exists>pp targets session plan snapshot y e.
     actions = Some pp \<and> fileTargets = Some targets \<and> plan_file_action env kind request session = Some (Inr plan) \<and> snapshot_plan targets plan x = (Inr snapshot, y)
     \<and> t_PendingAction w = MarshalEnvelope e \<and> VerifySignature (pp_Secret pp) e = Inr () \<and> ae_TargetSnapshot e = snapshot
     \<and> ap_Tool (ae_Proposal e) = fp_tool plan \<and> ap_Arguments (ae_Proposal e) = Some (fp_arguments plan) \<and> ap_Reversible (ae_Proposal e)
     \<and> fp_tool plan \<in> {''file.create'', ''file.quarantine'', ''file.delete'', ''file.restore_quarantine''})"

lemma plan_file_action_tool: "plan_file_action env kind request s = Some (Inr plan) \<Longrightarrow> fp_tool plan \<in> {''file.create'', ''file.quarantine'', ''file.delete'', ''file.restore_quarantine''}"
  by (auto simp: plan_file_action_def plan_create_def plan_restore_def plan_removal_def split: if_splits sum.splits prod.splits option.splits)

lemma submit_file_action_pending:
  fixes s :: "agent \<times> 'x"
  assumes "submit_file_action pp env v plan snapshot s = ((w, Inr ()), t)"
  shows "t_State w = WaitingApproval \<and> (\<exists>e. t_PendingAction w = MarshalEnvelope e \<and> VerifySignature (pp_Secret pp) e = Inr () \<and> ae_TargetSnapshot e = snapshot
     \<and> ap_Tool (ae_Proposal e) = fp_tool plan \<and> ap_Arguments (ae_Proposal e) = Some (fp_arguments plan) \<and> ap_Reversible (ae_Proposal e))"
proof -
  let ?P = "\<lambda>w. t_State w = WaitingApproval \<and> (\<exists>e. t_PendingAction w = MarshalEnvelope e \<and> VerifySignature (pp_Secret pp) e = Inr () \<and> ae_TargetSnapshot e = snapshot
     \<and> ap_Tool (ae_Proposal e) = fp_tool plan \<and> ap_Arguments (ae_Proposal e) = Some (fp_arguments plan) \<and> ap_Reversible (ae_Proposal e))"
  define Q :: "(unit, 'x) agent_result \<Rightarrow> bool" where "Q r \<longleftrightarrow> (is_ok (snd (fst r)) \<longrightarrow> ?P (fst (fst r)))" for r
  have fail: "Q ((z, Inl err), s1)" for z err s1 by (simp add: Q_def)
  have prep: "Q ((z, map_sum id (\<lambda>_. ()) r), g', x)" if "Prepare pp e1 u (file_proposal env u plan target) snapshot g = ((z, r), g')" for e1 u target g z r g' x
    using Prepare_task [OF that] by (cases r) (auto simp: Q_def file_proposal_def)
  have "Q (submit_file_action pp env v plan snapshot s)" unfolding submit_file_action_def Let_def
    by (intro appending_post [where Q = Q] saving_post [where Q = Q]) (auto simp: fail split: prod.split intro: prep)
  with assms show ?thesis by (simp add: Q_def)
qed

text \<open>A file action that is reported as prepared waits for approval with exactly one signed proposal, for the tool, the arguments and the path worked out from the request,
  bound to the snapshot taken of that path, and reversible. Nothing is executed.\<close>

theorem file_action_waits:
  "case runFileAction actions fileTargets env v kind request s of
     Some ((w, Inr _), _) \<Rightarrow> t_State w = WaitingApproval \<and> pending_file_action actions fileTargets env kind request (snd s) w
   | _ \<Rightarrow> True"
proof -
  have "t_State w = WaitingApproval \<and> pending_file_action actions fileTargets env kind request (snd s) w"
    if R: "runFileAction actions fileTargets env v kind request s = Some ((w, Inr ()), t)" for w t
  proof -
    from R obtain pp targets session plan snapshot y u g where *: "actions = Some pp" "fileTargets = Some targets" "plan_file_action env kind request session = Some (Inr plan)"
      "snapshot_plan targets plan (snd s) = (Inr snapshot, y)" "submit_file_action pp env u plan snapshot (g, y) = ((w, Inr ()), t)"
      by (auto simp: runFileAction_def Let_def split: option.splits prod.splits sum.splits)
    from submit_file_action_pending [OF *(5)] * plan_file_action_tool [OF *(3)] show ?thesis unfolding pending_file_action_def by blast
  qed
  then show ?thesis by (auto split: option.split prod.split sum.split)
qed

subsection \<open>A request that stops the server\<close>

text \<open>The letter U+023A has two bytes, its lower case U+2C65 three.\<close>

definition panic_request :: string where
  "panic_request = ''create /lab/a.txt '' @ hx ''c8bac8bac8ba'' @ hx ''e58699e585a5'' @ ''x''"


text \<open>The ordinals in words are looked up by visiting a Go map, whose order is not fixed: a request that names two of them selects one or the other from run to run.\<close>

theorem ordinal_not_determined:
  "ResolveResource ordinals (hx ''e4b88de8a681e7acace4b880e4b8aaefbc8ce588a0e999a4e7acace4ba8ce4b8aa'') [''a'', ''b''] = Inr (''a'', 0)
   \<and> ResolveResource (rev ordinals) (hx ''e4b88de8a681e7acace4b880e4b8aaefbc8ce588a0e999a4e7acace4ba8ce4b8aa'') [''a'', ''b''] = Inr (''b'', 1)"
  by code_simp

end
