(* ===== verification/Metrics.thy ===== *)
theory Metrics
  imports File_Action
begin

text \<open>
  The fixed read of CPU and memory metrics in \<open>Run\<close> of \<open>internal/agent/orchestrator.go\<close>, with the functions that print its findings. A float is
  its mantissa and binary exponent, \<open>%.1f\<close> rounds the exact value to the even neighbour in a tie.
\<close>

subsection \<open>Printing numbers\<close>

definition round_half_even :: "int \<Rightarrow> int \<Rightarrow> int" where
  "round_half_even n d = (let q = n div d; r = n mod d in if 2 * r > d \<or> 2 * r = d \<and> odd q then q + 1 else q)"

definition fixed :: "nat \<Rightarrow> float64 \<Rightarrow> string" where
  "fixed d x =
     (case x of (a, b) \<Rightarrow>
        let n = \<bar>a\<bar> * 10 ^ d; q = (if 0 \<le> b then n * 2 ^ nat b else round_half_even n (2 ^ nat (- b)));
            ds = pad_nat (d + 1) (nat q); k = length ds - d
        in (if a < 0 then ''-'' else []) @ take k ds @ ''.'' @ drop k ds)"

definition bytesText :: "float64 \<Rightarrow> string" where
  "bytesText v = (case v of (a, b) \<Rightarrow> if float_less v (1, 30) then fixed 1 (a, b - 20) @ '' MiB'' else fixed 2 (a, b - 30) @ '' GiB'')"

definition number :: "schema_env \<Rightarrow> json option \<Rightarrow> float64" where
  "number sv v = (case numeric sv v of Some n \<Rightarrow> n | None \<Rightarrow> (0, 0))"

subsection \<open>The intent\<close>

record metricIntent =
  mi_CPU :: bool
  mi_Memory :: bool

definition parseMetricIntent :: "string \<Rightarrow> metricIntent result" where
  "parseMetricIntent request =
     (let n = ToLower (TrimSpace request);
          intent = \<lparr>mi_CPU = Contains n ''cpu'' \<or> Contains n (hx ''e5a484e79086e599a8''), mi_Memory = Contains n (hx ''e58685e5ad98'') \<or> Contains n ''memory''\<rparr>
      in if \<not> mi_CPU intent \<and> \<not> mi_Memory intent
         then Inl (ErrorNew (hx ''e5bd93e5898de5b7b2e5ae9ee78eb0e79a84e7bab5e58887e78987e4bb85e694afe68c81204350552fe58685e5ad98e58faae8afbbe69fa5e8afa2''))
         else Inr intent)"

definition ClassifyMetricIntent :: "string \<Rightarrow> string list result" where
  "ClassifyMetricIntent request =
     (case parseMetricIntent request of Inl e \<Rightarrow> Inl e
      | Inr intent \<Rightarrow> Inr ((if mi_CPU intent then [''cpu''] else []) @ (if mi_Memory intent then [''memory''] else [])))"

definition metric_steps :: "metricIntent \<Rightarrow> Step list" where
  "metric_steps intent =
     (if mi_CPU intent then [\<lparr>st_ID = ''step_cpu'', st_Description = hx ''e9809ae8bf87204d435020e8afbbe58f96e79c9fe5ae9e2043505520e68c87e6a087'', st_Tool = ''system.get_cpu_metrics'', st_State = ''PENDING''\<rparr>] else [])
     @ (if mi_Memory intent then [\<lparr>st_ID = ''step_memory'', st_Description = hx ''e9809ae8bf87204d435020e8afbbe58f96e79c9fe5ae9ee58685e5ad98e68c87e6a087'', st_Tool = ''system.get_memory_metrics'', st_State = ''PENDING''\<rparr>] else [])"

subsection \<open>The findings\<close>

definition memory_part :: "go_map \<Rightarrow> go_map" where
  "memory_part out = (case map_of out ''memory'' of Some (JObj m) \<Rightarrow> m | _ \<Rightarrow> [])"

definition summarizeFinding :: "schema_env \<Rightarrow> string \<Rightarrow> go_map \<Rightarrow> string" where
  "summarizeFinding sv tool out =
     (if tool = ''system.get_cpu_metrics'' then hx ''43505520e4bdbfe794a8e78e8720'' @ fixed 1 (number sv (map_of out ''usage_percent'')) @ ''%''
      else if tool = ''system.get_memory_metrics'' then
        hx ''e58685e5ad98e4bdbfe794a8e78e8720'' @ fixed 1 (number sv (map_of out ''usage_percent'')) @ hx ''25efbc88e5b7b2e794a820''
          @ bytesText (number sv (map_of (memory_part out) ''used_bytes'')) @ hx ''202f20e680bbe8aea120'' @ bytesText (number sv (map_of (memory_part out) ''total_bytes'')) @ hx ''efbc89''
      else tool @ hx ''20e8bf94e59b9ee7bb93e69e84e58c96e8af81e68dae'')"

definition formatAnswer :: "schema_env \<Rightarrow> (string \<times> go_map) list \<Rightarrow> string" where
  "formatAnswer sv outputs = join [CHR 0x0A] ([hx ''e5b7b2e9809ae8bf87e79c9fe5ae9e204d435020e5b7a5e585b7e8afbbe58f96e5bd93e5898d204c696e757820e78ab6e68081efbc9a'']
     @ (case map_of outputs ''system.get_cpu_metrics'' of None \<Rightarrow> []
        | Some out \<Rightarrow> [hx ''2d20435055efbc9ae98787e6a0b7e7aa97e58fa3e58685e4bdbfe794a8e78e87e7baa620'' @ fixed 1 (number sv (map_of out ''usage_percent'')) @ hx ''25e38082''])
     @ (case map_of outputs ''system.get_memory_metrics'' of None \<Rightarrow> []
        | Some out \<Rightarrow> [hx ''2d20e58685e5ad98efbc9ae4bdbfe794a8e78e87e7baa620'' @ fixed 1 (number sv (map_of out ''usage_percent'')) @ hx ''25efbc8ce5b7b2e794a820'' @ bytesText (number sv (map_of (memory_part out) ''used_bytes''))
            @ hx ''efbc8ce680bbe8aea120'' @ bytesText (number sv (map_of (memory_part out) ''total_bytes'')) @ hx ''efbc8ce58fafe794a820'' @ bytesText (number sv (map_of (memory_part out) ''available_bytes''))
            @ hx ''e38082'']))"

subsection \<open>The loop over the plan\<close>

record metric_env =
  me_io :: prep_env
  me_proposalID :: "nat \<Rightarrow> string"
  me_msgID :: string

definition metric_proposal :: "metric_env \<Rightarrow> nat \<Rightarrow> Task \<Rightarrow> Step \<Rightarrow> ActionProposal" where
  "metric_proposal env i v step =
     (let target = \<lparr>tr_Type = ''host'', tr_ID = ''local'', tr_Criticality = []\<rparr> in
      \<lparr>ap_ProposalID = me_proposalID env i, ap_TaskID = t_ID v, ap_SessionID = t_SessionID v, ap_Tool = st_Tool step, ap_Effect = Read, ap_Arguments = Some [],
       ap_Target = target, ap_BatchSize = 1, ap_Reversible = False, ap_RollbackStrategy = [], ap_LabMode = False, ap_SystemState = [],
       ap_Intent = \<lparr>ic_OriginalRequest = t_OriginalRequest v, ic_Objective = t_Objective v, ic_ObjectiveTargets = [target], ic_PlanStep = st_Description step,
         ic_PlanTargets = [target], ic_AuthorizedRelations = []\<rparr>\<rparr>)"

definition set_step :: "nat \<Rightarrow> string \<Rightarrow> Task \<Rightarrow> Task" where
  "set_step i st v = v\<lparr>t_Plan := (t_Plan v)[i := (t_Plan v ! i)\<lparr>st_State := st\<rparr>]\<rparr>"

text \<open>A structured result: it is kept with its finding.\<close>

definition metric_result :: "schema_env \<Rightarrow> metric_env \<Rightarrow> nat \<Rightarrow> nat \<Rightarrow> Task \<Rightarrow> Step \<Rightarrow> go_map \<Rightarrow> agent \<times> 'x \<Rightarrow> (go_map, 'x) agent_result" where
  "metric_result sv env n i v step out s =
     appending (me_io env) (n + 10) v ''TOOL_RESULT'' (JObj [(''tool'', JStr (st_Tool step)), (''structured_output'', JObj out)])
       (\<lambda>ev s.
          let finding = summarizeFinding sv (st_Tool step) out; v = set_step i ''COMPLETED'' v;
              v = v\<lparr>t_CompletedSteps := t_CompletedSteps v @ [st_ID step], t_Findings := t_Findings v @ [finding], t_EvidenceRefs := t_EvidenceRefs v @ [evidence_ref v ev]\<rparr>;
              v = Transition Investigating (pe_clock (me_io env) (n + 11)) v
          in saving (me_io env) (n + 12) v (appending (me_io env) (n + 13) v ''FINDINGS_UPDATED''
               (JObj [(''finding'', JStr finding), (''evidence_ref'', JStr (evidence_ref v ev))]) (\<lambda>_ s. ((v, Inr out), s))) s) s"

definition metric_call :: "'x Orchestrator \<Rightarrow> metric_env \<Rightarrow> nat \<Rightarrow> nat \<Rightarrow> Task \<Rightarrow> Step \<Rightarrow> agent \<times> 'x \<Rightarrow> (go_map, 'x) agent_result" where
  "metric_call o1 env n i v step s =
     appending (me_io env) (n + 9) v ''TOOL_CALL'' (JObj [(''server'', JStr ''system''), (''tool'', JStr (st_Tool step)), (''arguments'', JObj [])])
       (\<lambda>_ s. case o_CallTool o1 ''system'' (st_Tool step) [] (snd s) of
          (Inl err, x) \<Rightarrow> ((v, Inl err), fst s, x)
        | (Inr result, x) \<Rightarrow>
          if cr_IsError result then ((v, Inl (ErrorNew (''tool '' @ st_Tool step @ '': '' @ textResult result))), fst s, x)
          else (case cr_StructuredContent result of
              Some (JObj out) \<Rightarrow> metric_result (o_Schema o1) env n i v step out (fst s, x)
            | _ \<Rightarrow> ((v, Inl (ErrorNew (''tool '' @ st_Tool step @ '' returned no structured object''))), fst s, x))) s"

text \<open>One step of the plan: recorded, checked by the safety pipeline, called.\<close>

definition metric_step :: "'x Orchestrator \<Rightarrow> metric_env \<Rightarrow> nat \<Rightarrow> nat \<Rightarrow> Task \<Rightarrow> agent \<times> 'x \<Rightarrow> (go_map, 'x) agent_result" where
  "metric_step o1 env n i v s =
     (let v = Transition Investigating (pe_clock (me_io env) n) ((set_step i ''RUNNING'' v)\<lparr>t_CurrentStep := int i\<rparr>); step = t_Plan v ! i in
      saving (me_io env) (n + 1) v
        (appending (me_io env) (n + 2) v ''DECISION_RECORDED''
           (JObj [(''objective'', JStr (t_Objective v)), (''current_step'', JStr (st_Description step)), (''decision_summary'', JStr (hx ''e98089e68ba9e58faae8afbbe7b3bbe7bb9fe6849fe79fa5e5b7a5e585b7e694b6e99b86e5ae8ce68890e69da1e4bbb6e68980e99c80e8af81e68dae'')),
                  (''selected_tool'', JStr (st_Tool step)), (''expected_observation'', JStr (hx ''e7bb93e69e84e58c96204c696e757820e5ae9ee697b6e68c87e6a087''))])
           (\<lambda>_ s. case o_Safety o1 of None \<Rightarrow> ((v, Inl (ErrorNew ''safety pipeline is not configured'')), s)
            | Some evaluate \<Rightarrow>
              let p = metric_proposal env i v step in
              (case ActionProposal_Digest p of Inl err \<Rightarrow> ((v, Inl err), s)
               | Inr digest \<Rightarrow>
                 appending (me_io env) (n + 3) v ''ACTION_PROPOSED''
                   (JObj [(''proposal_id'', JStr (ap_ProposalID p)), (''tool'', JStr (ap_Tool p)), (''effect'', JStr (ap_Effect p)), (''target'', json_target (ap_Target p)),
                          (''proposal_digest'', JStr digest)])
                   (\<lambda>_.
                      let safety = evaluate p in
                      appending (me_io env) (n + 4) v ''STATIC_GUARD_RESULT'' (json_decision (pr_Static safety))
                        (\<lambda>_ s. if gd_Outcome (pr_Static safety) = Deny
                           then ((v, Inl (ErrorNew (''static guard denied '' @ st_Tool step @ '': '' @ gd_Reason (pr_Static safety)))), s)
                           else appending (me_io env) (n + 5) v ''INTENT_GUARD_RESULT'' (json_intent_decision (pr_Intent safety))
                             (\<lambda>_ s. if id_Outcome (pr_Intent safety) = Deny
                                then ((v, Inl (ErrorNew (''intent guard denied '' @ st_Tool step @ '': '' @ id_Reason (pr_Intent safety)))), s)
                                else appending (me_io env) (n + 6) v ''RISK_EVALUATED'' (json_risk (pr_Risk safety))
                                  (\<lambda>_ s. if gd_Outcome (pr_Final safety) \<noteq> Allow
                                     then ((v, Inl (ErrorNew (''safety pipeline did not allow read tool '' @ st_Tool step @ '': '' @ gd_Reason (pr_Final safety)))), s)
                                     else metric_call o1 env n i v step s) s) s)) s))) s)"

text \<open>\<open>calls\<close> counts as the index does. Step \<open>i\<close> uses the clock readings and fresh ids from \<open>20 * (i + 1)\<close> on.\<close>

fun metric_loop :: "'x Orchestrator \<Rightarrow> metric_env \<Rightarrow> nat list \<Rightarrow> Task \<Rightarrow> (string \<times> go_map) list \<Rightarrow> agent \<times> 'x \<Rightarrow> ((string \<times> go_map) list, 'x) agent_result" where
  "metric_loop o1 env [] v outputs s = ((v, Inr outputs), s)"
| "metric_loop o1 env (i # is) v outputs s =
     (if int i \<ge> MaxIterations \<or> int i \<ge> MaxToolCalls then ((v, Inl (ErrorNew ''agent execution limit reached'')), s)
      else (case metric_step o1 env (20 * (i + 1)) i v s of
          ((w, Inl err), s) \<Rightarrow> ((w, Inl err), s)
        | ((w, Inr out), s) \<Rightarrow> metric_loop o1 env is w ((st_Tool (t_Plan w ! i), out) # outputs) s))"

definition metric_session :: "metric_env \<Rightarrow> Task \<Rightarrow> string \<Rightarrow> Session \<Rightarrow> Session result" where
  "metric_session env v answer s =
     Inr (s\<lparr>se_Messages := se_Messages s @ [\<lparr>ms_ID = me_msgID env, ms_Role = RoleAssistant, ms_Content = answer, ms_TaskID = t_ID v, ms_CreatedAt = pe_clock (me_io env) 12\<rparr>],
            se_Summary := hx ''e5b7b2e5ae8ce68890e7b3bbe7bb9f204350552fe58685e5ad98e58faae8afbbe6849fe79fa5'', se_UpdatedAt := pe_clock (me_io env) 13\<rparr>)"

definition complete_metrics :: "schema_env \<Rightarrow> metric_env \<Rightarrow> Task \<Rightarrow> (string \<times> go_map) list \<Rightarrow> agent \<times> 'x \<Rightarrow> (unit, 'x) agent_result" where
  "complete_metrics sv env v outputs s =
     (if length (t_CompletedSteps v) \<noteq> length (t_Plan v) then ((v, Inl (ErrorNew ''completion criteria not met'')), s)
      else
        let answer = formatAnswer sv outputs; v = Transition Completed (pe_clock (me_io env) 10) v in
        saving (me_io env) 11 v (\<lambda>s.
          case update_session (t_SessionID v) (metric_session env v answer) (fst s) of (Inl err, g) \<Rightarrow> ((v, Inl err), g, snd s)
          | (Inr _, g) \<Rightarrow>
            appending (me_io env) 14 v ''TASK_COMPLETED'' (JObj [(''completion_criteria_met'', JBool True)])
              (\<lambda>_. appending (me_io env) 15 v ''FINAL'' (JObj [(''answer'', JStr answer)]) (\<lambda>_ s. ((v, Inr ()), s))) (g, snd s)) s)"

definition runMetrics :: "'x Orchestrator \<Rightarrow> metric_env \<Rightarrow> metricIntent \<Rightarrow> Task \<Rightarrow> agent \<times> 'x \<Rightarrow> (unit, 'x) agent_result" where
  "runMetrics o1 env intent v s =
     (let v = Transition Planning (pe_clock (me_io env) 0) (v\<lparr>t_IntentType := ''system_metrics_read''\<rparr>) in
      appending (me_io env) 1 v ''INTENT_PARSED'' (JObj [(''intent_type'', JStr (t_IntentType v)), (''cpu'', JBool (mi_CPU intent)), (''memory'', JBool (mi_Memory intent))])
        (\<lambda>_.
           let v = Transition Investigating (pe_clock (me_io env) 2) (v\<lparr>t_Plan := t_Plan v @ metric_steps intent\<rparr>) in
           saving (me_io env) 3 v (appending (me_io env) 4 v ''PLAN_CREATED''
             (JObj [(''steps'', JArr (map json_step (t_Plan v))), (''completion_criteria'', JStr (hx ''e68980e69c89e8afb7e6b182e79a84e68c87e6a087e59d87e88eb7e5be97e696b0e79a84204d435020e8af81e68dae''))])
             (\<lambda>_ s. case metric_loop o1 env [0..<length (t_Plan v)] v [] s of
                ((w, Inl err), s) \<Rightarrow> ((w, Inl err), s)
              | ((w, Inr outputs), s) \<Rightarrow> complete_metrics (o_Schema o1) env w outputs s))) s)"

subsection \<open>What a successful run has done\<close>

text \<open>One step that succeeds: it is completed in place, its id is appended.\<close>

definition step_completed :: "nat \<Rightarrow> Task \<Rightarrow> Task \<Rightarrow> bool" where
  "step_completed i v w \<longleftrightarrow> t_Plan w = (t_Plan v)[i := (t_Plan v ! i)\<lparr>st_State := ''COMPLETED''\<rparr>] \<and> t_CompletedSteps w = t_CompletedSteps v @ [st_ID (t_Plan v ! i)]"

lemma Transition_plan [simp]: "t_Plan (Transition st now v) = t_Plan v" "t_CompletedSteps (Transition st now v) = t_CompletedSteps v"
  by (simp_all add: Transition_def)

lemma metric_step_completed:
  fixes s :: "agent \<times> 'x"
  assumes "i < length (t_Plan v)" "metric_step o1 env n i v s = ((w, Inr out), t)"
  shows "step_completed i v w"
proof -
  define Q :: "(go_map, 'x) agent_result \<Rightarrow> bool" where "Q r \<longleftrightarrow> (is_ok (snd (fst r)) \<longrightarrow> step_completed i v (fst (fst r)))" for r
  have fail: "Q ((z, Inl err), s1)" for z err s1 by (simp add: Q_def)
  have result: "Q (metric_result sv env n i u (t_Plan u ! i) out s1)"
    if "u = Transition Investigating now ((set_step i ''RUNNING'' v)\<lparr>t_CurrentStep := int i\<rparr>)" for sv u now out s1
    unfolding metric_result_def Let_def using that assms(1)
    by (intro appending_post [where Q = Q] saving_post [where Q = Q]) (simp_all add: fail, simp_all add: Q_def step_completed_def set_step_def)
  have call: "Q (metric_call o1 env n i u (t_Plan u ! i) s1)"
    if "u = Transition Investigating now ((set_step i ''RUNNING'' v)\<lparr>t_CurrentStep := int i\<rparr>)" for u now s1
    unfolding metric_call_def
    by (rule appending_post [where Q = Q]) (auto simp: fail split: prod.split sum.split option.split json.split intro: result [OF that])
  have "Q (metric_step o1 env n i v s)" unfolding metric_step_def Let_def
    by (intro saving_post [where Q = Q] appending_post [where Q = Q])
       (auto simp: fail split: option.split sum.split intro!: appending_post [where Q = Q] call [OF refl, simplified])
  with assms(2) show ?thesis by (simp add: Q_def)
qed

lemma metric_loop_completed:
  assumes "metric_loop o1 env [k..<length (t_Plan v)] v outputs s = ((w, Inr out), t)" "k \<le> length (t_Plan v)"
    and "list_all (\<lambda>p. st_State p = ''COMPLETED'') (take k (t_Plan v))"
  shows "t_CompletedSteps w = t_CompletedSteps v @ map st_ID (drop k (t_Plan v)) \<and> map st_ID (t_Plan w) = map st_ID (t_Plan v)
    \<and> list_all (\<lambda>p. st_State p = ''COMPLETED'') (t_Plan w)"
  using assms
proof (induction "length (t_Plan v) - k" arbitrary: k v outputs s)
  case 0
  then show ?case by simp
next
  case (Suc n)
  then have k: "k < length (t_Plan v)" by simp
  with Suc.prems(1) obtain u out' s' where step: "metric_step o1 env (20 * (k + 1)) k v s = ((u, Inr out'), s')"
    and rest: "metric_loop o1 env [Suc k..<length (t_Plan v)] u ((st_Tool (t_Plan u ! k), out') # outputs) s' = ((w, Inr out), t)"
    by (auto simp: upt_conv_Cons split: if_splits prod.splits sum.splits)
  from metric_step_completed [OF k step] have u: "t_Plan u = (t_Plan v)[k := (t_Plan v ! k)\<lparr>st_State := ''COMPLETED''\<rparr>]"
    "t_CompletedSteps u = t_CompletedSteps v @ [st_ID (t_Plan v ! k)]" by (simp_all add: step_completed_def)
  have len: "length (t_Plan u) = length (t_Plan v)" and ids: "map st_ID (t_Plan u) = map st_ID (t_Plan v)"
    by (simp_all add: u map_update list_update_same_conv k)
  have "t_CompletedSteps w = t_CompletedSteps u @ map st_ID (drop (Suc k) (t_Plan u)) \<and> map st_ID (t_Plan w) = map st_ID (t_Plan u)
      \<and> list_all (\<lambda>p. st_State p = ''COMPLETED'') (t_Plan w)"
    using Suc k rest by (intro Suc.hyps(1)) (auto simp: len u take_Suc_conv_app_nth)
  moreover have "map st_ID (drop k (t_Plan v)) = st_ID (t_Plan v ! k) # map st_ID (drop (Suc k) (t_Plan v))"
    using k by (simp add: Cons_nth_drop_Suc [symmetric])
  ultimately show ?case by (simp add: u(2) ids) (simp add: u(1))
qed

text \<open>C28: a metrics run that succeeds has completed every step of the plan, in its order, and started from a task without completed steps. So the run
  of a task that was interrupted after its first metric cannot succeed: the plan is appended to the stored one, every step is called again, and the completed steps
  stay one or more ahead of the plan. The task ends in ``completion criteria not met''.\<close>

theorem metrics_all_or_nothing:
  "case runMetrics o1 env intent v s of
     ((w, Inr _), _) \<Rightarrow> t_State w = Completed \<and> t_CompletedSteps v = [] \<and> t_CompletedSteps w = map st_ID (t_Plan w)
       \<and> list_all (\<lambda>p. st_State p = ''COMPLETED'') (t_Plan w)
   | _ \<Rightarrow> True"
proof -
  define P :: "Task \<Rightarrow> bool" where "P w \<longleftrightarrow> t_State w = Completed \<and> t_CompletedSteps v = [] \<and> t_CompletedSteps w = map st_ID (t_Plan w) \<and> list_all (\<lambda>p. st_State p = ''COMPLETED'') (t_Plan w)" for w
  define Q :: "(unit, 'a) agent_result \<Rightarrow> bool" where "Q r \<longleftrightarrow> (is_ok (snd (fst r)) \<longrightarrow> P (fst (fst r)))" for r
  have fail: "Q ((z, Inl err), s1)" for z err s1 by (simp add: Q_def)
  have complete: "Q (complete_metrics sv env w out s1)"
    if L: "metric_loop o1 env [0..<n] u outputs s0 = ((w, Inr out), s1)" and n: "n = length (t_Plan u)" and u: "t_CompletedSteps u = t_CompletedSteps v" for sv n u outputs s0 w out s1
  proof (cases "length (t_CompletedSteps w) = length (t_Plan w)")
    case True
    from metric_loop_completed [OF L [unfolded n]] u have w: "t_CompletedSteps w = t_CompletedSteps v @ map st_ID (t_Plan w)" "list_all (\<lambda>p. st_State p = ''COMPLETED'') (t_Plan w)" by auto
    with True have "Q ((Transition Completed now w, Inr ()), t)" for now t by (simp add: Q_def P_def Transition_def)
    with True show ?thesis unfolding complete_metrics_def Let_def
      by (auto simp: fail split: prod.split sum.split intro!: saving_post [where Q = Q] appending_post [where Q = Q])
  qed (simp add: complete_metrics_def fail)
  have "Q (runMetrics o1 env intent v s)" unfolding runMetrics_def Let_def
    by (intro appending_post [where Q = Q] saving_post [where Q = Q]) (auto simp: fail split: prod.split sum.split intro: complete)
  then show ?thesis by (auto simp: Q_def P_def split: prod.split sum.split)
qed

end
