(* ===== verification/Decode.thy ===== *)
theory Decode
  imports Metrics
begin

text \<open>
  \<open>decodeStructured\<close> of \<open>internal/agent/port_workflow.go\<close>: the structured content of a tool is marshalled and unmarshalled into a Go struct. The struct types
  of the source are values of \<open>go_type\<close>; a decoded Go value is represented by the JSON that \<open>json.Marshal\<close> writes for it. A key
  belongs to a field when they agree up to the case folding of \<open>encoding/json\<close>; no two keys of one object belong to the same field. \<open>omitempty\<close> occurs on
  strings only.
\<close>

datatype go_type = GoString | GoBool | GoInt | GoUint64 | GoFloat64 | GoTime | GoSlice go_type | GoStruct "(string \<times> bool \<times> go_type) list"

abbreviation fld :: "string \<Rightarrow> go_type \<Rightarrow> string \<times> bool \<times> go_type" where "fld name t \<equiv> (name, False, t)"
abbreviation omitempty :: "string \<Rightarrow> go_type \<Rightarrow> string \<times> bool \<times> go_type" where "omitempty name t \<equiv> (name, True, t)"

text \<open>The parsers of the standard library for floats and times.\<close>

record decoders =
  dc_float :: "string \<Rightarrow> float64 option"
  dc_time :: "string \<Rightarrow> bool"

subsection \<open>Numbers\<close>

definition all_digits :: "string \<Rightarrow> bool" where
  "all_digits s \<longleftrightarrow> s \<noteq> [] \<and> list_all (\<lambda>c. 48 \<le> (of_char c :: nat) \<and> (of_char c :: nat) \<le> 57) s"

text \<open>\<open>strconv.ParseInt(s, 10, 64)\<close> and \<open>ParseUint(s, 10, 64)\<close> on the text of a JSON number.\<close>

definition ParseInt :: "string \<Rightarrow> int option" where
  "ParseInt s =
     (case s of [] \<Rightarrow> None
      | c # ds \<Rightarrow>
        if c = CHR ''-'' then (if all_digits ds \<and> digits_value ds \<le> 2 ^ 63 then Some (- digits_value ds) else None)
        else if all_digits s \<and> digits_value s < 2 ^ 63 then Some (digits_value s) else None)"

definition ParseUint :: "string \<Rightarrow> int option" where
  "ParseUint s = (if all_digits s \<and> digits_value s < 2 ^ 64 then Some (digits_value s) else None)"

subsection \<open>Fields\<close>

text \<open>The simple folding of Unicode joins two characters with letters of ASCII: U+017F with s, U+212A with k.\<close>

fun fold_name :: "string \<Rightarrow> string" where
  "fold_name [] = []"
| "fold_name (c # cs) =
     (if c = CHR 0xC5 \<and> take 1 cs = [CHR 0xBF] then CHR ''s'' # fold_name (drop 1 cs)
      else if c = CHR 0xE2 \<and> take 2 cs = [CHR 0x84, CHR 0xAA] then CHR ''k'' # fold_name (drop 2 cs)
      else lower_char c # fold_name cs)"

definition field :: "go_map \<Rightarrow> string \<Rightarrow> json option" where
  "field kvs name = map_option snd (find (\<lambda>(k, _). fold_name k = fold_name name) kvs)"

subsection \<open>Unmarshal\<close>

text \<open>\<open>null\<close> is accepted for every type and leaves the zero value.\<close>

fun conforms :: "decoders \<Rightarrow> go_type \<Rightarrow> json \<Rightarrow> bool"
and conform_fields :: "decoders \<Rightarrow> (string \<times> bool \<times> go_type) list \<Rightarrow> go_map \<Rightarrow> bool" where
  "conforms dc GoString j = (case j of JNull \<Rightarrow> True | JStr _ \<Rightarrow> True | _ \<Rightarrow> False)"
| "conforms dc GoBool j = (case j of JNull \<Rightarrow> True | JBool _ \<Rightarrow> True | _ \<Rightarrow> False)"
| "conforms dc GoInt j = (case j of JNull \<Rightarrow> True | JNum s \<Rightarrow> ParseInt s \<noteq> None | _ \<Rightarrow> False)"
| "conforms dc GoUint64 j = (case j of JNull \<Rightarrow> True | JNum s \<Rightarrow> ParseUint s \<noteq> None | _ \<Rightarrow> False)"
| "conforms dc GoFloat64 j = (case j of JNull \<Rightarrow> True | JNum s \<Rightarrow> dc_float dc s \<noteq> None | _ \<Rightarrow> False)"
| "conforms dc GoTime j = (case j of JNull \<Rightarrow> True | JStr s \<Rightarrow> dc_time dc s | _ \<Rightarrow> False)"
| "conforms dc (GoSlice t) j = (case j of JNull \<Rightarrow> True | JArr js \<Rightarrow> list_all (conforms dc t) js | _ \<Rightarrow> False)"
| "conforms dc (GoStruct fs) j = (case j of JNull \<Rightarrow> True | JObj kvs \<Rightarrow> conform_fields dc fs kvs | _ \<Rightarrow> False)"
| "conform_fields dc [] kvs = True"
| "conform_fields dc ((name, _, t) # fs) kvs = ((case field kvs name of None \<Rightarrow> True | Some j \<Rightarrow> conforms dc t j) \<and> conform_fields dc fs kvs)"

fun decoded :: "go_type \<Rightarrow> json option \<Rightarrow> json"
and decoded_fields :: "(string \<times> bool \<times> go_type) list \<Rightarrow> go_map \<Rightarrow> go_map" where
  "decoded GoString j = (case j of Some (JStr s) \<Rightarrow> JStr s | _ \<Rightarrow> JStr [])"
| "decoded GoBool j = (case j of Some (JBool b) \<Rightarrow> JBool b | _ \<Rightarrow> JBool False)"
| "decoded GoInt j = (case j of Some (JNum s) \<Rightarrow> (case ParseInt s of Some n \<Rightarrow> json_int n | None \<Rightarrow> json_int 0) | _ \<Rightarrow> json_int 0)"
| "decoded GoUint64 j = (case j of Some (JNum s) \<Rightarrow> (case ParseUint s of Some n \<Rightarrow> json_int n | None \<Rightarrow> json_int 0) | _ \<Rightarrow> json_int 0)"
| "decoded GoFloat64 j = (case j of Some (JNum s) \<Rightarrow> JNum s | _ \<Rightarrow> JNum ''0'')"
| "decoded GoTime j = (case j of Some (JStr s) \<Rightarrow> JStr s | _ \<Rightarrow> JStr ''0001-01-01T00:00:00Z'')"
| "decoded (GoSlice t) j = (case j of Some (JArr js) \<Rightarrow> JArr (map (\<lambda>j. decoded t (Some j)) js) | _ \<Rightarrow> JNull)"
| "decoded (GoStruct fs) j = JObj (decoded_fields fs (case j of Some (JObj kvs) \<Rightarrow> kvs | _ \<Rightarrow> []))"
| "decoded_fields [] kvs = []"
| "decoded_fields ((name, omit, t) # fs) kvs =
     (let v = decoded t (field kvs name) in (if omit \<and> v = JStr [] then [] else [(name, v)]) @ decoded_fields fs kvs)"

definition decodeStructured :: "decoders \<Rightarrow> go_type \<Rightarrow> json \<Rightarrow> json result" where
  "decodeStructured dc t j = (if conforms dc t j then Inr (decoded t (Some j)) else Inl (ErrorNew ''json: cannot unmarshal %s into Go value of type %s''))"

subsection \<open>Reading a decoded value\<close>

definition sub :: "json \<Rightarrow> string \<Rightarrow> json" where
  "sub j name = (case j of JObj kvs \<Rightarrow> (case map_of kvs name of Some v \<Rightarrow> v | None \<Rightarrow> JNull) | _ \<Rightarrow> JNull)"

definition as_str :: "json \<Rightarrow> string" where "as_str j = (case j of JStr s \<Rightarrow> s | _ \<Rightarrow> [])"
definition as_bool :: "json \<Rightarrow> bool" where "as_bool j = (case j of JBool b \<Rightarrow> b | _ \<Rightarrow> False)"
definition as_int :: "json \<Rightarrow> int" where "as_int j = (case j of JNum s \<Rightarrow> (case ParseInt s of Some n \<Rightarrow> n | None \<Rightarrow> 0) | _ \<Rightarrow> 0)"
definition as_uint64 :: "json \<Rightarrow> uint64" where "as_uint64 j = (case j of JNum s \<Rightarrow> (case ParseUint s of Some n \<Rightarrow> word_of_int n | None \<Rightarrow> 0) | _ \<Rightarrow> 0)"
definition as_num :: "json \<Rightarrow> string" where "as_num j = (case j of JNum s \<Rightarrow> s | _ \<Rightarrow> ''0'')"
definition as_list :: "json \<Rightarrow> json list" where "as_list j = (case j of JArr js \<Rightarrow> js | _ \<Rightarrow> [])"

subsection \<open>The struct types\<close>

definition type_ServiceStatus :: go_type where
  "type_ServiceStatus = GoStruct [fld ''name'' GoString, fld ''description'' GoString, fld ''load_state'' GoString, fld ''active_state'' GoString, fld ''sub_state'' GoString,
     fld ''main_pid'' GoInt, fld ''exec_main_status'' GoInt, fld ''restart_count'' GoUint64, omitempty ''fragment_path'' GoString]"

definition type_ProcessInfo :: go_type where
  "type_ProcessInfo = GoStruct [fld ''pid'' GoInt, fld ''ppid'' GoInt, fld ''name'' GoString, fld ''state'' GoString, fld ''uid'' GoInt, fld ''command'' GoString,
     omitempty ''executable'' GoString, fld ''start_ticks'' GoUint64, fld ''cpu_ticks'' GoUint64, fld ''rss_bytes'' GoUint64]"

definition type_ConfidenceComponents :: go_type where
  "type_ConfidenceComponents = GoStruct [fld ''signal_match'' GoFloat64, fld ''log_pattern_match'' GoFloat64, fld ''graph_consistency'' GoFloat64, fld ''case_similarity'' GoFloat64]"

definition type_CandidateCause :: go_type where
  "type_CandidateCause = GoStruct [fld ''cause'' GoString, fld ''score'' GoFloat64, fld ''evidence_refs'' (GoSlice GoString)]"

definition type_RCA :: go_type where
  "type_RCA = GoStruct [fld ''diagnosis_level'' GoString, omitempty ''root_cause'' GoString, fld ''confidence'' GoFloat64, fld ''confidence_components'' type_ConfidenceComponents,
     fld ''candidate_causes'' (GoSlice type_CandidateCause), omitempty ''culprit'' GoString, fld ''evidence_refs'' (GoSlice GoString),
     fld ''missing_evidence'' (GoSlice GoString), fld ''remediation'' (GoSlice GoString)]"

definition type_Knowledge :: go_type where
  "type_Knowledge = GoStruct [fld ''document_id'' GoString, fld ''score'' GoFloat64, fld ''matched_terms'' (GoSlice GoString), fld ''source'' GoString, fld ''title'' GoString]"

definition type_Metadata :: go_type where
  "type_Metadata = GoStruct [fld ''path'' GoString, fld ''name'' GoString, fld ''size_bytes'' GoInt, fld ''mode'' GoString, fld ''is_dir'' GoBool, fld ''is_regular'' GoBool, fld ''modified'' GoTime]"

text \<open>The values the workflows compute with.\<close>

record ProcessInfo =
  po_PID :: int
  po_PPID :: int
  po_Name :: string
  po_State :: string
  po_UID :: int
  po_Command :: string
  po_Executable :: string
  po_StartTicks :: uint64
  po_CPUTicks :: uint64
  po_RSSBytes :: uint64

definition ProcessInfo_of :: "json \<Rightarrow> ProcessInfo" where
  "ProcessInfo_of j = \<lparr>po_PID = as_int (sub j ''pid''), po_PPID = as_int (sub j ''ppid''), po_Name = as_str (sub j ''name''), po_State = as_str (sub j ''state''),
     po_UID = as_int (sub j ''uid''), po_Command = as_str (sub j ''command''), po_Executable = as_str (sub j ''executable''), po_StartTicks = as_uint64 (sub j ''start_ticks''),
     po_CPUTicks = as_uint64 (sub j ''cpu_ticks''), po_RSSBytes = as_uint64 (sub j ''rss_bytes'')\<rparr>"

definition decode_processes :: "decoders \<Rightarrow> json \<Rightarrow> ProcessInfo list result" where
  "decode_processes dc j = map_sum id (\<lambda>d. map ProcessInfo_of (as_list (sub d ''processes''))) (decodeStructured dc (GoStruct [fld ''processes'' (GoSlice type_ProcessInfo)]) j)"

record Metadata =
  md_Path :: string
  md_SizeBytes :: int
  md_IsRegular :: bool

definition decode_files :: "decoders \<Rightarrow> json \<Rightarrow> Metadata list result" where
  "decode_files dc j = map_sum id (\<lambda>d. map (\<lambda>m. \<lparr>md_Path = as_str (sub m ''path''), md_SizeBytes = as_int (sub m ''size_bytes''), md_IsRegular = as_bool (sub m ''is_regular'')\<rparr>) (as_list (sub d ''files'')))
     (decodeStructured dc (GoStruct [fld ''files'' (GoSlice type_Metadata)]) j)"

end
