(* ===== verification/Resume.thy ===== *)
theory Resume
  imports Agent
begin

text \<open>
  \<open>internal/agent/approval_resume.go\<close>: what happens to a waiting task once its approval is resolved. \<open>Resume\<close> cancels the task or sends
  the pending envelope to the executor, checks the result, records it in the session and completes the task. The
  executor and the continuation of a workflow are the interfaces of the source: functions on a state of their own.
  The JSON decoder of the pending envelope, clock readings and the fresh message id are arguments. A \<open>map[string]any\<close> literal
  is written in the order of the source; \<open>Append\<close> sorts its keys.
\<close>

type_synonym 'x continuation = "Task \<Rightarrow> ActionEnvelope \<Rightarrow> Result \<Rightarrow> agent \<times> 'x \<Rightarrow> (bool, 'x) agent_result"

record 'x ApprovalResumer =
  rs_Executor :: "(ActionEnvelope \<Rightarrow> 'x \<Rightarrow> Result result \<times> 'x) option"
  rs_HasTrace :: bool
  rs_Continuation :: "'x continuation option"

record resume_env =
  re_io :: prep_env
  re_decode :: "string \<Rightarrow> ActionEnvelope result"
  re_msgID :: string

abbreviation re_now :: "resume_env \<Rightarrow> nat \<Rightarrow> timestamp" where "re_now env n \<equiv> pe_clock (re_io env) n"

subsection \<open>What is recorded\<close>

definition mode_text :: "ExecutionMode \<Rightarrow> string" where
  "mode_text m = (case m of DirectRestricted \<Rightarrow> ''DIRECT_RESTRICTED'' | LabSandbox \<Rightarrow> ''LAB_SANDBOX'' | DryRun \<Rightarrow> ''DRY_RUN'')"

text \<open>The empty association list is the empty map.\<close>

definition json_string_map :: "(string \<times> string) list \<Rightarrow> json" where
  "json_string_map m = JObj (sort_keys (map (\<lambda>(k, s). (k, JStr s)) m))"

definition json_verification :: "Verification \<Rightarrow> json" where
  "json_verification v = JObj [(''verified'', JBool (vf_Verified v)), (''checks'', json_slice (map JStr (vf_Checks v))), (''evidence'', json_string_map (vf_Evidence v))]"

definition json_result :: "Result \<Rightarrow> json" where
  "json_result r = JObj ([(''tool'', JStr (res_Tool r)), (''mode'', JStr (mode_text (res_Mode r))), (''status'', JStr (res_Status r)), (''message'', JStr (res_Message r))]
     @ omit_str ''action_id'' (res_ActionID r) @ [(''changed'', JBool (res_Changed r))]
     @ (case res_Verification r of None \<Rightarrow> [] | Some v \<Rightarrow> [(''verification'', json_verification v)])
     @ [(''started_at'', json_time (res_StartedAt r)), (''finished_at'', json_time (res_FinishedAt r))])"

definition txt_dry_finding :: string \<comment> \<open>the boundary check of the dry run passed after approval; the system was not changed\<close> where
  "txt_dry_finding = hx ''e5aea1e689b9e5908e206472792d72756e20e689a7e8a18ce8beb9e7958ce6a0a1e9aa8ce9809ae8bf87efbc9be69caae4bfaee694b9e7b3bbe7bb9f''"
definition txt_dry_answer :: string \<comment> \<open>the approval resumed the task; the executor finished a dry run, nothing was written\<close> where
  "txt_dry_answer = hx ''e5aea1e689b9e5b7b2e887aae58aa8e681a2e5a48de4bbbbe58aa1efbc9be69c80e5b08fe69d83e99990e689a7e8a18ce599a8e5ae8ce68890206472792d72756e20e6a0a1e9aa8cefbc8ce69caae689a7e8a18ce4bbbbe4bd95e7b3bbe7bb9fe58699e6938de4bd9ce38082''"
definition txt_lab_finding :: "string \<Rightarrow> string \<Rightarrow> string" \<comment> \<open>after approval the lab operation was executed and verified (action_id)\<close> where
  "txt_lab_finding tool action = hx ''e5aea1e689b9e5908e204c616220e6938de4bd9c20'' @ tool @ hx ''20e5b7b2e689a7e8a18ce5b9b6e9aa8ce8af81efbc88616374696f6e5f69643d'' @ action @ hx ''efbc89''"
definition txt_lab_answer :: "string \<Rightarrow> string \<Rightarrow> string" \<comment> \<open>the approval resumed the task; the executor finished and verified the lab operation (action_id)\<close> where
  "txt_lab_answer tool action = hx ''e5aea1e689b9e5b7b2e887aae58aa8e681a2e5a48de4bbbbe58aa1efbc9be69c80e5b08fe69d83e99990e689a7e8a18ce599a8e5ae8ce68890e5b9b6e9aa8ce8af81e4ba86204c616220e6938de4bd9c20''
     @ tool @ hx ''efbc88616374696f6e5f69643d'' @ action @ hx ''efbc89e38082''"

subsection \<open>Failing and finishing\<close>

definition failExecution :: "resume_env \<Rightarrow> nat \<Rightarrow> Task \<Rightarrow> go_error \<Rightarrow> agent \<times> 'x \<Rightarrow> (unit, 'x) agent_result" where
  "failExecution env n v cause s =
     (let v = Transition Failed (re_now env n) (v\<lparr>t_FailureReason := pe_text (re_io env) cause\<rparr>);
          text = JStr (pe_text (re_io env) cause)
      in case save_task (re_io env) (n + 1) v (fst s) of
           (Inl err, g) \<Rightarrow> ((v, Inl (Joined [cause, err])), g, snd s)
         | (Inr _, g) \<Rightarrow>
           let g = snd (trace_event (re_io env) (n + 2) v ''EXECUTION'' (JObj [(''phase'', JStr ''FINISHED''), (''status'', JStr ''FAILED''), (''error'', text)]) g);
               g = snd (trace_event (re_io env) (n + 3) v ''TASK_FAILED'' (JObj [(''error'', text)]) g)
           in ((v, Inl cause), g, snd s))"

definition completed_session :: "resume_env \<Rightarrow> nat \<Rightarrow> Task \<Rightarrow> string \<Rightarrow> Session \<Rightarrow> Session result" where
  "completed_session env n v answer s =
     Inr (s\<lparr>se_Messages := se_Messages s @ [\<lparr>ms_ID = re_msgID env, ms_Role = RoleAssistant, ms_Content = answer, ms_TaskID = t_ID v, ms_CreatedAt = re_now env n\<rparr>],
            se_UpdatedAt := re_now env (n + 1)\<rparr>)"

definition completeSession :: "resume_env \<Rightarrow> nat \<Rightarrow> Task \<Rightarrow> string \<Rightarrow> agent \<Rightarrow> unit result \<times> agent" where
  "completeSession env n v answer = update_session (t_SessionID v) (completed_session env n v answer)"

definition evidence_of :: "(string \<times> string) list \<Rightarrow> string \<Rightarrow> string" where
  "evidence_of m k = (case map_of m k of None \<Rightarrow> [] | Some x \<Rightarrow> x)"

definition pin :: "string \<Rightarrow> string \<Rightarrow> (string \<times> string) list \<Rightarrow> (string \<times> string) list" where
  "pin k x m = (k, x) # filter (\<lambda>p. fst p \<noteq> k) m"

definition unpin :: "string \<Rightarrow> (string \<times> string) list \<Rightarrow> (string \<times> string) list" where
  "unpin k m = filter (\<lambda>p. fst p \<noteq> k) m"

text \<open>The mutation of the session: the evidence of the result must name the approved target.\<close>

definition action_context :: "timestamp \<Rightarrow> ActionEnvelope \<Rightarrow> (string \<times> string) list \<Rightarrow> Session \<Rightarrow> Session result" where
  "action_context now e evidence s =
     (let original = evidence_of evidence ''original_path''; quarantined = evidence_of evidence ''quarantined_path'';
          quarantineID = evidence_of evidence ''quarantine_id''; created = evidence_of evidence ''path'';
          tool = ap_Tool (ae_Proposal e); approved = ts_CanonicalPath (ae_TargetSnapshot e)
      in if tool = ''file.create'' then
           (if created = [] \<or> created \<noteq> approved then Inl (ErrorNew ''verified create evidence does not match the approved target'')
            else Inr (s\<lparr>se_SelectedResources := (if created \<in> set (se_SelectedResources s) then se_SelectedResources s else se_SelectedResources s @ [created]),
                        se_UpdatedAt := now\<rparr>))
         else if tool = ''file.quarantine'' \<or> tool = ''file.delete'' then
           (if original = [] \<or> quarantined = [] \<or> quarantineID = [] \<or> original \<noteq> approved
            then Inl (ErrorNew ''verified quarantine evidence does not match the approved target'')
            else Inr (s\<lparr>se_PinnedContext := pin (''quarantine_path:'' @ original) quarantined (pin (''quarantine_id:'' @ original) quarantineID (se_PinnedContext s)),
                        se_UpdatedAt := now\<rparr>))
         else if tool = ''file.restore_quarantine'' then
           (if original = [] \<or> quarantined = [] \<or> quarantineID = [] \<or> quarantined \<noteq> approved
            then Inl (ErrorNew ''verified restore evidence does not match the approved target'')
            else Inr (s\<lparr>se_PinnedContext := unpin (''quarantine_path:'' @ original) (unpin (''quarantine_id:'' @ original) (se_PinnedContext s)), se_UpdatedAt := now\<rparr>))
         else Inr (s\<lparr>se_UpdatedAt := now\<rparr>))"

definition file_tools :: "string list" where
  "file_tools = [''file.create'', ''file.quarantine'', ''file.delete'', ''file.restore_quarantine'']"

text \<open>Called only with a verified result, so \<open>result.Verification\<close> is not nil.\<close>

definition persistActionContext :: "resume_env \<Rightarrow> nat \<Rightarrow> Task \<Rightarrow> ActionEnvelope \<Rightarrow> Result \<Rightarrow> Verification \<Rightarrow> agent \<Rightarrow> unit result \<times> agent" where
  "persistActionContext env n v e result vf g =
     (if res_Mode result \<noteq> LabSandbox \<or> ap_Tool (ae_Proposal e) \<notin> set file_tools then (Inr (), g)
      else update_session (t_SessionID v) (action_context (re_now env n) e (vf_Evidence vf)) g)"

text \<open>The current step of the plan is completed.\<close>

definition complete_step :: "Task \<Rightarrow> Task" where
  "complete_step v =
     (if 0 \<le> t_CurrentStep v \<and> t_CurrentStep v < int (length (t_Plan v)) then
        let i = nat (t_CurrentStep v); stepID = st_ID (t_Plan v ! i)
        in v\<lparr>t_Plan := (t_Plan v)[i := (t_Plan v ! i)\<lparr>st_State := ''COMPLETED''\<rparr>],
             t_CompletedSteps := (if stepID \<noteq> [] \<and> stepID \<notin> set (t_CompletedSteps v) then t_CompletedSteps v @ [stepID] else t_CompletedSteps v)\<rparr>
      else v)"

subsection \<open>Executing\<close>

text \<open>After the session is updated: complete the session and the task.\<close>

definition complete_action :: "resume_env \<Rightarrow> Task \<Rightarrow> Result \<Rightarrow> string \<Rightarrow> agent \<times> 'x \<Rightarrow> (unit, 'x) agent_result" where
  "complete_action env v result answer s =
     (case completeSession env 60 v answer (fst s) of
        (Inl err, g) \<Rightarrow> failExecution env 62 v (Wrapf ''persist post-action session context'' err) (g, snd s)
      | (Inr _, g) \<Rightarrow>
        let v = Transition Completed (re_now env 66) v in
        saving (re_io env) 67 v
          (appending (re_io env) 68 v ''TASK_COMPLETED''
             (JObj [(''completion_criteria_met'', JBool True), (''dry_run'', JBool (res_Mode result = DryRun)), (''execution_mode'', JStr (mode_text (res_Mode result)))])
             (\<lambda>_. appending (re_io env) 69 v ''FINAL'' (JObj [(''answer'', JStr answer)]) (\<lambda>_ s. ((v, Inr ()), s)))) (g, snd s))"

text \<open>After the verified result is in the trace: the task's own record of it, the session, the continuation of the workflow.\<close>

definition conclude_action :: "'x ApprovalResumer \<Rightarrow> resume_env \<Rightarrow> Task \<Rightarrow> ActionEnvelope \<Rightarrow> Result \<Rightarrow> Verification \<Rightarrow> Event \<Rightarrow> agent \<times> 'x \<Rightarrow> (unit, 'x) agent_result" where
  "conclude_action rs env v e result vf ev s =
     (let lab = (res_Mode result = LabSandbox);
          finding = (if lab then txt_lab_finding (res_Tool result) (res_ActionID result) else txt_dry_finding);
          answer = (if lab then txt_lab_answer (res_Tool result) (res_ActionID result) else txt_dry_answer);
          v = complete_step (v\<lparr>t_PendingAction := [], t_PendingApprovalID := []\<rparr>);
          v = v\<lparr>t_Findings := t_Findings v @ [finding], t_EvidenceRefs := t_EvidenceRefs v @ [evidence_ref v ev]\<rparr>
      in case persistActionContext env 50 v e result vf (fst s) of
           (Inl err, g) \<Rightarrow> failExecution env 51 v (Wrapf ''persist post-action session context'' err) (g, snd s)
         | (Inr _, g) \<Rightarrow>
           (case rs_Continuation rs of
              None \<Rightarrow> complete_action env v result answer (g, snd s)
            | Some continueAfterAction \<Rightarrow>
              (case continueAfterAction v e result (g, snd s) of
                 ((next, Inl err), s) \<Rightarrow> failExecution env 55 next (Wrapf ''continue approved workflow'' err) s
               | ((next, Inr handled), s) \<Rightarrow> if handled then ((next, Inr ()), s) else complete_action env v result answer s)))"

text \<open>After the executor returned a result: into the trace, \<open>VERIFYING\<close>, and on only with a verified result.\<close>

definition verify_action :: "'x ApprovalResumer \<Rightarrow> resume_env \<Rightarrow> Task \<Rightarrow> ActionEnvelope \<Rightarrow> Result \<Rightarrow> Event \<Rightarrow> agent \<times> 'x \<Rightarrow> (unit, 'x) agent_result" where
  "verify_action rs env v e result ev s =
     (let v = Transition Verifying (re_now env 40) v in
      saving (re_io env) 41 v (\<lambda>s.
        case res_Verification result of
          None \<Rightarrow> failExecution env 42 v (ErrorNew ''real execution result has no registered verification strategy'') s
        | Some vf \<Rightarrow>
          if \<not> vf_Verified vf then failExecution env 42 v (ErrorNew ''real execution result has no registered verification strategy'') s
          else appending (re_io env) 46 v ''VERIFICATION''
            (JObj [(''verified'', JBool True), (''dry_run'', JBool (res_Mode result = DryRun)), (''result_status'', JStr (res_Status result)),
                   (''checks'', json_slice (map JStr (vf_Checks vf))), (''evidence'', json_string_map (vf_Evidence vf))])
            (\<lambda>_. conclude_action rs env v e result vf ev) s) s)"

definition is_rollback :: "ActionEnvelope \<Rightarrow> bool" where
  "is_rollback e \<longleftrightarrow> ap_Tool (ae_Proposal e) = ''file.restore_quarantine''"

definition run_action :: "'x ApprovalResumer \<Rightarrow> resume_env \<Rightarrow> (ActionEnvelope \<Rightarrow> 'x \<Rightarrow> Result result \<times> 'x) \<Rightarrow> Task \<Rightarrow> ActionEnvelope \<Rightarrow> agent \<times> 'x \<Rightarrow> (unit, 'x) agent_result" where
  "run_action rs env execute v e s =
     (case execute e (snd s) of
        (Inl err, x) \<Rightarrow> failExecution env 30 v err (fst s, x)
      | (Inr result, x) \<Rightarrow>
        appending (re_io env) 34 v ''EXECUTION'' (JObj [(''phase'', JStr ''FINISHED''), (''result'', json_result result)])
          (\<lambda>ev. if is_rollback e
             then appending (re_io env) 35 v ''ROLLBACK''
               (JObj [(''phase'', JStr ''FINISHED''), (''status'', JStr (res_Status result)), (''action_id'', JStr (res_ActionID result)),
                      (''verification'', (case res_Verification result of None \<Rightarrow> JNull | Some vf \<Rightarrow> json_verification vf))])
               (\<lambda>_. verify_action rs env v e result ev)
             else verify_action rs env v e result ev) (fst s, x))"

definition executeApproved :: "'x ApprovalResumer \<Rightarrow> resume_env \<Rightarrow> Task \<Rightarrow> Record \<Rightarrow> agent \<times> 'x \<Rightarrow> (unit, 'x) agent_result" where
  "executeApproved rs env v r s =
     (case rs_Executor rs of
        None \<Rightarrow> ((v, Inl (ErrorNew ''approval resumer executor is not configured'')), s)
      | Some execute \<Rightarrow>
        (case re_decode env (t_PendingAction v) of
           Inl err \<Rightarrow> failExecution env 10 v (Wrapf ''decode pending ActionEnvelope'' err) s
         | Inr e \<Rightarrow>
           if ae_TaskID e \<noteq> t_ID v \<or> ae_SessionID e \<noteq> t_SessionID v \<or> ae_ApprovalID e \<noteq> r_ID r
           then failExecution env 10 v (ErrorNew ''pending ActionEnvelope correlation mismatch'') s
           else
             let v = Transition Executing (re_now env 20) v;
                 common = [(''phase'', JStr ''STARTED''), (''approval_id'', JStr (r_ID r))];
                 what = [(''tool'', JStr (ap_Tool (ae_Proposal e))), (''target'', json_target (ap_Target (ae_Proposal e)))]
             in saving (re_io env) 21 v
                  (appending (re_io env) 22 v ''EXECUTION'' (JObj (common @ (''proposal_id'', JStr (ap_ProposalID (ae_Proposal e))) # what))
                    (\<lambda>_. if is_rollback e
                       then appending (re_io env) 23 v ''ROLLBACK'' (JObj (common @ what)) (\<lambda>_. run_action rs env execute v e)
                       else run_action rs env execute v e)) s))"

subsection \<open>Resume\<close>

definition state_text :: "State \<Rightarrow> string" where
  "state_text st = (case st of New \<Rightarrow> ''NEW'' | Investigating \<Rightarrow> ''INVESTIGATING'' | Planning \<Rightarrow> ''PLANNING'' | Executing \<Rightarrow> ''EXECUTING''
     | WaitingApproval \<Rightarrow> ''WAITING_APPROVAL'' | Verifying \<Rightarrow> ''VERIFYING'' | Replanning \<Rightarrow> ''REPLANNING'' | Completed \<Rightarrow> ''COMPLETED''
     | Failed \<Rightarrow> ''FAILED'' | Cancelled \<Rightarrow> ''CANCELLED'' | OtherState x \<Rightarrow> x)"

definition cancel_task :: "resume_env \<Rightarrow> Task \<Rightarrow> Record \<Rightarrow> agent \<times> 'x \<Rightarrow> (unit, 'x) agent_result" where
  "cancel_task env v r s =
     (let v = Transition Cancelled (re_now env 2) (v\<lparr>t_PendingAction := [], t_PendingApprovalID := [], t_FailureReason := ''approval '' @ status_text (r_Status r)\<rparr>)
      in saving (re_io env) 3 v
           (appending (re_io env) 4 v ''TASK_CANCELLED'' (JObj [(''reason'', JStr (t_FailureReason v)), (''approval_id'', JStr (r_ID r))])
              (\<lambda>_ s. ((v, Inr ()), s))) s)"

text \<open>\<open>task.Task{}\<close>, returned when there is no task.\<close>

definition zero_task :: Task where
  "zero_task = demo_task\<lparr>t_ID := [], t_SessionID := [], t_State := OtherState []\<rparr>"

definition Resume :: "'x ApprovalResumer \<Rightarrow> resume_env \<Rightarrow> Record \<Rightarrow> agent \<times> 'x \<Rightarrow> (unit, 'x) agent_result" where
  "Resume rs env r s =
     (case get_task (b_TaskID (r_Binding r)) (fst s) of
        (Inl err, g) \<Rightarrow> ((zero_task, Inl err), g, snd s)
      | (Inr v, g) \<Rightarrow>
        let s = (g, snd s) in
        if t_PendingApprovalID v \<noteq> r_ID r then ((v, Inl (ErrorNew ''task pending approval binding mismatch'')), s)
        else if t_State v \<noteq> WaitingApproval then
          (if t_State v \<in> {Completed, Cancelled, Failed} then ((v, Inr ()), s)
           else ((v, Inl (ErrorNew (''task is '' @ state_text (t_State v) @ '', not WAITING_APPROVAL''))), s))
        else if \<not> rs_HasTrace rs then ((v, Inl (ErrorNew ''approval resumer trace is not configured'')), s)
        else appending (re_io env) 0 v ''APPROVAL_RESULT''
          (JObj [(''phase'', JStr ''RESULT''), (''approval_id'', JStr (r_ID r)), (''status'', JStr (status_text (r_Status r))), (''reason'', JStr (r_Reason r)),
                 (''binding'', json_binding (r_Binding r))])
          (\<lambda>_ s. case r_Status r of
               Rejected \<Rightarrow> cancel_task env v r s
             | Expired \<Rightarrow> cancel_task env v r s
             | Approved \<Rightarrow>
               appending (re_io env) 1 v ''TASK_RESUMED''
                 (JObj [(''approval_id'', JStr (r_ID r)), (''checkpoint'', json_int (t_Checkpoint v)), (''pending_tool'', JStr (b_Tool (r_Binding r)))])
                 (\<lambda>_. executeApproved rs env v r) s
             | _ \<Rightarrow> ((v, Inl (ErrorNew (''approval status '' @ status_text (r_Status r) @ '' cannot resume a task''))), s)) s)"

subsection \<open>What a resume may do\<close>

lemma Transition_fields [simp]: "t_ID (Transition st now v) = t_ID v" "t_State (Transition st now v) = st"
  by (simp_all add: Transition_def)

lemma calm_failExecution:
  assumes "t_ID v = i" "Failed \<in> S"
  shows "calm S i s (failExecution env n v cause s)"
proof -
  let ?v = "Transition Failed (re_now env n) (v\<lparr>t_FailureReason := pe_text (re_io env) cause\<rparr>)"
  obtain r g where s: "save_task (re_io env) (n + 1) ?v (fst s) = (r, g)" by (cases "save_task (re_io env) (n + 1) ?v (fst s)")
  have ev: "moved S i (fst s) g \<Longrightarrow> moved S i (fst s) (snd (trace_event env' m w ty x g))" for env' m w ty x g
    using moved_trans [OF _ moved_same [OF trace_event_tasks [OF prod.collapse [symmetric]]]] .
  from s have "moved S i (fst s) g"
    by (cases rule: save_task_cases) (auto intro: moved_same moved_saved simp: assms)
  then show ?thesis using s by (auto simp: failExecution_def Let_def calm_def ev split: sum.split)
qed

lemma calm_complete_action:
  assumes "t_ID v = i" "{Failed, Completed} \<subseteq> S"
  shows "calm S i s (complete_action env v result answer s)"
proof -
  obtain r g where c: "completeSession env 60 v answer (fst s) = (r, g)" by (cases "completeSession env 60 v answer (fst s)")
  then have "same_tasks (fst s) g" unfolding completeSession_def by (rule update_session_tasks)
  moreover have "calm S i (g, snd s) (complete_action env v result answer s)"
    using assms c by (auto simp: complete_action_def Let_def split: sum.split intro!: calm_failExecution calm_saving calm_appending)
  ultimately show ?thesis by (rule calm_same)
qed

lemma complete_step_fields [simp]: "t_ID (complete_step v) = t_ID v" "t_State (complete_step v) = t_State v"
  by (simp_all add: complete_step_def Let_def)

lemma persistActionContext_tasks: "persistActionContext env n v e result vf g = (r, g') \<Longrightarrow> same_tasks g g'"
  by (auto simp: persistActionContext_def split: if_splits dest: update_session_tasks)

lemma calm_conclude_action:
  assumes "rs_Continuation rs = None" "t_ID v = i" "{Failed, Completed} \<subseteq> S"
  shows "calm S i s (conclude_action rs env v e result vf ev s)"
proof -
  define v1 where "v1 = complete_step (v\<lparr>t_PendingAction := [], t_PendingApprovalID := []\<rparr>)"
  define v2 where "v2 = v1\<lparr>t_Findings := t_Findings v1 @ [if res_Mode result = LabSandbox then txt_lab_finding (res_Tool result) (res_ActionID result) else txt_dry_finding],
    t_EvidenceRefs := t_EvidenceRefs v1 @ [evidence_ref v1 ev]\<rparr>"
  have id: "t_ID v2 = i" "t_ID v1 = i" using assms(2) by (simp_all add: v2_def v1_def)
  obtain r g where c: "persistActionContext env 50 v2 e result vf (fst s) = (r, g)" by (cases "persistActionContext env 50 v2 e result vf (fst s)")
  have "calm S i (g, snd s) (conclude_action rs env v e result vf ev s)"
    using assms(3) c id by (auto simp: conclude_action_def assms(1) Let_def v1_def [symmetric] v2_def [symmetric] split: sum.split intro!: calm_failExecution calm_complete_action)
  with persistActionContext_tasks [OF c] show ?thesis by (rule calm_same)
qed

lemma calm_verify_action:
  assumes "rs_Continuation rs = None" "t_ID v = i" "{Failed, Completed, Verifying} \<subseteq> S"
  shows "calm S i s (verify_action rs env v e result ev s)"
  unfolding verify_action_def Let_def
  by (rule calm_saving) (use assms in \<open>auto split: option.split intro!: calm_failExecution calm_appending calm_conclude_action\<close>)

text \<open>The states a task can be in once the executor has returned \<open>y\<close>: completed only with a verified result.\<close>

definition verified :: "Result result \<Rightarrow> bool" where
  "verified y \<longleftrightarrow> (\<exists>result vf. y = Inr result \<and> res_Verification result = Some vf \<and> vf_Verified vf)"

definition after_action :: "Result result \<Rightarrow> State set" where
  "after_action y = {Executing, Verifying, Failed} \<union> (if verified y then {Completed} else {})"

lemma calm_unverified:
  assumes "t_ID v = i" "{Failed, Verifying} \<subseteq> S" "\<not> verified (Inr result)"
  shows "calm S i s (verify_action rs env v e result ev s)"
  unfolding verify_action_def Let_def
  by (rule calm_saving) (use assms in \<open>auto simp: verified_def split: option.split intro!: calm_failExecution\<close>)

lemma run_action_effect:
  assumes "rs_Continuation rs = None" "t_ID v = i" "run_action rs env execute v e (g, x) = (r, g', x')"
  shows "moved (after_action (fst (execute e x))) i g g' \<and> x' = snd (execute e x)"
proof -
  obtain y x1 where e: "execute e x = (y, x1)" by (cases "execute e x")
  have "calm (after_action y) i (g, x1) (run_action rs env execute v e (g, x))"
  proof (cases y)
    case (Inr result)
    have "calm (after_action y) i s (verify_action rs env v e result ev s)" for ev s
      using calm_verify_action [OF assms(1,2), of "after_action y" s env e result ev] calm_unverified [OF assms(2), of "after_action y" result s rs env e ev] Inr
      by (cases "verified y") (auto simp: after_action_def insert_commute)
    with e Inr assms(2) show ?thesis by (auto simp: run_action_def intro!: calm_appending)
  qed (use assms(2) e in \<open>auto simp: run_action_def after_action_def intro!: calm_failExecution\<close>)
  with e assms(3) show ?thesis by (simp add: calm_def)
qed

text \<open>The executor is reached only with the envelope that waits for the approval, and by then the task is stored as executing.\<close>

definition executes :: "'x ApprovalResumer \<Rightarrow> resume_env \<Rightarrow> Task \<Rightarrow> Record \<Rightarrow> agent \<times> 'x \<Rightarrow> agent \<times> 'x \<Rightarrow> bool" where
  "executes rs env v r s s' \<longleftrightarrow> (\<exists>execute e t. rs_Executor rs = Some execute \<and> re_decode env (t_PendingAction v) = Inr e
     \<and> ae_TaskID e = t_ID v \<and> ae_SessionID e = t_SessionID v \<and> ae_ApprovalID e = r_ID r \<and> snd s' = snd (execute e (snd s))
     \<and> task_at (t_ID v) (fst s') = Some t \<and> t_State t \<in> after_action (fst (execute e (snd s))))"

definition guarded :: "'x ApprovalResumer \<Rightarrow> resume_env \<Rightarrow> Task \<Rightarrow> Record \<Rightarrow> agent \<times> 'x \<Rightarrow> (unit, 'x) agent_result \<Rightarrow> bool" where
  "guarded rs env v r s res \<longleftrightarrow> calm {Executing, Failed} (t_ID v) s res \<or> moved UNIV (t_ID v) (fst s) (fst (snd res)) \<and> executes rs env v r s (snd res)"

lemma settled:
  assumes "saved v g h" "moved S i h k" "t_ID v = i" "t_State v \<in> S"
  shows "\<exists>t. task_at i k = Some t \<and> t_ID t = i \<and> t_State t \<in> S"
proof -
  have "task_at i h = Some v" using assms(1,3) by (simp add: saved_def)
  with assms(2-4) show ?thesis by (auto simp: moved_def)
qed

lemma guarded_run:
  assumes "rs_Continuation rs = None" "rs_Executor rs = Some execute" "re_decode env (t_PendingAction v) = Inr e"
    and "ae_TaskID e = t_ID v" "ae_SessionID e = t_SessionID v" "ae_ApprovalID e = r_ID r"
    and "saved w (fst s) g1" "same_tasks g1 g2" and w: "t_ID w = t_ID v" "t_State w = Executing"
  shows "guarded rs env v r s (run_action rs env execute w e (g2, snd s))"
proof -
  obtain y g3 x3 where R: "run_action rs env execute w e (g2, snd s) = (y, g3, x3)" by (metis prod.collapse)
  let ?S = "after_action (fst (execute e (snd s)))"
  note eff = run_action_effect [OF assms(1) w(1) R]
  have m: "moved ?S (t_ID v) g1 g3" using eff moved_trans [OF moved_same [OF assms(8)]] by blast
  have "moved UNIV (t_ID v) (fst s) g3" by (rule moved_trans [OF moved_saved [OF assms(7) w(1)] moved_mono [OF m]]) simp_all
  moreover have "executes rs env v r s (g3, x3)"
    using settled [OF assms(7) m w(1)] assms(2-6) eff by (auto simp: executes_def w after_action_def)
  ultimately show ?thesis by (simp add: R guarded_def)
qed

lemma guarded_executeApproved:
  assumes "rs_Continuation rs = None"
  shows "guarded rs env v r s (executeApproved rs env v r s)"
proof (cases "\<exists>execute e. rs_Executor rs = Some execute \<and> re_decode env (t_PendingAction v) = Inr e
    \<and> ae_TaskID e = t_ID v \<and> ae_SessionID e = t_SessionID v \<and> ae_ApprovalID e = r_ID r")
  case False
  then have "calm {Executing, Failed} (t_ID v) s (executeApproved rs env v r s)"
    by (auto simp: executeApproved_def split: sum.split option.split intro!: calm_failExecution)
  then show ?thesis by (simp add: guarded_def)
next
  case True
  then obtain execute e where e: "rs_Executor rs = Some execute" "re_decode env (t_PendingAction v) = Inr e" "ae_TaskID e = t_ID v"
    "ae_SessionID e = t_SessionID v" "ae_ApprovalID e = r_ID r" by blast
  define w where "w = Transition Executing (re_now env 20) v"
  have w: "t_ID w = t_ID v" "t_State w = Executing" by (simp_all add: w_def)
  note run = guarded_run [OF assms e _ _ w]
  have stop: "guarded rs env v r s (y, g2, snd s)" if "same_tasks (fst s) g1 \<or> saved w (fst s) g1" "same_tasks g1 g2" for y g1 g2
  proof -
    have "moved {Executing, Failed} (t_ID v) (fst s) g1" using that(1) moved_saved [of w "fst s" g1 "t_ID v"] by (auto simp: w moved_same)
    from moved_trans [OF this moved_same [OF that(2)]] show ?thesis by (simp add: guarded_def calm_def)
  qed
  show ?thesis unfolding executeApproved_def e option.case sum.case Let_def w_def [symmetric]
    by (auto simp: e intro!: saving_post [where Q = "guarded rs env v r s"] appending_post [where Q = "guarded rs env v r s"] stop run intro: same_tasks_trans)
qed

definition waiting :: "string \<Rightarrow> agent \<Rightarrow> bool" where
  "waiting i g \<longleftrightarrow> (\<exists>t. task_at i g = Some t \<and> t_State t = WaitingApproval)"

definition tasks_filed :: "agent \<Rightarrow> bool" where
  "tasks_filed g \<longleftrightarrow> (\<forall>i t. task_at i g = Some t \<longrightarrow> t_ID t = i)"

lemma moved_filed: "moved S i g h \<Longrightarrow> tasks_filed g \<Longrightarrow> tasks_filed h"
proof -
  assume a: "moved S i g h" "tasks_filed g"
  have "t_ID t = j" if "task_at j h = Some t" for j t
    using a that by (cases "j = i") (auto simp: moved_def tasks_filed_def)
  then show ?thesis by (simp add: tasks_filed_def)
qed

lemma moved_waiting: "moved S i g h \<Longrightarrow> WaitingApproval \<notin> S \<Longrightarrow> waiting j h \<Longrightarrow> waiting j g"
  by (cases "j = i") (auto simp: moved_def waiting_def)

text \<open>One call: it leaves the executor alone and at most cancels or fails the task, or it calls the executor once, for the task that waits for this approved record.\<close>

definition resume_effect :: "'x ApprovalResumer \<Rightarrow> resume_env \<Rightarrow> Record \<Rightarrow> agent \<times> 'x \<Rightarrow> agent \<times> 'x \<Rightarrow> bool" where
  "resume_effect rs env r s s' \<longleftrightarrow>
     snd s' = snd s \<and> moved {Executing, Failed, Cancelled} (b_TaskID (r_Binding r)) (fst s) (fst s')
     \<or> moved UNIV (b_TaskID (r_Binding r)) (fst s) (fst s') \<and> r_Status r = Approved
       \<and> (\<exists>v. task_at (b_TaskID (r_Binding r)) (fst s) = Some v \<and> t_State v = WaitingApproval \<and> t_PendingApprovalID v = r_ID r \<and> executes rs env v r s s')"

lemma Resume_effect:
  assumes "Resume rs env r s = (res, s')" "rs_Continuation rs = None" "tasks_filed (fst s)"
  shows "resume_effect rs env r s s'"
proof -
  let ?i = "b_TaskID (r_Binding r)"
  define Q :: "(unit, _) agent_result \<Rightarrow> bool" where "Q = (\<lambda>res. resume_effect rs env r s (snd res))"
  obtain t g where t: "get_task ?i (fst s) = (t, g)" by (cases "get_task ?i (fst s)")
  note g = get_task_tasks [OF t]
  have stay: "Q (y, h, snd s)" if "same_tasks (fst s) h" for y h using that by (simp add: Q_def resume_effect_def moved_same)
  have "Q (Resume rs env r s)"
  proof (cases "\<exists>v. t = Inr v \<and> t_PendingApprovalID v = r_ID r \<and> t_State v = WaitingApproval \<and> rs_HasTrace rs")
    case False
    with stay [OF g] show ?thesis by (auto simp: Resume_def t Let_def split: sum.split)
  next
    case True
    then obtain v where v: "t = Inr v" "t_PendingApprovalID v = r_ID r" "t_State v = WaitingApproval" "rs_HasTrace rs" by blast
    with get_task_ok [of ?i "fst s" v g] t have v': "task_at ?i (fst s) = Some v" by simp
    with assms(3) have id: "t_ID v = ?i" by (auto simp: tasks_filed_def)
    have canc: "Q (cancel_task env v r (h, snd s))" if "same_tasks (fst s) h" for h
    proof -
      have "calm {Executing, Failed, Cancelled} ?i (h, snd s) (cancel_task env v r (h, snd s))"
        unfolding cancel_task_def Let_def by (intro calm_saving calm_appending) (auto simp: id)
      with moved_trans [OF moved_same [OF that]] show ?thesis by (auto simp: calm_def Q_def resume_effect_def)
    qed
    have exec: "Q (executeApproved rs env v r (h, snd s))" if "same_tasks (fst s) h" "r_Status r = Approved" for h
      using guarded_executeApproved [OF assms(2), of env v r "(h, snd s)"] unfolding guarded_def
    proof
      assume "calm {Executing, Failed} (t_ID v) (h, snd s) (executeApproved rs env v r (h, snd s))"
      then show ?thesis using moved_trans [OF moved_same [OF that(1)] moved_mono]
        by (auto simp: Q_def resume_effect_def calm_def id)
    next
      assume "moved UNIV (t_ID v) (fst (h, snd s)) (fst (snd (executeApproved rs env v r (h, snd s))))
        \<and> executes rs env v r (h, snd s) (snd (executeApproved rs env v r (h, snd s)))"
      then show ?thesis using v v' that moved_trans [OF moved_same [OF that(1)]]
        by (auto simp: Q_def resume_effect_def executes_def id)
    qed
    show ?thesis
      unfolding Resume_def t v(1) prod.case sum.case Let_def using v(2-4)
      by (auto intro!: appending_post [where Q = Q] stay canc exec split: Status.split) (use g in \<open>simp_all add: same_tasks_def\<close>)
  qed
  with assms(1) show ?thesis by (simp add: Q_def)
qed

subsection \<open>Many resumes\<close>

text \<open>An executor that also keeps the list of the envelopes it was called with.\<close>

definition logging :: "(ActionEnvelope \<Rightarrow> 'x \<Rightarrow> Result result \<times> 'x) \<Rightarrow> ActionEnvelope \<Rightarrow> 'x \<times> ActionEnvelope list \<Rightarrow> Result result \<times> 'x \<times> ActionEnvelope list" where
  "logging execute e xl = (case execute e (fst xl) of (r, x) \<Rightarrow> (r, x, e # snd xl))"

text \<open>Resumes one after the other, by the API and after restarts, each with its own record, clock and failures.\<close>

fun resume_all :: "'x ApprovalResumer \<Rightarrow> (resume_env \<times> Record) list \<Rightarrow> agent \<times> 'x \<Rightarrow> agent \<times> 'x" where
  "resume_all rs [] s = s"
| "resume_all rs ((env, r) # xs) s = resume_all rs xs (snd (Resume rs env r s))"

definition calls_for :: "string \<Rightarrow> ActionEnvelope list \<Rightarrow> nat" where
  "calls_for i l = length (filter (\<lambda>e. ae_TaskID e = i) l)"

lemma resume_step:
  assumes "Resume rs env r (g, x, l) = (res, g', x', l')" "rs_Continuation rs = None" "rs_Executor rs = Some (logging ex)" "tasks_filed g"
  shows "tasks_filed g'" "calls_for i l' + (if waiting i g' then 1 else 0) \<le> calls_for i l + (if waiting i g then 1 else 0)"
proof -
  note eff = Resume_effect [OF assms(1,2), simplified, OF assms(4), unfolded resume_effect_def, simplified]
  then have "moved UNIV (b_TaskID (r_Binding r)) g g'" by (auto intro: moved_mono)
  from moved_filed [OF this assms(4)] show "tasks_filed g'" .
  let ?j = "b_TaskID (r_Binding r)"
  from eff consider (calm) "l' = l" "moved {Executing, Failed, Cancelled} ?j g g'"
    | (run) v where "moved UNIV ?j g g'" "task_at ?j g = Some v" "t_State v = WaitingApproval" "executes rs env v r (g, x, l) (g', x', l')" by auto
  then show "calls_for i l' + (if waiting i g' then 1 else 0) \<le> calls_for i l + (if waiting i g then 1 else 0)"
  proof cases
    case calm
    with moved_waiting [OF calm(2), of i] show ?thesis by auto
  next
    case run
    from run(2) assms(4) have id: "t_ID v = ?j" by (auto simp: tasks_filed_def)
    from run(4) assms(3) obtain e t y where e: "ae_TaskID e = ?j" "l' = e # l" "task_at ?j g' = Some t" "t_State t \<in> after_action y"
      by (auto simp: executes_def logging_def id split_def)
    then have w: "\<not> waiting ?j g'" "waiting ?j g" using run(2,3) by (auto simp: waiting_def after_action_def split: if_splits)
    show ?thesis
    proof (cases "i = ?j")
      case False
      with run(1) have "waiting i g' = waiting i g" by (auto simp: moved_def waiting_def)
      with False e show ?thesis by (simp add: calls_for_def)
    qed (use w e in \<open>simp add: calls_for_def\<close>)
  qed
qed

lemma resume_all_calls:
  assumes "rs_Continuation rs = None" "rs_Executor rs = Some (logging ex)" "tasks_filed g"
  shows "calls_for i (snd (snd (resume_all rs xs (g, x, l)))) \<le> calls_for i l + (if waiting i g then 1 else 0)"
  using assms(3)
proof (induction xs arbitrary: g x l)
  case (Cons a xs)
  obtain env r where a: "a = (env, r)" by (cases a)
  obtain res g' x' l' where R: "Resume rs env r (g, x, l) = (res, g', x', l')" by (metis prod.collapse)
  note step = resume_step [OF R assms(1,2) Cons.prems]
  from Cons.IH [OF step(1), of x' l'] step(2) [of i] show ?case by (auto simp: a R split: if_splits)
qed simp

subsection \<open>Properties\<close>



subsection \<open>A concrete resume\<close>

definition parked_task :: Task where
  "parked_task = waiting_task 0 (sample_envelope sample_catalog) demo_task"

definition parked_agent :: agent where
  "parked_agent = sample_agent\<lparr>ag_store := reliable [store_path ''tasks'' ''t1'' \<mapsto> Valid (TaskDoc parked_task)]\<rparr>"

definition parked_record :: "Status \<Rightarrow> Record" where
  "parked_record st = (new_record ''a1'' 0 (demo_binding\<lparr>b_TaskID := ''t1''\<rparr>) 50)\<lparr>r_Status := st\<rparr>"

definition dry_executor :: "ActionEnvelope \<Rightarrow> nat \<Rightarrow> Result result \<times> nat" where
  "dry_executor e n = (fst (DryRunHandler [] 0 e ()), Suc n)"

definition sample_resumer :: "(nat \<times> ActionEnvelope list) ApprovalResumer" where
  "sample_resumer = \<lparr>rs_Executor = Some (logging dry_executor), rs_HasTrace = True, rs_Continuation = None\<rparr>"

definition sample_resume_env :: resume_env where
  "sample_resume_env = \<lparr>re_io = sample_env, re_decode = (\<lambda>_. Inr (sample_envelope sample_catalog)), re_msgID = ''m1''\<rparr>"

lemma parked_at: "task_at i parked_agent = (if i = ''t1'' then Some parked_task else None)"
  by (simp add: task_at_def parked_agent_def store_path_def)

lemma parked_filed: "tasks_filed parked_agent"
  by (simp add: tasks_filed_def parked_at parked_task_def waiting_task_def demo_task_def)



end
