(* ===== verification/Workflow.thy ===== *)
theory Workflow
  imports Decode Resume
begin

text \<open>
  What the three fixed recovery workflows of \<open>internal/agent\<close> share: the dependencies, one read step of a plan (\<open>callWorkflowReadStep\<close>), the proposal to terminate the process
  that the evidence names, and the completion of a verified task. The tool servers, the target snapshots and the health check are functions on a state of their own.
  The registry and the trace writer are configured, as in the server.
\<close>

subsection \<open>Dependencies\<close>

record HealthEvidence =
  he_URL :: string
  he_StatusCode :: int
  he_BodySHA256 :: string

text \<open>The dependencies of a workflow, once \<open>runPortRecovery\<close>, \<open>runCPURecovery\<close> or \<open>runDiskRecovery\<close> has found that they are configured.\<close>

record 'x Workflow =
  wf_CallTool :: "string \<Rightarrow> string \<Rightarrow> go_map \<Rightarrow> 'x \<Rightarrow> CallToolResult result \<times> 'x"
  wf_Evaluate :: "ActionProposal \<Rightarrow> PipelineResult"
  wf_Actions :: ActionPreparer
  wf_ActionTargets :: "'x snapshotter"
  wf_FileTargets :: "'x file_targets"
  wf_Health :: "string \<Rightarrow> 'x \<Rightarrow> HealthEvidence result \<times> 'x"
  wf_Decoders :: decoders

text \<open>Clock readings and fresh ids of one run, by the number of the call.\<close>

record workflow_env =
  we_io :: prep_env
  we_prepare :: prep_env
  we_proposalID :: "nat \<Rightarrow> string"
  we_msgID :: string

subsection \<open>A plan\<close>

definition pending_step :: "string \<times> string \<times> string \<Rightarrow> Step" where
  "pending_step s = (case s of (i, description, tool) \<Rightarrow> \<lparr>st_ID = i, st_Description = description, st_Tool = tool, st_State = ''PENDING''\<rparr>)"

text \<open>The steps of \<open>value.Plan\<close> that a run has done stay in \<open>CompletedSteps\<close>, each once.\<close>

definition completed_step :: "nat \<Rightarrow> Task \<Rightarrow> Task" where
  "completed_step i v =
     (let w = set_step i ''COMPLETED'' v; stepID = st_ID (t_Plan w ! i)
      in if stepID \<in> set (t_CompletedSteps w) then w else w\<lparr>t_CompletedSteps := t_CompletedSteps w @ [stepID]\<rparr>)"

definition host_target :: TargetRef where "host_target = \<lparr>tr_Type = ''host'', tr_ID = ''local'', tr_Criticality = []\<rparr>"

subsection \<open>A read step\<close>

definition read_proposal :: "workflow_env \<Rightarrow> nat \<Rightarrow> Task \<Rightarrow> string \<Rightarrow> string \<Rightarrow> go_map \<Rightarrow> ActionProposal" where
  "read_proposal env n v description tool arguments =
     \<lparr>ap_ProposalID = we_proposalID env n, ap_TaskID = t_ID v, ap_SessionID = t_SessionID v, ap_Tool = tool, ap_Effect = Read, ap_Arguments = Some arguments,
      ap_Target = host_target, ap_BatchSize = 1, ap_Reversible = False, ap_RollbackStrategy = [], ap_LabMode = False, ap_SystemState = [],
      ap_Intent = \<lparr>ic_OriginalRequest = t_OriginalRequest v, ic_Objective = t_Objective v, ic_ObjectiveTargets = [host_target], ic_PlanStep = description,
        ic_PlanTargets = [host_target], ic_AuthorizedRelations = []\<rparr>\<rparr>"

text \<open>The structured result becomes evidence of the task; the caller gets it whole.\<close>

definition keep_read :: "workflow_env \<Rightarrow> nat \<Rightarrow> nat \<Rightarrow> Task \<Rightarrow> string \<Rightarrow> string \<Rightarrow> json \<Rightarrow> agent \<times> 'x \<Rightarrow> (json, 'x) agent_result" where
  "keep_read env n i v server tool structured s =
     (let bounded = bounded_value structured in
      appending (we_io env) (n + 7) v ''TOOL_RESULT'' (JObj [(''server'', JStr server), (''tool'', JStr tool), (''structured_output'', bounded)])
        (\<lambda>ev. let w = completed_step i v; finding = txt_finding tool (shortDigest (json_text bounded));
                 w = w\<lparr>t_EvidenceRefs := t_EvidenceRefs w @ [evidence_ref v ev], t_Findings := t_Findings w @ [finding]\<rparr>
             in saving (we_io env) (n + 8) w (appending (we_io env) (n + 9) w ''FINDINGS_UPDATED''
                  (JObj [(''finding'', JStr finding), (''evidence_ref'', JStr (evidence_ref v ev))]) (\<lambda>_ s. ((w, Inr structured), s)))) s)"

definition call_read :: "'x Workflow \<Rightarrow> workflow_env \<Rightarrow> nat \<Rightarrow> nat \<Rightarrow> Task \<Rightarrow> string \<Rightarrow> string \<Rightarrow> go_map \<Rightarrow> agent \<times> 'x \<Rightarrow> (json, 'x) agent_result" where
  "call_read flow env n i v server tool arguments s =
     appending (we_io env) (n + 6) v ''TOOL_CALL'' (JObj [(''server'', JStr server), (''tool'', JStr tool), (''arguments'', json_map (Some arguments))])
       (\<lambda>_ s. case wf_CallTool flow server tool arguments (snd s) of
          (Inl err, x) \<Rightarrow> ((v, Inl err), fst s, x)
        | (Inr result, x) \<Rightarrow>
          if cr_IsError result then ((v, Inl (ErrorNew (''tool '' @ tool @ '': '' @ textResult result))), fst s, x)
          else (case cr_StructuredContent result of
              None \<Rightarrow> ((v, Inl (ErrorNew (''tool '' @ tool @ '' returned no structured content''))), fst s, x)
            | Some structured \<Rightarrow> keep_read env n i v server tool structured (fst s, x))) s"

definition callWorkflowReadStep :: "'x Workflow \<Rightarrow> workflow_env \<Rightarrow> nat \<Rightarrow> Task \<Rightarrow> nat \<Rightarrow> string \<Rightarrow> string \<Rightarrow> go_map \<Rightarrow> agent \<times> 'x \<Rightarrow> (json, 'x) agent_result" where
  "callWorkflowReadStep flow env n v i server tool arguments s =
     (if length (t_Plan v) \<le> i then ((v, Inl (ErrorNew ''port workflow step index is invalid'')), s)
      else
        let v = (set_step i ''RUNNING'' v)\<lparr>t_CurrentStep := int i\<rparr>; description = st_Description (t_Plan v ! i); p = read_proposal env n v description tool arguments in
        saving (we_io env) n v (\<lambda>s.
          case ActionProposal_Digest p of Inl err \<Rightarrow> ((v, Inl err), s)
          | Inr digest \<Rightarrow>
            appending (we_io env) (n + 1) v ''DECISION_RECORDED''
              (JObj [(''objective'', JStr (t_Objective v)), (''current_step'', JStr description), (''selected_tool'', JStr tool), (''expected_observation'', JStr ''bounded structured Lab evidence'')])
              (\<lambda>_. appending (we_io env) (n + 2) v ''ACTION_PROPOSED''
                 (JObj [(''proposal_id'', JStr (ap_ProposalID p)), (''tool'', JStr tool), (''effect'', JStr (ap_Effect p)), (''target'', json_target host_target), (''proposal_digest'', JStr digest)])
                 (\<lambda>_. let safety = wf_Evaluate flow p in
                    appending (we_io env) (n + 3) v ''STATIC_GUARD_RESULT'' (json_decision (pr_Static safety))
                      (\<lambda>_. appending (we_io env) (n + 4) v ''INTENT_GUARD_RESULT'' (json_intent_decision (pr_Intent safety))
                         (\<lambda>_. appending (we_io env) (n + 5) v ''RISK_EVALUATED'' (json_risk (pr_Risk safety))
                            (\<lambda>_ s. if gd_Outcome (pr_Final safety) \<noteq> Allow \<or> rr_Level (pr_Risk safety) \<noteq> L0
                               then ((v, Inl (ErrorNew (''read step '' @ tool @ '' was not allowed: '' @ outcome_text (gd_Outcome (pr_Final safety)) @ ''/'' @ rr_Level (pr_Risk safety)))), s)
                               else call_read flow env n i v server tool arguments s))))) s) s)"

text \<open>The loop over \<open>reads\<close>: read \<open>i\<close> is step \<open>i\<close> of the plan. It takes its readings from \<open>20 * (i + 1)\<close> on.\<close>

type_synonym read = "string \<times> string \<times> go_map"

fun call_reads :: "'x Workflow \<Rightarrow> workflow_env \<Rightarrow> nat \<Rightarrow> read list \<Rightarrow> Task \<Rightarrow> agent \<times> 'x \<Rightarrow> (json list, 'x) agent_result" where
  "call_reads flow env i [] v s = ((v, Inr []), s)"
| "call_reads flow env i ((server, tool, arguments) # rs) v s =
     (case callWorkflowReadStep flow env (20 * (i + 1)) v i server tool arguments s of
        ((w, Inl err), s) \<Rightarrow> ((w, Inl err), s)
      | ((w, Inr out), s) \<Rightarrow>
        (case call_reads flow env (Suc i) rs w s of
           ((u, Inl err), s) \<Rightarrow> ((u, Inl err), s)
         | ((u, Inr outs), s) \<Rightarrow> ((u, Inr (out # outs)), s)))"

subsection \<open>Choosing the process\<close>

definition uniqueControlledProcess :: "ProcessInfo list \<Rightarrow> string \<Rightarrow> ProcessInfo result" where
  "uniqueControlledProcess ps executable =
     (case filter (\<lambda>p. po_Executable p = executable) ps of [p] \<Rightarrow> Inr p
      | ms \<Rightarrow> Inl (ErrorNew (''expected exactly one controlled process '' @ executable @ '', got '' @ itoa (int (length ms)))))"

definition process_target_id :: "ProcessInfo \<Rightarrow> string" where
  "process_target_id p = ''pid:'' @ itoa (po_PID p) @ '':start:'' @ itoa (uint (po_StartTicks p))"

definition terminate_proposal :: "workflow_env \<Rightarrow> Task \<Rightarrow> nat \<Rightarrow> ProcessInfo \<Rightarrow> TargetRef \<Rightarrow> TargetRef \<Rightarrow> string \<Rightarrow> ActionProposal" where
  "terminate_proposal env v k owner target related relation =
     \<lparr>ap_ProposalID = we_proposalID env 0, ap_TaskID = t_ID v, ap_SessionID = t_SessionID v, ap_Tool = ''process.terminate'', ap_Effect = Write,
      ap_Arguments = Some [(''pid'', json_int (po_PID owner))], ap_Target = target, ap_BatchSize = 1, ap_Reversible = False, ap_RollbackStrategy = [], ap_LabMode = True, ap_SystemState = [],
      ap_Intent = \<lparr>ic_OriginalRequest = t_OriginalRequest v, ic_Objective = t_Objective v, ic_ObjectiveTargets = [related], ic_PlanStep = st_Description (t_Plan v ! k),
        ic_PlanTargets = [target],
        ic_AuthorizedRelations = [\<lparr>ta_Target = target, ta_RelatedTo = related, ta_Relation = relation, ta_EvidenceRefs = t_EvidenceRefs v\<rparr>]\<rparr>\<rparr>"

definition prepare_write :: "'x Workflow \<Rightarrow> workflow_env \<Rightarrow> Task \<Rightarrow> ActionProposal \<Rightarrow> TargetSnapshot \<Rightarrow> agent \<times> 'x \<Rightarrow> (unit, 'x) agent_result" where
  "prepare_write flow env v p snapshot s = (case Prepare (wf_Actions flow) (we_prepare env) v p snapshot (fst s) of ((w, r), g) \<Rightarrow> ((w, map_sum id (\<lambda>_. ()) r), g, snd s))"

text \<open>From \<open>SnapshotProcess\<close> to the end of a run: step \<open>k\<close> waits for the approval to terminate \<open>owner\<close>.\<close>

definition propose_termination :: "'x Workflow \<Rightarrow> workflow_env \<Rightarrow> Task \<Rightarrow> nat \<Rightarrow> ProcessInfo \<Rightarrow> string \<Rightarrow> string \<Rightarrow> TargetRef \<Rightarrow> string \<Rightarrow> json \<Rightarrow> string
    \<Rightarrow> agent \<times> 'x \<Rightarrow> (unit, 'x) agent_result" where
  "propose_termination flow env v k owner executable changed related relation hypothesis expected s =
     (case mt_SnapshotProcess (wf_ActionTargets flow) (process_target_id owner) (po_PID owner) (snd s) of
        (Inl err, x) \<Rightarrow> ((v, Inl err), fst s, x)
      | (Inr snapshot, x) \<Rightarrow>
        if ts_StartTicks snapshot \<noteq> po_StartTicks owner \<or> ts_Executable snapshot \<noteq> executable then ((v, Inl (ErrorNew changed)), fst s, x)
        else
          let target = \<lparr>tr_Type = ''process'', tr_ID = ts_ID snapshot, tr_Criticality = []\<rparr>; v = (set_step k ''WAITING_APPROVAL'' v)\<lparr>t_CurrentStep := int k\<rparr> in
          saving (we_io env) 10 v (appending (we_io env) 11 v ''DECISION_RECORDED''
            (JObj [(''objective'', JStr (t_Objective v)), (''selected_hypothesis'', hypothesis), (''evidence_used'', json_slice (map JStr (t_EvidenceRefs v))),
                   (''selected_tool'', JStr ''process.terminate''), (''target'', json_target target), (''expected_observation'', JStr expected)])
            (\<lambda>_. prepare_write flow env v (terminate_proposal env v k owner target related relation) snapshot)) (fst s, x))"

subsection \<open>A second action\<close>

text \<open>The proposal of \<open>preparePortServiceRestart\<close> and of \<open>prepareDiskQuarantine\<close>, for the target itself.\<close>

definition followup_proposal :: "workflow_env \<Rightarrow> Task \<Rightarrow> nat \<Rightarrow> string \<Rightarrow> go_map \<Rightarrow> TargetRef \<Rightarrow> bool \<Rightarrow> string \<Rightarrow> ActionProposal" where
  "followup_proposal env v k tool arguments target reversible rollback =
     \<lparr>ap_ProposalID = we_proposalID env 0, ap_TaskID = t_ID v, ap_SessionID = t_SessionID v, ap_Tool = tool, ap_Effect = Write, ap_Arguments = Some arguments,
      ap_Target = target, ap_BatchSize = 1, ap_Reversible = reversible, ap_RollbackStrategy = rollback, ap_LabMode = True, ap_SystemState = [],
      ap_Intent = \<lparr>ic_OriginalRequest = t_OriginalRequest v, ic_Objective = t_Objective v, ic_ObjectiveTargets = [target], ic_PlanStep = st_Description (t_Plan v ! k),
        ic_PlanTargets = [target], ic_AuthorizedRelations = []\<rparr>\<rparr>"

subsection \<open>Completion\<close>

definition workflow_session :: "workflow_env \<Rightarrow> Task \<Rightarrow> string \<Rightarrow> string \<Rightarrow> string list option \<Rightarrow> Session \<Rightarrow> Session result" where
  "workflow_session env v answer summary selected s =
     Inr (s\<lparr>se_Messages := se_Messages s @ [\<lparr>ms_ID = we_msgID env, ms_Role = RoleAssistant, ms_Content = answer, ms_TaskID = t_ID v, ms_CreatedAt = pe_clock (we_io env) 15\<rparr>],
            se_SelectedResources := (case selected of None \<Rightarrow> se_SelectedResources s | Some rs \<Rightarrow> rs), se_Summary := summary, se_UpdatedAt := pe_clock (we_io env) 16\<rparr>)"

text \<open>The end of the three \<open>verify...Recovery\<close> functions.\<close>

definition complete_workflow :: "workflow_env \<Rightarrow> Task \<Rightarrow> string \<Rightarrow> string \<Rightarrow> string list option \<Rightarrow> json \<Rightarrow> agent \<times> 'x \<Rightarrow> (unit, 'x) agent_result" where
  "complete_workflow env v answer summary selected criteria s =
     (let v = Transition Completed (pe_clock (we_io env) 13) v in
      saving (we_io env) 14 v (\<lambda>s.
        case update_session (t_SessionID v) (workflow_session env v answer summary selected) (fst s) of (Inl err, g) \<Rightarrow> ((v, Inl err), g, snd s)
        | (Inr _, g) \<Rightarrow>
          appending (we_io env) 17 v ''TASK_COMPLETED'' criteria
            (\<lambda>_. appending (we_io env) 18 v ''FINAL'' (JObj [(''answer'', JStr answer), (''evidence_refs'', json_slice (map JStr (t_EvidenceRefs v)))]) (\<lambda>_ s. ((v, Inr ()), s))) (g, snd s)) s)"

text \<open>\<open>value, out, err = o.callWorkflowReadStep(...)\<close>, and on with \<open>k\<close> if it succeeds.\<close>

definition reading :: "'x Workflow \<Rightarrow> workflow_env \<Rightarrow> Task \<Rightarrow> nat \<Rightarrow> read \<Rightarrow> (Task \<Rightarrow> json \<Rightarrow> agent \<times> 'x \<Rightarrow> (unit, 'x) agent_result) \<Rightarrow> agent \<times> 'x \<Rightarrow> (unit, 'x) agent_result" where
  "reading flow env v i r k s =
     (case r of (server, tool, arguments) \<Rightarrow>
        (case callWorkflowReadStep flow env (20 * (i + 1)) v i server tool arguments s of ((w, Inl err), s) \<Rightarrow> ((w, Inl err), s) | ((w, Inr out), s) \<Rightarrow> k w out s))"

text \<open>\<open>if err := decodeStructured(...); err != nil { return value, err }\<close>.\<close>

definition decoding :: "Task \<Rightarrow> 'b result \<Rightarrow> ('b \<Rightarrow> agent \<times> 'x \<Rightarrow> (unit, 'x) agent_result) \<Rightarrow> agent \<times> 'x \<Rightarrow> (unit, 'x) agent_result" where
  "decoding v r k s = (case r of Inl err \<Rightarrow> ((v, Inl err), s) | Inr x \<Rightarrow> k x s)"

end
