(* ===== verification/Port_Recovery.thy ===== *)
theory Port_Recovery
  imports Workflow
begin

text \<open>
  \<open>internal/agent/port_workflow.go\<close>: the recovery of the demo web service whose port is taken. Five reads, one approved termination of the port holder, one approved restart of the service,
  and three checks.
\<close>

definition demoServiceUnit :: string where "demoServiceUnit = ''safeops-demo-web.service''"
definition demoPort :: int where "demoPort = 18081"
definition demoHolderExecutable :: string where "demoHolderExecutable = ''/opt/safeops/bin/safeops-port-holder''"
definition demoHealthURL :: string where "demoHealthURL = ''http://127.0.0.1:18081/healthz''"

subsection \<open>The health check\<close>

text \<open>The fields of \<open>url.URL\<close> that are compared; \<open>url.Parse\<close> and the HTTP client are arguments. A response has its status and the bytes of its body, or the error of reading them.\<close>

record URL =
  u_Scheme :: string
  u_Host :: string
  u_Path :: string
  u_RawQuery :: string
  u_Fragment :: string

definition HTTPHealthVerifier_Verify :: "(string \<Rightarrow> URL result) \<Rightarrow> (string \<Rightarrow> 'x \<Rightarrow> (int \<times> string result) result \<times> 'x) \<Rightarrow> string \<Rightarrow> 'x \<Rightarrow> HealthEvidence result \<times> 'x" where
  "HTTPHealthVerifier_Verify parse get endpoint x =
     (case parse endpoint of Inl _ \<Rightarrow> (Inl (ErrorNew ''health endpoint is outside the fixed loopback Demo target''), x)
      | Inr u \<Rightarrow>
        if u_Scheme u \<noteq> ''http'' \<or> u_Host u \<noteq> ''127.0.0.1:18081'' \<or> u_Path u \<noteq> ''/healthz'' \<or> u_RawQuery u \<noteq> [] \<or> u_Fragment u \<noteq> []
        then (Inl (ErrorNew ''health endpoint is outside the fixed loopback Demo target''), x)
        else (case get endpoint x of
            (Inl err, x) \<Rightarrow> (Inl err, x)
          | (Inr (status, Inl err), x) \<Rightarrow> (Inl err, x)
          | (Inr (status, Inr body), x) \<Rightarrow>
            if length (take 4097 body) > 4096 then (Inl (ErrorNew ''health response exceeds 4 KiB''), x)
            else if status \<noteq> 200 then (Inl (ErrorNew (''health endpoint returned HTTP '' @ itoa status)), x)
            else (Inr \<lparr>he_URL = endpoint, he_StatusCode = status, he_BodySHA256 = sha256_hex body\<rparr>, x)))"

definition json_health :: "HealthEvidence \<Rightarrow> json" where
  "json_health h = JObj [(''url'', JStr (he_URL h)), (''status_code'', json_int (he_StatusCode h)), (''body_sha256'', JStr (he_BodySHA256 h))]"

subsection \<open>Routing and plan\<close>

definition detectPortRecovery :: "string \<Rightarrow> bool" where
  "detectPortRecovery request =
     (let n = ToLower (TrimSpace request) in
      list_ex (Contains n) [''web'', hx ''e7bd91e9a1b5''] \<and> list_ex (Contains n) [hx ''e590afe58aa8e5a4b1e8b4a5'', hx ''e8b5b7e4b88de69da5'', ''failed to start''] \<and> list_ex (Contains n) [hx ''e681a2e5a48d'', hx ''e4bfaee5a48d'', ''recover''])"

definition port_plan :: "Step list" where
  "port_plan = map pending_step
     [(''port_status'', hx ''e8afbbe58f962044656d6f2057656220e69c8de58aa1e78ab6e68081'', ''service.get_status''),
      (''port_journal'', hx ''e8afbbe58f962044656d6f2057656220e69c8de58aa1e697a5e5bf97'', ''journal.query_unit''),
      (''port_socket'', hx ''e6a380e69fa52044656d6f20e7abafe58fa3e58da0e794a8'', ''network.check_port''),
      (''port_owner'', hx ''e5ae9ae4bd8d2044656d6f20e7abafe58fa3e58da0e794a8e8bf9be7a88b'', ''process.find_by_port''),
      (''port_rca'', hx ''e585b3e88194e5a49ae6ba90e8af81e68daee5b9b6e7949fe6889020524341'', ''diagnostic.port_conflict''),
      (''port_terminate'', hx ''e7bb88e6ada2e8af81e68daee7bb91e5ae9ae79a84e58f97e68ea7e7abafe58fa3e58da0e794a8e8bf9be7a88b'', ''process.terminate''),
      (''port_restart'', hx ''e9878de590af20616c6c6f776c6973742044656d6f2057656220e69c8de58aa1'', ''service.restart''),
      (''port_verify_service'', hx ''e9aa8ce8af812044656d6f2057656220e69c8de58aa120616374697665'', ''service.get_status''),
      (''port_verify_socket'', hx ''e9aa8ce8af812044656d6f20e7abafe58fa3e9878de696b0e79b91e590ac'', ''network.check_port''),
      (''port_verify_http'', hx ''e9aa8ce8af81206c6f6f706261636b2048545450206865616c74687a'', ''http.verify_health'')]"

definition read_status :: read where "read_status = (''service'', ''service.get_status'', [(''unit'', JStr demoServiceUnit)])"
definition read_port :: read where "read_port = (''network'', ''network.check_port'', [(''port'', json_int demoPort), (''protocol'', JStr ''tcp'')])"

definition port_reads :: "read list" where
  "port_reads =
     [read_status,
      (''journal'', ''journal.query_unit'', [(''unit'', JStr demoServiceUnit), (''lines'', json_int 200)]),
      read_port,
      (''process'', ''process.find_by_port'', [(''port'', json_int demoPort)]),
      (''diagnostic'', ''diagnostic.port_conflict'', [(''unit'', JStr demoServiceUnit), (''port'', json_int demoPort)])]"

subsection \<open>The evidence\<close>

definition uniqueDemoHolder :: "ProcessInfo list \<Rightarrow> ProcessInfo result" where
  "uniqueDemoHolder ps =
     (case filter (\<lambda>p. po_Executable p = demoHolderExecutable) ps of [p] \<Rightarrow> Inr p
      | ms \<Rightarrow> Inl (ErrorNew (''expected exactly one allowlisted Demo port holder, got '' @ itoa (int (length ms)))))"

definition knowledgeRefs :: "json list \<Rightarrow> string list" where
  "knowledgeRefs ks = map (\<lambda>d. ''knowledge://'' @ d) (filter (\<lambda>d. d \<noteq> []) (map (\<lambda>k. as_str (sub k ''document_id'')) ks))"

definition decode_status :: "decoders \<Rightarrow> json \<Rightarrow> string result" \<comment> \<open>the active state of the service\<close> where
  "decode_status dc j = map_sum id (\<lambda>d. as_str (sub (sub d ''service'') ''active_state'')) (decodeStructured dc (GoStruct [fld ''service'' type_ServiceStatus]) j)"

definition decode_occupied :: "decoders \<Rightarrow> json \<Rightarrow> bool result" where
  "decode_occupied dc j = map_sum id (\<lambda>d. as_bool (sub d ''occupied'')) (decodeStructured dc (GoStruct [fld ''occupied'' GoBool]) j)"

definition decode_diagnosis :: "decoders \<Rightarrow> json \<Rightarrow> (json \<times> json list) result" \<comment> \<open>the RCA and the knowledge\<close> where
  "decode_diagnosis dc j = map_sum id (\<lambda>d. (sub (sub d ''diagnosis'') ''rca'', as_list (sub d ''knowledge'')))
     (decodeStructured dc (GoStruct [fld ''diagnosis'' (GoStruct [fld ''rca'' type_RCA]), fld ''knowledge'' (GoSlice type_Knowledge)]) j)"

definition wrapped :: "string \<Rightarrow> 'b result \<Rightarrow> 'b result" where
  "wrapped text = map_sum (Wrapf text) id"

definition retrieved :: "workflow_env \<Rightarrow> Task \<Rightarrow> json list \<Rightarrow> (agent \<times> 'x \<Rightarrow> (unit, 'x) agent_result) \<Rightarrow> agent \<times> 'x \<Rightarrow> (unit, 'x) agent_result" where
  "retrieved env v knowledge k s =
     (if knowledge = [] then k s
      else appending (we_io env) 4 v ''KNOWLEDGE_RETRIEVED''
        (JObj [(''results'', JArr knowledge), (''retrieved_document_refs'', JArr (map JStr (knowledgeRefs knowledge)))]) (\<lambda>_. k) s)"

text \<open>From the recorded RCA on: the termination is proposed only on complete evidence.\<close>

definition justify_port_termination :: "'x Workflow \<Rightarrow> workflow_env \<Rightarrow> Task \<Rightarrow> string \<Rightarrow> bool \<Rightarrow> ProcessInfo list \<Rightarrow> json \<Rightarrow> agent \<times> 'x \<Rightarrow> (unit, 'x) agent_result" where
  "justify_port_termination flow env v activeState occupied owners rca s =
     (if activeState = ''active'' then ((v, Inl (ErrorNew ''Demo service is already active; destructive recovery is not justified'')), s)
      else if \<not> occupied \<or> as_str (sub rca ''diagnosis_level'') \<noteq> ''D1'' \<or> as_str (sub rca ''root_cause'') = []
      then ((v, Inl (ErrorNew ''complete D1 port-conflict evidence is required before proposing process termination'')), s)
      else decoding v (uniqueDemoHolder owners) (\<lambda>owner.
        propose_termination flow env v 5 owner demoHolderExecutable ''TARGET_CHANGED: port owner snapshot no longer matches the controlled holder evidence''
          \<lparr>tr_Type = ''service'', tr_ID = demoServiceUnit, tr_Criticality = []\<rparr> ''PROCESS_OCCUPIES_REQUIRED_PORT'' (JStr (as_str (sub rca ''root_cause'')))
          ''exact PID/start/executable disappears after fixed SIGTERM'') s)"

definition investigate_port :: "'x Workflow \<Rightarrow> workflow_env \<Rightarrow> Task \<Rightarrow> json list \<Rightarrow> agent \<times> 'x \<Rightarrow> (unit, 'x) agent_result" where
  "investigate_port flow env v outputs s =
     decoding v (wrapped ''decode service evidence'' (decode_status (wf_Decoders flow) (outputs ! 0))) (\<lambda>activeState.
       decoding v (wrapped ''decode port evidence'' (decode_occupied (wf_Decoders flow) (outputs ! 2))) (\<lambda>occupied.
         decoding v (wrapped ''decode process evidence'' (decode_processes (wf_Decoders flow) (outputs ! 3))) (\<lambda>owners.
           decoding v (wrapped ''decode RCA evidence'' (decode_diagnosis (wf_Decoders flow) (outputs ! 4))) (\<lambda>(rca, knowledge).
             retrieved env v knowledge
               (appending (we_io env) 5 v ''RCA_RESULT'' rca (\<lambda>_. justify_port_termination flow env v activeState occupied owners rca)))))) s"

text \<open>The checks for missing dependencies come first: their outcome is the error or the configured workflow.\<close>

definition runPortRecovery :: "'x Workflow result \<Rightarrow> workflow_env \<Rightarrow> Task \<Rightarrow> agent \<times> 'x \<Rightarrow> (unit, 'x) agent_result" where
  "runPortRecovery configured env v s =
     (case configured of Inl err \<Rightarrow> ((v, Inl err), s)
      | Inr flow \<Rightarrow>
        let v = Transition Planning (pe_clock (we_io env) 0) (v\<lparr>t_IntentType := ''port_conflict_recovery'', t_Plan := port_plan\<rparr>) in
        saving (we_io env) 1 v (appending (we_io env) 2 v ''INTENT_PARSED''
          (JObj [(''intent_type'', JStr (t_IntentType v)), (''unit'', JStr demoServiceUnit), (''port'', json_int demoPort), (''scope'', JStr ''fixed controlled Lab'')])
          (\<lambda>_. appending (we_io env) 3 v ''PLAN_CREATED''
             (JObj [(''steps'', JArr (map json_step (t_Plan v))),
                    (''completion_criteria'', JStr ''service active, port listening, loopback health HTTP 200; each write separately approved and verified'')])
             (\<lambda>_ s. case call_reads flow env 0 port_reads v s of
                ((w, Inl err), s) \<Rightarrow> ((w, Inl err), s)
              | ((w, Inr outputs), s) \<Rightarrow> investigate_port flow env w outputs s))) s)"

subsection \<open>After the approved actions\<close>

definition preparePortServiceRestart :: "'x Workflow \<Rightarrow> workflow_env \<Rightarrow> Task \<Rightarrow> agent \<times> 'x \<Rightarrow> (unit, 'x) agent_result" where
  "preparePortServiceRestart flow env v s =
     (case mt_SnapshotService (wf_ActionTargets flow) demoServiceUnit demoServiceUnit (snd s) of
        (Inl err, x) \<Rightarrow> ((v, Inl err), fst s, x)
      | (Inr snapshot, x) \<Rightarrow>
        let target = \<lparr>tr_Type = ''service'', tr_ID = ts_ID snapshot, tr_Criticality = []\<rparr>;
            v = Transition Planning (pe_clock (we_io env) 9) ((set_step 6 ''WAITING_APPROVAL'' v)\<lparr>t_CurrentStep := 6\<rparr>) in
        saving (we_io env) 10 v (appending (we_io env) 11 v ''DECISION_RECORDED''
          (JObj [(''objective'', JStr (t_Objective v)), (''current_step'', JStr (st_Description (t_Plan v ! 6))), (''evidence_used'', json_slice (map JStr (t_EvidenceRefs v))),
                 (''selected_tool'', JStr ''service.restart''), (''target'', json_target target),
                 (''expected_observation'', JStr ''fixed systemctl restart succeeds and systemctl show reports active'')])
          (\<lambda>_. prepare_write flow env v (followup_proposal env v 6 ''service.restart'' [(''unit'', JStr demoServiceUnit)] target False []) snapshot)) (fst s, x))"

definition port_answer :: string where
  "port_answer = hx ''e5b7b2e7a1aee8aea42057656220e69c8de58aa1e59ba0e7abafe58fa3e8a2abe58f97e68ea7204c616220e8bf9be7a88be58da0e794a8e8808ce590afe58aa8e5a4b1e8b4a5e38082e4b8a4e4b8aae58699e58aa8e4bd9ce58886e588abe9809ae8bf87e69cace59cb0e68aa4e6a08fe38081e4babae5b7a5e5aea1e689b9e5928ce79baee6a087e9878de9aa8ce8af81efbc9ae58da0e794a8e8bf9be7a88be5b7b2e794a8e59bbae5ae9a205349475445524d20e7bb88e6ada2efbc8c44656d6f2057656220e69c8de58aa1e5b7b2e9878de590afefbc9be69c8de58aa1e78ab6e68081e38081e7abafe58fa3e79b91e590ace5928c206c6f6f706261636b2048545450206865616c74687a20e59d87e9aa8ce8af81e9809ae8bf87e38082''"

definition finish_port :: "'x Workflow \<Rightarrow> workflow_env \<Rightarrow> Task \<Rightarrow> agent \<times> 'x \<Rightarrow> (unit, 'x) agent_result" where
  "finish_port flow env v s =
     (case wf_Health flow demoHealthURL (snd s) of
        (Inl err, x) \<Rightarrow> ((v, Inl (Wrapf ''verify Demo HTTP health'' err)), fst s, x)
      | (Inr evidence, x) \<Rightarrow>
        appending (we_io env) 12 v ''VERIFICATION'' (JObj [(''verified'', JBool True), (''source'', JStr ''fixed_loopback_http''), (''evidence'', json_health evidence)])
          (\<lambda>ev. let w = (completed_step 9 v)\<lparr>t_CurrentStep := 9\<rparr>;
                   w = w\<lparr>t_EvidenceRefs := t_EvidenceRefs w @ [evidence_ref v ev],
                         t_Findings := t_Findings w @ [hx ''44656d6f2057656220e69c8de58aa120616374697665e38081e7abafe58fa3e9878de696b0e79b91e590ace4b894206c6f6f706261636b206865616c74687a20e8bf94e59b9e204854545020323030'']\<rparr>
               in complete_workflow env w port_answer (hx ''e7abafe58fa3e586b2e7aa81e5b7b2e5ae8ce68890e5a49ae6ba90e8af8ae696ade38081e98090e58aa8e4bd9ce5aea1e689b9e38081e681a2e5a48de5928ce4b889e9878de9aa8ce8af81'') None
                    (JObj [(''completion_criteria_met'', JBool True), (''service_active'', JBool True), (''port_listening'', JBool True), (''http_status'', json_int (he_StatusCode evidence))]))
          (fst s, x))"

definition verifyPortRecovery :: "'x Workflow \<Rightarrow> workflow_env \<Rightarrow> Task \<Rightarrow> agent \<times> 'x \<Rightarrow> (unit, 'x) agent_result" where
  "verifyPortRecovery flow env v s =
     (let v = Transition Verifying (pe_clock (we_io env) 0) v in
      saving (we_io env) 1 v (reading flow env v 7 read_status (\<lambda>v service. reading flow env v 8 read_port (\<lambda>v port.
        decoding v (decode_status (wf_Decoders flow) service) (\<lambda>activeState.
          decoding v (decode_occupied (wf_Decoders flow) port) (\<lambda>occupied s.
            if activeState \<noteq> ''active'' \<or> \<not> occupied
            then ((v, Inl (ErrorNew (''post-recovery verification failed: active='' @ activeState @ '' port_occupied='' @ (if occupied then ''true'' else ''false'')))), s)
            else finish_port flow env v s))))) s)"

end
