(* ===== verification/Cpu_Recovery.thy ===== *)
theory Cpu_Recovery
  imports Port_Recovery
begin

text \<open>
  \<open>internal/agent/cpu_workflow.go\<close>: the recovery from the controlled CPU hog. Four reads, one approved termination, and the check that the process is gone and the CPU usage fell by more than half
  a percent. The baseline is kept in the task as the text that \<open>json.Marshal\<close> writes for the number.
\<close>

definition demoCPUUnit :: string where "demoCPUUnit = ''safeops-cpu-hog.service''"
definition demoCPUExecutable :: string where "demoCPUExecutable = ''/opt/safeops/bin/safeops-cpu-hog''"

subsection \<open>Floating point\<close>

text \<open>The addition of two \<open>float64\<close> rounds the exact sum to 53 bits. A sum with 0.5 neither overflows nor becomes subnormal without being exact.\<close>

fun bit_length :: "nat \<Rightarrow> nat" where
  "bit_length n = (if n = 0 then 0 else Suc (bit_length (n div 2)))"

declare bit_length.simps [simp del]

definition round53 :: "float64 \<Rightarrow> float64" where
  "round53 x = (case x of (a, b) \<Rightarrow> let k = bit_length (nat \<bar>a\<bar>) - 53 in if k = 0 then x else (sgn a * round_half_even \<bar>a\<bar> (2 ^ k), b + int k))"

definition float_add :: "float64 \<Rightarrow> float64 \<Rightarrow> float64" where
  "float_add x y = (case x of (a, b) \<Rightarrow> case y of (c, d) \<Rightarrow> let e = min b d in round53 (a * 2 ^ nat (b - e) + c * 2 ^ nat (d - e), e))"

definition float_of :: "decoders \<Rightarrow> string \<Rightarrow> float64" where
  "float_of dc s = (case dc_float dc s of Some x \<Rightarrow> x | None \<Rightarrow> (0, 0))"

subsection \<open>Routing and plan\<close>

text \<open>\<open>strings.ReplaceAll(s, pat, "")\<close> for a pattern that is not empty.\<close>

fun remove_all :: "string \<Rightarrow> string \<Rightarrow> string" where
  "remove_all pat [] = []"
| "remove_all pat (c # cs) = (if prefix pat (c # cs) then remove_all pat (drop (length pat - 1) cs) else c # remove_all pat cs)"

definition detectCPURecovery :: "string \<Rightarrow> bool" where
  "detectCPURecovery request =
     (let n = ToLower (TrimSpace request); action = remove_all (hx ''e5a484e79086e599a8'') n in
      list_ex (Contains n) [''cpu'', hx ''e5a484e79086e599a8''] \<and> list_ex (Contains n) [hx ''e9ab98'', hx ''e58da0e794a8'', hx ''e5bf99''] \<and> list_ex (Contains action) [hx ''e5a484e79086'', hx ''e681a2e5a48d'', hx ''e7bb93e69d9f'', hx ''e4bfaee5a48d''])"

definition cpu_plan :: "Step list" where
  "cpu_plan = map pending_step
     [(''cpu_baseline'', hx ''e98787e6a0b7e5a484e7bdaee5898d2043505520e4bdbfe794a8e78e87'', ''system.get_cpu_metrics''),
      (''cpu_process'', hx ''e5ae9ae4bd8de58f97e68ea72043505520e58e8be58a9be8bf9be7a88b'', ''process.search''),
      (''cpu_journal'', hx ''e8afbbe58f96e58f97e68ea72043505520756e697420e697a5e5bf97'', ''journal.query_unit''),
      (''cpu_rca'', hx ''e585b3e88194e8b49fe8bdbde4b88ee8bf9be7a88be8b584e6ba90e7949fe6889020524341'', ''diagnostic.high_cpu''),
      (''cpu_terminate'', hx ''e7bb88e6ada2e8af81e68daee7bb91e5ae9ae79a84e58f97e68ea72043505520e8bf9be7a88b'', ''process.terminate''),
      (''cpu_verify_metric'', hx ''e9878de696b0e98787e6a0b72043505520e4bdbfe794a8e78e87'', ''system.get_cpu_metrics''),
      (''cpu_verify_process'', hx ''e9aa8ce8af81e58f97e68ea72043505520e8bf9be7a88be5b7b2e6b688e5a4b1'', ''process.search'')]"

definition read_cpu :: read where "read_cpu = (''system'', ''system.get_cpu_metrics'', [])"
definition read_hog :: read where "read_hog = (''process'', ''process.search'', [(''query'', JStr ''safeops-cpu-hog''), (''limit'', json_int 20)])"

definition cpu_reads :: "read list" where
  "cpu_reads =
     [read_cpu, read_hog,
      (''journal'', ''journal.query_unit'', [(''unit'', JStr demoCPUUnit), (''lines'', json_int 100)]),
      (''diagnostic'', ''diagnostic.high_cpu'', [(''limit'', json_int 20)])]"

subsection \<open>The run\<close>

definition decode_usage :: "decoders \<Rightarrow> json \<Rightarrow> string result" \<comment> \<open>the text of the number\<close> where
  "decode_usage dc j = map_sum id (\<lambda>d. as_num (sub d ''usage_percent'')) (decodeStructured dc (GoStruct [fld ''usage_percent'' GoFloat64]) j)"

definition decode_rca :: "decoders \<Rightarrow> json \<Rightarrow> json result" where
  "decode_rca dc j = map_sum id (\<lambda>d. sub d ''rca'') (decodeStructured dc (GoStruct [fld ''rca'' type_RCA]) j)"

definition investigate_cpu :: "'x Workflow \<Rightarrow> workflow_env \<Rightarrow> Task \<Rightarrow> json list \<Rightarrow> agent \<times> 'x \<Rightarrow> (unit, 'x) agent_result" where
  "investigate_cpu flow env v outputs s =
     decoding v (decode_usage (wf_Decoders flow) (outputs ! 0)) (\<lambda>baseline.
       decoding v (decode_processes (wf_Decoders flow) (outputs ! 1)) (\<lambda>processes.
         decoding v (decode_rca (wf_Decoders flow) (outputs ! 3)) (\<lambda>rca s.
           if \<not> float_less (0, 0) (float_of (wf_Decoders flow) baseline) then ((v, Inl (ErrorNew ''CPU baseline is unavailable; recovery action is not justified'')), s)
           else appending (we_io env) 4 v ''RCA_RESULT'' rca (\<lambda>_.
             decoding v (uniqueControlledProcess processes demoCPUExecutable) (\<lambda>owner.
               let v = v\<lparr>t_WorkflowData := AList.update ''cpu_baseline_percent'' baseline (t_WorkflowData v)\<rparr> in
               propose_termination flow env v 4 owner demoCPUExecutable ''TARGET_CHANGED: CPU hog snapshot no longer matches investigation evidence''
                 host_target ''PROCESS_CONSUMES_CPU'' (sub rca ''candidate_causes'')
                 ''exact CPU hog PID/start/executable disappears and aggregate CPU is resampled'')) s))) s"

definition runCPURecovery :: "'x Workflow result \<Rightarrow> workflow_env \<Rightarrow> Task \<Rightarrow> agent \<times> 'x \<Rightarrow> (unit, 'x) agent_result" where
  "runCPURecovery configured env v s =
     (case configured of Inl err \<Rightarrow> ((v, Inl err), s)
      | Inr flow \<Rightarrow>
        let v = Transition Planning (pe_clock (we_io env) 0) (v\<lparr>t_IntentType := ''cpu_hog_recovery'', t_Plan := cpu_plan, t_WorkflowData := []\<rparr>) in
        saving (we_io env) 1 v (appending (we_io env) 2 v ''INTENT_PARSED''
          (JObj [(''intent_type'', JStr (t_IntentType v)), (''unit'', JStr demoCPUUnit), (''executable'', JStr demoCPUExecutable), (''scope'', JStr ''fixed controlled Lab'')])
          (\<lambda>_. appending (we_io env) 3 v ''PLAN_CREATED''
             (JObj [(''steps'', JArr (map json_step (t_Plan v))),
                    (''completion_criteria'', JStr ''exact CPU hog process absent and fresh aggregate CPU sample lower than the persisted baseline'')])
             (\<lambda>_ s. case call_reads flow env 0 cpu_reads v s of
                ((w, Inl err), s) \<Rightarrow> ((w, Inl err), s)
              | ((w, Inr outputs), s) \<Rightarrow> investigate_cpu flow env w outputs s))) s)"

subsection \<open>After the approved action\<close>

definition percent :: "float64 \<Rightarrow> string" where "percent x = fixed 1 x @ ''%''"

definition finish_cpu :: "workflow_env \<Rightarrow> Task \<Rightarrow> float64 \<Rightarrow> float64 \<Rightarrow> agent \<times> 'x \<Rightarrow> (unit, 'x) agent_result" where
  "finish_cpu env v baseline after =
     (let v = v\<lparr>t_Findings := t_Findings v @ [hx ''e58f97e68ea72043505520e8bf9be7a88be5b7b2e6b688e5a4b1efbc8c6167677265676174652043505520e4bb8e20'' @ percent baseline @ hx ''20e9998de887b320'' @ percent after]\<rparr>;
          answer = hx ''e5b7b2e9809ae8bf87e68c87e6a087e38081e8bf9be7a88be38081e697a5e5bf97e5928c2052434120e8af81e68daee7a1aee8aea4e58f97e68ea72043505520e58e8be58a9be8bf9be7a88be38082e8afa5e7b2bee7a1ae2050494420e7bb8f204c3220e4babae5b7a5e5aea1e689b9e38081e79baee6a087e9878de9aa8ce8af81e5928ce59bbae5ae9a205349475445524d20e5908ee5b7b2e6b688e5a4b1efbc9be696b0e79a842043505520e98787e6a0b7e4bb8e20'' @ percent baseline
            @ hx ''20e9998de887b320'' @ percent after @ hx ''efbc8ce681a2e5a48de69da1e4bbb6e5b7b2e6bba1e8b6b3e38082''
      in complete_workflow env v answer (hx ''e58f97e68ea72043505520e58e8be58a9be5b7b2e5ae8ce68890e5a49ae6ba90e8af8ae696ade38081e5aea1e689b9e5a484e7bdaee5928ce68c87e6a087e681a2e5a48de9aa8ce8af81'') None
           (JObj [(''completion_criteria_met'', JBool True), (''process_absent'', JBool True), (''metric_recovered'', JBool True)]))"

definition check_cpu :: "'x Workflow \<Rightarrow> workflow_env \<Rightarrow> Task \<Rightarrow> string \<Rightarrow> ProcessInfo list \<Rightarrow> agent \<times> 'x \<Rightarrow> (unit, 'x) agent_result" where
  "check_cpu flow env v afterText processes s =
     (let dc = wf_Decoders flow; raw = (case map_of (t_WorkflowData v) ''cpu_baseline_percent'' of Some r \<Rightarrow> r | None \<Rightarrow> []); after = float_of dc afterText in
      case dc_float dc raw of
        None \<Rightarrow> ((v, Inl (ErrorNew ''durable CPU baseline is missing'')), s)
      | Some baseline \<Rightarrow>
        if raw = [] then ((v, Inl (ErrorNew ''durable CPU baseline is missing'')), s)
        else if list_ex (\<lambda>p. po_Executable p = demoCPUExecutable) processes then ((v, Inl (ErrorNew ''CPU hog process is still present after executor verification'')), s)
        else
          let metricRecovered = float_less (float_add after (1, - 1)) baseline in
          appending (we_io env) 12 v ''VERIFICATION''
            (JObj [(''verified'', JBool metricRecovered), (''process_absent'', JBool True), (''baseline_usage_percent'', JNum raw), (''after_usage_percent'', JNum afterText),
                   (''minimum_drop_percent'', JNum ''0.5'')])
            (\<lambda>ev. let w = v\<lparr>t_EvidenceRefs := t_EvidenceRefs v @ [evidence_ref v ev]\<rparr> in
               if \<not> metricRecovered
               then (\<lambda>s. ((w, Inl (ErrorNew (''CPU recovery completion gate failed: baseline='' @ percent baseline @ '' after='' @ percent after))), s))
               else finish_cpu env w baseline after) s)"

definition verifyCPURecovery :: "'x Workflow \<Rightarrow> workflow_env \<Rightarrow> Task \<Rightarrow> agent \<times> 'x \<Rightarrow> (unit, 'x) agent_result" where
  "verifyCPURecovery flow env v s =
     (let v = Transition Verifying (pe_clock (we_io env) 0) v in
      saving (we_io env) 1 v (reading flow env v 5 read_cpu (\<lambda>v metric. reading flow env v 6 read_hog (\<lambda>v process.
        decoding v (decode_usage (wf_Decoders flow) metric) (\<lambda>after.
          decoding v (decode_processes (wf_Decoders flow) process) (check_cpu flow env v after))))) s)"

end
