(* ===== verification/Disk_Recovery.thy ===== *)
theory Disk_Recovery
  imports Cpu_Recovery
begin

text \<open>
  \<open>internal/agent/disk_workflow.go\<close>: the recovery from the growing log. Three reads, the approved termination of the writer, the approved quarantine of the file as it is after the writer stopped, and
  the check that both are gone. \<open>prepareDiskQuarantine\<close> writes into the map \<open>WorkflowData\<close>, which \<open>runDiskRecovery\<close> has filled.
\<close>

definition demoLabRoot :: string where "demoLabRoot = ''/var/lib/safeops/lab''"
definition demoGrowthPath :: string where "demoGrowthPath = ''/var/lib/safeops/lab/growth.log''"
definition demoLogWriterExecutable :: string where "demoLogWriterExecutable = ''/opt/safeops/bin/safeops-log-writer''"

subsection \<open>Routing and plan\<close>

definition detectDiskRecovery :: "string \<Rightarrow> bool" where
  "detectDiskRecovery request =
     (let n = ToLower (TrimSpace request) in
      list_ex (Contains n) [hx ''e7a381e79b98'', hx ''e697a5e5bf97'', ''disk''] \<and> list_ex (Contains n) [hx ''e5a29ee995bf'', hx ''e58f98e5a4a7'', hx ''e58da0e794a8'', hx ''e6bba1''] \<and> list_ex (Contains n) [hx ''e5a484e79086'', hx ''e99a94e7a6bb'', hx ''e681a2e5a48d'', hx ''e4bfaee5a48d''])"

definition fixedLabReadScopeCompatible :: "string \<Rightarrow> string list \<Rightarrow> bool" where
  "fixedLabReadScopeCompatible request allowedPaths =
     (case requestPathScopes request of (authorized, excluded) \<Rightarrow>
        list_all (\<lambda>p. p \<in> set (normalizedUniquePaths allowedPaths)) authorized
        \<and> list_all (\<lambda>p. \<not> (pathWithinScope demoLabRoot p \<or> pathWithinScope p demoLabRoot)) excluded)"

definition disk_plan :: "Step list" where
  "disk_plan = map pending_step
     [(''disk_pressure'', hx ''e8afbbe58f96204c616220e68980e59ca8e69687e4bbb6e7b3bbe7bb9fe5aeb9e9878fe8af81e68dae'', ''diagnostic.disk_pressure''),
      (''disk_large'', hx ''e5ae9ae4bd8d204c616220e58685e5bc82e5b8b8e5a29ee995bfe69687e4bbb6'', ''file.find_large''),
      (''disk_writer'', hx ''e5ae9ae4bd8de591bde4bba4e8a18ce7bb91e5ae9a2067726f7774682e6c6f6720e79a84e58f97e68ea7e58699e585a5e8bf9be7a88b'', ''process.search''),
      (''disk_stop_writer'', hx ''e7bb88e6ada2e8af81e68daee7bb91e5ae9ae79a84e58f97e68ea7e697a5e5bf97e58699e585a5e8bf9be7a88b'', ''process.terminate''),
      (''disk_quarantine'', hx ''e68a8a2067726f7774682e6c6f6720e58e9fe5ad90e99a94e7a6bbe588b0e58fafe681a2e5a48de6b885e58d95'', ''file.quarantine''),
      (''disk_verify_writer'', hx ''e9aa8ce8af81e58f97e68ea7e58699e585a5e8bf9be7a88be5b7b2e6b688e5a4b1'', ''process.search''),
      (''disk_verify_active'', hx ''e9aa8ce8af81e6b4bbe58aa8204c616220e79baee5bd95e4b88de5868de58c85e590ab2067726f7774682e6c6f67'', ''file.find_large''),
      (''disk_verify_fs'', hx ''e9878de696b0e8afbbe58f96e69687e4bbb6e7b3bbe7bb9fe5aeb9e9878fe5b9b6e5a3b0e6988ee99a94e7a6bbe8afade4b989'', ''system.get_disk_usage'')]"

definition read_large :: read where
  "read_large = (''file'', ''file.find_large'', [(''path'', JStr demoLabRoot), (''minimum_bytes'', json_int 1048576), (''max_depth'', json_int 2), (''limit'', json_int 20)])"

definition read_writer :: read where "read_writer = (''process'', ''process.search'', [(''query'', JStr ''safeops-log-writer''), (''limit'', json_int 20)])"

definition disk_reads :: "read list" where
  "disk_reads = [(''diagnostic'', ''diagnostic.disk_pressure'', [(''path'', JStr demoLabRoot), (''warning_ratio'', JNum ''0.5'')]), read_large, read_writer]"

subsection \<open>The run\<close>

definition exactGrowthFile :: "Metadata list \<Rightarrow> Metadata result" where
  "exactGrowthFile fs =
     (case find (\<lambda>m. md_Path m = demoGrowthPath \<and> md_IsRegular m) fs of Some m \<Rightarrow> Inr m
      | None \<Rightarrow> Inl (ErrorNew ''fixed growth.log was not found above the controlled large-file threshold''))"

text \<open>The \<open>rca.Result\<close> of the run. \<open>components.Score()\<close> is 0.4 + 0.2, rounded to three places.\<close>

definition disk_diagnosis :: "Task \<Rightarrow> ProcessInfo \<Rightarrow> json list \<times> json" \<comment> \<open>the candidate causes and the whole result\<close> where
  "disk_diagnosis v writer =
     (let refs = json_slice (map JStr (t_EvidenceRefs v));
          causes = [JObj [(''cause'', JStr (hx ''e58f97e68ea720736166656f70732d6c6f672d77726974657220e591bde4bba4e8a18ce7bb91e5ae9a2067726f7774682e6c6f67efbc8ce4b894e8afa5e69687e4bbb6e8bebee588b0e5a4a7e59e8be69687e4bbb6e99888e580bc'')), (''score'', JNum ''0.6''), (''evidence_refs'', refs)]]
      in (causes, JObj [(''diagnosis_level'', JStr ''D2''), (''confidence'', JNum ''0.6''),
            (''confidence_components'', JObj [(''signal_match'', JNum ''1''), (''log_pattern_match'', JNum ''0''), (''graph_consistency'', JNum ''1''), (''case_similarity'', JNum ''0'')]),
            (''candidate_causes'', JArr causes), (''culprit'', JStr (process_target_id writer)), (''evidence_refs'', refs),
            (''missing_evidence'', JArr [JStr (hx ''e789a9e79086e69687e4bbb6e7b3bbe7bb9fe7a9bae997b4e58faae883bde59ca8e6b0b8e4b985e6b885e79086e68896e8b7a8e69687e4bbb6e7b3bbe7bb9fe8bf81e7a7bbe5908ee9878ae694be'')]),
            (''remediation'', JArr [JStr (hx ''e58588e7bb88e6ada2e58f97e68ea7e58699e585a5e8bf9be7a88b''), JStr (hx ''e68a8ae69687e4bbb6e99a94e7a6bbe588b0e58fafe681a2e5a48de6b885e58d95''), JStr (hx ''e4b88de8a681e5aea3e7a7b0e5908ce69687e4bbb6e7b3bbe7bb9fe99a94e7a6bbe9878ae694bee4ba86e789a9e79086e7a9bae997b4'')])]))"

definition investigate_disk :: "'x Workflow \<Rightarrow> workflow_env \<Rightarrow> Task \<Rightarrow> json list \<Rightarrow> agent \<times> 'x \<Rightarrow> (unit, 'x) agent_result" where
  "investigate_disk flow env v outputs s =
     decoding v (decode_files (wf_Decoders flow) (outputs ! 1)) (\<lambda>large.
       decoding v (decode_processes (wf_Decoders flow) (outputs ! 2)) (\<lambda>processes.
         decoding v (exactGrowthFile large) (\<lambda>growth.
           decoding v (uniqueControlledProcess processes demoLogWriterExecutable) (\<lambda>writer s.
             if \<not> Contains (po_Command writer) demoGrowthPath then ((v, Inl (ErrorNew ''log writer command evidence is not bound to the fixed growth.log path'')), s)
             else appending (we_io env) 4 v ''RCA_RESULT'' (snd (disk_diagnosis v writer))
               (\<lambda>_. let w = v\<lparr>t_WorkflowData := AList.update ''growth_size_bytes'' (itoa (md_SizeBytes growth)) (t_WorkflowData v), t_SelectedResources := [demoGrowthPath]\<rparr> in
                  propose_termination flow env w 3 writer demoLogWriterExecutable ''TARGET_CHANGED: log writer snapshot no longer matches investigation evidence''
                    \<lparr>tr_Type = ''file'', tr_ID = demoGrowthPath, tr_Criticality = []\<rparr> ''PROCESS_WRITES_FILE'' (JArr (fst (disk_diagnosis v writer)))
                    ''exact writer process disappears before file isolation'') s)))) s"

definition runDiskRecovery :: "'x Workflow result \<Rightarrow> workflow_env \<Rightarrow> Task \<Rightarrow> agent \<times> 'x \<Rightarrow> (unit, 'x) agent_result" where
  "runDiskRecovery configured env v s =
     (case configured of Inl err \<Rightarrow> ((v, Inl err), s)
      | Inr flow \<Rightarrow>
        let v = Transition Planning (pe_clock (we_io env) 0) (v\<lparr>t_IntentType := ''disk_log_recovery'', t_Plan := disk_plan, t_WorkflowData := []\<rparr>) in
        saving (we_io env) 1 v (appending (we_io env) 2 v ''INTENT_PARSED''
          (JObj [(''intent_type'', JStr (t_IntentType v)), (''lab_root'', JStr demoLabRoot), (''growth_path'', JStr demoGrowthPath), (''scope'', JStr ''fixed controlled Lab'')])
          (\<lambda>_. appending (we_io env) 3 v ''PLAN_CREATED''
             (JObj [(''steps'', JArr (map json_step (t_Plan v))),
                    (''completion_criteria'', JStr ''writer absent, growth.log absent from active Lab root, quarantine manifest retained; no claim of physical filesystem reclamation'')])
             (\<lambda>_ s. case call_reads flow env 0 disk_reads v s of
                ((w, Inl err), s) \<Rightarrow> ((w, Inl err), s)
              | ((w, Inr outputs), s) \<Rightarrow> investigate_disk flow env w outputs s))) s)"

subsection \<open>After the approved actions\<close>

definition restore_strategy :: string where "restore_strategy = ''restore exact quarantine manifest''"

definition prepareDiskQuarantine :: "'x Workflow \<Rightarrow> workflow_env \<Rightarrow> Task \<Rightarrow> agent \<times> 'x \<Rightarrow> (unit, 'x) agent_result" where
  "prepareDiskQuarantine flow env v s =
     (case ft_SnapshotFile (wf_FileTargets flow) demoGrowthPath demoGrowthPath (snd s) of
        (Inl err, x) \<Rightarrow> ((v, Inl err), fst s, x)
      | (Inr snapshot, x) \<Rightarrow>
        if ts_Size snapshot \<le> 0 then ((v, Inl (ErrorNew ''fresh growth.log snapshot has no quarantinable bytes'')), fst s, x)
        else
          let target = \<lparr>tr_Type = ''file'', tr_ID = ts_ID snapshot, tr_Criticality = []\<rparr>;
              v = v\<lparr>t_WorkflowData := AList.update ''growth_size_bytes'' (itoa (ts_Size snapshot)) (t_WorkflowData v),
                    t_Findings := t_Findings v @ [hx ''77726974657220e5819ce6ada2e5908ee9878de696b0e98787e99b862067726f7774682e6c6f6720e5bfabe785a7efbc9a'' @ itoa (ts_Size snapshot) @ hx ''20e5ad97e88a82efbc9be7acace4ba8ce6aca1e5aea1e689b9e5b086e58faae7bb91e5ae9ae8afa5e696b0e5bfabe785a7'']\<rparr>;
              v = Transition Planning (pe_clock (we_io env) 9) ((set_step 4 ''WAITING_APPROVAL'' v)\<lparr>t_CurrentStep := 4\<rparr>) in
          saving (we_io env) 10 v (appending (we_io env) 11 v ''DECISION_RECORDED''
            (JObj [(''objective'', JStr (t_Objective v)), (''current_step'', JStr (st_Description (t_Plan v ! 4))), (''evidence_used'', json_slice (map JStr (t_EvidenceRefs v))),
                   (''selected_tool'', JStr ''file.quarantine''), (''target'', json_target target), (''fresh_snapshot_size'', json_int (ts_Size snapshot)),
                   (''rollback_strategy'', JStr restore_strategy)])
            (\<lambda>_. prepare_write flow env v (followup_proposal env v 4 ''file.quarantine'' [] target True restore_strategy) snapshot)) (fst s, x))"

definition finish_disk :: "workflow_env \<Rightarrow> Task \<Rightarrow> int \<Rightarrow> string \<Rightarrow> string \<Rightarrow> json \<Rightarrow> agent \<times> 'x \<Rightarrow> (unit, 'x) agent_result" where
  "finish_disk env v bytes quarantineID quarantinePath disk s =
     appending (we_io env) 12 v ''VERIFICATION''
       (JObj [(''verified'', JBool True), (''writer_absent'', JBool True), (''active_lab_path_absent'', JBool True), (''active_lab_bytes_relocated'', json_int bytes),
              (''quarantine_id'', JStr quarantineID), (''quarantine_path'', JStr quarantinePath), (''physical_filesystem_space_reclaimed'', JBool False), (''fresh_disk_observation'', disk)])
       (\<lambda>ev. let w = v\<lparr>t_EvidenceRefs := t_EvidenceRefs v @ [evidence_ref v ev],
                      t_Findings := t_Findings v @ [hx ''e58699e585a5e8bf9be7a88be5b7b2e5819ce6ada2efbc8c67726f7774682e6c6f6720e79a8420'' @ itoa bytes @ hx ''20e5ad97e88a82e5b7b2e7a7bbe587bae6b4bbe58aa8204c616220e8b7afe5be84e5b9b6e4bf9de79599e58fafe681a2e5a48de99a94e7a6bbe6b885e58d95efbc9be69caae5a3b0e7a7b0e9878ae694bee789a9e79086e69687e4bbb6e7b3bbe7bb9fe7a9bae997b4'']\<rparr>;
                answer = hx ''e5b7b2e7a1aee8aea4e58f97e68ea7e697a5e5bf97e58699e585a5e8bf9be7a88be4b88e20'' @ demoGrowthPath @ hx ''20e79a84e5bc82e5b8b8e5a29ee995bfe79bb8e585b3e38082e8bf9be7a88be7bb8f204c3220e5aea1e689b9e5928ce59bbae5ae9a205349475445524d20e5819ce6ada2efbc8ce69687e4bbb6e7bb8fe78bace7ab8b204c3120e5aea1e689b9e99a94e7a6bbefbc9be6b4bbe58aa8204c616220e8b7afe5be84e5b7b2e5878fe5b09120'' @ itoa bytes
                  @ hx ''20e5ad97e88a82efbc8ce5b9b6e5b7b2e9aa8ce8af81e58699e585a5e8bf9be7a88be5928ce58e9fe8b7afe5be84e59d87e4b88de5ad98e59ca8e38082e99a94e7a6bbe5afb9e8b1a1e4bb8de58da0e794a8e5908ce4b880e69687e4bbb6e7b3bbe7bb9fe7a9bae997b4efbc8ce4bba5e4bf9de79599e58fafe681a2e5a48de680a7efbc9be7b3bbe7bb9fe6b2a1e69c89e4bcaae7a7b0e789a9e79086e7a9bae997b4e5b7b2e7bb8fe9878ae694bee38082''
            in complete_workflow env w answer (hx ''e58f97e68ea7e697a5e5bf97e5a29ee995bfe5b7b2e5ae8ce68890e8af81e68daee585b3e88194e38081e98090e58aa8e4bd9ce5aea1e689b9e5928ce58fafe681a2e5a48de99a94e7a6bbe9aa8ce8af81'') (Some [demoGrowthPath])
                 (JObj [(''completion_criteria_met'', JBool True), (''writer_absent'', JBool True), (''active_lab_path_absent'', JBool True), (''rollback_available'', JBool True),
                        (''physical_space_claimed'', JBool False)])) s"

definition check_disk :: "workflow_env \<Rightarrow> Task \<Rightarrow> Result \<Rightarrow> ProcessInfo list \<Rightarrow> Metadata list \<Rightarrow> json \<Rightarrow> agent \<times> 'x \<Rightarrow> (unit, 'x) agent_result" where
  "check_disk env v result processes large disk s =
     (if list_ex (\<lambda>p. po_Executable p = demoLogWriterExecutable) processes then ((v, Inl (ErrorNew ''controlled log writer is still running'')), s)
      else if list_ex (\<lambda>m. md_Path m = demoGrowthPath) large then ((v, Inl (ErrorNew ''growth.log is still present in the active Lab root'')), s)
      else
        let bytes = (case map_of (t_WorkflowData v) ''growth_size_bytes'' of None \<Rightarrow> None | Some raw \<Rightarrow> ParseInt raw);
            evidence = (\<lambda>k. case res_Verification result of None \<Rightarrow> [] | Some vf \<Rightarrow> (case map_of (vf_Evidence vf) k of None \<Rightarrow> [] | Some x \<Rightarrow> x))
        in (case bytes of
              None \<Rightarrow> ((v, Inl (ErrorNew ''durable growth.log size evidence is missing'')), s)
            | Some n \<Rightarrow>
              if n \<le> 0 then ((v, Inl (ErrorNew ''durable growth.log size evidence is missing'')), s)
              else if evidence ''quarantine_id'' = [] \<or> evidence ''quarantined_path'' = [] then ((v, Inl (ErrorNew ''verified quarantine manifest evidence is missing'')), s)
              else finish_disk env v n (evidence ''quarantine_id'') (evidence ''quarantined_path'') disk s))"

definition verifyDiskRecovery :: "'x Workflow \<Rightarrow> workflow_env \<Rightarrow> Task \<Rightarrow> Result \<Rightarrow> agent \<times> 'x \<Rightarrow> (unit, 'x) agent_result" where
  "verifyDiskRecovery flow env v result s =
     (let v = Transition Verifying (pe_clock (we_io env) 0) v in
      saving (we_io env) 1 v (reading flow env v 5 read_writer (\<lambda>v process. reading flow env v 6 read_large (\<lambda>v large.
        reading flow env v 7 (''system'', ''system.get_disk_usage'', [(''path'', JStr demoLabRoot)]) (\<lambda>v disk.
          decoding v (decode_processes (wf_Decoders flow) process) (\<lambda>processes.
            decoding v (decode_files (wf_Decoders flow) large) (\<lambda>files. check_disk env v result processes files disk)))))) s)"

subsection \<open>Continuing after an action\<close>

text \<open>\<open>ContinueAfterAction\<close> of \<open>port_workflow.go\<close>. The boolean tells whether the workflow has handled the action.\<close>

definition handled :: "(unit, 'x) agent_result \<Rightarrow> (bool, 'x) agent_result" where
  "handled r = (case r of ((v, x), s) \<Rightarrow> ((v, map_sum id (\<lambda>_. True) x), s))"

definition ContinueAfterAction :: "'x Workflow \<Rightarrow> workflow_env \<Rightarrow> Task \<Rightarrow> ActionEnvelope \<Rightarrow> Result \<Rightarrow> agent \<times> 'x \<Rightarrow> (bool, 'x) agent_result" where
  "ContinueAfterAction flow env v e result s =
     (let tool = ap_Tool (ae_Proposal e) in
      if t_IntentType v = ''port_conflict_recovery'' then
        (if tool = ''process.terminate'' then handled (preparePortServiceRestart flow env v s)
         else if tool = ''service.restart'' then handled (verifyPortRecovery flow env v s)
         else ((v, Inl (ErrorNew (''unexpected port workflow action '' @ tool))), s))
      else if t_IntentType v = ''cpu_hog_recovery'' then
        (if tool \<noteq> ''process.terminate'' then ((v, Inl (ErrorNew (''unexpected CPU workflow action '' @ tool))), s)
         else handled (verifyCPURecovery flow env v s))
      else if t_IntentType v = ''disk_log_recovery'' then
        (if tool = ''process.terminate'' then handled (prepareDiskQuarantine flow env v s)
         else if tool = ''file.quarantine'' then handled (verifyDiskRecovery flow env v result s)
         else ((v, Inl (ErrorNew (''unexpected disk workflow action '' @ tool))), s))
      else ((v, Inr False), s))"

end
