(* ===== verification/Recovery_Safety.thy ===== *)
theory Recovery_Safety
  imports Disk_Recovery
begin

text \<open>
  What the three recovery workflows can do. Every tool call is one of the fixed reads and was allowed by the safety pipeline; a run that succeeds waits for the approval of one termination that its evidence
  justifies; a continuation that succeeds waits for the second action or has checked that the recovery worked.
\<close>

subsection \<open>One read step\<close>

definition read_allowed :: "'x Workflow \<Rightarrow> read \<Rightarrow> bool" where
  "read_allowed flow r \<longleftrightarrow> (case r of (server, tool, arguments) \<Rightarrow>
     \<exists>p. ap_Tool p = tool \<and> ap_Effect p = Read \<and> ap_Arguments p = Some arguments \<and> gd_Outcome (pr_Final (wf_Evaluate flow p)) = Allow \<and> rr_Level (pr_Risk (wf_Evaluate flow p)) = L0)"

text \<open>A tool server has answered the read with this structured content.\<close>

definition reported :: "'x Workflow \<Rightarrow> read \<Rightarrow> json \<Rightarrow> bool" where
  "reported flow r j \<longleftrightarrow> (case r of (server, tool, arguments) \<Rightarrow>
     \<exists>x y result. wf_CallTool flow server tool arguments x = (Inr result, y) \<and> \<not> cr_IsError result \<and> cr_StructuredContent result = Some j)"

text \<open>What a read leaves of the task.\<close>

definition same_flow :: "Task \<Rightarrow> Task \<Rightarrow> bool" where
  "same_flow v w \<longleftrightarrow> map st_ID (t_Plan w) = map st_ID (t_Plan v) \<and> t_IntentType w = t_IntentType v \<and> t_WorkflowData w = t_WorkflowData v"

lemma same_flow_refl [simp]: "same_flow v v"
  by (simp add: same_flow_def)

lemma same_flow_trans: "same_flow u v \<Longrightarrow> same_flow v w \<Longrightarrow> same_flow u w"
  by (simp add: same_flow_def)

lemma step_ids_update [simp]: "map st_ID (xs[i := (xs ! i)\<lparr>st_State := st\<rparr>]) = map st_ID xs"
  by (cases "i < length xs") (simp_all add: map_update list_update_same_conv list_update_beyond)

lemma set_step_same [simp]: "map st_ID (t_Plan (set_step i st v)) = map st_ID (t_Plan v)" "t_IntentType (set_step i st v) = t_IntentType v"
  "t_WorkflowData (set_step i st v) = t_WorkflowData v"
  by (simp_all add: set_step_def)

lemma completed_step_same [simp]: "map st_ID (t_Plan (completed_step i v)) = map st_ID (t_Plan v)" "t_IntentType (completed_step i v) = t_IntentType v"
  "t_WorkflowData (completed_step i v) = t_WorkflowData v"
  by (simp_all add: completed_step_def Let_def)

lemma Transition_same [simp]: "t_IntentType (Transition st now v) = t_IntentType v" "t_WorkflowData (Transition st now v) = t_WorkflowData v"
  by (simp_all add: Transition_def)

text \<open>Not called at all, or allowed and called; a success is an answer of the tool.\<close>

definition read_done :: "'x Workflow \<Rightarrow> read \<Rightarrow> Task \<Rightarrow> 'x \<Rightarrow> (json, 'x) agent_result \<Rightarrow> bool" where
  "read_done flow r v x res \<longleftrightarrow> (case r of (server, tool, arguments) \<Rightarrow>
     (snd (snd res) = x \<and> \<not> is_ok (snd (fst res)) \<or> read_allowed flow r \<and> snd (snd res) = snd (wf_CallTool flow server tool arguments x))
     \<and> (case snd (fst res) of Inl _ \<Rightarrow> True | Inr j \<Rightarrow> same_flow v (fst (fst res)) \<and> reported flow r j))"

lemma callWorkflowReadStep_done:
  fixes s :: "agent \<times> 'x"
  shows "read_done flow (server, tool, arguments) v (snd s) (callWorkflowReadStep flow env n v i server tool arguments s)"
proof -
  let ?r = "(server, tool, arguments)"
  define Q where "Q = read_done flow ?r v (snd s)"
  have fail: "Q ((z, Inl err), g, snd s)" for z err g by (simp add: Q_def read_done_def)
  have keep: "Q (keep_read env n i u server tool structured (g, y))"
    if c: "wf_CallTool flow server tool arguments (snd s) = (Inr result, y)" "\<not> cr_IsError result" "cr_StructuredContent result = Some structured"
      and a: "read_allowed flow ?r" and u: "same_flow v u" for u structured g y result
  proof -
    have "reported flow ?r structured" using c by (auto simp: reported_def)
    with c a u have "Q ((w, Inl err), g', y)" "same_flow v w \<Longrightarrow> Q ((w, Inr structured), g', y)" for w err g' by (simp_all add: Q_def read_done_def)
    with u show ?thesis unfolding keep_read_def Let_def
      by (intro appending_post [where Q = Q] saving_post [where Q = Q]) (simp_all add: same_flow_def)
  qed
  have call: "Q (call_read flow env n i u server tool arguments (g, snd s))" if a: "read_allowed flow ?r" and u: "same_flow v u" for u g
  proof -
    have err: "Q ((z, Inl err), g', y)" if "wf_CallTool flow server tool arguments (snd s) = (res, y)" for z err g' res y
      using that a by (simp add: Q_def read_done_def)
    show ?thesis unfolding call_read_def
      by (rule appending_post [where Q = Q]) (auto simp: fail intro: err keep [OF _ _ _ a u] split: prod.split sum.split option.split)
  qed
  have allowed: "read_allowed flow ?r" if "gd_Outcome (pr_Final (wf_Evaluate flow (read_proposal env n u d tool arguments))) = Allow"
    "rr_Level (pr_Risk (wf_Evaluate flow (read_proposal env n u d tool arguments))) = L0" for u d
    unfolding read_allowed_def prod.case by (rule exI [of _ "read_proposal env n u d tool arguments"]) (use that in \<open>simp add: read_proposal_def\<close>)
  have "Q (callWorkflowReadStep flow env n v i server tool arguments s)"
  proof (cases "length (t_Plan v) \<le> i")
    case False
    then show ?thesis unfolding callWorkflowReadStep_def Let_def if_not_P [OF False]
      by (intro saving_post [where Q = Q])
         (auto simp: fail same_flow_def split: sum.split intro!: appending_post [where Q = Q] call allowed)
  qed (use fail [of v _ "fst s"] in \<open>simp add: callWorkflowReadStep_def\<close>)
  then show ?thesis by (simp add: Q_def)
qed

subsection \<open>The reads of a run\<close>

lemma call_reads_ok:
  assumes "call_reads flow env i rs v s = ((w, Inr outs), t)"
  shows "same_flow v w \<and> list_all2 (reported flow) rs outs"
  using assms
proof (induction rs arbitrary: i v s outs)
  case (Cons r rs)
  obtain server tool arguments where r: "r = (server, tool, arguments)" by (cases r)
  with Cons.prems obtain u out s' outs' where step: "callWorkflowReadStep flow env (20 * (i + 1)) v i server tool arguments s = ((u, Inr out), s')"
    and rest: "call_reads flow env (Suc i) rs u s' = ((w, Inr outs'), t)" and outs: "outs = out # outs'"
    by (auto split: prod.splits sum.splits)
  from callWorkflowReadStep_done [where s = s, of flow server tool arguments v env "20 * (i + 1)" i] step
  have "same_flow v u" "reported flow r out" by (simp_all add: read_done_def r)
  with Cons.IH [OF rest] outs show ?case by (auto intro: same_flow_trans)
qed simp

definition logged_flow :: "'x Workflow \<Rightarrow> ('x \<times> read list) Workflow" where
  "logged_flow flow =
     \<lparr>wf_CallTool = (\<lambda>server tool args s. case wf_CallTool flow server tool args (fst s) of (r, x) \<Rightarrow> (r, x, snd s @ [(server, tool, args)])),
      wf_Evaluate = wf_Evaluate flow, wf_Actions = wf_Actions flow,
      wf_ActionTargets = \<lparr>mt_SnapshotProcess = (\<lambda>i pid. silent (mt_SnapshotProcess (wf_ActionTargets flow) i pid)),
        mt_SnapshotService = (\<lambda>i name. silent (mt_SnapshotService (wf_ActionTargets flow) i name))\<rparr>,
      wf_FileTargets = \<lparr>ft_SnapshotFile = (\<lambda>i p. silent (ft_SnapshotFile (wf_FileTargets flow) i p)),
        ft_SnapshotNewFile = (\<lambda>i p. silent (ft_SnapshotNewFile (wf_FileTargets flow) i p))\<rparr>,
      wf_Health = (\<lambda>url. silent (wf_Health flow url)), wf_Decoders = wf_Decoders flow\<rparr>"

lemma logged_flow_simps: "wf_Evaluate (logged_flow flow) = wf_Evaluate flow" "snd (snd (wf_CallTool (logged_flow flow) server tool args s)) = snd s @ [(server, tool, args)]"
  by (simp_all add: logged_flow_def split: prod.split)

lemma read_allowed_logged [simp]: "read_allowed (logged_flow flow) r = read_allowed flow r"
  unfolding read_allowed_def logged_flow_simps by (rule refl)

lemma logged_read:
  fixes s :: "agent \<times> 'x \<times> read list"
  assumes "callWorkflowReadStep (logged_flow flow) env n v i server tool arguments s = ((w, r), t)"
  shows "snd (snd t) = snd (snd s) \<and> \<not> is_ok r \<or> read_allowed flow (server, tool, arguments) \<and> snd (snd t) = snd (snd s) @ [(server, tool, arguments)]"
  using callWorkflowReadStep_done [where s = s, of "logged_flow flow" server tool arguments v env n i] assms
  by (auto simp: read_done_def logged_flow_simps)

text \<open>The calls made so far, and then a beginning of the given reads, each of them allowed.\<close>

definition reads_begun :: "'x Workflow \<Rightarrow> read list \<Rightarrow> read list \<Rightarrow> read list \<Rightarrow> bool" where
  "reads_begun flow rs l l' \<longleftrightarrow> (\<exists>made. l' = l @ made \<and> prefix made rs \<and> list_all (read_allowed flow) made)"

lemma reads_begun_none: "reads_begun flow rs l l"
  by (simp add: reads_begun_def)

lemma reads_begun_Cons: "read_allowed flow r \<Longrightarrow> reads_begun flow rs (l @ [r]) l' \<Longrightarrow> reads_begun flow (r # rs) l l'"
  by (auto simp: reads_begun_def intro: exI [of _ "r # _"])

lemma call_reads_logged:
  fixes s :: "agent \<times> 'x \<times> read list"
  assumes "call_reads (logged_flow flow) env i rs v s = ((w, r), t)"
  shows "reads_begun flow rs (snd (snd s)) (snd (snd t))"
  using assms
proof (induction rs arbitrary: i v s w r t)
  case Nil
  then show ?case by (auto simp: reads_begun_none)
next
  case (Cons c rs)
  obtain server tool arguments where c: "c = (server, tool, arguments)" by (cases c)
  obtain u x s' where step: "callWorkflowReadStep (logged_flow flow) env (20 * (i + 1)) v i server tool arguments s = ((u, x), s')" by (metis prod.collapse)
  show ?case
  proof (cases x)
    case (Inl err)
    with Cons.prems step c have "t = s'" by simp
    then show ?thesis using logged_read [OF step] by (auto simp: c reads_begun_none intro: reads_begun_Cons)
  next
    case (Inr out)
    obtain z y t' where rest: "call_reads (logged_flow flow) env (Suc i) rs u s' = ((z, y), t')" by (metis prod.collapse)
    with Cons.prems step c Inr have "t = t'" by (cases y) simp_all
    with Cons.IH [OF rest] logged_read [OF step] Inr show ?thesis by (auto simp: c intro: reads_begun_Cons)
  qed
qed

text \<open>What follows the reads makes no call.\<close>

definition quiet :: "'l \<Rightarrow> ('a, 'x \<times> 'l) agent_result \<Rightarrow> bool" where "quiet l r \<longleftrightarrow> snd (snd (snd r)) = l"

lemma quiet_decoding: "(\<And>b. r = Inr b \<Longrightarrow> quiet l (k b s)) \<Longrightarrow> snd (snd s) = l \<Longrightarrow> quiet l (decoding v r k s)"
  by (auto simp: decoding_def quiet_def split: sum.split)

lemma quiet_prepare_write: "snd (snd s) = l \<Longrightarrow> quiet l (prepare_write flow env v p snapshot s)"
  by (auto simp: prepare_write_def quiet_def split: prod.split)

lemma quiet_appending: "snd (snd s) = l \<Longrightarrow> (\<And>e g. quiet l (k e (g, snd s))) \<Longrightarrow> quiet l (appending env n v typ data k s)"
  by (rule appending_post [where Q = "quiet l"]) (simp_all add: quiet_def)

lemma quiet_saving: "snd (snd s) = l \<Longrightarrow> (\<And>g. quiet l (k (g, snd s))) \<Longrightarrow> quiet l (saving env n v k s)"
  by (rule saving_post [where Q = "quiet l"]) (simp_all add: quiet_def)

lemmas quiet_rules = quiet_decoding quiet_prepare_write quiet_appending quiet_saving

lemma quiet_propose: "snd (snd s) = l \<Longrightarrow> quiet l (propose_termination (logged_flow flow) env v k owner exe changed related relation h expected s)"
  using silent_log [of "mt_SnapshotProcess (wf_ActionTargets flow) (process_target_id owner) (po_PID owner)" "snd s"]
  by (auto simp: propose_termination_def Let_def logged_flow_def quiet_def [of _ "((_, Inl _), _)"] split: prod.split sum.split intro!: quiet_rules)

lemma quiet_investigate:
  assumes "snd (snd s) = l"
  shows "quiet l (investigate_port (logged_flow flow) env v outs s)" "quiet l (investigate_cpu (logged_flow flow) env v outs s)" "quiet l (investigate_disk (logged_flow flow) env v outs s)"
  using assms
  by (auto simp: investigate_port_def justify_port_termination_def retrieved_def investigate_cpu_def investigate_disk_def Let_def quiet_def [of _ "((_, Inl _), _)"]
    intro!: quiet_rules quiet_propose split: prod.split)

subsection \<open>An action that waits\<close>

definition awaits :: "'x Workflow \<Rightarrow> (ActionEnvelope \<Rightarrow> bool) \<Rightarrow> Task \<Rightarrow> bool" where
  "awaits flow P w \<longleftrightarrow> t_State w = WaitingApproval \<and> (\<exists>e. t_PendingAction w = MarshalEnvelope e \<and> VerifySignature (pp_Secret (wf_Actions flow)) e = Inr () \<and> P e)"

text \<open>The termination of the process \<open>owner\<close> of the evidence, bound to a snapshot of the same process and of the controlled executable.\<close>

definition terminates :: "string \<Rightarrow> ProcessInfo \<Rightarrow> ActionEnvelope \<Rightarrow> bool" where
  "terminates executable owner e \<longleftrightarrow> ap_Tool (ae_Proposal e) = ''process.terminate'' \<and> ap_Arguments (ae_Proposal e) = Some [(''pid'', json_int (po_PID owner))]
     \<and> po_Executable owner = executable \<and> ts_Executable (ae_TargetSnapshot e) = executable \<and> ts_StartTicks (ae_TargetSnapshot e) = po_StartTicks owner"

lemma Prepare_same_flow:
  assumes "Prepare pp env v p s g = ((w, x), g')"
  shows "same_flow v w"
proof -
  have P: "same_flow v w" if "park_action pp env v e b r risk g1 = ((w, x), g')" for e b r risk g1
    using that by (auto simp: park_action_def Let_def same_flow_def waiting_task_def Transition_def split: prod.splits sum.splits)
  have R: "same_flow v w" if "request_approval pp env v p dg s safety g1 = ((w, x), g')" for dg safety g1
    using that unfolding request_approval_def by (auto simp: Let_def split: sum.splits prod.splits dest!: P)
  show ?thesis using assms unfolding Prepare_def by (auto simp: Let_def split: if_splits option.splits sum.splits prod.splits dest!: R)
qed

text \<open>Success means that the task is waiting, with the same plan.\<close>

definition waits_for :: "'x Workflow \<Rightarrow> (ActionEnvelope \<Rightarrow> bool) \<Rightarrow> Task \<Rightarrow> (unit, 'x) agent_result \<Rightarrow> bool" where
  "waits_for flow P v r \<longleftrightarrow> (case snd (fst r) of Inl _ \<Rightarrow> True | Inr _ \<Rightarrow> awaits flow P (fst (fst r)) \<and> same_flow v (fst (fst r)))"

lemma waits_for_error: "waits_for flow P v ((w, Inl err), s)"
  by (simp add: waits_for_def)

lemma waits_for_appending: "(\<And>e s. waits_for flow P u (k e s)) \<Longrightarrow> waits_for flow P u (appending env n v typ data k s)"
  by (rule appending_post [where Q = "waits_for flow P u"]) (simp_all add: waits_for_error)

lemma waits_for_saving: "(\<And>s. waits_for flow P u (k s)) \<Longrightarrow> waits_for flow P u (saving env n v k s)"
  by (rule saving_post [where Q = "waits_for flow P u"]) (simp_all add: waits_for_error)

lemmas waits_for_rules = waits_for_error waits_for_appending waits_for_saving

lemma prepare_write_waits:
  assumes "same_flow u v" "\<And>e. ae_Proposal e = p \<Longrightarrow> ae_TargetSnapshot e = snapshot \<Longrightarrow> P e"
  shows "waits_for flow P u (prepare_write flow env v p snapshot s)"
proof -
  obtain w x g where "Prepare (wf_Actions flow) (we_prepare env) v p snapshot (fst s) = ((w, x), g)" by (metis prod.collapse)
  with Prepare_task [OF this] Prepare_same_flow [OF this] assms show ?thesis
    by (cases x) (auto simp: prepare_write_def waits_for_def awaits_def intro: same_flow_trans)
qed

lemma propose_termination_waits:
  assumes "po_Executable owner = executable"
  shows "waits_for flow (terminates executable owner) v (propose_termination flow env v k owner executable changed related relation h expected s)"
proof -
  have "waits_for flow (terminates executable owner) v (prepare_write flow env u (terminate_proposal env u k owner target related relation) snapshot s1)"
    if "same_flow v u" "ts_StartTicks snapshot = po_StartTicks owner" "ts_Executable snapshot = executable" for u target snapshot s1
    by (rule prepare_write_waits) (use that assms in \<open>auto simp: terminates_def terminate_proposal_def\<close>)
  then show ?thesis unfolding propose_termination_def Let_def
    by (auto simp: same_flow_def intro!: waits_for_rules split: prod.split sum.split)
qed

subsection \<open>What justifies a termination\<close>

text \<open>The only process of the decoded list with the controlled executable.\<close>

definition only_process :: "string \<Rightarrow> ProcessInfo list result \<Rightarrow> ProcessInfo \<Rightarrow> bool" where
  "only_process executable ps p \<longleftrightarrow> (case ps of Inl _ \<Rightarrow> False | Inr qs \<Rightarrow> filter (\<lambda>q. po_Executable q = executable) qs = [p])"

definition port_justified :: "decoders \<Rightarrow> json list \<Rightarrow> ProcessInfo \<Rightarrow> bool" where
  "port_justified dc outs owner \<longleftrightarrow> (case decode_status dc (outs ! 0) of Inl _ \<Rightarrow> False | Inr st \<Rightarrow> st \<noteq> ''active'') \<and> decode_occupied dc (outs ! 2) = Inr True
     \<and> only_process demoHolderExecutable (decode_processes dc (outs ! 3)) owner
     \<and> (case decode_diagnosis dc (outs ! 4) of Inl _ \<Rightarrow> False | Inr (rca, _) \<Rightarrow> as_str (sub rca ''diagnosis_level'') = ''D1'' \<and> as_str (sub rca ''root_cause'') \<noteq> [])"

definition cpu_justified :: "decoders \<Rightarrow> json list \<Rightarrow> ProcessInfo \<Rightarrow> bool" where
  "cpu_justified dc outs owner \<longleftrightarrow> (case decode_usage dc (outs ! 0) of Inl _ \<Rightarrow> False | Inr u \<Rightarrow> float_less (0, 0) (float_of dc u))
     \<and> only_process demoCPUExecutable (decode_processes dc (outs ! 1)) owner"

definition disk_justified :: "decoders \<Rightarrow> json list \<Rightarrow> ProcessInfo \<Rightarrow> bool" where
  "disk_justified dc outs owner \<longleftrightarrow> (case decode_files dc (outs ! 1) of Inl _ \<Rightarrow> False | Inr fs \<Rightarrow> list_ex (\<lambda>m. md_Path m = demoGrowthPath \<and> md_IsRegular m) fs)
     \<and> only_process demoLogWriterExecutable (decode_processes dc (outs ! 2)) owner \<and> Contains (po_Command owner) demoGrowthPath"

lemma only_process_executable: "only_process executable ps p \<Longrightarrow> po_Executable p = executable"
  by (auto simp: only_process_def filter_eq_Cons_iff split: sum.splits)

lemma uniqueControlledProcess_only: "uniqueControlledProcess qs executable = Inr p \<Longrightarrow> only_process executable (Inr qs) p"
  by (auto simp: uniqueControlledProcess_def only_process_def split: list.splits)

lemma uniqueDemoHolder_only: "uniqueDemoHolder qs = Inr p \<Longrightarrow> only_process demoHolderExecutable (Inr qs) p"
  by (auto simp: uniqueDemoHolder_def only_process_def split: list.splits)

text \<open>A run that succeeds has evidence from the fixed reads, which justifies the termination it waits for.\<close>

definition justified_wait :: "'x Workflow \<Rightarrow> read list \<Rightarrow> (decoders \<Rightarrow> json list \<Rightarrow> ProcessInfo \<Rightarrow> bool) \<Rightarrow> string \<Rightarrow> Task \<Rightarrow> bool" where
  "justified_wait flow rs J executable w \<longleftrightarrow> (\<exists>outs owner. list_all2 (reported flow) rs outs \<and> J (wf_Decoders flow) outs owner \<and> awaits flow (terminates executable owner) w)"

lemma justified_waitI: "list_all2 (reported flow) rs outs \<Longrightarrow> J (wf_Decoders flow) outs owner \<Longrightarrow> awaits flow (terminates executable owner) w \<Longrightarrow> justified_wait flow rs J executable w"
  unfolding justified_wait_def by blast

lemma wrapped_Inr: "wrapped t r = Inr x \<longleftrightarrow> r = Inr x"
  by (cases r) (simp_all add: wrapped_def)

lemma decoding_Inr: "decoding v r k s = ((w, Inr x), t) \<longleftrightarrow> (\<exists>b. r = Inr b \<and> k b s = ((w, Inr x), t))"
  by (auto simp: decoding_def split: sum.split)

lemma appending_Inr: "appending env n v typ data k s = ((w, Inr x), t) \<Longrightarrow> \<exists>e g. k e (g, snd s) = ((w, Inr x), t)"
  by (auto simp: appending_def split: prod.splits sum.splits)

lemma saving_Inr: "saving env n v k s = ((w, Inr x), t) \<Longrightarrow> \<exists>g. k (g, snd s) = ((w, Inr x), t)"
  by (auto simp: saving_def split: prod.splits sum.splits)

lemma propose_termination_ok:
  assumes "propose_termination flow env v k owner executable changed related relation h expected s = ((w, Inr x), t)" "only_process executable ps owner"
  shows "awaits flow (terminates executable owner) w \<and> same_flow v w"
  using propose_termination_waits [OF only_process_executable [OF assms(2)], of flow v env k changed related relation h expected s] assms(1) by (simp add: waits_for_def)

lemma investigate_port_ok:
  assumes "investigate_port flow env v outs s = ((w, Inr x), t)"
  shows "\<exists>owner. port_justified (wf_Decoders flow) outs owner \<and> awaits flow (terminates demoHolderExecutable owner) w \<and> same_flow v w"
proof -
  from assms obtain st occ qs rca kn s1 where d: "decode_status (wf_Decoders flow) (outs ! 0) = Inr st" "decode_occupied (wf_Decoders flow) (outs ! 2) = Inr occ"
      "decode_processes (wf_Decoders flow) (outs ! 3) = Inr qs" "decode_diagnosis (wf_Decoders flow) (outs ! 4) = Inr (rca, kn)"
    and j: "justify_port_termination flow env v st occ qs rca s1 = ((w, Inr x), t)"
    by (auto simp: investigate_port_def decoding_Inr wrapped_Inr retrieved_def split: if_splits prod.splits dest!: appending_Inr)
  from j show ?thesis
    by (auto simp: justify_port_termination_def decoding_Inr port_justified_def d split: if_splits dest!: uniqueDemoHolder_only dest: propose_termination_ok)
qed

text \<open>The workflows on the CPU and the disk keep a number for the check after the action.\<close>

definition same_plan :: "string \<Rightarrow> Task \<Rightarrow> Task \<Rightarrow> bool" where
  "same_plan key v w \<longleftrightarrow> map st_ID (t_Plan w) = map st_ID (t_Plan v) \<and> t_IntentType w = t_IntentType v \<and> map_of (t_WorkflowData w) key \<noteq> None"

lemma same_flow_plan: "same_flow (v\<lparr>t_WorkflowData := AList.update key x d\<rparr>) w \<Longrightarrow> same_plan key v w"
  "same_flow (v\<lparr>t_WorkflowData := AList.update key x d, t_SelectedResources := rs\<rparr>) w \<Longrightarrow> same_plan key v w"
  by (auto simp: same_flow_def same_plan_def update_conv)

lemma propose_keeping:
  "propose_termination flow env (v\<lparr>t_WorkflowData := AList.update key y d\<rparr>) k owner executable changed related relation h expected s = ((w, Inr x), t)
     \<Longrightarrow> only_process executable ps owner \<Longrightarrow> awaits flow (terminates executable owner) w \<and> same_plan key v w"
  "propose_termination flow env (v\<lparr>t_WorkflowData := AList.update key y d, t_SelectedResources := rs\<rparr>) k owner executable changed related relation h expected s = ((w, Inr x), t)
     \<Longrightarrow> only_process executable ps owner \<Longrightarrow> awaits flow (terminates executable owner) w \<and> same_plan key v w"
  using propose_termination_ok same_flow_plan by metis+

lemma investigate_cpu_ok:
  assumes "investigate_cpu flow env v outs s = ((w, Inr x), t)"
  shows "\<exists>owner. cpu_justified (wf_Decoders flow) outs owner \<and> awaits flow (terminates demoCPUExecutable owner) w \<and> same_plan ''cpu_baseline_percent'' v w"
  using assms
  by (auto simp: investigate_cpu_def decoding_Inr cpu_justified_def Let_def split: if_splits dest!: appending_Inr uniqueControlledProcess_only)
    (blast dest: propose_keeping)

lemma investigate_disk_ok:
  assumes "investigate_disk flow env v outs s = ((w, Inr x), t)"
  shows "\<exists>owner. disk_justified (wf_Decoders flow) outs owner \<and> awaits flow (terminates demoLogWriterExecutable owner) w \<and> same_plan ''growth_size_bytes'' v w"
proof -
  have "list_ex (\<lambda>m. md_Path m = demoGrowthPath \<and> md_IsRegular m) fs" if "exactGrowthFile fs = Inr m" for fs m
    using that by (auto simp: exactGrowthFile_def find_Some_iff list_ex_length split: option.splits)
  with assms show ?thesis
    by (auto simp: investigate_disk_def decoding_Inr disk_justified_def Let_def split: if_splits dest!: appending_Inr uniqueControlledProcess_only
      dest: propose_keeping)
qed

subsection \<open>The three runs\<close>

definition run_start :: "string \<Rightarrow> Step list \<Rightarrow> Task \<Rightarrow> bool" where
  "run_start intent plan w \<longleftrightarrow> t_IntentType w = intent \<and> map st_ID (t_Plan w) = map st_ID plan"

text \<open>Whatever the tool servers answer, a recovery run calls only the fixed reads of its workflow, in their order and each at most once, and only those that the safety pipeline allowed as reads
  of level L0.\<close>

theorem recovery_calls_fixed:
  "(case runPortRecovery (Inr (logged_flow flow)) env v (g, x, []) of (_, _, _, made) \<Rightarrow> prefix made port_reads \<and> list_all (read_allowed flow) made)
   \<and> (case runCPURecovery (Inr (logged_flow flow)) env v (g, x, []) of (_, _, _, made) \<Rightarrow> prefix made cpu_reads \<and> list_all (read_allowed flow) made)
   \<and> (case runDiskRecovery (Inr (logged_flow flow)) env v (g, x, []) of (_, _, _, made) \<Rightarrow> prefix made disk_reads \<and> list_all (read_allowed flow) made)"
proof -
  define Q :: "read list \<Rightarrow> (unit, 'a \<times> read list) agent_result \<Rightarrow> bool" where "Q rs r \<longleftrightarrow> reads_begun flow rs [] (snd (snd (snd r)))" for rs r
  have start: "Q rs ((z, Inl err), g1, x, [])" for rs z err g1 by (simp add: Q_def reads_begun_none)
  have reads: "Q rs (case call_reads (logged_flow flow) env 0 rs u (g1, x, []) of ((w, Inl err), s) \<Rightarrow> ((w, Inl err), s) | ((w, Inr outs), s) \<Rightarrow> k w outs s)"
    if quiet: "\<And>w outs s. quiet (snd (snd s)) (k w outs s)" for rs u g1 k
    using call_reads_logged [of flow env 0 rs u "(g1, x, [])"] quiet by (auto simp: Q_def quiet_def split: prod.split sum.split)
  have "Q port_reads (runPortRecovery (Inr (logged_flow flow)) env v (g, x, []))" unfolding runPortRecovery_def sum.case Let_def
    by (intro saving_post [where Q = "Q port_reads"] appending_post [where Q = "Q port_reads"]) (simp_all add: start reads quiet_investigate)
  moreover have "Q cpu_reads (runCPURecovery (Inr (logged_flow flow)) env v (g, x, []))" unfolding runCPURecovery_def sum.case Let_def
    by (intro saving_post [where Q = "Q cpu_reads"] appending_post [where Q = "Q cpu_reads"]) (simp_all add: start reads quiet_investigate)
  moreover have "Q disk_reads (runDiskRecovery (Inr (logged_flow flow)) env v (g, x, []))" unfolding runDiskRecovery_def sum.case Let_def
    by (intro saving_post [where Q = "Q disk_reads"] appending_post [where Q = "Q disk_reads"]) (simp_all add: start reads quiet_investigate)
  ultimately show ?thesis by (auto simp: Q_def reads_begun_def split: prod.split)
qed

text \<open>C26: a recovery run that succeeds waits for the approval of one action. It terminates the process that the evidence names: the only one with the controlled executable, with the same
  start time in the signed snapshot. The evidence is what the tool servers answered to the fixed reads, and it is complete: for the port, the service is down, the port is taken and the diagnosis has
  level D1 with a root cause; for the CPU, there is a positive baseline; for the disk, the log is a regular large file that the command line of the writer names.\<close>

theorem recovery_is_justified:
  "(case runPortRecovery (Inr flow) env v s of ((w, Inr _), _) \<Rightarrow>
      justified_wait flow port_reads port_justified demoHolderExecutable w \<and> run_start ''port_conflict_recovery'' port_plan w | _ \<Rightarrow> True)
   \<and> (case runCPURecovery (Inr flow) env v s of ((w, Inr _), _) \<Rightarrow>
      justified_wait flow cpu_reads cpu_justified demoCPUExecutable w \<and> run_start ''cpu_hog_recovery'' cpu_plan w \<and> map_of (t_WorkflowData w) ''cpu_baseline_percent'' \<noteq> None | _ \<Rightarrow> True)
   \<and> (case runDiskRecovery (Inr flow) env v s of ((w, Inr _), _) \<Rightarrow>
      justified_wait flow disk_reads disk_justified demoLogWriterExecutable w \<and> run_start ''disk_log_recovery'' disk_plan w \<and> map_of (t_WorkflowData w) ''growth_size_bytes'' \<noteq> None | _ \<Rightarrow> True)"
proof (intro conjI)
  have port: "justified_wait flow port_reads port_justified demoHolderExecutable w \<and> run_start ''port_conflict_recovery'' port_plan w"
    if "runPortRecovery (Inr flow) env v s = ((w, Inr ()), t)" for w t
    using that by (auto simp: runPortRecovery_def Let_def run_start_def same_flow_def split: prod.splits sum.splits
      dest!: saving_Inr appending_Inr call_reads_ok investigate_port_ok intro: justified_waitI)
  then show "case runPortRecovery (Inr flow) env v s of ((w, Inr _), _) \<Rightarrow>
      justified_wait flow port_reads port_justified demoHolderExecutable w \<and> run_start ''port_conflict_recovery'' port_plan w | _ \<Rightarrow> True"
    by (auto split: prod.split sum.split)
  have cpu: "justified_wait flow cpu_reads cpu_justified demoCPUExecutable w \<and> run_start ''cpu_hog_recovery'' cpu_plan w \<and> map_of (t_WorkflowData w) ''cpu_baseline_percent'' \<noteq> None"
    if "runCPURecovery (Inr flow) env v s = ((w, Inr ()), t)" for w t
    using that by (auto simp: runCPURecovery_def Let_def run_start_def same_flow_def same_plan_def split: prod.splits sum.splits
      dest!: saving_Inr appending_Inr call_reads_ok investigate_cpu_ok intro: justified_waitI)
  then show "case runCPURecovery (Inr flow) env v s of ((w, Inr _), _) \<Rightarrow>
      justified_wait flow cpu_reads cpu_justified demoCPUExecutable w \<and> run_start ''cpu_hog_recovery'' cpu_plan w \<and> map_of (t_WorkflowData w) ''cpu_baseline_percent'' \<noteq> None | _ \<Rightarrow> True"
    by (auto split: prod.split sum.split)
  have disk: "justified_wait flow disk_reads disk_justified demoLogWriterExecutable w \<and> run_start ''disk_log_recovery'' disk_plan w \<and> map_of (t_WorkflowData w) ''growth_size_bytes'' \<noteq> None"
    if "runDiskRecovery (Inr flow) env v s = ((w, Inr ()), t)" for w t
    using that by (auto simp: runDiskRecovery_def Let_def run_start_def same_flow_def same_plan_def split: prod.splits sum.splits
      dest!: saving_Inr appending_Inr call_reads_ok investigate_disk_ok intro: justified_waitI)
  then show "case runDiskRecovery (Inr flow) env v s of ((w, Inr _), _) \<Rightarrow>
      justified_wait flow disk_reads disk_justified demoLogWriterExecutable w \<and> run_start ''disk_log_recovery'' disk_plan w \<and> map_of (t_WorkflowData w) ''growth_size_bytes'' \<noteq> None | _ \<Rightarrow> True"
    by (auto split: prod.split sum.split)
qed

subsection \<open>The continuation\<close>

definition restarts_demo :: "ActionEnvelope \<Rightarrow> bool" where
  "restarts_demo e \<longleftrightarrow> ap_Tool (ae_Proposal e) = ''service.restart'' \<and> ap_Arguments (ae_Proposal e) = Some [(''unit'', JStr demoServiceUnit)]
     \<and> ap_Target (ae_Proposal e) = \<lparr>tr_Type = ''service'', tr_ID = ts_ID (ae_TargetSnapshot e), tr_Criticality = []\<rparr>"

definition quarantines_growth :: "ActionEnvelope \<Rightarrow> bool" where
  "quarantines_growth e \<longleftrightarrow> ap_Tool (ae_Proposal e) = ''file.quarantine'' \<and> ap_Reversible (ae_Proposal e) \<and> 0 < ts_Size (ae_TargetSnapshot e)
     \<and> ap_Target (ae_Proposal e) = \<lparr>tr_Type = ''file'', tr_ID = ts_ID (ae_TargetSnapshot e), tr_Criticality = []\<rparr>"

text \<open>What was read again after the last action, and what it shows.\<close>

definition port_recovered :: "'x Workflow \<Rightarrow> bool" where
  "port_recovered flow \<longleftrightarrow> (\<exists>a b x y h. reported flow read_status a \<and> decode_status (wf_Decoders flow) a = Inr ''active''
     \<and> reported flow read_port b \<and> decode_occupied (wf_Decoders flow) b = Inr True \<and> wf_Health flow demoHealthURL x = (Inr h, y))"

definition gone :: "string \<Rightarrow> ProcessInfo list result \<Rightarrow> bool" where
  "gone executable ps \<longleftrightarrow> (case ps of Inl _ \<Rightarrow> False | Inr qs \<Rightarrow> \<not> list_ex (\<lambda>q. po_Executable q = executable) qs)"

definition cpu_recovered :: "'x Workflow \<Rightarrow> Task \<Rightarrow> bool" where
  "cpu_recovered flow v \<longleftrightarrow> (\<exists>a b u raw base. reported flow read_cpu a \<and> decode_usage (wf_Decoders flow) a = Inr u
     \<and> reported flow read_hog b \<and> gone demoCPUExecutable (decode_processes (wf_Decoders flow) b)
     \<and> map_of (t_WorkflowData v) ''cpu_baseline_percent'' = Some raw \<and> dc_float (wf_Decoders flow) raw = Some base
     \<and> float_less (float_add (float_of (wf_Decoders flow) u) (1, - 1)) base)"

definition disk_recovered :: "'x Workflow \<Rightarrow> Result \<Rightarrow> bool" where
  "disk_recovered flow result \<longleftrightarrow> (\<exists>a b files vf q p. reported flow read_writer a \<and> gone demoLogWriterExecutable (decode_processes (wf_Decoders flow) a)
     \<and> reported flow read_large b \<and> decode_files (wf_Decoders flow) b = Inr files \<and> \<not> list_ex (\<lambda>m. md_Path m = demoGrowthPath) files
     \<and> res_Verification result = Some vf \<and> map_of (vf_Evidence vf) ''quarantine_id'' = Some q \<and> q \<noteq> [] \<and> map_of (vf_Evidence vf) ''quarantined_path'' = Some p \<and> p \<noteq> [])"

definition continued :: "'x Workflow \<Rightarrow> Task \<Rightarrow> string \<Rightarrow> Result \<Rightarrow> Task \<Rightarrow> bool" where
  "continued flow v tool result w \<longleftrightarrow>
     (if t_IntentType v = ''port_conflict_recovery'' then (if tool = ''process.terminate'' then awaits flow restarts_demo w else t_State w = Completed \<and> port_recovered flow)
      else if t_IntentType v = ''cpu_hog_recovery'' then t_State w = Completed \<and> cpu_recovered flow v
      else t_IntentType v = ''disk_log_recovery'' \<and> (if tool = ''process.terminate'' then awaits flow quarantines_growth w else t_State w = Completed \<and> disk_recovered flow result))"

lemma reading_Inr:
  assumes "reading flow env v i r k s = ((w, Inr x), t)"
  shows "\<exists>u out s'. reported flow r out \<and> same_flow v u \<and> k u out s' = ((w, Inr x), t)"
proof -
  obtain server tool arguments where r: "r = (server, tool, arguments)" by (cases r)
  with assms obtain u out s' where step: "callWorkflowReadStep flow env (20 * (i + 1)) v i server tool arguments s = ((u, Inr out), s')" and k: "k u out s' = ((w, Inr x), t)"
    by (auto simp: reading_def split: prod.splits sum.splits)
  from callWorkflowReadStep_done [where s = s, of flow server tool arguments v env "20 * (i + 1)" i] step
  have "reported flow r out" "same_flow v u" by (simp_all add: read_done_def r)
  with k show ?thesis by blast
qed

lemma complete_workflow_Inr: "complete_workflow env v answer summary selected criteria s = ((w, Inr x), t) \<Longrightarrow> t_State w = Completed"
  by (auto simp: complete_workflow_def Let_def split: prod.splits sum.splits dest!: saving_Inr appending_Inr)

lemma preparePortServiceRestart_waits: "waits_for flow restarts_demo u (preparePortServiceRestart flow env v s)" if "same_flow u v"
  using that unfolding preparePortServiceRestart_def Let_def
  by (auto simp: same_flow_def restarts_demo_def followup_proposal_def split: prod.split sum.split intro!: waits_for_rules prepare_write_waits)

lemma verifyPortRecovery_Inr:
  assumes "verifyPortRecovery flow env v s = ((w, Inr x), t)"
  shows "t_State w = Completed \<and> port_recovered flow"
proof -
  from assms obtain a b u s' where "reported flow read_status a" "decode_status (wf_Decoders flow) a = Inr ''active''" "reported flow read_port b" "decode_occupied (wf_Decoders flow) b = Inr True"
    and f: "finish_port flow env u s' = ((w, Inr x), t)"
    by (auto simp: verifyPortRecovery_def Let_def decoding_Inr split: if_splits dest!: saving_Inr reading_Inr)
  moreover from f obtain h y where "wf_Health flow demoHealthURL (snd s') = (Inr h, y)" "t_State w = Completed"
    by (auto simp: finish_port_def Let_def split: prod.splits sum.splits dest!: appending_Inr complete_workflow_Inr)
  ultimately show ?thesis unfolding port_recovered_def by blast
qed

lemma verifyCPURecovery_Inr:
  assumes "verifyCPURecovery flow env v s = ((w, Inr x), t)"
  shows "t_State w = Completed \<and> cpu_recovered flow v"
proof -
  from assms obtain a b u ps w1 s' where r: "reported flow read_cpu a" "decode_usage (wf_Decoders flow) a = Inr u" "reported flow read_hog b" "decode_processes (wf_Decoders flow) b = Inr ps"
    and d: "t_WorkflowData w1 = t_WorkflowData v" and c: "check_cpu flow env w1 u ps s' = ((w, Inr x), t)"
    by (auto simp: verifyCPURecovery_def Let_def decoding_Inr same_flow_def dest!: saving_Inr reading_Inr)
  from c obtain raw base where "map_of (t_WorkflowData v) ''cpu_baseline_percent'' = Some raw" "dc_float (wf_Decoders flow) raw = Some base" "\<not> list_ex (\<lambda>q. po_Executable q = demoCPUExecutable) ps"
      "float_less (float_add (float_of (wf_Decoders flow) u) (1, - 1)) base" "t_State w = Completed"
    by (auto simp: check_cpu_def finish_cpu_def Let_def d split: option.splits if_splits dest!: appending_Inr complete_workflow_Inr)
  with r show ?thesis unfolding cpu_recovered_def gone_def by (metis sum.case(2))
qed

lemma prepareDiskQuarantine_waits:
  assumes "prepareDiskQuarantine flow env v s = ((w, Inr x), t)"
  shows "awaits flow quarantines_growth w"
proof -
  let ?target = "\<lambda>snapshot. \<lparr>tr_Type = ''file'', tr_ID = ts_ID snapshot, tr_Criticality = []\<rparr>"
  from assms obtain snapshot u s1 where "\<not> ts_Size snapshot \<le> 0"
    and p: "prepare_write flow env u (followup_proposal env u 4 ''file.quarantine'' [] (?target snapshot) True restore_strategy) snapshot s1 = ((w, Inr x), t)"
    by (auto simp: prepareDiskQuarantine_def Let_def split: prod.splits sum.splits if_splits dest!: saving_Inr appending_Inr)
  then have "waits_for flow quarantines_growth u (prepare_write flow env u (followup_proposal env u 4 ''file.quarantine'' [] (?target snapshot) True restore_strategy) snapshot s1)"
    by (intro prepare_write_waits) (auto simp: quarantines_growth_def followup_proposal_def)
  with p show ?thesis by (simp add: waits_for_def)
qed

lemma handled_Inr: "handled r = ((w, Inr b), t) \<longleftrightarrow> b \<and> r = ((w, Inr ()), t)"
  by (cases "snd (fst r)") (auto simp: handled_def split: prod.splits)

lemma verifyDiskRecovery_Inr:
  assumes "verifyDiskRecovery flow env v result s = ((w, Inr x), t)"
  shows "t_State w = Completed \<and> disk_recovered flow result"
proof -
  from assms obtain a b ps fs w1 disk s' where r: "reported flow read_writer a" "decode_processes (wf_Decoders flow) a = Inr ps" "reported flow read_large b" "decode_files (wf_Decoders flow) b = Inr fs"
    and c: "check_disk env w1 result ps fs disk s' = ((w, Inr x), t)"
    by (auto simp: verifyDiskRecovery_def Let_def decoding_Inr dest!: saving_Inr reading_Inr)
  from c obtain vf q p where "\<not> list_ex (\<lambda>q. po_Executable q = demoLogWriterExecutable) ps" "\<not> list_ex (\<lambda>m. md_Path m = demoGrowthPath) fs"
      "res_Verification result = Some vf" "map_of (vf_Evidence vf) ''quarantine_id'' = Some q" "q \<noteq> []" "map_of (vf_Evidence vf) ''quarantined_path'' = Some p" "p \<noteq> []" "t_State w = Completed"
    by (auto simp: check_disk_def finish_disk_def Let_def split: option.splits if_splits dest!: appending_Inr complete_workflow_Inr)
  with r show ?thesis unfolding disk_recovered_def gone_def by (metis sum.case(2))
qed

text \<open>C27: a continuation that succeeds either waits for the approval of the second action, the restart of the demo service or the reversible quarantine of the log as it was read after the writer
  stopped, or it has completed the task, and then fresh answers of the tool servers show that the recovery worked: the service is active, its port is taken and its health check succeeded; the CPU hog is
  gone and the usage fell by more than half a percent; the writer and the log are gone and the executor has named the quarantined copy.\<close>

theorem recovery_continues:
  "case ContinueAfterAction flow env v e result s of
     ((w, Inr True), _) \<Rightarrow> continued flow v (ap_Tool (ae_Proposal e)) result w
   | ((w, Inr False), t) \<Rightarrow> w = v \<and> t = s
   | _ \<Rightarrow> True"
proof -
  have "if b then continued flow v (ap_Tool (ae_Proposal e)) result w else w = v \<and> t = s"
    if C: "ContinueAfterAction flow env v e result s = ((w, Inr b), t)" for w b t
  proof -
    have restart: "awaits flow restarts_demo w" if "preparePortServiceRestart flow env v s = ((w, Inr y), t)" for y
      using preparePortServiceRestart_waits [of v v flow env s] that by (simp add: waits_for_def)
    show ?thesis using C
      by (auto simp: ContinueAfterAction_def Let_def continued_def handled_Inr split: if_splits
        dest!: restart verifyPortRecovery_Inr verifyCPURecovery_Inr prepareDiskQuarantine_waits verifyDiskRecovery_Inr)
  qed
  then show ?thesis by (auto split: prod.split sum.split bool.split)
qed

end
