(* ===== verification/Orchestration.thy ===== *)
theory Orchestration
  imports Recovery_Safety
begin

text \<open>
  \<open>internal/agent/orchestrator.go\<close>: a task from the request to its end. \<open>Prepare\<close> creates it with its first audit facts, \<open>Run\<close> claims it, chooses one of the workflows, and marks
  it failed on an error before the lease is released; \<open>RecoverIncomplete\<close> runs what a crash left behind. Contexts are not cancelled from outside, waiting for a lease to expire only moves the clock,
  and events for the user interface are left out. \<open>None\<close> is a panic.
\<close>

text \<open>The fields of the source's \<open>Orchestrator\<close> beyond those the investigation uses. The health verifier is the configured one or the HTTP verifier.\<close>

record 'x Server =
  oc_Orchestrator :: "'x Orchestrator"
  oc_FileTargets :: "'x file_targets option"
  oc_Health :: "string \<Rightarrow> 'x \<Rightarrow> HealthEvidence result \<times> 'x"
  oc_Decoders :: decoders
  oc_HasPlanner :: bool
  oc_HasTrace :: bool
  oc_WorkerID :: string
  oc_LeaseTTL :: duration

record run_env =
  ru_io :: prep_env
  ru_msgID :: string
  ru_leaseToken :: string
  ru_general :: "nat \<Rightarrow> general_env"
  ru_file :: file_env
  ru_metric :: metric_env
  ru_workflow :: workflow_env

subsection \<open>The session of a new task\<close>

text \<open>\<open>strings.Fields\<close>; the accumulator holds the bytes of the current field.\<close>

function fields_from :: "string \<Rightarrow> string \<Rightarrow> string list" where
  "fields_from acc s =
     (let flush = (if acc = [] then [] else [acc]); w = space_width wide_spaces s in
      if s = [] then flush
      else if 0 < w then flush @ fields_from [] (drop w s)
      else fields_from (acc @ [hd s]) (tl s))"
  by pat_completeness auto
termination
  by (relation "measure (\<lambda>(acc, s). length s)") auto

declare fields_from.simps [simp del]

definition Fields :: "string \<Rightarrow> string list" where "Fields s = fields_from [] s"

definition isDefaultSessionName :: "string \<Rightarrow> bool" where
  "isDefaultSessionName name \<longleftrightarrow> TrimSpace name \<in> set [[], hx ''e696b0e4bc9ae8af9d'', hx ''e696b0e5afb9e8af9d'', hx ''e7b3bbe7bb9fe6849fe79fa5e4bc9ae8af9d'']"

text \<open>Writing runes back replaces an invalid byte by the encoding of U+FFFD.\<close>

definition rune_text :: "rune \<Rightarrow> string" where
  "rune_text r = (case r of (c, b) \<Rightarrow> if c = 0xFFFD then [CHR 0xEF, CHR 0xBF, CHR 0xBD] else b)"

definition sessionTitleFromRequest :: "string \<Rightarrow> string" where
  "sessionTitleFromRequest request =
     (let title = join '' '' (Fields (TrimSpace request)); rs = runes title; title = (if length rs > 36 then concat (map rune_text (take 36 rs)) else title)
      in if title = [] then hx ''e696b0e4bc9ae8af9d'' else title)"

definition prepared_session :: "run_env \<Rightarrow> string \<Rightarrow> string \<Rightarrow> timestamp \<Rightarrow> Session \<Rightarrow> Session result" where
  "prepared_session env taskID request now s =
     Inr (s\<lparr>se_Name := (if se_Messages s = [] \<and> isDefaultSessionName (se_Name s) then sessionTitleFromRequest request else se_Name s),
            se_Messages := se_Messages s @ [\<lparr>ms_ID = ru_msgID env, ms_Role = RoleUser, ms_Content = request, ms_TaskID = taskID, ms_CreatedAt = now\<rparr>], se_UpdatedAt := now\<rparr>)"

subsection \<open>The first facts of a trace\<close>

text \<open>What the trace of a task has to begin with, and what is appended when a crash left it empty or with one event. The event that \<open>append\<close> adds to a slice in memory stands for the one just written.\<close>

definition ensureInitialTrace :: "'x Server \<Rightarrow> run_env \<Rightarrow> nat \<Rightarrow> Task \<Rightarrow> agent \<Rightarrow> unit result \<times> agent" where
  "ensureInitialTrace srv env n v g =
     (if \<not> oc_HasTrace srv then (Inl (ErrorNew ''trace writer is required''), g)
      else (case ReadTrace (t_ID v) (ag_trace g) of (r, d) \<Rightarrow>
        let g = g\<lparr>ag_trace := d\<rparr>;
            created = (\<lambda>g. map_prod (map_sum id (\<lambda>_. ())) id (trace_event (ru_io env) (n + 1) v ''TASK_CREATED'' (JObj [(''state'', JStr (state_text (t_State v)))]) g)) in
        (case (case r of Inl e \<Rightarrow> if errorsIs ErrNotExist e then Inr [] else Inl e | Inr es \<Rightarrow> Inr es) of
           Inl e \<Rightarrow> (Inl e, g)
         | Inr [] \<Rightarrow> (case trace_event (ru_io env) n v ''RECEIVED'' (JObj [(''request'', JStr (t_OriginalRequest v))]) g of (Inl e, g) \<Rightarrow> (Inl e, g) | (Inr _, g) \<Rightarrow> created g)
         | Inr (e # es) \<Rightarrow>
           if ev_Type e \<noteq> ''RECEIVED'' \<or> ev_SessionID e \<noteq> t_SessionID v then (Inl (ErrorNew ''task trace does not start with the expected RECEIVED event''), g)
           else (case es of [] \<Rightarrow> created g
             | e2 # _ \<Rightarrow>
               if ev_Type e2 \<noteq> ''TASK_CREATED'' \<or> ev_SessionID e2 \<noteq> t_SessionID v then (Inl (ErrorNew ''task trace does not contain the expected TASK_CREATED prefix''), g)
               else (Inr (), g)))))"

definition new_task :: "string \<Rightarrow> string \<Rightarrow> string \<Rightarrow> timestamp \<Rightarrow> Task" where
  "new_task taskID sessionID request now =
     zero_task\<lparr>t_ID := taskID, t_SessionID := sessionID, t_Objective := request, t_OriginalRequest := request, t_State := New, t_CreatedAt := now, t_UpdatedAt := now\<rparr>"

definition Orchestrator_Prepare :: "'x Server \<Rightarrow> run_env \<Rightarrow> string \<Rightarrow> string \<Rightarrow> string \<Rightarrow> agent \<Rightarrow> (Task \<times> unit result) \<times> agent" where
  "Orchestrator_Prepare srv env taskID sessionID request g =
     (let now = pe_clock (ru_io env) 0; t = new_task taskID sessionID request now in
      case PrepareTask t (Some (prepared_session env taskID request now)) (ag_store g) of
        (Inl e, d) \<Rightarrow> ((t, Inl e), g\<lparr>ag_store := d\<rparr>)
      | (Inr _, d) \<Rightarrow> (case ensureInitialTrace srv env 1 t (g\<lparr>ag_store := d\<rparr>) of (r, g) \<Rightarrow> ((t, r), g)))"

subsection \<open>Choosing the workflow\<close>

definition terminalTask :: "State \<Rightarrow> bool" where
  "terminalTask st \<longleftrightarrow> st = Completed \<or> st = Failed \<or> st = Cancelled"

definition leaseTTL :: "'x Server \<Rightarrow> duration" where
  "leaseTTL srv = (if oc_LeaseTTL srv \<le> 0 then 3 * minute else oc_LeaseTTL srv)"

text \<open>The first lines of the three recovery functions. Without file targets the workflows on the port and the CPU have none to use.\<close>

definition workflow_of :: "'x Server \<Rightarrow> ActionPreparer \<Rightarrow> 'x snapshotter \<Rightarrow> (ActionProposal \<Rightarrow> PipelineResult) \<Rightarrow> 'x Workflow" where
  "workflow_of srv pp targets evaluate =
     \<lparr>wf_CallTool = o_CallTool (oc_Orchestrator srv), wf_Evaluate = evaluate, wf_Actions = pp, wf_ActionTargets = targets,
      wf_FileTargets = (case oc_FileTargets srv of Some ft \<Rightarrow> ft
        | None \<Rightarrow> \<lparr>ft_SnapshotFile = (\<lambda>_ _ x. (Inl (ErrorNew ''no file targets''), x)), ft_SnapshotNewFile = (\<lambda>_ _ x. (Inl (ErrorNew ''no file targets''), x))\<rparr>),
      wf_Health = oc_Health srv, wf_Decoders = oc_Decoders srv\<rparr>"

definition configured :: "'x Server \<Rightarrow> string \<Rightarrow> string \<Rightarrow> 'x Workflow result" where
  "configured srv noActions noSafety =
     (case (mg_Actions (o_Managed (oc_Orchestrator srv)), mg_ActionTargets (o_Managed (oc_Orchestrator srv))) of
        (Some pp, Some targets) \<Rightarrow>
          (case o_Safety (oc_Orchestrator srv) of Some evaluate \<Rightarrow> if oc_HasTrace srv then Inr (workflow_of srv pp targets evaluate) else Inl (ErrorNew noSafety)
           | None \<Rightarrow> Inl (ErrorNew noSafety))
      | _ \<Rightarrow> Inl (ErrorNew noActions))"

definition port_dependencies :: "'x Server \<Rightarrow> 'x Workflow result" where
  "port_dependencies srv = configured srv ''port recovery requires approval-bound action preparation and target snapshots'' ''port recovery read, safety, and trace dependencies are required''"

definition cpu_dependencies :: "'x Server \<Rightarrow> 'x Workflow result" where
  "cpu_dependencies srv = (let e = ''CPU recovery requires MCP, safety, approval, trace, and target snapshot dependencies'' in configured srv e e)"

definition disk_dependencies :: "'x Server \<Rightarrow> 'x Workflow result" where
  "disk_dependencies srv =
     (let e = ''disk recovery requires MCP, safety, approvals, process/file snapshots, and trace'' in
      if oc_FileTargets srv = None then Inl (ErrorNew e) else configured srv e e)"

definition in_flight :: "Task \<Rightarrow> bool" where
  "in_flight v \<longleftrightarrow> (t_State v = Executing \<or> t_State v = Verifying) \<and> t_PendingAction v \<noteq> []"

text \<open>The part of \<open>Run\<close> between the two deferred functions and its end.\<close>

definition run_claimed :: "'x Server \<Rightarrow> run_env \<Rightarrow> string \<Rightarrow> Task \<Rightarrow> agent \<times> 'x \<Rightarrow> (unit, 'x) agent_result option" where
  "run_claimed srv env request v s =
     (let o1 = oc_Orchestrator srv in
      if in_flight v
      then Some ((v, Inl (ErrorNew ''in-flight privileged action requires manual reconciliation after worker loss; automatic re-execution is forbidden'')), s)
      else if detectPortRecovery request \<and> fixedLabReadScopeCompatible request [demoLabRoot] then Some (runPortRecovery (port_dependencies srv) (ru_workflow env) v s)
      else if detectCPURecovery request \<and> fixedLabReadScopeCompatible request [demoLabRoot] then Some (runCPURecovery (cpu_dependencies srv) (ru_workflow env) v s)
      else if detectDiskRecovery request \<and> fixedLabReadScopeCompatible request [demoLabRoot, demoGrowthPath] then Some (runDiskRecovery (disk_dependencies srv) (ru_workflow env) v s)
      else if detectFileAction request \<noteq> [] then runFileAction (mg_Actions (o_Managed o1)) (oc_FileTargets srv) (ru_file env) v (detectFileAction request) request s
      else (case parseMetricIntent request of
          Inl err \<Rightarrow> if \<not> oc_HasPlanner srv then Some ((v, Inl err), s) else runGeneral o1 (ru_general env) v s
        | Inr intent \<Rightarrow> Some (runMetrics o1 (ru_metric env) intent v s)))"

subsection \<open>Run\<close>

text \<open>The deferred function that marks the task failed; what goes wrong in it is dropped.\<close>

definition fail_run :: "run_env \<Rightarrow> (unit, 'x) agent_result \<Rightarrow> (unit, 'x) agent_result" where
  "fail_run env r =
     (case r of ((v, Inr _), s) \<Rightarrow> r
      | ((v, Inl err), g, x) \<Rightarrow>
        let text = pe_text (ru_io env) err; w = Transition Failed (pe_clock (ru_io env) 20) (v\<lparr>t_FailureReason := text\<rparr>);
            g = snd (save_task (ru_io env) 21 w g); g = snd (trace_event (ru_io env) 22 w ''TASK_FAILED'' (JObj [(''error'', JStr text)]) g)
        in ((w, Inl err), g, x))"

definition release_run :: "run_env \<Rightarrow> string \<Rightarrow> uint64 \<Rightarrow> (unit, 'x) agent_result \<Rightarrow> (unit, 'x) agent_result" where
  "release_run env taskID fence r =
     (case r of ((v, e), g, x) \<Rightarrow>
        (case ReleaseTask taskID (ru_leaseToken env) fence (ag_store g) of
           (Inl err, d) \<Rightarrow> ((v, (case e of Inl _ \<Rightarrow> e | Inr _ \<Rightarrow> Inl (Wrapf ''release task worker lease'' err))), g\<lparr>ag_store := d\<rparr>, x)
         | (Inr w, d) \<Rightarrow> ((w, e), g\<lparr>ag_store := d\<rparr>, x)))"

definition claim_and_run :: "'x Server \<Rightarrow> run_env \<Rightarrow> string \<Rightarrow> string \<Rightarrow> agent \<times> 'x \<Rightarrow> (unit, 'x) agent_result option" where
  "claim_and_run srv env taskID request s =
     (let worker = (if TrimSpace (oc_WorkerID srv) = [] then ''safeops-worker'' else TrimSpace (oc_WorkerID srv)) in
      case ClaimTask (pe_clock (ru_io env) 10) taskID worker (ru_leaseToken env) (leaseTTL srv) (ag_store (fst s)) of
        (Inl err, d) \<Rightarrow> Some ((zero_task, Inl err), (fst s)\<lparr>ag_store := d\<rparr>, snd s)
      | (Inr v, d) \<Rightarrow> map_option (\<lambda>r. release_run env taskID (wl_Fence (t_WorkerLease v)) (fail_run env r)) (run_claimed srv env request v ((fst s)\<lparr>ag_store := d\<rparr>, snd s)))"

definition run_stored :: "'x Server \<Rightarrow> run_env \<Rightarrow> string \<Rightarrow> string \<Rightarrow> string \<Rightarrow> Task \<Rightarrow> agent \<times> 'x \<Rightarrow> (unit, 'x) agent_result option" where
  "run_stored srv env taskID sessionID request v s =
     (if t_SessionID v \<noteq> sessionID \<or> t_OriginalRequest v \<noteq> request then Some ((v, Inl (ErrorNew ''prepared task does not match request'')), s)
      else (case ensureInitialTrace srv env 5 v (fst s) of
          (Inl err, g) \<Rightarrow> Some ((v, Inl err), g, snd s)
        | (Inr _, g) \<Rightarrow>
          if terminalTask (t_State v) \<or> t_State v = WaitingApproval then Some ((v, Inr ()), g, snd s)
          else claim_and_run srv env taskID request (g, snd s)))"

definition Run :: "'x Server \<Rightarrow> run_env \<Rightarrow> string \<Rightarrow> string \<Rightarrow> string \<Rightarrow> agent \<times> 'x \<Rightarrow> (unit, 'x) agent_result option" where
  "Run srv env taskID sessionID request s =
     (case get_task taskID (fst s) of
        (Inr v, g) \<Rightarrow> run_stored srv env taskID sessionID request v (g, snd s)
      | (Inl err, g) \<Rightarrow>
        if errorsIs ErrNotFound err then
          (case Orchestrator_Prepare srv env taskID sessionID request g of
             ((t, Inl err), g) \<Rightarrow> Some ((zero_task, Inl err), g, snd s)
           | ((t, Inr _), g) \<Rightarrow> run_stored srv env taskID sessionID request t (g, snd s))
        else Some ((zero_task, Inl err), g, snd s))"

subsection \<open>After a restart\<close>

fun recover_tasks :: "'x Server \<Rightarrow> (nat \<Rightarrow> run_env) \<Rightarrow> nat \<Rightarrow> Task list \<Rightarrow> agent \<times> 'x \<Rightarrow> (go_error list \<times> agent \<times> 'x) option" where
  "recover_tasks srv envs k [] s = Some ([], s)"
| "recover_tasks srv envs k (v # vs) s =
     (if terminalTask (t_State v) \<or> t_State v = WaitingApproval then recover_tasks srv envs (Suc k) vs s
      else (case Run srv (envs k) (t_ID v) (t_SessionID v) (t_OriginalRequest v) s of
          None \<Rightarrow> None
        | Some ((_, r), s) \<Rightarrow>
          map_option (\<lambda>(es, s). ((case r of Inl err \<Rightarrow> [Wrapf (''recover task '' @ t_ID v) err] | Inr _ \<Rightarrow> []) @ es, s)) (recover_tasks srv envs (Suc k) vs s)))"

definition RecoverIncomplete :: "'x Server \<Rightarrow> (nat \<Rightarrow> run_env) \<Rightarrow> (string \<times> bool) list \<Rightarrow> agent \<times> 'x \<Rightarrow> (go_error list \<times> agent \<times> 'x) option" where
  "RecoverIncomplete srv envs entries s =
     (case ListTasks entries (ag_store (fst s)) of
        (Inl err, d) \<Rightarrow> Some ([err], (fst s)\<lparr>ag_store := d\<rparr>, snd s)
      | (Inr vs, d) \<Rightarrow> recover_tasks srv envs 0 vs ((fst s)\<lparr>ag_store := d\<rparr>, snd s))"

subsection \<open>Run returns\<close>

lemma runFileAction_panics: "runFileAction actions targets env v kind request s = None \<Longrightarrow> kind = ''create''"
  by (auto simp: runFileAction_def plan_file_action_def Let_def split: option.splits prod.splits sum.splits if_splits)

lemma run_claimed_panics: "run_claimed srv env request v s = None \<Longrightarrow> detectFileAction request = ''create''"
  using runGeneral_any [of "oc_Orchestrator srv" "ru_general env" v s]
  by (auto simp: run_claimed_def Let_def split: if_splits sum.splits dest: runFileAction_panics)

lemma run_stored_panics: "run_stored srv env i sid request v s = None \<Longrightarrow> detectFileAction request = ''create''"
  by (auto simp: run_stored_def claim_and_run_def Let_def split: if_splits prod.splits sum.splits dest: run_claimed_panics)

text \<open>C15: \<open>Run\<close> comes to an end and returns for every request that is not one to create a file, whatever planner, tools, disks and clock do; a request to create a file can
  panic.\<close>

theorem run_returns:
  "case Run srv env taskID sessionID request s of None \<Rightarrow> detectFileAction request = ''create'' | Some _ \<Rightarrow> True"
  by (auto simp: Run_def split: option.split prod.splits sum.splits if_splits dest: run_stored_panics)

subsection \<open>Tasks that Run must not touch\<close>

definition settled :: "Task \<Rightarrow> bool" where
  "settled v \<longleftrightarrow> terminalTask (t_State v) \<or> t_State v = WaitingApproval"

text \<open>A task of the same id with the same pending action, in its old state or failed.\<close>

definition held :: "Task \<Rightarrow> Task \<Rightarrow> bool" where
  "held v t \<longleftrightarrow> t_ID t = t_ID v \<and> t_PendingAction t = t_PendingAction v \<and> (t_State t = t_State v \<or> t_State t = Failed)"

lemma held_refl [simp]: "held v v"
  by (simp add: held_def)

lemma held_trans: "held u v \<Longrightarrow> held v w \<Longrightarrow> held u w"
  by (auto simp: held_def)

lemma held_claimed [simp]: "held v (claimed owner token ttl now v)" "in_flight (claimed owner token ttl now v) = in_flight v"
  by (simp_all add: held_def claimed_def in_flight_def)

lemma held_released [simp]: "held v (released v)"
  by (simp add: held_def released_def)

text \<open>From one state of the stores to another, only the task \<open>i\<close> may change, and it stays held.\<close>

definition holds :: "string \<Rightarrow> agent \<Rightarrow> agent \<Rightarrow> bool" where
  "holds i g h \<longleftrightarrow> (\<forall>j. j \<noteq> i \<longrightarrow> task_at j h = task_at j g)
     \<and> (case task_at i g of None \<Rightarrow> task_at i h = None | Some v \<Rightarrow> (case task_at i h of None \<Rightarrow> False | Some t \<Rightarrow> held v t))"

lemma holds_same: "same_tasks g h \<Longrightarrow> holds i g h"
  by (auto simp: holds_def same_tasks_def split: option.split)

lemma holds_trans: "holds i g h \<Longrightarrow> holds i h k \<Longrightarrow> holds i g k"
  by (auto simp: holds_def split: option.splits intro: held_trans)

lemma holds_replace: "task_at i g = Some v \<Longrightarrow> held v t \<Longrightarrow> (\<And>j. task_at j h = (if j = i then Some t else task_at j g)) \<Longrightarrow> holds i g h"
  by (simp add: holds_def)

lemma task_at_store: "task_at j (g\<lparr>ag_store := d\<rparr>) = (case files d (store_path ''tasks'' j) of Some (Valid (TaskDoc t)) \<Rightarrow> Some t | _ \<Rightarrow> None)"
  by (simp add: task_at_def)

lemma trace_event_unit_tasks: "map_prod (map_sum id (\<lambda>_. ())) id (trace_event env n v type data g) = (r, h) \<Longrightarrow> same_tasks g h"
  by (cases "trace_event env n v type data g") (auto dest: trace_event_tasks)

lemma ensureInitialTrace_tasks:
  assumes "ensureInitialTrace srv env n v g = (r, h)"
  shows "same_tasks g h"
proof -
  have t: "same_tasks g (g\<lparr>ag_trace := d\<rparr>)" for d by (simp add: same_tasks_def task_at_def)
  from assms show ?thesis unfolding ensureInitialTrace_def
    by (auto simp: Let_def t split: if_splits prod.splits sum.splits list.splits dest!: trace_event_tasks trace_event_unit_tasks
        intro: same_tasks_trans [OF t] same_tasks_trans)
qed

lemma ClaimTask_holds:
  assumes "ClaimTask now i owner token ttl (ag_store g) = (r, d)"
  shows "holds i g (g\<lparr>ag_store := d\<rparr>) \<and> (\<forall>x. r = Inr x \<longrightarrow> task_at i (g\<lparr>ag_store := d\<rparr>) = Some x \<and> (\<exists>v. task_at i g = Some v \<and> x = claimed owner token ttl now v))"
  using ClaimTask_effect [OF assms]
proof
  assume "files d = files (ag_store g) \<and> \<not> is_ok r"
  then show ?thesis by (auto simp: same_tasks_def task_at_def intro!: holds_same)
next
  assume "\<exists>t. files (ag_store g) (store_path ''tasks'' i) = Some (Valid (TaskDoc t)) \<and> \<not> (wl_Token (t_WorkerLease t) \<noteq> [] \<and> now < wl_ExpiresAt (t_WorkerLease t))
      \<and> TrimSpace token \<noteq> [] \<and> 0 < ttl \<and> (\<forall>x. r = Inr x \<longrightarrow> x = claimed owner token ttl now t)
      \<and> files d = (files (ag_store g))(store_path ''tasks'' i \<mapsto> Valid (TaskDoc (claimed owner token ttl now t)))"
  then obtain v where v: "files (ag_store g) (store_path ''tasks'' i) = Some (Valid (TaskDoc v))" "\<forall>x. r = Inr x \<longrightarrow> x = claimed owner token ttl now v"
    and d: "files d = (files (ag_store g))(store_path ''tasks'' i \<mapsto> Valid (TaskDoc (claimed owner token ttl now v)))" by blast
  have at: "task_at i g = Some v" "task_at j (g\<lparr>ag_store := d\<rparr>) = (if j = i then Some (claimed owner token ttl now v) else task_at j g)" for j
    by (simp_all add: task_at_def v d store_path_kind)
  with v(2) holds_replace [OF at(1) held_claimed(1) at(2)] show ?thesis by auto
qed

lemma ReleaseTask_holds:
  assumes "ReleaseTask i token fence (ag_store g) = (r, d)"
  shows "holds i g (g\<lparr>ag_store := d\<rparr>)"
  using ReleaseTask_effect [OF assms]
proof
  assume "files d = files (ag_store g) \<and> \<not> is_ok r"
  then show ?thesis by (auto simp: same_tasks_def task_at_def intro!: holds_same)
next
  assume "\<exists>t. files (ag_store g) (store_path ''tasks'' i) = Some (Valid (TaskDoc t)) \<and> wl_Token (t_WorkerLease t) = token \<and> wl_Fence (t_WorkerLease t) = fence
      \<and> (\<forall>x. r = Inr x \<longrightarrow> x = released t) \<and> files d = (files (ag_store g))(store_path ''tasks'' i \<mapsto> Valid (TaskDoc (released t)))"
  then obtain v where v: "files (ag_store g) (store_path ''tasks'' i) = Some (Valid (TaskDoc v))"
    and d: "files d = (files (ag_store g))(store_path ''tasks'' i \<mapsto> Valid (TaskDoc (released v)))" by blast
  have at: "task_at i g = Some v" "task_at j (g\<lparr>ag_store := d\<rparr>) = (if j = i then Some (released v) else task_at j g)" for j
    by (simp_all add: task_at_def v d store_path_kind)
  from holds_replace [OF at(1) held_released at(2)] show ?thesis .
qed

lemma fail_run_holds:
  assumes "task_at i g = Some v" "t_ID v = i" "fail_run env ((v, Inl err), g, x) = ((w, r), h, y)"
  shows "holds i g h \<and> y = x \<and> \<not> is_ok r"
proof -
  define u where "u = Transition Failed (pe_clock (ru_io env) 20) (v\<lparr>t_FailureReason := pe_text (ru_io env) err\<rparr>)"
  obtain r1 g1 where s: "save_task (ru_io env) 21 u g = (r1, g1)" by (metis prod.collapse)
  obtain r2 g2 where t: "trace_event (ru_io env) 22 u ''TASK_FAILED'' (JObj [(''error'', JStr (pe_text (ru_io env) err))]) g1 = (r2, g2)" by (metis prod.collapse)
  from assms(3) s t have h: "h = g2" "y = x" "r = Inl err" by (simp_all add: fail_run_def Let_def u_def [symmetric])
  have u: "held v u" "t_ID u = i" using assms(2) by (simp_all add: u_def held_def Transition_def)
  from s have "holds i g g1"
  proof (cases rule: save_task_cases)
    case written
    with u show ?thesis by (intro holds_replace [OF assms(1) u(1)]) (simp add: saved_def)
  qed (rule holds_same)
  with holds_trans holds_same [OF trace_event_tasks [OF t]] h show ?thesis by auto
qed

lemma claim_and_run_holds:
  assumes v: "task_at i (fst s) = Some v" "t_ID v = i" "in_flight v"
  shows "case claim_and_run srv env i request s of None \<Rightarrow> False | Some ((w, r), g, x) \<Rightarrow> holds i (fst s) g \<and> x = snd s \<and> \<not> is_ok r"
proof -
  let ?worker = "if TrimSpace (oc_WorkerID srv) = [] then ''safeops-worker'' else TrimSpace (oc_WorkerID srv)"
  obtain c d where C: "ClaimTask (pe_clock (ru_io env) 10) i ?worker (ru_leaseToken env) (leaseTTL srv) (ag_store (fst s)) = (c, d)" by (metis prod.collapse)
  let ?g = "(fst s)\<lparr>ag_store := d\<rparr>"
  from ClaimTask_holds [OF C] have hold: "holds i (fst s) ?g" by simp
  show ?thesis
  proof (cases c)
    case (Inl err)
    with C hold show ?thesis by (simp add: claim_and_run_def Let_def)
  next
    case (Inr u)
    with ClaimTask_holds [OF C] v have u: "task_at i ?g = Some u" "t_ID u = i" "in_flight u" by (auto simp: claimed_def in_flight_def)
    then have R: "\<exists>err. run_claimed srv env request u (?g, snd s) = Some ((u, Inl err), ?g, snd s)" by (simp add: run_claimed_def)
    then obtain err where R: "run_claimed srv env request u (?g, snd s) = Some ((u, Inl err), ?g, snd s)" by blast
    obtain w r h y where F: "fail_run env ((u, Inl err), ?g, snd s) = ((w, r), h, y)" by (metis prod.collapse)
    obtain c2 d2 where L: "ReleaseTask i (ru_leaseToken env) (wl_Fence (t_WorkerLease u)) (ag_store h) = (c2, d2)" by (metis prod.collapse)
    from fail_run_holds [OF u(1,2) F] have f: "holds i ?g h" "y = snd s" "\<not> is_ok r" by simp_all
    then obtain e where "r = Inl e" by (cases r) auto
    with C Inr R F L have "claim_and_run srv env i request s = Some (((case c2 of Inl _ \<Rightarrow> w | Inr z \<Rightarrow> z), Inl e), h\<lparr>ag_store := d2\<rparr>, snd s)"
      by (cases c2) (simp_all add: claim_and_run_def Let_def release_run_def f)
    moreover from holds_trans [OF holds_trans [OF hold f(1)] ReleaseTask_holds [OF L]] have "holds i (fst s) (h\<lparr>ag_store := d2\<rparr>)" .
    ultimately show ?thesis by simp
  qed
qed

lemma read_file_other: "read_file k d = (Inl err, d') \<Longrightarrow> err \<noteq> ErrNotExist \<Longrightarrow> \<not> errorsIs ErrNotFound err"
  by (auto simp: read_file_def split: prod.splits if_splits option.splits)

lemma get_task_stored:
  assumes "task_at i g = Some v" "get_task i g = (r, h)"
  shows "same_tasks g h \<and> (case r of Inl err \<Rightarrow> \<not> errorsIs ErrNotFound err | Inr t \<Rightarrow> t = v)"
proof (cases r)
  case (Inl err)
  with assms show ?thesis using get_task_tasks [OF assms(2)]
    by (auto simp: get_task_def GetTask_def get_doc_def validateID_def loadLocked_def task_at_def split: prod.splits if_splits sum.splits option.splits doc.splits dest!: syscall_files dest: read_file_NotExist read_file_other)
next
  case (Inr t)
  with assms get_task_tasks [OF assms(2)] get_task_ok [of i g t h] show ?thesis by simp
qed

text \<open>What \<open>Run\<close> does with a task whose action may have been executed, and with one that is settled: it leaves the outside world alone.\<close>

lemma Run_holds:
  assumes v: "task_at i (fst s) = Some v" "t_ID v = i" and q: "in_flight v \<or> settled v"
  shows "case Run srv env i sid request s of None \<Rightarrow> False | Some ((w, r), g, x) \<Rightarrow> holds i (fst s) g \<and> x = snd s \<and> (in_flight v \<longrightarrow> \<not> is_ok r) \<and> (settled v \<longrightarrow> same_tasks (fst s) g)"
proof -
  obtain t h where G: "get_task i (fst s) = (t, h)" by (metis prod.collapse)
  from get_task_stored [OF v(1) G] have s1: "same_tasks (fst s) h" "case t of Inl err \<Rightarrow> \<not> errorsIs ErrNotFound err | Inr u \<Rightarrow> u = v" by simp_all
  have nq: "\<not> (in_flight v \<and> settled v)" by (auto simp: in_flight_def settled_def terminalTask_def)
  show ?thesis
  proof (cases t)
    case (Inl err)
    with G s1 show ?thesis by (simp add: Run_def holds_same)
  next
    case (Inr u)
    with s1 have u: "u = v" by simp
    obtain e k where E: "ensureInitialTrace srv env 5 v h = (e, k)" by (metis prod.collapse)
    from same_tasks_trans [OF s1(1) ensureInitialTrace_tasks [OF E]] have k: "same_tasks (fst s) k" .
    with v have "task_at i k = Some v" by (simp add: same_tasks_def)
    with claim_and_run_holds [of i "(k, snd s)" v srv env request] v(2) holds_trans [OF holds_same [OF k]] nq G Inr u E k s1(1) q show ?thesis
      by (auto simp: Run_def run_stored_def settled_def holds_same split: sum.splits option.splits)
  qed
qed


subsection \<open>Recovery after a restart\<close>

lemma last_split_suffix: "\<exists>p. s = p @ last (split_on c s)" "c \<in> set s \<Longrightarrow> \<exists>p. s = p @ c # last (split_on c s)"
proof -
  show pre: "\<exists>p. s = p @ last (split_on c s)" for s
  proof (cases "c \<in> set s")
    case True
    then obtain xs ys where s: "s = xs @ c # ys" and "c \<notin> set ys" by (meson split_list_last)
    then show ?thesis by (auto simp: split_on_append split_on_id)
  qed (simp add: split_on_id)
  assume "c \<in> set s"
  then obtain xs ys where s: "s = xs @ c # ys" and "c \<notin> set ys" by (meson split_list_last)
  then show "\<exists>p. s = p @ c # last (split_on c s)" by (auto simp: split_on_append split_on_id)
qed

lemma Ext_suffix: "\<exists>p. s = p @ Ext s"
proof -
  let ?e = "last (split_on (CHR ''/'') s)"
  obtain p where p: "s = p @ ?e" using last_split_suffix(1) by blast
  show ?thesis
  proof (cases "CHR ''.'' \<in> set ?e")
    case True
    then obtain q where "?e = q @ CHR ''.'' # last (split_on (CHR ''.'') ?e)" using last_split_suffix(2) by blast
    with True p have "s = (p @ q) @ Ext s" by (simp add: Ext_def Let_def)
    then show ?thesis by blast
  qed (simp add: Ext_def Let_def)
qed

text \<open>What \<open>list\<close> returns is stored under the names it was given.\<close>

lemma list_docs_stored:
  "list_docs pick_task ''tasks'' es (ag_store g) = (r, d) \<Longrightarrow> files d = files (ag_store g) \<and> (\<forall>vs v. r = Inr vs \<longrightarrow> v \<in> set vs \<longrightarrow> (\<exists>i. task_at i g = Some v))"
proof (induction es arbitrary: g r d)
  case (Cons e es)
  obtain name isDir where e: "e = (name, isDir)" by (cases e)
  show ?case
  proof (cases "isDir \<or> Ext name \<noteq> ''.json''")
    case True
    with Cons e show ?thesis by auto
  next
    case False
    with Ext_suffix [of name] obtain i where i: "name = i @ ''.json''" by auto
    obtain ok d1 where d1: "syscall (ag_store g) = (ok, d1)" by (metis surj_pair)
    obtain b d2 where d2: "read_file (''tasks/'' @ name) d1 = (b, d2)" by (metis surj_pair)
    obtain r3 d3 where d3: "list_docs pick_task ''tasks'' es d2 = (r3, d3)" by (metis surj_pair)
    have f: "files d2 = files (ag_store g)" using syscall_files [OF d1] read_file_files [OF d2] by simp
    have at: "task_at k (g\<lparr>ag_store := d2\<rparr>) = task_at k g" for k by (simp add: task_at_def f)
    have "task_at i g = Some v" if "b = Inr (Valid x)" "pick_task x = Some v" for x v
      using read_file_Inr [of _ d1] d2 that syscall_files [OF d1] i by (auto simp: task_at_def store_path_def split: store_doc.splits)
    with Cons.IH [of "g\<lparr>ag_store := d2\<rparr>"] Cons.prems e False d1 d2 d3 f at syscall_files [OF d1] show ?thesis
      by (auto split: if_splits sum.splits doc.splits option.splits)
  qed
qed simp

lemma ListTasks_stored:
  assumes "ListTasks entries (ag_store g) = (r, d)"
  shows "same_tasks g (g\<lparr>ag_store := d\<rparr>) \<and> (\<forall>vs v. r = Inr vs \<longrightarrow> v \<in> set vs \<longrightarrow> (\<exists>i. task_at i g = Some v))"
proof -
  obtain ok d1 where d1: "Prelude.calls 2 (ag_store g) = (ok, d1)" by (metis surj_pair)
  obtain r2 d2 where d2: "list_docs pick_task ''tasks'' entries d1 = (r2, d2)" by (metis surj_pair)
  from calls_files [OF d1] have "task_at k (g\<lparr>ag_store := d1\<rparr>) = task_at k g" for k by (simp add: task_at_def)
  with list_docs_stored [of entries "g\<lparr>ag_store := d1\<rparr>" r2 d2] d2 d1 assms calls_files [OF d1] show ?thesis
    by (auto simp: ListTasks_def list_kind_def same_tasks_def task_at_def split: if_splits sum.splits)
qed

text \<open>Every task keeps its action, and is as it was or failed.\<close>

definition all_held :: "agent \<Rightarrow> agent \<Rightarrow> bool" where
  "all_held g h \<longleftrightarrow> (\<forall>i. case task_at i g of None \<Rightarrow> task_at i h = None | Some v \<Rightarrow> (\<exists>t. task_at i h = Some t \<and> held v t))"

lemma all_held_refl [simp]: "all_held g g"
  by (simp add: all_held_def split: option.split)

lemma all_held_Some: "all_held g h \<Longrightarrow> task_at i g = Some v \<Longrightarrow> \<exists>t. task_at i h = Some t \<and> held v t"
  unfolding all_held_def by (drule spec [of _ i]) simp

lemma all_held_from: "all_held g h \<Longrightarrow> task_at i h = Some t \<Longrightarrow> \<exists>v. task_at i g = Some v \<and> held v t"
  unfolding all_held_def by (drule spec [of _ i]) (auto split: option.splits)

lemma all_held_trans:
  assumes "all_held g h" "all_held h k"
  shows "all_held g k"
  unfolding all_held_def
proof
  fix i
  show "case task_at i g of None \<Rightarrow> task_at i k = None | Some v \<Rightarrow> (\<exists>t. task_at i k = Some t \<and> held v t)"
    using assms [unfolded all_held_def, THEN spec, of i] by (auto split: option.splits intro: held_trans)
qed

lemma holds_all: "holds i g h \<Longrightarrow> all_held g h"
  unfolding all_held_def holds_def
proof
  fix j
  assume "(\<forall>j. j \<noteq> i \<longrightarrow> task_at j h = task_at j g) \<and> (case task_at i g of None \<Rightarrow> task_at i h = None | Some v \<Rightarrow> (case task_at i h of None \<Rightarrow> False | Some t \<Rightarrow> held v t))"
  then show "case task_at j g of None \<Rightarrow> task_at j h = None | Some v \<Rightarrow> (\<exists>t. task_at j h = Some t \<and> held v t)"
    by (cases "j = i") (auto split: option.splits)
qed

text \<open>What a crash leaves when no read-only run was under way.\<close>

definition no_open_run :: "agent \<Rightarrow> bool" where
  "no_open_run g \<longleftrightarrow> tasks_filed g \<and> (\<forall>i v. task_at i g = Some v \<longrightarrow> in_flight v \<or> settled v)"

lemma held_quiet: "held v t \<Longrightarrow> in_flight v \<or> settled v \<Longrightarrow> in_flight t \<or> settled t"
  by (auto simp: held_def in_flight_def settled_def terminalTask_def)

lemma all_held_no_open_run:
  assumes "all_held g h" "no_open_run g"
  shows "no_open_run h"
proof -
  have "t_ID t = i \<and> (in_flight t \<or> settled t)" if "task_at i h = Some t" for i t
  proof -
    from all_held_from [OF assms(1) that] obtain v where v: "task_at i g = Some v" "held v t" by blast
    with assms(2) held_quiet [OF v(2)] show ?thesis by (auto simp: no_open_run_def tasks_filed_def held_def)
  qed
  then show ?thesis by (auto simp: no_open_run_def tasks_filed_def)
qed

lemma recover_tasks_holds:
  assumes "no_open_run (fst s)" "\<forall>v \<in> set vs. \<exists>u. task_at (t_ID v) (fst s) = Some u"
  shows "case recover_tasks srv envs k vs s of None \<Rightarrow> False | Some (es, g, x) \<Rightarrow> all_held (fst s) g \<and> x = snd s"
  using assms
proof (induction vs arbitrary: k s)
  case Nil
  then show ?case by (simp split: prod.split)
next
  case (Cons v vs)
  show ?case
  proof (cases "terminalTask (t_State v) \<or> t_State v = WaitingApproval")
    case True
    with Cons.IH [of s "Suc k"] Cons.prems show ?thesis by auto
  next
    case False
    from Cons.prems obtain u where u: "task_at (t_ID v) (fst s) = Some u" "t_ID u = t_ID v" "in_flight u \<or> settled u"
      by (auto simp: no_open_run_def tasks_filed_def)
    from Run_holds [OF u, of srv "envs k" "t_SessionID v" "t_OriginalRequest v"] obtain w r g
      where R: "Run srv (envs k) (t_ID v) (t_SessionID v) (t_OriginalRequest v) s = Some ((w, r), g, snd s)" and h: "all_held (fst s) g"
      by (auto split: option.splits intro: holds_all)
    have vs: "\<forall>v \<in> set vs. \<exists>u. task_at (t_ID v) (fst (g, snd s)) = Some u" using Cons.prems(2) all_held_Some [OF h] by fastforce
    have n: "no_open_run (fst (g, snd s))" using all_held_no_open_run [OF h Cons.prems(1)] by simp
    from Cons.IH [OF n vs, of "Suc k"] obtain es k' where "recover_tasks srv envs (Suc k) vs (g, snd s) = Some (es, k', snd s)" "all_held g k'"
      by (auto split: option.splits)
    with R False all_held_trans [OF h] show ?thesis by simp
  qed
qed

text \<open>C14: recovery after a restart repeats nothing: when every stored task is at its end, waits for approval, or was interrupted with a pending action in EXECUTING or VERIFYING,
  \<open>RecoverIncomplete\<close> returns without a tool call, a snapshot or a planner request, and every stored task still has its action and is as it was or marked failed, whatever fails on the
  disks meanwhile.\<close>

theorem recovery_repeats_no_action:
  assumes "no_open_run (fst s)"
  shows "case RecoverIncomplete srv envs entries s of None \<Rightarrow> False | Some (es, g, x) \<Rightarrow> x = snd s \<and> all_held (fst s) g"
proof -
  obtain r d where L: "ListTasks entries (ag_store (fst s)) = (r, d)" by (metis surj_pair)
  let ?g = "(fst s)\<lparr>ag_store := d\<rparr>"
  from ListTasks_stored [OF L] have h: "all_held (fst s) ?g" by (auto intro: holds_all holds_same)
  show ?thesis
  proof (cases r)
    case (Inr vs)
    with ListTasks_stored [OF L] assms have "\<forall>v \<in> set vs. \<exists>u. task_at (t_ID v) ?g = Some u"
      by (fastforce simp: no_open_run_def tasks_filed_def same_tasks_def)
    from recover_tasks_holds [of "(?g, snd s)", OF _ _, of vs srv envs 0] this all_held_no_open_run [OF h assms] all_held_trans [OF h] L Inr show ?thesis
      by (auto simp: RecoverIncomplete_def split: option.splits)
  qed (use L h in \<open>simp add: RecoverIncomplete_def\<close>)
qed

definition interrupted_task :: Task where
  "interrupted_task = demo_task\<lparr>t_State := Executing, t_PendingAction := ''{}''\<rparr>"

definition interrupted_agent :: agent where
  "interrupted_agent = sample_agent\<lparr>ag_store := reliable [store_path ''tasks'' ''t1'' \<mapsto> Valid (TaskDoc interrupted_task)]\<rparr>"

lemma interrupted_at: "task_at i interrupted_agent = (if i = ''t1'' then Some interrupted_task else None)"
  by (simp add: task_at_def interrupted_agent_def store_path_def)

lemma interrupted_in_flight: "in_flight interrupted_task" "t_ID interrupted_task = ''t1''"
  by (simp_all add: in_flight_def interrupted_task_def demo_task_def)


theorem recovery_repeats_no_action_witness:
  "\<forall>(srv :: nat Server) envs. \<exists>es g. RecoverIncomplete srv envs [(''t1.json'', False)] (interrupted_agent, 7) = Some (es, g, 7) \<and> task_at ''t1'' g \<noteq> None"
proof (intro allI)
  fix srv :: "nat Server" and envs
  have "no_open_run interrupted_agent" using interrupted_in_flight by (auto simp: no_open_run_def tasks_filed_def interrupted_at split: if_splits)
  with recovery_repeats_no_action [of "(interrupted_agent, 7)" srv envs "[(''t1.json'', False)]"]
  obtain es g where R: "RecoverIncomplete srv envs [(''t1.json'', False)] (interrupted_agent, 7) = Some (es, g, 7)" and h: "all_held interrupted_agent g"
    by (auto split: option.splits)
  from all_held_Some [OF h, of "''t1''"] have "task_at ''t1'' g \<noteq> None" by (auto simp: interrupted_at)
  with R show "\<exists>es g. RecoverIncomplete srv envs [(''t1.json'', False)] (interrupted_agent, 7) = Some (es, g, 7) \<and> task_at ''t1'' g \<noteq> None" by blast
qed

end
