(* ===== verification/Hub.thy ===== *)
theory Hub
  imports Storage
begin

text \<open>
  \<open>internal/api/hub.go\<close>: the hub that passes the events of running tasks to the clients of the user interface, with a window of the last 200 events of each task for clients that
  reconnect. Channels are addresses into a list of buffers; sending on a closed channel and closing one twice are panics, the value \<open>None\<close>. The mutex makes the operations sequential.
\<close>

record RuntimeEvent =
  rv_Sequence :: uint64
  rv_Type :: string
  rv_TaskID :: string
  rv_State :: State
  rv_Message :: string
  rv_Timestamp :: timestamp

text \<open>A channel is its buffer and whether it is open.\<close>

type_synonym channel = "RuntimeEvent list \<times> bool"

record eventHub =
  eh_history :: "string \<Rightarrow> RuntimeEvent list"
  eh_next :: "string \<Rightarrow> uint64"
  eh_subscribers :: "string \<Rightarrow> nat list"
  eh_chans :: "channel list"

record replayWindow =
  rw_Events :: "RuntimeEvent list"
  rw_Oldest :: uint64
  rw_Latest :: uint64
  rw_Gap :: bool

definition newEventHub :: eventHub where
  "newEventHub = \<lparr>eh_history = (\<lambda>_. []), eh_next = (\<lambda>_. 0), eh_subscribers = (\<lambda>_. []), eh_chans = []\<rparr>"

definition send :: "RuntimeEvent \<Rightarrow> nat \<Rightarrow> channel list \<Rightarrow> channel list option" where
  "send e c chans =
     (if \<not> snd (chans ! c) then None
      else Some (if length (fst (chans ! c)) < 32 then chans[c := (fst (chans ! c) @ [e], True)] else chans))"

fun send_all :: "RuntimeEvent \<Rightarrow> nat list \<Rightarrow> channel list \<Rightarrow> channel list option" where
  "send_all e [] chans = Some chans"
| "send_all e (c # cs) chans = Option.bind (send e c chans) (send_all e cs)"

definition retain :: "'a list \<Rightarrow> 'a list" where
  "retain history = (if length history > 200 then drop (length history - 200) history else history)"

definition publish :: "RuntimeEvent \<Rightarrow> eventHub \<Rightarrow> eventHub option" where
  "publish e h =
     (let t = rv_TaskID e; n = eh_next h t + 1; e = e\<lparr>rv_Sequence := n\<rparr> in
      map_option (\<lambda>chans. h\<lparr>eh_next := (eh_next h)(t := n), eh_history := (eh_history h)(t := retain (eh_history h t @ [e])), eh_chans := chans\<rparr>)
        (send_all e (eh_subscribers h t) (eh_chans h)))"

definition window :: "string \<Rightarrow> uint64 \<Rightarrow> eventHub \<Rightarrow> replayWindow" where
  "window t after h =
     (let retained = eh_history h t; latest = eh_next h t; oldest = (case retained of [] \<Rightarrow> 0 | e # _ \<Rightarrow> rv_Sequence e) in
      \<lparr>rw_Events = filter (\<lambda>e. rv_Sequence e > after) retained, rw_Oldest = oldest, rw_Latest = latest,
       rw_Gap = (after > 0 \<and> (after > latest \<or> retained = [] \<and> latest = 0 \<or> retained \<noteq> [] \<and> after + 1 < oldest))\<rparr>)"

definition subscribe :: "string \<Rightarrow> uint64 \<Rightarrow> eventHub \<Rightarrow> replayWindow \<times> nat \<times> eventHub" where
  "subscribe t after h =
     (let c = length (eh_chans h) in
      (window t after h, c, h\<lparr>eh_chans := eh_chans h @ [([], True)], eh_subscribers := (eh_subscribers h)(t := eh_subscribers h t @ [c])\<rparr>))"

text \<open>The function that \<open>subscribe\<close> returns.\<close>

definition unsubscribe :: "string \<Rightarrow> nat \<Rightarrow> eventHub \<Rightarrow> eventHub option" where
  "unsubscribe t c h =
     (if \<not> snd (eh_chans h ! c) then None
      else Some (h\<lparr>eh_subscribers := (eh_subscribers h)(t := remove1 c (eh_subscribers h t)), eh_chans := (eh_chans h)[c := (fst (eh_chans h ! c), False)]\<rparr>))"

definition receive :: "nat \<Rightarrow> eventHub \<Rightarrow> RuntimeEvent option \<times> eventHub" where
  "receive c h = (case eh_chans h ! c of ([], _) \<Rightarrow> (None, h) | (e # es, op) \<Rightarrow> (Some e, h\<lparr>eh_chans := (eh_chans h)[c := (es, op)]\<rparr>))"

text \<open>The hub at work: what was published and what was received, in order. A handler unsubscribes the channel it subscribed, once.\<close>

inductive hub_steps :: "eventHub \<Rightarrow> RuntimeEvent list \<Rightarrow> (nat \<times> RuntimeEvent) list \<Rightarrow> eventHub \<Rightarrow> bool" where
  start: "hub_steps h [] [] h"
| published: "hub_steps h0 es rs h \<Longrightarrow> publish e h = Some h' \<Longrightarrow> hub_steps h0 (es @ [e]) rs h'"
| subscribed: "hub_steps h0 es rs h \<Longrightarrow> subscribe t after h = (w, c, h') \<Longrightarrow> hub_steps h0 es rs h'"
| unsubscribed: "hub_steps h0 es rs h \<Longrightarrow> c \<in> set (eh_subscribers h t) \<Longrightarrow> unsubscribe t c h = Some h' \<Longrightarrow> hub_steps h0 es rs h'"
| received: "hub_steps h0 es rs h \<Longrightarrow> c < length (eh_chans h) \<Longrightarrow> receive c h = (Some e, h') \<Longrightarrow> hub_steps h0 es (rs @ [(c, e)]) h'"

subsection \<open>Invariant\<close>

definition hub_ok :: "eventHub \<Rightarrow> bool" where
  "hub_ok h \<longleftrightarrow> (\<forall>t. distinct (eh_subscribers h t)) \<and> (\<forall>t. \<forall>c \<in> set (eh_subscribers h t). c < length (eh_chans h) \<and> snd (eh_chans h ! c))
     \<and> (\<forall>t u c. c \<in> set (eh_subscribers h t) \<longrightarrow> c \<in> set (eh_subscribers h u) \<longrightarrow> t = u)"

lemma hub_ok_new [simp]: "hub_ok newEventHub"
  by (simp add: hub_ok_def newEventHub_def)

text \<open>What is sent reaches every open buffer with room.\<close>

lemma send_all_open:
  assumes "distinct cs" "\<forall>c \<in> set cs. c < length chans \<and> snd (chans ! c)"
  obtains chans' where "send_all e cs chans = Some chans'" "length chans' = length chans"
    "\<And>c. c < length chans \<Longrightarrow> chans' ! c = (if c \<in> set cs \<and> length (fst (chans ! c)) < 32 then (fst (chans ! c) @ [e], True) else chans ! c)"
  using assms
proof (induction cs arbitrary: chans thesis)
  case (Cons c cs)
  let ?chans = "if length (fst (chans ! c)) < 32 then chans[c := (fst (chans ! c) @ [e], True)] else chans"
  have s: "send e c chans = Some ?chans" using Cons.prems by (simp add: send_def)
  have "\<forall>d \<in> set cs. d < length ?chans \<and> snd (?chans ! d)" using Cons.prems by (auto simp: nth_list_update)
  with Cons.IH [of ?chans] Cons.prems(2) obtain chans' where c: "send_all e cs ?chans = Some chans'" "length chans' = length ?chans"
    "\<And>d. d < length ?chans \<Longrightarrow> chans' ! d = (if d \<in> set cs \<and> length (fst (?chans ! d)) < 32 then (fst (?chans ! d) @ [e], True) else ?chans ! d)" by auto
  show ?case
  proof (rule Cons.prems(1))
    show "send_all e (c # cs) chans = Some chans'" using s c(1) by simp
    show "length chans' = length chans" using c(2) by simp
    show "chans' ! d = (if d \<in> set (c # cs) \<and> length (fst (chans ! d)) < 32 then (fst (chans ! d) @ [e], True) else chans ! d)" if "d < length chans" for d
      using c(3) [of d] that Cons.prems(2,3) by (cases "d = c") auto
  qed
qed simp

lemma publish_ok:
  assumes "hub_ok h"
  obtains h' where "publish e h = Some h'" "hub_ok h'"
    "eh_next h' = (eh_next h)(rv_TaskID e := eh_next h (rv_TaskID e) + 1)"
    "eh_history h' = (eh_history h)(rv_TaskID e := retain (eh_history h (rv_TaskID e) @ [e\<lparr>rv_Sequence := eh_next h (rv_TaskID e) + 1\<rparr>]))"
    "eh_subscribers h' = eh_subscribers h" "length (eh_chans h') = length (eh_chans h)"
    "\<And>c. c < length (eh_chans h) \<Longrightarrow> eh_chans h' ! c = (if c \<in> set (eh_subscribers h (rv_TaskID e)) \<and> length (fst (eh_chans h ! c)) < 32
       then (fst (eh_chans h ! c) @ [e\<lparr>rv_Sequence := eh_next h (rv_TaskID e) + 1\<rparr>], True) else eh_chans h ! c)"
proof -
  let ?t = "rv_TaskID e" and ?e = "e\<lparr>rv_Sequence := eh_next h (rv_TaskID e) + 1\<rparr>"
  have "distinct (eh_subscribers h ?t)" "\<forall>c \<in> set (eh_subscribers h ?t). c < length (eh_chans h) \<and> snd (eh_chans h ! c)" using assms by (auto simp: hub_ok_def)
  then obtain chans where c: "send_all ?e (eh_subscribers h ?t) (eh_chans h) = Some chans" "length chans = length (eh_chans h)"
    "\<And>c. c < length (eh_chans h) \<Longrightarrow> chans ! c = (if c \<in> set (eh_subscribers h ?t) \<and> length (fst (eh_chans h ! c)) < 32 then (fst (eh_chans h ! c) @ [?e], True) else eh_chans h ! c)"
    by (rule send_all_open [where e = ?e]) blast
  have "hub_ok (h\<lparr>eh_next := f, eh_history := g, eh_chans := chans\<rparr>)" for f g using assms c(2,3) by (auto simp: hub_ok_def)
  with c show ?thesis
    by (intro that [of "h\<lparr>eh_next := (eh_next h)(?t := eh_next h ?t + 1), eh_history := (eh_history h)(?t := retain (eh_history h ?t @ [?e])), eh_chans := chans\<rparr>"])
      (simp_all add: publish_def Let_def)
qed

lemma subscribe_ok:
  assumes "hub_ok h" "subscribe t after h = (w, c, h')"
  shows "hub_ok h'" "c = length (eh_chans h)" "eh_chans h' = eh_chans h @ [([], True)]" "eh_subscribers h' = (eh_subscribers h)(t := eh_subscribers h t @ [c])"
    "eh_next h' = eh_next h" "eh_history h' = eh_history h" "w = window t after h"
proof -
  show e: "c = length (eh_chans h)" "eh_chans h' = eh_chans h @ [([], True)]" "eh_subscribers h' = (eh_subscribers h)(t := eh_subscribers h t @ [c])"
    "eh_next h' = eh_next h" "eh_history h' = eh_history h" "w = window t after h"
    using assms(2) by (auto simp: subscribe_def Let_def)
  have lt: "d < c \<and> snd (eh_chans h ! d)" if "d \<in> set (eh_subscribers h u)" for d u using that assms(1) e(1) by (auto simp: hub_ok_def)
  then have new: "c \<notin> set (eh_subscribers h u)" for u by blast
  have "distinct (eh_subscribers h' u)" for u using assms(1) new by (simp add: e(3) hub_ok_def)
  moreover have "d < length (eh_chans h') \<and> snd (eh_chans h' ! d)" if "d \<in> set (eh_subscribers h' u)" for d u
    using that lt by (fastforce simp: e nth_append split: if_splits)
  moreover have "u = v" if "d \<in> set (eh_subscribers h' u)" "d \<in> set (eh_subscribers h' v)" for d u v
    using that new assms(1) by (auto simp: e(3) hub_ok_def split: if_splits)
  ultimately show "hub_ok h'" unfolding hub_ok_def by blast
qed

lemma unsubscribe_ok:
  assumes "hub_ok h" "c \<in> set (eh_subscribers h t)"
  obtains h' where "unsubscribe t c h = Some h'" "hub_ok h'" "eh_subscribers h' = (eh_subscribers h)(t := remove1 c (eh_subscribers h t))"
    "eh_chans h' = (eh_chans h)[c := (fst (eh_chans h ! c), False)]" "eh_next h' = eh_next h" "eh_history h' = eh_history h"
proof -
  let ?h = "h\<lparr>eh_subscribers := (eh_subscribers h)(t := remove1 c (eh_subscribers h t)), eh_chans := (eh_chans h)[c := (fst (eh_chans h ! c), False)]\<rparr>"
  have d: "distinct (eh_subscribers h u)" for u using assms(1) by (simp add: hub_ok_def)
  have sub: "d \<in> set (eh_subscribers h u) \<and> d \<noteq> c" if "d \<in> set (eh_subscribers ?h u)" for d u
  proof (cases "u = t")
    case True
    with that d [of t] show ?thesis by (simp add: set_remove1_eq)
  next
    case False
    with that assms show ?thesis by (auto simp: hub_ok_def)
  qed
  have "distinct (eh_subscribers ?h u)" for u using d [of u] d [of t] by simp
  moreover have "e < length (eh_chans ?h) \<and> snd (eh_chans ?h ! e)" if "e \<in> set (eh_subscribers ?h u)" for e u
    using sub [OF that] assms(1) by (auto simp: hub_ok_def)
  moreover have "u = v" if "e \<in> set (eh_subscribers ?h u)" "e \<in> set (eh_subscribers ?h v)" for e u v
    using sub [OF that(1)] sub [OF that(2)] assms(1) by (auto simp: hub_ok_def)
  ultimately have "hub_ok ?h" unfolding hub_ok_def by blast
  moreover have "unsubscribe t c h = Some ?h" using assms by (auto simp: unsubscribe_def hub_ok_def)
  ultimately show ?thesis by (intro that [of ?h]) simp_all
qed

lemma receive_ok:
  assumes "receive c h = (Some e, h')" "c < length (eh_chans h)"
  shows "eh_chans h ! c = (e # fst (eh_chans h' ! c), snd (eh_chans h' ! c))" "\<And>d. d \<noteq> c \<Longrightarrow> eh_chans h' ! d = eh_chans h ! d" "length (eh_chans h') = length (eh_chans h)"
    "eh_subscribers h' = eh_subscribers h" "eh_next h' = eh_next h" "eh_history h' = eh_history h" "hub_ok h \<Longrightarrow> hub_ok h'"
proof -
  from assms(1) obtain es op where b: "eh_chans h ! c = (e # es, op)" "h' = h\<lparr>eh_chans := (eh_chans h)[c := (es, op)]\<rparr>"
    by (auto simp: receive_def split: prod.splits list.splits)
  with assms(2) show "eh_chans h ! c = (e # fst (eh_chans h' ! c), snd (eh_chans h' ! c))" "\<And>d. d \<noteq> c \<Longrightarrow> eh_chans h' ! d = eh_chans h ! d" "length (eh_chans h') = length (eh_chans h)"
    "eh_subscribers h' = eh_subscribers h" "eh_next h' = eh_next h" "eh_history h' = eh_history h" by simp_all
  assume ok: "hub_ok h"
  have "snd ((eh_chans h)[c := (es, op)] ! d) = snd (eh_chans h ! d)" for d using b(1) assms(2) by (cases "d = c") simp_all
  with ok show "hub_ok h'" by (simp add: b(2) hub_ok_def)
qed

lemma hub_steps_ok: "hub_steps h0 es rs h \<Longrightarrow> hub_ok h0 \<Longrightarrow> hub_ok h"
proof (induction rule: hub_steps.induct)
  case (published h0 es rs h e h')
  with publish_ok [of h e] show ?case by (metis option.inject)
next
  case (subscribed h0 es rs h t after w c h')
  then show ?case using subscribe_ok(1) by blast
next
  case (unsubscribed h0 es rs h c t h')
  with unsubscribe_ok [of h c t] show ?case by (metis option.inject)
next
  case (received h0 es rs h c e h')
  then show ?case using receive_ok(7) by blast
qed

subsection \<open>Events of a task\<close>

definition events_of :: "string \<Rightarrow> RuntimeEvent list \<Rightarrow> RuntimeEvent list" where
  "events_of t es = filter (\<lambda>e. rv_TaskID e = t) es"

text \<open>The events of a task with the numbers 1, 2, \<dots> they were sent with.\<close>

definition numbered :: "RuntimeEvent list \<Rightarrow> RuntimeEvent list" where
  "numbered es = map (\<lambda>(i, e). e\<lparr>rv_Sequence := of_nat i\<rparr>) (enumerate 1 es)"

lemma length_numbered [simp]: "length (numbered es) = length es"
  by (simp add: numbered_def)

lemma numbered_snoc: "numbered (es @ [e]) = numbered es @ [e\<lparr>rv_Sequence := of_nat (length es) + 1\<rparr>]"
  by (simp add: numbered_def enumerate_append_eq add.commute)

lemma numbered_append: "numbered (es @ fs) = numbered es @ drop (length es) (numbered (es @ fs))"
  by (simp add: numbered_def enumerate_append_eq)

lemma nth_numbered: "i < length es \<Longrightarrow> rv_Sequence (numbered es ! i) = of_nat (Suc i)"
  by (simp add: numbered_def nth_enumerate_eq)

lemma events_of_append [simp]: "events_of t (es @ fs) = events_of t es @ events_of t fs"
  by (simp add: events_of_def)

lemma events_of_single: "events_of t [e] = (if rv_TaskID e = t then [e] else [])"
  by (simp add: events_of_def)

lemma filter_eq_drop: "(\<And>i. i < length xs \<Longrightarrow> P (xs ! i) \<longleftrightarrow> n \<le> i) \<Longrightarrow> filter P xs = drop n xs"
proof (induction xs arbitrary: n)
  case (Cons x xs)
  show ?case
  proof (cases n)
    case 0
    with Cons.prems have "\<forall>y \<in> set (x # xs). P y" by (metis in_set_conv_nth le0)
    with 0 show ?thesis by (simp only: drop_0 filter_id_conv)
  next
    case (Suc m)
    with Cons.prems [of 0] have "\<not> P x" by simp
    moreover have "filter P xs = drop m xs" using Cons.IH [of m] Cons.prems [of "Suc i" for i] Suc by simp
    ultimately show ?thesis using Suc by simp
  qed
qed simp

definition last200 :: "'a list \<Rightarrow> 'a list" where
  "last200 xs = drop (length xs - 200) xs"

lemma retain_last200: "retain (last200 xs @ [x]) = last200 (xs @ [x])"
proof -
  have "Suc (length xs - 200) = length xs - 199" if "200 \<le> length xs" using that by simp
  then show ?thesis by (auto simp: retain_def last200_def)
qed

text \<open>The hub holds the last 200 events of every task with their numbers, and the next number.\<close>

lemma hub_history:
  "hub_steps newEventHub es rs h \<Longrightarrow> eh_next h t = of_nat (length (events_of t es)) \<and> eh_history h t = last200 (numbered (events_of t es))"
proof (induction newEventHub es rs h rule: hub_steps.induct)
  case start
  show ?case by (simp add: newEventHub_def events_of_def last200_def numbered_def)
next
  case (published es rs h e h')
  from hub_steps_ok [OF published(1)] obtain k where k: "publish e h = Some k" "eh_next k = (eh_next h)(rv_TaskID e := eh_next h (rv_TaskID e) + 1)"
    "eh_history k = (eh_history h)(rv_TaskID e := retain (eh_history h (rv_TaskID e) @ [e\<lparr>rv_Sequence := eh_next h (rv_TaskID e) + 1\<rparr>]))"
    using publish_ok [of h e] by (metis hub_ok_new)
  with published show ?case by (auto simp: events_of_single numbered_snoc retain_last200)
next
  case (subscribed es rs h t' after w c h')
  with hub_steps_ok [OF subscribed(1)] subscribe_ok(5,6) [of h t' after w c h'] show ?case by simp
next
  case (unsubscribed es rs h c t' h')
  with hub_steps_ok [OF unsubscribed(1)] unsubscribe_ok [of h c t'] show ?case by (metis hub_ok_new option.inject)
next
  case (received es rs h c e h')
  with receive_ok(5,6) show ?case by metis
qed

lemma filter_later:
  assumes "length es < 2 ^ 64"
  shows "filter (\<lambda>e. rv_Sequence e > after) (drop k (numbered es)) = drop (max (unat after) k) (numbered es)"
proof (cases "k < length es")
  case True
  have later: "rv_Sequence (numbered es ! i) > after \<longleftrightarrow> unat after \<le> i" if "i < length es" for i
  proof -
    have "unat (of_nat (Suc i) :: uint64) = Suc i" using that assms by (simp only: unat_of_nat) simp
    then show ?thesis by (simp only: nth_numbered [OF that] word_less_nat_alt) auto
  qed
  have "filter (\<lambda>e. rv_Sequence e > after) (drop k (numbered es)) = drop (unat after - k) (drop k (numbered es))"
  proof (rule filter_eq_drop)
    fix i
    assume "i < length (drop k (numbered es))"
    with later [of "k + i"] show "(rv_Sequence (drop k (numbered es) ! i) > after) \<longleftrightarrow> unat after - k \<le> i" by auto
  qed
  then show ?thesis by (simp add: max_def add.commute)
qed simp

lemma window_exact:
  assumes "hub_steps newEventHub es rs h" and small: "Suc (length (events_of t es)) < 2 ^ 64"
  defines "n \<equiv> length (events_of t es)"
  shows "rw_Events (window t after h) = drop (max (unat after) (n - 200)) (numbered (events_of t es))"
    "rw_Gap (window t after h) \<longleftrightarrow> 0 < after \<and> (n < unat after \<or> unat after < n - 200)"
proof -
  from small have lt: "length (events_of t es) < 2 ^ 64" by simp
  from hub_history [OF assms(1), of t] have h: "eh_next h t = of_nat n" "eh_history h t = drop (n - 200) (numbered (events_of t es))"
    by (simp_all add: last200_def n_def)
  from filter_later [OF lt] show "rw_Events (window t after h) = drop (max (unat after) (n - 200)) (numbered (events_of t es))"
    by (simp add: window_def Let_def h)
  have n: "unat (of_nat n :: uint64) = n" using lt by (simp only: unat_of_nat n_def) simp
  have latest: "after > of_nat n \<longleftrightarrow> n < unat after" by (simp add: word_less_nat_alt n)
  show "rw_Gap (window t after h) \<longleftrightarrow> 0 < after \<and> (n < unat after \<or> unat after < n - 200)"
  proof (cases "n = 0")
    case True
    then show ?thesis by (auto simp: window_def Let_def h n_def word_less_nat_alt)
  next
    case False
    let ?k = "n - 200"
    have k: "?k < length (events_of t es)" using False by (simp add: n_def)
    then have hd: "eh_history h t = numbered (events_of t es) ! ?k # drop (Suc ?k) (numbered (events_of t es))" by (simp add: h(2) Cons_nth_drop_Suc)
    have o: "unat (of_nat (Suc ?k) :: uint64) = Suc ?k" using k lt by (simp only: unat_of_nat) simp
    have "after + 1 < of_nat (Suc ?k) \<longleftrightarrow> unat after < ?k" if "\<not> n < unat after"
    proof -
      have u: "unat (after + 1) = unat after + 1" using that small unat_add_lem [of after 1] by (simp add: n_def)
      show ?thesis unfolding word_less_nat_alt u o by simp
    qed
    then show ?thesis by (auto simp: window_def Let_def hd nth_numbered [OF k] latest h(1) simp del: of_nat_Suc)
  qed
qed

subsection \<open>What a subscriber gets\<close>

definition received_on :: "nat \<Rightarrow> (nat \<times> RuntimeEvent) list \<Rightarrow> RuntimeEvent list" where
  "received_on c rs = map snd (filter (\<lambda>r. fst r = c) rs)"

text \<open>Received from the channel or waiting in its buffer.\<close>

definition delivered :: "nat \<Rightarrow> (nat \<times> RuntimeEvent) list \<Rightarrow> eventHub \<Rightarrow> RuntimeEvent list" where
  "delivered c rs h = received_on c rs @ fst (eh_chans h ! c)"

text \<open>The state of the subscription \<open>c\<close> to the task \<open>t\<close> after events with the numbers in \<open>sent\<close>.\<close>

definition subscription :: "string \<Rightarrow> nat \<Rightarrow> RuntimeEvent list \<Rightarrow> (nat \<times> RuntimeEvent) list \<Rightarrow> eventHub \<Rightarrow> bool" where
  "subscription t c sent rs h \<longleftrightarrow> c < length (eh_chans h) \<and> (\<forall>u. u \<noteq> t \<longrightarrow> c \<notin> set (eh_subscribers h u))
     \<and> subseq (delivered c rs h) sent \<and> (c \<in> set (eh_subscribers h t) \<longrightarrow> length sent \<le> 32 \<longrightarrow> delivered c rs h = sent)"

lemma subscription_publish:
  assumes "subscription t c sent rs h" "hub_ok h" "publish e h = Some h'"
  shows "subscription t c (if rv_TaskID e = t then sent @ [e\<lparr>rv_Sequence := eh_next h t + 1\<rparr>] else sent) rs h'"
proof -
  let ?e = "e\<lparr>rv_Sequence := eh_next h (rv_TaskID e) + 1\<rparr>"
  from publish_ok [OF assms(2), of e] assms(3) obtain h: "eh_subscribers h' = eh_subscribers h" "length (eh_chans h') = length (eh_chans h)"
    "\<And>c. c < length (eh_chans h) \<Longrightarrow> eh_chans h' ! c = (if c \<in> set (eh_subscribers h (rv_TaskID e)) \<and> length (fst (eh_chans h ! c)) < 32 then (fst (eh_chans h ! c) @ [?e], True) else eh_chans h ! c)"
    by (metis option.inject)
  from assms(1) have c: "c < length (eh_chans h)" "\<And>u. u \<noteq> t \<Longrightarrow> c \<notin> set (eh_subscribers h u)" "subseq (delivered c rs h) sent"
    "c \<in> set (eh_subscribers h t) \<Longrightarrow> length sent \<le> 32 \<Longrightarrow> delivered c rs h = sent" by (auto simp: subscription_def)
  show ?thesis
  proof (cases "rv_TaskID e = t")
    case False
    then have "eh_chans h' ! c = eh_chans h ! c" using h(3) [OF c(1)] c(2) by auto
    with False assms(1) h show ?thesis by (simp add: subscription_def delivered_def)
  next
    case True
    have room: "length (fst (eh_chans h ! c)) < 32" if "c \<in> set (eh_subscribers h t)" "length sent < 32"
      using c(4) that by (auto simp: delivered_def dest!: arg_cong [where f = length])
    have "delivered c rs h' = delivered c rs h @ [?e] \<or> delivered c rs h' = delivered c rs h" using h(3) [OF c(1)] by (auto simp: delivered_def)
    then have "subseq (delivered c rs h') (sent @ [?e])" using c(3) by (auto intro: subseq_append')
    moreover have "delivered c rs h' = sent @ [?e]" if "c \<in> set (eh_subscribers h t)" "length sent < 32"
      using room that c(4) h(3) [OF c(1)] True by (simp add: delivered_def)
    ultimately show ?thesis using True c(1,2) h by (simp add: subscription_def)
  qed
qed

lemma subscription_steps:
  assumes "hub_steps h1 es rs h" "hub_ok h1" "subscription t c [] [] h1" "eh_next h1 t = of_nat n"
  shows "subscription t c (map (\<lambda>(i, e). e\<lparr>rv_Sequence := of_nat i\<rparr>) (enumerate (Suc n) (events_of t es))) rs h \<and> eh_next h t = of_nat (n + length (events_of t es))"
  using assms
proof (induction h1 es rs h rule: hub_steps.induct)
  case (start h)
  then show ?case by (simp add: events_of_def)
next
  case (published h1 es rs h e h')
  then have IH: "subscription t c (map (\<lambda>(i, e). e\<lparr>rv_Sequence := of_nat i\<rparr>) (enumerate (Suc n) (events_of t es))) rs h" "eh_next h t = of_nat (n + length (events_of t es))" by simp_all
  have ok: "hub_ok h" using hub_steps_ok published by blast
  from publish_ok [OF ok, of e] published(2) have "eh_next h' = (eh_next h)(rv_TaskID e := eh_next h (rv_TaskID e) + 1)" by (metis option.inject)
  with subscription_publish [OF IH(1) ok published(2)] IH(2) show ?case
    by (auto simp: events_of_single enumerate_append_eq add.commute add.left_commute)
next
  case (subscribed h1 es rs h t' after w d h')
  then have ok: "hub_ok h" using hub_steps_ok by blast
  from subscribe_ok [OF ok subscribed(2)] subscribed show ?case by (auto simp: subscription_def delivered_def nth_append)
next
  case (unsubscribed h1 es rs h d t' h')
  then have ok: "hub_ok h" using hub_steps_ok by blast
  from unsubscribe_ok [OF ok unsubscribed(2)] unsubscribed(3) have k: "eh_subscribers h' = (eh_subscribers h)(t' := remove1 d (eh_subscribers h t'))"
    "eh_chans h' = (eh_chans h)[d := (fst (eh_chans h ! d), False)]" "eh_next h' = eh_next h" by (metis option.inject)+
  have "delivered c rs h' = delivered c rs h" if "c < length (eh_chans h)" using that by (cases "d = c") (simp_all add: delivered_def k)
  with unsubscribed k show ?case by (auto simp: subscription_def dest: notin_set_remove1 split: if_splits)
next
  case (received h1 es rs h d e h')
  from receive_ok [OF received(3,2)] have k: "eh_subscribers h' = eh_subscribers h" "length (eh_chans h') = length (eh_chans h)" "eh_next h' = eh_next h"
    "eh_chans h ! d = (e # fst (eh_chans h' ! d), snd (eh_chans h' ! d))" "\<And>x. x \<noteq> d \<Longrightarrow> eh_chans h' ! x = eh_chans h ! x" by simp_all
  have "delivered c (rs @ [(d, e)]) h' = delivered c rs h" using arg_cong [OF k(4), of fst] by (cases "d = c") (simp_all add: delivered_def received_on_def k(5))
  with received k show ?case by (simp add: subscription_def)
qed


definition sample_event :: RuntimeEvent where
  "sample_event = \<lparr>rv_Sequence = 0, rv_Type = ''task.progress'', rv_TaskID = ''t1'', rv_State = New, rv_Message = [], rv_Timestamp = 0\<rparr>"


end
