(* ===== verification/Api.thy ===== *)
theory Api
  imports Orchestration Hub
begin

text \<open>
  \<open>internal/api/server.go\<close>: the handlers of the HTTP interface that read and change sessions, tasks and approvals, start runs and stream events, and the mutable state they share: the sessions with
  a running task, the channel of task slots and the event hub. A request body is the answer of \<open>decodeJSON\<close>, a response its status and what is encoded into its body. The mutexes make
  each handler's critical section one step; a panic is the value \<open>None\<close>.
\<close>

subsection \<open>Configuration\<close>

record Limits =
  lm_MaxConcurrentTasks :: int
  lm_MaxSessions :: int
  lm_MaxTasks :: int

definition defaultLimits :: Limits where
  "defaultLimits = \<lparr>lm_MaxConcurrentTasks = 8, lm_MaxSessions = 1000, lm_MaxTasks = 10000\<rparr>"

definition WithLimits :: "Limits \<Rightarrow> Limits \<Rightarrow> Limits" where
  "WithLimits limits server =
     \<lparr>lm_MaxConcurrentTasks = (if lm_MaxConcurrentTasks limits > 0 then lm_MaxConcurrentTasks limits else lm_MaxConcurrentTasks server),
      lm_MaxSessions = (if lm_MaxSessions limits > 0 then lm_MaxSessions limits else lm_MaxSessions server),
      lm_MaxTasks = (if lm_MaxTasks limits > 0 then lm_MaxTasks limits else lm_MaxTasks server)\<rparr>"

text \<open>What does not change after \<open>New\<close>, and what does. \<open>ap_slots\<close> is the number of values in the channel \<open>taskSlots\<close>.\<close>

record 'x api =
  av_agent :: "'x Server option"
  av_approvals :: bool
  av_resumer :: "'x ApprovalResumer option"
  av_limits :: Limits

record 'x api_state =
  ap_agent :: agent
  ap_world :: 'x
  ap_running :: "string set"
  ap_slots :: nat
  ap_hub :: eventHub

text \<open>What a request finds: the entries of the directories, the clock, fresh ids.\<close>

record api_env =
  aq_sessions :: "(string \<times> bool) list"
  aq_tasks :: "(string \<times> bool) list"
  aq_approvals :: "(string \<times> bool) list"
  aq_clock :: "string \<Rightarrow> timestamp \<times> timestamp"
  aq_now :: timestamp
  aq_id :: string
  aq_run :: run_env
  aq_resume :: resume_env

definition New_api :: "agent \<Rightarrow> 'x \<Rightarrow> 'x api_state" where
  "New_api g x = \<lparr>ap_agent = g, ap_world = x, ap_running = {}, ap_slots = 0, ap_hub = newEventHub\<rparr>"

subsection \<open>Responses\<close>

datatype body =
    ErrorBody go_error
  | SessionBody Session
  | SessionsBody "Session list" string string
  | TaskBody Task
  | TasksBody "Task list" int
  | AcceptedBody string string
  | ApprovalBody Record
  | ApprovalsBody "Record list"
  | ResolvedBody Record Task "go_error option"
  | TraceBody "Event list"

type_synonym response = "nat \<times> body"

definition writeError :: "nat \<Rightarrow> go_error \<Rightarrow> response" where
  "writeError status e = (status, ErrorBody e)"

definition writeLimitError :: "string \<Rightarrow> response" where
  "writeLimitError message = writeError 429 (ErrorNew message)"

definition writeRetentionError :: "string \<Rightarrow> response" where
  "writeRetentionError message = writeError 507 (ErrorNew message)"

text \<open>An operation of the store, of the approvals and of the trace on the state of the server.\<close>

definition on_store :: "(store \<Rightarrow> 'a \<times> store) \<Rightarrow> 'x api_state \<Rightarrow> 'a \<times> 'x api_state" where
  "on_store f st = (case f (ag_store (ap_agent st)) of (r, d) \<Rightarrow> (r, st\<lparr>ap_agent := (ap_agent st)\<lparr>ag_store := d\<rparr>\<rparr>))"

definition on_approvals :: "(approvals \<Rightarrow> 'a \<times> approvals) \<Rightarrow> 'x api_state \<Rightarrow> 'a \<times> 'x api_state" where
  "on_approvals f st = (case f (ag_approvals (ap_agent st)) of (r, d) \<Rightarrow> (r, st\<lparr>ap_agent := (ap_agent st)\<lparr>ag_approvals := d\<rparr>\<rparr>))"

definition on_trace :: "(trace_disk \<Rightarrow> 'a \<times> trace_disk) \<Rightarrow> 'x api_state \<Rightarrow> 'a \<times> 'x api_state" where
  "on_trace f st = (case f (ag_trace (ap_agent st)) of (r, d) \<Rightarrow> (r, st\<lparr>ap_agent := (ap_agent st)\<lparr>ag_trace := d\<rparr>\<rparr>))"

definition terminal :: "State \<Rightarrow> bool" where
  "terminal st \<longleftrightarrow> st = Completed \<or> st = Failed \<or> st = Cancelled"

subsection \<open>Sessions\<close>

definition createSession :: "'x api \<Rightarrow> api_env \<Rightarrow> string result \<Rightarrow> 'x api_state \<Rightarrow> response \<times> 'x api_state" where
  "createSession srv env input st =
     (case input of Inl e \<Rightarrow> (writeError 400 e, st)
      | Inr name \<Rightarrow>
        let name = (if TrimSpace name = [] then hx ''e696b0e4bc9ae8af9d'' else name) in
        if length (runes (TrimSpace name)) > 128 then (writeError 400 (ErrorNew ''session name must not exceed 128 characters''), st)
        else (case on_store (ListSessions (aq_sessions env)) st of
            (Inl e, st) \<Rightarrow> (writeError 500 e, st)
          | (Inr values, st) \<Rightarrow>
            if int (length values) \<ge> lm_MaxSessions (av_limits srv) then (writeRetentionError ''session retention limit reached'', st)
            else let v = \<lparr>se_ID = aq_id env, se_Name = TrimSpace name, se_Archived = False, se_Messages = [], se_Summary = [], se_PinnedContext = [], se_SelectedResources = [],
                   se_CreatedAt = aq_now env, se_UpdatedAt = aq_now env\<rparr> in
              (case on_store (SaveSession v) st of (Inl e, st) \<Rightarrow> (writeError 500 e, st) | (Inr _, st) \<Rightarrow> ((201, SessionBody v), st))))"

definition sessionMatches :: "Session \<Rightarrow> string \<Rightarrow> bool" where
  "sessionMatches v query \<longleftrightarrow>
     Contains (lowered (se_Name v @ [CHR 0x0A] @ se_Summary v)) query \<or> list_ex (\<lambda>m. Contains (lowered (ms_Content m)) query) (se_Messages v)"

text \<open>\<open>q\<close> and \<open>archived\<close> are the parameters of the query.\<close>

definition listSessions :: "api_env \<Rightarrow> string \<Rightarrow> string \<Rightarrow> 'x api_state \<Rightarrow> response \<times> 'x api_state" where
  "listSessions env q archived st =
     (case on_store (ListSessions (aq_sessions env)) st of
        (Inl e, st) \<Rightarrow> (writeError 500 e, st)
      | (Inr values, st) \<Rightarrow>
        let query = lowered (TrimSpace q); arch = lowered (TrimSpace archived); arch = (if arch = [] then ''false'' else arch) in
        if length (runes query) > 128 then (writeError 400 (ErrorNew ''session search must not exceed 128 characters''), st)
        else if arch \<notin> {''false'', ''true'', ''all''} then (writeError 400 (ErrorNew ''archived must be false, true, or all''), st)
        else ((200, SessionsBody (filter (\<lambda>v. \<not> (arch = ''false'' \<and> se_Archived v \<or> arch = ''true'' \<and> \<not> se_Archived v) \<and> (query = [] \<or> sessionMatches v query)) values) query arch), st))"

record session_patch =
  sp_Name :: "string option"
  sp_Archived :: "bool option"

definition patched :: "session_patch \<Rightarrow> timestamp \<Rightarrow> Session \<Rightarrow> Session result" where
  "patched p now v =
     Inr (v\<lparr>se_Name := (case sp_Name p of None \<Rightarrow> se_Name v | Some n \<Rightarrow> TrimSpace n), se_Archived := (case sp_Archived p of None \<Rightarrow> se_Archived v | Some a \<Rightarrow> a), se_UpdatedAt := now\<rparr>)"

text \<open>The first task of a session that is not at its end.\<close>

definition active_task :: "string \<Rightarrow> Task list \<Rightarrow> Task option" where
  "active_task sid values = find (\<lambda>v. t_SessionID v = sid \<and> \<not> terminal (t_State v)) values"

definition may_archive :: "api_env \<Rightarrow> string \<Rightarrow> 'x api_state \<Rightarrow> response option \<times> 'x api_state" where
  "may_archive env sid st =
     (if sid \<in> ap_running st then (Some (writeError 409 (ErrorNew ''session has a running task'')), st)
      else (case on_store (ListTasks (aq_tasks env)) st of
          (Inl e, st) \<Rightarrow> (Some (writeError 500 e), st)
        | (Inr values, st) \<Rightarrow>
          (map_option (\<lambda>v. writeError 409 (ErrorNew (''session has active task '' @ t_ID v @ '' in state '' @ state_text (t_State v)))) (active_task sid values), st)))"

definition updateSession :: "api_env \<Rightarrow> string \<Rightarrow> session_patch result \<Rightarrow> 'x api_state \<Rightarrow> response \<times> 'x api_state" where
  "updateSession env sid input st =
     (case input of Inl e \<Rightarrow> (writeError 400 e, st)
      | Inr p \<Rightarrow>
        if sp_Name p = None \<and> sp_Archived p = None then (writeError 400 (ErrorNew ''name or archived is required''), st)
        else if (case sp_Name p of None \<Rightarrow> False | Some n \<Rightarrow> TrimSpace n = [] \<or> length (runes (TrimSpace n)) > 128) then (writeError 400 (ErrorNew ''session name must contain 1-128 characters''), st)
        else (case (if sp_Archived p = Some True then may_archive env sid st else (None, st)) of
            (Some r, st) \<Rightarrow> (r, st)
          | (None, st) \<Rightarrow>
            (case on_store (UpdateSession sid (Some (patched p (aq_now env)))) st of
               (Inl e, st) \<Rightarrow> (writeError (if errorsIs ErrNotFound e then 404 else 500) e, st)
             | (Inr v, st) \<Rightarrow> ((200, SessionBody v), st))))"

definition api_getSession :: "string \<Rightarrow> 'x api_state \<Rightarrow> response \<times> 'x api_state" where
  "api_getSession sid st =
     (case on_store (GetSession sid) st of (Inl e, st) \<Rightarrow> (writeError (if errorsIs ErrNotFound e then 404 else 500) e, st) | (Inr v, st) \<Rightarrow> ((200, SessionBody v), st))"

subsection \<open>Messages start runs\<close>

definition reserveTaskSlot :: "'x api \<Rightarrow> 'x api_state \<Rightarrow> bool \<times> 'x api_state" where
  "reserveTaskSlot srv st =
     (if int (ap_slots st) < lm_MaxConcurrentTasks (av_limits srv) then (True, st\<lparr>ap_slots := Suc (ap_slots st)\<rparr>) else (False, st))"

text \<open>A receive, which waits as long as the channel is empty; \<open>0 - 1\<close> is 0 here, and who releases holds a slot.\<close>

definition releaseTaskSlot :: "'x api_state \<Rightarrow> 'x api_state" where
  "releaseTaskSlot st = st\<lparr>ap_slots := ap_slots st - 1\<rparr>"

text \<open>The part of \<open>createMessage\<close> under both mutexes, once the session may take a message.\<close>

definition start_task :: "'x api \<Rightarrow> 'x Server \<Rightarrow> api_env \<Rightarrow> string \<Rightarrow> string \<Rightarrow> 'x api_state \<Rightarrow> response \<times> 'x api_state" where
  "start_task srv o1 env sid content st =
     (case on_store (ListTasks (aq_tasks env)) st of
        (Inl e, st) \<Rightarrow> (writeError 500 e, st)
      | (Inr tasks, st) \<Rightarrow>
        (case active_task sid tasks of
           Some v \<Rightarrow> (writeError 409 (ErrorNew (''session already has active task '' @ t_ID v @ '' in state '' @ state_text (t_State v))), st)
         | None \<Rightarrow>
           if int (length tasks) \<ge> lm_MaxTasks (av_limits srv) then (writeRetentionError ''task retention limit reached'', st)
           else (case reserveTaskSlot srv st of
               (False, st) \<Rightarrow> (writeLimitError ''concurrent task limit reached'', st)
             | (True, st) \<Rightarrow>
               let st = st\<lparr>ap_running := insert sid (ap_running st)\<rparr> in
               (case Orchestrator_Prepare o1 (aq_run env) (aq_id env) sid content (ap_agent st) of
                  ((_, Inl e), g) \<Rightarrow> (writeError 500 e, releaseTaskSlot (st\<lparr>ap_agent := g, ap_running := ap_running st - {sid}\<rparr>))
                | ((_, Inr _), g) \<Rightarrow> ((202, AcceptedBody (aq_id env) sid), st\<lparr>ap_agent := g\<rparr>)))))"

definition createMessage :: "'x api \<Rightarrow> api_env \<Rightarrow> string \<Rightarrow> string result \<Rightarrow> 'x api_state \<Rightarrow> response \<times> 'x api_state" where
  "createMessage srv env sid input st =
     (case input of Inl e \<Rightarrow> (writeError 400 e, st)
      | Inr content \<Rightarrow>
        if TrimSpace content = [] then (writeError 400 (ErrorNew ''content is required''), st)
        else (case on_store (GetSession sid) st of
            (Inl e, st) \<Rightarrow> (writeError (if errorsIs ErrNotFound e then 404 else 500) e, st)
          | (Inr current, st) \<Rightarrow>
            if se_Archived current then (writeError 409 (ErrorNew ''archived session must be restored before adding messages''), st)
            else (case av_agent srv of
                None \<Rightarrow> (writeError 503 (ErrorNew ''agent runtime is not configured''), st)
              | Some o1 \<Rightarrow>
                if sid \<in> ap_running st then (writeError 409 (ErrorNew ''session already has a running task''), st)
                else start_task srv o1 env sid (TrimSpace content) st)))"

text \<open>The goroutine that an accepted message starts: the run, and the two parts of its deferred function.\<close>

definition background_run :: "'x Server \<Rightarrow> run_env \<Rightarrow> string \<Rightarrow> string \<Rightarrow> string \<Rightarrow> 'x api_state \<Rightarrow> 'x api_state option" where
  "background_run o1 env taskID sid content st =
     map_option (\<lambda>(_, g, x). st\<lparr>ap_agent := g, ap_world := x\<rparr>) (Run o1 env taskID sid content (ap_agent st, ap_world st))"

definition end_run :: "string \<Rightarrow> 'x api_state \<Rightarrow> 'x api_state" where
  "end_run sid st = st\<lparr>ap_running := ap_running st - {sid}\<rparr>"

subsection \<open>Approvals\<close>

definition listApprovals :: "'x api \<Rightarrow> api_env \<Rightarrow> 'x api_state \<Rightarrow> response \<times> 'x api_state" where
  "listApprovals srv env st =
     (if \<not> av_approvals srv then (writeError 503 (ErrorNew ''approval store is not configured''), st)
      else (case on_approvals (List (aq_clock env) (aq_approvals env)) st of (Inl e, st) \<Rightarrow> (writeError 500 e, st) | (Inr values, st) \<Rightarrow> ((200, ApprovalsBody values), st)))"

definition getApproval :: "'x api \<Rightarrow> api_env \<Rightarrow> string \<Rightarrow> 'x api_state \<Rightarrow> response \<times> 'x api_state" where
  "getApproval srv env i st =
     (if \<not> av_approvals srv then (writeError 503 (ErrorNew ''approval store is not configured''), st)
      else (case on_approvals (Get i (fst (aq_clock env i)) (snd (aq_clock env i))) st of
          (Inl e, st) \<Rightarrow> (writeError (if errorsIs ErrNotExist e then 404 else 400) e, st)
        | (Inr r, st) \<Rightarrow> ((200, ApprovalBody r), st)))"

text \<open>\<open>strings.ToUpper\<close> as far as it can give ASCII text: two letters outside ASCII have an ASCII upper case, all others stay outside and are left as they are.\<close>

fun upper :: "string \<Rightarrow> string" where
  "upper [] = []"
| "upper [c] = [if CHR ''a'' \<le> c \<and> c \<le> CHR ''z'' then char_of (of_char c - (32 :: nat)) else c]"
| "upper (c # d # s) =
     (if c = CHR 0xC4 \<and> d = CHR 0xB1 then CHR ''I'' # upper s
      else if c = CHR 0xC5 \<and> d = CHR 0xBF then CHR ''S'' # upper s
      else (if CHR ''a'' \<le> c \<and> c \<le> CHR ''z'' then char_of (of_char c - (32 :: nat)) else c) # upper (d # s))"

definition decision :: "string \<Rightarrow> bool option" where
  "decision text =
     (let d = upper (TrimSpace text) in if d = ''APPROVE'' then Some True else if d = ''REJECT'' then Some False else None)"

definition resumed_message :: "Task \<Rightarrow> string" where
  "resumed_message v =
     (case t_State v of WaitingApproval \<Rightarrow> hx ''e5898de4b880e58aa8e4bd9ce5b7b2e9aa8ce8af81efbc8ce4b88be4b880e58f97e68ea7e58aa8e4bd9ce6ada3e59ca8e7ad89e5be85e78bace7ab8be5aea1e689b9'' | Completed \<Rightarrow> hx ''e5aea1e689b9e5908ee4bbbbe58aa1e5b7b2e689a7e8a18ce38081e9aa8ce8af81e5b9b6e5ae8ce68890'' | Cancelled \<Rightarrow> hx ''e5aea1e689b9e8a2abe68b92e7bb9defbc8ce4bbbbe58aa1e5b7b2e5ae89e585a8e7bb93e69d9f''
      | _ \<Rightarrow> hx ''e5aea1e689b9e7bb93e69e9ce5b7b2e68c81e4b985e58c96efbc8ce4bbbbe58aa1e5b7b2e887aae58aa8e681a2e5a48d'')"

definition progress_event :: "Task \<Rightarrow> string \<Rightarrow> RuntimeEvent" where
  "progress_event v message =
     \<lparr>rv_Sequence = 0, rv_Type = ''task.progress'', rv_TaskID = t_ID v, rv_State = t_State v, rv_Message = message, rv_Timestamp = t_UpdatedAt v\<rparr>"

definition publish_event :: "RuntimeEvent \<Rightarrow> 'x api_state \<Rightarrow> 'x api_state option" where
  "publish_event e st = map_option (\<lambda>h. st\<lparr>ap_hub := h\<rparr>) (publish e (ap_hub st))"

text \<open>The part of \<open>resolveApproval\<close> that holds a task slot.\<close>

definition resolve_held :: "'x ApprovalResumer \<Rightarrow> api_env \<Rightarrow> string \<Rightarrow> bool \<Rightarrow> string \<Rightarrow> 'x api_state \<Rightarrow> (response \<times> 'x api_state) option" where
  "resolve_held rs env i approve reason st =
     (case on_approvals (Resolve i (aq_now env) approve reason) st of
        (Inl e, st) \<Rightarrow> Some (writeError 409 e, st)
      | (Inr r, st) \<Rightarrow>
        (case Resume rs (aq_resume env) r (ap_agent st, ap_world st) of
           ((v, Inl e), g, x) \<Rightarrow>
             map_option (\<lambda>st. ((502, ResolvedBody r v (Some e)), st))
               (publish_event (progress_event v (hx ''e5aea1e689b9e5908ee4bbbbe58aa1e681a2e5a48de5a4b1e8b4a5efbc9a'' @ pe_text (re_io (aq_resume env)) e)) (st\<lparr>ap_agent := g, ap_world := x\<rparr>))
         | ((v, Inr _), g, x) \<Rightarrow>
             map_option (\<lambda>st. ((200, ResolvedBody r v None), st)) (publish_event (progress_event v (resumed_message v)) (st\<lparr>ap_agent := g, ap_world := x\<rparr>))))"

definition resolveApproval :: "'x api \<Rightarrow> api_env \<Rightarrow> string \<Rightarrow> (string \<times> string) result \<Rightarrow> 'x api_state \<Rightarrow> (response \<times> 'x api_state) option" where
  "resolveApproval srv env i input st =
     (case (av_approvals srv, av_resumer srv) of
        (True, Some rs) \<Rightarrow>
          (case input of Inl e \<Rightarrow> Some (writeError 400 e, st)
           | Inr (text, reason) \<Rightarrow>
             (case decision text of None \<Rightarrow> Some (writeError 400 (ErrorNew ''decision must be APPROVE or REJECT''), st)
              | Some approve \<Rightarrow>
                (case reserveTaskSlot srv st of
                   (False, st) \<Rightarrow> Some (writeLimitError ''concurrent task limit reached'', st)
                 | (True, st) \<Rightarrow> map_option (map_prod id releaseTaskSlot) (resolve_held rs env i approve reason st))))
      | _ \<Rightarrow> Some (writeError 503 (ErrorNew ''approval workflow is not configured''), st))"

subsection \<open>Tasks and traces\<close>

definition api_getTask :: "string \<Rightarrow> 'x api_state \<Rightarrow> response \<times> 'x api_state" where
  "api_getTask i st =
     (case on_store (GetTask i) st of (Inl e, st) \<Rightarrow> (writeError (if errorsIs ErrNotFound e then 404 else 500) e, st) | (Inr v, st) \<Rightarrow> ((200, TaskBody v), st))"

text \<open>\<open>strconv.Atoi\<close> and \<open>ParseUint(..., 10, 64)\<close>.\<close>

definition digits :: "string \<Rightarrow> bool" where
  "digits s \<longleftrightarrow> s \<noteq> [] \<and> list_all (\<lambda>c. CHR ''0'' \<le> c \<and> c \<le> CHR ''9'') s"

definition Atoi :: "string \<Rightarrow> int option" where
  "Atoi s =
     (let body = (case s of c # r \<Rightarrow> if c = CHR ''+'' \<or> c = CHR ''-'' then r else s | [] \<Rightarrow> []); n = (if prefix ''-'' s then - digits_value body else digits_value body) in
      if digits body \<and> - (2 ^ 63) \<le> n \<and> n < 2 ^ 63 then Some n else None)"

definition EventID :: "string \<Rightarrow> uint64 option" where
  "EventID s = (if digits s then map_option of_int (parse_digits 64 s) else None)"

text \<open>The loop of \<open>listTasks\<close>, which stops at the limit.\<close>

fun select_tasks :: "string \<Rightarrow> string \<Rightarrow> int \<Rightarrow> Task list \<Rightarrow> Task list \<Rightarrow> Task list" where
  "select_tasks sid state most filtered [] = filtered"
| "select_tasks sid state most filtered (v # vs) =
     (if sid \<noteq> [] \<and> t_SessionID v \<noteq> sid \<or> state \<noteq> [] \<and> state_text (t_State v) \<noteq> state then select_tasks sid state most filtered vs
      else let filtered = filtered @ [v] in if int (length filtered) = most then filtered else select_tasks sid state most filtered vs)"

definition listTasks :: "api_env \<Rightarrow> string \<Rightarrow> string \<Rightarrow> string \<Rightarrow> 'x api_state \<Rightarrow> response \<times> 'x api_state" where
  "listTasks env sid state count st =
     (case on_store (ListTasks (aq_tasks env)) st of
        (Inl e, st) \<Rightarrow> (writeError 500 e, st)
      | (Inr values, st) \<Rightarrow>
        let raw = TrimSpace count in
        (case (if raw = [] then Some 100 else Atoi raw) of
           None \<Rightarrow> (writeError 400 (ErrorNew ''limit must be within 1-500''), st)
         | Some n \<Rightarrow>
           if n < 1 \<or> n > 500 then (writeError 400 (ErrorNew ''limit must be within 1-500''), st)
           else ((200, TasksBody (select_tasks (TrimSpace sid) (upper (TrimSpace state)) n [] values) n), st)))"

definition getTrace :: "string \<Rightarrow> 'x api_state \<Rightarrow> response \<times> 'x api_state" where
  "getTrace i st =
     (case on_trace (VerifyIntegrity i) st of
        (Inl e, st) \<Rightarrow> (writeError 409 e, st)
      | (Inr _, st) \<Rightarrow> (case on_trace (ReadTrace i) st of (Inl e, st) \<Rightarrow> (writeError 404 e, st) | (Inr es, st) \<Rightarrow> ((200, TraceBody es), st)))"

subsection \<open>The stream of events\<close>

text \<open>A frame is the name and the event; its id is the sequence number. The loops over the window and over the channel end with an event of a terminal state.\<close>

type_synonym frame = "string \<times> RuntimeEvent"

fun stream :: "RuntimeEvent list \<Rightarrow> frame list \<times> bool" where
  "stream [] = ([], False)"
| "stream (e # es) = (if terminal (rv_State e) then ([(''task.progress'', e)], True) else map_prod (Cons (''task.progress'', e)) id (stream es))"

definition gap_frame :: "uint64 \<Rightarrow> replayWindow \<Rightarrow> Task \<Rightarrow> timestamp \<Rightarrow> frame" where
  "gap_frame lastID w v now =
     (''task.gap'', \<lparr>rv_Sequence = 0, rv_Type = ''task.gap'', rv_TaskID = t_ID v, rv_State = t_State v,
        rv_Message = hx ''53534520e9878de694bee7aa97e58fa3e5ad98e59ca8e7bcbae58fa3efbc9b6c6173743d'' @ itoa (uint lastID) @ '' oldest='' @ itoa (uint (rw_Oldest w)) @ '' latest='' @ itoa (uint (rw_Latest w)) @ hx ''efbc8ce8afb7e59b9ee8afbbe68c81e4b985205461736b2f5472616365'',
        rv_Timestamp = now\<rparr>)"

definition snapshot_frame :: "Task \<Rightarrow> frame" where
  "snapshot_frame v =
     (''task.snapshot'', \<lparr>rv_Sequence = 0, rv_Type = ''task.snapshot'', rv_TaskID = t_ID v, rv_State = t_State v,
        rv_Message = (if t_State v = Failed then hx ''e4bbbbe58aa1e5a4b1e8b4a5efbc9a'' @ t_FailureReason v else hx ''e4bbbbe58aa1e5b7b2e4bb8ee68c81e4b985e58c96e78ab6e68081e681a2e5a48d''), rv_Timestamp = t_UpdatedAt v\<rparr>)"

text \<open>The frames before the loop over the channel, and whether the stream ends with them.\<close>

definition opening_frames :: "uint64 \<Rightarrow> replayWindow \<Rightarrow> Task \<Rightarrow> timestamp \<Rightarrow> frame list \<times> bool" where
  "opening_frames lastID w v now =
     (let gap = (if rw_Gap w then [gap_frame lastID w v now] else []) in
      case stream (rw_Events w) of
        (fs, True) \<Rightarrow> (gap @ fs, True)
      | (fs, False) \<Rightarrow>
        if rw_Events w = [] \<and> (terminal (t_State v) \<or> rw_Gap w) then (gap @ [snapshot_frame v], terminal (t_State v)) else (gap @ fs, False))"

text \<open>\<open>events\<close> up to the loop over the channel, for a response writer that can flush and a client that stays; the deferred unsubscription follows a stream that ends here.\<close>

definition events :: "api_env \<Rightarrow> string \<Rightarrow> string \<Rightarrow> 'x api_state \<Rightarrow> ((response + frame list \<times> nat option) \<times> 'x api_state) option" where
  "events env i lastEventID st =
     (case on_store (GetTask i) st of
        (Inl e, st) \<Rightarrow> Some (Inl (writeError (if errorsIs ErrNotFound e then 404 else 500) e), st)
      | (Inr v, st) \<Rightarrow>
        let text = TrimSpace lastEventID in
        (case (if text = [] then Some 0 else EventID text) of
           None \<Rightarrow> Some (Inl (writeError 400 (ErrorNew ''Last-Event-ID must be an unsigned integer'')), st)
         | Some lastID \<Rightarrow>
           (case subscribe i lastID (ap_hub st) of (w, c, h) \<Rightarrow>
              (case opening_frames lastID w v (aq_now env) of
                 (fs, False) \<Rightarrow> Some (Inr (fs, Some c), st\<lparr>ap_hub := h\<rparr>)
               | (fs, True) \<Rightarrow> map_option (\<lambda>h. (Inr (fs, None), st\<lparr>ap_hub := h\<rparr>)) (unsubscribe i c h)))))"

subsection \<open>What the handlers leave alone\<close>

text \<open>Nothing but the stores may differ.\<close>

definition same_server :: "'x api_state \<Rightarrow> 'x api_state \<Rightarrow> bool" where
  "same_server st st' \<longleftrightarrow> ap_world st' = ap_world st \<and> ap_running st' = ap_running st \<and> ap_slots st' = ap_slots st \<and> ap_hub st' = ap_hub st"

lemma same_server_refl [simp]: "same_server st st"
  by (simp add: same_server_def)

lemma same_server_trans: "same_server a b \<Longrightarrow> same_server b c \<Longrightarrow> same_server a c"
  by (simp add: same_server_def)

lemma on_store_same: "on_store f st = (r, st') \<Longrightarrow> same_server st st'"
  by (auto simp: on_store_def same_server_def split: prod.splits)

lemma on_approvals_same: "on_approvals f st = (r, st') \<Longrightarrow> same_server st st'"
  by (auto simp: on_approvals_def same_server_def split: prod.splits)

lemma createSession_same: "createSession srv env input st = (r, st') \<Longrightarrow> same_server st st'"
  by (auto simp: createSession_def Let_def split: sum.splits if_splits prod.splits dest!: on_store_same intro: same_server_trans)

lemma updateSession_same: "updateSession env sid input st = (r, st') \<Longrightarrow> same_server st st'"
  by (auto simp: updateSession_def may_archive_def split: sum.splits if_splits prod.splits option.splits dest!: on_store_same intro: same_server_trans)

text \<open>Preparing a task stores it and its message, and leaves all other tasks alone.\<close>

lemma Prepare_effect:
  assumes "Orchestrator_Prepare srv env taskID sid request g = ((t, r), h)"
  shows "(\<forall>j. j \<noteq> taskID \<longrightarrow> task_at j h = task_at j g) \<and> (is_ok r \<longrightarrow> task_at taskID g = None \<and> task_at taskID h = Some (new_task taskID sid request (pe_clock (ru_io env) 0)))"
proof -
  let ?now = "pe_clock (ru_io env) 0" and ?t = "new_task taskID sid request (pe_clock (ru_io env) 0)"
  obtain p d where P: "PrepareTask ?t (Some (prepared_session env taskID request ?now)) (ag_store g) = (p, d)" by (metis surj_pair)
  let ?g = "g\<lparr>ag_store := d\<rparr>"
  have id: "t_ID ?t = taskID" "t_SessionID ?t = sid" by (simp_all add: new_task_def)
  have "(\<forall>j. j \<noteq> taskID \<longrightarrow> task_at j ?g = task_at j g) \<and> (is_ok p \<longrightarrow> task_at taskID g = None \<and> task_at taskID ?g = Some ?t)"
    using P
  proof (cases rule: PrepareTask_effect)
    case unchanged
    then show ?thesis by (simp add: task_at_def)
  next
    case (commit s d1 r1)
    have other: "task_at j ?g = task_at j g" if "j \<noteq> taskID" for j
      using changes_outside [OF commit_preparation_changes [OF commit(6)], of "store_path ''tasks'' j"] commit(1) that by (simp add: task_at_def id store_path_def)
    have "files d = replayed (prep_of ?t s) (files d1)" if "is_ok p" using commit_outcomes [OF commit(6)] commit(7) that by auto
    then have "is_ok p \<Longrightarrow> task_at taskID ?g = Some ?t" by (simp add: task_at_def replayed_def prep_of_def id store_path_def)
    with other commit(2) show ?thesis by (simp add: task_at_def id)
  qed
  moreover have "same_tasks ?g h \<and> (is_ok r \<longrightarrow> is_ok p) \<or> h = ?g \<and> \<not> is_ok r"
    using assms P by (auto simp: Orchestrator_Prepare_def Let_def split: sum.splits prod.splits dest!: ensureInitialTrace_tasks)
  ultimately show ?thesis by (auto simp: same_tasks_def)
qed

lemma on_store_tasks: "on_store f st = (r, st') \<Longrightarrow> (\<And>a d d'. f d = (a, d') \<Longrightarrow> files d' = files d) \<Longrightarrow> same_tasks (ap_agent st) (ap_agent st')"
  by (fastforce simp: on_store_def same_tasks_def task_at_def split: prod.splits)

lemma ListTasks_files: "ListTasks entries d = (r, d') \<Longrightarrow> files d' = files d"
  using list_docs_stored [of entries "sample_agent\<lparr>ag_store := e\<rparr>" for e]
  by (fastforce simp: ListTasks_def list_kind_def split: prod.splits if_splits sum.splits dest: calls_files)

lemma GetSession_files: "GetSession i d = (r, d') \<Longrightarrow> files d' = files d"
  by (auto simp: GetSession_def get_doc_def loadLocked_def split: prod.splits sum.splits if_splits doc.splits option.splits dest!: syscall_files read_file_files)

text \<open>What \<open>createMessage\<close> does with the state of the server.\<close>

definition accepted :: "'x api \<Rightarrow> api_env \<Rightarrow> string \<Rightarrow> string result \<Rightarrow> 'x api_state \<Rightarrow> 'x api_state \<Rightarrow> bool" where
  "accepted srv env sid input st st' \<longleftrightarrow>
     sid \<notin> ap_running st \<and> ap_running st' = insert sid (ap_running st) \<and> ap_slots st' = Suc (ap_slots st) \<and> int (ap_slots st') \<le> lm_MaxConcurrentTasks (av_limits srv)
     \<and> (\<exists>content. input = Inr content \<and> TrimSpace content \<noteq> [] \<and> task_at (aq_id env) (ap_agent st) = None
          \<and> task_at (aq_id env) (ap_agent st') = Some (new_task (aq_id env) sid (TrimSpace content) (pe_clock (ru_io (aq_run env)) 0)))"

lemma start_task_outcome:
  assumes "start_task srv o1 env sid content st = ((status, b), st')" "sid \<notin> ap_running st"
  shows "ap_world st' = ap_world st \<and> ap_hub st' = ap_hub st \<and> (\<forall>j. j \<noteq> aq_id env \<longrightarrow> task_at j (ap_agent st') = task_at j (ap_agent st))
    \<and> (if status = 202 then ap_running st' = insert sid (ap_running st) \<and> ap_slots st' = Suc (ap_slots st) \<and> int (ap_slots st') \<le> lm_MaxConcurrentTasks (av_limits srv)
         \<and> task_at (aq_id env) (ap_agent st) = None \<and> task_at (aq_id env) (ap_agent st') = Some (new_task (aq_id env) sid content (pe_clock (ru_io (aq_run env)) 0))
       else same_server st st')"
proof -
  obtain l st1 where L: "on_store (ListTasks (aq_tasks env)) st = (l, st1)" by (metis surj_pair)
  have tasks: "same_tasks (ap_agent st) (ap_agent st1)" by (rule on_store_tasks [OF L]) (rule ListTasks_files)
  have server: "same_server st st1" using on_store_same [OF L] .
  obtain t r g where P: "Orchestrator_Prepare o1 (aq_run env) (aq_id env) sid content (ap_agent st1) = ((t, r), g)" by (metis prod.collapse)
  have simple: "ap_world st1 = ap_world st \<and> ap_hub st1 = ap_hub st \<and> (\<forall>j. task_at j (ap_agent st1) = task_at j (ap_agent st))"
    using server tasks by (simp add: same_server_def same_tasks_def)
  show ?thesis
  proof (cases "st' = st1 \<and> status \<noteq> 202")
    case True
    with simple server show ?thesis by simp
  next
    case False
    with assms(1) L P have c: "int (ap_slots st1) < lm_MaxConcurrentTasks (av_limits srv)"
      "(\<exists>e. r = Inl e) \<and> status = 500 \<and> st' = releaseTaskSlot (st1\<lparr>ap_slots := Suc (ap_slots st1), ap_agent := g, ap_running := ap_running st1 - {sid}\<rparr>)
       \<or> r = Inr () \<and> status = 202 \<and> st' = st1\<lparr>ap_slots := Suc (ap_slots st1), ap_running := insert sid (ap_running st1), ap_agent := g\<rparr>"
      by (auto simp: start_task_def reserveTaskSlot_def writeError_def writeRetentionError_def writeLimitError_def Let_def split: sum.splits option.splits if_splits)
    from Prepare_effect [OF P] c(2) simple server assms(2) c(1) show ?thesis
      by (auto simp: releaseTaskSlot_def same_server_def)
  qed
qed

lemma createMessage_outcome:
  assumes "createMessage srv env sid input st = ((status, b), st')"
  shows "ap_world st' = ap_world st \<and> ap_hub st' = ap_hub st \<and> (\<forall>j. j \<noteq> aq_id env \<longrightarrow> task_at j (ap_agent st') = task_at j (ap_agent st))
    \<and> (if status = 202 then accepted srv env sid input st st' else same_server st st')"
proof (cases "same_server st st' \<and> same_tasks (ap_agent st) (ap_agent st') \<and> status \<noteq> 202")
  case True
  then show ?thesis by (simp add: same_server_def same_tasks_def)
next
  case False
  from assms obtain content where i: "input = Inr content \<and> TrimSpace content \<noteq> []"
    using False by (auto simp: createMessage_def writeError_def same_tasks_def split: sum.splits if_splits)
  obtain l st1 where L: "on_store (GetSession sid) st = (l, st1)" by (metis surj_pair)
  have tasks: "same_tasks (ap_agent st) (ap_agent st1)" by (rule on_store_tasks [OF L]) (rule GetSession_files)
  have server: "same_server st st1" using on_store_same [OF L] .
  from assms i L False tasks server obtain o1 where s: "start_task srv o1 env sid (TrimSpace content) st1 = ((status, b), st')" "sid \<notin> ap_running st1"
    by (auto simp: createMessage_def writeError_def split: sum.splits if_splits option.splits)
  from start_task_outcome [OF s] i s(2) tasks server show ?thesis by (auto simp: accepted_def same_server_def same_tasks_def split: if_splits)
qed

lemma Resume_world:
  "snd (snd (Resume rs env r s)) = snd s
   \<or> r_Status r = Approved \<and> (\<exists>v. task_at (b_TaskID (r_Binding r)) (fst s) = Some v \<and> t_State v = WaitingApproval \<and> t_PendingApprovalID v = r_ID r)"
proof (cases "r_Status r = Approved")
  case True
  obtain t g where t: "get_task (b_TaskID (r_Binding r)) (fst s) = (t, g)" by (metis surj_pair)
  with get_task_ok [of "b_TaskID (r_Binding r)" "fst s" _ g] True show ?thesis by (cases t) (auto simp: Resume_def Let_def)
next
  case False
  have "snd (snd (cancel_task env v r s2)) = snd s2" for v s2
    unfolding cancel_task_def Let_def
    by (rule saving_post [where Q = "\<lambda>r. snd (snd r) = snd s2"]) (auto intro!: appending_post [where Q = "\<lambda>r. snd (snd r) = snd s2"])
  with False show ?thesis
    by (auto simp: Resume_def Let_def intro!: appending_post [where Q = "\<lambda>r. snd (snd r) = snd s"] split: prod.split sum.split Status.split)
qed

lemma Resolve_status: "Resolve i now approve reason d = (Inr r, d') \<Longrightarrow> r_Status r = (if approve then Approved else Rejected)"
  by (auto simp: Resolve_def Let_def split: prod.splits sum.splits if_splits)

text \<open>What the outside world saw, and why.\<close>

definition approved_by :: "api_env \<Rightarrow> string \<Rightarrow> (string \<times> string) result \<Rightarrow> agent \<Rightarrow> bool" where
  "approved_by env i input g \<longleftrightarrow>
     (\<exists>text reason r d v. input = Inr (text, reason) \<and> decision text = Some True \<and> Resolve i (aq_now env) True reason (ag_approvals g) = (Inr r, d) \<and> r_Status r = Approved
        \<and> task_at (b_TaskID (r_Binding r)) g = Some v \<and> t_State v = WaitingApproval \<and> t_PendingApprovalID v = r_ID r)"

lemma publish_event_same: "publish_event e st = Some st' \<Longrightarrow> ap_world st' = ap_world st \<and> ap_running st' = ap_running st \<and> ap_slots st' = ap_slots st"
  by (auto simp: publish_event_def)

lemma publish_event_ok: "publish_event e st = None \<Longrightarrow> \<not> hub_ok (ap_hub st)"
  using publish_ok [of "ap_hub st" e] by (auto simp: publish_event_def)

lemma resolve_held_world:
  assumes "resolve_held rs env i approve reason st = Some (resp, st')"
  shows "ap_running st' = ap_running st \<and> ap_slots st' = ap_slots st \<and> (ap_world st' = ap_world st \<or> approve \<and> approved_by env i (Inr (''APPROVE'', reason)) (ap_agent st))"
proof -
  obtain a d where R: "Resolve i (aq_now env) approve reason (ag_approvals (ap_agent st)) = (a, d)" by (metis surj_pair)
  let ?g = "(ap_agent st)\<lparr>ag_approvals := d\<rparr>"
  show ?thesis
  proof (cases a)
    case (Inl e)
    with assms R show ?thesis by (auto simp: resolve_held_def on_approvals_def)
  next
    case (Inr r)
    obtain v z g x where M: "Resume rs (aq_resume env) r (?g, ap_world st) = ((v, z), g, x)" by (metis prod.collapse)
    from assms R Inr M have st: "ap_world st' = x" "ap_running st' = ap_running st" "ap_slots st' = ap_slots st"
      by (auto simp: resolve_held_def on_approvals_def split: sum.splits dest: publish_event_same)
    have at: "task_at k ?g = task_at k (ap_agent st)" for k by (simp add: task_at_def)
    have "decision ''APPROVE'' = Some True" by code_simp
    with Resume_world [of rs "aq_resume env" r "(?g, ap_world st)"] M R Inr st Resolve_status [of i "aq_now env" approve reason _ r d] show ?thesis
      by (auto simp: approved_by_def at split: if_splits)
  qed
qed

subsection \<open>Properties\<close>

definition others_same :: "string \<Rightarrow> agent \<Rightarrow> agent \<Rightarrow> bool" where
  "others_same i g h \<longleftrightarrow> (\<forall>j. j \<noteq> i \<longrightarrow> task_at j h = task_at j g)"


text \<open>C17: only an approval acts. Resolving an approval ends with the slots and the running sessions as before, does not panic on a hub in order, and when the outside world changes at all, the request
  said APPROVE, the approval store accepted it, and the task of the record was waiting for exactly this approval.\<close>

theorem only_an_approval_acts:
  "case resolveApproval srv env i input st of None \<Rightarrow> \<not> hub_ok (ap_hub st)
   | Some (resp, st') \<Rightarrow> ap_running st' = ap_running st \<and> ap_slots st' = ap_slots st \<and> (ap_world st' = ap_world st \<or> approved_by env i input (ap_agent st))"
proof -
  have slot: "resolve_held rs env i approve reason (st\<lparr>ap_slots := Suc (ap_slots st)\<rparr>) = Some (resp, st') \<Longrightarrow> decision words = Some approve
      \<Longrightarrow> ap_running (releaseTaskSlot st') = ap_running st \<and> ap_slots (releaseTaskSlot st') = ap_slots st
        \<and> (ap_world (releaseTaskSlot st') = ap_world st \<or> approved_by env i (Inr (words, reason)) (ap_agent st))"
    for rs approve reason resp st' words
    using resolve_held_world [of rs env i approve reason "st\<lparr>ap_slots := Suc (ap_slots st)\<rparr>" resp st'] by (fastforce simp: releaseTaskSlot_def approved_by_def)
  have none: "resolve_held rs env i approve reason st = None \<Longrightarrow> \<not> hub_ok (ap_hub st)" for rs approve reason and st :: "'a api_state"
    by (auto simp: resolve_held_def on_approvals_def split: prod.splits sum.splits dest!: publish_event_ok)
  show ?thesis
    by (auto simp: resolveApproval_def reserveTaskSlot_def split: option.split sum.split bool.split if_splits dest: none slot)
qed

subsection \<open>Requests and runs side by side\<close>

text \<open>The server at work: its state, the sessions of the goroutines that run, the number of goroutines that have cleared their session and still hold a slot, and the number of approvals
  being resolved. Between the steps named here the runs, the resumed tasks, the recovery and the streams may do anything to the stores and the outside world, and use the hub.\<close>

inductive api_reach :: "'x api \<Rightarrow> 'x api_state \<Rightarrow> string list \<Rightarrow> nat \<Rightarrow> nat \<Rightarrow> bool" for srv where
  start: "api_reach srv (New_api g x) [] 0 0"
| message: "api_reach srv st sids k m \<Longrightarrow> createMessage srv env sid input st = ((status, b), st') \<Longrightarrow> api_reach srv st' (if status = 202 then sid # sids else sids) k m"
| session_created: "api_reach srv st sids k m \<Longrightarrow> createSession srv env name st = (resp, st') \<Longrightarrow> api_reach srv st' sids k m"
| session_updated: "api_reach srv st sids k m \<Longrightarrow> updateSession env sid p st = (resp, st') \<Longrightarrow> api_reach srv st' sids k m"
| progress: "api_reach srv st sids k m \<Longrightarrow> hub_steps (ap_hub st) es rs h \<Longrightarrow> api_reach srv (st\<lparr>ap_agent := g, ap_world := x, ap_hub := h\<rparr>) sids k m"
| run_ended: "api_reach srv st sids k m \<Longrightarrow> sid \<in> set sids \<Longrightarrow> api_reach srv (end_run sid st) (remove1 sid sids) (Suc k) m"
| run_released: "api_reach srv st sids (Suc k) m \<Longrightarrow> api_reach srv (releaseTaskSlot st) sids k m"
| resolving: "api_reach srv st sids k m \<Longrightarrow> reserveTaskSlot srv st = (True, st') \<Longrightarrow> api_reach srv st' sids k (Suc m)"
| resolved: "api_reach srv st sids k (Suc m) \<Longrightarrow> api_reach srv (releaseTaskSlot st) sids k m"

text \<open>C16: every session has at most one run, and slots are neither lost nor given away twice. In every state the server can reach, the running goroutines belong to different sessions, which
  are the ones marked as running; the slots taken are those of the goroutines and of the approvals being resolved, at most the configured number, so that a release never waits and an idle server has
  all its slots; and the event hub is in order, so that publishing does not panic.\<close>

theorem sessions_run_one_task:
  assumes "api_reach srv st sids k m"
  shows "distinct sids \<and> ap_running st = set sids \<and> ap_slots st = length sids + k + m \<and> int (ap_slots st) \<le> max 0 (lm_MaxConcurrentTasks (av_limits srv)) \<and> hub_ok (ap_hub st)"
  using assms
proof (induction rule: api_reach.induct)
  case (start g x)
  show ?case by (simp add: New_api_def)
next
  case (message st sids k m env sid input status b st')
  with createMessage_outcome [OF message(2)] show ?case by (auto simp: accepted_def same_server_def split: if_splits)
next
  case (session_created st sids k m env name resp st')
  with createSession_same [OF session_created(2)] show ?case by (simp add: same_server_def)
next
  case (session_updated st sids k m env sid p resp st')
  with updateSession_same [OF session_updated(2)] show ?case by (simp add: same_server_def)
next
  case (progress st sids k m es rs h g x)
  with hub_steps_ok [OF progress(2)] show ?case by simp
next
  case (run_ended st sids k m sid)
  from length_pos_if_in_set [OF run_ended(2)] obtain n where "length sids = Suc n" by (metis gr0_implies_Suc)
  with run_ended show ?case by (simp add: end_run_def length_remove1)
next
  case (resolving st sids k m st')
  from resolving(2) have "st' = st\<lparr>ap_slots := Suc (ap_slots st)\<rparr>" "int (ap_slots st) < lm_MaxConcurrentTasks (av_limits srv)"
    by (simp_all add: reserveTaskSlot_def split: if_splits)
  with resolving(3) show ?case by simp
qed (auto simp: releaseTaskSlot_def)

text \<open>A server that resolves two approvals.\<close>

definition busy_api :: "nat api" where
  "busy_api = \<lparr>av_agent = None, av_approvals = False, av_resumer = None, av_limits = defaultLimits\<rparr>"

theorem sessions_run_one_task_witness:
  "\<exists>st. api_reach busy_api st [] 0 2 \<and> ap_slots st = 2 \<and> ap_running st = {} \<and> hub_ok (ap_hub st)"
proof -
  let ?st = "New_api sample_agent (0 :: nat)"
  have "reserveTaskSlot busy_api ?st = (True, ?st\<lparr>ap_slots := 1\<rparr>)" "reserveTaskSlot busy_api (?st\<lparr>ap_slots := 1\<rparr>) = (True, ?st\<lparr>ap_slots := 2\<rparr>)"
    by (simp_all add: reserveTaskSlot_def busy_api_def defaultLimits_def New_api_def)
  from api_reach.resolving [OF api_reach.resolving [OF api_reach.start this(1)] this(2)] have r: "api_reach busy_api (?st\<lparr>ap_slots := 2\<rparr>) [] 0 2" by (simp add: numeral_2_eq_2)
  from sessions_run_one_task [OF r] r show ?thesis by (intro exI [of _ "?st\<lparr>ap_slots := 2\<rparr>"]) simp
qed

end
