(* ===== verification/Registry.thy ===== *)
theory Registry
  imports Orchestration
begin

text \<open>
  \<open>internal/registry\<close>: the tool servers of the agent. A server is declared in a manifest, started and asked for its tools by \<open>Discover\<close>, watched by \<open>Health\<close> and switched by \<open>SetEnabled\<close>; the
  planner is offered the tools of the healthy servers and \<open>CallTool\<close> passes a call on. The MCP client, the file system and the search path are arguments: the client acts on an outside world, a
  session is a number, and the map of clients, which has the keys of the map of sessions, is left out. \<open>lifecycleMu\<close> makes the operations that change a server sequential; the two critical sections of
  \<open>SetEnabled\<close> are one step.
\<close>

subsection \<open>Manifests and states\<close>

record ServerManifest =
  sm_ID :: string
  sm_Name :: string
  sm_DisplayName :: string
  sm_Version :: string
  sm_Description :: string
  sm_Transport :: string
  sm_Command :: string
  sm_Arguments :: "string list"
  sm_Enabled :: bool
  sm_HealthCheck :: string
  sm_Source :: string
  sm_Capabilities :: "string list"
  sm_Dependencies :: "string list"
  sm_Environment :: "(string \<times> string) list"

datatype server_status = StatusDisabled | StatusStarting | StatusHealthy | StatusUnhealthy

record ToolRecord =
  tl_ServerID :: string
  tl_Name :: string
  tl_Description :: string
  tl_InputSchema :: string
  tl_SchemaHash :: string
  tl_DiscoveredAt :: timestamp
  tl_ServerVersion :: string

record DependencyState =
  dp_Name :: string
  dp_Kind :: string
  dp_Available :: bool
  dp_Resolved :: string
  dp_Mode :: string
  dp_IsDir :: bool
  dp_SizeBytes :: int
  dp_ModifiedAt :: timestamp
  dp_Error :: string
  dp_CheckedAt :: timestamp

record HealthRecord =
  hr_CheckedAt :: timestamp
  hr_Status :: server_status
  hr_Error :: string
  hr_DependenciesHealthy :: bool
  hr_DurationMillis :: int

record DiscoveryRecord =
  ds_DiscoveredAt :: timestamp
  ds_Status :: server_status
  ds_Error :: string
  ds_ServerName :: string
  ds_ServerVersion :: string
  ds_ProtocolVersion :: string
  ds_ToolSetHash :: string
  ds_ToolCount :: nat
  ds_ToolsChanged :: bool
  ds_DependenciesHealthy :: bool
  ds_DurationMillis :: int

record ServerState =
  ss_Manifest :: ServerManifest
  ss_Status :: server_status
  ss_Error :: string
  ss_ActualServerName :: string
  ss_ActualServerVersion :: string
  ss_ProtocolVersion :: string
  ss_Tools :: "ToolRecord list"
  ss_ToolSetHash :: string
  ss_PreviousToolSetHash :: string
  ss_ToolsChanged :: bool
  ss_DependenciesChecked :: bool
  ss_DependenciesHealthy :: bool
  ss_DependencyChecks :: "DependencyState list"
  ss_HealthHistory :: "HealthRecord list"
  ss_DiscoveryHistory :: "DiscoveryRecord list"
  ss_LastChecked :: timestamp

text \<open>The checks of \<open>Load\<close> on the parsed file, in the order of the loop.\<close>

fun check_servers :: "nat \<Rightarrow> string list \<Rightarrow> ServerManifest list \<Rightarrow> unit result" where
  "check_servers i seen [] = Inr ()"
| "check_servers i seen (m # ms) =
     (if sm_ID m = [] \<or> sm_Name m = [] then Inl (ErrorNew (''server '' @ itoa (int i) @ '': id and name are required''))
      else if sm_ID m \<in> set seen then Inl (ErrorNew ''duplicate server id %q'')
      else if sm_Transport m \<noteq> ''stdio'' then Inl (ErrorNew (''server '' @ sm_ID m @ '': unsupported transport %q''))
      else if sm_Command m = [] then Inl (ErrorNew (''server '' @ sm_ID m @ '': command required''))
      else check_servers (Suc i) (sm_ID m # seen) ms)"

definition LoadRegistry :: "string result \<Rightarrow> (string \<Rightarrow> ServerManifest list result) \<Rightarrow> ServerManifest list result" where
  "LoadRegistry content parse =
     (case content of Inl e \<Rightarrow> Inl (Wrapf ''read registry config'' e)
      | Inr b \<Rightarrow> (case parse b of Inl e \<Rightarrow> Inl (Wrapf ''parse registry config'' e)
        | Inr ms \<Rightarrow> (case check_servers 0 [] ms of Inl e \<Rightarrow> Inl e | Inr _ \<Rightarrow> Inr ms)))"

subsection \<open>The outside\<close>

record mcp_tool =
  mt_Name :: string
  mt_Title :: string
  mt_Description :: string
  mt_InputSchema :: json
  mt_OutputSchema :: json
  mt_Annotations :: json

text \<open>What \<open>InitializeResult\<close> says: the name and version of the server, when it named one, and the version of the protocol.\<close>

record initialized =
  in_ServerInfo :: "(string \<times> string) option"
  in_ProtocolVersion :: string

text \<open>The tools of a session come with an error when the iteration ends with one.\<close>

record 'x mcp =
  mc_Connect :: "ServerManifest \<Rightarrow> 'x \<Rightarrow> (nat \<times> initialized option) result \<times> 'x"
  mc_Tools :: "nat \<Rightarrow> 'x \<Rightarrow> mcp_tool list result \<times> 'x"
  mc_CallTool :: "nat \<Rightarrow> string \<Rightarrow> go_map \<Rightarrow> 'x \<Rightarrow> CallToolResult result \<times> 'x"
  mc_Ping :: "nat \<Rightarrow> 'x \<Rightarrow> unit result \<times> 'x"
  mc_Close :: "nat \<Rightarrow> 'x \<Rightarrow> unit result \<times> 'x"

record file_info =
  fi_Mode :: string
  fi_IsDir :: bool
  fi_Size :: int
  fi_ModTime :: timestamp

text \<open>\<open>os.Stat\<close>, \<open>exec.LookPath\<close> and \<open>filepath.Abs\<close>, the clock, the time a call took, and the text of an error.\<close>

record host_env =
  he_Stat :: "string \<Rightarrow> file_info result"
  he_LookPath :: "string \<Rightarrow> string result"
  he_Abs :: "string \<Rightarrow> string result"
  he_now :: timestamp
  he_later :: timestamp
  he_millis :: int
  he_text :: "go_error \<Rightarrow> string"
  he_cancelled :: bool

record Registry =
  rg_manifests :: "string \<Rightarrow> ServerManifest option"
  rg_states :: "string \<Rightarrow> ServerState option"
  rg_sessions :: "string \<Rightarrow> nat option"
  rg_ids :: "string list" \<comment> \<open>the keys of the manifests\<close>

definition zero_state :: "ServerManifest \<Rightarrow> ServerState" where
  "zero_state m = \<lparr>ss_Manifest = m, ss_Status = StatusDisabled, ss_Error = [], ss_ActualServerName = [], ss_ActualServerVersion = [], ss_ProtocolVersion = [], ss_Tools = [],
     ss_ToolSetHash = [], ss_PreviousToolSetHash = [], ss_ToolsChanged = False, ss_DependenciesChecked = False, ss_DependenciesHealthy = False, ss_DependencyChecks = [],
     ss_HealthHistory = [], ss_DiscoveryHistory = [], ss_LastChecked = 0\<rparr>"

definition register :: "ServerManifest \<Rightarrow> Registry \<Rightarrow> Registry" where
  "register m r = r\<lparr>rg_manifests := (rg_manifests r)(sm_ID m \<mapsto> m), rg_states := (rg_states r)(sm_ID m \<mapsto> zero_state m),
     rg_ids := (if sm_ID m \<in> set (rg_ids r) then rg_ids r else rg_ids r @ [sm_ID m])\<rparr>"

definition NewRegistry :: "ServerManifest list \<Rightarrow> Registry" where
  "NewRegistry servers = fold register servers \<lparr>rg_manifests = Map.empty, rg_states = Map.empty, rg_sessions = Map.empty, rg_ids = []\<rparr>"

subsection \<open>Dependencies\<close>

definition registryHistoryLimit :: nat where "registryHistoryLimit = 32"

definition appendBounded :: "'a list \<Rightarrow> 'a \<Rightarrow> 'a list" where
  "appendBounded values v = (let values = values @ [v] in if length values > registryHistoryLimit then drop (length values - registryHistoryLimit) values else values)"

definition detail_rune :: regex where "detail_rune = Class False [(0x09, 0x0A), (0x0C, 0x0D), (0x20, 0x20), (0x2C, 0x2C), (0x3B, 0x3B)]"

definition registry_assignment :: regex where
  "registry_assignment = seqs [Group (seqs [alts [seqs [ci ''api'', dash, ci ''key''], seqs [ci ''access'', dash, ci ''token''], ci ''secret'', ci ''password'', ci ''passwd'', ci ''authorization''],
     Many white, Class True [(0x3A, 0x3A), (0x3D, 0x3D)], Many white]), many1 detail_rune]"

definition registry_bearer :: regex where
  "registry_bearer = seqs [Boundary, ci ''bearer'', many1 white, many1 detail_rune]"

definition boundedRegistryDetail :: "string \<Rightarrow> string" where
  "boundedRegistryDetail v =
     (let v = TrimSpace (map (\<lambda>c. if c = CHR 0x0D \<or> c = CHR 0x0A then CHR '' '' else c) v);
          v = ReplaceAll registry_assignment (\<lambda>g. g @ ''[REDACTED]'') v; v = ReplaceAll registry_bearer (\<lambda>_. ''Bearer [REDACTED]'') v
      in if length (runes v) > 512 then concat (map rune_text (take 512 (runes v))) @ ''...'' else v)"

text \<open>Letters and digits of ASCII.\<close>

definition ascii_alnum :: "char \<Rightarrow> bool" where
  "ascii_alnum c \<longleftrightarrow> is_digit c \<or> (of_char (lower_char c) :: nat) \<in> {97..122}"

definition validDependencyCommand :: "string \<Rightarrow> bool" where
  "validDependencyCommand v \<longleftrightarrow> v \<noteq> [] \<and> \<not> prefix ''-'' v \<and> CHR ''/'' \<notin> set v
     \<and> list_all (\<lambda>c. ascii_alnum c \<or> c \<in> set ''._+-'') v"

definition setDependencyMetadata :: "DependencyState \<Rightarrow> string \<Rightarrow> file_info \<Rightarrow> DependencyState" where
  "setDependencyMetadata check resolved info =
     check\<lparr>dp_Available := True, dp_Resolved := resolved, dp_Mode := fi_Mode info, dp_IsDir := fi_IsDir info, dp_SizeBytes := fi_Size info, dp_ModifiedAt := fi_ModTime info\<rparr>"

definition inspect_dependency :: "host_env \<Rightarrow> string \<Rightarrow> DependencyState" where
  "inspect_dependency env raw =
     (let name = TrimSpace raw; failed = (\<lambda>check e. check\<lparr>dp_Error := boundedRegistryDetail (he_text env e)\<rparr>);
          check = \<lparr>dp_Name = name, dp_Kind = [], dp_Available = False, dp_Resolved = [], dp_Mode = [], dp_IsDir = False, dp_SizeBytes = 0, dp_ModifiedAt = 0, dp_Error = [], dp_CheckedAt = he_now env\<rparr> in
      if IsAbs name then
        let check = check\<lparr>dp_Kind := ''path''\<rparr> in
        (case he_Stat env (Clean name) of Inl e \<Rightarrow> failed check e | Inr info \<Rightarrow> setDependencyMetadata check (Clean name) info)
      else if validDependencyCommand name then
        let check = check\<lparr>dp_Kind := ''command''\<rparr> in
        (case he_LookPath env name of Inl e \<Rightarrow> failed check e
         | Inr resolved \<Rightarrow> (case he_Abs env resolved of Inl e \<Rightarrow> failed check e
           | Inr absolute \<Rightarrow> (case he_Stat env absolute of Inl e \<Rightarrow> failed check e | Inr info \<Rightarrow> setDependencyMetadata check (Clean absolute) info)))
      else check\<lparr>dp_Kind := ''invalid'', dp_Error := ''dependency must be an absolute path or a bare command name''\<rparr>)"

definition inspectDependencies :: "host_env \<Rightarrow> string list \<Rightarrow> DependencyState list \<times> bool" where
  "inspectDependencies env values = (let checks = map (inspect_dependency env) values in (checks, list_all dp_Available checks))"

definition firstNonEmptyRegistry :: "string \<Rightarrow> string \<Rightarrow> string" where
  "firstNonEmptyRegistry v fallback = (if TrimSpace v = [] then fallback else v)"

definition dependencyFailure :: "DependencyState list \<Rightarrow> go_error option" where
  "dependencyFailure checks =
     (let missing = map (\<lambda>c. firstNonEmptyRegistry (dp_Name c) ''<empty>'') (filter (\<lambda>c. \<not> dp_Available c) checks) in
      if missing = [] then None else Some (ErrorNew (''MCP dependencies unavailable: '' @ join '', '' (sort missing))))"

subsection \<open>Discovery\<close>

definition set_state :: "string \<Rightarrow> (ServerState \<Rightarrow> ServerState) \<Rightarrow> Registry \<Rightarrow> Registry" where
  "set_state i f r = r\<lparr>rg_states := (rg_states r)(i := map_option f (rg_states r i))\<rparr>"

definition forget_session :: "string \<Rightarrow> Registry \<Rightarrow> Registry" where
  "forget_session i r = r\<lparr>rg_sessions := (rg_sessions r)(i := None)\<rparr>"

definition health_failed :: "host_env \<Rightarrow> DependencyState list \<Rightarrow> go_error \<Rightarrow> ServerState \<Rightarrow> ServerState" where
  "health_failed env checks e s =
     (let detail = boundedRegistryDetail (he_text env e); ok = (dependencyFailure checks = None) in
      s\<lparr>ss_Status := StatusUnhealthy, ss_Error := detail, ss_DependenciesChecked := True, ss_DependenciesHealthy := ok, ss_DependencyChecks := checks, ss_LastChecked := he_later env,
        ss_HealthHistory := appendBounded (ss_HealthHistory s)
          \<lparr>hr_CheckedAt = he_later env, hr_Status = StatusUnhealthy, hr_Error = detail, hr_DependenciesHealthy = ok, hr_DurationMillis = he_millis env\<rparr>\<rparr>)"

definition recordHealthFailure :: "host_env \<Rightarrow> string \<Rightarrow> DependencyState list \<Rightarrow> go_error \<Rightarrow> Registry \<Rightarrow> Registry" where
  "recordHealthFailure env i checks e = set_state i (health_failed env checks e)"

definition recordDiscoveryFailure :: "host_env \<Rightarrow> string \<Rightarrow> DependencyState list \<Rightarrow> string \<times> string \<times> string \<Rightarrow> go_error \<Rightarrow> Registry \<Rightarrow> Registry" where
  "recordDiscoveryFailure env i checks names e =
     set_state i (\<lambda>s. let s = health_failed env checks e s in
       s\<lparr>ss_DiscoveryHistory := appendBounded (ss_DiscoveryHistory s)
          \<lparr>ds_DiscoveredAt = he_later env, ds_Status = StatusUnhealthy, ds_Error = ss_Error s, ds_ServerName = fst names, ds_ServerVersion = fst (snd names), ds_ProtocolVersion = snd (snd names),
           ds_ToolSetHash = [], ds_ToolCount = 0, ds_ToolsChanged = False, ds_DependenciesHealthy = ss_DependenciesHealthy s, ds_DurationMillis = he_millis env\<rparr>\<rparr>)"

definition tool_record :: "host_env \<Rightarrow> string \<Rightarrow> string \<Rightarrow> mcp_tool \<Rightarrow> ToolRecord" where
  "tool_record env serverID version t =
     \<lparr>tl_ServerID = serverID, tl_Name = mt_Name t, tl_Description = mt_Description t, tl_InputSchema = json_text (mt_InputSchema t),
      tl_SchemaHash = sha256_hex (json_text (JObj [(''name'', JStr (mt_Name t)), (''title'', JStr (mt_Title t)), (''description'', JStr (mt_Description t)), (''input_schema'', mt_InputSchema t),
        (''output_schema'', mt_OutputSchema t), (''annotations'', mt_Annotations t)])),
      tl_DiscoveredAt = he_now env, tl_ServerVersion = version\<rparr>"

definition listTools :: "'x mcp \<Rightarrow> host_env \<Rightarrow> nat \<Rightarrow> string \<Rightarrow> string \<Rightarrow> 'x \<Rightarrow> ToolRecord list result \<times> 'x" where
  "listTools client env session serverID version x =
     (case mc_Tools client session x of (Inl e, x) \<Rightarrow> (Inl e, x) | (Inr ts, x) \<Rightarrow> (Inr (sort_key tl_Name (map (tool_record env serverID version) ts)), x))"

definition toolSetHash :: "ToolRecord list \<Rightarrow> string" where
  "toolSetHash records =
     sha256_hex (json_text (JArr (map (\<lambda>t. JObj [(''name'', JStr (tl_Name t)), (''schema_hash'', JStr (tl_SchemaHash t)), (''server_version'', JStr (tl_ServerVersion t))]) (sort_key tl_Name records))))"

definition named :: "initialized option \<Rightarrow> (string \<times> string \<times> string) option" where
  "named result = (case result of None \<Rightarrow> None | Some i \<Rightarrow> (case in_ServerInfo i of None \<Rightarrow> None
     | Some (n, v) \<Rightarrow> if TrimSpace n = [] \<or> TrimSpace v = [] \<or> TrimSpace (in_ProtocolVersion i) = [] then None else Some (n, v, in_ProtocolVersion i)))"

text \<open>What a server with these tools has become.\<close>

definition discovered :: "host_env \<Rightarrow> DependencyState list \<times> bool \<Rightarrow> string \<times> string \<times> string \<Rightarrow> ToolRecord list \<Rightarrow> ServerState \<Rightarrow> ServerState" where
  "discovered env checks names tools s =
     (let h = toolSetHash tools; changed = (ss_ToolSetHash s \<noteq> [] \<and> ss_ToolSetHash s \<noteq> h) in
      s\<lparr>ss_PreviousToolSetHash := ss_ToolSetHash s, ss_ToolsChanged := changed, ss_ToolSetHash := h, ss_ActualServerName := fst names, ss_ActualServerVersion := fst (snd names),
        ss_ProtocolVersion := snd (snd names), ss_DependenciesChecked := True, ss_DependenciesHealthy := snd checks, ss_DependencyChecks := fst checks, ss_Status := StatusHealthy, ss_Error := [],
        ss_Tools := tools, ss_LastChecked := he_later env,
        ss_DiscoveryHistory := appendBounded (ss_DiscoveryHistory s)
          \<lparr>ds_DiscoveredAt = he_later env, ds_Status = StatusHealthy, ds_Error = [], ds_ServerName = fst names, ds_ServerVersion = fst (snd names), ds_ProtocolVersion = snd (snd names),
           ds_ToolSetHash = h, ds_ToolCount = length tools, ds_ToolsChanged = changed, ds_DependenciesHealthy = snd checks, ds_DurationMillis = he_millis env\<rparr>,
        ss_HealthHistory := appendBounded (ss_HealthHistory s)
          \<lparr>hr_CheckedAt = he_later env, hr_Status = StatusHealthy, hr_Error = [], hr_DependenciesHealthy = snd checks, hr_DurationMillis = he_millis env\<rparr>\<rparr>)"

text \<open>\<open>Discover\<close> once the old session is gone.\<close>

definition connect_server :: "'x mcp \<Rightarrow> host_env \<Rightarrow> string \<Rightarrow> ServerManifest \<Rightarrow> Registry \<times> 'x \<Rightarrow> unit result \<times> Registry \<times> 'x" where
  "connect_server client env i m rx =
     (case rx of (r, x) \<Rightarrow>
      let checks = inspectDependencies env (sm_Dependencies m); failed = (\<lambda>names e. recordDiscoveryFailure env i (fst checks) names e r) in
      case dependencyFailure (fst checks) of
        Some e \<Rightarrow> (Inl e, failed ([], [], []) e, x)
      | None \<Rightarrow>
        (case mc_Connect client m x of
           (Inl e, x) \<Rightarrow> (Inl (Wrapf (''connect MCP server '' @ i) e), failed ([], [], []) e, x)
         | (Inr (session, result), x) \<Rightarrow>
           (case named result of
              None \<Rightarrow> let e = ErrorNew ''initialize result omitted actual server name, version, or protocol version'' in
                (Inl (Wrapf (''connect MCP server '' @ i) e), failed ([], [], []) e, snd (mc_Close client session x))
            | Some names \<Rightarrow>
              (case listTools client env session i (fst (snd names)) x of
                 (Inl e, x) \<Rightarrow> (Inl (Wrapf (''discover MCP server '' @ i) e), failed names e, snd (mc_Close client session x))
               | (Inr tools, x) \<Rightarrow> (Inr (), (set_state i (discovered env checks names tools) r)\<lparr>rg_sessions := (rg_sessions r)(i \<mapsto> session)\<rparr>, x)))))"

definition Discover :: "'x mcp \<Rightarrow> host_env \<Rightarrow> string \<Rightarrow> Registry \<times> 'x \<Rightarrow> unit result \<times> Registry \<times> 'x" where
  "Discover client env i rx =
     (case rx of (r, x) \<Rightarrow>
      case rg_manifests r i of
        None \<Rightarrow> (Inl (ErrorNew ''unknown MCP server %q''), r, x)
      | Some m \<Rightarrow>
        if \<not> sm_Enabled m then (Inl (ErrorNew (''MCP server '' @ i @ '' is disabled'')), r, x)
        else
          let x = (case rg_sessions r i of None \<Rightarrow> x | Some old \<Rightarrow> snd (mc_Close client old x)) in
          connect_server client env i m (forget_session i (set_state i (\<lambda>s. s\<lparr>ss_Status := StatusStarting, ss_Error := []\<rparr>) r), x))"

definition enabled_ids :: "Registry \<Rightarrow> string list" where
  "enabled_ids r = sort (filter (\<lambda>i. case rg_manifests r i of None \<Rightarrow> False | Some m \<Rightarrow> sm_Enabled m) (rg_ids r))"

fun discover_all :: "'x mcp \<Rightarrow> (string \<Rightarrow> host_env) \<Rightarrow> string list \<Rightarrow> Registry \<times> 'x \<Rightarrow> go_error list \<times> Registry \<times> 'x" where
  "discover_all client envs [] rx = ([], rx)"
| "discover_all client envs (i # is) rx = (case Discover client (envs i) i rx of (e, rx) \<Rightarrow> map_prod (\<lambda>es. (case e of Inl e \<Rightarrow> [e] | Inr _ \<Rightarrow> []) @ es) id (discover_all client envs is rx))"

definition Start :: "'x mcp \<Rightarrow> (string \<Rightarrow> host_env) \<Rightarrow> Registry \<times> 'x \<Rightarrow> go_error list \<times> Registry \<times> 'x" where
  "Start client envs rx = discover_all client envs (enabled_ids (fst rx)) rx"

subsection \<open>Switching, watching, calling\<close>

definition disabled_state :: "host_env \<Rightarrow> ServerState \<Rightarrow> ServerState" where
  "disabled_state env s =
     s\<lparr>ss_Status := StatusDisabled, ss_Error := [], ss_Tools := [], ss_PreviousToolSetHash := ss_ToolSetHash s, ss_ToolsChanged := False, ss_LastChecked := he_now env,
       ss_HealthHistory := appendBounded (ss_HealthHistory s)
         \<lparr>hr_CheckedAt = he_now env, hr_Status = StatusDisabled, hr_Error = [], hr_DependenciesHealthy = ss_DependenciesHealthy s, hr_DurationMillis = 0\<rparr>\<rparr>"

definition SetEnabled :: "'x mcp \<Rightarrow> host_env \<Rightarrow> string \<Rightarrow> bool \<Rightarrow> Registry \<times> 'x \<Rightarrow> unit result \<times> Registry \<times> 'x" where
  "SetEnabled client env i enabled rx =
     (case rx of (r, x) \<Rightarrow>
      case rg_manifests r i of
        None \<Rightarrow> (Inl (ErrorNew ''unknown MCP server %q''), r, x)
      | Some m \<Rightarrow>
        let m = m\<lparr>sm_Enabled := enabled\<rparr>; r = set_state i (\<lambda>s. s\<lparr>ss_Manifest := m\<rparr>) (r\<lparr>rg_manifests := (rg_manifests r)(i \<mapsto> m)\<rparr>) in
        if enabled then Discover client env i (r, x)
        else
          let session = rg_sessions r i;
              r = set_state i (disabled_state env) (forget_session i r) in
          (case session of None \<Rightarrow> (Inr (), r, x) | Some s \<Rightarrow> (case mc_Close client s x of (e, x) \<Rightarrow> (e, r, x))))"

definition Health :: "'x mcp \<Rightarrow> host_env \<Rightarrow> string \<Rightarrow> Registry \<times> 'x \<Rightarrow> unit result \<times> Registry \<times> 'x" where
  "Health client env i rx =
     (case rx of (r, x) \<Rightarrow>
      case rg_manifests r i of
        None \<Rightarrow> (Inl (ErrorNew ''unknown MCP server %q''), r, x)
      | Some m \<Rightarrow>
        if \<not> sm_Enabled m then (Inl (ErrorNew (''MCP server '' @ i @ '' is disabled'')), r, x)
        else
          let checks = fst (inspectDependencies env (sm_Dependencies m)) in
          (case dependencyFailure checks of
             Some e \<Rightarrow> (Inl e, recordHealthFailure env i checks e r, x)
           | None \<Rightarrow>
             (case rg_sessions r i of
                None \<Rightarrow> let e = ErrorNew (''MCP server '' @ i @ '' is not connected'') in (Inl e, recordHealthFailure env i checks e r, x)
              | Some session \<Rightarrow>
                (case mc_Ping client session x of
                   (Inl e, x) \<Rightarrow>
                     if he_cancelled env then (Inl EIO, r, x)
                     else (Inl e, recordHealthFailure env i checks e (forget_session i r), snd (mc_Close client session x))
                 | (Inr _, x) \<Rightarrow>
                   (Inr (), set_state i (\<lambda>s. s\<lparr>ss_Status := StatusHealthy, ss_Error := [], ss_DependenciesChecked := True, ss_DependenciesHealthy := True, ss_DependencyChecks := checks,
                      ss_LastChecked := he_later env, ss_HealthHistory := appendBounded (ss_HealthHistory s)
                        \<lparr>hr_CheckedAt = he_later env, hr_Status = StatusHealthy, hr_Error = [], hr_DependenciesHealthy = True, hr_DurationMillis = he_millis env\<rparr>\<rparr>) r, x)))))"

fun check_ids :: "'x mcp \<Rightarrow> (string \<Rightarrow> host_env) \<Rightarrow> string list \<Rightarrow> Registry \<times> 'x \<Rightarrow> go_error list \<times> Registry \<times> 'x" where
  "check_ids client envs [] rx = ([], rx)"
| "check_ids client envs (i # is) rx =
     (case (if rg_sessions (fst rx) i = None then Discover client (envs i) i rx else Health client (envs i) i rx) of
        (e, rx) \<Rightarrow> map_prod (\<lambda>es. (case e of Inl e \<Rightarrow> [Wrapf i e] | Inr _ \<Rightarrow> []) @ es) id (check_ids client envs is rx))"

definition CheckAll :: "'x mcp \<Rightarrow> (string \<Rightarrow> host_env) \<Rightarrow> duration \<Rightarrow> Registry \<times> 'x \<Rightarrow> go_error list \<times> Registry \<times> 'x" where
  "CheckAll client envs perServerTimeout rx =
     (if perServerTimeout \<le> 0 then ([ErrorNew ''MCP per-server health timeout must be positive''], rx) else check_ids client envs (enabled_ids (fst rx)) rx)"

definition capability :: "ServerState \<Rightarrow> ToolRecord \<Rightarrow> ToolCapability" where
  "capability s t = \<lparr>tc_ServerID = sm_ID (ss_Manifest s), tc_Name = tl_Name t, tc_Description = tl_Description t, tc_InputSchema = tl_InputSchema t\<rparr>"

definition AvailableTools :: "Registry \<Rightarrow> ToolCapability list" where
  "AvailableTools r =
     sort_key tc_ServerID (sort_key tc_Name (concat (map (\<lambda>i. case rg_states r i of None \<Rightarrow> []
       | Some s \<Rightarrow> if ss_Status s \<noteq> StatusHealthy \<or> \<not> sm_Enabled (ss_Manifest s) then [] else map (capability s) (ss_Tools s)) (rg_ids r))))"

definition CallTool :: "'x mcp \<Rightarrow> Registry \<Rightarrow> string \<Rightarrow> string \<Rightarrow> go_map \<Rightarrow> 'x \<Rightarrow> CallToolResult result \<times> 'x" where
  "CallTool client r server name arguments x =
     (case (rg_sessions r server, rg_states r server) of
        (Some session, Some s) \<Rightarrow>
          if ss_Status s \<noteq> StatusHealthy then (Inl (ErrorNew (''MCP server '' @ server @ '' is not healthy'')), x)
          else if \<not> list_ex (\<lambda>t. tl_Name t = name) (ss_Tools s) then (Inl (ErrorNew (''tool %q is not registered for server '' @ server)), x)
          else mc_CallTool client session name arguments x
      | _ \<Rightarrow> (Inl (ErrorNew (''MCP server '' @ server @ '' is not healthy'')), x))"

fun close_sessions :: "'x mcp \<Rightarrow> (string \<Rightarrow> nat option) \<Rightarrow> string list \<Rightarrow> 'x \<Rightarrow> go_error list \<times> 'x" where
  "close_sessions client sessions [] x = ([], x)"
| "close_sessions client sessions (i # is) x =
     (case sessions i of None \<Rightarrow> close_sessions client sessions is x
      | Some session \<Rightarrow> (case mc_Close client session x of (e, x) \<Rightarrow> map_prod (\<lambda>es. (case e of Inl e \<Rightarrow> [Wrapf i e] | Inr _ \<Rightarrow> []) @ es) id (close_sessions client sessions is x)))"

definition CloseRegistry :: "'x mcp \<Rightarrow> Registry \<times> 'x \<Rightarrow> go_error list \<times> Registry \<times> 'x" where
  "CloseRegistry client rx =
     (case close_sessions client (rg_sessions (fst rx)) (rg_ids (fst rx)) (snd rx) of (es, x) \<Rightarrow> (es, (fst rx)\<lparr>rg_sessions := Map.empty\<rparr>, x))"

subsection \<open>Invariant\<close>

definition state_ok :: "string \<Rightarrow> ServerManifest option \<Rightarrow> nat option \<Rightarrow> ServerState \<Rightarrow> bool" where
  "state_ok i m session s \<longleftrightarrow> m = Some (ss_Manifest s) \<and> sm_ID (ss_Manifest s) = i \<and> (ss_Status s = StatusHealthy \<longrightarrow> session \<noteq> None \<and> sm_Enabled (ss_Manifest s))
     \<and> length (ss_HealthHistory s) \<le> registryHistoryLimit \<and> length (ss_DiscoveryHistory s) \<le> registryHistoryLimit"

definition registry_ok :: "Registry \<Rightarrow> bool" where
  "registry_ok r \<longleftrightarrow> (\<forall>i. (rg_manifests r i \<noteq> None) = (i \<in> set (rg_ids r)) \<and> (rg_states r i = None) = (rg_manifests r i = None))
     \<and> (\<forall>i s. rg_states r i = Some s \<longrightarrow> state_ok i (rg_manifests r i) (rg_sessions r i) s)"

lemma appendBounded_bound [simp]: "length (appendBounded xs x) \<le> registryHistoryLimit"
  by (simp add: appendBounded_def Let_def registryHistoryLimit_def)

lemma registry_ok_new: "registry_ok (NewRegistry servers)"
proof -
  have "registry_ok r \<Longrightarrow> registry_ok (fold register servers r)" for r
  proof (induction servers arbitrary: r)
    case (Cons m ms)
    have "registry_ok (register m r)" using Cons.prems
      by (auto simp: registry_ok_def register_def state_ok_def zero_state_def)
    with Cons.IH show ?case by simp
  qed simp
  then show ?thesis by (simp add: NewRegistry_def registry_ok_def)
qed

text \<open>An operation on one server: its state, perhaps its manifest and its session.\<close>

lemma registry_ok_update:
  assumes "registry_ok r" "\<And>j. j \<noteq> i \<Longrightarrow> rg_manifests r' j = rg_manifests r j \<and> rg_states r' j = rg_states r j \<and> rg_sessions r' j = rg_sessions r j"
    "rg_ids r' = rg_ids r" "rg_manifests r i \<noteq> None" "rg_manifests r' i \<noteq> None"
    "\<And>s. rg_states r i = Some s \<Longrightarrow> \<exists>s'. rg_states r' i = Some s' \<and> state_ok i (rg_manifests r' i) (rg_sessions r' i) s'"
  shows "registry_ok r'"
proof -
  from assms(1,4) obtain s where s: "rg_states r i = Some s" unfolding registry_ok_def by (metis not_None_eq)
  from assms(6) [OF s] obtain s' where s': "rg_states r' i = Some s'" "state_ok i (rg_manifests r' i) (rg_sessions r' i) s'" by blast
  have "((rg_manifests r' j \<noteq> None) = (j \<in> set (rg_ids r')) \<and> (rg_states r' j = None) = (rg_manifests r' j = None)) \<and> (\<forall>t. rg_states r' j = Some t \<longrightarrow> state_ok j (rg_manifests r' j) (rg_sessions r' j) t)" for j
    using assms s' by (cases "j = i") (auto simp: registry_ok_def)
  then show ?thesis unfolding registry_ok_def by blast
qed

lemma registry_ok_state: "registry_ok r \<Longrightarrow> rg_states r i = Some s \<Longrightarrow> state_ok i (rg_manifests r i) (rg_sessions r i) s"
  unfolding registry_ok_def by blast

lemmas record_defs = set_state_def forget_session_def recordHealthFailure_def recordDiscoveryFailure_def health_failed_def discovered_def Let_def

text \<open>\<open>state_ok\<close> of the state that \<open>set_state\<close> leaves.\<close>

lemma set_state_ok:
  assumes "registry_ok r" "rg_manifests r i \<noteq> None" "\<And>s. state_ok i (rg_manifests r i) (rg_sessions r i) s \<Longrightarrow> state_ok i (rg_manifests r i) session (f s)"
  shows "registry_ok ((set_state i f r)\<lparr>rg_sessions := (rg_sessions r)(i := session)\<rparr>)"
  by (rule registry_ok_update [OF assms(1), of i]) (use assms in \<open>auto simp: set_state_def dest: registry_ok_state\<close>)

lemma set_state_same_session:
  assumes "registry_ok r" "rg_manifests r i \<noteq> None" "\<And>s. state_ok i (rg_manifests r i) (rg_sessions r i) s \<Longrightarrow> state_ok i (rg_manifests r i) (rg_sessions r i) (f s)"
  shows "registry_ok (set_state i f r)"
  using set_state_ok [OF assms] by (simp add: set_state_def)

lemma health_failed_ok: "state_ok i m session s \<Longrightarrow> state_ok i m session' (health_failed env checks e s)"
  by (simp add: state_ok_def health_failed_def Let_def)

lemma connect_server_ok:
  assumes "registry_ok r" "rg_manifests r i = Some m" "sm_Enabled m" "connect_server client env i m (r, x) = (e, r', x')"
  shows "registry_ok r'"
proof -
  have fail: "registry_ok (recordDiscoveryFailure env i checks names err r)" for checks names err
    unfolding recordDiscoveryFailure_def
    by (rule set_state_same_session [OF assms(1)]) (use assms(2) in \<open>auto simp: Let_def state_ok_def health_failed_def\<close>)
  have up: "registry_ok ((set_state i (discovered env checks names tools) r)\<lparr>rg_sessions := (rg_sessions r)(i \<mapsto> session)\<rparr>)" for checks names tools session
    by (rule set_state_ok [OF assms(1)]) (use assms(2,3) in \<open>auto simp: state_ok_def discovered_def Let_def\<close>)
  from assms(4) show ?thesis
    by (auto simp: connect_server_def Let_def intro: fail up split: option.splits prod.splits sum.splits)
qed

lemma Discover_ok:
  assumes "registry_ok r" "Discover client env i (r, x) = (e, r', x')"
  shows "registry_ok r'"
proof (cases "\<exists>m. rg_manifests r i = Some m \<and> sm_Enabled m")
  case False
  with assms show ?thesis by (auto simp: Discover_def split: option.splits if_splits)
next
  case True
  then obtain m where m: "rg_manifests r i = Some m" "sm_Enabled m" by blast
  let ?r = "forget_session i (set_state i (\<lambda>s. s\<lparr>ss_Status := StatusStarting, ss_Error := []\<rparr>) r)"
  have "registry_ok ?r" using set_state_ok [OF assms(1), of i None "\<lambda>s. s\<lparr>ss_Status := StatusStarting, ss_Error := []\<rparr>"] m
    by (auto simp: forget_session_def set_state_def state_ok_def)
  moreover have "rg_manifests ?r i = Some m" using m by (simp add: forget_session_def set_state_def)
  ultimately show ?thesis using assms(2) m connect_server_ok [of ?r i m client env] by (auto simp: Discover_def Let_def)
qed

lemma SetEnabled_ok:
  assumes "registry_ok r" "SetEnabled client env i enabled (r, x) = (e, r', x')"
  shows "registry_ok r'"
proof (cases "rg_manifests r i")
  case None
  with assms show ?thesis by (simp add: SetEnabled_def)
next
  case (Some m)
  let ?m = "m\<lparr>sm_Enabled := enabled\<rparr>"
  let ?r = "set_state i (\<lambda>s. s\<lparr>ss_Manifest := ?m\<rparr>) (r\<lparr>rg_manifests := (rg_manifests r)(i \<mapsto> ?m)\<rparr>)"
  show ?thesis
  proof (cases enabled)
    case True
    have "registry_ok ?r"
      by (rule registry_ok_update [OF assms(1), of i]) (use Some True registry_ok_state [OF assms(1), of i] in \<open>auto simp: set_state_def state_ok_def\<close>)
    with assms(2) Some True Discover_ok show ?thesis by (auto simp: SetEnabled_def Let_def)
  next
    case False
    have r': "r' = set_state i (disabled_state env) (forget_session i ?r)"
      using assms(2) Some False by (auto simp: SetEnabled_def Let_def split: option.splits prod.splits)
    show ?thesis
      by (rule registry_ok_update [OF assms(1), of i])
        (use Some registry_ok_state [OF assms(1), of i] in \<open>auto simp: r' set_state_def forget_session_def state_ok_def disabled_state_def\<close>)
  qed
qed

lemma Health_ok:
  assumes "registry_ok r" "Health client env i (r, x) = (e, r', x')"
  shows "registry_ok r'"
proof (cases "\<exists>m. rg_manifests r i = Some m \<and> sm_Enabled m")
  case False
  with assms show ?thesis by (auto simp: Health_def split: option.splits if_splits)
next
  case True
  then obtain m where m: "rg_manifests r i = Some m" "sm_Enabled m" by blast
  have fail: "registry_ok (recordHealthFailure env i checks err r)" for checks err
    unfolding recordHealthFailure_def by (rule set_state_same_session [OF assms(1)]) (use m in \<open>auto intro: health_failed_ok\<close>)
  have lost: "registry_ok (recordHealthFailure env i checks err (forget_session i r))" for checks err
    by (rule registry_ok_update [OF assms(1), of i])
      (use m registry_ok_state [OF assms(1), of i] in \<open>auto simp: recordHealthFailure_def forget_session_def set_state_def intro: health_failed_ok\<close>)
  have well: "registry_ok (set_state i f r)" if "rg_sessions r i \<noteq> None"
    "\<And>s. ss_Manifest (f s) = ss_Manifest s \<and> ss_DiscoveryHistory (f s) = ss_DiscoveryHistory s \<and> length (ss_HealthHistory (f s)) \<le> registryHistoryLimit" for f
    by (rule set_state_same_session [OF assms(1)]) (use m that in \<open>auto simp: state_ok_def\<close>)
  from assms m show ?thesis
    by (auto simp: Health_def Let_def split: option.splits prod.splits sum.splits if_splits intro!: fail lost well)
qed

subsection \<open>What is offered is what can be called\<close>

text \<open>The registry as the server uses it until it closes it at its end.\<close>

inductive registry_reach :: "'x mcp \<Rightarrow> Registry \<Rightarrow> bool" for client where
  new: "registry_reach client (NewRegistry servers)"
| discover: "registry_reach client r \<Longrightarrow> Discover client env i (r, x) = (e, r', x') \<Longrightarrow> registry_reach client r'"
| health: "registry_reach client r \<Longrightarrow> Health client env i (r, x) = (e, r', x') \<Longrightarrow> registry_reach client r'"
| set_enabled: "registry_reach client r \<Longrightarrow> SetEnabled client env i enabled (r, x) = (e, r', x') \<Longrightarrow> registry_reach client r'"

lemma registry_reach_ok: "registry_reach client r \<Longrightarrow> registry_ok r"
  by (induction rule: registry_reach.induct) (auto intro: registry_ok_new Discover_ok Health_ok SetEnabled_ok)

text \<open>\<open>Start\<close> and \<open>CheckAll\<close> are sequences of these steps.\<close>

lemma discover_all_reach: "registry_reach client (fst rx) \<Longrightarrow> registry_reach client (fst (snd (discover_all client envs is rx)))"
proof (induction "is" arbitrary: rx)
  case (Cons i "is")
  obtain e r x where "Discover client (envs i) i rx = (e, r, x)" by (metis prod.collapse)
  with Cons registry_reach.discover [of client "fst rx" "envs i" i "snd rx" e r x] show ?case by (auto split: prod.splits)
qed simp

lemma check_ids_reach: "registry_reach client (fst rx) \<Longrightarrow> registry_reach client (fst (snd (check_ids client envs is rx)))"
proof (induction "is" arbitrary: rx)
  case (Cons i "is")
  obtain e r x where R: "(if rg_sessions (fst rx) i = None then Discover client (envs i) i rx else Health client (envs i) i rx) = (e, r, x)" by (metis prod.collapse)
  with Cons.prems registry_reach.discover [of client "fst rx" "envs i" i "snd rx" e r x] registry_reach.health [of client "fst rx" "envs i" i "snd rx" e r x]
  have "registry_reach client r" by (auto split: if_splits)
  with Cons.IH [of "(r, x)"] R show ?case by auto
qed simp

lemma lifecycle_reach:
  "registry_reach client (fst rx) \<Longrightarrow> registry_reach client (fst (snd (Start client envs rx)))"
  "registry_reach client (fst rx) \<Longrightarrow> registry_reach client (fst (snd (CheckAll client envs perServerTimeout rx)))"
  by (simp_all add: Start_def CheckAll_def discover_all_reach check_ids_reach)

lemma offered_iff:
  assumes "registry_ok r"
  shows "(\<exists>c \<in> set (AvailableTools r). tc_ServerID c = server \<and> tc_Name c = name)
    \<longleftrightarrow> (\<exists>s. rg_states r server = Some s \<and> ss_Status s = StatusHealthy \<and> (\<exists>t \<in> set (ss_Tools s). tl_Name t = name))"
    (is "?offered = ?callable")
proof -
  have id: "sm_ID (ss_Manifest s) = i \<and> (ss_Status s = StatusHealthy \<longrightarrow> sm_Enabled (ss_Manifest s)) \<and> i \<in> set (rg_ids r)" if "rg_states r i = Some s" for i s
    using registry_ok_state [OF assms that] assms that by (auto simp: state_ok_def registry_ok_def)
  show ?thesis
  proof
    assume ?offered
    then obtain i s t where "rg_states r i = Some s" "ss_Status s = StatusHealthy" "t \<in> set (ss_Tools s)" "tl_Name t = name" "sm_ID (ss_Manifest s) = server"
      by (auto simp: AvailableTools_def capability_def split: option.splits if_splits) (metis)
    with id show ?callable by metis
  next
    assume ?callable
    then obtain s t where s: "rg_states r server = Some s" "ss_Status s = StatusHealthy" "t \<in> set (ss_Tools s)" "tl_Name t = name" by blast
    with id [OF s(1)] have "capability s t \<in> set (AvailableTools r)" by (force simp: AvailableTools_def)
    with id [OF s(1)] s(4) show ?offered by (intro bexI [of _ "capability s t"]) (simp_all add: capability_def)
  qed
qed


definition sample_manifest :: ServerManifest where
  "sample_manifest = \<lparr>sm_ID = ''sys'', sm_Name = ''sys'', sm_DisplayName = [], sm_Version = ''1'', sm_Description = [], sm_Transport = ''stdio'', sm_Command = ''/bin/sys'', sm_Arguments = [],
     sm_Enabled = True, sm_HealthCheck = [], sm_Source = [], sm_Capabilities = [], sm_Dependencies = [], sm_Environment = []\<rparr>"

definition sample_tool :: mcp_tool where
  "sample_tool = \<lparr>mt_Name = ''cpu'', mt_Title = [], mt_Description = [], mt_InputSchema = JNull, mt_OutputSchema = JNull, mt_Annotations = JNull\<rparr>"

definition sample_client :: "nat mcp" where
  "sample_client = \<lparr>mc_Connect = (\<lambda>_ x. (Inr (1, Some \<lparr>in_ServerInfo = Some (''sys'', ''1''), in_ProtocolVersion = ''1''\<rparr>), x)), mc_Tools = (\<lambda>_ x. (Inr [sample_tool], x)),
     mc_CallTool = (\<lambda>_ _ _ x. (Inr \<lparr>cr_IsError = False, cr_StructuredContent = None, cr_Text = []\<rparr>, Suc x)), mc_Ping = (\<lambda>_ x. (Inr (), x)), mc_Close = (\<lambda>_ x. (Inr (), x))\<rparr>"

definition sample_host :: host_env where
  "sample_host = \<lparr>he_Stat = (\<lambda>_. Inl ErrNotExist), he_LookPath = (\<lambda>_. Inl ErrNotExist), he_Abs = Inr, he_now = 0, he_later = 1, he_millis = 1, he_text = (\<lambda>_. []), he_cancelled = False\<rparr>"


text \<open>A configuration that \<open>Load\<close> accepts names every server once, with a command over standard input and output.\<close>

lemma LoadRegistry_checked:
  assumes "LoadRegistry content parse = Inr ms"
  shows "distinct (map sm_ID ms) \<and> (\<forall>m \<in> set ms. sm_ID m \<noteq> [] \<and> sm_Name m \<noteq> [] \<and> sm_Transport m = ''stdio'' \<and> sm_Command m \<noteq> [])"
proof -
  have "distinct (map sm_ID ms) \<and> (\<forall>m \<in> set ms. sm_ID m \<notin> set seen \<and> sm_ID m \<noteq> [] \<and> sm_Name m \<noteq> [] \<and> sm_Transport m = ''stdio'' \<and> sm_Command m \<noteq> [])"
    if "check_servers i seen ms = Inr ()" for i seen
    using that
  proof (induction ms arbitrary: i seen)
    case (Cons m ms)
    from Cons.prems have c: "sm_ID m \<noteq> []" "sm_Name m \<noteq> []" "sm_ID m \<notin> set seen" "sm_Transport m = ''stdio''" "sm_Command m \<noteq> []" "check_servers (Suc i) (sm_ID m # seen) ms = Inr ()"
      by (simp_all split: if_split_asm)
    from Cons.IH [OF c(6)] c(1-5) show ?case by fastforce
  qed simp
  with assms show ?thesis by (auto simp: LoadRegistry_def split: sum.splits)
qed

text \<open>A closed registry passes no call on.\<close>

lemma closed_registry_calls_nothing: "\<exists>e. CallTool client' (fst (snd (CloseRegistry client rx))) server name arguments x = (Inl e, x)"
  by (auto simp: CloseRegistry_def CallTool_def split: prod.split)

end
