(* ===== verification/Safefs.thy ===== *)
theory Safefs
  imports Json GoPath Crypto
begin

text \<open>
  \<open>internal/safefs\<close>: how the tool servers read files. A path is resolved below one of the allowlisted roots, opened once as a directory descriptor, without following any symbolic link, by
  \<open>openat2\<close> or, on kernels without it, component by component. The file system is a tree that does not change during a call; an open file is the node it refers to, and an open of a special file returns. Reading an open file,
  \<open>fstat\<close> and \<open>close\<close> do not fail. Cancellation is left out.
\<close>

subsection \<open>The file system\<close>

datatype file_kind = KDir | KRegular | KSymlink | KOther

record inode =
  io_Kind :: file_kind
  io_Size :: nat
  io_Mode :: string
  io_ModTime :: timestamp
  io_Content :: string
  io_Unreadable :: bool \<comment> \<open>opening it for reading fails\<close>

text \<open>A node has its name in its directory, its inode and, for a directory, its entries.\<close>

datatype node = Node (nd_Name: string) (nd_Inode: inode) (nd_Kids: "node list")

abbreviation nd_kind :: "node \<Rightarrow> file_kind" where "nd_kind n \<equiv> io_Kind (nd_Inode n)"

definition lookup :: "node \<Rightarrow> string \<Rightarrow> node result" where
  "lookup n c =
     (if nd_kind n \<noteq> KDir then Inl (ErrorNew ''not a directory'')
      else (case find (\<lambda>k. nd_Name k = c) (nd_Kids n) of None \<Rightarrow> Inl ErrNotExist | Some k \<Rightarrow> Inr k))"

definition ELOOP :: go_error where "ELOOP = ErrorNew ''too many levels of symbolic links''"

text \<open>\<open>openat(2)\<close> of one component with \<open>O_NOFOLLOW\<close>: as a directory, and with the flags of the caller, of which only \<open>O_PATH\<close> matters. With \<open>O_PATH\<close> a symbolic link itself is opened.\<close>

definition openat_directory :: "node \<Rightarrow> string \<Rightarrow> node result" where
  "openat_directory n c = (case lookup n c of Inl e \<Rightarrow> Inl e | Inr k \<Rightarrow> if nd_kind k = KDir then Inr k else Inl (ErrorNew ''not a directory''))"

definition openat_last :: "bool \<Rightarrow> node \<Rightarrow> string \<Rightarrow> node result" where
  "openat_last opath n c =
     (case lookup n c of Inl e \<Rightarrow> Inl e
      | Inr k \<Rightarrow> if opath then Inr k else if nd_kind k = KSymlink then Inl ELOOP else if io_Unreadable (nd_Inode k) then Inl EIO else Inr k)"

text \<open>\<open>openat2(2)\<close> with \<open>RESOLVE_BENEATH\<close>, \<open>RESOLVE_NO_MAGICLINKS\<close> and \<open>RESOLVE_NO_SYMLINKS\<close>.\<close>

fun openat2 :: "bool \<Rightarrow> node \<Rightarrow> string list \<Rightarrow> node result" where
  "openat2 opath n [] = Inl ErrNotExist"
| "openat2 opath n [c] = openat_last opath n c"
| "openat2 opath n (c # cs) = (case lookup n c of Inl e \<Rightarrow> Inl e | Inr k \<Rightarrow> if nd_kind k = KSymlink then Inl ELOOP else openat2 opath k cs)"

subsection \<open>Opening securely\<close>

definition securePathComponents :: "string \<Rightarrow> string list result" where
  "securePathComponents relative =
     (if relative = [] \<or> relative = ''.'' \<or> IsAbs relative \<or> Clean relative \<noteq> relative then Inl (ErrorNew ''secure path must be a clean relative path'')
      else let components = split_on (CHR ''/'') relative in
        if list_ex (\<lambda>c. c = [] \<or> c = ''.'' \<or> c = ''..'') components then Inl (ErrorNew ''secure path contains a forbidden component'') else Inr components)"

text \<open>The loop of \<open>openatNoSymlinks\<close>.\<close>

fun open_components :: "bool \<Rightarrow> node \<Rightarrow> string list \<Rightarrow> node result" where
  "open_components opath n [] = Inl (ErrorNew ''secure path has no components'')"
| "open_components opath n [c] =
     (case openat_last opath n c of Inl e \<Rightarrow> Inl e | Inr k \<Rightarrow> if nd_kind k = KSymlink then Inl (ErrorNew ''symlink paths are not allowed'') else Inr k)"
| "open_components opath n (c # cs) =
     (case openat_directory n c of Inl e \<Rightarrow> Inl e | Inr k \<Rightarrow> if nd_kind k = KSymlink then Inl (ErrorNew ''symlink paths are not allowed'') else open_components opath k cs)"

definition openatNoSymlinks :: "node \<Rightarrow> string \<Rightarrow> bool \<Rightarrow> node result" where
  "openatNoSymlinks n relative opath = (case securePathComponents relative of Inl e \<Rightarrow> Inl e | Inr cs \<Rightarrow> open_components opath n cs)"

text \<open>\<open>k_openat2\<close> says whether the kernel has \<open>openat2\<close>, without which the call is \<open>ENOSYS\<close>; \<open>k_fd\<close> is the number it gives the descriptor of the file that is opened.\<close>

record kernel =
  k_openat2 :: bool
  k_fd :: nat

definition secureOpenAt :: "kernel \<Rightarrow> node \<Rightarrow> string \<Rightarrow> bool \<Rightarrow> node result" where
  "secureOpenAt has n relative opath =
     (case securePathComponents relative of Inl e \<Rightarrow> Inl e | Inr cs \<Rightarrow> if k_openat2 has then openat2 opath n cs else openatNoSymlinks n relative opath)"

record allowedRoot =
  ar_display :: string
  ar_canonical :: string
  ar_node :: node

definition root_step :: "string \<Rightarrow> (allowedRoot \<times> string) option \<Rightarrow> allowedRoot \<Rightarrow> (allowedRoot \<times> string) option" where
  "root_step clean selected root =
     (case Rel (ar_display root) clean of Inl _ \<Rightarrow> selected
      | Inr rel \<Rightarrow>
        if rel = ''..'' \<or> prefix ''../'' rel then selected
        else (case selected of None \<Rightarrow> Some (root, rel) | Some (s, _) \<Rightarrow> if length (ar_display root) > length (ar_display s) then Some (root, rel) else selected))"

definition rootFor :: "allowedRoot list \<Rightarrow> string \<Rightarrow> (allowedRoot \<times> string) result" where
  "rootFor roots path =
     (let clean = Clean (TrimSpace path) in
      if \<not> IsAbs clean then Inl (ErrorNew ''path must be absolute'')
      else (case foldl (root_step clean) None roots of None \<Rightarrow> Inl (ErrorNew ''path is outside all allowlisted roots'') | Some r \<Rightarrow> Inr r))"

text \<open>An open file: the name it was given and the node. A file that is not a directory is opened again through \<open>/proc\<close> and is then named after its descriptor.\<close>

type_synonym open_file = "string \<times> node"

definition reopenPathFile :: "kernel \<Rightarrow> open_file \<Rightarrow> open_file result" where
  "reopenPathFile has f =
     (if io_Unreadable (nd_Inode (snd f)) then Inl EIO
      else if nd_kind (snd f) = KDir then Inr f
      else Inr (''/proc/self/fd/'' @ itoa (int (k_fd has)), snd f))"

lemma reopenPathFile_same: "reopenPathFile has (name, n) = Inr (again, m) \<Longrightarrow> m = n"
  by (auto simp: reopenPathFile_def split: if_splits)

definition openPath :: "kernel \<Rightarrow> allowedRoot list \<Rightarrow> string \<Rightarrow> bool \<Rightarrow> open_file result" where
  "openPath has roots path opath =
     (case rootFor roots path of Inl e \<Rightarrow> Inl e
      | Inr (root, relative) \<Rightarrow>
        if relative = ''.'' then (let f = (ar_canonical root, ar_node root) in if opath then Inr f else reopenPathFile has f)
        else (case secureOpenAt has (ar_node root) relative opath of
            Inl e \<Rightarrow> Inl (Wrapf (''securely open '' @ Clean path) e)
          | Inr n \<Rightarrow> if nd_kind n = KSymlink then Inl (ErrorNew ''symlink paths are not allowed'') else Inr (Clean path, n)))"

subsection \<open>Walking\<close>

text \<open>A visitor gets the relative path, the depth and the open file, or none for a symbolic link, and says whether to descend and whether to stop.\<close>

type_synonym 's visitor = "string \<Rightarrow> int \<Rightarrow> open_file option \<Rightarrow> 's \<Rightarrow> (bool \<times> bool) result \<times> 's"

lemma find_size: "find P xs = Some x \<Longrightarrow> size x < Suc (size_list size xs)"
  by (auto simp: find_Some_iff less_Suc_eq_le intro!: size_list_estimation')

lemma lookup_size: "lookup n c = Inr k \<Longrightarrow> size k < size n"
  by (cases n) (auto simp: lookup_def dest: find_size split: if_splits option.splits)

lemma openat2_size: "openat2 opath n cs = Inr k \<Longrightarrow> size k < size n"
  by (induction opath n cs rule: openat2.induct) (auto simp: openat_last_def dest: lookup_size split: sum.splits if_splits)

lemma open_components_size: "open_components opath n cs = Inr k \<Longrightarrow> size k < size n"
  by (induction opath n cs rule: open_components.induct) (auto simp: openat_last_def openat_directory_def dest: lookup_size split: sum.splits if_splits)

lemma secureOpenAt_size: "secureOpenAt has n relative opath = Inr k \<Longrightarrow> size k < size n"
  by (auto simp: secureOpenAt_def openatNoSymlinks_def dest: openat2_size open_components_size split: sum.splits if_splits)

text \<open>The loop of \<open>walkDirectory\<close> over the sorted entries of a directory. A visitor that stops ends the loop of its directory only.\<close>

function walk_entries :: "kernel \<Rightarrow> 's visitor \<Rightarrow> string \<Rightarrow> int \<Rightarrow> node \<Rightarrow> node list \<Rightarrow> 's \<Rightarrow> unit result \<times> 's" where
  "walk_entries has visit pre parentDepth dir [] s = (Inr (), s)"
| "walk_entries has visit pre parentDepth dir (e # es) s =
     (let relative = pathJoin [pre, nd_Name e]; depth = parentDepth + 1;
          skip = (\<lambda>s. case visit relative depth None s of (Inl err, s) \<Rightarrow> (Inl err, s) | (Inr (_, stop), s) \<Rightarrow> if stop then (Inr (), s) else walk_entries has visit pre parentDepth dir es s) in
      if nd_kind e = KSymlink then skip s
      else (case secureOpenAt has dir (nd_Name e) True of
          Inl err \<Rightarrow> if err = ELOOP then skip s else (Inl (Wrapf (''securely open '' @ relative) err), s)
        | Inr k \<Rightarrow>
          if nd_kind k = KSymlink then skip s
          else (case visit relative depth (Some (relative, k)) s of
              (Inl err, s) \<Rightarrow> (Inl err, s)
            | (Inr (descend, stop), s) \<Rightarrow>
              if stop then (Inr (), s)
              else if descend \<and> nd_kind k = KDir then
                (case reopenPathFile has (relative, k) of
                   Inl openErr \<Rightarrow> (Inl openErr, s)
                 | Inr child \<Rightarrow>
                   (case walk_entries has visit relative depth (snd child) (sort_key nd_Name (nd_Kids (snd child))) s of
                      (Inl err, s) \<Rightarrow> (Inl (Joined [err]), s)
                    | (Inr _, s) \<Rightarrow> walk_entries has visit pre parentDepth dir es s))
              else walk_entries has visit pre parentDepth dir es s)))"
  by pat_completeness auto
termination
  by (relation "measures [\<lambda>(has, visit, pre, d, dir, es, s). size dir, \<lambda>(has, visit, pre, d, dir, es, s). length es]") (auto dest!: reopenPathFile_same dest: secureOpenAt_size)

definition walkDirectory :: "kernel \<Rightarrow> 's visitor \<Rightarrow> string \<Rightarrow> int \<Rightarrow> node \<Rightarrow> 's \<Rightarrow> unit result \<times> 's" where
  "walkDirectory has visit pre parentDepth dir s = walk_entries has visit pre parentDepth dir (sort_key nd_Name (nd_Kids dir)) s"

definition walk :: "kernel \<Rightarrow> allowedRoot list \<Rightarrow> string \<Rightarrow> 's visitor \<Rightarrow> 's \<Rightarrow> unit result \<times> 's" where
  "walk has roots path visit s =
     (case openPath has roots path True of
        Inl e \<Rightarrow> (Inl e, s)
      | Inr f \<Rightarrow>
        if nd_kind (snd f) \<noteq> KDir then (case visit ''.'' 0 (Some f) s of (Inl e, s) \<Rightarrow> (Inl e, s) | (Inr _, s) \<Rightarrow> (Inr (), s))
        else (case reopenPathFile has f of Inl e \<Rightarrow> (Inl e, s) | Inr d \<Rightarrow> walkDirectory has visit [] 0 (snd d) s))"

subsection \<open>The operations of a reader\<close>

record FileMetadata =
  fm_Path :: string
  fm_Name :: string
  fm_SizeBytes :: int
  fm_Mode :: string
  fm_IsDir :: bool
  fm_IsRegular :: bool
  fm_Modified :: timestamp

definition DefaultHashLimit :: int where "DefaultHashLimit = 16777216"
definition DefaultTotalLimit :: int where "DefaultTotalLimit = 33554432"
definition maxSnapshotDepth :: int where "maxSnapshotDepth = 64"

lemmas reader_limits = DefaultHashLimit_def DefaultTotalLimit_def maxSnapshotDepth_def

text \<open>\<open>info.Name()\<close> is the base of the name the file was opened with.\<close>

definition metadata :: "string \<Rightarrow> open_file \<Rightarrow> FileMetadata" where
  "metadata path f =
     (let i = nd_Inode (snd f) in
      \<lparr>fm_Path = Clean path, fm_Name = Base (fst f), fm_SizeBytes = int (io_Size i), fm_Mode = io_Mode i, fm_IsDir = (io_Kind i = KDir), fm_IsRegular = (io_Kind i = KRegular), fm_Modified = io_ModTime i\<rparr>)"

definition Reader_Metadata :: "kernel \<Rightarrow> allowedRoot list \<Rightarrow> string \<Rightarrow> FileMetadata result" where
  "Reader_Metadata has roots path = map_sum id (metadata path) (openPath has roots path True)"

definition list_visit :: "string \<Rightarrow> int \<Rightarrow> (FileMetadata list \<times> bool) visitor" where
  "list_visit path most relative depth k s =
     (if int (length (fst s)) \<ge> most then (Inr (False, True), (fst s, True))
      else case k of
        None \<Rightarrow> (Inr (False, False), (fst s @ [\<lparr>fm_Path = pathJoin [path, relative], fm_Name = Base relative, fm_SizeBytes = 0, fm_Mode = ''L---------'', fm_IsDir = False, fm_IsRegular = False, fm_Modified = 0\<rparr>], snd s))
      | Some f \<Rightarrow> (Inr (False, False), (fst s @ [metadata (pathJoin [path, relative]) f], snd s)))"

definition Reader_List :: "kernel \<Rightarrow> allowedRoot list \<Rightarrow> string \<Rightarrow> int \<Rightarrow> (FileMetadata list \<times> bool) result" where
  "Reader_List has roots path limit =
     (let most = (if limit \<le> 0 then 100 else limit) in
      if most > 500 then Inl (ErrorNew ''limit must not exceed 500'')
      else (case openPath has roots path True of Inl e \<Rightarrow> Inl e
        | Inr f \<Rightarrow>
          if nd_kind (snd f) \<noteq> KDir then Inl (ErrorNew ''path is not a directory'')
          else (case reopenPathFile has f of Inl e \<Rightarrow> Inl e
            | Inr d \<Rightarrow> (case walkDirectory has (list_visit path most) [] 0 (snd d) ([], False) of (Inl e, _) \<Rightarrow> Inl e | (Inr _, out) \<Rightarrow> Inr out))))"

text \<open>The bytes read may be more or fewer than the size that was announced.\<close>

definition hashOpenFile :: "node \<Rightarrow> int \<Rightarrow> (string \<times> int) result" where
  "hashOpenFile n maxBytes =
     (let i = nd_Inode n; text = io_Content i in
      if io_Kind i \<noteq> KRegular then Inl (ErrorNew ''path is not a regular file'')
      else if int (io_Size i) > maxBytes then Inl (ErrorNew (''file exceeds max_bytes '' @ itoa maxBytes))
      else if int (length text) > maxBytes then Inl (ErrorNew (''file grew beyond max_bytes '' @ itoa maxBytes))
      else Inr (sha256_hex text, int (length text)))"

definition Reader_Hash :: "kernel \<Rightarrow> allowedRoot list \<Rightarrow> string \<Rightarrow> int \<Rightarrow> (FileMetadata \<times> string \<times> int) result" where
  "Reader_Hash has roots path maxBytes =
     (let most = (if maxBytes \<le> 0 then DefaultHashLimit else maxBytes) in
      if most > DefaultHashLimit then Inl (ErrorNew (''max_bytes must not exceed '' @ itoa DefaultHashLimit))
      else (case openPath has roots path False of Inl e \<Rightarrow> Inl e
        | Inr f \<Rightarrow> (case hashOpenFile (snd f) most of Inl e \<Rightarrow> Inl e | Inr (h, n) \<Rightarrow> Inr (metadata path f, h, n))))"

definition large_visit :: "string \<Rightarrow> int \<Rightarrow> int \<Rightarrow> FileMetadata list visitor" where
  "large_visit path minimumBytes maxDepth relative depth k found =
     (case k of None \<Rightarrow> (Inr (False, False), found)
      | Some f \<Rightarrow>
        if depth > maxDepth then (Inr (False, False), found)
        else if nd_kind (snd f) = KDir then (Inr (depth < maxDepth, False), found)
        else if nd_kind (snd f) = KRegular \<and> int (io_Size (nd_Inode (snd f))) \<ge> minimumBytes then (Inr (False, False), found @ [metadata (pathJoin [path, relative]) f])
        else (Inr (False, False), found))"

definition FindLarge :: "kernel \<Rightarrow> allowedRoot list \<Rightarrow> string \<Rightarrow> int \<Rightarrow> int \<Rightarrow> int \<Rightarrow> (FileMetadata list \<times> bool) result" where
  "FindLarge has roots path minimumBytes maxDepth limit =
     (let deepest = (if maxDepth \<le> 0 then 4 else maxDepth); most = (if limit \<le> 0 then 50 else limit) in
      if minimumBytes < 0 then Inl (ErrorNew ''minimum_bytes must not be negative'')
      else if deepest > 16 then Inl (ErrorNew ''max_depth must not exceed 16'')
      else if most > 200 then Inl (ErrorNew ''limit must not exceed 200'')
      else (case walk has roots path (large_visit path minimumBytes deepest) [] of
          (Inl e, _) \<Rightarrow> Inl e
        | (Inr _, found) \<Rightarrow>
          let found = sort_key (\<lambda>m. - fm_SizeBytes m) (sort_key fm_Path found) in Inr (take (nat most) found, int (length found) > most)))"

record DirectoryUsage =
  du_Path :: string
  du_SizeBytes :: int
  du_Files :: int
  du_Directories :: int
  du_Skipped :: int
  du_Truncated :: bool

text \<open>A symbolic link is never at depth 0, so the two tests on it may be swapped. What was counted before an error is dropped, as by the callers.\<close>

definition usage_visit :: "int \<Rightarrow> int \<Rightarrow> (DirectoryUsage \<times> int) visitor" where
  "usage_visit maxDepth maxEntries relative depth k s =
     (case s of (out, visited) \<Rightarrow>
      case k of
        None \<Rightarrow> (Inr (False, False), (out\<lparr>du_Skipped := du_Skipped out + 1\<rparr>, visited))
      | Some (_, n) \<Rightarrow>
        if depth = 0 then (if nd_kind n \<noteq> KDir then (Inl (ErrorNew ''path is not a directory''), s) else (Inr (True, False), s))
        else if depth > maxDepth then (Inr (False, False), (out\<lparr>du_Truncated := True\<rparr>, visited))
        else if visited \<ge> maxEntries then (Inr (False, True), (out\<lparr>du_Truncated := True\<rparr>, visited))
        else if nd_kind n = KDir then (Inr (depth < maxDepth, False), (out\<lparr>du_Directories := du_Directories out + 1\<rparr>, visited + 1))
        else if nd_kind n = KRegular then (Inr (False, False), (out\<lparr>du_Files := du_Files out + 1, du_SizeBytes := du_SizeBytes out + int (io_Size (nd_Inode n))\<rparr>, visited + 1))
        else (Inr (False, False), (out\<lparr>du_Skipped := du_Skipped out + 1\<rparr>, visited + 1)))"

definition Usage :: "kernel \<Rightarrow> allowedRoot list \<Rightarrow> string \<Rightarrow> int \<Rightarrow> int \<Rightarrow> DirectoryUsage result" where
  "Usage has roots path maxDepth maxEntries =
     (let deepest = (if maxDepth \<le> 0 then 4 else maxDepth); most = (if maxEntries \<le> 0 then 5000 else maxEntries) in
      if deepest > 16 then Inl (ErrorNew ''max_depth must not exceed 16'')
      else if most > 20000 then Inl (ErrorNew ''max_entries must not exceed 20000'')
      else (case walk has roots path (usage_visit deepest most) (\<lparr>du_Path = path, du_SizeBytes = 0, du_Files = 0, du_Directories = 0, du_Skipped = 0, du_Truncated = False\<rparr>, 0) of
          (Inl e, _) \<Rightarrow> Inl e
        | (Inr _, out) \<Rightarrow> Inr (fst out)))"

record SnapshotEntry =
  sn_RelativePath :: string
  sn_SizeBytes :: int
  sn_Modified :: timestamp
  sn_SHA256 :: string

record Snapshot =
  sh_Root :: string
  sh_Entries :: "SnapshotEntry list"
  sh_Skipped :: "(string \<times> string) list"
  sh_HashedBytes :: int
  sh_Truncated :: bool

definition skip_entry :: "string \<Rightarrow> string \<Rightarrow> Snapshot \<Rightarrow> (bool \<times> bool) result \<times> Snapshot" where
  "skip_entry relative reason out = (Inr (False, False), out\<lparr>sh_Skipped := sh_Skipped out @ [(relative, reason)]\<rparr>)"

definition snapshot_visit :: "kernel \<Rightarrow> int \<Rightarrow> int \<Rightarrow> int \<Rightarrow> Snapshot visitor" where
  "snapshot_visit has most maxFileBytes maxTotalBytes relative depth k out =
     (if int (length (sh_Entries out)) + int (length (sh_Skipped out)) \<ge> most then (Inr (False, True), out\<lparr>sh_Truncated := True\<rparr>)
      else case k of
        None \<Rightarrow> skip_entry relative ''symlink'' out
      | Some (name, n) \<Rightarrow>
        if nd_kind n = KDir then
          (if depth \<ge> maxSnapshotDepth then skip_entry relative ''depth_limit'' (out\<lparr>sh_Truncated := True\<rparr>) else (Inr (True, False), out))
        else if nd_kind n \<noteq> KRegular then skip_entry relative ''not_regular'' out
        else if int (io_Size (nd_Inode n)) > maxFileBytes then skip_entry relative ''file_limit'' out
        else if sh_HashedBytes out + int (io_Size (nd_Inode n)) > maxTotalBytes then skip_entry relative ''total_limit'' out
        else (case reopenPathFile has (name, n) of Inl e \<Rightarrow> (Inl e, out)
          | Inr f \<Rightarrow> (case hashOpenFile (snd f) maxFileBytes of Inl e \<Rightarrow> (Inl (Joined [e]), out)
            | Inr (h, bytesRead) \<Rightarrow>
              (Inr (False, False), out\<lparr>sh_HashedBytes := sh_HashedBytes out + bytesRead,
                 sh_Entries := sh_Entries out @ [\<lparr>sn_RelativePath = relative, sn_SizeBytes = int (io_Size (nd_Inode n)), sn_Modified = io_ModTime (nd_Inode n), sn_SHA256 = h\<rparr>]\<rparr>))))"

definition Reader_Snapshot :: "kernel \<Rightarrow> allowedRoot list \<Rightarrow> string \<Rightarrow> int \<Rightarrow> int \<Rightarrow> int \<Rightarrow> Snapshot result" where
  "Reader_Snapshot has roots path limit maxFileBytes maxTotalBytes =
     (let most = (if limit \<le> 0 then 200 else limit); perFile = (if maxFileBytes \<le> 0 then 4194304 else maxFileBytes); total = (if maxTotalBytes \<le> 0 then DefaultTotalLimit else maxTotalBytes) in
      if most > 500 then Inl (ErrorNew ''limit must not exceed 500'')
      else if perFile > DefaultHashLimit then Inl (ErrorNew (''max_file_bytes must not exceed '' @ itoa DefaultHashLimit))
      else if total > DefaultTotalLimit then Inl (ErrorNew (''max_total_bytes must not exceed '' @ itoa DefaultTotalLimit))
      else (case walk has roots path (snapshot_visit has most perFile total) \<lparr>sh_Root = path, sh_Entries = [], sh_Skipped = [], sh_HashedBytes = 0, sh_Truncated = False\<rparr> of
          (Inl e, _) \<Rightarrow> Inl e
        | (Inr _, out) \<Rightarrow> Inr (out\<lparr>sh_Entries := sort_key sn_RelativePath (sh_Entries out), sh_Skipped := sort_key fst (sh_Skipped out)\<rparr>)))"

subsection \<open>Allowing roots\<close>

text \<open>The loop of \<open>NewReader\<close>; \<open>open_root\<close> is the node behind the canonical path, for \<open>os.Stat\<close> and for the descriptor that \<open>unix.Open\<close> makes, which opens what was looked at.\<close>

fun add_roots :: "(string \<Rightarrow> string result) \<Rightarrow> (string \<Rightarrow> node result) \<Rightarrow> allowedRoot list \<Rightarrow> string list \<Rightarrow> allowedRoot list result" where
  "add_roots evalSymlinks open_root cleaned [] = Inr cleaned"
| "add_roots evalSymlinks open_root cleaned (r # rs) =
     (let root = Clean (TrimSpace r) in
      if root = ''.'' \<or> \<not> IsAbs root then Inl (ErrorNew ''allowlisted root must be absolute: %q'')
      else if root = ''/'' then Inl (ErrorNew ''filesystem root cannot be allowlisted'')
      else (case evalSymlinks root of Inl e \<Rightarrow> Inl (Wrapf (''resolve allowlisted root '' @ root) e)
        | Inr canonical \<Rightarrow> (case open_root canonical of Inl e \<Rightarrow> Inl (Wrapf (''stat allowlisted root '' @ root) e)
          | Inr n \<Rightarrow>
            if nd_kind n \<noteq> KDir \<and> nd_kind n \<noteq> KRegular then Inl (ErrorNew (''allowlisted root must be a directory or regular file: '' @ root))
            else add_roots evalSymlinks open_root (if root \<in> ar_display ` set cleaned then cleaned else cleaned @ [\<lparr>ar_display = root, ar_canonical = canonical, ar_node = n\<rparr>]) rs)))"

definition NewReader :: "(string \<Rightarrow> string result) \<Rightarrow> (string \<Rightarrow> node result) \<Rightarrow> string list \<Rightarrow> allowedRoot list result" where
  "NewReader evalSymlinks open_root roots =
     (if roots = [] then Inl (ErrorNew ''at least one allowlisted root is required'')
      else map_sum id (sort_key ar_display) (add_roots evalSymlinks open_root [] roots))"

definition Roots :: "allowedRoot list \<Rightarrow> string list" where
  "Roots roots = map ar_display roots"

subsection \<open>Nothing outside the roots, no symbolic link\<close>

text \<open>\<open>k\<close> is reached from \<open>n\<close> by descending through the named entries, none of which is a symbolic link.\<close>

fun below :: "node \<Rightarrow> string list \<Rightarrow> node \<Rightarrow> bool" where
  "below n [] k \<longleftrightarrow> k = n"
| "below n (c # cs) k \<longleftrightarrow> (\<exists>m. lookup n c = Inr m \<and> nd_kind m \<noteq> KSymlink \<and> below m cs k)"

lemma below_append: "below n (xs @ ys) k \<longleftrightarrow> (\<exists>m. below n xs m \<and> below m ys k)"
  by (induction xs arbitrary: n) auto

lemma openat2_below: "openat2 opath n cs = Inr k \<Longrightarrow> nd_kind k \<noteq> KSymlink \<Longrightarrow> below n cs k"
  by (induction opath n cs rule: openat2.induct) (auto simp: openat_last_def split: sum.splits if_splits)

text \<open>Component by component the same files are opened as by \<open>openat2\<close>, except that a symbolic link at the end is refused at once.\<close>

lemma open_components_openat2:
  "case open_components opath n cs of Inr k \<Rightarrow> openat2 opath n cs = Inr k \<and> nd_kind k \<noteq> KSymlink
   | Inl _ \<Rightarrow> (case openat2 opath n cs of Inl _ \<Rightarrow> True | Inr k \<Rightarrow> nd_kind k = KSymlink)"
proof (induction opath n cs rule: open_components.induct)
  case (3 opath n c d cs)
  show ?case
  proof (cases "lookup n c")
    case (Inr k)
    show ?thesis
    proof (cases "nd_kind k = KDir")
      case True
      with 3 [of k] Inr show ?thesis by (auto simp: openat_directory_def split: sum.splits)
    next
      case False
      then have "\<exists>e. openat2 opath k (d # cs) = Inl e" by (cases cs) (auto simp: openat_last_def lookup_def)
      with False Inr show ?thesis by (auto simp: openat_directory_def)
    qed
  qed (simp add: openat_directory_def)
qed (auto simp: openat_last_def split: sum.splits)

lemma secureOpenAt_below:
  assumes "secureOpenAt has n relative opath = Inr k" "nd_kind k \<noteq> KSymlink"
  shows "\<exists>cs. securePathComponents relative = Inr cs \<and> below n cs k"
proof -
  obtain cs where c: "securePathComponents relative = Inr cs" using assms(1) by (auto simp: secureOpenAt_def split: sum.splits)
  have "openat2 opath n cs = Inr k"
    using assms(1) c open_components_openat2 [of opath n cs] by (auto simp: secureOpenAt_def openatNoSymlinks_def split: if_splits sum.splits)
  with openat2_below assms(2) c show ?thesis by blast
qed

lemma securePathComponents_segs: "securePathComponents relative = Inr cs \<Longrightarrow> segs relative = cs \<and> \<not> IsAbs relative"
proof -
  assume a: "securePathComponents relative = Inr cs"
  then have cs: "cs = split_on (CHR ''/'') relative" "\<not> IsAbs relative" "\<forall>c \<in> set cs. c \<noteq> [] \<and> c \<noteq> ''.'' \<and> c \<noteq> ''..''"
    by (auto simp: securePathComponents_def Let_def list_ex_iff split: if_splits)
  then have "ok_segs False cs" using split_on_no_sep by (force simp: ok_segs_def plain_seg_def intro!: exI [of _ 0])
  from clean_segs_id [OF this] cs show ?thesis by (simp add: segs_def)
qed

lemma Rel_segs:
  assumes "IsAbs root" "Rel root path = Inr rel" "rel_inside (Inr rel)"
  shows "IsAbs path" "prefix (segs root) (segs path)" "rel \<noteq> ''.'' \<Longrightarrow> securePathComponents rel = Inr cs \<Longrightarrow> segs path = segs root @ cs" "rel = ''.'' \<Longrightarrow> segs path = segs root"
proof -
  from assms rel_inside_rooted [OF assms(1), of path] show abs: "IsAbs path" and pre: "prefix (segs root) (segs path)" by simp_all
  then obtain ys where ys: "segs path = segs root @ ys" by (auto simp: prefix_def)
  have okp: "ok_segs True (segs path)" using ok_segs_segs [of path] abs by simp
  have nd: "Clean path \<noteq> ''.''" using abs IsAbs_Clean [of path] by (auto simp: IsAbs_def)
  have rel: "rel = (if Clean path = Clean root then ''.'' else join ''/'' ys)"
    using assms(2) abs assms(1) nd by (auto simp: Rel_def ys strip_common_append split: if_splits)
  have ne: "ys \<noteq> [] \<Longrightarrow> ok_segs False ys" using okp by (auto simp: ys ok_segs_def intro!: exI [of _ 0])
  have dot: "ys = [] \<longleftrightarrow> Clean path = Clean root" using abs assms(1) by (auto simp: Clean_eq_iff ys)
  have "join ''/'' ys \<noteq> ''.''" if "ys \<noteq> []"
  proof
    assume "join ''/'' ys = ''.''"
    with split_join [of ys "CHR ''/''"] that okp have "ys = [''.'']" by (auto simp: ys ok_segs_def plain_seg_def)
    with okp show False by (auto simp: ys ok_segs_def plain_seg_def)
  qed
  then show "segs path = segs root" if "rel = ''.''" using that rel dot ys by (auto split: if_splits)
  assume r: "rel \<noteq> ''.''" "securePathComponents rel = Inr cs"
  with rel dot have j: "rel = join ''/'' ys" "ys \<noteq> []" by (auto split: if_splits)
  have "split_on (CHR ''/'') rel = ys" using split_join [of ys "CHR ''/''"] j okp by (auto simp: ys ok_segs_def plain_seg_def)
  moreover have "cs = split_on (CHR ''/'') rel" using r(2) by (auto simp: securePathComponents_def Let_def split: if_splits)
  ultimately show "segs path = segs root @ cs" using ys by simp
qed

lemma rootFor_inside:
  assumes "\<forall>r \<in> set roots. IsAbs (ar_display r)" "rootFor roots path = Inr (root, rel)"
  shows "root \<in> set roots \<and> Rel (ar_display root) (Clean (TrimSpace path)) = Inr rel \<and> rel_inside (Inr rel)"
proof -
  have step: "root_step clean sel r = Some (root, rel) \<Longrightarrow> sel = Some (root, rel) \<or> root = r \<and> Rel (ar_display r) clean = Inr rel \<and> rel_inside (Inr rel)" for clean sel r
    by (auto simp: root_step_def rel_inside_def split: sum.splits if_splits option.splits)
  have fold: "sel = Some (root, rel) \<or> root \<in> set rs \<and> Rel (ar_display root) clean = Inr rel \<and> rel_inside (Inr rel)"
    if "foldl (root_step clean) sel rs = Some (root, rel)" for clean sel rs
    using that
  proof (induction rs arbitrary: sel)
    case (Cons r rs)
    from Cons.IH [of "root_step clean sel r"] Cons.prems step [of clean sel r] show ?case by auto
  qed simp
  from fold [of "Clean (TrimSpace path)" None roots] assms(2) show ?thesis
    by (auto simp: rootFor_def Let_def split: if_splits option.splits)
qed

lemma openPath_inside:
  assumes "\<forall>r \<in> set roots. IsAbs (ar_display r) \<and> nd_kind (ar_node r) \<noteq> KSymlink" "openPath has roots path opath = Inr (name, n)"
  shows "\<exists>r \<in> set roots. \<exists>cs. segs (TrimSpace path) = segs (ar_display r) @ cs \<and> below (ar_node r) cs n" "IsAbs (TrimSpace path)" "nd_kind n \<noteq> KSymlink"
proof -
  obtain root rel where R: "rootFor roots path = Inr (root, rel)" using assms(2) by (auto simp: openPath_def split: sum.splits)
  from rootFor_inside [OF _ R] assms(1) have r: "root \<in> set roots" "Rel (ar_display root) (Clean (TrimSpace path)) = Inr rel" "rel_inside (Inr rel)" "IsAbs (ar_display root)" "nd_kind (ar_node root) \<noteq> KSymlink" by auto
  note seg = Rel_segs [OF r(4,2,3), simplified]
  show "IsAbs (TrimSpace path)" using seg(1) .
  have "nd_kind n \<noteq> KSymlink \<and> (\<exists>cs. segs (TrimSpace path) = segs (ar_display root) @ cs \<and> below (ar_node root) cs n)"
  proof (cases "rel = ''.''")
    case True
    with assms(2) R r(5) seg(4) show ?thesis by (auto simp: openPath_def reopenPathFile_def Let_def split: if_splits intro!: exI [of _ "[]"])
  next
    case False
    with assms(2) R have n: "secureOpenAt has (ar_node root) rel opath = Inr n" "nd_kind n \<noteq> KSymlink" by (auto simp: openPath_def split: sum.splits if_splits)
    from secureOpenAt_below [OF n] obtain cs where "securePathComponents rel = Inr cs" "below (ar_node root) cs n" by blast
    with seg(3) [OF False] n(2) show ?thesis by blast
  qed
  with r(1) show "nd_kind n \<noteq> KSymlink" "\<exists>r \<in> set roots. \<exists>cs. segs (TrimSpace path) = segs (ar_display r) @ cs \<and> below (ar_node r) cs n" by blast+
qed

lemma map_sum_Inr: "map_sum id f r = Inr y \<Longrightarrow> (\<And>x. r = Inr x \<Longrightarrow> y = f x \<Longrightarrow> P) \<Longrightarrow> P"
  by (cases r) auto

lemma NewReader_roots:
  assumes "NewReader evalSymlinks open_root rs = Inr roots"
  shows "\<forall>r \<in> set roots. IsAbs (ar_display r) \<and> nd_kind (ar_node r) \<noteq> KSymlink \<and> ar_display r \<noteq> ''/''"
proof -
  define ok where "ok r \<longleftrightarrow> IsAbs (ar_display r) \<and> nd_kind (ar_node r) \<noteq> KSymlink \<and> ar_display r \<noteq> ''/''" for r :: allowedRoot
  have add: "\<forall>r \<in> set out. ok r" if "add_roots evalSymlinks open_root cleaned rs = Inr out" "\<forall>r \<in> set cleaned. ok r" for cleaned out
    using that
  proof (induction rs arbitrary: cleaned)
    case (Cons r rs)
    let ?root = "Clean (TrimSpace r)"
    from Cons.prems(1) obtain canonical n where c: "IsAbs ?root" "?root \<noteq> ''/''" "nd_kind n = KDir \<or> nd_kind n = KRegular"
      "add_roots evalSymlinks open_root (if ?root \<in> ar_display ` set cleaned then cleaned else cleaned @ [\<lparr>ar_display = ?root, ar_canonical = canonical, ar_node = n\<rparr>]) rs = Inr out"
      unfolding add_roots.simps Let_def by (simp split: if_split_asm sum.split_asm)
    then have n: "ok \<lparr>ar_display = ?root, ar_canonical = canonical, ar_node = n\<rparr>" by (auto simp: ok_def)
    show ?case by (rule Cons.IH [OF c(4)]) (use Cons.prems(2) n in \<open>auto split: if_splits\<close>)
  qed simp
  from assms obtain out where "add_roots evalSymlinks open_root [] rs = Inr out" "roots = sort_key ar_display out"
    by (auto simp: NewReader_def split: if_splits elim!: map_sum_Inr)
  with add [of "[]" out] show ?thesis by (simp add: ok_def)
qed

subsection \<open>What a walk visits\<close>

text \<open>A walk hands its visitor only files below the directory, reached without symbolic links, and what every visit keeps the walk keeps.\<close>

definition keeps :: "(node \<Rightarrow> bool) \<Rightarrow> 's visitor \<Rightarrow> ('s \<Rightarrow> bool) \<Rightarrow> bool" where
  "keeps found visit I \<longleftrightarrow> (\<forall>relative depth k s r s'. I s \<longrightarrow> (case k of None \<Rightarrow> True | Some f \<Rightarrow> nd_kind (snd f) \<noteq> KSymlink \<and> found (snd f)) \<longrightarrow> visit relative depth k s = (r, s') \<longrightarrow> I s')"

lemma keepsD: "keeps found visit I \<Longrightarrow> I s \<Longrightarrow> (case k of None \<Rightarrow> True | Some f \<Rightarrow> nd_kind (snd f) \<noteq> KSymlink \<and> found (snd f)) \<Longrightarrow> visit relative depth k s = (r, s') \<Longrightarrow> I s'"
  unfolding keeps_def by blast

lemma walk_entries_inv:
  assumes "keeps (\<lambda>n. \<exists>cs. below base cs n) visit I"
  shows "\<exists>cs. below base cs dir \<Longrightarrow> I s \<Longrightarrow> walk_entries has visit pre depth dir es s = (r, s') \<Longrightarrow> I s'"
proof (induction "size dir" arbitrary: dir pre depth es s r s' rule: less_induct)
  case less
  note visit = keepsD [OF assms]
  from less.prems(2,3) show ?case
  proof (induction es arbitrary: s r s')
    case (Cons e es)
    let ?relative = "pathJoin [pre, nd_Name e]" and ?depth = "depth + 1"
    have skip: "I s'" if "(case visit ?relative ?depth None s of (Inl err, s) \<Rightarrow> (Inl err, s) | (Inr (_, stop), s) \<Rightarrow> if stop then (Inr (), s) else walk_entries has visit pre depth dir es s) = (r, s')"
      using that visit [OF Cons.prems(1), of None ?relative ?depth] Cons.IH by (auto split: prod.splits sum.splits if_splits)
    note W = Cons.prems(2) [unfolded walk_entries.simps Let_def]
    show ?case
    proof (cases "nd_kind e = KSymlink")
      case True
      with W skip show ?thesis by simp
    next
      case False
      show ?thesis
      proof (cases "secureOpenAt has dir (nd_Name e) True")
        case (Inl err)
        with W False skip Cons.prems(1) show ?thesis by (auto split: if_splits)
      next
        case (Inr k)
        show ?thesis
        proof (cases "nd_kind k = KSymlink")
          case True
          with W False Inr skip show ?thesis by simp
        next
          case ok: False
          from secureOpenAt_below [OF Inr ok] less.prems(1) have at: "\<exists>cs. below base cs k" by (meson below_append)
          obtain v s1 where v: "visit ?relative ?depth (Some (?relative, k)) s = (v, s1)" by (metis surj_pair)
          from visit [OF Cons.prems(1) _ v] ok at have s1: "I s1" by simp
          obtain r2 s2 where n: "walk_entries has visit ?relative ?depth k (sort_key nd_Name (nd_Kids k)) s1 = (r2, s2)" by (metis surj_pair)
          from less.hyps [OF secureOpenAt_size [OF Inr] at s1 n] have s2: "I s2" .
          from W False Inr ok v n s1 s2 Cons.IH show ?thesis by (auto simp: reopenPathFile_def split: sum.splits if_splits prod.splits)
        qed
      qed
    qed
  qed simp
qed

lemma walk_inv:
  assumes "keeps (\<lambda>n. \<exists>f cs. openPath has roots path True = Inr f \<and> below (snd f) cs n) visit I"
    "\<forall>r \<in> set roots. IsAbs (ar_display r) \<and> nd_kind (ar_node r) \<noteq> KSymlink" "I s" "walk has roots path visit s = (r, s')"
  shows "I s'"
proof (cases "openPath has roots path True")
  case (Inl e)
  with assms show ?thesis by (simp add: walk_def)
next
  case (Inr f)
  have top: "\<exists>cs. below (snd f) cs (snd f)" by (intro exI [of _ "[]"]) simp
  have kind: "nd_kind (snd f) \<noteq> KSymlink" using openPath_inside(3) [OF assms(2), of has path True "fst f" "snd f"] Inr by simp
  have v: "keeps (\<lambda>n. \<exists>cs. below (snd f) cs n) visit I" using assms(1) Inr by simp
  show ?thesis
  proof (cases "nd_kind (snd f) = KDir")
    case True
    with assms(4) Inr have "s' = s \<or> walk_entries has visit [] 0 (snd f) (sort_key nd_Name (nd_Kids (snd f))) s = (r, s')"
      by (simp add: walk_def walkDirectory_def reopenPathFile_def split: if_splits)
    with assms(3) walk_entries_inv [OF v top assms(3)] show ?thesis by blast
  next
    case False
    with assms(4) Inr keepsD [OF v assms(3), of "Some f" "''.''" 0] top kind show ?thesis by (auto simp: walk_def split: prod.splits sum.splits)
  qed
qed

subsection \<open>Properties\<close>

text \<open>C23: a reader opens only what lies in its roots. Whatever path a tool is given, with or without \<open>openat2\<close> in the kernel, the file that \<open>openPath\<close> opens is found below an allowlisted root by
  descending through exactly the remaining segments of the cleaned path; no component on the way is a symbolic link, and neither is the file.\<close>

theorem reader_stays_in_roots:
  "case NewReader evalSymlinks open_root allowed of Inl _ \<Rightarrow> True
   | Inr roots \<Rightarrow> (case openPath has roots path opath of Inl _ \<Rightarrow> True
     | Inr (name, n) \<Rightarrow> nd_kind n \<noteq> KSymlink \<and> IsAbs (TrimSpace path) \<and> (\<exists>r \<in> set roots. \<exists>cs. segs (TrimSpace path) = segs (ar_display r) @ cs \<and> below (ar_node r) cs n))"
proof (cases "NewReader evalSymlinks open_root allowed")
  case (Inr roots)
  from NewReader_roots [OF Inr] have "\<forall>r \<in> set roots. IsAbs (ar_display r) \<and> nd_kind (ar_node r) \<noteq> KSymlink" by blast
  with Inr openPath_inside [of roots has path opath] show ?thesis by (auto split: sum.split)
qed simp

text \<open>C24: the fallback for kernels without \<open>openat2\<close> opens the same files: for every path and every tree the two ways give the same file or both fail.\<close>

theorem fallback_opens_the_same:
  "case (openPath (has\<lparr>k_openat2 := True\<rparr>) roots path opath, openPath (has\<lparr>k_openat2 := False\<rparr>) roots path opath) of (Inr f, Inr g) \<Rightarrow> f = g | (Inl _, Inl _) \<Rightarrow> True | _ \<Rightarrow> False"
proof (cases "rootFor roots path")
  case (Inr rr)
  obtain root rel where rr: "rr = (root, rel)" by (cases rr)
  show ?thesis
  proof (cases "rel = ''.'' \<or> \<not> is_ok (securePathComponents rel)")
    case True
    with Inr rr show ?thesis by (auto simp: openPath_def secureOpenAt_def reopenPathFile_def Let_def is_ok_def split: sum.split)
  next
    case False
    then obtain cs where cs: "rel \<noteq> ''.''" "securePathComponents rel = Inr cs" by (auto simp: is_ok_iff)
    with Inr rr open_components_openat2 [of opath "ar_node root" cs] show ?thesis
      by (auto simp: openPath_def secureOpenAt_def openatNoSymlinks_def split: sum.splits)
  qed
qed (simp add: openPath_def)

text \<open>An entry of a snapshot is the hash of a regular file below the directory that was opened.\<close>

definition hashed_below :: "open_file result \<Rightarrow> SnapshotEntry \<Rightarrow> bool" where
  "hashed_below opened e \<longleftrightarrow> (\<exists>f cs n. opened = Inr f \<and> below (snd f) cs n \<and> nd_kind n = KRegular \<and> sn_SHA256 e = sha256_hex (io_Content (nd_Inode n)))"

definition snapshot_ok :: "open_file result \<Rightarrow> int \<Rightarrow> int \<Rightarrow> int \<Rightarrow> Snapshot \<Rightarrow> bool" where
  "snapshot_ok opened most perFile allBytes out \<longleftrightarrow> int (length (sh_Entries out)) + int (length (sh_Skipped out)) \<le> most \<and> sh_HashedBytes out \<le> allBytes + perFile \<and> list_all (hashed_below opened) (sh_Entries out)"

lemma snapshot_visit_ok:
  assumes "snapshot_ok opened most perFile allBytes out" "snapshot_visit has most perFile allBytes relative depth k out = (r, out')"
    "case k of None \<Rightarrow> True | Some (_, n) \<Rightarrow> \<exists>f cs. opened = Inr f \<and> below (snd f) cs n"
  shows "snapshot_ok opened most perFile allBytes out'"
proof (cases "int (length (sh_Entries out)) + int (length (sh_Skipped out)) \<ge> most")
  case True
  with assms(1,2) show ?thesis by (auto simp: snapshot_visit_def snapshot_ok_def)
next
  case False
  show ?thesis
  proof (cases k)
    case None
    with False assms(1,2) show ?thesis by (auto simp: snapshot_visit_def snapshot_ok_def skip_entry_def)
  next
    case (Some g)
    obtain name n where g: "g = (name, n)" by (cases g)
    have h: "hashed_below opened e" if "nd_kind n = KRegular" "sn_SHA256 e = sha256_hex (io_Content (nd_Inode n))" for e
      using assms(3) that Some g by (auto simp: hashed_below_def)
    from False Some g assms(1,2) h show ?thesis
      by (auto simp: snapshot_visit_def snapshot_ok_def skip_entry_def reopenPathFile_def hashOpenFile_def Let_def split: if_splits)
  qed
qed

text \<open>C25: what a tool gets from a reader is bounded, whatever the tree and the arguments: at most 500 entries of a directory, at most 200 large files, a usage that counted at most 20000 entries, and a snapshot
  of at most 500 entries that hashed at most 48 MiB, in which every hash is that of a regular file found below the directory without following a symbolic link.\<close>

theorem reader_is_bounded:
  "case NewReader evalSymlinks open_root allowed of Inl _ \<Rightarrow> True
   | Inr roots \<Rightarrow>
     (case Reader_List has roots path limit of Inl _ \<Rightarrow> True | Inr (out, _) \<Rightarrow> length out \<le> 500)
     \<and> (case FindLarge has roots path minimumBytes maxDepth limit of Inl _ \<Rightarrow> True | Inr (found, _) \<Rightarrow> length found \<le> 200 \<and> list_all (\<lambda>m. fm_SizeBytes m \<ge> minimumBytes) found)
     \<and> (case Usage has roots path maxDepth maxEntries of Inl _ \<Rightarrow> True | Inr u \<Rightarrow> du_Files u + du_Directories u \<le> 20000)
     \<and> (case Reader_Snapshot has roots path limit maxFileBytes maxTotalBytes of Inl _ \<Rightarrow> True
        | Inr out \<Rightarrow> length (sh_Entries out) + length (sh_Skipped out) \<le> 500 \<and> sh_HashedBytes out \<le> 50331648 \<and> list_all (hashed_below (openPath has roots path True)) (sh_Entries out))"
proof (cases "NewReader evalSymlinks open_root allowed")
  case (Inr roots)
  from NewReader_roots [OF Inr] have roots: "\<forall>r \<in> set roots. IsAbs (ar_display r) \<and> nd_kind (ar_node r) \<noteq> KSymlink" by blast
  have list: "length (fst s') \<le> 500" if "walk_entries has (list_visit path most) [] 0 dir es s = (r, s')" "most \<le> 500" "length (fst s) \<le> 500" for most dir es s r s'
  proof (rule walk_entries_inv [of dir "list_visit path most" "\<lambda>s. length (fst s) \<le> 500" dir, OF _ _ _ that(1)])
    show "keeps (\<lambda>n. \<exists>cs. below dir cs n) (list_visit path most) (\<lambda>s. length (fst s) \<le> 500)"
      using that(2) by (auto simp: keeps_def list_visit_def split: if_splits option.splits)
    show "\<exists>cs. below dir cs dir" by (intro exI [of _ "[]"]) simp
  qed (rule that(3))
  have l: "case Reader_List has roots path limit of Inl _ \<Rightarrow> True | Inr (out, _) \<Rightarrow> length out \<le> 500"
    using list by (auto simp: Reader_List_def walkDirectory_def Let_def split: sum.split prod.split)
  have large: "list_all (\<lambda>m. fm_SizeBytes m \<ge> minimumBytes) found" if "walk has roots path (large_visit path minimumBytes deepest) [] = (r, found)" for deepest r found
    by (rule walk_inv [OF _ roots _ that]) (auto simp: keeps_def large_visit_def metadata_def Let_def split: if_splits option.splits)
  have f: "case FindLarge has roots path minimumBytes maxDepth limit of Inl _ \<Rightarrow> True | Inr (found, _) \<Rightarrow> length found \<le> 200 \<and> list_all (\<lambda>m. fm_SizeBytes m \<ge> minimumBytes) found"
    using large by (auto simp: FindLarge_def Let_def list_all_iff split: sum.split prod.split dest!: in_set_takeD)
  have usage: "du_Files (fst s') + du_Directories (fst s') \<le> snd s' \<and> snd s' \<le> most" if "walk has roots path (usage_visit deepest most) (u, 0) = (r, s')" "du_Files u = 0" "du_Directories u = 0" "0 \<le> most" for deepest most u r s'
    by (rule walk_inv [OF _ roots _ that(1)]) (use that in \<open>auto simp: keeps_def usage_visit_def split: if_splits option.splits\<close>)
  have u: "case Usage has roots path maxDepth maxEntries of Inl _ \<Rightarrow> True | Inr u \<Rightarrow> du_Files u + du_Directories u \<le> 20000"
  proof -
    let ?u = "\<lparr>du_Path = path, du_SizeBytes = 0, du_Files = 0, du_Directories = 0, du_Skipped = 0, du_Truncated = False\<rparr>"
    let ?deepest = "if maxDepth \<le> 0 then 4 else maxDepth" and ?most = "if maxEntries \<le> 0 then 5000 else maxEntries"
    obtain r out where W: "walk has roots path (usage_visit ?deepest ?most) (?u, 0) = (r, out)" by (metis surj_pair)
    from usage [OF W] have "du_Files (fst out) + du_Directories (fst out) \<le> ?most" by fastforce
    with W show ?thesis by (cases "maxEntries \<le> 0") (auto simp: Usage_def Let_def split: sum.split)
  qed
  have snap: "snapshot_ok (openPath has roots path True) most perFile allBytes s'" if "walk has roots path (snapshot_visit has most perFile allBytes) s = (r, s')" "snapshot_ok (openPath has roots path True) most perFile allBytes s" for most perFile allBytes s r s'
    by (rule walk_inv [where I = "snapshot_ok (openPath has roots path True) most perFile allBytes", OF _ roots that(2,1)])
      (fastforce simp: keeps_def split: option.splits elim: snapshot_visit_ok [rotated])
  have s: "case Reader_Snapshot has roots path limit maxFileBytes maxTotalBytes of Inl _ \<Rightarrow> True
        | Inr out \<Rightarrow> length (sh_Entries out) + length (sh_Skipped out) \<le> 500 \<and> sh_HashedBytes out \<le> 50331648 \<and> list_all (hashed_below (openPath has roots path True)) (sh_Entries out)"
  proof -
    let ?most = "if limit \<le> 0 then 200 else limit" and ?perFile = "if maxFileBytes \<le> 0 then 4194304 else maxFileBytes" and ?allBytes = "if maxTotalBytes \<le> 0 then DefaultTotalLimit else maxTotalBytes"
    let ?s = "\<lparr>sh_Root = path, sh_Entries = [], sh_Skipped = [], sh_HashedBytes = 0, sh_Truncated = False\<rparr>"
    obtain r out where W: "walk has roots path (snapshot_visit has ?most ?perFile ?allBytes) ?s = (r, out)" by (metis surj_pair)
    have "snapshot_ok (openPath has roots path True) ?most ?perFile ?allBytes ?s" by (simp add: snapshot_ok_def reader_limits)
    from snap [OF W this] have o: "int (length (sh_Entries out)) + int (length (sh_Skipped out)) \<le> ?most" "sh_HashedBytes out \<le> ?allBytes + ?perFile"
      "list_all (hashed_below (openPath has roots path True)) (sh_Entries out)" unfolding snapshot_ok_def by blast+
    with W show ?thesis
      by (cases "limit \<le> 0"; cases "maxFileBytes \<le> 0"; cases "maxTotalBytes \<le> 0") (auto simp: Reader_Snapshot_def Let_def list_all_iff reader_limits split: sum.split)
  qed
  from Inr l f u s show ?thesis by simp
qed simp

end
