(* ===== verification/Procfs.thy ===== *)
theory Procfs
  imports Api Registry
begin

text \<open>
  \<open>internal/platform\<close>: what the program reads of \<open>/proc\<close> (\<open>process.go\<close>, \<open>network.go\<close>, \<open>linux.go\<close>, \<open>process_executable_child.go\<close>). The files, links and directories of \<open>/proc\<close> are an argument that
  does not change during a call; their contents are arbitrary bytes, part of which every local user chooses. An error of \<open>strconv\<close> is one value. A panic is \<open>None\<close>. \<open>sort.Slice\<close> may
  order equal elements in any way, here they stay in order. Cancellation is left out.
\<close>

subsection \<open>Files and lines\<close>

record procfs =
  pr_read :: "string \<Rightarrow> string result"
  pr_readlink :: "string \<Rightarrow> string result"
  pr_readdir :: "string \<Rightarrow> (string \<times> bool) list result" \<comment> \<open>the names, and whether they are directories\<close>
  pr_pagesize :: uint64 \<comment> \<open>\<open>os.Getpagesize\<close>\<close>

record LinuxPlatform =
  lp_procRoot :: string
  lp_processExecutableFallback :: "(int \<Rightarrow> int \<Rightarrow> string result) option"

text \<open>\<open>NewLinux\<close> with the option \<open>WithProcessExecutableFallback\<close> or without; \<open>WithRoots\<close> is used by tests only.\<close>

definition NewLinux :: "(int \<Rightarrow> int \<Rightarrow> string result) option \<Rightarrow> LinuxPlatform" where
  "NewLinux fallback = \<lparr>lp_procRoot = ''/proc'', lp_processExecutableFallback = fallback\<rparr>"

definition ErrPermission :: go_error where "ErrPermission = ErrorNew ''permission denied''"

definition num_error :: go_error where "num_error = ErrorNew ''invalid number''"

definition number_of :: "'a option \<Rightarrow> 'a result" where
  "number_of n = (case n of None \<Rightarrow> Inl num_error | Some v \<Rightarrow> Inr v)"

definition readContext :: "procfs \<Rightarrow> string \<Rightarrow> string result" where
  "readContext pr name = (case pr_read pr name of Inl e \<Rightarrow> Inl (Wrapf (''read '' @ name) e) | Inr b \<Rightarrow> Inr b)"

text \<open>\<open>bufio.Scanner\<close> over lines with its buffer of 64 KiB: the lines before the first one that does not fit, and whether all fitted.\<close>

definition scan_lines :: "string \<Rightarrow> string list \<times> bool" where
  "scan_lines s =
     (let ls = split_on (CHR 0x0A) s; ls = (if last ls = [] then butlast ls else ls); fits = takeWhile (\<lambda>l. length l < 65536) ls in
      (map (\<lambda>l. TrimSuffix l [CHR 0x0D]) fits, length fits = length ls))"

definition Cut :: "string \<Rightarrow> string \<Rightarrow> (string \<times> string) option" where
  "Cut s sep = map_option (\<lambda>i. (take i s, drop (i + length sep) s)) (Index s sep)"

definition uint_of :: "string \<Rightarrow> uint64 option" where
  "uint_of s = map_option word_of_int (ParseUint s)"

subsection \<open>One process\<close>

definition parseProcessStat :: "string \<Rightarrow> uint64 \<Rightarrow> ProcessInfo result" where
  "parseProcessStat line pageSize =
     (case (Index line ''('', LastIndex line '')'') of
        (Some opened, Some closed) \<Rightarrow>
        if opened < 1 \<or> closed \<le> opened then Inl (ErrorNew ''invalid comm field'')
        else
          let name = take (closed - opened - 1) (drop (opened + 1) line); fields = Fields (TrimSpace (drop (closed + 1) line)) in
          if length fields < 22 then Inl (ErrorNew (''got '' @ itoa (int (length fields)) @ '' fields after comm''))
          else (case number_of (Atoi (fields ! 1)) of Inl e \<Rightarrow> Inl e | Inr ppid \<Rightarrow>
            (case number_of (uint_of (fields ! 11)) of Inl e \<Rightarrow> Inl e | Inr utime \<Rightarrow>
            (case number_of (uint_of (fields ! 12)) of Inl e \<Rightarrow> Inl e | Inr stime \<Rightarrow>
            (case number_of (uint_of (fields ! 19)) of Inl e \<Rightarrow> Inl e | Inr start \<Rightarrow>
            (case number_of (Atoi (fields ! 21)) of Inl e \<Rightarrow> Inl e | Inr rssPages \<Rightarrow>
              Inr \<lparr>po_PID = 0, po_PPID = ppid, po_Name = name, po_State = fields ! 0, po_UID = 0, po_Command = [], po_Executable = [], po_StartTicks = start, po_CPUTicks = utime + stime,
                po_RSSBytes = word_of_int (max 0 rssPages) * pageSize\<rparr>)))))
      | _ \<Rightarrow> Inl (ErrorNew ''invalid comm field''))"

text \<open>The loop of \<open>parseProcessUID\<close>.\<close>

fun uid_of_lines :: "string list \<Rightarrow> int" where
  "uid_of_lines [] = - 1"
| "uid_of_lines (l # ls) =
     (let fields = Fields l in
      if 2 \<le> length fields \<and> fields ! 0 = ''Uid:'' then (case Atoi (fields ! 1) of Some v \<Rightarrow> v | None \<Rightarrow> uid_of_lines ls) else uid_of_lines ls)"

definition parseProcessUID :: "string \<Rightarrow> int" where
  "parseProcessUID status = uid_of_lines (fst (scan_lines status))"

text \<open>\<open>strings.ToLower\<close> of bytes that need not be UTF-8: an invalid byte becomes the three bytes of U+FFFD, other letters beyond ASCII are as in \<open>lowered\<close>.\<close>

definition lower_bytes :: "string \<Rightarrow> string" where
  "lower_bytes s = concat (map (\<lambda>t. if fst t = 0xFFFD then rune_text t else lowered (snd t)) (runes s))"

definition secret_keys :: "string list" where
  "secret_keys = [''password='', ''passwd='', ''token='', ''secret='', ''api_key='', ''apikey='']"

text \<open>The loops of \<open>redactCommand\<close>; the slice of the part may be out of range.\<close>

fun redact_part :: "string \<Rightarrow> string list \<Rightarrow> string option" where
  "redact_part part [] = Some part"
| "redact_part part (key # keys) =
     (case Index (lower_bytes part) key of None \<Rightarrow> redact_part part keys
      | Some index \<Rightarrow> if index + length key > length part then None else Some (take (index + length key) part @ ''[REDACTED]''))"

fun redact_parts :: "string list \<Rightarrow> string list option" where
  "redact_parts [] = Some []"
| "redact_parts (part # parts) = (case redact_part part secret_keys of None \<Rightarrow> None | Some p \<Rightarrow> map_option ((#) p) (redact_parts parts))"

definition redactCommand :: "string \<Rightarrow> string option" where
  "redactCommand raw =
     (let command = TrimSpace (map (\<lambda>c. if c = CHR 0x00 then CHR '' '' else c) raw);
          command = (if length command > 512 then take 512 command @ [CHR 0xE2, CHR 0x80, CHR 0xA6] else command) in
      map_option (join '' '') (redact_parts (Fields command)))"

definition pid_path :: "LinuxPlatform \<Rightarrow> int \<Rightarrow> string \<Rightarrow> string" where
  "pid_path lp pid name = pathJoin [pathJoin [lp_procRoot lp, itoa pid], name]"

definition Process :: "LinuxPlatform \<Rightarrow> procfs \<Rightarrow> int \<Rightarrow> ProcessInfo result option" where
  "Process lp pr pid =
     (if pid \<le> 0 then Some (Inl (ErrorNew ''pid must be positive''))
      else (case readContext pr (pid_path lp pid ''stat'') of Inl e \<Rightarrow> Some (Inl e)
        | Inr statBytes \<Rightarrow> (case parseProcessStat (TrimSpace statBytes) (pr_pagesize pr) of
            Inl e \<Rightarrow> Some (Inl (Wrapf (''parse process '' @ itoa pid @ '' stat'') e))
          | Inr info \<Rightarrow>
            let info = info\<lparr>po_PID := pid\<rparr>;
                info = (case readContext pr (pid_path lp pid ''status'') of Inr status \<Rightarrow> info\<lparr>po_UID := parseProcessUID status\<rparr> | Inl _ \<Rightarrow> info) in
            (case (case readContext pr (pid_path lp pid ''cmdline'') of Inr command \<Rightarrow> redactCommand command | Inl _ \<Rightarrow> Some []) of
               None \<Rightarrow> None
             | Some command \<Rightarrow>
               Some (Inr (info\<lparr>po_Command := command, po_Executable := (case pr_readlink pr (pid_path lp pid ''exe'') of Inr executable \<Rightarrow> executable | Inl _ \<Rightarrow> [])\<rparr>))))))"

subsection \<open>The identity of a process\<close>

definition validateProcessExecutable :: "string \<Rightarrow> string result" where
  "validateProcessExecutable executable =
     (if executable = [] then Inl (ErrorNew ''process executable is empty'')
      else if length executable > 4096 \<or> CHR 0x00 \<in> set executable then Inl (ErrorNew ''process executable is invalid'')
      else Inr executable)"

definition resolveProcessExecutable :: "string \<Rightarrow> int \<Rightarrow> int \<Rightarrow> (string \<Rightarrow> string result) \<Rightarrow> (int \<Rightarrow> int \<Rightarrow> string result) option \<Rightarrow> string result" where
  "resolveProcessExecutable path pid uid readlink fallback =
     (case readlink path of
        Inr executable \<Rightarrow> validateProcessExecutable executable
      | Inl err \<Rightarrow>
        (case fallback of
           None \<Rightarrow> Inl (Wrapf ''read process executable'' err)
         | Some f \<Rightarrow>
           if \<not> errorsIs ErrPermission err then Inl (Wrapf ''read process executable'' err)
           else (case f pid uid of Inl e \<Rightarrow> Inl (Wrapf ''read process executable as target uid'' e) | Inr executable \<Rightarrow> validateProcessExecutable executable)))"

definition Linux_ProcessIdentity :: "LinuxPlatform \<Rightarrow> procfs \<Rightarrow> int \<Rightarrow> ProcessIdentity result option" where
  "Linux_ProcessIdentity lp pr pid =
     (case Process lp pr pid of None \<Rightarrow> None | Some (Inl e) \<Rightarrow> Some (Inl e)
      | Some (Inr info) \<Rightarrow>
        (case resolveProcessExecutable (pathJoin [lp_procRoot lp, itoa pid, ''exe'']) pid (po_UID info) (pr_readlink pr) (lp_processExecutableFallback lp) of Inl e \<Rightarrow> Some (Inl e)
         | Inr executable \<Rightarrow>
           (case readContext pr (pathJoin [lp_procRoot lp, itoa pid, ''cmdline'']) of Inl e \<Rightarrow> Some (Inl e)
            | Inr raw \<Rightarrow> Some (Inr \<lparr>pi_StartTicks = po_StartTicks info, pi_CommandDigest = sha256_hex raw, pi_UID = po_UID info, pi_Executable = executable\<rparr>))))"

record processExecutableCommand =
  pc_Binary :: string
  pc_PID :: int
  pc_UID :: uint32
  pc_GID :: uint32

definition child_fallback :: "string \<Rightarrow> int \<Rightarrow> (processExecutableCommand \<Rightarrow> string result) \<Rightarrow> int \<Rightarrow> int \<Rightarrow> string result" where
  "child_fallback binary gid runner pid uid =
     (if pid \<le> 0 then Inl (ErrorNew ''process executable helper pid must be positive'')
      else if uid < 0 \<or> uid > 4294967295 then Inl (ErrorNew ''process executable helper uid is invalid'')
      else (case runner \<lparr>pc_Binary = binary, pc_PID = pid, pc_UID = word_of_int uid, pc_GID = word_of_int gid\<rparr> of Inl e \<Rightarrow> Inl e | Inr output \<Rightarrow> validateProcessExecutable output))"

definition newProcessExecutableChildFallback :: "string \<Rightarrow> int \<Rightarrow> (processExecutableCommand \<Rightarrow> string result) option \<Rightarrow> (int \<Rightarrow> int \<Rightarrow> string result) result" where
  "newProcessExecutableChildFallback binary gid runner =
     (if \<not> IsAbs binary \<or> Clean binary \<noteq> binary then Inl (ErrorNew ''process executable helper binary must be an absolute clean path'')
      else if gid < 0 \<or> gid > 4294967295 then Inl (ErrorNew ''process executable helper gid is invalid'')
      else (case runner of None \<Rightarrow> Inl (ErrorNew ''process executable helper runner is required'') | Some run \<Rightarrow> Inr (child_fallback binary gid run)))"

definition ReadProcessExecutable :: "procfs \<Rightarrow> int \<Rightarrow> string result" where
  "ReadProcessExecutable pr pid =
     (if pid \<le> 0 then Inl (ErrorNew ''pid must be positive'')
      else (case pr_readlink pr (pathJoin [''/proc'', itoa pid, ''exe'']) of Inl e \<Rightarrow> Inl (Wrapf ''read process executable'' e) | Inr executable \<Rightarrow> validateProcessExecutable executable))"

subsection \<open>All processes\<close>

record ProcessQuery =
  pq_Search :: string
  pq_Limit :: int
  pq_SortBy :: string

text \<open>The loop of \<open>Processes\<close>. A process that cannot be read is left out.\<close>

fun collect_processes :: "LinuxPlatform \<Rightarrow> procfs \<Rightarrow> string \<Rightarrow> (string \<times> bool) list \<Rightarrow> ProcessInfo list option" where
  "collect_processes lp pr needle [] = Some []"
| "collect_processes lp pr needle ((name, dir) # es) =
     (case (if dir then Atoi name else None) of None \<Rightarrow> collect_processes lp pr needle es
      | Some pid \<Rightarrow>
        (case Process lp pr pid of
           None \<Rightarrow> None
         | Some (Inl _) \<Rightarrow> collect_processes lp pr needle es
         | Some (Inr info) \<Rightarrow>
           if needle \<noteq> [] \<and> \<not> Contains (lower_bytes (po_Name info @ '' '' @ po_Command info @ '' '' @ po_Executable info)) needle then collect_processes lp pr needle es
           else map_option ((#) info) (collect_processes lp pr needle es)))"

definition Processes :: "LinuxPlatform \<Rightarrow> procfs \<Rightarrow> ProcessQuery \<Rightarrow> ProcessInfo list result option" where
  "Processes lp pr query =
     (let most = (if pq_Limit query \<le> 0 \<or> pq_Limit query > 500 then 50 else pq_Limit query) in
      case pr_readdir pr (lp_procRoot lp) of Inl e \<Rightarrow> Some (Inl (Wrapf ''read proc root'' e))
      | Inr entries \<Rightarrow>
        (case collect_processes lp pr (lower_bytes (TrimSpace (pq_Search query))) entries of None \<Rightarrow> None
         | Some out \<Rightarrow>
           Some (Inr (take (nat most)
             (if pq_SortBy query = ''memory'' then sort_key (\<lambda>p. - uint (po_RSSBytes p)) out
              else if pq_SortBy query = ''pid'' then sort_key po_PID out
              else sort_key (\<lambda>p. - uint (po_CPUTicks p)) out)))))"

subsection \<open>Sockets\<close>

definition socketInode :: "string \<Rightarrow> string option" where
  "socketInode target =
     (if prefix ''socket:['' target \<and> suffix '']'' target then Some (TrimSuffix (drop 8 target) '']'') else None)"

text \<open>\<open>strconv.ParseUint(s, 16, bits)\<close>, and \<open>ParseInt\<close>, which allows a sign.\<close>

fun hex_value :: "nat \<Rightarrow> string \<Rightarrow> nat option" where
  "hex_value n [] = Some n"
| "hex_value n (c # cs) = (case unhex c of None \<Rightarrow> None | Some d \<Rightarrow> hex_value (16 * n + d) cs)"

definition ParseHexUint :: "nat \<Rightarrow> string \<Rightarrow> int option" where
  "ParseHexUint bits s = (if s = [] then None else case hex_value 0 s of None \<Rightarrow> None | Some n \<Rightarrow> if n < 2 ^ bits then Some (int n) else None)"

definition ParseHexInt :: "nat \<Rightarrow> string \<Rightarrow> int option" where
  "ParseHexInt bits s =
     (case s of [] \<Rightarrow> None
      | c # r \<Rightarrow>
        if c = CHR ''-'' then (case hex_value 0 r of Some n \<Rightarrow> if r \<noteq> [] \<and> n \<le> 2 ^ (bits - 1) then Some (- int n) else None | None \<Rightarrow> None)
        else ParseHexUint (bits - 1) (if c = CHR ''+'' then r else s))"

text \<open>The lines of a table of sockets after its heading, as fields; a table that does not exist is empty.\<close>

definition socket_table :: "LinuxPlatform \<Rightarrow> procfs \<Rightarrow> string \<Rightarrow> (string list list \<times> bool) result" where
  "socket_table lp pr name =
     (case readContext pr (pathJoin [lp_procRoot lp, ''net'', name]) of
        Inl e \<Rightarrow> if errorsIs ErrNotExist e then Inr ([], True) else Inl e
      | Inr b \<Rightarrow> (case scan_lines b of (ls, ok) \<Rightarrow> Inr (map Fields (drop 1 ls), ok)))"

definition scan_error :: go_error where "scan_error = ErrorNew ''bufio.Scanner: token too long''"

definition row_inode :: "int \<Rightarrow> string list \<Rightarrow> string option" where
  "row_inode port fs =
     (if length fs < 10 then None
      else case Cut (fs ! 1) '':'' of None \<Rightarrow> None
        | Some (_, portHex) \<Rightarrow> if ParseHexInt 32 portHex = Some port then Some (fs ! 9) else None)"

fun inodes_of_tables :: "LinuxPlatform \<Rightarrow> procfs \<Rightarrow> int \<Rightarrow> string list \<Rightarrow> string list result" where
  "inodes_of_tables lp pr port [] = Inr []"
| "inodes_of_tables lp pr port (name # names) =
     (case socket_table lp pr name of Inl e \<Rightarrow> Inl e
      | Inr (rows, ok) \<Rightarrow>
        if \<not> ok then Inl scan_error
        else map_sum id (\<lambda>is. List.map_filter (row_inode port) rows @ is) (inodes_of_tables lp pr port names))"

definition socketInodesForPort :: "LinuxPlatform \<Rightarrow> procfs \<Rightarrow> int \<Rightarrow> string list result" where
  "socketInodesForPort lp pr port = inodes_of_tables lp pr port [''tcp'', ''tcp6'', ''udp'', ''udp6'']"

text \<open>Whether a descriptor of the process is one of the sockets.\<close>

definition holds_socket :: "LinuxPlatform \<Rightarrow> procfs \<Rightarrow> string list \<Rightarrow> string \<Rightarrow> bool" where
  "holds_socket lp pr inodes name =
     (case pr_readdir pr (pathJoin [lp_procRoot lp, name, ''fd'']) of Inl _ \<Rightarrow> False
      | Inr fds \<Rightarrow>
        list_ex (\<lambda>(fd, _). case pr_readlink pr (pathJoin [lp_procRoot lp, name, ''fd'', fd]) of Inl _ \<Rightarrow> False
          | Inr target \<Rightarrow> (case socketInode target of None \<Rightarrow> False | Some inode \<Rightarrow> inode \<in> set inodes)) fds)"

fun owners :: "LinuxPlatform \<Rightarrow> procfs \<Rightarrow> string list \<Rightarrow> int list \<Rightarrow> (string \<times> bool) list \<Rightarrow> ProcessInfo list option" where
  "owners lp pr inodes seen [] = Some []"
| "owners lp pr inodes seen ((name, dir) # es) =
     (case (if dir then Atoi name else None) of None \<Rightarrow> owners lp pr inodes seen es
      | Some pid \<Rightarrow>
        if holds_socket lp pr inodes name \<and> pid \<notin> set seen then
          (case Process lp pr pid of None \<Rightarrow> None
           | Some (Inl _) \<Rightarrow> owners lp pr inodes seen es
           | Some (Inr info) \<Rightarrow> map_option ((#) info) (owners lp pr inodes (pid # seen) es))
        else owners lp pr inodes seen es)"

definition ProcessesByPort :: "LinuxPlatform \<Rightarrow> procfs \<Rightarrow> int \<Rightarrow> ProcessInfo list result option" where
  "ProcessesByPort lp pr port =
     (if port < 1 \<or> port > 65535 then Some (Inl (ErrorNew ''port must be between 1 and 65535''))
      else (case socketInodesForPort lp pr port of Inl e \<Rightarrow> Some (Inl e)
        | Inr inodes \<Rightarrow>
          if inodes = [] then Some (Inr [])
          else (case pr_readdir pr (lp_procRoot lp) of Inl e \<Rightarrow> Some (Inl e)
            | Inr entries \<Rightarrow> map_option (\<lambda>out. Inr (sort_key po_PID out)) (owners lp pr inodes [] entries))))"

text \<open>\<open>net.IP.String\<close> of 4 or 16 bytes: an IPv4 address also when it is mapped into IPv6; the first longest run of at least two zero groups is abbreviated.\<close>

definition dotted :: "string \<Rightarrow> string" where
  "dotted raw = join ''.'' (map (\<lambda>c. itoa (of_char c)) raw)"

fun groups :: "string \<Rightarrow> nat list" where
  "groups (a # b # r) = (256 * of_char a + of_char b) # groups r"
| "groups _ = []"

fun zero_run :: "nat list \<Rightarrow> nat" where
  "zero_run (0 # gs) = Suc (zero_run gs)"
| "zero_run _ = 0"

definition longest_zeros :: "nat list \<Rightarrow> (nat \<times> nat) option" where
  "longest_zeros gs =
     foldl (\<lambda>best i. let l = zero_run (drop i gs) in if 2 \<le> l \<and> (case best of None \<Rightarrow> True | Some (_, m) \<Rightarrow> l > m) then Some (i, l) else best) None [0..<length gs]"

definition hex_group :: "nat \<Rightarrow> string" where
  "hex_group g = map hex_digit (let ds = dropWhile (\<lambda>d. d = 0) [g div 4096, g div 256 mod 16, g div 16 mod 16, g mod 16] in if ds = [] then [0] else ds)"

definition IP_String :: "string \<Rightarrow> string" where
  "IP_String raw =
     (if length raw = 4 then dotted raw
      else if take 12 raw = replicate 10 (CHR 0x00) @ [CHR 0xFF, CHR 0xFF] then dotted (drop 12 raw)
      else let gs = groups raw in
        case longest_zeros gs of
          None \<Rightarrow> join '':'' (map hex_group gs)
        | Some (i, l) \<Rightarrow> join '':'' (map hex_group (take i gs)) @ ''::'' @ join '':'' (map hex_group (drop (i + l) gs)))"

text \<open>Every four bytes are stored in the order of the machine.\<close>

fun swap_words :: "string \<Rightarrow> string" where
  "swap_words (a # b # c # d # r) = d # c # b # a # swap_words r"
| "swap_words r = r"

definition parseProcEndpoint :: "string \<Rightarrow> bool \<Rightarrow> (string \<times> int) result" where
  "parseProcEndpoint value ipv6 =
     (case Cut value '':'' of None \<Rightarrow> Inl (ErrorNew ''invalid endpoint'')
      | Some (addressHex, portHex) \<Rightarrow>
        (case number_of (ParseHexUint 16 portHex) of Inl e \<Rightarrow> Inl e
         | Inr port \<Rightarrow> (case DecodeString addressHex of Inl e \<Rightarrow> Inl e
           | Inr raw \<Rightarrow> if length raw \<noteq> (if ipv6 then 16 else 4) then Inl (ErrorNew ''invalid address length'') else Inr (IP_String (swap_words raw), port))))"

definition tcp_states :: "(string \<times> string) list" where
  "tcp_states = [(''01'', ''ESTABLISHED''), (''02'', ''SYN_SENT''), (''03'', ''SYN_RECV''), (''04'', ''FIN_WAIT1''), (''05'', ''FIN_WAIT2''), (''06'', ''TIME_WAIT''), (''07'', ''CLOSE''), (''08'', ''CLOSE_WAIT''),
     (''09'', ''LAST_ACK''), (''0A'', ''LISTEN''), (''0B'', ''CLOSING'')]"

definition socketState :: "string \<Rightarrow> string \<Rightarrow> string" where
  "socketState protocol code =
     (if prefix ''udp'' protocol \<and> code = ''07'' then ''UNCONN''
      else if prefix ''udp'' protocol \<and> code = ''01'' then ''ESTABLISHED''
      else (case map_of tcp_states code of Some state \<Rightarrow> state | None \<Rightarrow> code))"

record SocketInfo =
  so_Protocol :: string
  so_LocalAddress :: string
  so_LocalPort :: int
  so_RemoteAddress :: string
  so_RemotePort :: int
  so_State :: string
  so_Inode :: string
  so_Listening :: bool

definition socket_row :: "string \<Rightarrow> bool \<Rightarrow> bool \<Rightarrow> string list \<Rightarrow> SocketInfo option" where
  "socket_row protocol ipv6 listeningOnly fs =
     (if length fs < 10 then None
      else (case (parseProcEndpoint (fs ! 1) ipv6, parseProcEndpoint (fs ! 2) ipv6) of
          (Inr (localAddress, localPort), Inr (remoteAddress, remotePort)) \<Rightarrow>
          let state = socketState protocol (fs ! 3); listening = (state = ''LISTEN'' \<or> prefix ''udp'' protocol \<and> remotePort = 0) in
          if listeningOnly \<and> \<not> listening then None
          else Some \<lparr>so_Protocol = protocol, so_LocalAddress = localAddress, so_LocalPort = localPort, so_RemoteAddress = remoteAddress, so_RemotePort = remotePort, so_State = state,
            so_Inode = fs ! 9, so_Listening = listening\<rparr>
        | _ \<Rightarrow> None))"

text \<open>The rows of one table up to the limit; the loop over the tables, which returns at once, unsorted, when the limit is reached.\<close>

fun add_rows :: "(string list \<Rightarrow> SocketInfo option) \<Rightarrow> int \<Rightarrow> string list list \<Rightarrow> SocketInfo list \<Rightarrow> SocketInfo list" where
  "add_rows row most [] out = out"
| "add_rows row most (r # rs) out =
     (case row r of None \<Rightarrow> add_rows row most rs out
      | Some s \<Rightarrow> if int (length (out @ [s])) \<ge> most then out @ [s] else add_rows row most rs (out @ [s]))"

fun socket_tables :: "LinuxPlatform \<Rightarrow> procfs \<Rightarrow> bool \<Rightarrow> int \<Rightarrow> (string \<times> bool) list \<Rightarrow> SocketInfo list \<Rightarrow> SocketInfo list result" where
  "socket_tables lp pr listeningOnly most [] out = Inr (sort_key so_LocalPort (sort_key so_Protocol out))"
| "socket_tables lp pr listeningOnly most ((name, ipv6) # ts) out =
     (case socket_table lp pr name of Inl e \<Rightarrow> Inl e
      | Inr (rows, ok) \<Rightarrow>
        let out = add_rows (socket_row name ipv6 listeningOnly) most rows out in
        if int (length out) \<ge> most then Inr out
        else if \<not> ok then Inl scan_error
        else socket_tables lp pr listeningOnly most ts out)"

definition Sockets :: "LinuxPlatform \<Rightarrow> procfs \<Rightarrow> bool \<Rightarrow> int \<Rightarrow> SocketInfo list result" where
  "Sockets lp pr listeningOnly count =
     socket_tables lp pr listeningOnly (if count \<le> 0 \<or> count > 5000 then 500 else count) [(''tcp'', False), (''tcp6'', True), (''udp'', False), (''udp6'', True)] []"

subsection \<open>The host\<close>

text \<open>\<open>interfaceStats\<close>: bytes received and sent per interface; a later line of the same name replaces an earlier one.\<close>

definition interface_line :: "string \<Rightarrow> (string \<times> uint64 \<times> uint64) option" where
  "interface_line l =
     (case Cut (TrimSpace l) '':'' of None \<Rightarrow> None
      | Some (name, values) \<Rightarrow>
        let fs = Fields values in
        if length fs < 9 then None
        else (case (uint_of (fs ! 0), uint_of (fs ! 8)) of (Some rx, Some tx) \<Rightarrow> Some (TrimSpace name, rx, tx) | _ \<Rightarrow> None))"

definition interfaceStats :: "LinuxPlatform \<Rightarrow> procfs \<Rightarrow> (string \<rightharpoonup> uint64 \<times> uint64) result" where
  "interfaceStats lp pr =
     (case readContext pr (pathJoin [lp_procRoot lp, ''net'', ''dev'']) of Inl e \<Rightarrow> Inl e
      | Inr b \<Rightarrow> (case scan_lines b of (ls, ok) \<Rightarrow>
          if ok then Inr (map_of (rev (List.map_filter interface_line ls))) else Inl (Wrapf ''parse /proc/net/dev'' scan_error)))"

record CPUStat =
  cs_User :: uint64
  cs_Nice :: uint64
  cs_System :: uint64
  cs_Idle :: uint64
  cs_IOWait :: uint64
  cs_IRQ :: uint64
  cs_SoftIRQ :: uint64
  cs_Steal :: uint64
  cs_Total :: uint64
  cs_Busy :: uint64

text \<open>The loop over the eight values of the first row; values that are missing stay 0.\<close>

fun cpu_values :: "nat \<Rightarrow> nat \<Rightarrow> string list \<Rightarrow> uint64 list result" where
  "cpu_values i 0 fs = Inr []"
| "cpu_values i (Suc n) [] = Inr (replicate (Suc n) 0)"
| "cpu_values i (Suc n) (f # fs) =
     (case uint_of f of None \<Rightarrow> Inl (Wrapf (''/proc/stat cpu field '' @ itoa (int i)) num_error)
      | Some v \<Rightarrow> map_sum id ((#) v) (cpu_values (Suc i) n fs))"

definition CPU :: "LinuxPlatform \<Rightarrow> procfs \<Rightarrow> CPUStat result" where
  "CPU lp pr =
     (case readContext pr (pathJoin [lp_procRoot lp, ''stat'']) of Inl e \<Rightarrow> Inl e
      | Inr b \<Rightarrow>
        let f = Fields (hd (split_on (CHR 0x0A) b)) in
        if length f < 5 \<or> f ! 0 \<noteq> ''cpu'' then Inl (ErrorNew ''/proc/stat: aggregate cpu row missing'')
        else (case cpu_values 0 8 (tl f) of Inl e \<Rightarrow> Inl e
          | Inr v \<Rightarrow>
            let total = sum_list v; idle = v ! 3 + v ! 4 in
            Inr \<lparr>cs_User = v ! 0, cs_Nice = v ! 1, cs_System = v ! 2, cs_Idle = v ! 3, cs_IOWait = v ! 4, cs_IRQ = v ! 5, cs_SoftIRQ = v ! 6, cs_Steal = v ! 7, cs_Total = total, cs_Busy = total - idle\<rparr>))"

record MemoryStat =
  me_TotalBytes :: uint64
  me_AvailableBytes :: uint64
  me_UsedBytes :: uint64
  me_FreeBytes :: uint64
  me_BuffersBytes :: uint64
  me_CachedBytes :: uint64
  me_SwapTotalBytes :: uint64
  me_SwapFreeBytes :: uint64

definition memory_line :: "string \<Rightarrow> (string \<times> uint64) option" where
  "memory_line l = (let f = Fields l in if length f < 2 then None else map_option (\<lambda>v. (TrimSuffix (f ! 0) '':'', v * 1024)) (uint_of (f ! 1)))"

definition Memory :: "LinuxPlatform \<Rightarrow> procfs \<Rightarrow> MemoryStat result" where
  "Memory lp pr =
     (case readContext pr (pathJoin [lp_procRoot lp, ''meminfo'']) of Inl e \<Rightarrow> Inl e
      | Inr b \<Rightarrow> (case scan_lines b of (ls, ok) \<Rightarrow>
          let m = map_of (rev (List.map_filter memory_line ls)); get = (\<lambda>k. case m k of None \<Rightarrow> 0 | Some v \<Rightarrow> v); total = get ''MemTotal'';
              available = (if get ''MemAvailable'' = 0 then get ''MemFree'' + get ''Buffers'' + get ''Cached'' else get ''MemAvailable'');
              available = (if available > total then total else available) in
          if \<not> ok then Inl scan_error
          else if total = 0 then Inl (ErrorNew ''/proc/meminfo: MemTotal missing'')
          else Inr \<lparr>me_TotalBytes = total, me_AvailableBytes = available, me_UsedBytes = total - available, me_FreeBytes = get ''MemFree'', me_BuffersBytes = get ''Buffers'',
            me_CachedBytes = get ''Cached'', me_SwapTotalBytes = get ''SwapTotal'', me_SwapFreeBytes = get ''SwapFree''\<rparr>))"

record Mount =
  mo_Source :: string
  mo_Target :: string
  mo_Filesystem :: string
  mo_Options :: string

text \<open>The replacer works from left to right and does not look at what it wrote.\<close>

fun unescapeMount :: "string \<Rightarrow> string" where
  "unescapeMount [] = []"
| "unescapeMount (c # cs) =
     (if c \<noteq> CHR 0x5C then c # unescapeMount cs
      else if take 3 cs = ''040'' then CHR '' '' # unescapeMount (drop 3 cs)
      else if take 3 cs = ''011'' then CHR 0x09 # unescapeMount (drop 3 cs)
      else if take 3 cs = ''012'' then CHR 0x0A # unescapeMount (drop 3 cs)
      else if take 3 cs = ''134'' then CHR 0x5C # unescapeMount (drop 3 cs)
      else c # unescapeMount cs)"

definition mount_line :: "string \<Rightarrow> Mount option" where
  "mount_line l = (let f = Fields l in if length f < 4 then None else Some \<lparr>mo_Source = unescapeMount (f ! 0), mo_Target = unescapeMount (f ! 1), mo_Filesystem = f ! 2, mo_Options = f ! 3\<rparr>)"

text \<open>The mounts that were read are returned with the error of the scanner.\<close>

definition Mounts :: "LinuxPlatform \<Rightarrow> procfs \<Rightarrow> Mount list \<times> go_error option" where
  "Mounts lp pr =
     (case readContext pr (pathJoin [lp_procRoot lp, ''self'', ''mounts'']) of Inl e \<Rightarrow> ([], Some e)
      | Inr b \<Rightarrow> (case scan_lines b of (ls, ok) \<Rightarrow> (List.map_filter mount_line ls, if ok then None else Some scan_error)))"

definition os_release_line :: "string \<times> string \<Rightarrow> string \<Rightarrow> string \<times> string" where
  "os_release_line out l =
     (case Cut l ''='' of None \<Rightarrow> out
      | Some (key, raw) \<Rightarrow>
        let v = Trim [[CHR 0x22]] (TrimSpace raw) in
        if key = ''PRETTY_NAME'' then (v, snd out) else if key = ''VERSION_ID'' then (fst out, v) else out)"

definition parseOSRelease :: "string \<Rightarrow> string \<times> string" \<comment> \<open>the name and the version\<close> where
  "parseOSRelease s = foldl os_release_line ([], []) (fst (scan_lines s))"

text \<open>\<open>sysctlKeyPattern\<close>: two to eight parts of letters, digits and underscores.\<close>

definition sysctl_key :: "string \<Rightarrow> bool" where
  "sysctl_key key \<longleftrightarrow>
     (let parts = split_on (CHR ''.'') key in
      2 \<le> length parts \<and> length parts \<le> 8 \<and>
      list_all (\<lambda>p. p \<noteq> [] \<and> list_all (\<lambda>c. ascii_alnum c \<or> c = CHR ''_'') p) parts)"

definition sysctl_path :: "LinuxPlatform \<Rightarrow> string \<Rightarrow> string" where
  "sysctl_path lp key = pathJoin [lp_procRoot lp, ''sys'', map (\<lambda>c. if c = CHR ''.'' then CHR ''/'' else c) key]"

text \<open>The loop of \<open>Sysctls\<close>, with the keys seen; the settings read so far are returned with an error.\<close>

fun read_sysctls :: "LinuxPlatform \<Rightarrow> procfs \<Rightarrow> string list \<Rightarrow> (string \<times> string) list \<Rightarrow> (string \<times> string) list \<times> go_error option" where
  "read_sysctls lp pr [] settings = (settings, None)"
| "read_sysctls lp pr (k # ks) settings =
     (let key = TrimSpace k in
      if \<not> sysctl_key key then (settings, Some (ErrorNew ''invalid selected sysctl key %q''))
      else if key \<in> fst ` set settings then read_sysctls lp pr ks settings
      else (case readContext pr (sysctl_path lp key) of Inl e \<Rightarrow> (settings, Some (Wrapf (''read selected sysctl '' @ key) e))
        | Inr b \<Rightarrow>
          let v = TrimSpace b in
          if length v > 4096 then (settings, Some (ErrorNew (''selected sysctl '' @ key @ '' exceeds 4096 bytes''))) else read_sysctls lp pr ks (settings @ [(key, v)])))"

definition Sysctls :: "LinuxPlatform \<Rightarrow> procfs \<Rightarrow> string list \<Rightarrow> (string \<times> string) list \<times> go_error option" where
  "Sysctls lp pr keys = (if length keys > 64 then ([], Some (ErrorNew ''selected sysctl keys must not exceed 64'')) else read_sysctls lp pr keys [])"

subsection \<open>Numbers and fields as the kernel prints them\<close>

definition plain :: "char \<Rightarrow> bool" where
  "plain c \<longleftrightarrow> 33 \<le> (of_char c :: nat) \<and> (of_char c :: nat) < 127"

lemma wide_heads: "list_all (\<lambda>e. e \<noteq> [] \<and> 128 \<le> (of_char (hd e) :: nat)) (wide_spaces @ map rev wide_spaces)"
  by code_simp

lemma plain_ascii: "plain c \<Longrightarrow> c \<notin> set ascii_spaces"
  by (auto simp: plain_def ascii_spaces_def)

lemma space_width_plain:
  assumes "plain c" "list_all (\<lambda>e. e \<noteq> [] \<and> 128 \<le> (of_char (hd e) :: nat)) enc"
  shows "space_width enc (c # cs) = 0"
proof -
  have "e \<notin> set enc" if "hd e = c" for e using assms that by (auto simp: list_all_iff plain_def)
  then show ?thesis using plain_ascii [OF assms(1)] by (simp add: space_width_def numeral_2_eq_2 numeral_3_eq_3)
qed

lemma plain_space: "plain c \<Longrightarrow> space_width wide_spaces (c # cs) = 0" "plain c \<Longrightarrow> space_width (map rev wide_spaces) (c # cs) = 0"
  using wide_heads by (auto intro!: space_width_plain)

lemma fields_from_plain: "list_all plain t \<Longrightarrow> fields_from acc (t @ s) = fields_from (acc @ t) s"
  by (induction t arbitrary: acc) (auto simp: fields_from.simps [of _ "_ # _"] plain_space Let_def)

lemma fields_from_space: "fields_from acc (CHR '' '' # s) = (if acc = [] then [] else [acc]) @ fields_from [] s"
  by (simp add: fields_from.simps [of acc "_ # _"] space_width_def ascii_spaces_def Let_def)

lemma Fields_join: "list_all (\<lambda>t. t \<noteq> [] \<and> list_all plain t) ts \<Longrightarrow> Fields (join '' '' ts) = ts"
proof (induction "'' ''" ts rule: join.induct)
  case (2 x)
  then show ?case using fields_from_plain [of x "[]" "[]"] by (simp add: Fields_def fields_from.simps [of x "[]"])
next
  case (3 x y zs)
  then show ?case using fields_from_plain [of x "[]" "'' '' @ join '' '' (y # zs)"] by (simp add: Fields_def fields_from_space)
qed (simp add: Fields_def fields_from.simps)

lemma is_digit_plain: "is_digit c \<Longrightarrow> plain c \<and> c \<noteq> CHR ''('' \<and> c \<noteq> CHR '')''"
  by (auto simp: is_digit_def plain_def)

lemma itoa_chars: "list_all (\<lambda>c. plain c \<and> c \<noteq> CHR ''('' \<and> c \<noteq> CHR '')'') (itoa z)" "itoa z \<noteq> []"
  using itoa_nat_digits is_digit_plain by (auto simp: itoa_def list_all_iff plain_def)

lemma digits_value_nat: "\<forall>c \<in> set s. is_digit c \<Longrightarrow> digits_value s = int (atoi_nat s)"
proof (induction s rule: rev_induct)
  case (snoc c s)
  moreover have "(of_char c :: int) = int (of_char c)" by (simp add: of_nat_of_char)
  ultimately show ?case by (auto simp: digits_value_def atoi_nat_def is_digit_def of_nat_diff)
qed (simp add: digits_value_def atoi_nat_def)

lemma digits_value_itoa: "digits_value (itoa_nat n) = int n"
  using digits_value_nat [OF itoa_nat_digits] by simp

lemma all_digits_itoa: "all_digits (itoa_nat n)" "digits (itoa_nat n)"
  using itoa_nat_digits [of n] by (auto simp: all_digits_def digits_def list_all_iff is_digit_def less_eq_char_def)

lemma uint_of_itoa: "0 \<le> z \<Longrightarrow> z < 2 ^ 64 \<Longrightarrow> uint_of (itoa z) = Some (word_of_int z)"
  by (simp add: uint_of_def ParseUint_def itoa_def all_digits_itoa digits_value_itoa)

lemma Atoi_itoa:
  assumes "- (2 ^ 63) \<le> z" "z < 2 ^ 63"
  shows "Atoi (itoa z) = Some z"
proof (cases "z < 0")
  case True
  with assms show ?thesis by (simp add: Atoi_def itoa_def all_digits_itoa digits_value_itoa Let_def)
next
  case False
  obtain c r where cr: "itoa_nat (nat z) = c # r" by (cases "itoa_nat (nat z)") auto
  then have "is_digit c" using itoa_nat_digits [of "nat z"] by auto
  then have "c \<noteq> CHR ''+''" "c \<noteq> CHR ''-''" by (auto simp: is_digit_def)
  with False assms cr all_digits_itoa [of "nat z"] digits_value_itoa [of "nat z"] show ?thesis by (auto simp: Atoi_def itoa_def Let_def)
qed

lemma occurs_from_append: "occurs_from i [c] (x @ y) = occurs_from i [c] x @ occurs_from (i + length x) [c] y"
proof (induction x arbitrary: i)
  case Nil
  show ?case by (cases y) auto
qed simp

lemma occurs_from_none: "c \<notin> set x \<Longrightarrow> occurs_from i [c] x = []"
  by (induction x arbitrary: i) auto

lemma Index_first: "c \<notin> set x \<Longrightarrow> Index (x @ c # y) [c] = Some (length x)"
  by (simp add: Index_def occurs_def occurs_from_append occurs_from_none)

lemma LastIndex_last: "c \<notin> set y \<Longrightarrow> LastIndex (x @ c # y) [c] = Some (length x)"
  by (cases "occurs_from 0 [c] x") (simp_all add: LastIndex_def occurs_def occurs_from_append occurs_from_none)

lemma drop_past: "drop (length x + 1) (x @ c # y) = y"
  by simp

lemma trimmed_plain: "x \<noteq> [] \<Longrightarrow> plain (hd x) \<Longrightarrow> plain (last x) \<Longrightarrow> trimmed x"
  by (cases x rule: rev_cases) (auto simp: trimmed_def plain_space hd_append neq_Nil_conv split: if_splits)

lemma TrimSpace_plain:
  assumes "x \<noteq> []" "plain (hd x)" "plain (last x)"
  shows "TrimSpace x = x" "TrimSpace (CHR '' '' # x) = x" "TrimSpace (x @ [CHR 0x0A]) = x"
proof -
  have t: "space_width wide_spaces x = 0" "space_width (map rev wide_spaces) (rev x) = 0" using trimmed_plain [OF assms] by (auto simp: trimmed_def)
  have l: "space_width wide_spaces (x @ [CHR 0x0A]) = 0" using assms(1,2) by (cases x) (auto simp: plain_space)
  have n: "trim_with wide_spaces (CHR '' '' # x) = x" "trim_with (map rev wide_spaces) (CHR 0x0A # rev x) = rev x"
    using t by (simp_all add: trim_with.simps [of _ "_ # _"] trim_with_id space_width_def [of _ "_ # _"] ascii_spaces_def)
  show "TrimSpace x = x" "TrimSpace (CHR '' '' # x) = x" "TrimSpace (x @ [CHR 0x0A]) = x"
    using t l n by (simp_all add: TrimSpace_def TrimLeftSpace_def TrimRightSpace_def trim_with_id)
qed

lemma hd_join: "ts \<noteq> [] \<Longrightarrow> hd ts \<noteq> [] \<Longrightarrow> join sep ts \<noteq> [] \<and> hd (join sep ts) = hd (hd ts)"
  by (induction sep ts rule: join.induct) auto

lemma last_join: "ts \<noteq> [] \<Longrightarrow> list_all (\<lambda>t. t \<noteq> []) ts \<Longrightarrow> last (join sep ts) = last (last ts)"
  by (induction sep ts rule: join.induct) (auto simp: hd_join)

lemma set_join: "set (join sep ts) \<subseteq> set sep \<union> \<Union> (set (map set ts))"
  by (induction sep ts rule: join.induct) auto

subsection \<open>Properties\<close>

text \<open>A line of \<open>/proc/PID/stat\<close>, as the kernel prints it for the state \<open>st\<close> and the numbers after it. The name is what the process chose.\<close>

definition stat_line :: "int \<Rightarrow> string \<Rightarrow> char \<Rightarrow> int list \<Rightarrow> string" where
  "stat_line pid name st ns = itoa pid @ '' ('' @ name @ '') '' @ join '' '' ([st] # map itoa ns)"

lemma parse_stat_line:
  assumes "plain st" "st \<noteq> CHR '')''" "21 \<le> length ns" "- (2 ^ 63) \<le> ns ! 0" "ns ! 0 < 2 ^ 63" "0 \<le> ns ! 10" "ns ! 10 < 2 ^ 64" "0 \<le> ns ! 11" "ns ! 11 < 2 ^ 64"
    "0 \<le> ns ! 18" "ns ! 18 < 2 ^ 64" "- (2 ^ 63) \<le> ns ! 20" "ns ! 20 < 2 ^ 63"
  shows "parseProcessStat (TrimSpace (stat_line pid name st ns @ [CHR 0x0A])) page =
    Inr \<lparr>po_PID = 0, po_PPID = ns ! 0, po_Name = name, po_State = [st], po_UID = 0, po_Command = [], po_Executable = [], po_StartTicks = word_of_int (ns ! 18),
      po_CPUTicks = word_of_int (ns ! 10) + word_of_int (ns ! 11), po_RSSBytes = word_of_int (max 0 (ns ! 20)) * page\<rparr>"
proof -
  let ?ts = "[st] # map itoa ns" and ?x = "itoa pid @ '' ''" and ?l = "stat_line pid name st ns"
  have ts: "list_all (\<lambda>t. t \<noteq> [] \<and> list_all plain t) ?ts" using assms(1) itoa_chars by (fastforce simp: list_all_iff)
  have no: "CHR '')'' \<notin> set (join '' '' ?ts)" using set_join [of "'' ''" ?ts] assms(2) itoa_chars(1) by (auto simp: list_all_iff)
  have ends: "join '' '' ?ts \<noteq> []" "plain (hd (join '' '' ?ts))" "plain (last (join '' '' ?ts))"
    using ts hd_join [of ?ts "'' ''"] last_join [of ?ts "'' ''"] by (auto simp: list_all_iff last_map dest!: bspec [OF _ last_in_set] bspec [of "set ns" _ "last ns"])
  have tail: "Fields (TrimSpace (CHR '' '' # join '' '' ?ts)) = ?ts" using TrimSpace_plain(2) [OF ends] Fields_join [OF ts] by simp
  have l: "?l \<noteq> []" "plain (hd ?l)" "plain (last ?l)" using ends itoa_chars [of pid] by (auto simp: stat_line_def list_all_iff last_append)
  have o: "Index ?l ''('' = Some (length ?x)" using Index_first [of "CHR ''(''" ?x] itoa_chars(1) [of pid] by (auto simp: stat_line_def list_all_iff)
  have e: "?l = (?x @ ''('' @ name) @ CHR '')'' # CHR '' '' # join '' '' ?ts" by (simp add: stat_line_def)
  have c: "LastIndex ?l '')'' = Some (length (?x @ ''('' @ name))" unfolding e by (rule LastIndex_last) (use no in simp)
  have d1: "drop (length (?x @ ''('' @ name) + 1) ?l = CHR '' '' # join '' '' ?ts" unfolding e by (rule drop_past)
  have "?l = ?x @ CHR ''('' # name @ CHR '')'' # CHR '' '' # join '' '' ?ts" by (simp add: stat_line_def)
  then have d2: "drop (length ?x + 1) ?l = name @ CHR '')'' # CHR '' '' # join '' '' ?ts" by (simp only: drop_past)
  have n: "length (?x @ ''('' @ name) - length ?x - 1 = length name" "\<not> (length ?x < 1 \<or> length (?x @ ''('' @ name) \<le> length ?x)" by simp_all
  have at: "?ts ! Suc i = itoa (ns ! i)" if "i < 21" for i using assms(3) that by simp
  have f: "number_of (Atoi (?ts ! 1)) = Inr (ns ! 0)" "number_of (uint_of (?ts ! 11)) = Inr (word_of_int (ns ! 10))" "number_of (uint_of (?ts ! 12)) = Inr (word_of_int (ns ! 11))"
    "number_of (uint_of (?ts ! 19)) = Inr (word_of_int (ns ! 18))" "number_of (Atoi (?ts ! 21)) = Inr (ns ! 20)"
    using at [of 0] at [of 10] at [of 11] at [of 18] at [of 20] assms(4-13) Atoi_itoa uint_of_itoa by (simp_all add: number_of_def)
  have "\<not> length ?ts < 22" "?ts ! 0 = [st]" using assms(3) by simp_all
  then show ?thesis
    unfolding TrimSpace_plain(3) [OF l] parseProcessStat_def o c option.case prod.case n(1) d1 d2 tail Let_def f sum.case using n(2) by simp
qed

text \<open>C21: no process can forge its own row. Whatever bytes a process puts into its name, blanks, parentheses and line ends included, the line that the kernel prints for it is parsed into exactly that name and
  the numbers the kernel printed: parent, ticks, start time and memory.\<close>

theorem stat_roundtrip:
  assumes "plain st" "st \<noteq> CHR '')''" "21 \<le> length ns" "- (2 ^ 63) \<le> ns ! 0" "ns ! 0 < 2 ^ 63" "0 \<le> ns ! 10" "ns ! 10 < 2 ^ 64" "0 \<le> ns ! 11" "ns ! 11 < 2 ^ 64"
    "0 \<le> ns ! 18" "ns ! 18 < 2 ^ 64" "- (2 ^ 63) \<le> ns ! 20" "ns ! 20 < 2 ^ 63"
  shows "parseProcessStat (TrimSpace (stat_line pid name st ns @ [CHR 0x0A])) page =
    Inr \<lparr>po_PID = 0, po_PPID = ns ! 0, po_Name = name, po_State = [st], po_UID = 0, po_Command = [], po_Executable = [], po_StartTicks = word_of_int (ns ! 18),
      po_CPUTicks = word_of_int (ns ! 10) + word_of_int (ns ! 11), po_RSSBytes = word_of_int (max 0 (ns ! 20)) * page\<rparr>"
  using assms by (rule parse_stat_line)

theorem stat_roundtrip_witness:
  "parseProcessStat (TrimSpace (stat_line 7 '') R 1 (x'' (CHR ''S'') [1, 7, 7, 0, 0, 0, 0, 0, 0, 0, 20, 30, 0, 0, 0, 0, 0, 0, 99, 0, - 5] @ [CHR 0x0A])) 4096 =
    Inr \<lparr>po_PID = 0, po_PPID = 1, po_Name = '') R 1 (x'', po_State = ''S'', po_UID = 0, po_Command = [], po_Executable = [], po_StartTicks = 99, po_CPUTicks = 50, po_RSSBytes = 0\<rparr>"
  using stat_roundtrip [of "CHR ''S''" "[1, 7, 7, 0, 0, 0, 0, 0, 0, 0, 20, 30, 0, 0, 0, 0, 0, 0, 99, 0, - 5]" 7 "'') R 1 (x''" 4096] by (simp add: plain_def)

text \<open>The command line of a process that any local user may start: three bytes that are not UTF-8, then a word that is taken for the name of a secret.\<close>

definition panic_command :: string where
  "panic_command = [CHR 0xFF, CHR 0xFF, CHR 0xFF] @ ''token=''"

text \<open>\<open>/proc\<close> with such a process, number 7.\<close>

definition with_process :: "procfs \<Rightarrow> procfs" where
  "with_process pr =
     pr\<lparr>pr_read := (pr_read pr)(''/proc/7/stat'' := Inr (stat_line 7 ''x'' (CHR ''S'') (replicate 21 1)), ''/proc/7/cmdline'' := Inr panic_command),
        pr_readdir := (pr_readdir pr)(''/proc'' := Inr ((''7'', True) # (case pr_readdir pr (''/proc'') of Inl _ \<Rightarrow> [] | Inr es \<Rightarrow> es)))\<rparr>"

lemma redact_panics: "redactCommand panic_command = None"
  by code_simp

lemma stat_7: "\<exists>info. parseProcessStat (TrimSpace (stat_line 7 ''x'' (CHR ''S'') (replicate 21 1))) page = Inr info"
proof -
  have e: "TrimSpace (stat_line 7 ''x'' (CHR ''S'') (replicate 21 1)) = TrimSpace (stat_line 7 ''x'' (CHR ''S'') (replicate 21 1) @ [CHR 0x0A])" by code_simp
  show ?thesis unfolding e by (subst parse_stat_line) (simp_all add: plain_def)
qed

text \<open>C22: one process stops every tool that looks at processes. \<open>redactCommand\<close> takes a position in the lower-cased word for a position in the word; bytes that are not UTF-8 grow when they are lower-cased,
  and the slice expression panics. While a process with such a command line runs, listing and searching processes panics for every query, and so do reading the process and taking its identity for an action.\<close>

theorem command_line_panics:
  "Process (NewLinux fallback) (with_process pr) 7 = None \<and> Linux_ProcessIdentity (NewLinux fallback) (with_process pr) 7 = None \<and> Processes (NewLinux fallback) (with_process pr) query = None"
proof -
  have path: "pid_path (NewLinux fallback) 7 name = pathJoin [''/proc/7'', name]" for name
  proof -
    have "pathJoin [''/proc'', itoa 7] = ''/proc/7''" by code_simp
    then show ?thesis by (simp add: pid_path_def NewLinux_def)
  qed
  have paths: "pathJoin [''/proc/7'', ''stat''] = ''/proc/7/stat''" "pathJoin [''/proc/7'', ''cmdline''] = ''/proc/7/cmdline''" by code_simp+
  have p: "Process (NewLinux fallback) (with_process pr) 7 = None"
    using stat_7 [of "pr_pagesize pr"] redact_panics
    by (auto simp: Process_def with_process_def readContext_def path paths Let_def)
  have "Atoi ''7'' = Some 7" by code_simp
  with p show ?thesis by (simp add: Linux_ProcessIdentity_def Processes_def Let_def NewLinux_def) (simp add: with_process_def)
qed

text \<open>The figures for memory add up and none of the subtractions wraps.\<close>

theorem memory_adds_up:
  "case Memory lp pr of Inl _ \<Rightarrow> True
   | Inr m \<Rightarrow> 0 < me_TotalBytes m \<and> me_AvailableBytes m \<le> me_TotalBytes m \<and> unat (me_UsedBytes m) + unat (me_AvailableBytes m) = unat (me_TotalBytes m)"
proof -
  have sub: "unat (t - a) + unat a = unat t" if "a \<le> t" for a t :: uint64 using that by (simp add: unat_sub word_le_nat_alt)
  have pos: "0 < t" if "t \<noteq> 0" for t :: uint64 using that by (simp add: word_gt_0)
  show ?thesis unfolding Memory_def Let_def using sub pos by (simp split: sum.split prod.split) (auto simp: not_less)
qed

text \<open>A process reported for a port has an open descriptor of a socket that the kernel lists with this local port, and is reported as \<open>Process\<close> reads it.\<close>

lemma owners_hold:
  "owners lp pr inodes seen es = Some out \<Longrightarrow> list_all (\<lambda>p. \<exists>name pid. holds_socket lp pr inodes name \<and> Atoi name = Some pid \<and> Process lp pr pid = Some (Inr p)) out"
proof (induction es arbitrary: seen out)
  case (Cons e es)
  then show ?case by (cases e) (fastforce split: option.splits sum.splits if_splits)
qed simp

theorem port_owners_hold_the_port:
  "case (socketInodesForPort lp pr port, ProcessesByPort lp pr port) of
     (Inr inodes, Some (Inr out)) \<Rightarrow> list_all (\<lambda>p. \<exists>name pid. holds_socket lp pr inodes name \<and> Atoi name = Some pid \<and> Process lp pr pid = Some (Inr p)) out
   | _ \<Rightarrow> True"
  using owners_hold by (fastforce simp: ProcessesByPort_def list_all_iff split: sum.splits option.splits)

text \<open>The identity of a process is read, not guessed: the digest is that of its command line, the executable is its link, or what the helper found when the link may not be read, and has a bounded length.\<close>

lemma validated: "validateProcessExecutable x = Inr y \<Longrightarrow> y = x \<and> x \<noteq> [] \<and> length x \<le> 4096"
  by (auto simp: validateProcessExecutable_def split: if_splits)

theorem identity_is_read:
  "case Linux_ProcessIdentity lp pr pid of
     Some (Inr i) \<Rightarrow> (\<exists>info. Process lp pr pid = Some (Inr info) \<and> pi_StartTicks i = po_StartTicks info \<and> pi_UID i = po_UID info)
       \<and> (\<exists>raw. pr_read pr (pathJoin [lp_procRoot lp, itoa pid, ''cmdline'']) = Inr raw \<and> pi_CommandDigest i = sha256_hex raw)
       \<and> (pr_readlink pr (pathJoin [lp_procRoot lp, itoa pid, ''exe'']) = Inr (pi_Executable i)
          \<or> (\<exists>f. lp_processExecutableFallback lp = Some f \<and> f pid (pi_UID i) = Inr (pi_Executable i)))
       \<and> pi_Executable i \<noteq> [] \<and> length (pi_Executable i) \<le> 4096
   | _ \<Rightarrow> True"
  by (auto simp: Linux_ProcessIdentity_def resolveProcessExecutable_def readContext_def split: option.splits sum.splits if_splits dest!: validated)

end
