(* ===== verification/Spec2Isabelle.thy ===== *)
theory Spec2Isabelle
  imports Handlers Api Registry Safefs Procfs
begin

text \<open>
  SafeOps Agent: a verification development.

  \<^bold>\<open>The program.\<close> An operations agent for Linux hosts. A user posts a request to a session over HTTP (\<open>internal/api\<close>). The orchestrator (\<open>internal/agent\<close>) stores it as a task, claims the task
  with a worker lease and either runs one of a few fixed workflows or lets a language model plan within bounds; tools are reached through a registry of MCP servers (\<open>internal/registry\<close>). Reads pass a
  safety pipeline (\<open>internal/guard\<close>) one by one. A write is never executed by the agent: it becomes a signed envelope (\<open>contracts\<close>) bound to a record in the approval store
  (\<open>internal/approval\<close>), the task waits, and only after a person approved it is the envelope sent to the privileged executor (\<open>internal/executor\<close>, \<open>cmd/safeops-privexec\<close>), a separate process that
  checks everything again, consumes the approval and a nonce, and acts. Deletion is a reversible quarantine (\<open>internal/rollback\<close>). Tasks, sessions and approvals are JSON files
  (\<open>internal/storage\<close>), every decision is recorded in a hash-chained trace (\<open>internal/trace\<close>).

  \<^bold>\<open>How it is modelled.\<close> Go functions are HOL functions with the source's names; structs are records, enumerations datatypes, a Go \<open>string\<close> a list of bytes, \<open>uint64\<close> a 64-bit word. Stateful code passes its
  state: a disk (\<open>Prelude\<close>) is a map from paths to contents with a schedule that says which system call fails, so that a theorem about all disks is one about every failure and every crash point. Errors
  are values of \<open>go_error\<close> in a sum type, a panic is \<open>None\<close>. Clock readings, fresh ids and the bytes a torn write leaves are arguments. Code outside the repository (the planner, MCP servers,
  \<open>/proc\<close> and systemd, the YAML parser, the HTTP client) is an argument too, and the safety theorems hold for every such argument.

  \<^bold>\<open>Theories, from the bottom.\<close>
  \<^item> \<open>Prelude\<close> (errors, results, disks, the locale \<open>document_store\<close> of the write-temporary-then-rename discipline), \<open>GoLib\<close>, \<open>GoPath\<close> (the locale \<open>path_containment\<close>), \<open>Json\<close>, \<open>GoTime\<close>, \<open>Crypto\<close>, \<open>Regex\<close>, \<open>Host\<close>: the
    part of Go's library the program computes with, executable: path cleaning, JSON text, SHA-256 and HMAC, leftmost-first matching of regular expressions on decoded runes.
  \<^item> \<open>Contracts\<close> (\<open>contracts\<close>): proposals, decisions, envelopes; two envelopes with one digest are equal or a collision of SHA-256 is at hand.
  \<^item> \<open>Guard\<close> (\<open>internal/guard\<close>): the catalogue, the three guards and the pipeline; its decision is characterised exactly.
  \<^item> \<open>Approval\<close> (\<open>internal/approval\<close>), \<open>Nonce\<close>, \<open>Config\<close>, \<open>Targets\<close>, \<open>Executor\<close> (\<open>internal/executor\<close>): whatever an envelope contains and whatever fails, a handler runs only after every check passed;
    an approval is consumed at most once and authorises one execution. The locale \<open>action_gate\<close> states what the executor relies on in scope and target checks.
  \<^item> \<open>Quarantine\<close>, \<open>Quarantine_Safety\<close> (\<open>internal/rollback\<close>), \<open>Handlers\<close> (the mutation handlers and their table): no file is lost or overwritten by any history of operations with failures anywhere, a crash is
    reconciled by \<open>Recover\<close>, restoring inverts quarantining, and an execution changes nothing but its target.
  \<^item> \<open>Storage\<close>, \<open>Storage_Safety\<close> (\<open>internal/storage\<close>, \<open>task\<close>, \<open>session\<close>): leases, fencing, the journal that makes the creation of a task atomic.
  \<^item> \<open>Redact\<close>, \<open>Trace\<close>, \<open>Trace_Safety\<close>, \<open>Trace_Theorems\<close> (\<open>internal/trace\<close>): appending is atomic under failures, the trace is append-only and tamper-evident, sensitive values are redacted.
  \<^item> \<open>Preparer\<close>, \<open>Agent\<close>, \<open>Resume\<close> (\<open>action_preparer.go\<close>, \<open>approval_resume.go\<close>): from a proposal to a waiting task, and from an approval to at most one execution.
  \<^item> \<open>Planner\<close>, \<open>Read_Scope\<close>, \<open>Runtime\<close>, \<open>Schema\<close>, \<open>Session_Context\<close>, \<open>Managed\<close>, \<open>General\<close>, \<open>General_Safety\<close>: the bounded investigation, with every decision of the planner arbitrary. It terminates, calls only tools that
    were discovered, in scope and allowed, never writes, and ends in one of the documented states. The locale \<open>tool_world\<close> states what the proofs need of the outside world.
  \<^item> \<open>File_Action\<close>, \<open>Metrics\<close>, \<open>Decode\<close>, \<open>Workflow\<close>, \<open>Port_Recovery\<close>, \<open>Cpu_Recovery\<close>, \<open>Disk_Recovery\<close>, \<open>Recovery_Safety\<close>: the fixed workflows. A recovery waits for the approval of a termination that its evidence justifies, and
    reports success only after fresh evidence of the recovery.
  \<^item> \<open>Orchestration\<close> (\<open>orchestrator.go\<close>): \<open>Prepare\<close>, \<open>Run\<close> with its deferred functions, \<open>RecoverIncomplete\<close>; an action that may have been executed before a crash is never repeated.
  \<^item> \<open>Hub\<close>, \<open>Api\<close> (\<open>internal/api\<close>): the HTTP handlers on sessions, messages, approvals, tasks and event streams; one run per session, slots are not lost, only an approval acts.
  \<^item> \<open>Registry\<close> (\<open>internal/registry\<close>): the tools offered to the planner are the tools that can be called.
  \<^item> \<open>Safefs\<close> (\<open>internal/safefs\<close>): the file reader of the tool servers over a tree of files; it opens nothing outside its roots and no symbolic link, with \<open>openat2\<close> as without, and its answers are bounded.
  \<^item> \<open>Procfs\<close> (\<open>internal/platform\<close>): what is read of \<open>/proc\<close>, for the tool servers and for the identity of the process an action is about; a process cannot forge its row, but a command line can stop the tools.

  \<^bold>\<open>Interleaving.\<close> Operations on one store are sequential in the program, by file locks and mutexes, and steps of a relation or of a list of operations here; between two operations anything may
  happen that another process may do. Histories of approvals, nonces, quarantine, trace, leases, resumes, the event hub, the API server and the registry are arbitrary sequences of such operations.

  \<^bold>\<open>Bounds and fuel.\<close> There is no fuel. Loops over data are structural or have a measure; the loop of the investigation is a \<open>partial_function\<close> on options, and \<open>general_run_terminates\<close> proves that
  it always returns, by its budget of 12 iterations and 30 calls and a bound on replanning; \<open>run_returns\<close> extends this to \<open>Run\<close>. Counters of the source that are Go \<open>int\<close> are integers where a bound
  keeps them small, the fencing counter and the event numbers are words and wrap.

  \<^bold>\<open>Left out of modelled parts.\<close> Cancellation of contexts from outside except as a failing call, events for the user interface inside runs, timeouts, log output, file modes and ownership beyond those checked.

  \<^bold>\<open>Not modelled.\<close> \<open>internal/perception\<close>, \<open>internal/mcpservers\<close>, \<open>internal/target\<close> and what \<open>internal/platform\<close> gets from commands and system calls describe the host for display or are answers of other programs: they are arguments. \<open>internal/llm\<close>
  beyond its interface talks to a model over HTTP. \<open>internal/rca\<close>, \<open>internal/evidence\<close> and \<open>internal/retrieval\<close> compute advisory scores in floating point, no decision of the agent depends on them.
  \<open>internal/benchmark\<close>, \<open>internal/lab\<close> and the demonstration programs under \<open>cmd\<close> are test equipment. The remaining handlers of \<open>internal/api\<close> (settings, allow list, overview, static files) pass values between
  components.
\<close>

end
